(* ===== verification/Whoosh_Prelude.thy ===== *)
theory Whoosh_Prelude
  imports Complex_Main "HOL-Library.AList" "HOL-Library.Multiset" "HOL-Library.Sublist"
    "HOL-Library.Char_ord" "HOL-Library.List_Lexorder"
begin

text \<open>
  Shared vocabulary of the development: Python values, the string methods the broker uses,
  insertion-ordered dictionaries, and the generic lemmas about them.

  A Python \<open>str\<close> is a \<open>string\<close>, each \<open>char\<close> being one code point below 256 (Latin-1); the
  character predicates below follow CPython on that range. A \<open>float\<close> that the code only
  compares and adds (clock readings, deadlines) is a \<open>real\<close>. A \<open>dict\<close> is an association
  list in insertion order: \<open>AList.update\<close> overwrites in place and otherwise appends, and
  \<open>AList.delete\<close> removes, as \<open>d[k] = v\<close> and \<open>d.pop(k, None)\<close> do.
\<close>

named_theorems py_simps \<open>unfolding rules for the Python library functions\<close>
named_theorems dict_simps \<open>lookup and key lemmas for insertion-ordered dictionaries\<close>
named_theorems inv_intros \<open>preservation of component invariants\<close>

section \<open>Python values\<close>

datatype pyval =
    PNone
  | PBool bool
  | PInt int
  | PFloat real
  | PStr string
  | PList "pyval list"
  | PDict "(string \<times> pyval) list"

text \<open>An optional string as the Python value the callers pass.\<close>

definition opt_str :: "string option \<Rightarrow> pyval" where
  "opt_str s = (case s of None \<Rightarrow> PNone | Some t \<Rightarrow> PStr t)"

text \<open>\<open>bool(v)\<close>: the truth value of a Python value.\<close>

fun truthy :: "pyval \<Rightarrow> bool" where
  "truthy PNone = False"
| "truthy (PBool b) = b"
| "truthy (PInt i) = (i \<noteq> 0)"
| "truthy (PFloat r) = (r \<noteq> 0)"
| "truthy (PStr s) = (s \<noteq> [])"
| "truthy (PList xs) = (xs \<noteq> [])"
| "truthy (PDict d) = (d \<noteq> [])"

fun truthy_opt :: "pyval option \<Rightarrow> bool" where
  "truthy_opt None = False"
| "truthy_opt (Some v) = truthy v"

text \<open>An optional string is true when it is present and not empty.\<close>

fun str_true :: "string option \<Rightarrow> bool" where
  "str_true None = False"
| "str_true (Some s) = (s \<noteq> [])"

section \<open>Characters and strings\<close>

abbreviation cp :: "char \<Rightarrow> nat" where
  "cp c \<equiv> of_char c"

definition is_digit :: "char \<Rightarrow> bool" where
  "is_digit c = (48 \<le> cp c \<and> cp c \<le> 57)"

definition is_lower :: "char \<Rightarrow> bool" where
  "is_lower c = (97 \<le> cp c \<and> cp c \<le> 122)"

definition is_upper :: "char \<Rightarrow> bool" where
  "is_upper c = (65 \<le> cp c \<and> cp c \<le> 90)"

definition is_alpha :: "char \<Rightarrow> bool" where
  "is_alpha c = (is_lower c \<or> is_upper c)"

definition is_alnum :: "char \<Rightarrow> bool" where
  "is_alnum c = (is_alpha c \<or> is_digit c)"

text \<open>\<open>c.isalnum()\<close> on Latin-1: letters, digits and the superscript and ordinal signs.\<close>

definition py_isalnum :: "char \<Rightarrow> bool" where
  "py_isalnum c =
     (is_alnum c \<or> cp c \<in> {170, 178, 179, 181, 185, 186, 188, 189, 190}
      \<or> 192 \<le> cp c \<and> cp c \<noteq> 215 \<and> cp c \<noteq> 247)"

definition py_is_space :: "char \<Rightarrow> bool" where
  "py_is_space c = (9 \<le> cp c \<and> cp c \<le> 13 \<or> 28 \<le> cp c \<and> cp c \<le> 32 \<or> cp c = 133 \<or> cp c = 160)"

definition char_lower :: "char \<Rightarrow> char" where
  "char_lower c =
     (if is_upper c \<or> 192 \<le> cp c \<and> cp c \<le> 222 \<and> cp c \<noteq> 215 then char_of (cp c + 32) else c)"

definition py_lower :: "string \<Rightarrow> string" where
  "py_lower s = map char_lower s"

definition py_lstrip :: "string \<Rightarrow> string" where
  "py_lstrip s = dropWhile py_is_space s"

definition py_rstrip_chars :: "(char \<Rightarrow> bool) \<Rightarrow> string \<Rightarrow> string" where
  "py_rstrip_chars p s = rev (dropWhile p (rev s))"

definition py_strip :: "string \<Rightarrow> string" where
  "py_strip s = py_rstrip_chars py_is_space (py_lstrip s)"

fun startswith :: "string \<Rightarrow> string \<Rightarrow> bool" where
  "startswith s [] = True"
| "startswith [] (p # ps) = False"
| "startswith (c # cs) (p # ps) = (c = p \<and> startswith cs ps)"

definition endswith :: "string \<Rightarrow> string \<Rightarrow> bool" where
  "endswith s p = startswith (rev s) (rev p)"

text \<open>\<open>s.startswith((p1, p2, ...))\<close>.\<close>

definition startswith_any :: "string \<Rightarrow> string list \<Rightarrow> bool" where
  "startswith_any s ps = list_ex (startswith s) ps"

text \<open>\<open>p in s\<close> for strings: a contiguous occurrence.\<close>

fun py_contains :: "string \<Rightarrow> string \<Rightarrow> bool" where
  "py_contains [] p = (p = [])"
| "py_contains (c # cs) p = (startswith (c # cs) p \<or> py_contains cs p)"

text \<open>The last segment of a \<open>/\<close>-separated text, \<open>s.rsplit("/", 1)[-1]\<close>, and what precedes it.\<close>

definition last_segment :: "string \<Rightarrow> string" where
  "last_segment s = rev (takeWhile (\<lambda>c. c \<noteq> CHR ''/'') (rev s))"

definition before_last_segment :: "string \<Rightarrow> string" where
  "before_last_segment s = rev (tl (dropWhile (\<lambda>c. c \<noteq> CHR ''/'') (rev s)))"

text \<open>\<open>s.split("/", 1)[0]\<close>.\<close>

definition first_segment :: "string \<Rightarrow> string" where
  "first_segment s = takeWhile (\<lambda>c. c \<noteq> CHR ''/'') s"

text \<open>\<open>s.partition(sep)\<close>: the text before the first occurrence, whether there is one, the rest.\<close>

fun py_partition :: "string \<Rightarrow> string \<Rightarrow> string \<times> bool \<times> string" where
  "py_partition sep [] = ([], False, [])"
| "py_partition sep (c # cs) =
     (if startswith (c # cs) sep then ([], True, drop (length sep) (c # cs))
      else case py_partition sep cs of (h, f, t) \<Rightarrow> (c # h, f, t))"

text \<open>\<open>s.rsplit(sep, 1)[1]\<close> when \<open>sep in s\<close>: what follows the last occurrence.\<close>

fun after_last :: "string \<Rightarrow> string \<Rightarrow> string option" where
  "after_last sep [] = None"
| "after_last sep (c # cs) =
     (case after_last sep cs of
        Some t \<Rightarrow> Some t
      | None \<Rightarrow> (if startswith (c # cs) sep then Some (drop (length sep) (c # cs)) else None))"

text \<open>\<open>re.split(r"[^...]+", s)\<close> without the empty pieces: the maximal runs of kept characters.\<close>

fun py_words_aux :: "(char \<Rightarrow> bool) \<Rightarrow> string \<Rightarrow> string \<Rightarrow> string list" where
  "py_words_aux keep acc [] = (if acc = [] then [] else [rev acc])"
| "py_words_aux keep acc (c # cs) =
     (if keep c then py_words_aux keep (c # acc) cs
      else (if acc = [] then py_words_aux keep [] cs else rev acc # py_words_aux keep [] cs))"

definition py_words :: "(char \<Rightarrow> bool) \<Rightarrow> string \<Rightarrow> string list" where
  "py_words keep s = py_words_aux keep [] s"

text \<open>\<open>re.fullmatch(r"[...]{lo,hi}", s)\<close>.\<close>

definition class_match :: "(char \<Rightarrow> bool) \<Rightarrow> nat \<Rightarrow> nat \<Rightarrow> string \<Rightarrow> bool" where
  "class_match p lo hi s = (lo \<le> length s \<and> length s \<le> hi \<and> list_all p s)"

lemma startswith_iff: "startswith s p \<longleftrightarrow> take (length p) s = p"
  by (induction s p rule: startswith.induct) auto

lemma startswith_append [simp]: "startswith (p @ s) p"
  by (simp add: startswith_iff)

lemma startswith_prefix: "startswith s p \<longleftrightarrow> (\<exists>t. s = p @ t)"
  unfolding startswith_iff by (metis append_eq_conv_conj append_take_drop_id)

lemma endswith_suffix: "endswith s p \<longleftrightarrow> (\<exists>t. s = t @ p)"
  unfolding endswith_def startswith_prefix by (metis rev_append rev_rev_ident)

lemma class_match_take: "class_match p lo hi s \<Longrightarrow> length s \<le> n \<Longrightarrow> take n s = s"
  by (simp add: class_match_def)

section \<open>Decimal integers: \<open>int(s)\<close> and \<open>str(i)\<close>\<close>

text \<open>
  \<open>int(s)\<close> strips white space, accepts one sign, and allows single underscores between
  digits; CPython refuses literals of more than 4300 digits. \<open>None\<close> is \<open>ValueError\<close>.
\<close>

fun py_digits :: "bool \<Rightarrow> string \<Rightarrow> string option" where
  "py_digits seen [] = (if seen then Some [] else None)"
| "py_digits seen (c # cs) =
     (if is_digit c then map_option (Cons c) (py_digits True cs)
      else if c = CHR ''_'' \<and> seen then py_digits False cs
      else None)"

definition digit_val :: "char \<Rightarrow> int" where
  "digit_val c = int (cp c) - 48"

definition digits_val :: "string \<Rightarrow> int" where
  "digits_val ds = foldl (\<lambda>a c. 10 * a + digit_val c) 0 ds"

definition int_max_str_digits :: nat where
  "int_max_str_digits = 4300"

definition py_unsigned :: "string \<Rightarrow> int option" where
  "py_unsigned s =
     (case py_digits False s of
        None \<Rightarrow> None
      | Some ds \<Rightarrow> (if int_max_str_digits < length ds then None else Some (digits_val ds)))"

definition py_int :: "string \<Rightarrow> int option" where
  "py_int s =
     (case py_strip s of
        [] \<Rightarrow> None
      | c # cs \<Rightarrow>
          (if c = CHR ''-'' then map_option uminus (py_unsigned cs)
           else if c = CHR ''+'' then py_unsigned cs
           else py_unsigned (c # cs)))"

definition digit_char :: "nat \<Rightarrow> char" where
  "digit_char n = char_of (48 + n)"

fun show_nat :: "nat \<Rightarrow> string" where
  "show_nat n = (if n < 10 then [digit_char n] else show_nat (n div 10) @ [digit_char (n mod 10)])"

declare show_nat.simps [simp del]

definition py_str_int :: "int \<Rightarrow> string" where
  "py_str_int i = (if i < 0 then CHR ''-'' # show_nat (nat (- i)) else show_nat (nat i))"

lemma cp_digit_char: "n < 10 \<Longrightarrow> cp (digit_char n) = 48 + n"
  by (simp add: digit_char_def)

lemma is_digit_digit_char: "n < 10 \<Longrightarrow> is_digit (digit_char n)"
  by (simp add: is_digit_def cp_digit_char)

lemma show_nat_digits: "list_all is_digit (show_nat n)"
proof (induction n rule: show_nat.induct)
  case (1 n)
  then show ?case
    by (subst show_nat.simps) (auto simp: is_digit_digit_char)
qed

lemma show_nat_Nil [simp]: "show_nat n \<noteq> []"
  by (subst show_nat.simps) simp

lemma digits_val_snoc: "digits_val (ds @ [c]) = 10 * digits_val ds + digit_val c"
  by (simp add: digits_val_def)

lemma digits_val_show_nat: "digits_val (show_nat n) = int n"
proof (induction n rule: show_nat.induct)
  case (1 n)
  show ?case
  proof (cases "n < 10")
    case True
    then show ?thesis
      by (subst show_nat.simps) (simp add: digits_val_def digit_val_def cp_digit_char)
  next
    case False
    with "1.IH" have "digits_val (show_nat (n div 10)) = int (n div 10)" by simp
    with False show ?thesis
      by (subst show_nat.simps)
        (simp add: digits_val_snoc digit_val_def cp_digit_char zdiv_int zmod_int)
  qed
qed

lemma py_digits_all: "list_all is_digit ds \<Longrightarrow> ds \<noteq> [] \<or> seen \<Longrightarrow> py_digits seen ds = Some ds"
  by (induction ds arbitrary: seen) auto

lemma digit_not_space: "is_digit c \<Longrightarrow> \<not> py_is_space c"
  by (auto simp: is_digit_def py_is_space_def)

lemma py_strip_no_space: "list_all (\<lambda>c. \<not> py_is_space c) s \<Longrightarrow> py_strip s = s"
proof -
  assume *: "list_all (\<lambda>c. \<not> py_is_space c) s"
  have drop_id: "dropWhile py_is_space t = t" if "list_all (\<lambda>c. \<not> py_is_space c) t" for t
    using that by (cases t) auto
  from * have "list_all (\<lambda>c. \<not> py_is_space c) (rev s)" by simp
  with * show ?thesis
    by (simp add: py_strip_def py_lstrip_def py_rstrip_chars_def drop_id)
qed

lemma show_nat_no_space: "list_all (\<lambda>c. \<not> py_is_space c) (show_nat n)"
  using show_nat_digits[of n] by (auto simp: list_all_iff digit_not_space)

lemma py_unsigned_show_nat:
  "py_unsigned (show_nat n) =
     (if int_max_str_digits < length (show_nat n) then None else Some (int n))"
  by (simp add: py_unsigned_def py_digits_all show_nat_digits digits_val_show_nat)

lemma py_int_str_nonneg:
  "py_int (show_nat n) = py_unsigned (show_nat n)"
proof -
  obtain c cs where eq: "show_nat n = c # cs"
    using show_nat_Nil[of n] by (cases "show_nat n") auto
  have "is_digit c" using show_nat_digits[of n] eq by simp
  then have "c \<noteq> CHR ''-''" and "c \<noteq> CHR ''+''" by (auto simp: is_digit_def)
  then show ?thesis
    using py_strip_no_space[OF show_nat_no_space[of n]] by (simp add: py_int_def eq)
qed

lemma py_int_str_neg:
  "py_int (CHR ''-'' # show_nat n) = map_option uminus (py_unsigned (show_nat n))"
proof -
  have "list_all (\<lambda>c. \<not> py_is_space c) (CHR ''-'' # show_nat n)"
    using show_nat_no_space[of n] by (simp add: py_is_space_def)
  then show ?thesis by (simp add: py_int_def py_strip_no_space)
qed

lemma py_int_roundtrip: "py_int (py_str_int i) = Some i \<or> py_int (py_str_int i) = None"
  by (auto simp: py_str_int_def py_int_str_nonneg py_int_str_neg py_unsigned_show_nat)

lemma show_nat_inj [simp]: "show_nat m = show_nat n \<longleftrightarrow> m = n"
  by (metis digits_val_show_nat of_nat_eq_iff)

text \<open>\<open>sep.join(xs)\<close>.\<close>

fun py_join :: "string \<Rightarrow> string list \<Rightarrow> string" where
  "py_join sep [] = []"
| "py_join sep [x] = x"
| "py_join sep (x # y # ys) = x @ sep @ py_join sep (y # ys)"

section \<open>Insertion-ordered dictionaries\<close>

type_synonym ('k, 'v) dict = "('k \<times> 'v) list"

abbreviation dget :: "('k, 'v) dict \<Rightarrow> 'k \<Rightarrow> 'v option" where
  "dget d k \<equiv> map_of d k"

abbreviation dset :: "'k \<Rightarrow> 'v \<Rightarrow> ('k, 'v) dict \<Rightarrow> ('k, 'v) dict" where
  "dset k v d \<equiv> AList.update k v d"

abbreviation dpop :: "'k \<Rightarrow> ('k, 'v) dict \<Rightarrow> ('k, 'v) dict" where
  "dpop k d \<equiv> AList.delete k d"

abbreviation dkeys :: "('k, 'v) dict \<Rightarrow> 'k list" where
  "dkeys d \<equiv> map fst d"

abbreviation dvals :: "('k, 'v) dict \<Rightarrow> 'v list" where
  "dvals d \<equiv> map snd d"

abbreviation dict_ok :: "('k, 'v) dict \<Rightarrow> bool" where
  "dict_ok d \<equiv> distinct (dkeys d)"

text \<open>Lookups stay lookups: the library's rules would turn them into membership.\<close>

declare map_of_eq_Some_iff [simp del] Some_eq_map_of_iff [simp del]

lemma dget_dset [dict_simps]: "dget (dset k v d) = (dget d)(k \<mapsto> v)"
  by (rule update_conv')

lemma dget_dpop [dict_simps]: "dget (dpop k d) = (dget d)(k := None)"
  by (rule delete_conv')

lemma dkeys_dset_in [dict_simps]: "k \<in> set (dkeys d) \<Longrightarrow> dkeys (dset k v d) = dkeys d"
  by (induction d) auto

lemma dset_fresh [dict_simps]: "k \<notin> set (dkeys d) \<Longrightarrow> dset k v d = d @ [(k, v)]"
  by (induction d) auto

lemma dict_ok_dset [inv_intros, simp]: "dict_ok d \<Longrightarrow> dict_ok (dset k v d)"
  by (rule distinct_update)

lemma dict_ok_dpop [inv_intros, simp]: "dict_ok d \<Longrightarrow> dict_ok (dpop k d)"
  by (rule distinct_delete)

lemma dpop_fresh [dict_simps]: "k \<notin> set (dkeys d) \<Longrightarrow> dpop k d = d"
  by (induction d) auto

lemma dget_key: "dget d k = Some v \<Longrightarrow> k \<in> set (dkeys d)"
  by (force dest: map_of_SomeD)

lemma key_dget: "k \<in> set (dkeys d) \<Longrightarrow> \<exists>v. dget d k = Some v"
  by (metis map_of_eq_None_iff not_Some_eq set_map)

lemma dkeys_dpop [simp]: "fst ` set (dpop k d) = fst ` set d - {k}"
  by (induction d) auto

text \<open>Counting the values that satisfy a predicate, and how the count moves with one update.\<close>

definition dcount :: "('v \<Rightarrow> bool) \<Rightarrow> ('k, 'v) dict \<Rightarrow> nat" where
  "dcount P d = length (filter (\<lambda>kv. P (snd kv)) d)"

lemma dcount_Nil [simp]: "dcount P [] = 0"
  by (simp add: dcount_def)

lemma dcount_Cons [simp]: "dcount P (kv # d) = (if P (snd kv) then Suc (dcount P d) else dcount P d)"
  by (simp add: dcount_def)

lemma dcount_append [simp]: "dcount P (d @ e) = dcount P d + dcount P e"
  by (simp add: dcount_def)

lemma dcount_dset_fresh [dict_simps]:
  "k \<notin> set (dkeys d) \<Longrightarrow> dcount P (dset k v d) = dcount P d + (if P v then 1 else 0)"
  by (simp add: dset_fresh)

lemma dcount_dset:
  "dict_ok d \<Longrightarrow> dget d k = Some w \<Longrightarrow>
     dcount P (dset k v d) + (if P w then 1 else 0) = dcount P d + (if P v then 1 else 0)"
proof (induction d)
  case Nil
  then show ?case by simp
next
  case (Cons kv d)
  then show ?case by (cases kv) (auto split: if_splits)
qed

lemma dcount_dpop:
  "dict_ok d \<Longrightarrow> dget d k = Some w \<Longrightarrow>
     dcount P (dpop k d) + (if P w then 1 else 0) = dcount P d"
proof (induction d)
  case Nil
  then show ?case by simp
next
  case (Cons kv d)
  then show ?case
    by (cases kv) (auto simp: dict_simps split: if_splits)
qed

lemma dcount_le_length: "dcount P d \<le> length d"
  by (simp add: dcount_def)

lemma dcount_pos_iff: "0 < dcount P d \<longleftrightarrow> (\<exists>v \<in> set (dvals d). P v)"
  by (auto simp: dcount_def filter_empty_conv)

section \<open>The dictionary interface\<close>

text \<open>
  What the components rely on of a keyed store: lookup after a write, lookup after a removal,
  and that both keep the well-formedness of the store. The clients' lemmas are proved once
  over the interface; the interpretation below discharges the laws for the association lists
  that model Python's \<open>dict\<close>.
\<close>

locale keyed_store =
  fixes get :: "'s \<Rightarrow> 'k \<Rightarrow> 'v option"
    and put :: "'k \<Rightarrow> 'v \<Rightarrow> 's \<Rightarrow> 's"
    and drop_key :: "'k \<Rightarrow> 's \<Rightarrow> 's"
    and keys_of :: "'s \<Rightarrow> 'k list"
    and ok :: "'s \<Rightarrow> bool"
  assumes get_put: "get (put k v s) = (get s)(k \<mapsto> v)"
    and get_drop: "get (drop_key k s) = (get s)(k := None)"
    and ok_put: "ok s \<Longrightarrow> ok (put k v s)"
    and ok_drop: "ok s \<Longrightarrow> ok (drop_key k s)"
    and keys_get: "set (keys_of s) = dom (get s)"
begin

lemma put_put_same: "get (put k w (put k v s)) = get (put k w s)"
  by (simp add: get_put)

lemma put_commute: "j \<noteq> k \<Longrightarrow> get (put j v (put k w s)) = get (put k w (put j v s))"
  by (simp add: get_put fun_upd_twist)

lemma drop_put: "get (drop_key k (put k v s)) = get (drop_key k s)"
  by (simp add: get_put get_drop)

lemma keys_put: "set (keys_of (put k v s)) = insert k (set (keys_of s))"
  by (simp add: keys_get get_put)

lemma keys_drop: "set (keys_of (drop_key k s)) = set (keys_of s) - {k}"
  by (simp add: keys_get get_drop)

lemma get_None_iff: "get s k = None \<longleftrightarrow> k \<notin> set (keys_of s)"
  by (auto simp: keys_get)

end

interpretation pd: keyed_store
  "\<lambda>d. map_of d" "AList.update" "AList.delete" "map fst" "\<lambda>d. distinct (map fst d)"
  by unfold_locales (simp_all add: dict_simps dom_map_of_conv_image_fst)

lemmas dict_keys = pd.keys_put pd.keys_drop pd.get_None_iff

section \<open>Machines driven by operations\<close>

text \<open>
  Several components are objects whose methods are called in any order. \<open>step op s\<close> is the state
  after one call; what every method keeps, every sequence of calls keeps.
\<close>

locale op_machine =
  fixes step :: "'op \<Rightarrow> 's \<Rightarrow> 's"
    and inv :: "'s \<Rightarrow> bool"
  assumes step_inv: "inv s \<Longrightarrow> inv (step op s)"
begin

lemma run_inv: "inv s \<Longrightarrow> inv (fold step ops s)"
  by (induction ops arbitrary: s) (simp_all add: step_inv)

text \<open>A quantity that no call raises, or a fact that no call destroys, holds along a run.\<close>

lemma run_stable:
  assumes "\<And>op s. inv s \<Longrightarrow> P s \<Longrightarrow> P (step op s)" "inv s" "P s"
  shows "P (fold step ops s)"
  using assms(2,3) by (induction ops arbitrary: s) (simp_all add: step_inv assms(1))

lemma run_related:
  assumes "\<And>op s. inv s \<Longrightarrow> R s (step op s)" "\<And>s. R s s" "\<And>a b c. R a b \<Longrightarrow> R b c \<Longrightarrow> R a c" "inv s"
  shows "R s (fold step ops s)"
  using assms(4)
proof (induction ops arbitrary: s)
  case (Cons op ops)
  then show ?case using assms(1,3) step_inv[of s op] by (metis fold_simps(2))
qed (simp add: assms(2))

end

end
