(* ===== verification/Correlation.thy ===== *)
theory Correlation
  imports Whoosh_Prelude
begin

text \<open>
  \<open>whooshd/correlation.py\<close>: bounded request-correlation identifiers. A value is a Python
  value; only a string that already conforms to the wire contract survives.
\<close>

definition MAX_IDENTIFIER_LENGTH :: nat where
  "MAX_IDENTIFIER_LENGTH = 128"

definition safe_identifier_char :: "char \<Rightarrow> bool" where
  "safe_identifier_char c = (is_alnum c \<or> c \<in> set ''._:-'')"

definition safe_identifier_re :: "string \<Rightarrow> bool" where
  "safe_identifier_re s = class_match safe_identifier_char 1 128 s"

fun normalize_identifier :: "pyval \<Rightarrow> string option" where
  "normalize_identifier (PStr s) = (if safe_identifier_re s then Some s else None)"
| "normalize_identifier _ = None"

definition is_valid_identifier :: "pyval \<Rightarrow> bool" where
  "is_valid_identifier v = (normalize_identifier v \<noteq> None)"

text \<open>\<open>uuid.uuid4().hex\<close> is drawn by the caller and passed in.\<close>

definition generate_whoosh_request_id :: "string \<Rightarrow> string" where
  "generate_whoosh_request_id hex = ''whoosh-'' @ hex"

definition correlation_response_headers :: "pyval \<Rightarrow> pyval \<Rightarrow> (string, string) dict" where
  "correlation_response_headers upstream_request_id whoosh_request_id =
     (let h0 = [];
          h1 = (case normalize_identifier upstream_request_id of
                  None \<Rightarrow> h0 | Some u \<Rightarrow> dset ''X-Request-ID'' u h0)
      in case normalize_identifier whoosh_request_id of
           None \<Rightarrow> h1 | Some w \<Rightarrow> dset ''X-Whoosh-Request-ID'' w h1)"

lemma normalize_identifier_Some:
  "normalize_identifier v = Some s \<longleftrightarrow> v = PStr s \<and> safe_identifier_re s"
  by (cases v) auto

lemma normalize_identifier_idem:
  "normalize_identifier (opt_str (normalize_identifier v)) = normalize_identifier v"
  by (cases "normalize_identifier v") (auto simp: opt_str_def normalize_identifier_Some)

definition hex_digit :: "char \<Rightarrow> bool" where
  "hex_digit c = (is_digit c \<or> 97 \<le> cp c \<and> cp c \<le> 102)"

text \<open>A generated lifecycle identifier conforms to the identifier contract.\<close>

lemma generated_id_safe:
  assumes "length hex = 32" and "list_all hex_digit hex"
  shows "safe_identifier_re (generate_whoosh_request_id hex)"
proof -
  have "safe_identifier_char c" if "hex_digit c" for c
    using that by (auto simp: hex_digit_def safe_identifier_char_def is_alnum_def is_alpha_def
        is_lower_def)
  with assms have "list_all safe_identifier_char hex" by (auto simp: list_all_iff)
  moreover have "list_all safe_identifier_char ''whoosh-''"
    by (simp add: safe_identifier_char_def is_alnum_def is_alpha_def is_lower_def is_upper_def
        is_digit_def)
  ultimately show ?thesis
    using assms(1) by (simp add: safe_identifier_re_def class_match_def
        generate_whoosh_request_id_def)
qed

text \<open>The response headers carry an identity only when it conforms, unchanged, and the two
  identities never replace each other.\<close>

lemma correlation_headers_lookup:
  "dget (correlation_response_headers u w) ''X-Request-ID'' = normalize_identifier u"
  "dget (correlation_response_headers u w) ''X-Whoosh-Request-ID'' = normalize_identifier w"
  by (auto simp: correlation_response_headers_def Let_def dict_simps split: option.splits)

end
