(* ===== verification/Control_Plane.thy ===== *)
theory Control_Plane
  imports Correlation
begin

text \<open>
  \<open>whooshd/control_plane.py\<close>: the versioned error vocabulary, its retry semantics, the
  bounding of operational details, and the negotiation of the contract version headers.
\<close>

section \<open>Error vocabulary\<close>

datatype ErrorCode =
    INVALID_REQUEST | UNSUPPORTED_FIELD | UNSUPPORTED_CAPABILITY | CONTRACT_VERSION_UNSUPPORTED
  | MODEL_NOT_FOUND | MODEL_UNAVAILABLE | MODEL_WARMING | MODEL_LOAD_FAILED
  | RUNTIME_UNAVAILABLE | RUNTIME_DEGRADED
  | RUNNER_OVERLOADED | QUEUE_FULL_CODE | TIMEOUT | CANCELLED_CODE | CONTEXT_OVERFLOW_CODE
  | UPSTREAM_UNAVAILABLE | UPSTREAM_TIMEOUT | UPSTREAM_PROTOCOL_ERROR | STREAM_INTERRUPTED
  | MALFORMED_UPSTREAM_RESPONSE
  | INTERNAL_ERROR

datatype ErrorCategory =
    REQUEST_CONTRACT | MODEL_RUNTIME | CAPACITY_EXECUTION | UPSTREAM_PROTOCOL | INTERNAL

record ErrorSpec =
  category :: ErrorCategory
  http_status :: int
  retryable :: bool
  retry_after_seconds :: "real option"

definition DEFAULT_RETRY_AFTER_SECONDS :: real where
  "DEFAULT_RETRY_AFTER_SECONDS = 2"

definition mk_spec :: "ErrorCategory \<Rightarrow> int \<Rightarrow> bool \<Rightarrow> real option \<Rightarrow> ErrorSpec" where
  "mk_spec c s r a = \<lparr>category = c, http_status = s, retryable = r, retry_after_seconds = a\<rparr>"

fun error_spec :: "ErrorCode \<Rightarrow> ErrorSpec" where
  "error_spec INVALID_REQUEST = mk_spec REQUEST_CONTRACT 400 False None"
| "error_spec UNSUPPORTED_FIELD = mk_spec REQUEST_CONTRACT 400 False None"
| "error_spec UNSUPPORTED_CAPABILITY = mk_spec REQUEST_CONTRACT 422 False None"
| "error_spec CONTRACT_VERSION_UNSUPPORTED = mk_spec REQUEST_CONTRACT 400 False None"
| "error_spec MODEL_NOT_FOUND = mk_spec MODEL_RUNTIME 404 False None"
| "error_spec MODEL_UNAVAILABLE = mk_spec MODEL_RUNTIME 503 True None"
| "error_spec MODEL_WARMING = mk_spec MODEL_RUNTIME 425 True (Some DEFAULT_RETRY_AFTER_SECONDS)"
| "error_spec MODEL_LOAD_FAILED = mk_spec MODEL_RUNTIME 500 False None"
| "error_spec RUNTIME_UNAVAILABLE = mk_spec MODEL_RUNTIME 503 True None"
| "error_spec RUNTIME_DEGRADED = mk_spec MODEL_RUNTIME 503 True None"
| "error_spec RUNNER_OVERLOADED =
     mk_spec CAPACITY_EXECUTION 429 True (Some DEFAULT_RETRY_AFTER_SECONDS)"
| "error_spec QUEUE_FULL_CODE =
     mk_spec CAPACITY_EXECUTION 429 True (Some DEFAULT_RETRY_AFTER_SECONDS)"
| "error_spec TIMEOUT = mk_spec CAPACITY_EXECUTION 504 True None"
| "error_spec CANCELLED_CODE = mk_spec CAPACITY_EXECUTION 409 False None"
| "error_spec CONTEXT_OVERFLOW_CODE = mk_spec CAPACITY_EXECUTION 422 False None"
| "error_spec UPSTREAM_UNAVAILABLE = mk_spec UPSTREAM_PROTOCOL 503 True None"
| "error_spec UPSTREAM_TIMEOUT = mk_spec UPSTREAM_PROTOCOL 504 True None"
| "error_spec UPSTREAM_PROTOCOL_ERROR = mk_spec UPSTREAM_PROTOCOL 502 False None"
| "error_spec STREAM_INTERRUPTED = mk_spec UPSTREAM_PROTOCOL 502 False None"
| "error_spec MALFORMED_UPSTREAM_RESPONSE = mk_spec UPSTREAM_PROTOCOL 502 False None"
| "error_spec INTERNAL_ERROR = mk_spec INTERNAL 500 False None"

definition code_for_http_status :: "int \<Rightarrow> ErrorCode" where
  "code_for_http_status status =
     (if status = 404 then MODEL_NOT_FOUND
      else if status = 408 \<or> status = 504 then UPSTREAM_TIMEOUT
      else if status = 425 then MODEL_WARMING
      else if status = 429 then RUNNER_OVERLOADED
      else if status = 503 then RUNTIME_UNAVAILABLE
      else if status = 422 then INVALID_REQUEST
      else if 400 \<le> status \<and> status < 500 then INVALID_REQUEST
      else if status = 502 then UPSTREAM_PROTOCOL_ERROR
      else INTERNAL_ERROR)"

section \<open>Bounded operational details\<close>

definition SAFE_DETAIL_KEYS :: "string list" where
  "SAFE_DETAIL_KEYS =
     [''active_jobs'', ''adapter'', ''adapter_kind'', ''body_bytes'', ''body_present'',
      ''content_type'', ''contract_version'', ''diagnostic'', ''endpoint'', ''endpoint_kind'',
      ''error_count'', ''error_code'', ''estimated_chars'', ''failure_class'', ''frame_bytes'',
      ''http_status'', ''max_active_requests'', ''max_messages'', ''max_prompt_chars'',
      ''max_queue_depth'', ''model_alias'', ''model_id'', ''output_started'',
      ''parser_failure_class'', ''policy_version'', ''queue_depth'', ''rejected_field_count'',
      ''request_id'', ''received_version'', ''runtime_kind'', ''status'', ''timeout_seconds'',
      ''transport_class'', ''upstream_status'']"

definition SAFE_STRING_KEYS :: "string list" where
  "SAFE_STRING_KEYS =
     [''adapter'', ''adapter_kind'', ''content_type'', ''contract_version'', ''endpoint'',
      ''endpoint_kind'', ''error_code'', ''failure_class'', ''model_alias'', ''model_id'',
      ''parser_failure_class'', ''policy_version'', ''request_id'', ''received_version'',
      ''runtime_kind'', ''status'', ''transport_class'']"

definition safe_name_re :: "string \<Rightarrow> bool" where
  "safe_name_re s =
     (case s of [] \<Rightarrow> False
      | c # cs \<Rightarrow> is_alpha c \<and> class_match (\<lambda>c. is_alnum c \<or> c \<in> set ''_.:-'') 0 96 cs)"

definition safe_value_char :: "char \<Rightarrow> bool" where
  "safe_value_char c = (is_alnum c \<or> c \<in> set ''_.:/ ()='' \<or> cp c = 39 \<or> c = CHR ''-'')"

definition safe_value_re :: "string \<Rightarrow> bool" where
  "safe_value_re s = class_match safe_value_char 1 160 s"

definition safe_diagnostic_re :: "string \<Rightarrow> bool" where
  "safe_diagnostic_re s =
     (startswith s ''exception_type='' \<and>
      (case py_partition '' failure_class='' (drop 15 s) of
         (typ, found, cls) \<Rightarrow>
           found \<and> class_match (\<lambda>c. is_alnum c \<or> c \<in> set ''_.-'') 1 80 typ
                 \<and> class_match (\<lambda>c. is_lower c \<or> c = CHR ''_'') 1 40 cls))"

text \<open>One entry: what \<open>bounded_details\<close> keeps of it, if anything.\<close>

fun bounded_value :: "string \<Rightarrow> pyval \<Rightarrow> pyval option" where
  "bounded_value key (PBool b) = Some (PBool b)"
| "bounded_value key (PInt i) = Some (PInt i)"
| "bounded_value key (PFloat r) = Some (PFloat r)"
| "bounded_value key (PStr s) =
     (if key = ''diagnostic'' then
        (if safe_diagnostic_re (take 180 s) then Some (PStr (take 180 s)) else None)
      else if key \<in> set SAFE_STRING_KEYS then
        (if safe_value_re (take 160 s) then Some (PStr (take 160 s)) else None)
      else if key \<in> {''body_present'', ''output_started''} then Some (PBool (truthy (PStr s)))
      else None)"
| "bounded_value key v =
     (if key \<in> {''body_present'', ''output_started''} then Some (PBool (truthy v)) else None)"

fun bounded_loop :: "(string, pyval) dict \<Rightarrow> (string, pyval) dict \<Rightarrow> (string, pyval) dict" where
  "bounded_loop [] acc = acc"
| "bounded_loop ((key, v) # rest) acc =
     (if key \<notin> set SAFE_DETAIL_KEYS \<or> \<not> safe_name_re key then bounded_loop rest acc
      else case bounded_value key v of
             None \<Rightarrow> bounded_loop rest acc
           | Some w \<Rightarrow> bounded_loop rest (dset key w acc))"

definition bounded_details :: "(string, pyval) dict option \<Rightarrow> (string, pyval) dict option" where
  "bounded_details details =
     (case details of
        None \<Rightarrow> None
      | Some d \<Rightarrow> (case bounded_loop d [] of [] \<Rightarrow> None | b \<Rightarrow> Some b))"

section \<open>The error envelope\<close>

record ErrorEnvelope =
  env_contract_version :: string
  env_code :: ErrorCode
  env_message :: string
  env_http_status :: int
  env_retryable :: bool
  env_retry_after :: "real option"
  env_request_id :: "string option"
  env_upstream_request_id :: "string option"
  env_category :: ErrorCategory
  env_details :: "(string, pyval) dict option"

definition CONTROL_PLANE_CONTRACT_VERSION :: string where
  "CONTROL_PLANE_CONTRACT_VERSION = ''whooshd.control.v1''"

definition error_fields ::
  "ErrorCode \<Rightarrow> string \<Rightarrow> int option \<Rightarrow> real option \<Rightarrow> pyval \<Rightarrow> pyval
   \<Rightarrow> (string, pyval) dict option \<Rightarrow> ErrorEnvelope" where
  "error_fields code message status retry_after request_id upstream_request_id details =
     (let spec = error_spec code;
          retry = (case retry_after of
                     None \<Rightarrow> retry_after_seconds spec
                   | Some r \<Rightarrow> Some (max 0 (min r 60)))
      in \<lparr>env_contract_version = CONTROL_PLANE_CONTRACT_VERSION,
          env_code = code,
          env_message = take 160 (if message = [] then ''Request failed'' else message),
          env_http_status = (case status of None \<Rightarrow> http_status spec | Some s \<Rightarrow> s),
          env_retryable = retryable spec,
          env_retry_after = retry,
          env_request_id = normalize_identifier request_id,
          env_upstream_request_id = normalize_identifier upstream_request_id,
          env_category = category spec,
          env_details = bounded_details details\<rparr>)"

section \<open>Contract version negotiation\<close>

definition TARGET_CONTRACT_VERSION_VALUE :: string where
  "TARGET_CONTRACT_VERSION_VALUE = ''1''"

definition TARGET_CONTRACT_MAJOR :: int where
  "TARGET_CONTRACT_MAJOR = 1"

text \<open>\<open>^whooshd\.control\.v[0-9]+$\<close> and \<open>^[0-9]{1,3}$\<close>.\<close>

definition safe_version_re :: "string \<Rightarrow> bool" where
  "safe_version_re s =
     (startswith s ''whooshd.control.v'' \<and> drop 17 s \<noteq> [] \<and> list_all is_digit (drop 17 s))"

definition safe_target_version_re :: "string \<Rightarrow> bool" where
  "safe_target_version_re s = class_match is_digit 1 3 s"

definition safe_contract_version :: "string \<Rightarrow> string" where
  "safe_contract_version value =
     (let candidate = py_strip value
      in if length candidate > 80 \<or> \<not> safe_version_re candidate then ''invalid'' else candidate)"

definition safe_target_contract_version :: "string \<Rightarrow> string" where
  "safe_target_contract_version value =
     (if \<not> safe_target_version_re value then ''invalid'' else value)"

definition legacy_contract_major :: "string \<Rightarrow> int option" where
  "legacy_contract_major value =
     (let candidate = safe_contract_version value
      in if candidate = ''invalid'' then None
         else (case after_last ''v'' candidate of None \<Rightarrow> None | Some t \<Rightarrow> py_int t))"

record ContractVersionNegotiation =
  major :: "int option"
  incompatibility :: "string option"

definition compatible :: "ContractVersionNegotiation \<Rightarrow> bool" where
  "compatible n = (incompatibility n = None)"

definition negotiate_contract_version ::
  "string option \<Rightarrow> string option \<Rightarrow> ContractVersionNegotiation" where
  "negotiate_contract_version target_value legacy_value =
     (if target_value = None \<and> legacy_value = None
      then \<lparr>major = None, incompatibility = None\<rparr>
      else
        let target_major =
              (case target_value of
                 None \<Rightarrow> None
               | Some t \<Rightarrow> (if safe_target_version_re t then py_int t else None));
            legacy_major =
              (case legacy_value of None \<Rightarrow> None | Some l \<Rightarrow> legacy_contract_major l)
        in
        if target_value \<noteq> None \<and> legacy_value \<noteq> None \<and> target_major \<noteq> None
           \<and> legacy_major \<noteq> None \<and> target_major \<noteq> legacy_major
        then \<lparr>major = None, incompatibility = Some ''conflicting''\<rparr>
        else if target_value \<noteq> None \<and> target_value \<noteq> Some TARGET_CONTRACT_VERSION_VALUE
        then \<lparr>major = None,
              incompatibility = map_option safe_target_contract_version target_value\<rparr>
        else if legacy_value \<noteq> None \<and> legacy_value \<noteq> Some CONTROL_PLANE_CONTRACT_VERSION
        then \<lparr>major = None, incompatibility = map_option safe_contract_version legacy_value\<rparr>
        else \<lparr>major = Some TARGET_CONTRACT_MAJOR, incompatibility = None\<rparr>)"

section \<open>Lemmas\<close>

text \<open>A detail entry is admissible when its key is listed and its value is in the bounded form.\<close>

definition detail_ok :: "string \<Rightarrow> pyval \<Rightarrow> bool" where
  "detail_ok k v \<longleftrightarrow> k \<in> set SAFE_DETAIL_KEYS \<and> safe_name_re k \<and> bounded_value k v = Some v"

lemma bounded_value_fixed: "bounded_value k v = Some w \<Longrightarrow> bounded_value k w = Some w"
  by (cases v) (auto split: if_splits)

lemma bounded_loop_ok:
  "list_all (\<lambda>(k, v). detail_ok k v) acc \<Longrightarrow> dict_ok acc \<Longrightarrow>
     list_all (\<lambda>(k, v). detail_ok k v) (bounded_loop d acc) \<and> dict_ok (bounded_loop d acc)"
proof (induction d acc rule: bounded_loop.induct)
  case (1 acc)
  then show ?case by simp
next
  case (2 key v rest acc)
  have upd: "list_all (\<lambda>(k, v). detail_ok k v) (dset key w acc)"
    if "detail_ok key w" "list_all (\<lambda>(k, v). detail_ok k v) acc" for w
    using that by (induction acc) auto
  show ?case
  proof (cases "key \<in> set SAFE_DETAIL_KEYS \<and> safe_name_re key \<and> bounded_value key v \<noteq> None")
    case True
    then obtain w where w: "bounded_value key v = Some w" by auto
    with True have "detail_ok key w" by (simp add: detail_ok_def bounded_value_fixed)
    with upd 2(4) have "list_all (\<lambda>(k, v). detail_ok k v) (dset key w acc)" by blast
    with True w 2(3,5) show ?thesis by simp
  next
    case False
    with 2 show ?thesis by (auto split: option.splits)
  qed
qed

lemma bounded_loop_id:
  "list_all (\<lambda>(k, v). detail_ok k v) d \<Longrightarrow> dict_ok (acc @ d) \<Longrightarrow> bounded_loop d acc = acc @ d"
proof (induction d arbitrary: acc)
  case Nil
  then show ?case by simp
next
  case (Cons kv d)
  obtain k v where kv: "kv = (k, v)" by (cases kv)
  from Cons.prems kv have fresh: "k \<notin> set (dkeys acc)" by auto
  from Cons.prems kv have "detail_ok k v" by simp
  then show ?case
    using Cons.prems kv fresh Cons.IH[of "acc @ [(k, v)]"]
    by (simp add: detail_ok_def dset_fresh)
qed

lemma bounded_details_Some:
  assumes "bounded_details d = Some b"
  shows "list_all (\<lambda>(k, v). detail_ok k v) b" and "dict_ok b" and "b \<noteq> []"
proof -
  from assms obtain e where "d = Some e" by (auto simp: bounded_details_def split: option.splits)
  with assms have "b = bounded_loop e []" and "b \<noteq> []"
    by (auto simp: bounded_details_def split: list.splits)
  with bounded_loop_ok[of "[]" e]
  show "list_all (\<lambda>(k, v). detail_ok k v) b" and "dict_ok b" and "b \<noteq> []" by simp_all
qed

lemma detail_ok_str_length: "detail_ok k (PStr s) \<Longrightarrow> length s \<le> 180"
proof -
  assume "detail_ok k (PStr s)"
  then have "s = take 180 s \<or> s = take 160 s"
    by (auto simp: detail_ok_def split: if_splits)
  then have "length s = length (take 180 s) \<or> length s = length (take 160 s)" by metis
  then show ?thesis by auto
qed

lemma detail_ok_scalar: "detail_ok k v \<Longrightarrow> \<not> (\<exists>xs. v = PList xs) \<and> \<not> (\<exists>d. v = PDict d) \<and> v \<noteq> PNone"
  by (cases v) (auto simp: detail_ok_def split: if_splits)

definition bounded_scalar :: "pyval \<Rightarrow> bool" where
  "bounded_scalar v =
     (case v of PStr s \<Rightarrow> length s \<le> 180 | PList _ \<Rightarrow> False | PDict _ \<Rightarrow> False | PNone \<Rightarrow> False | _ \<Rightarrow> True)"

lemma detail_ok_bounded:
  "detail_ok k v \<Longrightarrow> k \<in> set SAFE_DETAIL_KEYS \<and> safe_name_re k \<and> bounded_scalar v"
  using detail_ok_scalar[of k v] detail_ok_str_length[of k]
  by (cases v) (simp_all add: bounded_scalar_def detail_ok_def)

lemma legacy_major_supported: "legacy_contract_major CONTROL_PLANE_CONTRACT_VERSION = Some 1"
  by code_simp

lemma target_major_supported:
  "safe_target_version_re TARGET_CONTRACT_VERSION_VALUE"
  "py_int TARGET_CONTRACT_VERSION_VALUE = Some 1"
  by code_simp+

lemma safe_contract_version_bounded: "length (safe_contract_version v) \<le> 80"
  by (simp add: safe_contract_version_def Let_def)

lemma safe_target_contract_version_bounded: "length (safe_target_contract_version v) \<le> 80"
  by (simp add: safe_target_contract_version_def safe_target_version_re_def class_match_def)

lemma bounded_details_idem: "bounded_details (bounded_details d) = bounded_details d"
proof (cases "bounded_details d")
  case None
  then show ?thesis by (simp add: bounded_details_def)
next
  case (Some b)
  note ok = bounded_details_Some[OF Some]
  have "bounded_loop b [] = b" using bounded_loop_id[of b "[]"] ok by simp
  then have "bounded_details (Some b) = Some b"
    using ok(3) by (simp add: bounded_details_def split: list.splits)
  with Some show ?thesis by simp
qed

section \<open>Properties\<close>

text \<open>C9: negotiation accepts a request exactly when every version header it carries names the
  supported contract, commits to major 1 exactly when it accepts a request that carries one,
  and reports an incompatibility of at most 80 characters whatever the header held.\<close>

theorem negotiate_contract_version_spec:
  "(compatible (negotiate_contract_version t l) \<longleftrightarrow>
      (t = None \<or> t = Some ''1'') \<and> (l = None \<or> l = Some ''whooshd.control.v1''))
   \<and> (major (negotiate_contract_version t l) =
        (if compatible (negotiate_contract_version t l) \<and> \<not> (t = None \<and> l = None)
         then Some 1 else None))
   \<and> (case incompatibility (negotiate_contract_version t l) of
        None \<Rightarrow> True | Some s \<Rightarrow> length s \<le> 80)"
proof -
  have tv: "TARGET_CONTRACT_VERSION_VALUE = ''1''"
    and lv: "CONTROL_PLANE_CONTRACT_VERSION = ''whooshd.control.v1''"
    by (simp_all add: TARGET_CONTRACT_VERSION_VALUE_def CONTROL_PLANE_CONTRACT_VERSION_def)
  show ?thesis
    using legacy_major_supported target_major_supported
    by (auto simp: negotiate_contract_version_def Let_def compatible_def TARGET_CONTRACT_MAJOR_def
        tv lv safe_contract_version_bounded safe_target_contract_version_bounded
        split: option.splits)
qed

text \<open>C10: \<open>bounded_details\<close> lets out only listed keys, only scalars, only strings of at most
  180 characters, each key once, and bounding its own output again changes nothing.\<close>

theorem bounded_details_safe_idempotent:
  "(case bounded_details d of
      None \<Rightarrow> True
    | Some b \<Rightarrow> distinct (map fst b) \<and>
        list_all (\<lambda>(k, v). k \<in> set SAFE_DETAIL_KEYS \<and> safe_name_re k \<and>
          bounded_scalar v) b)
   \<and> bounded_details (bounded_details d) = bounded_details d"
proof (cases "bounded_details d")
  case None
  then show ?thesis by (simp add: bounded_details_def)
next
  case (Some b)
  note ok = bounded_details_Some[OF Some]
  have "list_all (\<lambda>(k, v). k \<in> set SAFE_DETAIL_KEYS \<and> safe_name_re k \<and>
          bounded_scalar v) b"
    using ok(1) by (auto simp: list_all_iff dest: detail_ok_bounded)
  then show ?thesis using Some ok(2) bounded_details_idem[of d] by simp
qed

text \<open>The error envelope is bounded and its semantics come from the code alone: whatever the
  caller passes, the message has at most 160 characters and is never empty, a caller's retry
  hint is clamped to \<open>[0, 60]\<close> seconds, both identifiers conform to the identifier contract, and
  category and retryability are those of the specification table.\<close>

theorem error_fields_bounded:
  "let e = error_fields code msg status retry rid uid details in
     0 < length (env_message e) \<and> length (env_message e) \<le> 160
   \<and> (case env_retry_after e of None \<Rightarrow> True | Some r \<Rightarrow> 0 \<le> r \<and> r \<le> 60)
   \<and> (case env_request_id e of None \<Rightarrow> True | Some i \<Rightarrow> safe_identifier_re i)
   \<and> (case env_upstream_request_id e of None \<Rightarrow> True | Some i \<Rightarrow> safe_identifier_re i)
   \<and> env_retryable e = retryable (error_spec code) \<and> env_category e = category (error_spec code)
   \<and> bounded_details (env_details e) = env_details e"
proof -
  have retry: "case retry_after_seconds (error_spec code) of None \<Rightarrow> True | Some r \<Rightarrow> 0 \<le> r \<and> r \<le> 60"
    by (cases code) (simp_all add: mk_spec_def DEFAULT_RETRY_AFTER_SECONDS_def)
  have ident: "case normalize_identifier v of None \<Rightarrow> True | Some i \<Rightarrow> safe_identifier_re i" for v
    by (auto simp: normalize_identifier_Some split: option.splits)
  show ?thesis
    using retry ident[of rid] ident[of uid] bounded_details_idem[of details]
    by (auto simp: error_fields_def Let_def split: option.splits)
qed

end
