(* ===== verification/Config.thy ===== *)
theory Config
  imports Whoosh_Prelude
begin

text \<open>
  \<open>whooshd/config.py\<close>: every setting is read from the process environment at call time, with
  a default. The environment is a partial map; each getter is the function of the same name.
  A \<open>float\<close> setting is read with its exact decimal value, without the rounding to binary64.
\<close>

type_synonym environ = "string \<rightharpoonup> string"

definition env_str :: "environ \<Rightarrow> string \<Rightarrow> string \<Rightarrow> string" where
  "env_str env key d = (case env key of None \<Rightarrow> d | Some s \<Rightarrow> s)"

definition py_str_bool :: "bool \<Rightarrow> string" where
  "py_str_bool b = (if b then ''True'' else ''False'')"

definition env_bool :: "environ \<Rightarrow> string \<Rightarrow> bool \<Rightarrow> bool" where
  "env_bool env key d =
     (py_lower (env_str env key (py_lower (py_str_bool d))) \<in> {''1'', ''true'', ''yes''})"

definition env_int :: "environ \<Rightarrow> string \<Rightarrow> int \<Rightarrow> int" where
  "env_int env key d =
     (case py_int (env_str env key (py_str_int d)) of None \<Rightarrow> d | Some i \<Rightarrow> i)"

text \<open>\<open>float(s)\<close>: white space is stripped, one sign is accepted, then \<open>inf\<close>, \<open>infinity\<close>, \<open>nan\<close> or a decimal
  literal with an optional fraction and exponent; \<open>None\<close> is \<open>ValueError\<close>.\<close>

datatype float_value = Finite real | Infinite bool | NotANumber

definition split_sign :: "string \<Rightarrow> bool \<times> string" where
  "split_sign s =
     (case s of
        [] \<Rightarrow> (False, [])
      | c # cs \<Rightarrow> (if c = CHR ''-'' then (True, cs) else if c = CHR ''+'' then (False, cs) else (False, c # cs)))"

definition digits_or_empty :: "string \<Rightarrow> string option" where
  "digits_or_empty s = (if s = [] then Some [] else py_digits False s)"

definition py_exponent :: "bool \<Rightarrow> string \<Rightarrow> int option" where
  "py_exponent present s =
     (if \<not> present then Some 0
      else case split_sign s of (neg, ds) \<Rightarrow>
        map_option (\<lambda>d. if neg then - digits_val d else digits_val d) (py_digits False ds))"

definition scale10 :: "int \<Rightarrow> int \<Rightarrow> real" where
  "scale10 n e = (if 0 \<le> e then of_int n * 10 ^ nat e else of_int n / 10 ^ nat (- e))"

definition py_decimal :: "string \<Rightarrow> real option" where
  "py_decimal u =
     (case py_partition ''e'' u of (mantissa, has_e, x) \<Rightarrow>
      case py_partition ''.'' mantissa of (a, _, b) \<Rightarrow>
      case (digits_or_empty a, digits_or_empty b, py_exponent has_e x) of
        (Some da, Some db, Some e) \<Rightarrow>
          (if da = [] \<and> db = [] then None else Some (scale10 (digits_val (da @ db)) (e - int (length db))))
      | _ \<Rightarrow> None)"

definition py_float :: "string \<Rightarrow> float_value option" where
  "py_float s =
     (case split_sign (py_lower (py_strip s)) of (neg, u) \<Rightarrow>
        if u \<in> {''inf'', ''infinity''} then Some (Infinite neg)
        else if u = ''nan'' then Some NotANumber
        else map_option (\<lambda>r. Finite (if neg then - r else r)) (py_decimal u))"

definition env_float :: "environ \<Rightarrow> string \<Rightarrow> string \<Rightarrow> float_value \<Rightarrow> float_value" where
  "env_float env key text d = (case py_float (env_str env key text) of None \<Rightarrow> d | Some v \<Rightarrow> v)"

text \<open>\<open>val if val else None\<close>.\<close>

definition nonempty :: "string \<Rightarrow> string option" where
  "nonempty s = (if s = [] then None else Some s)"

section \<open>Adapter selection and model paths\<close>

definition get_adapter_backend :: "environ \<Rightarrow> string" where
  "get_adapter_backend env = env_str env ''WHOOSHD_ADAPTER'' ''stub''"

definition get_mlx_model_path :: "environ \<Rightarrow> string" where
  "get_mlx_model_path env =
     env_str env ''WHOOSHD_MLX_MODEL'' ''mlx-community/Llama-3.2-3B-Instruct-4bit''"

definition get_advertised_model_id :: "environ \<Rightarrow> string" where
  "get_advertised_model_id env =
     (if py_lower (py_strip (get_adapter_backend env)) = ''mlx'' \<and>
         py_strip (get_mlx_model_path env) \<noteq> []
      then py_strip (get_mlx_model_path env)
      else ''stub-model'')"

definition get_model_registry_path :: "environ \<Rightarrow> string option" where
  "get_model_registry_path env = nonempty (env_str env ''WHOOSHD_MODEL_REGISTRY_PATH'' [])"

section \<open>Queue and admission limits\<close>

definition get_enable_queue :: "environ \<Rightarrow> bool" where
  "get_enable_queue env = env_bool env ''WHOOSHD_ENABLE_QUEUE'' False"

definition get_max_queue_depth :: "environ \<Rightarrow> int" where
  "get_max_queue_depth env = env_int env ''WHOOSHD_MAX_QUEUE_DEPTH'' 8"

definition get_max_active_requests :: "environ \<Rightarrow> int" where
  "get_max_active_requests env = env_int env ''WHOOSHD_MAX_ACTIVE_REQUESTS'' 2"

definition get_max_prompt_chars :: "environ \<Rightarrow> int" where
  "get_max_prompt_chars env = env_int env ''WHOOSHD_MAX_PROMPT_CHARS'' 262144"

definition get_max_messages :: "environ \<Rightarrow> int" where
  "get_max_messages env = env_int env ''WHOOSHD_MAX_MESSAGES'' 128"

definition get_max_request_max_tokens :: "environ \<Rightarrow> int" where
  "get_max_request_max_tokens env = env_int env ''WHOOSHD_MAX_REQUEST_MAX_TOKENS'' 32768"

definition get_default_max_tokens :: "environ \<Rightarrow> int" where
  "get_default_max_tokens env = env_int env ''WHOOSHD_DEFAULT_MAX_TOKENS'' 256"

section \<open>Capacity control plane\<close>

definition get_capacity_mode :: "environ \<Rightarrow> string" where
  "get_capacity_mode env =
     (let v = py_lower (py_strip (env_str env ''WHOOSHD_CAPACITY_MODE'' ''fixed''))
      in if v \<in> {''fixed'', ''adaptive''} then v else ''fixed'')"

definition get_capacity_profile_path :: "environ \<Rightarrow> string option" where
  "get_capacity_profile_path env = nonempty (env_str env ''WHOOSHD_CAPACITY_PROFILE_PATH'' [])"

definition get_capacity_model_id :: "environ \<Rightarrow> string option" where
  "get_capacity_model_id env = nonempty (env_str env ''WHOOSHD_CAPACITY_MODEL_ID'' [])"

definition get_capacity_runtime :: "environ \<Rightarrow> string option" where
  "get_capacity_runtime env = nonempty (env_str env ''WHOOSHD_CAPACITY_RUNTIME'' [])"

definition get_capacity_machine_class :: "environ \<Rightarrow> string option" where
  "get_capacity_machine_class env = nonempty (env_str env ''WHOOSHD_CAPACITY_MACHINE_CLASS'' [])"

definition get_capacity_memory_pressure_deny :: "environ \<Rightarrow> bool" where
  "get_capacity_memory_pressure_deny env =
     env_bool env ''WHOOSHD_CAPACITY_MEMORY_PRESSURE_DENY'' True"

section \<open>Scheduler and batching\<close>

definition get_scheduler_policy :: "environ \<Rightarrow> string" where
  "get_scheduler_policy env =
     (let v = py_lower (py_strip (env_str env ''WHOOSHD_SCHEDULER_POLICY'' ''fifo''))
      in if v \<in> {''fifo'', ''cache_aware_fifo''} then v else ''fifo'')"

definition get_scheduler_max_bypass :: "environ \<Rightarrow> int" where
  "get_scheduler_max_bypass env = max (env_int env ''WHOOSHD_SCHEDULER_MAX_BYPASS'' 1) 0"

definition get_mlx_lm_server_enabled :: "environ \<Rightarrow> bool" where
  "get_mlx_lm_server_enabled env = env_bool env ''WHOOSHD_MLX_ENABLED'' False"

definition get_mlx_vlm_enabled :: "environ \<Rightarrow> bool" where
  "get_mlx_vlm_enabled env = env_bool env ''WHOOSHD_MLX_VLM_ENABLED'' False"

definition get_batch_analysis_enabled :: "environ \<Rightarrow> bool" where
  "get_batch_analysis_enabled env = env_bool env ''WHOOSHD_BATCH_ANALYSIS_ENABLED'' False"

definition get_batch_execution_enabled :: "environ \<Rightarrow> bool" where
  "get_batch_execution_enabled env = env_bool env ''WHOOSHD_BATCH_EXECUTION_ENABLED'' False"

definition get_batch_execution_min_size :: "environ \<Rightarrow> int" where
  "get_batch_execution_min_size env = max (env_int env ''WHOOSHD_BATCH_EXECUTION_MIN_SIZE'' 2) 2"

definition get_batch_execution_max_size :: "environ \<Rightarrow> int" where
  "get_batch_execution_max_size env = max (env_int env ''WHOOSHD_BATCH_EXECUTION_MAX_SIZE'' 4) 2"

section \<open>Runtime lanes, model store, ThreadWake and the batching prototype\<close>

definition get_mlx_max_tokens_default :: "environ \<Rightarrow> int" where
  "get_mlx_max_tokens_default env = env_int env ''WHOOSHD_MLX_MAX_TOKENS_DEFAULT'' 256"

definition get_mlx_trust_remote_code :: "environ \<Rightarrow> bool" where
  "get_mlx_trust_remote_code env = env_bool env ''WHOOSHD_MLX_TRUST_REMOTE_CODE'' False"

definition get_mlx_context_window :: "environ \<Rightarrow> int" where
  "get_mlx_context_window env = env_int env ''WHOOSHD_MLX_CONTEXT_WINDOW'' 0"

definition get_mlx_quantization :: "environ \<Rightarrow> string option" where
  "get_mlx_quantization env = nonempty (env_str env ''WHOOSHD_MLX_QUANTIZATION'' [])"

definition get_queue_timeout_seconds :: "environ \<Rightarrow> float_value" where
  "get_queue_timeout_seconds env = env_float env ''WHOOSHD_QUEUE_TIMEOUT_SECONDS'' ''120'' (Finite 120)"

definition get_queue_poll_interval_ms :: "environ \<Rightarrow> int" where
  "get_queue_poll_interval_ms env = env_int env ''WHOOSHD_QUEUE_POLL_INTERVAL_MS'' 25"

definition get_llama_cpp_server_url :: "environ \<Rightarrow> string option" where
  "get_llama_cpp_server_url env = nonempty (env_str env ''WHOOSHD_LLAMA_CPP_SERVER_URL'' [])"

definition get_llama_cpp_binary_path :: "environ \<Rightarrow> string option" where
  "get_llama_cpp_binary_path env = nonempty (env_str env ''WHOOSHD_LLAMA_CPP_BINARY_PATH'' [])"

definition get_llama_cpp_host :: "environ \<Rightarrow> string" where
  "get_llama_cpp_host env = env_str env ''WHOOSHD_LLAMA_CPP_HOST'' ''127.0.0.1''"

definition get_llama_cpp_port :: "environ \<Rightarrow> int" where
  "get_llama_cpp_port env = env_int env ''WHOOSHD_LLAMA_CPP_PORT'' 8080"

definition get_llama_cpp_auto_start :: "environ \<Rightarrow> bool" where
  "get_llama_cpp_auto_start env = env_bool env ''WHOOSHD_LLAMA_CPP_AUTO_START'' False"

definition get_llama_cpp_startup_timeout_seconds :: "environ \<Rightarrow> float_value" where
  "get_llama_cpp_startup_timeout_seconds env = env_float env ''WHOOSHD_LLAMA_CPP_STARTUP_TIMEOUT_SECONDS'' ''30.0'' (Finite 30)"

definition get_llama_cpp_health_timeout_seconds :: "environ \<Rightarrow> float_value" where
  "get_llama_cpp_health_timeout_seconds env = env_float env ''WHOOSHD_LLAMA_CPP_HEALTH_TIMEOUT_SECONDS'' ''2.0'' (Finite 2)"

definition get_llama_cpp_model_path :: "environ \<Rightarrow> string option" where
  "get_llama_cpp_model_path env = nonempty (env_str env ''WHOOSHD_LLAMA_CPP_MODEL_PATH'' [])"

definition get_mlx_lm_server_host :: "environ \<Rightarrow> string" where
  "get_mlx_lm_server_host env = env_str env ''WHOOSHD_MLX_HOST'' ''127.0.0.1''"

definition get_mlx_lm_server_port :: "environ \<Rightarrow> int" where
  "get_mlx_lm_server_port env = env_int env ''WHOOSHD_MLX_PORT'' 8081"

definition get_mlx_lm_server_model :: "environ \<Rightarrow> string option" where
  "get_mlx_lm_server_model env = nonempty (env_str env ''WHOOSHD_MLX_MODEL'' [])"

definition get_mlx_lm_server_extra_args :: "environ \<Rightarrow> string list" where
  "get_mlx_lm_server_extra_args env = py_words (\<lambda>c. \<not> py_is_space c) (env_str env ''WHOOSHD_MLX_EXTRA_ARGS'' [])"

definition get_mlx_lm_server_startup_timeout_seconds :: "environ \<Rightarrow> float_value" where
  "get_mlx_lm_server_startup_timeout_seconds env = env_float env ''WHOOSHD_MLX_STARTUP_TIMEOUT_SECONDS'' ''30.0'' (Finite 30)"

definition get_mlx_lm_server_health_timeout_seconds :: "environ \<Rightarrow> float_value" where
  "get_mlx_lm_server_health_timeout_seconds env = env_float env ''WHOOSHD_MLX_HEALTH_TIMEOUT_SECONDS'' ''2.0'' (Finite 2)"

definition get_mlx_max_concurrent_requests :: "environ \<Rightarrow> int" where
  "get_mlx_max_concurrent_requests env = env_int env ''WHOOSHD_MLX_MAX_CONCURRENT_REQUESTS'' 2"

definition get_mlx_vlm_max_concurrent_requests :: "environ \<Rightarrow> int" where
  "get_mlx_vlm_max_concurrent_requests env = env_int env ''WHOOSHD_MLX_VLM_MAX_CONCURRENT_REQUESTS'' 1"

definition get_llama_cpp_max_concurrent_requests :: "environ \<Rightarrow> int" where
  "get_llama_cpp_max_concurrent_requests env = env_int env ''WHOOSHD_LLAMA_CPP_MAX_CONCURRENT_REQUESTS'' 2"

definition get_runtime_acquire_timeout_seconds :: "environ \<Rightarrow> float_value" where
  "get_runtime_acquire_timeout_seconds env = env_float env ''WHOOSHD_RUNTIME_ACQUIRE_TIMEOUT_SECONDS'' ''5.0'' (Finite 5)"

definition get_threadwake_enabled :: "environ \<Rightarrow> bool" where
  "get_threadwake_enabled env = env_bool env ''WHOOSHD_THREADWAKE_ENABLED'' False"

definition get_threadwake_mode :: "environ \<Rightarrow> string" where
  "get_threadwake_mode env = env_str env ''WHOOSHD_THREADWAKE_MODE'' ''off''"

definition get_threadwake_min_prefix_tokens :: "environ \<Rightarrow> int" where
  "get_threadwake_min_prefix_tokens env = env_int env ''WHOOSHD_THREADWAKE_MIN_PREFIX_TOKENS'' 1024"

definition get_threadwake_max_entries :: "environ \<Rightarrow> int" where
  "get_threadwake_max_entries env = env_int env ''WHOOSHD_THREADWAKE_MAX_ENTRIES'' 16"

definition get_threadwake_max_memory_mb :: "environ \<Rightarrow> int" where
  "get_threadwake_max_memory_mb env = env_int env ''WHOOSHD_THREADWAKE_MAX_MEMORY_MB'' 1024"

definition get_threadwake_bytes_per_token :: "environ \<Rightarrow> int" where
  "get_threadwake_bytes_per_token env = env_int env ''WHOOSHD_THREADWAKE_BYTES_PER_TOKEN'' 0"

definition get_threadwake_allow_global :: "environ \<Rightarrow> bool" where
  "get_threadwake_allow_global env = env_bool env ''WHOOSHD_THREADWAKE_ALLOW_GLOBAL'' False"

definition get_threadwake_mlx_tokenizer_enabled :: "environ \<Rightarrow> bool" where
  "get_threadwake_mlx_tokenizer_enabled env = env_bool env ''WHOOSHD_THREADWAKE_MLX_TOKENIZER_ENABLED'' False"

definition get_threadwake_sqlite_enabled :: "environ \<Rightarrow> bool" where
  "get_threadwake_sqlite_enabled env = env_bool env ''WHOOSHD_THREADWAKE_SQLITE_ENABLED'' False"

definition get_threadwake_sqlite_path :: "environ \<Rightarrow> string" where
  "get_threadwake_sqlite_path env = env_str env ''WHOOSHD_THREADWAKE_SQLITE_PATH'' ''.whooshd/threadwake.sqlite3''"

definition get_threadwake_experimental_snapshots_enabled :: "environ \<Rightarrow> bool" where
  "get_threadwake_experimental_snapshots_enabled env = env_bool env ''WHOOSHD_THREADWAKE_EXPERIMENTAL_SNAPSHOTS_ENABLED'' False"

definition get_mlx_vlm_model :: "environ \<Rightarrow> string option" where
  "get_mlx_vlm_model env = nonempty (env_str env ''WHOOSHD_MLX_VLM_MODEL'' [])"

definition get_mlx_vlm_host :: "environ \<Rightarrow> string" where
  "get_mlx_vlm_host env = env_str env ''WHOOSHD_MLX_VLM_HOST'' ''127.0.0.1''"

definition get_mlx_vlm_port :: "environ \<Rightarrow> int" where
  "get_mlx_vlm_port env = env_int env ''WHOOSHD_MLX_VLM_PORT'' 8082"

definition get_mlx_vlm_extra_args :: "environ \<Rightarrow> string list" where
  "get_mlx_vlm_extra_args env = py_words (\<lambda>c. \<not> py_is_space c) (env_str env ''WHOOSHD_MLX_VLM_EXTRA_ARGS'' [])"

definition get_mlx_vlm_startup_timeout_seconds :: "environ \<Rightarrow> float_value" where
  "get_mlx_vlm_startup_timeout_seconds env = env_float env ''WHOOSHD_MLX_VLM_STARTUP_TIMEOUT_SECONDS'' ''60.0'' (Finite 60)"

definition get_mlx_vlm_health_timeout_seconds :: "environ \<Rightarrow> float_value" where
  "get_mlx_vlm_health_timeout_seconds env = env_float env ''WHOOSHD_MLX_VLM_HEALTH_TIMEOUT_SECONDS'' ''2.0'' (Finite 2)"

definition get_stub_response_delay_seconds :: "environ \<Rightarrow> float_value" where
  "get_stub_response_delay_seconds env = env_float env ''WHOOSHD_STUB_RESPONSE_DELAY_SECONDS'' ''0'' (Finite 0)"

definition get_model_store_root :: "environ \<Rightarrow> string option" where
  "get_model_store_root env = nonempty (env_str env ''WHOOSHD_MODEL_STORE_ROOT'' [])"

definition get_batch_max_group_size :: "environ \<Rightarrow> int" where
  "get_batch_max_group_size env = env_int env ''WHOOSHD_BATCH_MAX_GROUP_SIZE'' 4"

definition get_batch_max_total_tokens :: "environ \<Rightarrow> int" where
  "get_batch_max_total_tokens env = env_int env ''WHOOSHD_BATCH_MAX_TOTAL_TOKENS'' 8192"

definition get_mlx_batch_execution_enabled :: "environ \<Rightarrow> bool" where
  "get_mlx_batch_execution_enabled env = env_bool env ''WHOOSHD_MLX_BATCH_EXECUTION_ENABLED'' False"

definition get_continuous_batching_prototype_enabled :: "environ \<Rightarrow> bool" where
  "get_continuous_batching_prototype_enabled env = env_bool env ''WHOOSHD_CONTINUOUS_BATCHING_PROTOTYPE_ENABLED'' False"

definition get_mlx_continuous_batching_prototype_enabled :: "environ \<Rightarrow> bool" where
  "get_mlx_continuous_batching_prototype_enabled env = env_bool env ''WHOOSHD_MLX_CONTINUOUS_BATCHING_PROTOTYPE_ENABLED'' False"

definition get_continuous_batching_prototype_min_group_size :: "environ \<Rightarrow> int" where
  "get_continuous_batching_prototype_min_group_size env = max (env_int env ''WHOOSHD_CONTINUOUS_BATCHING_PROTOTYPE_MIN_GROUP_SIZE'' 2) 2"

definition get_continuous_batching_prototype_max_group_size :: "environ \<Rightarrow> int" where
  "get_continuous_batching_prototype_max_group_size env = max (env_int env ''WHOOSHD_CONTINUOUS_BATCHING_PROTOTYPE_MAX_GROUP_SIZE'' 2) 2"

definition get_continuous_batching_prototype_max_tokens :: "environ \<Rightarrow> int" where
  "get_continuous_batching_prototype_max_tokens env = env_int env ''WHOOSHD_CONTINUOUS_BATCHING_PROTOTYPE_MAX_TOKENS'' 128"

definition get_continuous_batching_prototype_timeout_seconds :: "environ \<Rightarrow> float_value" where
  "get_continuous_batching_prototype_timeout_seconds env = env_float env ''WHOOSHD_CONTINUOUS_BATCHING_PROTOTYPE_TIMEOUT_SECONDS'' ''30'' (Finite 30)"

definition get_threadwake_default_scope :: "environ \<Rightarrow> string" where
  "get_threadwake_default_scope env =
     (let v = env_str env ''WHOOSHD_THREADWAKE_DEFAULT_SCOPE'' ''thread''
      in if v \<in> {''request'', ''thread'', ''project'', ''user'', ''global''} then v else ''thread'')"

text \<open>Hard-disabled: no variable is read.\<close>

definition get_threadwake_mlx_kv_reuse_enabled :: "environ \<Rightarrow> bool" where
  "get_threadwake_mlx_kv_reuse_enabled env = False"

section \<open>Defaults and ranges\<close>

text \<open>
  An unset integer variable yields its default: the default is printed with \<open>str\<close> and read
  back with \<open>int\<close>, and that round trip is exact (or, past CPython's digit limit, refused,
  which again yields the default).
\<close>

lemma env_int_unset [simp]: "env key = None \<Longrightarrow> env_int env key d = d"
  using py_int_roundtrip[of d] by (auto simp: env_int_def env_str_def)

lemma env_str_unset [simp]: "env key = None \<Longrightarrow> env_str env key d = d"
  by (simp add: env_str_def)

lemma env_bool_unset [simp]: "env key = None \<Longrightarrow> env_bool env key d = d"
  by (cases d)
    (simp_all add: env_bool_def py_str_bool_def py_lower_def char_lower_def is_upper_def char_of_eq_iff
      take_bit_eq_mod)

lemma env_float_unset:
  "env ''WHOOSHD_QUEUE_TIMEOUT_SECONDS'' = None \<Longrightarrow> get_queue_timeout_seconds env = Finite 120"
proof -
  have "py_float ''120'' = Some (Finite 120)" by code_simp
  then show "env ''WHOOSHD_QUEUE_TIMEOUT_SECONDS'' = None \<Longrightarrow> ?thesis"
    by (simp add: get_queue_timeout_seconds_def env_float_def)
qed

text \<open>\<open>nan\<close> is a number to \<open>float\<close>: the fallback for unreadable values does not catch it.\<close>

lemma env_float_accepts_nan:
  "get_queue_timeout_seconds [''WHOOSHD_QUEUE_TIMEOUT_SECONDS'' \<mapsto> ''NaN''] = NotANumber"
proof -
  have "py_float ''NaN'' = Some NotANumber" by code_simp
  then show ?thesis by (simp add: get_queue_timeout_seconds_def env_float_def env_str_def)
qed

lemma get_scheduler_max_bypass_nonneg [simp]: "0 \<le> get_scheduler_max_bypass env"
  by (simp add: get_scheduler_max_bypass_def)

lemma get_batch_execution_sizes [simp]:
  "2 \<le> get_batch_execution_min_size env" "2 \<le> get_batch_execution_max_size env"
  by (simp_all add: get_batch_execution_min_size_def get_batch_execution_max_size_def)

lemma nonempty_Some [simp]: "nonempty s = Some t \<longleftrightarrow> t = s \<and> s \<noteq> []"
  by (auto simp: nonempty_def)

text \<open>\<open>_env_int\<close> round-trips: the decimal text of an integer within Python's limit on digits is read
  back as that integer, and an unset variable as the default. The getters that clamp what they
  read, such as \<open>get_max_active_requests\<close>, do so after this.\<close>

theorem env_int_roundtrip:
  assumes "length (show_nat (nat \<bar>i\<bar>)) \<le> int_max_str_digits"
  shows "env_int (env(key \<mapsto> py_str_int i)) key d = i \<and> env_int (env(key := None)) key d = d"
  using assms
  by (auto simp: env_int_def env_str_def py_str_int_def py_int_str_nonneg py_int_str_neg
      py_unsigned_show_nat dest: not_less[THEN iffD2])

theorem env_int_roundtrip_witness:
  "env_int (Map.empty(''WHOOSHD_MAX_QUEUE_DEPTH'' \<mapsto> py_str_int (-12))) ''WHOOSHD_MAX_QUEUE_DEPTH'' 8 = -12"
  using env_int_roundtrip[of "-12" Map.empty "''WHOOSHD_MAX_QUEUE_DEPTH''" 8]
  by (simp add: show_nat.simps int_max_str_digits_def)

end
