(* ===== verification/Contracts.thy ===== *)
theory Contracts
  imports Whoosh_Prelude
begin

text \<open>
  \<open>whooshd/contracts.py\<close>: the request model, the lifecycle vocabulary, and the cancellation
  token. Pydantic's field constraints (\<open>ge\<close>, \<open>le\<close>, \<open>min_length\<close>) are collected in
  \<open>request_valid\<close>; a request that fails them never reaches the code modelled here.
\<close>

section \<open>Chat messages and requests\<close>

datatype content = CText string | CParts "pyval list"

record ChatMessage =
  msg_role :: string
  msg_content :: content
  msg_name :: "string option"
  msg_tool_calls :: "pyval list option"
  msg_tool_call_id :: "string option"

record ChatCompletionRequest =
  req_model :: string
  req_messages :: "ChatMessage list"
  req_temperature :: "real option"
  req_top_p :: "real option"
  req_max_tokens :: "int option"
  req_max_completion_tokens :: "int option"
  req_stream :: bool
  req_stop :: "string list option"
  req_user :: "string option"
  req_tools :: "pyval list option"
  req_tool_choice :: "pyval option"
  req_parallel_tool_calls :: "bool option"
  req_response_format :: "pyval option"
  req_seed :: "int option"
  req_presence_penalty :: "real option"
  req_frequency_penalty :: "real option"
  req_logit_bias :: "(string \<times> real) list option"
  req_logprobs :: "bool option"
  req_top_logprobs :: "int option"
  req_reasoning_effort :: "string option"
  req_metadata :: "pyval option"
  req_threadwake :: "pyval option"
  req_extra_fields :: "(string, pyval) dict"

text \<open>The request that carries only a model and messages, with the model's field defaults.\<close>

definition chat_request :: "string \<Rightarrow> ChatMessage list \<Rightarrow> ChatCompletionRequest" where
  "chat_request m ms =
     \<lparr>req_model = m, req_messages = ms, req_temperature = Some (7/10), req_top_p = Some (95/100),
      req_max_tokens = Some 256, req_max_completion_tokens = None, req_stream = False,
      req_stop = None, req_user = None, req_tools = None, req_tool_choice = None,
      req_parallel_tool_calls = None, req_response_format = None, req_seed = None,
      req_presence_penalty = None, req_frequency_penalty = None, req_logit_bias = None,
      req_logprobs = None, req_top_logprobs = None, req_reasoning_effort = None,
      req_metadata = None, req_threadwake = None, req_extra_fields = []\<rparr>"

definition text_message :: "string \<Rightarrow> string \<Rightarrow> ChatMessage" where
  "text_message role t =
     \<lparr>msg_role = role, msg_content = CText t, msg_name = None, msg_tool_calls = None,
      msg_tool_call_id = None\<rparr>"

text \<open>The limits on the two output fields that pydantic enforces at ingress.\<close>

definition request_valid :: "ChatCompletionRequest \<Rightarrow> bool" where
  "request_valid r \<longleftrightarrow>
     req_model r \<noteq> [] \<and> req_messages r \<noteq> []
   \<and> (case req_max_tokens r of None \<Rightarrow> True | Some n \<Rightarrow> 1 \<le> n \<and> n \<le> 32768)
   \<and> (case req_max_completion_tokens r of None \<Rightarrow> True | Some n \<Rightarrow> 1 \<le> n \<and> n \<le> 32768)"

section \<open>Lifecycle vocabulary\<close>

datatype RequestLifecycleState =
    ACCEPTED | QUEUED | RUNNING | STREAMING | COMPLETED | CANCELLED | FAILED | TIMED_OUT

datatype MemoryPressure = MP_LOW | MP_NORMAL | MP_WARNING | MP_CRITICAL

fun MemoryPressure_value :: "MemoryPressure \<Rightarrow> string" where
  "MemoryPressure_value MP_LOW = ''low''"
| "MemoryPressure_value MP_NORMAL = ''normal''"
| "MemoryPressure_value MP_WARNING = ''warning''"
| "MemoryPressure_value MP_CRITICAL = ''critical''"

datatype ModelLifecycleState =
    ML_UNLOADED | ML_WARMING | ML_READY | ML_GENERATING | ML_DEGRADED | ML_FAILED

datatype RuntimeKind = STUB | MLX_LM | MLX_LM_SERVER | MLX_VLM | LLAMA_CPP

fun RuntimeKind_value :: "RuntimeKind \<Rightarrow> string" where
  "RuntimeKind_value STUB = ''stub''"
| "RuntimeKind_value MLX_LM = ''mlx_lm''"
| "RuntimeKind_value MLX_LM_SERVER = ''mlx_lm_server''"
| "RuntimeKind_value MLX_VLM = ''mlx_vlm''"
| "RuntimeKind_value LLAMA_CPP = ''llama_cpp''"

lemma RuntimeKind_value_inj: "RuntimeKind_value a = RuntimeKind_value b \<longleftrightarrow> a = b"
  by (cases a; cases b) simp_all

section \<open>Cancellation token\<close>

record CancellationToken =
  tok_request_id :: string
  tok_cancelled :: bool

definition new_token :: "string \<Rightarrow> CancellationToken" where
  "new_token rid = \<lparr>tok_request_id = rid, tok_cancelled = False\<rparr>"

definition token_cancel :: "CancellationToken \<Rightarrow> CancellationToken" where
  "token_cancel t = t\<lparr>tok_cancelled := True\<rparr>"

definition token_is_cancelled :: "CancellationToken \<Rightarrow> bool" where
  "token_is_cancelled t = tok_cancelled t"

end
