(* ===== verification/Json_Text.thy ===== *)
theory Json_Text
  imports Whoosh_Prelude
begin

text \<open>
  \<open>json.dumps\<close> with compact separators, shared by the cost estimate (\<open>capacity_context.py\<close>) and by
  the cache keys (\<open>runtime/threadwake/keys.py\<close>). The escaping of one character is an argument, since
  the two callers differ in \<open>ensure_ascii\<close>; the text of a float is the argument \<open>frepr\<close>.

  The second half shows that the text determines the value. A string literal ends at its own closing
  quote, a number ends only where a delimiter follows, so the contract of the locale
  \<open>delimited_code\<close> speaks of a text followed by a delimiter; the lemma about comma separated
  sequences is proved once there and used for arrays and for objects.
\<close>

section \<open>Printing\<close>

definition quote_char :: char where
  "quote_char = CHR 0x22"

definition backslash :: char where
  "backslash = CHR 0x5C"

definition hex_char :: "nat \<Rightarrow> char" where
  "hex_char n = (if n < 10 then char_of (48 + n) else char_of (87 + n))"

text \<open>The escape shared by both modes: \<open>None\<close> is a character that is left to the mode.\<close>

definition json_escape_common :: "char \<Rightarrow> string option" where
  "json_escape_common c =
     (if cp c = 34 then Some [backslash, c]
      else if cp c = 92 then Some [backslash, c]
      else if cp c = 10 then Some [backslash, CHR ''n'']
      else if cp c = 13 then Some [backslash, CHR ''r'']
      else if cp c = 9 then Some [backslash, CHR ''t'']
      else if cp c = 12 then Some [backslash, CHR ''f'']
      else if cp c = 8 then Some [backslash, CHR ''b'']
      else if cp c < 32 then
        Some [backslash, CHR ''u'', CHR ''0'', CHR ''0'', hex_char (cp c div 16), hex_char (cp c mod 16)]
      else None)"

definition ascii_escape :: "char \<Rightarrow> string" where
  "ascii_escape c =
     (case json_escape_common c of
        Some t \<Rightarrow> t
      | None \<Rightarrow>
          (if cp c \<le> 126 then [c]
           else [backslash, CHR ''u'', CHR ''0'', CHR ''0'', hex_char (cp c div 16), hex_char (cp c mod 16)]))"

text \<open>\<open>ensure_ascii=False\<close>.\<close>

definition plain_escape :: "char \<Rightarrow> string" where
  "plain_escape c = (case json_escape_common c of Some t \<Rightarrow> t | None \<Rightarrow> [c])"

definition json_string :: "(char \<Rightarrow> string) \<Rightarrow> string \<Rightarrow> string" where
  "json_string esc s = [quote_char] @ concat (map esc s) @ [quote_char]"

fun json_dumps :: "(char \<Rightarrow> string) \<Rightarrow> (real \<Rightarrow> string) \<Rightarrow> pyval \<Rightarrow> string"
  and json_items :: "(char \<Rightarrow> string) \<Rightarrow> (real \<Rightarrow> string) \<Rightarrow> pyval list \<Rightarrow> string list"
  and json_pairs :: "(char \<Rightarrow> string) \<Rightarrow> (real \<Rightarrow> string) \<Rightarrow> (string \<times> pyval) list \<Rightarrow> string list" where
  "json_dumps esc frepr PNone = ''null''"
| "json_dumps esc frepr (PBool b) = (if b then ''true'' else ''false'')"
| "json_dumps esc frepr (PInt i) = py_str_int i"
| "json_dumps esc frepr (PFloat r) = frepr r"
| "json_dumps esc frepr (PStr s) = json_string esc s"
| "json_dumps esc frepr (PList xs) = ''['' @ py_join '','' (json_items esc frepr xs) @ '']''"
| "json_dumps esc frepr (PDict d) = ''{'' @ py_join '','' (json_pairs esc frepr d) @ ''}''"
| "json_items esc frepr [] = []"
| "json_items esc frepr (v # vs) = json_dumps esc frepr v # json_items esc frepr vs"
| "json_pairs esc frepr [] = []"
| "json_pairs esc frepr ((k, v) # ps) =
     (json_string esc k @ '':'' @ json_dumps esc frepr v) # json_pairs esc frepr ps"

text \<open>\<open>sort_keys=True\<close>: the items of every dictionary in the order of their keys.\<close>

fun json_sort :: "pyval \<Rightarrow> pyval" where
  "json_sort (PList xs) = PList (map json_sort xs)"
| "json_sort (PDict d) = PDict (sort_key fst (map (map_prod id json_sort) d))"
| "json_sort v = v"

section \<open>Characters and string literals\<close>

text \<open>The text an escape yields for one character can be read back, whatever follows.\<close>

definition hex_val :: "char \<Rightarrow> nat" where
  "hex_val c = (if cp c < 58 then cp c - 48 else cp c - 87)"

fun json_unescape :: "string \<Rightarrow> (char \<times> string) option" where
  "json_unescape [] = None"
| "json_unescape (c # s) =
     (if c = quote_char then None
      else if c \<noteq> backslash then Some (c, s)
      else
        case s of
          [] \<Rightarrow> None
        | e # r \<Rightarrow>
            (if e = CHR ''n'' then Some (char_of (10::nat), r)
             else if e = CHR ''r'' then Some (char_of (13::nat), r)
             else if e = CHR ''t'' then Some (char_of (9::nat), r)
             else if e = CHR ''f'' then Some (char_of (12::nat), r)
             else if e = CHR ''b'' then Some (char_of (8::nat), r)
             else if e = CHR ''u'' then
               (case r of
                  _ # _ # h # l # q \<Rightarrow> Some (char_of (16 * hex_val h + hex_val l), q)
                | _ \<Rightarrow> None)
             else Some (e, r)))"

lemma cp_inject: "cp c = cp d \<longleftrightarrow> c = (d :: char)"
  by simp

lemma hex_val_hex_char [simp]:
  assumes "n < 16"
  shows "hex_val (hex_char n) = n"
proof -
  have "cp (hex_char n) = (if n < 10 then 48 + n else 87 + n)"
    using assms by (simp only: hex_char_def of_char_of if_distrib[of cp] mod_less)
  with assms show ?thesis by (auto simp only: hex_val_def split: if_splits)
qed

lemma cp_less [simp]: "cp c < 256"
  using mod_less_divisor[of 256 "cp c"] by (simp only: of_char_mod_256)

lemma hex_pair: "16 * hex_val (hex_char (cp c div 16)) + hex_val (hex_char (cp c mod 16)) = cp c"
proof -
  have "cp c div 16 < 16" using cp_less[of c] by linarith
  then show ?thesis by simp
qed

text \<open>What a string literal needs of its escape.\<close>

locale escape_code =
  fixes esc :: "char \<Rightarrow> string"
  assumes unescape_esc: "json_unescape (esc c @ s) = Some (c, s)"
begin

lemma esc_not_quote: "esc c @ s \<noteq> quote_char # t"
proof
  assume "esc c @ s = quote_char # t"
  with unescape_esc[of c s] show False by simp
qed

lemma esc_unique:
  assumes "esc c @ s = esc d @ t"
  shows "c = d \<and> s = t"
proof -
  have "Some (c, s) = Some (d, t)"
    unfolding unescape_esc[symmetric] assms ..
  then show ?thesis by simp
qed

lemma literal_unique:
  "concat (map esc a) @ quote_char # s = concat (map esc b) @ quote_char # t \<Longrightarrow> a = b \<and> s = t"
proof (induction a arbitrary: b)
  case Nil
  show ?case
  proof (cases b)
    case Nil
    with \<open>concat (map esc []) @ quote_char # s = concat (map esc b) @ quote_char # t\<close> show ?thesis by simp
  next
    case (Cons d b')
    with Nil have "esc d @ (concat (map esc b') @ quote_char # t) = quote_char # s" by simp
    then show ?thesis using esc_not_quote by blast
  qed
next
  case (Cons c a)
  show ?case
  proof (cases b)
    case Nil
    with Cons.prems have "esc c @ (concat (map esc a) @ quote_char # s) = quote_char # t" by simp
    then show ?thesis using esc_not_quote by blast
  next
    case b: (Cons d b')
    with Cons.prems have "c = d \<and> concat (map esc a) @ quote_char # s = concat (map esc b') @ quote_char # t"
      by (intro esc_unique) simp
    with b show ?thesis using Cons.IH[of b'] by simp
  qed
qed

lemma json_string_unique: "json_string esc a @ s = json_string esc b @ t \<Longrightarrow> a = b \<and> s = t"
  by (rule literal_unique) (simp add: json_string_def)

end

lemma escape_consts:
  "quote_char \<noteq> backslash" "backslash \<noteq> quote_char"
  by (simp_all add: quote_char_def backslash_def)

lemma unescape_common:
  assumes "json_escape_common c = Some t"
  shows "json_unescape (t @ s) = Some (c, s)"
proof -
  have char_eq: "char_of n = c" if "cp c = n" for n :: nat
    using that char_of_char[of c, where 'a = nat] by simp
  show ?thesis
    using assms hex_pair[of c]
    by (auto simp: json_escape_common_def escape_consts char_eq split: if_splits)
qed

lemma unescape_plain_char: "json_escape_common c = None \<Longrightarrow> json_unescape (c # s) = Some (c, s)"
  by (auto simp: json_escape_common_def quote_char_def backslash_def split: if_splits)

interpretation plain: escape_code plain_escape
  by unfold_locales
    (auto simp: plain_escape_def unescape_common unescape_plain_char simp del: json_unescape.simps split: option.split)

interpretation ascii: escape_code ascii_escape
proof
  fix c s
  show "json_unescape (ascii_escape c @ s) = Some (c, s)"
  proof (cases "json_escape_common c")
    case None
    then show ?thesis
      using hex_pair[of c] unescape_plain_char[OF None, of s]
      by (auto simp: ascii_escape_def escape_consts)
  next
    case (Some t)
    then show ?thesis by (simp add: ascii_escape_def unescape_common del: json_unescape.simps)
  qed
qed

section \<open>Values\<close>

definition delim_char :: "char \<Rightarrow> bool" where
  "delim_char c \<longleftrightarrow> c = CHR '','' \<or> c = CHR '']'' \<or> c = CHR ''}''"

text \<open>Nothing follows, or a delimiter does.\<close>

fun delim :: "string \<Rightarrow> bool" where
  "delim [] = True"
| "delim (c # s) = delim_char c"

lemma atom_unique:
  assumes "list_all (\<lambda>c. \<not> delim_char c) a" and "list_all (\<lambda>c. \<not> delim_char c) b"
    and "delim s" and "delim t" and "a @ s = b @ t"
  shows "a = b \<and> s = t"
  using assms
proof (induction a arbitrary: b)
  case Nil
  then show ?case by (cases b; cases s) auto
next
  case (Cons c a)
  show ?case
  proof (cases b)
    case Nil
    with Cons.prems have "t = c # (a @ s)" by simp
    with Cons.prems show ?thesis by simp
  next
    case b: (Cons d b')
    with Cons.prems have "c = d" and "a @ s = b' @ t" by simp_all
    with Cons.prems b Cons.IH[of b'] show ?thesis by simp
  qed
qed

text \<open>A code whose texts are separated by delimiters: values of \<open>ok\<close> are told apart by their texts,
  whatever delimited text follows.\<close>

locale delimited_code =
  fixes enc :: "'a \<Rightarrow> string" and ok :: "'a \<Rightarrow> bool"
  assumes enc_unique:
    "\<lbrakk>ok x; ok y; delim s; delim t; enc x @ s = enc y @ t\<rbrakk> \<Longrightarrow> x = y \<and> s = t"
    and enc_start: "ok x \<Longrightarrow> \<not> delim (enc x)"
begin

lemma enc_inj: "ok x \<Longrightarrow> ok y \<Longrightarrow> enc x = enc y \<Longrightarrow> x = y"
  using enc_unique[of x y "[]" "[]"] by simp

lemma enc_not_close: "ok x \<Longrightarrow> delim_char c \<Longrightarrow> enc x @ s \<noteq> c # t"
  using enc_start[of x] by (cases "enc x") auto

lemma join_not_close:
  "xs \<noteq> [] \<Longrightarrow> list_all ok xs \<Longrightarrow> delim_char c \<Longrightarrow> py_join '','' (map enc xs) @ s \<noteq> c # t"
  by (cases "('','' , map enc xs)" rule: py_join.cases) (auto simp: enc_not_close)

lemma join_unique:
  assumes "list_all ok xs" and "list_all ok ys" and "c = CHR '']'' \<or> c = CHR ''}''"
    and "py_join '','' (map enc xs) @ c # s = py_join '','' (map enc ys) @ c # t"
  shows "xs = ys \<and> s = t"
  using assms
proof (induction xs arbitrary: ys)
  case Nil
  have "delim_char c" using Nil(3) by (auto simp: delim_char_def)
  then show ?case
    using Nil join_not_close[of ys c "c # t" s] by (cases "ys = []") (auto dest: sym)
next
  case (Cons x xs)
  have closing: "delim_char c" "c \<noteq> CHR '',''" using Cons.prems(3) by (auto simp: delim_char_def)
  obtain y ys' where ys: "ys = y # ys'"
    using Cons.prems join_not_close[of "x # xs" c "c # s" t] closing by (cases ys) auto
  define rest where "rest zs u = (if zs = [] then c # u else '','' @ py_join '','' (map enc zs) @ c # u)" for zs u
  have split: "py_join '','' (map enc (z # zs)) @ c # u = enc z @ rest zs u" for z zs u
    by (cases zs) (simp_all add: rest_def)
  have "delim (rest zs u)" for zs u
    using closing by (simp add: rest_def delim_char_def)
  moreover have "enc x @ rest xs s = enc y @ rest ys' t"
    using Cons.prems(4) unfolding ys split .
  ultimately have "x = y \<and> rest xs s = rest ys' t"
    using Cons.prems(1,2) ys by (intro enc_unique) simp_all
  then show ?case
    using Cons.IH[of ys'] Cons.prems ys closing(2) by (auto simp: rest_def split: if_splits)
qed

end

text \<open>What the printer relies on of the float texts: on the floats \<open>F\<close> that occur, \<open>frepr\<close> is the
  decimal notation of a number, it tells floats apart and is never that of an integer.\<close>

definition number_char :: "char \<Rightarrow> bool" where
  "number_char c \<longleftrightarrow> is_digit c \<or> c \<in> {CHR ''-'', CHR ''+'', CHR ''.'', CHR ''e''}"

definition float_texts :: "real set \<Rightarrow> (real \<Rightarrow> string) \<Rightarrow> bool" where
  "float_texts F frepr \<longleftrightarrow>
     inj_on frepr F
   \<and> (\<forall>r\<in>F. list_all number_char (frepr r) \<and> list_ex (\<lambda>c. c = CHR ''.'' \<or> c = CHR ''e'') (frepr r))"

fun floats_in :: "real set \<Rightarrow> pyval \<Rightarrow> bool" where
  "floats_in F (PFloat r) = (r \<in> F)"
| "floats_in F (PList xs) = list_all (floats_in F) xs"
| "floats_in F (PDict d) = list_all (\<lambda>kv. floats_in F (snd kv)) d"
| "floats_in F v = True"

fun is_atom :: "pyval \<Rightarrow> bool" where
  "is_atom PNone = True"
| "is_atom (PBool b) = True"
| "is_atom (PInt i) = True"
| "is_atom (PFloat r) = True"
| "is_atom v = False"

lemma number_not_delim: "number_char c \<Longrightarrow> \<not> delim_char c"
  by (auto simp: number_char_def delim_char_def is_digit_def)

lemma py_str_int_chars: "list_all (\<lambda>c. is_digit c \<or> c = CHR ''-'') (py_str_int i)"
  using show_nat_digits by (auto simp: py_str_int_def list_all_iff)

lemma py_str_int_inj: "py_str_int i = py_str_int j \<Longrightarrow> i = j"
proof -
  have "show_nat n \<noteq> CHR ''-'' # s" for n s
    using show_nat_digits[of n] by (auto simp: is_digit_def)
  then show "py_str_int i = py_str_int j \<Longrightarrow> i = j"
    by (auto simp: py_str_int_def split: if_splits) metis+
qed

lemma py_str_int_number: "list_all number_char (py_str_int i)" "py_str_int i \<noteq> []"
  using py_str_int_chars[of i] by (auto simp: number_char_def list_all_iff py_str_int_def)

lemma number_text_no_delim: "list_all number_char t \<Longrightarrow> list_all (\<lambda>c. \<not> delim_char c) t"
  by (auto simp: list_all_iff number_not_delim)

lemma float_text:
  assumes "float_texts F frepr" and "r \<in> F"
  shows "list_all number_char (frepr r)" and "frepr r \<noteq> py_str_int i" and "frepr r \<noteq> []"
proof -
  show *: "list_all number_char (frepr r)" using assms by (simp add: float_texts_def)
  have ex: "list_ex (\<lambda>c. c = CHR ''.'' \<or> c = CHR ''e'') (frepr r)"
    using assms by (simp add: float_texts_def)
  then show "frepr r \<noteq> []" by auto
  have "\<not> list_ex (\<lambda>c. c = CHR ''.'' \<or> c = CHR ''e'') (py_str_int i)"
    using py_str_int_chars[of i] by (auto simp: list_ex_iff list_all_iff is_digit_def)
  with ex show "frepr r \<noteq> py_str_int i" by metis
qed

lemma atom_chars:
  assumes "is_atom v" and "floats_in F v" and "float_texts F frepr"
  shows "list_all (\<lambda>c. \<not> delim_char c) (json_dumps esc frepr v)"
  using assms float_text(1)[OF assms(3)]
  by (cases v) (simp_all add: py_str_int_number number_text_no_delim, simp_all add: delim_char_def)

definition open_char :: "char \<Rightarrow> bool" where
  "open_char c \<longleftrightarrow> c = quote_char \<or> c = CHR ''['' \<or> c = CHR ''{''"

lemma number_not_letter:
  "number_char c \<Longrightarrow> c \<noteq> CHR ''n'' \<and> c \<noteq> CHR ''t'' \<and> c \<noteq> CHR ''f'' \<and> \<not> open_char c"
  by (auto simp: number_char_def is_digit_def open_char_def quote_char_def)

lemma number_text_first: "list_all number_char t \<Longrightarrow> t \<noteq> [] \<Longrightarrow> number_char (hd t)"
  by (cases t) simp_all

lemma atom_first:
  assumes "is_atom v" and "floats_in F v" and "float_texts F frepr"
  shows "json_dumps esc frepr v \<noteq> [] \<and> \<not> open_char (hd (json_dumps esc frepr v))"
  using assms float_text(1,3)[OF assms(3)]
  by (cases v)
    (simp_all add: py_str_int_number number_text_first number_not_letter, simp_all add: open_char_def quote_char_def)

lemma number_text_not_word:
  assumes "list_all number_char t"
  shows "t \<noteq> ''null''" "t \<noteq> ''true''" "t \<noteq> ''false''"
  using assms by (auto simp: number_char_def is_digit_def)

lemma atom_inj:
  assumes "float_texts F frepr"
    and "is_atom v" "floats_in F v" "is_atom w" "floats_in F w"
    and "json_dumps esc frepr v = json_dumps esc frepr w"
  shows "v = w"
proof -
  have inj: "inj_on frepr F" using assms(1) by (simp add: float_texts_def)
  note words = number_text_not_word[OF py_str_int_number(1)]
    number_text_not_word[OF float_text(1)[OF assms(1)]]
  show ?thesis
    using assms(2-6)
    by (cases v; cases w)
      (auto simp: words words[symmetric] float_text(2)[OF assms(1)] float_text(2)[OF assms(1), symmetric]
        dest: py_str_int_inj inj_onD[OF inj] split: if_splits)
qed

definition pair_text :: "(char \<Rightarrow> string) \<Rightarrow> (real \<Rightarrow> string) \<Rightarrow> string \<times> pyval \<Rightarrow> string" where
  "pair_text esc frepr kv = json_string esc (fst kv) @ '':'' @ json_dumps esc frepr (snd kv)"

lemma json_items_map: "json_items esc frepr xs = map (json_dumps esc frepr) xs"
  by (induction xs) simp_all

lemma json_pairs_map: "json_pairs esc frepr d = map (pair_text esc frepr) d"
  by (induction d) (auto simp: pair_text_def)

text \<open>From a code of values to a code of the items of an object.\<close>

lemma pair_code:
  assumes "escape_code esc" and "delimited_code (json_dumps esc frepr) ok"
  shows "delimited_code (pair_text esc frepr) (\<lambda>kv. ok (snd kv))"
proof
  fix x y :: "string \<times> pyval" and s t
  assume ok: "ok (snd x)" "ok (snd y)" and delims: "delim s" "delim t"
    and eq: "pair_text esc frepr x @ s = pair_text esc frepr y @ t"
  have "fst x = fst y \<and> '':'' @ json_dumps esc frepr (snd x) @ s = '':'' @ json_dumps esc frepr (snd y) @ t"
    using eq by (intro escape_code.json_string_unique[OF assms(1)]) (simp add: pair_text_def)
  then show "x = y \<and> s = t"
    using delimited_code.enc_unique[OF assms(2) ok delims] by (auto simp: prod_eq_iff)
next
  fix x :: "string \<times> pyval"
  show "\<not> delim (pair_text esc frepr x)"
    by (simp add: pair_text_def json_string_def delim_char_def quote_char_def)
qed

lemma size_member:
  "x \<in> set xs \<Longrightarrow> size x < size (PList xs)"
  "kv \<in> set d \<Longrightarrow> size (snd kv) < size (PDict d)"
proof -
  show "x \<in> set xs \<Longrightarrow> size x < size (PList xs)"
    by (induction xs) auto
  show "kv \<in> set d \<Longrightarrow> size (snd kv) < size (PDict d)"
    by (induction d) (auto simp: size_prod_simp)
qed

definition small :: "real set \<Rightarrow> nat \<Rightarrow> pyval \<Rightarrow> bool" where
  "small F n v \<longleftrightarrow> floats_in F v \<and> size v < n"

lemma small_parts:
  "small F (Suc n) (PList xs) \<Longrightarrow> list_all (small F n) xs"
  "small F (Suc n) (PDict d) \<Longrightarrow> list_all (\<lambda>kv. small F n (snd kv)) d"
  using size_member by (fastforce simp: small_def list_all_iff)+

lemma compound_unique:
  assumes esc: "escape_code esc" and ft: "float_texts F frepr"
    and IH: "delimited_code (json_dumps esc frepr) (small F n)"
    and "small F (Suc n) v" "small F (Suc n) w" "\<not> is_atom v" "\<not> is_atom w"
    and "json_dumps esc frepr v @ s = json_dumps esc frepr w @ t"
  shows "v = w \<and> s = t"
proof -
  note pairs = pair_code[OF esc IH]
  show ?thesis
    using assms(4-8)
    by (cases v; cases w)
      (auto simp: json_string_def quote_char_def json_items_map json_pairs_map
        dest: small_parts escape_code.literal_unique[OF esc, unfolded quote_char_def]
          delimited_code.join_unique[OF IH, of _ _ "CHR '']''"] delimited_code.join_unique[OF pairs, of _ _ "CHR ''}''"])
qed

lemma compound_first:
  "\<not> is_atom v \<Longrightarrow> json_dumps esc frepr v \<noteq> [] \<and> open_char (hd (json_dumps esc frepr v))"
  by (cases v) (simp_all add: open_char_def json_string_def)

lemma dumps_not_delim:
  assumes "float_texts F frepr" and "floats_in F v"
  shows "\<not> delim (json_dumps esc frepr v)"
proof (cases "is_atom v")
  case True
  show ?thesis
    using atom_chars[OF True assms(2,1), of esc] atom_first[OF True assms(2,1), of esc]
    by (cases "json_dumps esc frepr v") simp_all
next
  case False
  show ?thesis
    using compound_first[OF False, of esc frepr]
    by (cases "json_dumps esc frepr v") (auto simp: open_char_def delim_char_def quote_char_def)
qed

lemma atom_compound_apart:
  assumes "float_texts F frepr" and "is_atom v" "floats_in F v" "\<not> is_atom w"
  shows "json_dumps esc frepr v @ s \<noteq> json_dumps esc frepr w @ t"
  using atom_first[OF assms(2,3,1), of esc] compound_first[OF assms(4), of esc frepr]
  by (metis hd_append2)

lemma json_code_below:
  assumes esc: "escape_code esc" and ft: "float_texts F frepr"
  shows "delimited_code (json_dumps esc frepr) (small F n)"
proof (induction n)
  case 0
  show ?case by unfold_locales (simp_all add: small_def)
next
  case (Suc n)
  show ?case
  proof
    fix v w s t
    assume vw: "small F (Suc n) v" "small F (Suc n) w" and delims: "delim s" "delim t"
      and eq: "json_dumps esc frepr v @ s = json_dumps esc frepr w @ t"
    have fl: "floats_in F v" "floats_in F w" using vw by (simp_all add: small_def)
    consider "is_atom v" "is_atom w" | "\<not> is_atom v" "\<not> is_atom w"
      using atom_compound_apart[OF ft _ fl(1), of w esc s t] atom_compound_apart[OF ft _ fl(2), of v esc t s]
        eq eq[symmetric] by blast
    then show "v = w \<and> s = t"
    proof cases
      case 1
      then have "json_dumps esc frepr v = json_dumps esc frepr w \<and> s = t"
        using atom_chars[OF _ _ ft] fl delims eq by (intro atom_unique) simp_all
      with 1 fl show ?thesis using atom_inj[OF ft] by blast
    next
      case 2
      then show ?thesis using compound_unique[OF esc ft Suc.IH vw _ _ eq] by blast
    qed
  next
    fix v
    assume "small F (Suc n) v"
    then show "\<not> delim (json_dumps esc frepr v)" using dumps_not_delim[OF ft] by (simp add: small_def)
  qed
qed

lemma json_code:
  assumes "escape_code esc" and "float_texts F frepr"
  shows "delimited_code (json_dumps esc frepr) (floats_in F)"
proof
  fix v w s t
  assume "floats_in F v" "floats_in F w" "delim s" "delim t"
    and "json_dumps esc frepr v @ s = json_dumps esc frepr w @ t"
  then show "v = w \<and> s = t"
    using delimited_code.enc_unique[OF json_code_below[OF assms, of "Suc (size v + size w)"], of v w s t]
    by (simp add: small_def)
qed (rule dumps_not_delim[OF assms(2)])

text \<open>On values without floats the printer meets the contract whatever \<open>frepr\<close> is.\<close>

interpretation plain_json: delimited_code "json_dumps plain_escape frepr" "floats_in {}" for frepr
  by (rule json_code) (unfold_locales, simp add: float_texts_def)

interpretation ascii_json: delimited_code "json_dumps ascii_escape frepr" "floats_in {}" for frepr
  by (rule json_code) (unfold_locales, simp add: float_texts_def)

text \<open>The compact text of a JSON value determines it.\<close>

theorem json_dumps_inj:
  assumes "escape_code esc" and "float_texts F frepr" and "floats_in F v" and "floats_in F w"
    and "json_dumps esc frepr v = json_dumps esc frepr w"
  shows "v = w"
  using delimited_code.enc_inj[OF json_code[OF assms(1,2)]] assms(3-) by blast

lemma floats_in_json_sort: "floats_in F v \<Longrightarrow> floats_in F (json_sort v)"
  by (induction v rule: json_sort.induct) (auto simp: list_all_iff)

end
