(* ===== verification/Capacity_Context.thy ===== *)
theory Capacity_Context
  imports Contracts Json_Text
begin

text \<open>
  \<open>whooshd/capacity_context.py\<close> and the budget schema of \<open>whooshd/capacity_profile.py\<close>: the
  estimated token cost of a request and its comparison with the per-model context budgets.

  \<open>json.dumps\<close> is modelled on JSON values up to the printing of floats, which is a parameter
  (\<open>frepr\<close>); the text it yields is used for its length only. An exact token counter, where the
  caller has one, may raise: it is a function into \<open>int option\<close>.
\<close>

section \<open>Budgets\<close>

datatype ContextBudget = CB_HARD | CB_RECOMMENDED | CB_INTERACTIVE | CB_MAX_INPUT | CB_MAX_OUTPUT

datatype ContextDecisionReason =
    WITHIN_INTERACTIVE | WITHIN_RECOMMENDED | ABOVE_RECOMMENDED | ABOVE_HARD
  | ABOVE_INPUT_LIMIT | ABOVE_OUTPUT_LIMIT | NO_BUDGET

record ContextBudgets =
  hard_max_tokens :: "int option"
  recommended_max_tokens :: "int option"
  interactive_max_tokens :: "int option"
  max_output_tokens :: "int option"
  max_input_tokens :: "int option"
  multimodal_token_estimate :: "int option"

datatype CostStatus = COST_STATUS_EXACT | COST_STATUS_ESTIMATED | COST_STATUS_UNKNOWN

datatype OutputSource = SRC_MAX_TOKENS | SRC_MAX_COMPLETION_TOKENS | SRC_DEFAULT

record RequestCost =
  input_tokens :: int
  output_tokens :: int
  multimodal_tokens :: int
  total_tokens :: int
  input_is_exact :: bool
  multimodal_is_exact :: bool
  output_is_exact :: bool
  has_unknown_cost :: bool
  output_limit_source :: OutputSource
  structured_prompt_tokens :: int
  media_parts :: int

definition cost_status :: "RequestCost \<Rightarrow> CostStatus" where
  "cost_status c =
     (if has_unknown_cost c then COST_STATUS_UNKNOWN
      else if input_is_exact c \<and> output_is_exact c \<and> multimodal_is_exact c then COST_STATUS_EXACT
      else COST_STATUS_ESTIMATED)"

record ContextEvaluation =
  ce_reason :: ContextDecisionReason
  ce_budget :: "ContextBudget option"
  ce_total_tokens :: int
  ce_within_budget :: bool
  ce_over_limit :: bool
  ce_breached_budget :: "ContextBudget option"
  ce_hard_max_tokens :: "int option"
  ce_recommended_max_tokens :: "int option"
  ce_interactive_max_tokens :: "int option"
  ce_cost :: RequestCost
  ce_cost_is_exact :: bool
  ce_cost_status :: CostStatus
  ce_max_input_tokens :: "int option"
  ce_max_output_tokens :: "int option"

section \<open>Request inspection\<close>

definition newline :: string where
  "newline = [char_of (10::nat)]"

text \<open>The text a content part contributes (if any) and whether it counts as media.\<close>

definition part_text_media :: "pyval \<Rightarrow> string list \<times> int" where
  "part_text_media part =
     (case part of
        PDict d \<Rightarrow>
          (let part_type = (case dget d ''type'' of None \<Rightarrow> PNone | Some v \<Rightarrow> v)
           in if part_type = PStr ''text'' \<or> part_type = PNone \<and> dget d ''text'' \<noteq> None
              then (case dget d ''text'' of
                      Some (PStr t) \<Rightarrow> (if t = [] then ([], 0) else ([t], 0))
                    | _ \<Rightarrow> ([], 0))
              else ([], 1))
      | _ \<Rightarrow> ([], 0))"

fun parts_text_media :: "pyval list \<Rightarrow> string list \<times> int" where
  "parts_text_media [] = ([], 0)"
| "parts_text_media (p # ps) =
     (case part_text_media p of (t, m) \<Rightarrow>
      case parts_text_media ps of (ts, ms) \<Rightarrow> (t @ ts, m + ms))"

definition content_text_media :: "content \<Rightarrow> string list \<times> int" where
  "content_text_media c =
     (case c of
        CText t \<Rightarrow> (if t = [] then ([], 0) else ([t], 0))
      | CParts ps \<Rightarrow> parts_text_media ps)"

fun messages_text_media :: "ChatMessage list \<Rightarrow> string list \<times> int" where
  "messages_text_media [] = ([], 0)"
| "messages_text_media (m # ms) =
     (case content_text_media (msg_content m) of (t, k) \<Rightarrow>
      case messages_text_media ms of (ts, ks) \<Rightarrow> (t @ ts, k + ks))"

text \<open>\<open>_message_text_and_media\<close>: the joined text, the number of text parts, the number of
  multimodal parts.\<close>

definition message_text_and_media :: "ChatMessage list \<Rightarrow> string \<times> int \<times> int" where
  "message_text_and_media ms =
     (case messages_text_media ms of (chunks, media) \<Rightarrow>
        (py_join newline chunks, int (length chunks), media))"

definition safe_json :: "(real \<Rightarrow> string) \<Rightarrow> pyval \<Rightarrow> string" where
  "safe_json frepr v = (if v = PNone then [] else json_dumps ascii_escape frepr v)"

text \<open>One optional field: its serialization when it is present and true.\<close>

definition json_chunk :: "(real \<Rightarrow> string) \<Rightarrow> pyval option \<Rightarrow> string list" where
  "json_chunk frepr v = (if truthy_opt v then [safe_json frepr (the v)] else [])"

definition str_chunk :: "string option \<Rightarrow> string list" where
  "str_chunk s = (if str_true s then [the s] else [])"

definition message_chunks :: "(real \<Rightarrow> string) \<Rightarrow> ChatMessage \<Rightarrow> string list" where
  "message_chunks frepr m =
     json_chunk frepr (map_option PList (msg_tool_calls m))
     @ str_chunk (msg_name m) @ str_chunk (msg_tool_call_id m)"

definition structured_prompt_text :: "(real \<Rightarrow> string) \<Rightarrow> ChatCompletionRequest \<Rightarrow> string" where
  "structured_prompt_text frepr r =
     (let chunks = json_chunk frepr (map_option PList (req_tools r))
                   @ json_chunk frepr (req_tool_choice r)
                   @ json_chunk frepr (req_response_format r)
                   @ json_chunk frepr (map_option (\<lambda>ss. PList (map PStr ss)) (req_stop r))
                   @ concat (map (message_chunks frepr) (req_messages r))
      in py_join newline (filter (\<lambda>c. c \<noteq> []) chunks))"

section \<open>Cost estimation\<close>

type_synonym token_counter = "string \<Rightarrow> int option"

definition CHARS_PER_TOKEN_FALLBACK :: nat where
  "CHARS_PER_TOKEN_FALLBACK = 4"

text \<open>\<open>math.ceil(len(text) / 4)\<close>.\<close>

definition heuristic_tokens :: "string \<Rightarrow> int" where
  "heuristic_tokens t =
     int ((length t + (CHARS_PER_TOKEN_FALLBACK - 1)) div CHARS_PER_TOKEN_FALLBACK)"

definition count_tokens :: "string \<Rightarrow> token_counter option \<Rightarrow> int \<times> bool" where
  "count_tokens text counter =
     (case counter of
        None \<Rightarrow> (heuristic_tokens text, False)
      | Some f \<Rightarrow> (case f text of
                     None \<Rightarrow> (heuristic_tokens text, False)
                   | Some n \<Rightarrow> (max 0 n, True)))"

definition effective_output_limit ::
  "ChatCompletionRequest \<Rightarrow> int \<Rightarrow> int \<times> bool \<times> OutputSource" where
  "effective_output_limit r default_max_tokens =
     (case req_max_completion_tokens r of
        Some mc \<Rightarrow>
          (let completion = max 0 mc;
               other = (case req_max_tokens r of None \<Rightarrow> 0 | Some mt \<Rightarrow> max 0 mt)
           in (max completion other, True, SRC_MAX_COMPLETION_TOKENS))
      | None \<Rightarrow>
          (case req_max_tokens r of
             Some mt \<Rightarrow> (max 0 mt, True, SRC_MAX_TOKENS)
           | None \<Rightarrow> (max 0 default_max_tokens, False, SRC_DEFAULT)))"

definition estimate_request_cost ::
  "(real \<Rightarrow> string) \<Rightarrow> ChatCompletionRequest \<Rightarrow> token_counter option \<Rightarrow> int option \<Rightarrow> int
   \<Rightarrow> RequestCost" where
  "estimate_request_cost frepr r counter mm_estimate default_max_tokens =
     (let (text, text_parts, media) = message_text_and_media (req_messages r);
          structured_text = structured_prompt_text frepr r;
          (text_tok, text_exact) = count_tokens text counter;
          (struct_tok, struct_exact) =
            (if structured_text \<noteq> [] then count_tokens structured_text counter else (0, True));
          in_tok = text_tok + struct_tok;
          (out_tok, out_exact, out_source) = effective_output_limit r default_max_tokens;
          priced = (media \<noteq> 0 \<and> (case mm_estimate of None \<Rightarrow> False | Some e \<Rightarrow> e \<noteq> 0));
          mm_tok = (if priced then media * the mm_estimate else 0)
      in \<lparr>input_tokens = in_tok, output_tokens = out_tok, multimodal_tokens = mm_tok,
          total_tokens = in_tok + out_tok + mm_tok,
          input_is_exact = (text_exact \<and> struct_exact),
          multimodal_is_exact = (media = 0),
          output_is_exact = out_exact,
          has_unknown_cost = (\<not> priced \<and> media \<noteq> 0),
          output_limit_source = out_source,
          structured_prompt_tokens = struct_tok,
          media_parts = media\<rparr>)"

definition estimate_prompt_cost ::
  "string \<Rightarrow> int option \<Rightarrow> token_counter option \<Rightarrow> int \<Rightarrow> RequestCost" where
  "estimate_prompt_cost prompt mt counter default_max_tokens =
     (let (in_tok, in_exact) = count_tokens prompt counter;
          (out_tok, out_exact, out_source) =
            (case mt of
               None \<Rightarrow> (max 0 default_max_tokens, False, SRC_DEFAULT)
             | Some n \<Rightarrow> (max 0 n, True, SRC_MAX_TOKENS))
      in \<lparr>input_tokens = in_tok, output_tokens = out_tok, multimodal_tokens = 0,
          total_tokens = in_tok + out_tok, input_is_exact = in_exact,
          multimodal_is_exact = True, output_is_exact = out_exact, has_unknown_cost = False,
          output_limit_source = out_source, structured_prompt_tokens = 0, media_parts = 0\<rparr>)"

section \<open>Budget evaluation\<close>

definition exceeds :: "int \<Rightarrow> int option \<Rightarrow> bool" where
  "exceeds n limit = (case limit of None \<Rightarrow> False | Some m \<Rightarrow> m < n)"

definition context_result ::
  "RequestCost \<Rightarrow> ContextBudgets \<Rightarrow> ContextDecisionReason \<Rightarrow> ContextBudget \<Rightarrow> bool
   \<Rightarrow> ContextEvaluation" where
  "context_result cost b reason budget over =
     \<lparr>ce_reason = reason, ce_budget = Some budget, ce_total_tokens = total_tokens cost,
      ce_within_budget = (\<not> over), ce_over_limit = over,
      ce_breached_budget = (if over then Some budget else None),
      ce_hard_max_tokens = hard_max_tokens b,
      ce_recommended_max_tokens = recommended_max_tokens b,
      ce_interactive_max_tokens = interactive_max_tokens b, ce_cost = cost,
      ce_cost_is_exact = (cost_status cost = COST_STATUS_EXACT),
      ce_cost_status = cost_status cost,
      ce_max_input_tokens = max_input_tokens b, ce_max_output_tokens = max_output_tokens b\<rparr>"

definition evaluate_context :: "RequestCost \<Rightarrow> ContextBudgets option \<Rightarrow> ContextEvaluation" where
  "evaluate_context cost budgets =
     (case budgets of
        None \<Rightarrow>
          \<lparr>ce_reason = NO_BUDGET, ce_budget = None, ce_total_tokens = total_tokens cost,
           ce_within_budget = True, ce_over_limit = False, ce_breached_budget = None,
           ce_hard_max_tokens = None, ce_recommended_max_tokens = None,
           ce_interactive_max_tokens = None, ce_cost = cost,
           ce_cost_is_exact = (cost_status cost = COST_STATUS_EXACT),
           ce_cost_status = cost_status cost,
           ce_max_input_tokens = None, ce_max_output_tokens = None\<rparr>
      | Some b \<Rightarrow>
          (if exceeds (output_tokens cost) (max_output_tokens b)
           then context_result cost b ABOVE_OUTPUT_LIMIT CB_MAX_OUTPUT True
           else if exceeds (input_tokens cost + multimodal_tokens cost) (max_input_tokens b)
           then context_result cost b ABOVE_INPUT_LIMIT CB_MAX_INPUT True
           else if exceeds (total_tokens cost) (hard_max_tokens b)
           then context_result cost b ABOVE_HARD CB_HARD True
           else if exceeds (total_tokens cost) (recommended_max_tokens b)
           then context_result cost b ABOVE_RECOMMENDED CB_RECOMMENDED False
           else if exceeds (total_tokens cost) (interactive_max_tokens b)
           then context_result cost b WITHIN_RECOMMENDED CB_RECOMMENDED False
           else context_result cost b WITHIN_INTERACTIVE CB_INTERACTIVE False))"

section \<open>Lemmas\<close>

lemma heuristic_tokens_bounds:
  "int (length t) \<le> 4 * heuristic_tokens t" "4 * heuristic_tokens t < int (length t) + 4"
proof -
  have "length t \<le> 4 * ((length t + 3) div 4)" and "4 * ((length t + 3) div 4) < length t + 4"
    by presburger+
  then show "int (length t) \<le> 4 * heuristic_tokens t" "4 * heuristic_tokens t < int (length t) + 4"
    by (simp_all add: heuristic_tokens_def CHARS_PER_TOKEN_FALLBACK_def)
qed

lemma heuristic_tokens_nonneg [simp]: "0 \<le> heuristic_tokens t"
  by (simp add: heuristic_tokens_def)

lemma count_tokens_nonneg: "count_tokens t f = (n, e) \<Longrightarrow> 0 \<le> n"
  by (auto simp: count_tokens_def split: option.splits)

lemma count_tokens_no_counter: "count_tokens t None = (heuristic_tokens t, False)"
  by (simp add: count_tokens_def)

lemma part_media_nonneg: "0 \<le> snd (part_text_media p)"
  by (auto simp: part_text_media_def Let_def split: pyval.splits option.splits)

lemma parts_media_nonneg: "0 \<le> snd (parts_text_media ps)"
proof (induction ps)
  case (Cons p ps)
  then show ?case using part_media_nonneg[of p] by (auto split: prod.splits)
qed simp

lemma messages_media_nonneg: "0 \<le> snd (messages_text_media ms)"
proof (induction ms)
  case (Cons m ms)
  have "0 \<le> snd (content_text_media (msg_content m))"
    by (auto simp: content_text_media_def parts_media_nonneg split: content.splits)
  with Cons show ?case by (auto split: prod.splits)
qed simp

lemma media_nonneg: "message_text_and_media ms = (t, n, m) \<Longrightarrow> 0 \<le> m"
  using messages_media_nonneg[of ms] by (auto simp: message_text_and_media_def split: prod.splits)

lemma effective_output_limit_ge:
  assumes "effective_output_limit r d = (n, e, src)"
  shows "0 \<le> n"
    and "req_max_tokens r = Some mt \<Longrightarrow> mt \<le> n"
    and "req_max_completion_tokens r = Some mc \<Longrightarrow> mc \<le> n"
    and "e \<longleftrightarrow> req_max_tokens r \<noteq> None \<or> req_max_completion_tokens r \<noteq> None"
  using assms by (auto simp: effective_output_limit_def Let_def split: option.splits)

lemmas estimate_defs = estimate_request_cost_def Let_def

lemma exceeds_iff: "exceeds n limit \<longleftrightarrow> (\<exists>m. limit = Some m \<and> m < n)"
  by (auto simp: exceeds_def split: option.splits)

lemma exceeds_mono: "exceeds n limit \<Longrightarrow> n \<le> m \<Longrightarrow> exceeds m limit"
  by (auto simp: exceeds_iff)

lemma evaluate_context_None [simp]: "ce_over_limit (evaluate_context c None) = False"
  by (simp add: evaluate_context_def)

lemma evaluate_context_over:
  "ce_over_limit (evaluate_context c (Some b)) \<longleftrightarrow>
     exceeds (output_tokens c) (max_output_tokens b)
   \<or> exceeds (input_tokens c + multimodal_tokens c) (max_input_tokens b)
   \<or> exceeds (total_tokens c) (hard_max_tokens b)"
  by (simp add: evaluate_context_def context_result_def)

section \<open>Properties\<close>

text \<open>A request is over its context limit exactly when it exceeds a declared per-direction
  maximum or the hard ceiling; the recommended and interactive budgets never reject; the
  evaluation is over the limit exactly when it is not within budget and exactly when it names
  a breached budget; and a costlier request stays rejected.\<close>

theorem evaluate_context_rejects_iff:
  fixes cost cost' :: RequestCost
  shows "(ce_over_limit (evaluate_context cost budgets) \<longleftrightarrow>
            (\<exists>b. budgets = Some b \<and>
               ((\<exists>m. max_output_tokens b = Some m \<and> m < output_tokens cost)
              \<or> (\<exists>m. max_input_tokens b = Some m \<and> m < input_tokens cost + multimodal_tokens cost)
              \<or> (\<exists>m. hard_max_tokens b = Some m \<and> m < total_tokens cost))))
       \<and> (ce_over_limit (evaluate_context cost budgets) \<longleftrightarrow>
            \<not> ce_within_budget (evaluate_context cost budgets))
       \<and> (ce_over_limit (evaluate_context cost budgets) \<longleftrightarrow>
            ce_breached_budget (evaluate_context cost budgets) \<noteq> None)
       \<and> (input_tokens cost \<le> input_tokens cost' \<and> output_tokens cost \<le> output_tokens cost'
          \<and> multimodal_tokens cost \<le> multimodal_tokens cost' \<and> total_tokens cost \<le> total_tokens cost'
          \<and> ce_over_limit (evaluate_context cost budgets)
          \<longrightarrow> ce_over_limit (evaluate_context cost' budgets))"
proof (cases budgets)
  case None
  then show ?thesis by (simp add: evaluate_context_def)
next
  case (Some b)
  have mono: "ce_over_limit (evaluate_context cost (Some b)) \<Longrightarrow>
      input_tokens cost \<le> input_tokens cost' \<Longrightarrow> output_tokens cost \<le> output_tokens cost' \<Longrightarrow>
      multimodal_tokens cost \<le> multimodal_tokens cost' \<Longrightarrow> total_tokens cost \<le> total_tokens cost' \<Longrightarrow>
      ce_over_limit (evaluate_context cost' (Some b))"
    unfolding evaluate_context_over by (meson add_mono exceeds_mono)
  show ?thesis
    using Some mono
    by (auto simp: evaluate_context_over exceeds_iff[symmetric] evaluate_context_def
        context_result_def)
qed

definition demo_cost :: "int \<Rightarrow> RequestCost" where
  "demo_cost n =
     \<lparr>input_tokens = n, output_tokens = 10, multimodal_tokens = 0, total_tokens = n + 10,
      input_is_exact = False, multimodal_is_exact = True, output_is_exact = True,
      has_unknown_cost = False, output_limit_source = SRC_MAX_TOKENS,
      structured_prompt_tokens = 0, media_parts = 0\<rparr>"

definition demo_budgets :: ContextBudgets where
  "demo_budgets =
     \<lparr>hard_max_tokens = Some 100, recommended_max_tokens = Some 50,
      interactive_max_tokens = Some 20, max_output_tokens = Some 40, max_input_tokens = None,
      multimodal_token_estimate = None\<rparr>"

theorem evaluate_context_rejects_iff_witness:
  "ce_over_limit (evaluate_context (demo_cost 200) (Some demo_budgets))
   \<and> \<not> ce_over_limit (evaluate_context (demo_cost 60) (Some demo_budgets))"
  using evaluate_context_rejects_iff[of "demo_cost 95" "Some demo_budgets" "demo_cost 200"]
    evaluate_context_rejects_iff[of "demo_cost 60" "Some demo_budgets" "demo_cost 60"]
  by (simp add: demo_cost_def demo_budgets_def)

text \<open>The cost estimate never undercounts what it claims to count. Its total is the sum of its
  non-negative parts, the output reservation is at least every limit the client stated, without
  a tokenizer four times the input estimate covers every character of prompt and structured text
  and the cost is never labelled exact, and a request with media that the profile does not price
  is labelled unknown.\<close>

theorem estimate_request_cost_sound:
  fixes r :: ChatCompletionRequest
  assumes est: "mm_est = None \<or> (\<exists>e. mm_est = Some e \<and> 0 \<le> e)"
    and c: "c = estimate_request_cost frepr r None mm_est d"
  shows "total_tokens c = input_tokens c + output_tokens c + multimodal_tokens c
    \<and> 0 \<le> input_tokens c \<and> 0 \<le> output_tokens c \<and> 0 \<le> multimodal_tokens c
    \<and> (case req_max_tokens r of None \<Rightarrow> True | Some mt \<Rightarrow> mt \<le> output_tokens c)
    \<and> (case req_max_completion_tokens r of None \<Rightarrow> True | Some mc \<Rightarrow> mc \<le> output_tokens c)
    \<and> int (length (fst (message_text_and_media (req_messages r))))
         + int (length (structured_prompt_text frepr r)) \<le> 4 * input_tokens c
    \<and> cost_status c \<noteq> COST_STATUS_EXACT
    \<and> (cost_status c = COST_STATUS_UNKNOWN \<longleftrightarrow>
         0 < snd (snd (message_text_and_media (req_messages r)))
         \<and> (mm_est = None \<or> mm_est = Some 0))"
proof -
  obtain t n m where tm: "message_text_and_media (req_messages r) = (t, n, m)"
    by (cases "message_text_and_media (req_messages r)") auto
  obtain out e src where out: "effective_output_limit r d = (out, e, src)"
    by (cases "effective_output_limit r d") auto
  note ge = effective_output_limit_ge[OF out]
  note unf = c estimate_defs tm out count_tokens_no_counter
  let ?s = "structured_prompt_text frepr r"
  have m: "0 \<le> m" using media_nonneg[OF tm] .
  have "total_tokens c = input_tokens c + output_tokens c + multimodal_tokens c"
    by (simp add: unf)
  moreover have "0 \<le> input_tokens c \<and> 0 \<le> output_tokens c \<and> 0 \<le> multimodal_tokens c"
    using ge(1) m est by (auto simp: unf)
  moreover have "case req_max_tokens r of None \<Rightarrow> True | Some mt \<Rightarrow> mt \<le> output_tokens c"
    using ge(2) by (simp add: unf split: option.split)
  moreover have "case req_max_completion_tokens r of None \<Rightarrow> True | Some mc \<Rightarrow> mc \<le> output_tokens c"
    using ge(3) by (simp add: unf split: option.split)
  moreover have "input_tokens c = heuristic_tokens t + (if ?s = [] then 0 else heuristic_tokens ?s)"
    by (simp add: unf)
  then have "int (length t) + int (length ?s) \<le> 4 * input_tokens c"
    using heuristic_tokens_bounds(1)[of t] heuristic_tokens_bounds(1)[of ?s]
    by (simp split: if_splits)
  moreover have "cost_status c \<noteq> COST_STATUS_EXACT"
    by (simp add: unf cost_status_def)
  moreover have "cost_status c = COST_STATUS_UNKNOWN \<longleftrightarrow> 0 < m \<and> (mm_est = None \<or> mm_est = Some 0)"
    using m by (auto simp: unf cost_status_def split: option.splits)
  ultimately show ?thesis by (simp add: tm)
qed

theorem estimate_request_cost_sound_witness:
  "(512::int) \<le> output_tokens (estimate_request_cost (\<lambda>_. ''0.5'')
      ((chat_request ''m'' [text_message ''user'' ''hello''])\<lparr>req_max_completion_tokens := Some 512\<rparr>)
      None (Some 3) 256)"
  using estimate_request_cost_sound[of "Some 3" _ "\<lambda>_. ''0.5''"
      "(chat_request ''m'' [text_message ''user'' ''hello''])\<lparr>req_max_completion_tokens := Some 512\<rparr>" 256]
  by (simp add: chat_request_def)

end
