(* ===== verification/Capacity_Controller.thy ===== *)
theory Capacity_Controller
  imports Config Capacity_Context
begin

text \<open>
  \<open>whooshd/capacity_controller.py\<close> with the profile schema of \<open>whooshd/capacity_profile.py\<close>:
  model identities, the cached profile loader, the effective concurrency limit, and the
  RUN / QUEUE / REJECT decision.

  The operating system is the record \<open>host\<close>: \<open>os.path.exists\<close>, \<open>os.path.getmtime\<close> (\<open>None\<close> where
  it raises), the parsing and validation of a profile file by \<open>json\<close> and pydantic (\<open>None\<close> where
  either raises), and \<open>os.sysconf\<close>'s physical memory. Of a profile, the fields the controller
  reads are modelled. The controller's methods pass its cache explicitly.
\<close>

section \<open>Profiles and vocabulary\<close>

datatype CapacityMode = FIXED | ADAPTIVE

datatype MemoryPressureClass = P_UNKNOWN | P_NORMAL | P_ELEVATED | P_HIGH | P_CRITICAL

datatype CapacityDecisionReason =
    BELOW_OPERATOR_CEILING | CALIBRATED_LIMIT | OPERATOR_CEILING | MISSING_PROFILE
  | INVALID_PROFILE | MEMORY_PRESSURE_HIGH | QUEUE_FULL | CONTEXT_OVERFLOW | LANE_CAPACITY
  | RUNTIME_NOT_READY | BATCH_ACTIVE_LIMIT_REACHED

datatype CapacityAction = RUN | QUEUE | REJECT

record CapacityProfile =
  prof_model_id :: string
  prof_runtime :: string
  prof_machine_class :: string
  prof_host_memory_bytes :: "int option"
  prof_recommended_active_concurrency :: int
  prof_context_budgets :: "ContextBudgets option"

record host =
  path_exists :: "string \<Rightarrow> bool"
  getmtime :: "string \<Rightarrow> real option"
  parse_profile :: "string \<Rightarrow> CapacityProfile option"
  host_memory_bytes :: "int option"

definition safe_load_profile :: "host \<Rightarrow> string \<Rightarrow> CapacityProfile option" where
  "safe_load_profile h path =
     (if path = [] \<or> \<not> path_exists h path then None else parse_profile h path)"

section \<open>Model identity\<close>

text \<open>\<open>re.sub(r"/snapshots/[^/]+$", "", text)\<close>: a final segment under \<open>snapshots\<close> is a revision.\<close>

definition strip_snapshot_revision :: "string \<Rightarrow> string" where
  "strip_snapshot_revision text =
     (if CHR ''/'' \<in> set text \<and> last_segment text \<noteq> []
         \<and> endswith (before_last_segment text) ''/snapshots''
      then take (length (before_last_segment text) - 10) text
      else text)"

definition canonical_model_identity :: "string \<Rightarrow> string option \<times> string" where
  "canonical_model_identity value =
     (let text0 = py_rstrip_chars (\<lambda>c. c = CHR ''/'') (py_strip value)
      in if text0 = [] then (None, [])
         else
           let text = strip_snapshot_revision text0 in
           case after_last ''models--'' text of
             Some tail \<Rightarrow>
               (let head = first_segment tail in
                case py_partition ''--'' head of (org, sep, name) \<Rightarrow>
                  if sep \<and> org \<noteq> [] \<and> name \<noteq> []
                  then (Some (py_lower org @ ''/'' @ py_lower name), py_lower name)
                  else (None, py_lower head))
           | None \<Rightarrow>
               if startswith_any text [''/'', ''./'', ''../'', ''~'']
               then (None, py_lower (last_segment text))
               else if CHR ''/'' \<in> set text
               then (Some (py_lower text), py_lower (last_segment text))
               else (None, py_lower text))"

definition model_identity_matches :: "string \<Rightarrow> string \<Rightarrow> bool" where
  "model_identity_matches profile_model_id candidate =
     (case canonical_model_identity profile_model_id of (left_repo, left_name) \<Rightarrow>
      case canonical_model_identity candidate of (right_repo, right_name) \<Rightarrow>
        if left_name = [] \<or> right_name = [] then False
        else if str_true left_repo \<and> str_true right_repo then left_repo = right_repo
        else if str_true left_repo \<or> str_true right_repo then False
        else left_name = right_name)"

section \<open>The cached profile loader\<close>

type_synonym signature = "string \<times> real option"

record controller =
  ctl_profile_path :: "string option"
  cached_profile :: "CapacityProfile option"
  cached_profile_signature :: "signature option"
  cached_profile_failure_signature :: "signature option"

definition new_controller :: controller where
  "new_controller =
     \<lparr>ctl_profile_path = None, cached_profile = None, cached_profile_signature = None,
      cached_profile_failure_signature = None\<rparr>"

text \<open>\<open>self._profile_path or get_capacity_profile_path()\<close>.\<close>

definition profile_path :: "environ \<Rightarrow> controller \<Rightarrow> string option" where
  "profile_path env c =
     (if str_true (ctl_profile_path c) then ctl_profile_path c else get_capacity_profile_path env)"

definition get_profile :: "environ \<Rightarrow> host \<Rightarrow> controller \<Rightarrow> CapacityProfile option \<times> controller" where
  "get_profile env h c =
     (case profile_path env c of
        None \<Rightarrow> (None, c)
      | Some path \<Rightarrow>
          (let sig = (path, getmtime h path) in
           if cached_profile_signature c = Some sig \<and> cached_profile c \<noteq> None
           then (cached_profile c, c)
           else if cached_profile_failure_signature c = Some sig then (None, c)
           else
             let p = safe_load_profile h path in
             (p, c\<lparr>cached_profile_signature := Some sig,
                   cached_profile := p,
                   cached_profile_failure_signature :=
                     (case p of None \<Rightarrow> Some sig | Some _ \<Rightarrow> None)\<rparr>)))"

definition invalidate_profile_cache :: "controller \<Rightarrow> controller" where
  "invalidate_profile_cache c =
     c\<lparr>cached_profile_signature := None, cached_profile := None,
       cached_profile_failure_signature := None\<rparr>"

section \<open>Eligibility\<close>

definition host_status :: "environ \<Rightarrow> host \<Rightarrow> CapacityProfile \<Rightarrow> bool \<times> string option" where
  "host_status env h p =
     (if get_capacity_runtime env = None \<or> get_capacity_machine_class env = None
      then (False, Some ''identity_unavailable'')
      else if Some (prof_runtime p) \<noteq> get_capacity_runtime env
      then (False, Some ''runtime_mismatch'')
      else if Some (prof_machine_class p) \<noteq> get_capacity_machine_class env
      then (False, Some ''machine_mismatch'')
      else if prof_host_memory_bytes p \<noteq> None \<and> host_memory_bytes h \<noteq> None
              \<and> prof_host_memory_bytes p \<noteq> host_memory_bytes h
      then (False, Some ''host_memory_mismatch'')
      else if prof_host_memory_bytes p \<noteq> None \<and> host_memory_bytes h = None
      then (False, Some ''host_memory_unavailable'')
      else (True, None))"

definition context_budgets ::
  "environ \<Rightarrow> host \<Rightarrow> controller \<Rightarrow> string option \<Rightarrow> ContextBudgets option \<times> controller" where
  "context_budgets env h c model_id =
     (case get_profile env h c of (profile, c') \<Rightarrow>
        (case profile of
           None \<Rightarrow> (None, c')
         | Some p \<Rightarrow>
             (case prof_context_budgets p of
                None \<Rightarrow> (None, c')
              | Some budgets \<Rightarrow>
                  (let matched =
                         (case model_id of
                            None \<Rightarrow> (case get_capacity_model_id env of
                                       None \<Rightarrow> False
                                     | Some configured \<Rightarrow>
                                         model_identity_matches (prof_model_id p) configured)
                          | Some m \<Rightarrow> model_identity_matches (prof_model_id p) m)
                   in if \<not> matched then (None, c')
                      else if fst (host_status env h p) then (Some budgets, c')
                      else (None, c')))))"

definition profile_status ::
  "environ \<Rightarrow> host \<Rightarrow> controller
   \<Rightarrow> (CapacityProfile option \<times> bool \<times> string option) \<times> controller" where
  "profile_status env h c =
     (case get_profile env h c of (profile, c') \<Rightarrow>
        (case profile of
           None \<Rightarrow> ((None, False, Some ''missing_profile''), c')
         | Some p \<Rightarrow>
             (if get_capacity_model_id env = None \<or> get_capacity_runtime env = None
                 \<or> get_capacity_machine_class env = None
              then ((Some p, False, Some ''identity_unavailable''), c')
              else if Some (prof_model_id p) \<noteq> get_capacity_model_id env
              then ((Some p, False, Some ''model_mismatch''), c')
              else case host_status env h p of (eligible, reason) \<Rightarrow>
                     if \<not> eligible then ((Some p, False, reason), c')
                     else ((Some p, True, None), c'))))"

section \<open>Mode and effective limit\<close>

definition mode :: "environ \<Rightarrow> CapacityMode" where
  "mode env = (if get_capacity_mode env = ''adaptive'' then ADAPTIVE else FIXED)"

definition operator_ceiling :: "environ \<Rightarrow> int" where
  "operator_ceiling env = max (get_max_active_requests env) 1"

definition effective_active_limit ::
  "environ \<Rightarrow> host \<Rightarrow> controller \<Rightarrow> MemoryPressureClass \<Rightarrow> int \<times> controller" where
  "effective_active_limit env h c pressure =
     (let ceiling = operator_ceiling env in
      if mode env = FIXED then (ceiling, c)
      else case profile_status env h c of ((profile, eligible, reason), c') \<Rightarrow>
        (case profile of
           None \<Rightarrow> (ceiling, c')
         | Some p \<Rightarrow>
             (if \<not> eligible then (ceiling, c')
              else
                let limit = min ceiling (prof_recommended_active_concurrency p);
                    limit' = (if get_capacity_memory_pressure_deny env
                                 \<and> pressure \<in> {P_HIGH, P_CRITICAL} \<and> limit > 1
                              then max (limit div 2) 1 else limit)
                in (max limit' 1, c'))))"

section \<open>The decision\<close>

record CapacityContext =
  ctx_active_jobs :: int
  ctx_queue_depth :: int
  ctx_max_queue_depth :: int
  ctx_runtime_ready :: bool
  ctx_memory_pressure :: MemoryPressureClass
  ctx_requested_estimated_tokens :: "int option"
  ctx_request_cost :: "RequestCost option"
  ctx_context_budgets :: "ContextBudgets option"
  ctx_lane :: "string option"
  ctx_lane_max_concurrent :: "int option"
  ctx_lane_active_jobs :: int

record CapacityEvaluation =
  ev_action :: CapacityAction
  ev_effective_active_limit :: int
  ev_operator_ceiling :: int
  ev_mode :: CapacityMode
  ev_reason :: CapacityDecisionReason
  ev_calibrated_concurrency :: "int option"
  ev_memory_pressure :: MemoryPressureClass
  ev_profile_loaded :: bool
  ev_profile_eligible :: bool
  ev_profile_rejection_reason :: "string option"
  ev_context_reason :: "ContextDecisionReason option"
  ev_context_budget :: "ContextBudget option"
  ev_context_total_tokens :: "int option"
  ev_context_breached_budget :: "ContextBudget option"
  ev_lane :: "string option"
  ev_lane_max_concurrent :: "int option"
  ev_lane_active_jobs :: int
  ev_lane_limited :: bool

text \<open>The cost the controller compares: the request's own, or one that carries only the hint.\<close>

definition context_cost :: "CapacityContext \<Rightarrow> RequestCost" where
  "context_cost ctx =
     (case ctx_request_cost ctx of
        Some cost \<Rightarrow> cost
      | None \<Rightarrow>
          \<lparr>input_tokens = 0, output_tokens = 0, multimodal_tokens = 0,
           total_tokens = (case ctx_requested_estimated_tokens ctx of None \<Rightarrow> 0 | Some n \<Rightarrow> n),
           input_is_exact = False, multimodal_is_exact = False, output_is_exact = False,
           has_unknown_cost = False, output_limit_source = SRC_DEFAULT,
           structured_prompt_tokens = 0, media_parts = 0\<rparr>)"

definition context_eval :: "CapacityContext \<Rightarrow> ContextEvaluation option" where
  "context_eval ctx =
     (case ctx_context_budgets ctx of
        None \<Rightarrow> None
      | Some b \<Rightarrow> Some (evaluate_context (context_cost ctx) (Some b)))"

text \<open>The constructor call that every branch of \<open>evaluate\<close> makes.\<close>

definition mk_evaluation ::
  "environ \<Rightarrow> CapacityContext \<Rightarrow> CapacityProfile option \<times> bool \<times> string option \<Rightarrow> int
   \<Rightarrow> CapacityAction \<Rightarrow> CapacityDecisionReason \<Rightarrow> bool \<Rightarrow> CapacityEvaluation" where
  "mk_evaluation env ctx status limit action reason lane_limited =
     (case status of (profile, eligible, rejection) \<Rightarrow>
      \<lparr>ev_action = action, ev_effective_active_limit = limit,
       ev_operator_ceiling = operator_ceiling env, ev_mode = mode env, ev_reason = reason,
       ev_calibrated_concurrency =
         (if eligible then map_option prof_recommended_active_concurrency profile else None),
       ev_memory_pressure = ctx_memory_pressure ctx,
       ev_profile_loaded = (profile \<noteq> None), ev_profile_eligible = eligible,
       ev_profile_rejection_reason = rejection,
       ev_context_reason = map_option ce_reason (context_eval ctx),
       ev_context_budget = (case context_eval ctx of None \<Rightarrow> None | Some e \<Rightarrow> ce_budget e),
       ev_context_total_tokens = map_option ce_total_tokens (context_eval ctx),
       ev_context_breached_budget =
         (case context_eval ctx of None \<Rightarrow> None | Some e \<Rightarrow> ce_breached_budget e),
       ev_lane = ctx_lane ctx, ev_lane_max_concurrent = ctx_lane_max_concurrent ctx,
       ev_lane_active_jobs = ctx_lane_active_jobs ctx, ev_lane_limited = lane_limited\<rparr>)"

definition lane_available :: "CapacityContext \<Rightarrow> bool" where
  "lane_available ctx =
     (case ctx_lane_max_concurrent ctx of
        None \<Rightarrow> True
      | Some m \<Rightarrow> ctx_lane_active_jobs ctx < max m 1)"

definition evaluate ::
  "environ \<Rightarrow> host \<Rightarrow> controller \<Rightarrow> CapacityContext \<Rightarrow> CapacityEvaluation \<times> controller" where
  "evaluate env h c ctx =
     (let (status, c1) =
            (if mode env = ADAPTIVE then profile_status env h c else ((None, False, None), c));
          calibrated =
            (case status of (profile, eligible, rejection) \<Rightarrow>
               if eligible then map_option prof_recommended_active_concurrency profile else None);
          (limit, c2) = effective_active_limit env h c1 (ctx_memory_pressure ctx);
          result = mk_evaluation env ctx status limit;
          over = (case context_eval ctx of None \<Rightarrow> False | Some e \<Rightarrow> ce_over_limit e)
      in
      if over then (result REJECT CONTEXT_OVERFLOW False, c2)
      else if \<not> ctx_runtime_ready ctx then (result REJECT RUNTIME_NOT_READY False, c2)
      else if ctx_active_jobs ctx < limit \<and> lane_available ctx then
        (if get_capacity_memory_pressure_deny env \<and> ctx_memory_pressure ctx = P_HIGH
            \<and> limit \<le> ctx_active_jobs ctx + 1
         then (result QUEUE MEMORY_PRESSURE_HIGH False, c2)
         else
           (result RUN
              (if mode env = ADAPTIVE \<and> calibrated \<noteq> None
               then (if the calibrated < operator_ceiling env then CALIBRATED_LIMIT
                     else OPERATOR_CEILING)
               else BELOW_OPERATOR_CEILING) False, c2))
      else
        let queue_has_room = ctx_queue_depth ctx < ctx_max_queue_depth ctx in
        if \<not> lane_available ctx
        then (result (if queue_has_room then QUEUE else REJECT) LANE_CAPACITY True, c2)
        else if \<not> queue_has_room then (result REJECT QUEUE_FULL False, c2)
        else
          (result QUEUE
             (if mode env = ADAPTIVE \<and> calibrated \<noteq> None then CALIBRATED_LIMIT
              else OPERATOR_CEILING) False, c2))"

section \<open>Lemmas: the loader\<close>

text \<open>A second call sees the same profile and leaves the cache alone.\<close>

lemma profile_path_update [simp]:
  "profile_path env (c\<lparr>cached_profile_signature := s, cached_profile := q,
     cached_profile_failure_signature := f\<rparr>) = profile_path env c"
  by (simp add: profile_path_def)

lemma profile_path_get_profile [simp]:
  "profile_path env (snd (get_profile env h c)) = profile_path env c"
  by (cases "profile_path env c") (simp_all add: get_profile_def Let_def)

lemma get_profile_stable:
  "get_profile env h (snd (get_profile env h c)) = get_profile env h c"
proof (cases "snd (get_profile env h c) = c")
  case True
  then show ?thesis by simp
next
  case False
  then obtain path where path: "profile_path env c = Some path"
    by (auto simp: get_profile_def split: option.splits)
  let ?c = "c\<lparr>cached_profile_signature := Some (path, getmtime h path),
     cached_profile := safe_load_profile h path,
     cached_profile_failure_signature :=
       (case safe_load_profile h path of None \<Rightarrow> Some (path, getmtime h path) | Some _ \<Rightarrow> None)\<rparr>"
  have "get_profile env h c = (safe_load_profile h path, ?c)"
    using False path by (simp add: get_profile_def Let_def split: if_splits)
  moreover have "get_profile env h ?c = (safe_load_profile h path, ?c)"
    using path by (cases "safe_load_profile h path") (simp_all add: get_profile_def Let_def)
  ultimately show ?thesis by (simp only: snd_conv)
qed

lemma profile_status_snd: "snd (profile_status env h c) = snd (get_profile env h c)"
  by (auto simp: profile_status_def split: prod.splits option.splits)

lemma profile_status_stable:
  "profile_status env h (snd (profile_status env h c)) = profile_status env h c"
  by (simp only: profile_status_snd) (simp only: profile_status_def get_profile_stable)

text \<open>A file's content is a function \<open>F\<close> of its path and modification time; the cache holds what
  \<open>F\<close> says for the signatures it remembers.\<close>

definition host_obeys :: "(signature \<Rightarrow> CapacityProfile option) \<Rightarrow> host \<Rightarrow> bool" where
  "host_obeys F h \<longleftrightarrow> (\<forall>p. safe_load_profile h p = F (p, getmtime h p))"

definition cache_coherent :: "(signature \<Rightarrow> CapacityProfile option) \<Rightarrow> controller \<Rightarrow> bool" where
  "cache_coherent F c \<longleftrightarrow>
     (\<forall>s. cached_profile_signature c = Some s \<longrightarrow> cached_profile c = F s)
   \<and> (\<forall>s. cached_profile_failure_signature c = Some s \<longrightarrow> F s = None)"

lemma cache_coherent_new [simp]: "cache_coherent F new_controller"
  by (simp add: cache_coherent_def new_controller_def)

lemma cache_coherent_invalidate [inv_intros]: "cache_coherent F (invalidate_profile_cache c)"
  by (simp add: cache_coherent_def invalidate_profile_cache_def)

lemma get_profile_coherent:
  assumes "host_obeys F h" and "cache_coherent F c"
  shows "fst (get_profile env h c) =
           (case profile_path env c of None \<Rightarrow> None | Some p \<Rightarrow> F (p, getmtime h p))"
    and "cache_coherent F (snd (get_profile env h c))"
  using assms
  by (auto simp: get_profile_def Let_def host_obeys_def cache_coherent_def split: option.splits)

text \<open>The cached loader over a history of host states, beside the loader that always reads.\<close>

fun load_history :: "environ \<Rightarrow> host list \<Rightarrow> controller \<Rightarrow> CapacityProfile option list" where
  "load_history env [] c = []"
| "load_history env (h # hs) c =
     (case get_profile env h c of (p, c') \<Rightarrow> p # load_history env hs c')"

definition load_uncached :: "environ \<Rightarrow> controller \<Rightarrow> host \<Rightarrow> CapacityProfile option" where
  "load_uncached env c h =
     (case profile_path env c of None \<Rightarrow> None | Some p \<Rightarrow> safe_load_profile h p)"

lemma load_history_coherent:
  "list_all (host_obeys F) hs \<Longrightarrow> cache_coherent F c \<Longrightarrow>
     load_history env hs c = map (load_uncached env c) hs"
proof (induction hs arbitrary: c)
  case Nil
  then show ?case by simp
next
  case (Cons h hs)
  have h: "host_obeys F h" using Cons.prems(1) by simp
  let ?c = "snd (get_profile env h c)"
  have "load_history env hs ?c = map (load_uncached env ?c) hs"
    using Cons.IH[of ?c] Cons.prems get_profile_coherent(2)[OF h Cons.prems(2)] by simp
  moreover have "load_uncached env ?c = load_uncached env c"
    by (simp add: load_uncached_def fun_eq_iff)
  moreover have "fst (get_profile env h c) = load_uncached env c h"
    using get_profile_coherent(1)[OF h Cons.prems(2)] h
    by (simp add: load_uncached_def host_obeys_def split: option.splits)
  ultimately show ?case by (simp add: case_prod_unfold)
qed

section \<open>Lemmas: limit and decision\<close>

lemma operator_ceiling_pos [simp]: "1 \<le> operator_ceiling env"
  by (simp add: operator_ceiling_def)

lemma effective_active_limit_bounds:
  "1 \<le> fst (effective_active_limit env h c p)"
  "fst (effective_active_limit env h c p) \<le> operator_ceiling env"
proof -
  have half: "(n::int) div 2 \<le> n" if "1 < n" for n using that by simp
  show "1 \<le> fst (effective_active_limit env h c p)"
    by (auto simp: effective_active_limit_def Let_def split: prod.splits option.splits)
  show "fst (effective_active_limit env h c p) \<le> operator_ceiling env"
    using half[of "min (operator_ceiling env) _"] operator_ceiling_pos[of env]
    by (fastforce simp: effective_active_limit_def Let_def split: prod.splits option.splits)
qed

lemma effective_active_limit_fixed: "mode env = FIXED \<Longrightarrow> effective_active_limit env h c p = (operator_ceiling env, c)"
  by (simp add: effective_active_limit_def)

lemma effective_active_limit_stable:
  "fst (effective_active_limit env h (snd (profile_status env h c)) p) =
     fst (effective_active_limit env h c p)"
  by (simp add: effective_active_limit_def Let_def profile_status_stable split: prod.splits option.splits)

definition context_over :: "CapacityContext \<Rightarrow> bool" where
  "context_over ctx = (case context_eval ctx of None \<Rightarrow> False | Some e \<Rightarrow> ce_over_limit e)"

definition memory_denied :: "environ \<Rightarrow> CapacityContext \<Rightarrow> int \<Rightarrow> bool" where
  "memory_denied env ctx limit =
     (get_capacity_memory_pressure_deny env \<and> ctx_memory_pressure ctx = P_HIGH
      \<and> limit \<le> ctx_active_jobs ctx + 1)"

text \<open>The abstract decision: what the verdict and its reason are as a function of the limit and
  the request, with the cache and the bookkeeping fields left out.\<close>

definition decide :: "environ \<Rightarrow> CapacityContext \<Rightarrow> int \<Rightarrow> CapacityAction" where
  "decide env ctx limit =
     (if context_over ctx \<or> \<not> ctx_runtime_ready ctx then REJECT
      else if ctx_active_jobs ctx < limit \<and> lane_available ctx
      then (if memory_denied env ctx limit then QUEUE else RUN)
      else if ctx_queue_depth ctx < ctx_max_queue_depth ctx then QUEUE else REJECT)"

lemma mk_evaluation_sel [simp]:
  "ev_action (mk_evaluation env ctx st l a r b) = a"
  "ev_reason (mk_evaluation env ctx st l a r b) = r"
  "ev_effective_active_limit (mk_evaluation env ctx st l a r b) = l"
  "ev_lane_limited (mk_evaluation env ctx st l a r b) = b"
  "ev_mode (mk_evaluation env ctx st l a r b) = mode env"
  by (simp_all add: mk_evaluation_def split: prod.split)

text \<open>Every verdict, with the profile status and the limit named.\<close>

lemma evaluate_cases:
  obtains st c1 c2 reason b where
    "effective_active_limit env h c1 (ctx_memory_pressure ctx) =
       (fst (effective_active_limit env h c (ctx_memory_pressure ctx)), c2)"
    "evaluate env h c ctx =
       (mk_evaluation env ctx st (fst (effective_active_limit env h c (ctx_memory_pressure ctx)))
          (decide env ctx (fst (effective_active_limit env h c (ctx_memory_pressure ctx)))) reason b, c2)"
proof -
  obtain st c1 where a:
    "(if mode env = ADAPTIVE then profile_status env h c else ((None, False, None), c)) = (st, c1)"
    by fastforce
  let ?l = "fst (effective_active_limit env h c (ctx_memory_pressure ctx))"
  have "fst (effective_active_limit env h c1 (ctx_memory_pressure ctx)) = ?l"
  proof (cases "mode env")
    case FIXED
    then show ?thesis using a by (simp add: effective_active_limit_fixed)
  next
    case ADAPTIVE
    then have "c1 = snd (profile_status env h c)" using a by simp
    then show ?thesis by (simp add: effective_active_limit_stable)
  qed
  then obtain c2 where b: "effective_active_limit env h c1 (ctx_memory_pressure ctx) = (?l, c2)"
    by (cases "effective_active_limit env h c1 (ctx_memory_pressure ctx)") simp
  have "\<exists>reason b. evaluate env h c ctx = (mk_evaluation env ctx st ?l (decide env ctx ?l) reason b, c2)"
    unfolding evaluate_def a b Let_def prod.case decide_def context_over_def[symmetric]
      memory_denied_def[symmetric]
    by (cases "context_over ctx"; cases "ctx_runtime_ready ctx"; cases "ctx_active_jobs ctx < ?l";
        cases "lane_available ctx"; cases "memory_denied env ctx ?l";
        cases "ctx_queue_depth ctx < ctx_max_queue_depth ctx"; simp split del: if_split; blast)
  then show ?thesis using that b by blast
qed

lemma evaluate_limit:
  "ev_effective_active_limit (fst (evaluate env h c ctx)) =
     fst (effective_active_limit env h c (ctx_memory_pressure ctx))"
  by (rule evaluate_cases[of env h ctx c]) simp

lemma evaluate_action:
  "ev_action (fst (evaluate env h c ctx)) =
     decide env ctx (fst (effective_active_limit env h c (ctx_memory_pressure ctx)))"
  by (rule evaluate_cases[of env h ctx c]) simp

text \<open>Which verdicts carry the two reasons that only one branch produces.\<close>

lemma evaluate_overflow:
  "(ev_action (fst (evaluate env h c ctx)) = REJECT \<and> ev_reason (fst (evaluate env h c ctx)) = CONTEXT_OVERFLOW)
     = context_over ctx"
proof (cases "context_over ctx")
  case True
  then show ?thesis
    by (simp add: evaluate_def context_over_def[symmetric] Let_def split: prod.split)
next
  case False
  then have "ev_reason (fst (evaluate env h c ctx)) \<noteq> CONTEXT_OVERFLOW"
    unfolding evaluate_def Let_def context_over_def[symmetric] by (simp add: mk_evaluation_def case_prod_beta')
  then show ?thesis using False by simp
qed

lemma evaluate_reason_not_ready:
  assumes "ctx_runtime_ready ctx"
  shows "ev_reason (fst (evaluate env h c ctx)) \<noteq> RUNTIME_NOT_READY"
  using assms unfolding evaluate_def Let_def by (simp split: prod.split)

lemma evaluate_reason_not_high:
  assumes "ctx_memory_pressure ctx \<noteq> P_HIGH"
  shows "ev_reason (fst (evaluate env h c ctx)) \<noteq> MEMORY_PRESSURE_HIGH"
  using assms unfolding evaluate_def Let_def by (simp split: prod.split)

lemma decide_RUN:
  "(decide env ctx l = RUN) =
     (\<not> context_over ctx \<and> ctx_runtime_ready ctx \<and> ctx_active_jobs ctx < l \<and> lane_available ctx
      \<and> \<not> memory_denied env ctx l)"
  by (auto simp: decide_def)

lemma decide_REJECT:
  "(decide env ctx l \<noteq> REJECT) =
     (\<not> context_over ctx \<and> ctx_runtime_ready ctx
      \<and> (ctx_active_jobs ctx < l \<and> lane_available ctx
         \<or> ctx_queue_depth ctx < ctx_max_queue_depth ctx))"
  by (auto simp: decide_def)

lemma effective_active_limit_adaptive:
  "mode env = ADAPTIVE \<or> fst (effective_active_limit env h c p) = operator_ceiling env"
  by (cases "mode env") (simp_all add: effective_active_limit_fixed)

section \<open>Properties\<close>

text \<open>
  C6. The decision of \<open>evaluate\<close> refines the abstract \<open>decide\<close> at a limit that never leaves the
  range from 1 to the operator's ceiling and equals the ceiling in fixed mode. A request is told
  to run only on a ready runtime, within its context budget, strictly below the limit and with
  room in its lane; it is rejected only when it is over budget, the runtime is not ready, or no
  slot is available and the queue is full.
\<close>

theorem evaluate_refines_decide:
  "let e = fst (evaluate env h c ctx); l = ev_effective_active_limit e in
     ev_action e = decide env ctx l \<and> 1 \<le> l \<and> l \<le> operator_ceiling env
   \<and> (mode env = ADAPTIVE \<or> l = operator_ceiling env)
   \<and> (ev_action e = RUN) =
       (\<not> context_over ctx \<and> ctx_runtime_ready ctx \<and> ctx_active_jobs ctx < l \<and> lane_available ctx
        \<and> \<not> memory_denied env ctx l)
   \<and> (ev_action e \<noteq> REJECT) =
       (\<not> context_over ctx \<and> ctx_runtime_ready ctx
        \<and> (ctx_active_jobs ctx < l \<and> lane_available ctx
           \<or> ctx_queue_depth ctx < ctx_max_queue_depth ctx))"
  unfolding Let_def evaluate_limit evaluate_action decide_RUN decide_REJECT
  by (simp add: effective_active_limit_bounds effective_active_limit_adaptive)

text \<open>
  C39. The cached profile loader is the uncached one: over any history of host states in which a
  file's parsed content is a function \<open>F\<close> of its path and modification time, a freshly built
  controller returns at every step what reading the file at that step would return.
\<close>

theorem profile_cache_transparent:
  "list_all (host_obeys F) hs \<Longrightarrow>
     load_history env hs new_controller = map (load_uncached env new_controller) hs"
  by (simp add: load_history_coherent)

definition demo_profile :: CapacityProfile where
  "demo_profile =
     \<lparr>prof_model_id = ''org/m'', prof_runtime = ''mlx_lm'', prof_machine_class = ''m4'',
      prof_host_memory_bytes = None, prof_recommended_active_concurrency = 2,
      prof_context_budgets = None\<rparr>"

definition demo_host :: "real \<Rightarrow> CapacityProfile option \<Rightarrow> host" where
  "demo_host t p =
     \<lparr>path_exists = (\<lambda>_. True), getmtime = (\<lambda>_. Some t), parse_profile = (\<lambda>_. p),
      host_memory_bytes = None\<rparr>"

definition demo_env :: environ where
  "demo_env = [''WHOOSHD_CAPACITY_PROFILE_PATH'' \<mapsto> ''p.json'']"

theorem profile_cache_transparent_witness:
  "load_history demo_env [demo_host 1 None, demo_host 2 (Some demo_profile), demo_host 2 (Some demo_profile)]
     new_controller = [None, Some demo_profile, Some demo_profile]"
proof -
  define F :: "signature \<Rightarrow> CapacityProfile option" where
    "F s = (if fst s = [] then None else if snd s = Some 2 then Some demo_profile else None)" for s
  have "list_all (host_obeys F) [demo_host 1 None, demo_host 2 (Some demo_profile), demo_host 2 (Some demo_profile)]"
    by (auto simp: host_obeys_def safe_load_profile_def demo_host_def F_def)
  from profile_cache_transparent[OF this, of demo_env] show ?thesis
    by (simp add: load_uncached_def profile_path_def new_controller_def get_capacity_profile_path_def
        demo_env_def env_str_def nonempty_def safe_load_profile_def demo_host_def)
qed

text \<open>
  Matching model identities is a partial equivalence: symmetric and transitive, so a profile
  and two aliases of its model never disagree; and it never conflates a name that carries a
  repository namespace with one that carries none.
\<close>

lemma model_identity_partial_equivalence:
  "model_identity_matches a b = model_identity_matches b a
   \<and> (model_identity_matches a b \<and> model_identity_matches b c \<longrightarrow> model_identity_matches a c)
   \<and> (model_identity_matches a b \<longrightarrow>
        str_true (fst (canonical_model_identity a)) = str_true (fst (canonical_model_identity b)))"
  by (auto simp: model_identity_matches_def split: prod.splits if_splits)

theorem model_identity_partial_equivalence_witness:
  "model_identity_matches ''Org/M'' ''/c/models--org--m/snapshots/ab12''
   \<and> \<not> model_identity_matches ''Org/M'' ''m''"
proof -
  have "model_identity_matches ''/c/models--org--m/snapshots/ab12'' ''Org/M''" by code_simp
  then have "model_identity_matches ''Org/M'' ''/c/models--org--m/snapshots/ab12''"
    using model_identity_partial_equivalence[of "''Org/M''" "''/c/models--org--m/snapshots/ab12''" "[]"] by blast
  moreover have "\<not> model_identity_matches ''Org/M'' ''m''" by code_simp
  ultimately show ?thesis by blast
qed

end
