(* ===== verification/Runtime_State.thy ===== *)
theory Runtime_State
  imports Contracts Correlation
begin

text \<open>
  \<open>whooshd/runtime/__init__.py\<close>, class \<open>RuntimeState\<close>: the request records, the capacity
  reservations, the counters, and the derived quantities (\<open>active_jobs\<close>, the per-lane count,
  \<open>queue_depth\<close>) that admission and the queue decide on. Every method that changes state is a
  function from the state to the state; \<open>time.time()\<close> and the random part of a request
  identifier are arguments.

  The invariant \<open>runtime_ok\<close> says that both dictionaries have distinct keys and that a record
  is stored under its own identifier; \<open>reserved_queued\<close> that a reservation belongs to a
  request that is still queued.
\<close>

section \<open>State\<close>

record RequestRecord =
  rec_request_id :: string
  rec_model :: string
  rec_stream :: bool
  rec_upstream_request_id :: "string option"
  rec_lane :: "string option"
  rec_status :: RequestLifecycleState
  rec_cancel_requested :: bool
  rec_cancel_token :: "CancellationToken option"
  rec_started_at :: real
  rec_ended_at :: "real option"
  rec_error_code :: "string option"

record RuntimeState =
  model_lifecycle :: ModelLifecycleState
  last_load_started_at :: "real option"
  last_load_completed_at :: "real option"
  last_unloaded_at :: "real option"
  last_error_code :: "string option"
  last_error_message :: "string option"
  total_requests_accepted :: int
  total_requests_rejected :: int
  total_rejected_overloaded :: int
  total_rejected_prompt_too_large :: int
  total_rejected_too_many_messages :: int
  total_rejected_max_tokens :: int
  total_rejected_model_not_ready :: int
  total_requests_cancel_requested :: int
  total_requests_cancelled :: int
  total_stream_disconnects :: int
  total_queued :: int
  total_dequeued :: int
  total_queue_rejected :: int
  total_queue_timeout :: int
  total_queue_cancelled :: int
  rt_memory_pressure :: MemoryPressure
  rt_requests :: "(string, RequestRecord) dict"
  reservations :: "(string, string option) dict"

definition new_runtime :: RuntimeState where
  "new_runtime =
     \<lparr>model_lifecycle = ML_UNLOADED, last_load_started_at = None, last_load_completed_at = None,
      last_unloaded_at = None, last_error_code = None, last_error_message = None,
      total_requests_accepted = 0, total_requests_rejected = 0, total_rejected_overloaded = 0,
      total_rejected_prompt_too_large = 0, total_rejected_too_many_messages = 0,
      total_rejected_max_tokens = 0, total_rejected_model_not_ready = 0,
      total_requests_cancel_requested = 0, total_requests_cancelled = 0,
      total_stream_disconnects = 0, total_queued = 0, total_dequeued = 0,
      total_queue_rejected = 0, total_queue_timeout = 0, total_queue_cancelled = 0,
      rt_memory_pressure = MP_NORMAL, rt_requests = [], reservations = []\<rparr>"

definition slot_status :: "RequestLifecycleState \<Rightarrow> bool" where
  "slot_status s = (s \<in> {ACCEPTED, RUNNING, STREAMING})"

definition terminal_status :: "RequestLifecycleState \<Rightarrow> bool" where
  "terminal_status s = (s \<in> {COMPLETED, CANCELLED, FAILED, TIMED_OUT})"

section \<open>Computed properties and reservations\<close>

definition active_jobs :: "RuntimeState \<Rightarrow> nat" where
  "active_jobs rt =
     dcount (\<lambda>r. slot_status (rec_status r)) (rt_requests rt) + length (reservations rt)"

definition reserved_slots :: "RuntimeState \<Rightarrow> nat" where
  "reserved_slots rt = length (reservations rt)"

definition reserve_capacity ::
  "string \<Rightarrow> string option \<Rightarrow> RuntimeState \<Rightarrow> bool \<times> RuntimeState" where
  "reserve_capacity rid lane rt =
     (if rid \<in> set (dkeys (reservations rt)) then (False, rt)
      else (True, rt\<lparr>reservations := dset rid lane (reservations rt)\<rparr>))"

definition release_capacity :: "string \<Rightarrow> RuntimeState \<Rightarrow> RuntimeState" where
  "release_capacity rid rt = rt\<lparr>reservations := dpop rid (reservations rt)\<rparr>"

definition active_jobs_for_lane :: "RuntimeState \<Rightarrow> string option \<Rightarrow> nat" where
  "active_jobs_for_lane rt lane =
     (if \<not> str_true lane then 0
      else dcount (\<lambda>r. rec_lane r = lane \<and> slot_status (rec_status r)) (rt_requests rt)
         + dcount (\<lambda>l. l = lane) (reservations rt))"

definition waiting_record :: "RuntimeState \<Rightarrow> RequestRecord \<Rightarrow> bool" where
  "waiting_record rt r =
     (rec_status r = QUEUED \<and> rec_request_id r \<notin> set (dkeys (reservations rt)))"

definition queue_depth :: "RuntimeState \<Rightarrow> nat" where
  "queue_depth rt = dcount (waiting_record rt) (rt_requests rt)"

text \<open>The loop of \<open>oldest_queued_age_ms\<close>: the largest age seen so far, in milliseconds at the end.\<close>

fun oldest_age :: "RuntimeState \<Rightarrow> real \<Rightarrow> RequestRecord list \<Rightarrow> real option \<Rightarrow> real option" where
  "oldest_age rt now [] oldest = oldest"
| "oldest_age rt now (r # rs) oldest =
     oldest_age rt now rs
       (if waiting_record rt r \<and> (oldest = None \<or> now - rec_started_at r > the oldest)
        then Some (now - rec_started_at r) else oldest)"

definition oldest_queued_age_ms :: "real \<Rightarrow> RuntimeState \<Rightarrow> real" where
  "oldest_queued_age_ms now rt =
     (case oldest_age rt now (dvals (rt_requests rt)) None of
        None \<Rightarrow> 0 | Some a \<Rightarrow> a * 1000)"

section \<open>Lifecycle operations\<close>

text \<open>\<open>rec = self._requests.get(request_id); if rec: ...\<close>: an update of the stored record.\<close>

definition with_record ::
  "string \<Rightarrow> (RequestRecord \<Rightarrow> RequestRecord) \<Rightarrow> RuntimeState \<Rightarrow> RuntimeState" where
  "with_record rid f rt =
     (case dget (rt_requests rt) rid of
        None \<Rightarrow> rt
      | Some r \<Rightarrow> rt\<lparr>rt_requests := dset rid (f r) (rt_requests rt)\<rparr>)"

definition mark_queued :: "string \<Rightarrow> RuntimeState \<Rightarrow> RuntimeState" where
  "mark_queued rid rt =
     (case dget (rt_requests rt) rid of
        None \<Rightarrow> rt
      | Some r \<Rightarrow>
          (with_record rid (rec_status_update (\<lambda>_. QUEUED)) rt)
            \<lparr>total_queued := total_queued rt + 1\<rparr>)"

definition mark_dequeued :: "string \<Rightarrow> RuntimeState \<Rightarrow> RuntimeState" where
  "mark_dequeued rid rt = rt\<lparr>total_dequeued := total_dequeued rt + 1\<rparr>"

definition mark_timed_out :: "real \<Rightarrow> string \<Rightarrow> RuntimeState \<Rightarrow> RuntimeState" where
  "mark_timed_out now rid rt =
     release_capacity rid
       (case dget (rt_requests rt) rid of
          None \<Rightarrow> rt
        | Some r \<Rightarrow>
            (with_record rid (\<lambda>r. r\<lparr>rec_status := TIMED_OUT, rec_ended_at := Some now\<rparr>) rt)
              \<lparr>total_queue_timeout := total_queue_timeout rt + 1\<rparr>)"

definition record_queue_rejected :: "RuntimeState \<Rightarrow> RuntimeState" where
  "record_queue_rejected rt = rt\<lparr>total_queue_rejected := total_queue_rejected rt + 1\<rparr>"

definition record_queue_cancelled :: "RuntimeState \<Rightarrow> RuntimeState" where
  "record_queue_cancelled rt = rt\<lparr>total_queue_cancelled := total_queue_cancelled rt + 1\<rparr>"

definition begin_warmup :: "real \<Rightarrow> RuntimeState \<Rightarrow> RuntimeState" where
  "begin_warmup now rt =
     rt\<lparr>model_lifecycle := ML_WARMING, last_load_started_at := Some now\<rparr>"

definition complete_warmup :: "real \<Rightarrow> RuntimeState \<Rightarrow> RuntimeState" where
  "complete_warmup now rt =
     rt\<lparr>model_lifecycle := ML_READY, last_load_completed_at := Some now,
        last_error_code := None, last_error_message := None\<rparr>"

definition fail_warmup :: "string option \<Rightarrow> string option \<Rightarrow> RuntimeState \<Rightarrow> RuntimeState" where
  "fail_warmup code msg rt =
     rt\<lparr>model_lifecycle := ML_FAILED, last_error_code := code, last_error_message := msg\<rparr>"

definition complete_unload :: "real \<Rightarrow> RuntimeState \<Rightarrow> RuntimeState" where
  "complete_unload now rt =
     rt\<lparr>model_lifecycle := ML_UNLOADED, last_unloaded_at := Some now\<rparr>"

definition record_accepted :: "RuntimeState \<Rightarrow> RuntimeState" where
  "record_accepted rt = rt\<lparr>total_requests_accepted := total_requests_accepted rt + 1\<rparr>"

definition record_rejected :: "string \<Rightarrow> RuntimeState \<Rightarrow> RuntimeState" where
  "record_rejected reason rt =
     (let rt = rt\<lparr>total_requests_rejected := total_requests_rejected rt + 1\<rparr> in
      if reason = ''rejected_overloaded''
      then rt\<lparr>total_rejected_overloaded := total_rejected_overloaded rt + 1\<rparr>
      else if reason = ''rejected_prompt_too_large''
      then rt\<lparr>total_rejected_prompt_too_large := total_rejected_prompt_too_large rt + 1\<rparr>
      else if reason = ''rejected_too_many_messages''
      then rt\<lparr>total_rejected_too_many_messages := total_rejected_too_many_messages rt + 1\<rparr>
      else if reason = ''rejected_max_tokens_too_high''
      then rt\<lparr>total_rejected_max_tokens := total_rejected_max_tokens rt + 1\<rparr>
      else if reason = ''rejected_model_not_ready''
      then rt\<lparr>total_rejected_model_not_ready := total_rejected_model_not_ready rt + 1\<rparr>
      else rt)"

definition begin_request ::
  "real \<Rightarrow> string \<Rightarrow> string \<Rightarrow> bool \<Rightarrow> string option \<Rightarrow> string option \<Rightarrow> RuntimeState
   \<Rightarrow> string \<times> RuntimeState" where
  "begin_request now hex model stream upstream lane rt =
     (let rid = generate_whoosh_request_id hex in
      (rid,
       rt\<lparr>rt_requests :=
            dset rid
              \<lparr>rec_request_id = rid, rec_model = model, rec_stream = stream,
               rec_upstream_request_id = normalize_identifier (opt_str upstream),
               rec_lane = lane, rec_status = ACCEPTED, rec_cancel_requested = False,
               rec_cancel_token = Some (new_token rid), rec_started_at = now,
               rec_ended_at = None, rec_error_code = None\<rparr>
              (rt_requests rt)\<rparr>))"

definition get_cancellation_token :: "RuntimeState \<Rightarrow> string \<Rightarrow> CancellationToken option" where
  "get_cancellation_token rt rid =
     (case dget (rt_requests rt) rid of None \<Rightarrow> None | Some r \<Rightarrow> rec_cancel_token r)"

definition request_cancellation :: "string \<Rightarrow> RuntimeState \<Rightarrow> bool \<times> RuntimeState" where
  "request_cancellation rid rt =
     (case dget (rt_requests rt) rid of
        None \<Rightarrow> (False, rt)
      | Some r \<Rightarrow>
          (if terminal_status (rec_status r) then (False, rt)
           else
             (True,
              (with_record rid
                 (\<lambda>r. r\<lparr>rec_cancel_requested := True,
                        rec_cancel_token := map_option token_cancel (rec_cancel_token r)\<rparr>) rt)
                \<lparr>total_requests_cancel_requested := total_requests_cancel_requested rt + 1\<rparr>)))"

text \<open>\<open>mark_running\<close> and \<open>mark_streaming\<close> differ in the state they set.\<close>

definition mark_started ::
  "RequestLifecycleState \<Rightarrow> string \<Rightarrow> RuntimeState \<Rightarrow> RuntimeState" where
  "mark_started st rid rt =
     (case dget (rt_requests rt) rid of
        None \<Rightarrow> rt
      | Some r \<Rightarrow>
          (if rec_status r \<in> {ACCEPTED, QUEUED}
           then release_capacity rid (with_record rid (rec_status_update (\<lambda>_. st)) rt)
           else rt))"

definition mark_running :: "string \<Rightarrow> RuntimeState \<Rightarrow> RuntimeState" where
  "mark_running rid rt = mark_started RUNNING rid rt"

definition mark_streaming :: "string \<Rightarrow> RuntimeState \<Rightarrow> RuntimeState" where
  "mark_streaming rid rt = mark_started STREAMING rid rt"

definition complete_request :: "real \<Rightarrow> string \<Rightarrow> RuntimeState \<Rightarrow> RuntimeState" where
  "complete_request now rid rt =
     release_capacity rid
       (with_record rid
          (\<lambda>r. if rec_status r \<in> {CANCELLED, FAILED, TIMED_OUT} then r
               else r\<lparr>rec_status := COMPLETED, rec_ended_at := Some now\<rparr>) rt)"

definition cancel_request :: "real \<Rightarrow> string \<Rightarrow> RuntimeState \<Rightarrow> RuntimeState" where
  "cancel_request now rid rt =
     release_capacity rid
       (case dget (rt_requests rt) rid of
          None \<Rightarrow> rt
        | Some r \<Rightarrow>
            (with_record rid (\<lambda>r. r\<lparr>rec_status := CANCELLED, rec_ended_at := Some now\<rparr>) rt)
              \<lparr>total_requests_cancelled := total_requests_cancelled rt + 1\<rparr>)"

definition record_stream_disconnect :: "string \<Rightarrow> RuntimeState \<Rightarrow> RuntimeState" where
  "record_stream_disconnect rid rt =
     rt\<lparr>total_stream_disconnects := total_stream_disconnects rt + 1\<rparr>"

definition fail_request :: "real \<Rightarrow> string \<Rightarrow> string option \<Rightarrow> RuntimeState \<Rightarrow> RuntimeState" where
  "fail_request now rid code rt =
     release_capacity rid
       (with_record rid
          (\<lambda>r. r\<lparr>rec_status := FAILED, rec_ended_at := Some now, rec_error_code := code\<rparr>) rt)"

section \<open>Snapshots\<close>

record RequestSnapshot =
  snap_request_id :: string
  snap_upstream_request_id :: "string option"
  snap_model :: string
  snap_stream :: bool
  snap_status :: RequestLifecycleState
  snap_cancel_requested :: bool
  snap_started_at :: real
  snap_ended_at :: "real option"
  snap_error_code :: "string option"

definition snapshot_of :: "RequestRecord \<Rightarrow> RequestSnapshot" where
  "snapshot_of r =
     \<lparr>snap_request_id = rec_request_id r, snap_upstream_request_id = rec_upstream_request_id r,
      snap_model = rec_model r, snap_stream = rec_stream r, snap_status = rec_status r,
      snap_cancel_requested = rec_cancel_requested r, snap_started_at = rec_started_at r,
      snap_ended_at = rec_ended_at r, snap_error_code = rec_error_code r\<rparr>"

definition get_request_snapshot :: "RuntimeState \<Rightarrow> string \<Rightarrow> RequestSnapshot option" where
  "get_request_snapshot rt rid = map_option snapshot_of (dget (rt_requests rt) rid)"

definition get_active_requests :: "RuntimeState \<Rightarrow> RequestSnapshot list" where
  "get_active_requests rt =
     map snapshot_of
       (filter (\<lambda>r. rec_status r \<in> {ACCEPTED, QUEUED, RUNNING, STREAMING}) (dvals (rt_requests rt)))"

definition get_all_requests :: "RuntimeState \<Rightarrow> RequestSnapshot list" where
  "get_all_requests rt = map snapshot_of (dvals (rt_requests rt))"

definition build_request_list :: "RuntimeState \<Rightarrow> RequestSnapshot list \<times> nat" where
  "build_request_list rt = (get_all_requests rt, active_jobs rt)"

section \<open>Invariant\<close>

definition runtime_ok :: "RuntimeState \<Rightarrow> bool" where
  "runtime_ok rt \<longleftrightarrow>
     dict_ok (rt_requests rt) \<and> dict_ok (reservations rt)
   \<and> (\<forall>k r. dget (rt_requests rt) k = Some r \<longrightarrow> rec_request_id r = k)
   \<and> (\<forall>k l. dget (reservations rt) k = Some l \<longrightarrow>
        (\<exists>r. dget (rt_requests rt) k = Some r \<and> rec_lane r = l))"

definition reserved_queued :: "RuntimeState \<Rightarrow> bool" where
  "reserved_queued rt \<longleftrightarrow>
     (\<forall>k \<in> set (dkeys (reservations rt)).
        \<exists>r. dget (rt_requests rt) k = Some r \<and> rec_status r = QUEUED)"

section \<open>What each operation does to the two dictionaries\<close>

named_theorems rt_views \<open>the request and reservation dictionaries after an operation\<close>

definition upd_req ::
  "string \<Rightarrow> (RequestRecord \<Rightarrow> RequestRecord) \<Rightarrow> (string, RequestRecord) dict
   \<Rightarrow> (string, RequestRecord) dict" where
  "upd_req k f d = (case dget d k of None \<Rightarrow> d | Some r \<Rightarrow> dset k (f r) d)"

lemma with_record_views [rt_views]:
  "rt_requests (with_record k f rt) = upd_req k f (rt_requests rt)"
  "reservations (with_record k f rt) = reservations rt"
  by (auto simp: with_record_def upd_req_def split: option.splits)

lemma release_capacity_views [rt_views]:
  "rt_requests (release_capacity k rt) = rt_requests rt"
  "reservations (release_capacity k rt) = dpop k (reservations rt)"
  by (simp_all add: release_capacity_def)

lemma upd_req_None: "dget d k = None \<Longrightarrow> upd_req k f d = d"
  by (simp add: upd_req_def)

lemma upd_req_cong: "(\<And>r. dget d k = Some r \<Longrightarrow> f r = g r) \<Longrightarrow> upd_req k f d = upd_req k g d"
  by (simp add: upd_req_def split: option.split)

lemma upd_req_id: "upd_req k (\<lambda>r. r) d = d"
  by (simp add: upd_req_def update_triv split: option.split)

lemma mark_queued_views [rt_views]:
  "rt_requests (mark_queued k rt) = upd_req k (rec_status_update (\<lambda>_. QUEUED)) (rt_requests rt)"
  "reservations (mark_queued k rt) = reservations rt"
  by (auto simp: mark_queued_def rt_views upd_req_None split: option.split)

lemma mark_timed_out_views [rt_views]:
  "rt_requests (mark_timed_out t k rt) =
     upd_req k (\<lambda>r. r\<lparr>rec_status := TIMED_OUT, rec_ended_at := Some t\<rparr>) (rt_requests rt)"
  "reservations (mark_timed_out t k rt) = dpop k (reservations rt)"
  by (auto simp: mark_timed_out_def rt_views upd_req_None split: option.split)

lemma cancel_request_views [rt_views]:
  "rt_requests (cancel_request t k rt) =
     upd_req k (\<lambda>r. r\<lparr>rec_status := CANCELLED, rec_ended_at := Some t\<rparr>) (rt_requests rt)"
  "reservations (cancel_request t k rt) = dpop k (reservations rt)"
  by (auto simp: cancel_request_def rt_views upd_req_None split: option.split)

lemma complete_request_views [rt_views]:
  "rt_requests (complete_request t k rt) =
     upd_req k (\<lambda>r. if rec_status r \<in> {CANCELLED, FAILED, TIMED_OUT} then r
                    else r\<lparr>rec_status := COMPLETED, rec_ended_at := Some t\<rparr>) (rt_requests rt)"
  "reservations (complete_request t k rt) = dpop k (reservations rt)"
  by (simp_all add: complete_request_def rt_views)

lemma fail_request_views [rt_views]:
  "rt_requests (fail_request t k c rt) =
     upd_req k (\<lambda>r. r\<lparr>rec_status := FAILED, rec_ended_at := Some t, rec_error_code := c\<rparr>)
       (rt_requests rt)"
  "reservations (fail_request t k c rt) = dpop k (reservations rt)"
  by (simp_all add: fail_request_def rt_views)

lemma counters_views [rt_views]:
  "rt_requests (mark_dequeued k rt) = rt_requests rt"
  "reservations (mark_dequeued k rt) = reservations rt"
  "rt_requests (record_queue_rejected rt) = rt_requests rt"
  "reservations (record_queue_rejected rt) = reservations rt"
  "rt_requests (record_queue_cancelled rt) = rt_requests rt"
  "reservations (record_queue_cancelled rt) = reservations rt"
  "rt_requests (record_accepted rt) = rt_requests rt"
  "reservations (record_accepted rt) = reservations rt"
  "rt_requests (record_rejected reason rt) = rt_requests rt"
  "reservations (record_rejected reason rt) = reservations rt"
  "rt_requests (record_stream_disconnect k rt) = rt_requests rt"
  "reservations (record_stream_disconnect k rt) = reservations rt"
  by (simp_all add: mark_dequeued_def record_queue_rejected_def record_queue_cancelled_def
      record_accepted_def record_rejected_def record_stream_disconnect_def Let_def)

lemma mark_started_views [rt_views]:
  "rt_requests (mark_started st k rt) =
     upd_req k (\<lambda>r. if rec_status r \<in> {ACCEPTED, QUEUED} then r\<lparr>rec_status := st\<rparr> else r)
       (rt_requests rt)"
  "reservations (mark_started st k rt) =
     (case dget (rt_requests rt) k of
        None \<Rightarrow> reservations rt
      | Some r \<Rightarrow> (if rec_status r \<in> {ACCEPTED, QUEUED} then dpop k (reservations rt)
                  else reservations rt))"
  by (auto simp: mark_started_def rt_views upd_req_def update_triv split: option.split)

lemma request_cancellation_views [rt_views]:
  "rt_requests (snd (request_cancellation k rt)) =
     upd_req k (\<lambda>r. if terminal_status (rec_status r) then r
                    else r\<lparr>rec_cancel_requested := True,
                           rec_cancel_token := map_option token_cancel (rec_cancel_token r)\<rparr>)
       (rt_requests rt)"
  "reservations (snd (request_cancellation k rt)) = reservations rt"
  by (auto simp: request_cancellation_def rt_views upd_req_def update_triv split: option.split)

section \<open>Accounting lemmas\<close>

definition slot_of :: "RuntimeState \<Rightarrow> string \<Rightarrow> nat" where
  "slot_of rt k =
     (case dget (rt_requests rt) k of
        None \<Rightarrow> 0 | Some r \<Rightarrow> of_bool (slot_status (rec_status r)))"

definition res_of :: "RuntimeState \<Rightarrow> string \<Rightarrow> nat" where
  "res_of rt k = of_bool (k \<in> set (dkeys (reservations rt)))"

lemma dget_upd_req [rt_views]:
  "dget (upd_req k f d) j = (if j = k then map_option f (dget d k) else dget d j)"
  by (auto simp: upd_req_def dict_simps split: option.split)

lemma dict_ok_upd_req [simp]: "dict_ok d \<Longrightarrow> dict_ok (upd_req k f d)"
  by (simp add: upd_req_def split: option.split)

lemma dcount_upd_req:
  "dict_ok d \<Longrightarrow>
     dcount P (upd_req k f d) + (case dget d k of None \<Rightarrow> 0 | Some r \<Rightarrow> of_bool (P r)) =
     dcount P d + (case dget d k of None \<Rightarrow> 0 | Some r \<Rightarrow> of_bool (P (f r)))"
proof (cases "dget d k")
  case (Some w)
  moreover assume "dict_ok d"
  ultimately show ?thesis
    using dcount_dset[of d k w P "f w"] by (simp add: upd_req_def of_bool_def)
qed (simp add: upd_req_def)

lemma dcount_dpop_le: "dcount P (dpop k d) \<le> dcount P d"
  by (induction d) auto

lemma length_dpop:
  "dict_ok d \<Longrightarrow> length (dpop k d) + of_bool (k \<in> set (dkeys d)) = length d"
  by (induction d) (auto simp: dict_simps)

lemma runtime_ok_new [simp]: "runtime_ok new_runtime" "reserved_queued new_runtime"
  by (simp_all add: runtime_ok_def reserved_queued_def new_runtime_def)

text \<open>An update that keeps identity and lane keeps the invariant, with or without a release.\<close>

lemma runtime_ok_update:
  assumes "runtime_ok rt"
    and "rt_requests rt' = upd_req k f (rt_requests rt)"
    and "reservations rt' = dpop k (reservations rt) \<or> reservations rt' = reservations rt"
    and "\<And>r. rec_request_id (f r) = rec_request_id r \<and> rec_lane (f r) = rec_lane r"
  shows "runtime_ok rt'"
  unfolding runtime_ok_def
proof (intro conjI allI impI)
  show "dict_ok (rt_requests rt')" "dict_ok (reservations rt')"
    using assms(1,2,3) by (auto simp: runtime_ok_def)
  show "rec_request_id r = j" if "dget (rt_requests rt') j = Some r" for j r
    using that assms(1,2,4) by (auto simp: runtime_ok_def rt_views split: if_splits)
  fix j l assume "dget (reservations rt') j = Some l"
  then have "dget (reservations rt) j = Some l"
    using assms(3) by (auto simp: dict_simps split: if_splits)
  then obtain r where "dget (rt_requests rt) j = Some r" "rec_lane r = l"
    using assms(1) unfolding runtime_ok_def by blast
  then show "\<exists>r. dget (rt_requests rt') j = Some r \<and> rec_lane r = l"
    using assms(2,4) by (auto simp: rt_views)
qed

lemma runtime_ok_ops [inv_intros]:
  assumes "runtime_ok rt"
  shows "runtime_ok (mark_queued k rt)" "runtime_ok (mark_timed_out t k rt)"
    "runtime_ok (mark_started st k rt)" "runtime_ok (complete_request t k rt)"
    "runtime_ok (cancel_request t k rt)" "runtime_ok (fail_request t k c rt)"
    "runtime_ok (snd (request_cancellation k rt))" "runtime_ok (release_capacity k rt)"
proof -
  note up = runtime_ok_update[OF assms]
  show "runtime_ok (mark_queued k rt)"
    by (rule up[OF mark_queued_views(1)]) (auto simp: rt_views)
  show "runtime_ok (mark_timed_out t k rt)"
    by (rule up[OF mark_timed_out_views(1)]) (auto simp: rt_views)
  show "runtime_ok (mark_started st k rt)"
    by (rule up[OF mark_started_views(1)]) (auto simp: rt_views split: option.split)
  show "runtime_ok (complete_request t k rt)"
    by (rule up[OF complete_request_views(1)]) (auto simp: rt_views)
  show "runtime_ok (cancel_request t k rt)"
    by (rule up[OF cancel_request_views(1)]) (auto simp: rt_views)
  show "runtime_ok (fail_request t k c rt)"
    by (rule up[OF fail_request_views(1)]) (auto simp: rt_views)
  show "runtime_ok (snd (request_cancellation k rt))"
    by (rule up[OF request_cancellation_views(1)]) (auto simp: rt_views)
  show "runtime_ok (release_capacity k rt)"
    by (rule up[where f = "\<lambda>r. r"]) (auto simp: rt_views upd_req_id)
qed

lemma runtime_ok_frame:
  "rt_requests rt' = rt_requests rt \<Longrightarrow> reservations rt' = reservations rt \<Longrightarrow>
     runtime_ok rt' = runtime_ok rt"
  by (simp add: runtime_ok_def)

lemma runtime_ok_counters [simp]:
  "runtime_ok (mark_dequeued k rt) = runtime_ok rt"
  "runtime_ok (record_queue_rejected rt) = runtime_ok rt"
  "runtime_ok (record_queue_cancelled rt) = runtime_ok rt"
  "runtime_ok (record_accepted rt) = runtime_ok rt"
  "runtime_ok (record_rejected reason rt) = runtime_ok rt"
  "runtime_ok (record_stream_disconnect k rt) = runtime_ok rt"
  by (rule runtime_ok_frame; simp add: rt_views)+

lemma begin_request_views [rt_views]:
  assumes "begin_request now hex model stream up lane rt = (rid, rt')"
  shows "rid = generate_whoosh_request_id hex"
    "reservations rt' = reservations rt"
    "\<exists>r. rt_requests rt' = dset rid r (rt_requests rt) \<and> rec_request_id r = rid
        \<and> rec_status r = ACCEPTED \<and> rec_lane r = lane \<and> rec_cancel_token r = Some (new_token rid)"
  using assms by (auto simp: begin_request_def Let_def)

lemma runtime_ok_begin [inv_intros]:
  assumes "runtime_ok rt" and "begin_request now hex model stream up lane rt = (rid, rt')"
    and "rid \<notin> set (dkeys (rt_requests rt))"
  shows "runtime_ok rt'"
proof -
  obtain r where "rt_requests rt' = dset rid r (rt_requests rt)" "rec_request_id r = rid"
    using begin_request_views(3)[OF assms(2)] by blast
  moreover have "dget (rt_requests rt) rid = None" using assms(3) by (simp add: map_of_eq_None_iff)
  ultimately show ?thesis using assms(1) begin_request_views(2)[OF assms(2)]
    by (fastforce simp: runtime_ok_def dict_simps)
qed

lemma runtime_ok_reserve [inv_intros]:
  assumes "runtime_ok rt" and "dget (rt_requests rt) k = Some r" and "rec_lane r = lane"
  shows "runtime_ok (snd (reserve_capacity k lane rt))"
  using assms by (auto simp: reserve_capacity_def runtime_ok_def dict_simps split: if_splits)

text \<open>How much each kind of update moves the two counts.\<close>

lemma active_jobs_close:
  assumes "runtime_ok rt"
    and "rt_requests rt' = upd_req k f (rt_requests rt)"
    and "reservations rt' = dpop k (reservations rt)"
    and "\<And>r. \<not> slot_status (rec_status (f r))"
  shows "active_jobs rt' + slot_of rt k + res_of rt k = active_jobs rt"
  using dcount_upd_req[of "rt_requests rt" "\<lambda>r. slot_status (rec_status r)" k f]
    length_dpop[of "reservations rt" k] assms
  by (cases "dget (rt_requests rt) k") (auto simp: active_jobs_def slot_of_def res_of_def runtime_ok_def)

lemma closing_ops_active_jobs:
  assumes "runtime_ok rt"
  shows "active_jobs (complete_request t k rt) + slot_of rt k + res_of rt k = active_jobs rt"
    "active_jobs (cancel_request t k rt) + slot_of rt k + res_of rt k = active_jobs rt"
    "active_jobs (fail_request t k c rt) + slot_of rt k + res_of rt k = active_jobs rt"
    "active_jobs (mark_timed_out t k rt) + slot_of rt k + res_of rt k = active_jobs rt"
  by (rule active_jobs_close[OF assms complete_request_views]
      active_jobs_close[OF assms cancel_request_views]
      active_jobs_close[OF assms fail_request_views]
      active_jobs_close[OF assms mark_timed_out_views]; auto simp: slot_status_def)+

lemma lane_jobs_close:
  assumes "runtime_ok rt"
    and "rt_requests rt' = upd_req k f (rt_requests rt)"
    and "reservations rt' = dpop k (reservations rt)"
    and "\<And>r. \<not> slot_status (rec_status (f r))"
  shows "active_jobs_for_lane rt' lane \<le> active_jobs_for_lane rt lane"
  using dcount_upd_req[of "rt_requests rt" "\<lambda>r. rec_lane r = lane \<and> slot_status (rec_status r)" k f]
    dcount_dpop_le[of "\<lambda>l. l = lane" k "reservations rt"] assms
  by (cases "dget (rt_requests rt) k") (auto simp: active_jobs_for_lane_def runtime_ok_def)

lemma closing_ops_lane_jobs:
  assumes "runtime_ok rt"
  shows "active_jobs_for_lane (complete_request t k rt) lane \<le> active_jobs_for_lane rt lane"
    "active_jobs_for_lane (cancel_request t k rt) lane \<le> active_jobs_for_lane rt lane"
    "active_jobs_for_lane (fail_request t k c rt) lane \<le> active_jobs_for_lane rt lane"
    "active_jobs_for_lane (mark_timed_out t k rt) lane \<le> active_jobs_for_lane rt lane"
  by (rule lane_jobs_close[OF assms complete_request_views]
      lane_jobs_close[OF assms cancel_request_views]
      lane_jobs_close[OF assms fail_request_views]
      lane_jobs_close[OF assms mark_timed_out_views]; auto simp: slot_status_def)+

lemma active_frame:
  assumes "rt_requests rt' = rt_requests rt" and "reservations rt' = reservations rt"
  shows "active_jobs rt' = active_jobs rt" "active_jobs_for_lane rt' lane = active_jobs_for_lane rt lane"
    "queue_depth rt' = queue_depth rt"
  using assms by (simp_all add: active_jobs_def active_jobs_for_lane_def queue_depth_def waiting_record_def[abs_def])

lemmas counters_frame [simp] =
  active_frame[OF counters_views(1,2)] active_frame[OF counters_views(3,4)]
  active_frame[OF counters_views(5,6)] active_frame[OF counters_views(7,8)]
  active_frame[OF counters_views(9,10)] active_frame[OF counters_views(11,12)]

text \<open>A new request takes one slot, in its own lane.\<close>

lemma begin_active_jobs:
  assumes "begin_request now hex model stream up lane rt = (rid, rt')"
    and "rid \<notin> set (dkeys (rt_requests rt))"
  shows "active_jobs rt' = active_jobs rt + 1"
    and "active_jobs_for_lane rt' l =
           active_jobs_for_lane rt l + of_bool (str_true l \<and> l = lane)"
proof -
  obtain r where r: "rt_requests rt' = dset rid r (rt_requests rt)" "rec_status r = ACCEPTED"
      "rec_lane r = lane" and res: "reservations rt' = reservations rt"
    using begin_request_views[OF assms(1)] by blast
  show "active_jobs rt' = active_jobs rt + 1"
    using r res assms(2) by (simp add: active_jobs_def dcount_dset_fresh slot_status_def)
  show "active_jobs_for_lane rt' l = active_jobs_for_lane rt l + of_bool (str_true l \<and> l = lane)"
    using r res assms(2) by (auto simp: active_jobs_for_lane_def dcount_dset_fresh slot_status_def)
qed

lemma reserve_active_jobs:
  "active_jobs (snd (reserve_capacity k lane rt)) =
     active_jobs rt + of_bool (fst (reserve_capacity k lane rt))"
  "active_jobs_for_lane (snd (reserve_capacity k lane rt)) l =
     active_jobs_for_lane rt l
     + of_bool (fst (reserve_capacity k lane rt) \<and> str_true l \<and> l = lane)"
  by (auto simp: reserve_capacity_def active_jobs_def active_jobs_for_lane_def dict_simps)

text \<open>A request that starts hands its reservation over to its record: no count moves.\<close>

lemma started_active_jobs:
  assumes ok: "runtime_ok rt" and r: "dget (rt_requests rt) k = Some r"
    and st: "slot_status st" and "rec_status r = QUEUED \<Longrightarrow> k \<in> set (dkeys (reservations rt))"
    and "rec_status r = ACCEPTED \<Longrightarrow> k \<notin> set (dkeys (reservations rt))"
  shows "active_jobs (mark_started st k rt) = active_jobs rt"
  using assms dcount_upd_req[of "rt_requests rt" "\<lambda>r. slot_status (rec_status r)" k
      "\<lambda>r. if rec_status r \<in> {ACCEPTED, QUEUED} then r\<lparr>rec_status := st\<rparr> else r"]
    length_dpop[of "reservations rt" k]
  by (cases "rec_status r") (auto simp: active_jobs_def rt_views runtime_ok_def slot_status_def)

lemma started_lane_jobs:
  assumes ok: "runtime_ok rt" and r: "dget (rt_requests rt) k = Some r"
    and st: "slot_status st" and "rec_status r = QUEUED \<Longrightarrow> k \<in> set (dkeys (reservations rt))"
    and "rec_status r = ACCEPTED \<Longrightarrow> k \<notin> set (dkeys (reservations rt))"
  shows "active_jobs_for_lane (mark_started st k rt) l = active_jobs_for_lane rt l"
proof -
  let ?P = "\<lambda>r. rec_lane r = l \<and> slot_status (rec_status r)"
  let ?f = "\<lambda>r. if rec_status r \<in> {ACCEPTED, QUEUED} then r\<lparr>rec_status := st\<rparr> else r"
  have dr: "dict_ok (rt_requests rt)" and dres: "dict_ok (reservations rt)"
    using ok by (simp_all add: runtime_ok_def)
  note up = dcount_upd_req[OF dr, of ?P k ?f]
  show ?thesis
  proof (cases "rec_status r = QUEUED")
    case True
    then obtain l' where l': "dget (reservations rt) k = Some l'"
      using assms(4) by (metis pd.get_None_iff option.exhaust)
    then have "rec_lane r = l'" using ok r unfolding runtime_ok_def by (metis option.inject)
    then show ?thesis
      using up dcount_dpop[OF dres l', of "\<lambda>l'. l' = l"] True r st
      by (auto simp: active_jobs_for_lane_def rt_views slot_status_def split: if_splits)
  next
    case False
    then show ?thesis using up r st assms(5)
      by (cases "rec_status r")
        (auto simp: active_jobs_for_lane_def rt_views slot_status_def dpop_fresh)
  qed
qed

lemma cancellation_active_jobs:
  assumes "runtime_ok rt"
  shows "active_jobs (snd (request_cancellation k rt)) = active_jobs rt"
    and "active_jobs_for_lane (snd (request_cancellation k rt)) l = active_jobs_for_lane rt l"
  using dcount_upd_req[of "rt_requests rt" "\<lambda>r. slot_status (rec_status r)" k
      "\<lambda>r. if terminal_status (rec_status r) then r
           else r\<lparr>rec_cancel_requested := True,
                  rec_cancel_token := map_option token_cancel (rec_cancel_token r)\<rparr>"]
    dcount_upd_req[of "rt_requests rt" "\<lambda>r. rec_lane r = l \<and> slot_status (rec_status r)" k
      "\<lambda>r. if terminal_status (rec_status r) then r
           else r\<lparr>rec_cancel_requested := True,
                  rec_cancel_token := map_option token_cancel (rec_cancel_token r)\<rparr>"] assms
  by (cases "dget (rt_requests rt) k";
      auto simp: active_jobs_def active_jobs_for_lane_def rt_views runtime_ok_def split: if_splits)+

section \<open>Conservation of work\<close>

lemma dcount_dom:
  "dict_ok d \<Longrightarrow> dcount P d = card {k. \<exists>v. dget d k = Some v \<and> P v}"
proof (induction d)
  case Nil
  then show ?case by simp
next
  case (Cons kv d)
  obtain k v where kv: "kv = (k, v)" by fastforce
  with Cons.prems have fresh: "dget d k = None" and ok: "dict_ok d" by (simp_all add: map_of_eq_None_iff)
  let ?S = "{k. \<exists>v. dget d k = Some v \<and> P v}"
  have "finite (dom (map_of d))" by (rule finite_dom_map_of)
  then have fin: "finite ?S" by (rule rev_finite_subset) auto
  have "{j. \<exists>w. dget (kv # d) j = Some w \<and> P w} = (if P v then insert k ?S else ?S)"
    using fresh kv by auto
  then show ?case using Cons.IH[OF ok] fresh kv fin by simp
qed

lemma reserved_count:
  assumes "runtime_ok rt" and "reserved_queued rt"
  shows "dcount (\<lambda>r. rec_status r = QUEUED \<and> rec_request_id r \<in> set (dkeys (reservations rt)))
           (rt_requests rt) = length (reservations rt)"
proof -
  have "{k. \<exists>r. dget (rt_requests rt) k = Some r \<and> rec_status r = QUEUED
            \<and> rec_request_id r \<in> set (dkeys (reservations rt))} = set (dkeys (reservations rt))"
    (is "?L = ?R")
  proof (intro set_eqI iffI)
    show "k \<in> ?R" if "k \<in> ?L" for k
    proof -
      from that obtain r where "dget (rt_requests rt) k = Some r"
        "rec_request_id r \<in> set (dkeys (reservations rt))" by blast
      moreover from this have "rec_request_id r = k"
        using assms(1) unfolding runtime_ok_def by blast
      ultimately show ?thesis by simp
    qed
    show "k \<in> ?L" if k: "k \<in> ?R" for k
    proof -
      from k obtain r where "dget (rt_requests rt) k = Some r" "rec_status r = QUEUED"
        using assms(2) unfolding reserved_queued_def by blast
      moreover from this have "rec_request_id r = k"
        using assms(1) unfolding runtime_ok_def by blast
      ultimately show ?thesis using k by simp
    qed
  qed
  moreover have "card (set (dkeys (reservations rt))) = length (reservations rt)"
    using assms(1) distinct_card[of "dkeys (reservations rt)"] by (simp add: runtime_ok_def)
  ultimately show ?thesis using assms(1) by (simp add: dcount_dom runtime_ok_def)
qed

lemma dcount_split:
  "(\<And>v. P v = (Q v \<or> R v)) \<Longrightarrow> (\<And>v. \<not> (Q v \<and> R v)) \<Longrightarrow> dcount P d = dcount Q d + dcount R d"
  by (induction d) auto

text \<open>
  Conservation of work: in a well-formed runtime whose reservations belong to queued
  requests, every request that is not terminal is counted exactly once, either as an active job
  or as a queued one. A granted request moves from one count to the other and is never in both.
\<close>

theorem work_conservation:
  assumes "runtime_ok rt" and "reserved_queued rt"
  shows "active_jobs rt + queue_depth rt = length (get_active_requests rt)"
proof -
  let ?slot = "\<lambda>r. slot_status (rec_status r)"
  let ?res = "\<lambda>r. rec_status r = QUEUED \<and> rec_request_id r \<in> set (dkeys (reservations rt))"
  let ?live = "\<lambda>r. rec_status r \<in> {ACCEPTED, QUEUED, RUNNING, STREAMING}"
  let ?d = "rt_requests rt"
  have "dcount ?live ?d = dcount ?slot ?d + dcount (\<lambda>r. rec_status r = QUEUED) ?d"
    by (rule dcount_split) (auto simp: slot_status_def)
  also have "dcount (\<lambda>r. rec_status r = QUEUED) ?d = dcount ?res ?d + dcount (waiting_record rt) ?d"
    by (rule dcount_split) (auto simp: waiting_record_def)
  finally have "dcount ?live ?d = active_jobs rt + queue_depth rt"
    using reserved_count[OF assms] by (simp add: active_jobs_def queue_depth_def)
  moreover have "length (get_active_requests rt) = dcount ?live ?d"
    unfolding get_active_requests_def dcount_def length_map filter_map by (simp add: comp_def)
  ultimately show ?thesis by simp
qed

text \<open>A runtime with one running request, one granted and one that waits.\<close>

definition demo_runtime :: RuntimeState where
  "demo_runtime =
     (let (a, rt) = begin_request 0 ''a'' ''m'' False None (Some ''stub'') new_runtime;
          (b, rt) = begin_request 1 ''b'' ''m'' False None (Some ''stub'') (mark_running a rt);
          (c, rt) = begin_request 2 ''c'' ''m'' True None (Some ''mlx_lm'') (mark_queued b rt)
      in snd (reserve_capacity b (Some ''stub'') (mark_queued c rt)))"

lemmas demo_runtime_simps =
  demo_runtime_def begin_request_def generate_whoosh_request_id_def new_runtime_def mark_running_def
  mark_started_def mark_queued_def with_record_def release_capacity_def reserve_capacity_def Let_def

lemma demo_runtime_ok: "runtime_ok demo_runtime"
  by (auto simp: runtime_ok_def demo_runtime_simps split: if_splits)

lemma demo_runtime_counts:
  "(active_jobs demo_runtime, queue_depth demo_runtime, slot_of demo_runtime ''whoosh-b'', res_of demo_runtime ''whoosh-b'')
   = (2, 1, 0, 1)"
  by code_simp

theorem work_conservation_witness:
  "active_jobs demo_runtime + queue_depth demo_runtime = length (get_active_requests demo_runtime)
   \<and> active_jobs demo_runtime = 2 \<and> queue_depth demo_runtime = 1"
proof -
  have "reserved_queued demo_runtime" by (simp add: reserved_queued_def demo_runtime_simps)
  then show ?thesis using work_conservation[OF demo_runtime_ok] demo_runtime_counts by simp
qed

section \<open>Slots are handed over and given back exactly once\<close>

lemma queued_counts:
  assumes "dget (rt_requests rt) k = Some r" "rec_status r = QUEUED"
  shows "slot_of rt k = 0"
  using assms by (simp add: slot_of_def slot_status_def)

lemma slot_of_closed:
  assumes "rt_requests rt' = upd_req k f (rt_requests rt)"
    and "reservations rt' = dpop k (reservations rt)"
    and "\<And>r. \<not> slot_status (rec_status (f r))"
  shows "slot_of rt' k = 0" "res_of rt' k = 0"
  using assms by (auto simp: slot_of_def res_of_def rt_views dict_keys split: option.split)

text \<open>
  Ending a request, in any of the four ways, gives back exactly what it held: one slot if its
  record occupied one, one more if it held a reservation; ending it a second time gives back nothing.
\<close>

theorem closing_releases_exactly_once:
  assumes "runtime_ok rt"
  shows "\<forall>close \<in> {complete_request t k, cancel_request t k, fail_request t k code, mark_timed_out t k}.
           active_jobs (close rt) + slot_of rt k + res_of rt k = active_jobs rt
         \<and> runtime_ok (close rt) \<and> active_jobs (close (close rt)) = active_jobs (close rt)"
proof -
  note ok = runtime_ok_ops[OF assms]
  have "slot_of (complete_request t k rt) k = 0 \<and> res_of (complete_request t k rt) k = 0"
    "slot_of (cancel_request t k rt) k = 0 \<and> res_of (cancel_request t k rt) k = 0"
    "slot_of (fail_request t k code rt) k = 0 \<and> res_of (fail_request t k code rt) k = 0"
    "slot_of (mark_timed_out t k rt) k = 0 \<and> res_of (mark_timed_out t k rt) k = 0"
    by (rule conjI; rule slot_of_closed[OF complete_request_views] slot_of_closed[OF cancel_request_views]
        slot_of_closed[OF fail_request_views] slot_of_closed[OF mark_timed_out_views];
        auto simp: slot_status_def)+
  then show ?thesis
    using closing_ops_active_jobs[OF assms, of t k] closing_ops_active_jobs(3)[OF assms, of t k code]
      closing_ops_active_jobs(1)[OF ok(4), of t k t k] closing_ops_active_jobs(2)[OF ok(5), of t k t k]
      closing_ops_active_jobs(3)[OF ok(6), of t k code t k code] closing_ops_active_jobs(4)[OF ok(2), of t k t k] ok
    by simp
qed

theorem closing_releases_exactly_once_witness:
  "active_jobs (cancel_request 9 ''whoosh-b'' demo_runtime) = 1"
proof -
  from closing_releases_exactly_once[OF demo_runtime_ok, of 9 "''whoosh-b''" None]
  have "active_jobs (cancel_request 9 ''whoosh-b'' demo_runtime)
          + slot_of demo_runtime ''whoosh-b'' + res_of demo_runtime ''whoosh-b'' = active_jobs demo_runtime"
    by blast
  then show ?thesis using demo_runtime_counts by simp
qed

end
