(* ===== verification/Backend_Policy.thy ===== *)
theory Backend_Policy
  imports Contracts
begin

text \<open>
  \<open>whooshd/backend_request_policy.py\<close>: the boundary between the permissive ingress request and
  the backend representation the adapters execute. Field names are compared and sorted by code
  point; \<open>copy.deepcopy\<close> is the identity on values. Logging is not modelled, and with it the
  argument \<open>request_id\<close>, which is only logged.
\<close>

section \<open>Policy tables\<close>

definition CHAT_CANONICAL_FIELDS :: "string list" where
  "CHAT_CANONICAL_FIELDS =
     [''model'', ''messages'', ''stream'', ''temperature'', ''top_p'', ''max_tokens'',
      ''max_completion_tokens'', ''stop'', ''user'', ''tools'', ''tool_choice'',
      ''parallel_tool_calls'', ''response_format'', ''seed'', ''presence_penalty'',
      ''frequency_penalty'', ''logit_bias'', ''logprobs'', ''top_logprobs'', ''reasoning_effort'']"

definition INTERNAL_CONTROL_FIELDS :: "string list" where
  "INTERNAL_CONTROL_FIELDS = [''metadata'', ''threadwake'']"

definition ADAPTER_EXTENSIONS :: "(string, string list) dict" where
  "ADAPTER_EXTENSIONS =
     [(''stub'', []), (''mlx_lm'', []), (''mlx_lm_server'', []), (''mlx_vlm'', []),
      (''llama_cpp'', [''min_p'', ''top_k'', ''repeat_penalty'']), (''generic'', [])]"

definition ADAPTER_CANONICAL_FIELDS :: "(string, string list) dict" where
  "ADAPTER_CANONICAL_FIELDS = map (\<lambda>(kind, _). (kind, CHAT_CANONICAL_FIELDS)) ADAPTER_EXTENSIONS"

definition INTERNAL_EXTRA_PREFIXES :: "string list" where
  "INTERNAL_EXTRA_PREFIXES =
     [''codexify_'', ''whooshd_'', ''threadwake'', ''routing_'', ''route_'', ''queue_'', ''admission_'',
      ''cache_'', ''trace_'', ''diagnostic_'', ''provenance'', ''identity_'', ''persona_'', ''memory_'',
      ''retrieval_'', ''lifecycle_'', ''cancel'']"

definition INFERENCE_EXTRA_PREFIXES :: "string list" where
  "INFERENCE_EXTRA_PREFIXES =
     [''temperature'', ''top_'', ''max_'', ''min_'', ''stop'', ''seed'', ''presence_'', ''frequency_'',
      ''logit_'', ''logprob'', ''tool'', ''response_'', ''reasoning'', ''sampling'', ''repeat_'',
      ''prompt'', ''message'', ''stream'', ''model'']"

definition field_name_re :: "string \<Rightarrow> bool" where
  "field_name_re s =
     (case s of [] \<Rightarrow> False
      | c # cs \<Rightarrow> is_alpha c \<and> class_match (\<lambda>c. is_alnum c \<or> c \<in> set ''_.-'') 0 80 cs)"

section \<open>Requests\<close>

record BackendChatRequest =
  br_model :: string
  br_messages :: "ChatMessage list"
  br_stream :: bool
  br_temperature :: "real option"
  br_top_p :: "real option"
  br_max_tokens :: "int option"
  br_max_completion_tokens :: "int option"
  br_stop :: "string list option"
  br_user :: "string option"
  br_tools :: "pyval list option"
  br_tool_choice :: "pyval option"
  br_parallel_tool_calls :: "bool option"
  br_response_format :: "pyval option"
  br_seed :: "int option"
  br_presence_penalty :: "real option"
  br_frequency_penalty :: "real option"
  br_logit_bias :: "(string \<times> real) list option"
  br_logprobs :: "bool option"
  br_top_logprobs :: "int option"
  br_reasoning_effort :: "string option"
  br_extra_fields :: "(string, pyval) dict"
  br_adapter_kind :: string
  br_forwarded_fields :: "string list"
  br_stripped_fields :: "string list"
  br_rejected_fields :: "string list"

datatype chat_ingress = Ingress ChatCompletionRequest | Backend BackendChatRequest

record BackendRequestPolicyError =
  pe_adapter_kind :: string
  pe_rejected_fields :: "string list"

definition adapter_policy :: "string option \<Rightarrow> string list \<times> string list" where
  "adapter_policy adapter_kind =
     (let kind = (if str_true adapter_kind then the adapter_kind else ''generic'') in
      (case dget ADAPTER_CANONICAL_FIELDS kind of
         None \<Rightarrow> the (dget ADAPTER_CANONICAL_FIELDS ''generic'') | Some f \<Rightarrow> f,
       case dget ADAPTER_EXTENSIONS kind of
         None \<Rightarrow> the (dget ADAPTER_EXTENSIONS ''generic'') | Some e \<Rightarrow> e))"

definition is_internal_extra :: "string \<Rightarrow> bool" where
  "is_internal_extra name =
     (py_lower name \<in> set INTERNAL_CONTROL_FIELDS
      \<or> startswith_any (py_lower name) INTERNAL_EXTRA_PREFIXES)"

definition is_inference_affecting_extra :: "string \<Rightarrow> bool" where
  "is_inference_affecting_extra name =
     (let normalized = py_lower name in
      normalized \<in> set CHAT_CANONICAL_FIELDS
      \<or> startswith_any normalized INFERENCE_EXTRA_PREFIXES
      \<or> list_ex (\<lambda>t. t \<in> set [''temperature'', ''top'', ''tokens'', ''stop'', ''seed'', ''tool'', ''tools'',
                              ''reasoning'', ''sampling'', ''prompt'', ''message'', ''stream'', ''model''])
          (py_words (\<lambda>c. is_lower c \<or> is_digit c) normalized))"

definition field_names :: "string list \<Rightarrow> string list" where
  "field_names values = sort (remdups values)"

text \<open>\<open>getattr(request, name, None) is not None\<close> for the canonical fields.\<close>

definition field_set :: "ChatCompletionRequest \<Rightarrow> string \<Rightarrow> bool" where
  "field_set r name =
     (name \<in> {''model'', ''messages'', ''stream''}
      \<or> name = ''temperature'' \<and> req_temperature r \<noteq> None
      \<or> name = ''top_p'' \<and> req_top_p r \<noteq> None
      \<or> name = ''max_tokens'' \<and> req_max_tokens r \<noteq> None
      \<or> name = ''max_completion_tokens'' \<and> req_max_completion_tokens r \<noteq> None
      \<or> name = ''stop'' \<and> req_stop r \<noteq> None
      \<or> name = ''user'' \<and> req_user r \<noteq> None
      \<or> name = ''tools'' \<and> req_tools r \<noteq> None
      \<or> name = ''tool_choice'' \<and> req_tool_choice r \<noteq> None
      \<or> name = ''parallel_tool_calls'' \<and> req_parallel_tool_calls r \<noteq> None
      \<or> name = ''response_format'' \<and> req_response_format r \<noteq> None
      \<or> name = ''seed'' \<and> req_seed r \<noteq> None
      \<or> name = ''presence_penalty'' \<and> req_presence_penalty r \<noteq> None
      \<or> name = ''frequency_penalty'' \<and> req_frequency_penalty r \<noteq> None
      \<or> name = ''logit_bias'' \<and> req_logit_bias r \<noteq> None
      \<or> name = ''logprobs'' \<and> req_logprobs r \<noteq> None
      \<or> name = ''top_logprobs'' \<and> req_top_logprobs r \<noteq> None
      \<or> name = ''reasoning_effort'' \<and> req_reasoning_effort r \<noteq> None)"

text \<open>The loop over the extra fields: what is allowed, forwarded, stripped and rejected so far.\<close>

record policy_acc =
  acc_allowed :: "(string, pyval) dict"
  acc_forwarded :: "string list"
  acc_stripped :: "string list"
  acc_rejected :: "string list"

definition classify_extra :: "string list \<Rightarrow> string \<times> pyval \<Rightarrow> policy_acc \<Rightarrow> policy_acc" where
  "classify_extra extensions kv acc =
     (case kv of (name, value) \<Rightarrow>
        if name \<in> set extensions \<and> field_name_re name
        then acc\<lparr>acc_allowed := dset name value (acc_allowed acc),
                 acc_forwarded := acc_forwarded acc @ [name]\<rparr>
        else if is_internal_extra name then acc\<lparr>acc_stripped := acc_stripped acc @ [name]\<rparr>
        else if is_inference_affecting_extra name
        then acc\<lparr>acc_rejected := acc_rejected acc @ [name]\<rparr>
        else acc\<lparr>acc_stripped := acc_stripped acc @ [name]\<rparr>)"

definition sanitize_chat_request ::
  "chat_ingress \<Rightarrow> string option \<Rightarrow> BackendRequestPolicyError + BackendChatRequest" where
  "sanitize_chat_request request adapter_kind =
     (case request of
        Backend b \<Rightarrow> Inr b
      | Ingress r \<Rightarrow>
          (let kind = (if str_true adapter_kind then the adapter_kind else ''generic'') in
           case adapter_policy (Some kind) of (canonical, extensions) \<Rightarrow>
           let start =
                 \<lparr>acc_allowed = [],
                  acc_forwarded = filter (\<lambda>n. n \<in> set canonical \<and> field_set r n) CHAT_CANONICAL_FIELDS,
                  acc_stripped = (if req_metadata r \<noteq> None then [''metadata''] else [])
                                 @ (if req_threadwake r \<noteq> None then [''threadwake''] else []),
                  acc_rejected = []\<rparr>;
               acc = fold (classify_extra extensions) (req_extra_fields r) start;
               rejected_names = field_names (acc_rejected acc)
           in if rejected_names \<noteq> []
              then Inl \<lparr>pe_adapter_kind = kind, pe_rejected_fields = rejected_names\<rparr>
              else Inr
                \<lparr>br_model = req_model r, br_messages = req_messages r, br_stream = req_stream r,
                 br_temperature = req_temperature r, br_top_p = req_top_p r,
                 br_max_tokens = req_max_tokens r,
                 br_max_completion_tokens = req_max_completion_tokens r, br_stop = req_stop r,
                 br_user = req_user r, br_tools = req_tools r, br_tool_choice = req_tool_choice r,
                 br_parallel_tool_calls = req_parallel_tool_calls r,
                 br_response_format = req_response_format r, br_seed = req_seed r,
                 br_presence_penalty = req_presence_penalty r,
                 br_frequency_penalty = req_frequency_penalty r, br_logit_bias = req_logit_bias r,
                 br_logprobs = req_logprobs r, br_top_logprobs = req_top_logprobs r,
                 br_reasoning_effort = req_reasoning_effort r,
                 br_extra_fields = acc_allowed acc, br_adapter_kind = kind,
                 br_forwarded_fields = field_names (acc_forwarded acc),
                 br_stripped_fields = field_names (acc_stripped acc),
                 br_rejected_fields = rejected_names\<rparr>))"

definition ensure_backend_chat_request ::
  "chat_ingress \<Rightarrow> string option \<Rightarrow> BackendRequestPolicyError + BackendChatRequest" where
  "ensure_backend_chat_request request adapter_kind = sanitize_chat_request request adapter_kind"

record GenerateRequest =
  gen_prompt :: string
  gen_model_id :: "string option"
  gen_max_tokens :: int
  gen_temperature :: real
  gen_top_p :: real
  gen_stop :: "string list option"
  gen_request_id :: "string option"

record BackendGenerateRequest = GenerateRequest +
  gen_adapter_kind :: string

definition sanitize_generate_request :: "GenerateRequest \<Rightarrow> string option \<Rightarrow> BackendGenerateRequest" where
  "sanitize_generate_request r adapter_kind =
     \<lparr>gen_prompt = gen_prompt r, gen_model_id = gen_model_id r, gen_max_tokens = gen_max_tokens r,
      gen_temperature = gen_temperature r, gen_top_p = gen_top_p r, gen_stop = gen_stop r,
      gen_request_id = gen_request_id r,
      gen_adapter_kind = (if str_true adapter_kind then the adapter_kind else ''generic'')\<rparr>"

section \<open>Properties\<close>

definition forwards :: "string list \<Rightarrow> string \<Rightarrow> bool" where
  "forwards ext name = (name \<in> set ext \<and> field_name_re name)"

definition rejects :: "string list \<Rightarrow> string \<Rightarrow> bool" where
  "rejects ext name =
     (\<not> forwards ext name \<and> \<not> is_internal_extra name \<and> is_inference_affecting_extra name)"

lemma classify_fold:
  "acc_rejected (fold (classify_extra ext) kvs acc) = acc_rejected acc @ filter (rejects ext) (dkeys kvs)"
  "acc_forwarded (fold (classify_extra ext) kvs acc) = acc_forwarded acc @ filter (forwards ext) (dkeys kvs)"
  "acc_stripped (fold (classify_extra ext) kvs acc) =
     acc_stripped acc @ filter (\<lambda>n. \<not> forwards ext n \<and> \<not> rejects ext n) (dkeys kvs)"
  by (induction kvs arbitrary: acc) (auto simp: classify_extra_def rejects_def forwards_def)

lemma classify_fold_allowed:
  "distinct (dkeys (acc_allowed acc) @ dkeys kvs) \<Longrightarrow>
     acc_allowed (fold (classify_extra ext) kvs acc) =
       acc_allowed acc @ filter (\<lambda>kv. forwards ext (fst kv)) kvs"
proof (induction kvs arbitrary: acc)
  case Nil
  then show ?case by simp
next
  case (Cons kv kvs)
  obtain k v where kv: "kv = (k, v)" by fastforce
  let ?acc = "classify_extra ext kv acc"
  have allowed: "acc_allowed ?acc = acc_allowed acc @ (if forwards ext k then [kv] else [])"
    using Cons.prems kv by (simp add: classify_extra_def forwards_def dset_fresh)
  have "distinct (dkeys (acc_allowed ?acc) @ dkeys kvs)"
    unfolding allowed using Cons.prems kv by auto
  from Cons.IH[OF this] show ?case using allowed kv by simp
qed

lemma set_field_names [simp]: "set (field_names xs) = set xs" "(field_names xs = []) = (xs = [])"
  by (auto simp: field_names_def) (metis set_sort set_remdups set_empty)

definition extensions_of :: "string option \<Rightarrow> string list" where
  "extensions_of kind = snd (adapter_policy kind)"

lemma adapter_policy_kind:
  "adapter_policy (Some (if str_true k then the k else ''generic'')) = adapter_policy k"
  by (cases k) (auto simp: adapter_policy_def Let_def)

definition carries_canonical :: "ChatCompletionRequest \<Rightarrow> BackendChatRequest \<Rightarrow> bool" where
  "carries_canonical r b \<longleftrightarrow>
     br_model b = req_model r \<and> br_messages b = req_messages r \<and> br_stream b = req_stream r
   \<and> br_temperature b = req_temperature r \<and> br_top_p b = req_top_p r \<and> br_max_tokens b = req_max_tokens r
   \<and> br_max_completion_tokens b = req_max_completion_tokens r \<and> br_stop b = req_stop r
   \<and> br_user b = req_user r \<and> br_tools b = req_tools r \<and> br_tool_choice b = req_tool_choice r
   \<and> br_parallel_tool_calls b = req_parallel_tool_calls r
   \<and> br_response_format b = req_response_format r \<and> br_seed b = req_seed r
   \<and> br_presence_penalty b = req_presence_penalty r \<and> br_frequency_penalty b = req_frequency_penalty r
   \<and> br_logit_bias b = req_logit_bias r \<and> br_logprobs b = req_logprobs r
   \<and> br_top_logprobs b = req_top_logprobs r \<and> br_reasoning_effort b = req_reasoning_effort r"

lemma sanitize_rejects:
  "filter (rejects (extensions_of kind)) (dkeys (req_extra_fields r)) = n # ns \<Longrightarrow>
     sanitize_chat_request (Ingress r) kind =
       Inl \<lparr>pe_adapter_kind = (if str_true kind then the kind else ''generic''),
            pe_rejected_fields = field_names (n # ns)\<rparr>"
  by (simp add: sanitize_chat_request_def Let_def adapter_policy_kind extensions_of_def classify_fold
      case_prod_unfold)

lemma sanitize_accepts:
  assumes "filter (rejects (extensions_of kind)) (dkeys (req_extra_fields r)) = []"
    and "dict_ok (req_extra_fields r)"
  shows "\<exists>b. sanitize_chat_request (Ingress r) kind = Inr b
     \<and> br_extra_fields b = filter (\<lambda>kv. forwards (extensions_of kind) (fst kv)) (req_extra_fields r)
     \<and> carries_canonical r b"
proof -
  obtain can ext where pol: "adapter_policy kind = (can, ext)" by fastforce
  then have ext: "extensions_of kind = ext" by (simp add: extensions_of_def)
  show ?thesis
    using assms unfolding sanitize_chat_request_def Let_def adapter_policy_kind pol ext
    by (simp add: classify_fold classify_fold_allowed carries_canonical_def)
qed

text \<open>
  C11. The backend boundary. A request is refused exactly when one of its extra fields is neither a
  declared extension of the adapter nor an internal control and could affect inference, and the
  error names exactly those fields, in order and without values. Otherwise the backend request
  carries the canonical fields unchanged, and of the extra fields exactly the adapter's declared
  extensions; metadata, ThreadWake controls and undeclared extras have no field to travel in. Passing
  a backend request through the boundary again, for any adapter, changes nothing.
\<close>

theorem backend_boundary:
  assumes "dict_ok (req_extra_fields r)"
  shows "(case sanitize_chat_request (Ingress r) kind of
            Inl e \<Rightarrow>
              pe_rejected_fields e \<noteq> [] \<and> sorted (pe_rejected_fields e)
            \<and> set (pe_rejected_fields e) = {n \<in> set (dkeys (req_extra_fields r)). rejects (extensions_of kind) n}
          | Inr b \<Rightarrow>
              {n \<in> set (dkeys (req_extra_fields r)). rejects (extensions_of kind) n} = {}
            \<and> br_extra_fields b = filter (\<lambda>kv. forwards (extensions_of kind) (fst kv)) (req_extra_fields r)
            \<and> set (dkeys (br_extra_fields b)) \<subseteq> set (extensions_of kind)
            \<and> carries_canonical r b
            \<and> ensure_backend_chat_request (Backend b) other = Inr b)"
proof (cases "filter (rejects (extensions_of kind)) (dkeys (req_extra_fields r)) = []")
  case True
  then have none: "{n \<in> set (dkeys (req_extra_fields r)). rejects (extensions_of kind) n} = {}"
    by (auto simp: filter_empty_conv)
  from sanitize_accepts[OF True assms] obtain b where b: "sanitize_chat_request (Ingress r) kind = Inr b"
    and bs: "br_extra_fields b = filter (\<lambda>kv. forwards (extensions_of kind) (fst kv)) (req_extra_fields r)"
      "carries_canonical r b" by blast
  have "set (dkeys (br_extra_fields b)) \<subseteq> set (extensions_of kind)"
    unfolding bs(1) by (auto simp: forwards_def)
  then show ?thesis unfolding b
    using none bs by (simp add: ensure_backend_chat_request_def sanitize_chat_request_def)
next
  case False
  then obtain n ns where rej: "filter (rejects (extensions_of kind)) (dkeys (req_extra_fields r)) = n # ns"
    by (meson neq_Nil_conv)
  have "sorted (field_names (n # ns))" by (simp add: field_names_def)
  moreover have "set (field_names (n # ns)) = {n \<in> set (dkeys (req_extra_fields r)). rejects (extensions_of kind) n}"
    unfolding set_field_names rej[symmetric] by auto
  moreover have "field_names (n # ns) \<noteq> []" by simp
  ultimately show ?thesis by (simp add: sanitize_rejects[OF rej])
qed

definition demo_extra_request :: "(string, pyval) dict \<Rightarrow> ChatCompletionRequest" where
  "demo_extra_request d =
     (chat_request ''m'' [text_message ''user'' ''hi''])\<lparr>req_metadata := Some (PDict []), req_extra_fields := d\<rparr>"

theorem backend_boundary_witness:
  "(\<exists>b. sanitize_chat_request (Ingress (demo_extra_request [(''top_k'', PInt 4), (''trace_id'', PStr ''x'')])) (Some ''llama_cpp'') = Inr b
     \<and> br_extra_fields b = [(''top_k'', PInt 4)])
   \<and> (\<exists>e. sanitize_chat_request (Ingress (demo_extra_request [(''top_k'', PInt 4)])) (Some ''stub'') = Inl e
     \<and> pe_rejected_fields e = [''top_k''])"
proof
  let ?r = "demo_extra_request [(''top_k'', PInt 4), (''trace_id'', PStr ''x'')]"
  have ok: "dict_ok (req_extra_fields ?r)" by (simp add: demo_extra_request_def)
  have keys: "dkeys (req_extra_fields ?r) = [''top_k'', ''trace_id'']" by (simp add: demo_extra_request_def)
  have "forwards (extensions_of (Some ''llama_cpp'')) ''top_k''" by code_simp
  moreover have "\<not> rejects (extensions_of (Some ''llama_cpp'')) ''top_k''" by code_simp
  moreover have "\<not> forwards (extensions_of (Some ''llama_cpp'')) ''trace_id''" by code_simp
  moreover have "\<not> rejects (extensions_of (Some ''llama_cpp'')) ''trace_id''" by code_simp
  ultimately have rej: "{n \<in> set (dkeys (req_extra_fields ?r)). rejects (extensions_of (Some ''llama_cpp'')) n} = {}"
    and fwd: "filter (\<lambda>kv. forwards (extensions_of (Some ''llama_cpp'')) (fst kv)) (req_extra_fields ?r) = [(''top_k'', PInt 4)]"
    unfolding keys by (auto simp: demo_extra_request_def)
  show "\<exists>b. sanitize_chat_request (Ingress ?r) (Some ''llama_cpp'') = Inr b \<and> br_extra_fields b = [(''top_k'', PInt 4)]"
    using backend_boundary[OF ok, where kind = "Some ''llama_cpp''"]
    unfolding rej fwd by (cases "sanitize_chat_request (Ingress ?r) (Some ''llama_cpp'')") auto
next
  let ?r = "demo_extra_request [(''top_k'', PInt 4)]"
  have "sanitize_chat_request (Ingress ?r) (Some ''stub'') = Inl \<lparr>pe_adapter_kind = ''stub'', pe_rejected_fields = [''top_k'']\<rparr>"
  proof -
    have "filter (rejects (extensions_of (Some ''stub''))) (dkeys (req_extra_fields ?r)) = [''top_k'']"
      by code_simp
    from sanitize_rejects[OF this] show ?thesis by (simp add: field_names_def)
  qed
  then show "\<exists>e. sanitize_chat_request (Ingress ?r) (Some ''stub'') = Inl e \<and> pe_rejected_fields e = [''top_k'']"
    by simp
qed

end
