(* ===== verification/Scheduler.thy ===== *)
theory Scheduler
  imports Config
begin

text \<open>
  \<open>whooshd/scheduler.py\<close>: which queued request runs next. The FIFO policy takes the candidate
  with the least \<open>queued_at\<close>; the cache-aware policy may prefer a cache-ready candidate, at most
  \<open>max_bypass\<close> times over the head of the queue. Both policies read their settings from the
  environment at each decision.
\<close>

section \<open>State and decisions\<close>

datatype SchedulerPolicy = FIFO | CACHE_AWARE_FIFO

datatype SchedulerDecisionReason =
    FIFO_OLDEST | CACHE_AFFINITY | FAIRNESS_FIFO | NO_ELIGIBLE_REQUEST | CAPACITY_UNAVAILABLE

fun SchedulerPolicy_value :: "SchedulerPolicy \<Rightarrow> string" where
  "SchedulerPolicy_value FIFO = ''fifo''"
| "SchedulerPolicy_value CACHE_AWARE_FIFO = ''cache_aware_fifo''"

fun SchedulerDecisionReason_value :: "SchedulerDecisionReason \<Rightarrow> string" where
  "SchedulerDecisionReason_value FIFO_OLDEST = ''fifo_oldest''"
| "SchedulerDecisionReason_value CACHE_AFFINITY = ''cache_affinity''"
| "SchedulerDecisionReason_value FAIRNESS_FIFO = ''fairness_fifo''"
| "SchedulerDecisionReason_value NO_ELIGIBLE_REQUEST = ''no_eligible_request''"
| "SchedulerDecisionReason_value CAPACITY_UNAVAILABLE = ''capacity_unavailable''"

record SchedulerCandidate =
  cand_request_id :: string
  cand_queued_at :: real
  cand_model :: "string option"
  cand_stream :: bool
  cand_estimated_tokens :: "int option"
  cand_threadwake_cache_key :: "string option"
  cand_threadwake_stable_prefix_hash :: "string option"
  cand_threadwake_cache_ready :: bool
  cand_bypass_count :: int

record SchedulerDecision =
  dec_request_id :: "string option"
  dec_policy :: SchedulerPolicy
  dec_reason :: SchedulerDecisionReason
  dec_eligible_count :: nat

record Scheduler =
  sch_last_decision :: "SchedulerDecision option"
  bypass_counts :: "(string, int) dict"
  cache_affinity_candidates :: nat
  fairness_bypasses :: int

definition new_scheduler :: Scheduler where
  "new_scheduler =
     \<lparr>sch_last_decision = None, bypass_counts = [], cache_affinity_candidates = 0,
      fairness_bypasses = 0\<rparr>"

definition scheduler_policy :: "environ \<Rightarrow> SchedulerPolicy" where
  "scheduler_policy env =
     (if get_scheduler_policy env = ''cache_aware_fifo'' then CACHE_AWARE_FIFO else FIFO)"

definition scheduler_max_bypass :: "environ \<Rightarrow> int" where
  "scheduler_max_bypass env = get_scheduler_max_bypass env"

text \<open>\<open>self._bypass_counts.get(request_id, 0)\<close>.\<close>

definition bypass_count :: "Scheduler \<Rightarrow> string \<Rightarrow> int" where
  "bypass_count s k = (case dget (bypass_counts s) k of None \<Rightarrow> 0 | Some n \<Rightarrow> n)"

text \<open>\<open>min(xs, key=f)\<close> of a non-empty sequence: the first of the least elements.\<close>

definition py_min_key :: "('a \<Rightarrow> real) \<Rightarrow> 'a \<Rightarrow> 'a list \<Rightarrow> 'a" where
  "py_min_key f x xs = foldl (\<lambda>m y. if f y < f m then y else m) x xs"

fun oldest_candidate :: "SchedulerCandidate list \<Rightarrow> SchedulerCandidate option" where
  "oldest_candidate [] = None"
| "oldest_candidate (c # cs) = Some (py_min_key cand_queued_at c cs)"

definition note_decision :: "SchedulerDecision \<Rightarrow> Scheduler \<Rightarrow> SchedulerDecision \<times> Scheduler" where
  "note_decision d s = (d, s\<lparr>sch_last_decision := Some d\<rparr>)"

definition choose_fifo ::
  "SchedulerCandidate list \<Rightarrow> SchedulerCandidate \<Rightarrow> Scheduler \<Rightarrow> SchedulerDecision \<times> Scheduler" where
  "choose_fifo cs oldest s =
     note_decision
       \<lparr>dec_request_id = Some (cand_request_id oldest), dec_policy = FIFO,
        dec_reason = FIFO_OLDEST, dec_eligible_count = length cs\<rparr> s"

text \<open>The loop that charges a bypass to every candidate older than the chosen one.\<close>

definition charge_bypass :: "SchedulerCandidate \<Rightarrow> SchedulerCandidate \<Rightarrow> Scheduler \<Rightarrow> Scheduler" where
  "charge_bypass ready c s =
     (if cand_queued_at c < cand_queued_at ready
      then s\<lparr>bypass_counts :=
               dset (cand_request_id c) (bypass_count s (cand_request_id c) + 1) (bypass_counts s),
             fairness_bypasses := fairness_bypasses s + 1\<rparr>
      else s)"

definition choose_cache_aware ::
  "environ \<Rightarrow> SchedulerCandidate list \<Rightarrow> SchedulerCandidate \<Rightarrow> Scheduler
   \<Rightarrow> SchedulerDecision \<times> Scheduler" where
  "choose_cache_aware env cs oldest s =
     (let decide = (\<lambda>rid reason.
            \<lparr>dec_request_id = Some rid, dec_policy = CACHE_AWARE_FIFO,
             dec_reason = reason, dec_eligible_count = length cs\<rparr>)
      in
      if bypass_count s (cand_request_id oldest) \<ge> scheduler_max_bypass env
      then note_decision (decide (cand_request_id oldest) FAIRNESS_FIFO) s
      else
        case find cand_threadwake_cache_ready cs of
          None \<Rightarrow> note_decision (decide (cand_request_id oldest) FIFO_OLDEST) s
        | Some ready \<Rightarrow>
            (if cand_request_id ready = cand_request_id oldest
             then note_decision (decide (cand_request_id oldest) FIFO_OLDEST) s
             else note_decision (decide (cand_request_id ready) CACHE_AFFINITY)
                    (fold (charge_bypass ready) cs s)))"

definition choose_next ::
  "environ \<Rightarrow> SchedulerCandidate list \<Rightarrow> bool \<Rightarrow> Scheduler \<Rightarrow> SchedulerDecision \<times> Scheduler" where
  "choose_next env cs capacity_available s =
     (if \<not> capacity_available
      then note_decision
             \<lparr>dec_request_id = None, dec_policy = scheduler_policy env,
              dec_reason = CAPACITY_UNAVAILABLE, dec_eligible_count = length cs\<rparr> s
      else
        case oldest_candidate cs of
          None \<Rightarrow>
            note_decision
              \<lparr>dec_request_id = None, dec_policy = scheduler_policy env,
               dec_reason = NO_ELIGIBLE_REQUEST, dec_eligible_count = 0\<rparr> s
        | Some oldest \<Rightarrow>
            (let s = s\<lparr>cache_affinity_candidates :=
                         length (filter cand_threadwake_cache_ready cs)\<rparr>
             in if scheduler_policy env = FIFO then choose_fifo cs oldest s
                else choose_cache_aware env cs oldest s))"

definition remove_request :: "string \<Rightarrow> Scheduler \<Rightarrow> Scheduler" where
  "remove_request rid s = s\<lparr>bypass_counts := dpop rid (bypass_counts s)\<rparr>"

definition scheduler_snapshot :: "environ \<Rightarrow> Scheduler \<Rightarrow> (string, pyval) dict" where
  "scheduler_snapshot env s =
     [(''policy'', PStr (SchedulerPolicy_value (scheduler_policy env))),
      (''last_decision_reason'',
         case sch_last_decision s of
           None \<Rightarrow> PNone | Some d \<Rightarrow> PStr (SchedulerDecisionReason_value (dec_reason d))),
      (''eligible_count'',
         case sch_last_decision s of None \<Rightarrow> PInt 0 | Some d \<Rightarrow> PInt (int (dec_eligible_count d))),
      (''cache_affinity_candidates'', PInt (int (cache_affinity_candidates s))),
      (''fairness_bypasses'', PInt (fairness_bypasses s)),
      (''max_bypass'', PInt (scheduler_max_bypass env))]"

section \<open>Lemmas\<close>

lemma py_min_key_in: "py_min_key f x xs \<in> set (x # xs)"
  unfolding py_min_key_def by (induction xs arbitrary: x) auto

lemma py_min_key_le: "y \<in> set (x # xs) \<Longrightarrow> f (py_min_key f x xs) \<le> f y"
proof -
  have aux: "f (foldl (\<lambda>m y. if f y < f m then y else m) x xs) \<le> f x
     \<and> (\<forall>y \<in> set xs. f (foldl (\<lambda>m y. if f y < f m then y else m) x xs) \<le> f y)" for x
    by (induction xs arbitrary: x) force+
  then show "y \<in> set (x # xs) \<Longrightarrow> f (py_min_key f x xs) \<le> f y"
    by (auto simp: py_min_key_def)
qed

lemma oldest_candidate_None [simp]: "oldest_candidate cs = None \<longleftrightarrow> cs = []"
  by (cases cs) auto

lemma oldest_candidate_Some:
  "oldest_candidate cs = Some o' \<Longrightarrow>
     o' \<in> set cs \<and> (\<forall>c \<in> set cs. cand_queued_at o' \<le> cand_queued_at c)"
  using py_min_key_in[of cand_queued_at] py_min_key_le[of _ _ _ cand_queued_at]
  by (cases cs) fastforce+

lemma note_decision_sel [simp]:
  "fst (note_decision d s) = d" "bypass_counts (snd (note_decision d s)) = bypass_counts s"
  by (simp_all add: note_decision_def)

lemma bypass_count_frame:
  "bypass_counts s = bypass_counts s' \<Longrightarrow> bypass_count s k = bypass_count s' k"
  by (simp add: bypass_count_def)

lemma bypass_count_note [simp]: "bypass_count (snd (note_decision d s)) k = bypass_count s k"
  by (rule bypass_count_frame) simp

lemma bypass_count_affinity [simp]:
  "bypass_count (s\<lparr>cache_affinity_candidates := n\<rparr>) k = bypass_count s k"
  by (rule bypass_count_frame) simp

lemma bypass_count_remove:
  "bypass_count (remove_request j s) k = (if k = j then 0 else bypass_count s k)"
  by (simp add: bypass_count_def remove_request_def dict_simps)

lemma charge_bypass_count:
  "bypass_count (charge_bypass ready c s) k =
     bypass_count s k + of_bool (cand_queued_at c < cand_queued_at ready \<and> cand_request_id c = k)"
  by (simp add: charge_bypass_def bypass_count_def dict_simps)

lemma fold_charge_count:
  "bypass_count (fold (charge_bypass ready) cs s) k =
     bypass_count s k
     + int (length (filter (\<lambda>c. cand_queued_at c < cand_queued_at ready \<and> cand_request_id c = k) cs))"
  by (induction cs arbitrary: s) (auto simp: charge_bypass_count)

text \<open>A decision names a candidate, and is made exactly when there are capacity and a candidate.\<close>

lemma choose_next_Some:
  assumes "dec_request_id (fst (choose_next env cs cap s)) = Some k"
  shows "cap \<and> (\<exists>c \<in> set cs. cand_request_id c = k)"
proof (cases "cap \<and> cs \<noteq> []")
  case True
  then obtain o' where o': "oldest_candidate cs = Some o'" by (cases cs) auto
  have ready: "r \<in> set cs" if "find cand_threadwake_cache_ready cs = Some r" for r
    using that by (auto simp: find_Some_iff)
  show ?thesis
    using assms True o' oldest_candidate_Some[OF o'] ready
    by (auto simp: choose_next_def choose_fifo_def choose_cache_aware_def Let_def
        split: if_splits option.splits)
next
  case False
  then show ?thesis using assms by (auto simp: choose_next_def split: if_splits option.splits)
qed

lemma choose_next_None:
  "dec_request_id (fst (choose_next env cs cap s)) = None \<longleftrightarrow> \<not> cap \<or> cs = []"
  by (cases "oldest_candidate cs")
    (auto simp: choose_next_def choose_fifo_def choose_cache_aware_def Let_def split: option.split)

lemma choose_next_fifo:
  "scheduler_policy env = FIFO \<Longrightarrow> oldest_candidate cs = Some o' \<Longrightarrow>
     dec_request_id (fst (choose_next env cs True s)) = Some (cand_request_id o')"
  by (simp add: choose_next_def choose_fifo_def)

text \<open>Passing over the head of the queue costs it exactly one bypass, and happens only below the limit.\<close>

lemma choose_next_passed_over:
  assumes o': "oldest_candidate cs = Some o'" and ids: "distinct (map cand_request_id cs)"
    and uniq: "\<And>c. c \<in> set cs \<Longrightarrow> cand_request_id c \<noteq> cand_request_id o' \<Longrightarrow> cand_queued_at o' < cand_queued_at c"
    and miss: "dec_request_id (fst (choose_next env cs True s)) \<noteq> Some (cand_request_id o')"
  shows "bypass_count s (cand_request_id o') < scheduler_max_bypass env"
    and "bypass_count (snd (choose_next env cs True s)) (cand_request_id o') =
           bypass_count s (cand_request_id o') + 1"
proof -
  let ?s = "s\<lparr>cache_affinity_candidates := length (filter cand_threadwake_cache_ready cs)\<rparr>"
  have eq: "choose_next env cs True s = choose_cache_aware env cs o' ?s"
    using o' miss by (auto simp: choose_next_def choose_fifo_def Let_def split: if_splits)
  show "bypass_count s (cand_request_id o') < scheduler_max_bypass env"
    using miss eq by (auto simp: choose_cache_aware_def Let_def split: if_splits)
  then obtain ready where ready: "find cand_threadwake_cache_ready cs = Some ready"
      "cand_request_id ready \<noteq> cand_request_id o'"
      "choose_next env cs True s = note_decision
         \<lparr>dec_request_id = Some (cand_request_id ready), dec_policy = CACHE_AWARE_FIFO,
          dec_reason = CACHE_AFFINITY, dec_eligible_count = length cs\<rparr> (fold (charge_bypass ready) cs ?s)"
    using miss eq by (auto simp: choose_cache_aware_def Let_def split: if_splits option.splits)
  have "ready \<in> set cs" using ready(1) by (auto simp: find_Some_iff)
  with ready(2) uniq have lt: "cand_queued_at o' < cand_queued_at ready" by blast
  have "filter (\<lambda>c. cand_queued_at c < cand_queued_at ready \<and> cand_request_id c = cand_request_id o') cs
      = filter (\<lambda>c. c = o') cs"
    using ids oldest_candidate_Some[OF o'] lt
    by (auto intro!: filter_cong simp: distinct_map inj_on_def)
  moreover have "length (filter (\<lambda>c. c = o') cs) = 1"
    using ids oldest_candidate_Some[OF o'] distinct_map[of cand_request_id cs]
      distinct_length_filter[of cs "\<lambda>c. c = o'"] by auto
  ultimately show "bypass_count (snd (choose_next env cs True s)) (cand_request_id o') =
           bypass_count s (cand_request_id o') + 1"
    by (simp add: ready(3) fold_charge_count)
qed

section \<open>Bounded waiting\<close>

text \<open>Consecutive decisions with free capacity; each served request leaves the scheduler's books.\<close>

fun serve :: "environ \<Rightarrow> SchedulerCandidate list list \<Rightarrow> Scheduler \<Rightarrow> string option list" where
  "serve env [] s = []"
| "serve env (cs # css) s =
     (case choose_next env cs True s of (d, s1) \<Rightarrow>
        dec_request_id d #
        serve env css (case dec_request_id d of None \<Rightarrow> s1 | Some k \<Rightarrow> remove_request k s1))"

text \<open>\<open>k\<close> heads the queue: it is a candidate, and every other candidate is younger.\<close>

definition heads :: "string \<Rightarrow> SchedulerCandidate list \<Rightarrow> bool" where
  "heads k cs \<longleftrightarrow>
     distinct (map cand_request_id cs)
   \<and> (\<exists>o' \<in> set cs. cand_request_id o' = k
        \<and> (\<forall>c \<in> set cs. cand_request_id c \<noteq> k \<longrightarrow> cand_queued_at o' < cand_queued_at c))"

lemma heads_oldest:
  assumes "heads k cs"
  shows "\<exists>o'. oldest_candidate cs = Some o' \<and> cand_request_id o' = k
           \<and> (\<forall>c \<in> set cs. cand_request_id c \<noteq> k \<longrightarrow> cand_queued_at o' < cand_queued_at c)"
proof -
  obtain h where h: "h \<in> set cs" "cand_request_id h = k"
    "\<forall>c \<in> set cs. cand_request_id c \<noteq> k \<longrightarrow> cand_queued_at h < cand_queued_at c"
    using assms by (auto simp: heads_def)
  then obtain o' where o': "oldest_candidate cs = Some o'" by (cases cs) auto
  have "o' \<in> set cs" "cand_queued_at o' \<le> cand_queued_at h"
    using oldest_candidate_Some[OF o'] h(1) by auto
  with h(3) have "cand_request_id o' = k" by force
  with assms h \<open>o' \<in> set cs\<close> have "o' = h"
    unfolding heads_def by (metis distinct_map inj_onD)
  with o' h show ?thesis by blast
qed

lemma serve_bound:
  assumes "\<forall>cs \<in> set css. heads k cs" and "Some k \<notin> set (serve env css s)"
  shows "css \<noteq> [] \<longrightarrow> int (length css) + bypass_count s k \<le> scheduler_max_bypass env"
  using assms
proof (induction css arbitrary: s)
  case Nil
  then show ?case by simp
next
  case (Cons cs css)
  obtain d s1 where d: "choose_next env cs True s = (d, s1)" by fastforce
  let ?s2 = "case dec_request_id d of None \<Rightarrow> s1 | Some j \<Rightarrow> remove_request j s1"
  have miss: "dec_request_id d \<noteq> Some k" and rest: "Some k \<notin> set (serve env css ?s2)"
    using Cons.prems(2) d by auto
  have hd: "heads k cs" using Cons.prems(1) by simp
  then obtain o' where o': "oldest_candidate cs = Some o'" "cand_request_id o' = k"
    "\<forall>c \<in> set cs. cand_request_id c \<noteq> k \<longrightarrow> cand_queued_at o' < cand_queued_at c"
    using heads_oldest by blast
  have dist: "distinct (map cand_request_id cs)" using hd by (simp add: heads_def)
  have miss': "dec_request_id (fst (choose_next env cs True s)) \<noteq> Some (cand_request_id o')"
    using miss d o'(2) by simp
  have lt: "bypass_count s k < scheduler_max_bypass env"
    using choose_next_passed_over(1)[OF o'(1) dist _ miss'] o' by simp
  have inc: "bypass_count s1 k = bypass_count s k + 1"
    using choose_next_passed_over(2)[OF o'(1) dist _ miss'] o' d by simp
  have s2: "bypass_count ?s2 k = bypass_count s1 k"
    using miss by (auto simp: bypass_count_remove split: option.split)
  have "css \<noteq> [] \<longrightarrow> int (length css) + bypass_count ?s2 k \<le> scheduler_max_bypass env"
    using Cons.IH[of ?s2] Cons.prems(1) rest by simp
  then show ?case using lt inc s2 by (cases css) auto
qed

text \<open>
  C7. Bounded waiting: while a request heads the queue, the scheduler passes it over at most
  \<open>max_bypass\<close> times, whatever cache-ready candidates arrive; so of any \<open>max_bypass + 1\<close>
  consecutive decisions one serves it. Under FIFO the first one does, since a decision is
  then always the oldest candidate.
\<close>

theorem head_of_queue_served:
  assumes "\<forall>cs \<in> set css. heads k cs" and "0 \<le> bypass_count s k"
    and "(if scheduler_policy env = FIFO then 0 else scheduler_max_bypass env) < int (length css)"
  shows "Some k \<in> set (serve env css s)"
proof (cases "scheduler_policy env = FIFO")
  case True
  then obtain cs css' where css: "css = cs # css'" using assms(3) by (cases css) auto
  then obtain o' where "oldest_candidate cs = Some o'" "cand_request_id o' = k"
    using assms(1) heads_oldest by fastforce
  then show ?thesis using choose_next_fifo[OF True, of cs o' s] css by (simp add: case_prod_unfold)
next
  case False
  then have "css \<noteq> []" "scheduler_max_bypass env < int (length css)"
    using assms(3) get_scheduler_max_bypass_nonneg[of env]
    by (auto simp del: get_scheduler_max_bypass_nonneg simp: scheduler_max_bypass_def)
  then show ?thesis using serve_bound[OF assms(1), of env s] assms(2) by linarith
qed

definition demo_candidate :: "string \<Rightarrow> real \<Rightarrow> bool \<Rightarrow> SchedulerCandidate" where
  "demo_candidate k t ready =
     \<lparr>cand_request_id = k, cand_queued_at = t, cand_model = None, cand_stream = False,
      cand_estimated_tokens = None, cand_threadwake_cache_key = None,
      cand_threadwake_stable_prefix_hash = None, cand_threadwake_cache_ready = ready,
      cand_bypass_count = 0\<rparr>"

definition demo_cache_env :: environ where
  "demo_cache_env = [''WHOOSHD_SCHEDULER_POLICY'' \<mapsto> ''cache_aware_fifo'']"

theorem head_of_queue_served_witness:
  "Some ''a'' \<in> set (serve demo_cache_env
     [[demo_candidate ''a'' 0 False, demo_candidate ''b'' 1 True],
      [demo_candidate ''a'' 0 False, demo_candidate ''c'' 2 True]] new_scheduler)
   \<and> dec_request_id (fst (choose_next demo_cache_env
       [demo_candidate ''a'' 0 False, demo_candidate ''b'' 1 True] True new_scheduler)) = Some ''b''"
proof
  show "Some ''a'' \<in> set (serve demo_cache_env
     [[demo_candidate ''a'' 0 False, demo_candidate ''b'' 1 True],
      [demo_candidate ''a'' 0 False, demo_candidate ''c'' 2 True]] new_scheduler)"
    by (rule head_of_queue_served)
      (simp_all add: heads_def demo_candidate_def bypass_count_def new_scheduler_def
        scheduler_max_bypass_def get_scheduler_max_bypass_def demo_cache_env_def)
  have "scheduler_policy demo_cache_env = CACHE_AWARE_FIFO"
    by (simp add: scheduler_policy_def get_scheduler_policy_def env_str_def demo_cache_env_def
        py_lower_def char_lower_def is_upper_def py_strip_no_space py_is_space_def)
  then show "dec_request_id (fst (choose_next demo_cache_env
       [demo_candidate ''a'' 0 False, demo_candidate ''b'' 1 True] True new_scheduler)) = Some ''b''"
    by (simp add: choose_next_def choose_cache_aware_def demo_candidate_def bypass_count_def
        new_scheduler_def scheduler_max_bypass_def get_scheduler_max_bypass_def demo_cache_env_def
        Let_def py_min_key_def)
qed

end
