(* ===== verification/Batching.thy ===== *)
theory Batching
  imports Whoosh_Prelude
begin

text \<open>
  \<open>whooshd/batching.py\<close>: which queued requests could run as one batch. The analyzer takes the
  oldest remaining candidate as an anchor, collects the candidates compatible with it up to the
  group size, and repeats on the rest. The random part of a group identifier is an argument.
\<close>

datatype BatchIncompatibilityReason =
    DIFFERENT_MODEL | DIFFERENT_BACKEND | STREAMING_UNSUPPORTED | VISION_UNSUPPORTED
  | SAMPLING_MISMATCH | TOKEN_BUDGET_EXCEEDED | BACKEND_UNSUPPORTED

record BatchCandidate =
  bc_request_id :: string
  bc_queued_at :: real
  bc_model :: string
  bc_backend :: "string option"
  bc_stream :: bool
  bc_estimated_prompt_tokens :: "int option"
  bc_max_tokens :: "int option"
  bc_sampling_class :: "string option"
  bc_has_image :: bool

record BatchGroup =
  bg_group_id :: string
  bg_request_ids :: "string list"
  bg_model :: string
  bg_backend :: "string option"
  bg_eligible :: bool
  bg_reasons :: "BatchIncompatibilityReason list"
  bg_estimated_total_tokens :: "int option"

record BatchAnalysis =
  ba_enabled :: bool
  ba_candidate_count :: nat
  ba_group_count :: nat
  ba_eligible_group_count :: nat
  ba_groups :: "BatchGroup list"
  ba_max_group_size :: int
  ba_max_total_tokens :: int

record BatchAnalyzer =
  max_group_size :: int
  max_total_tokens :: int

definition check_compatibility :: "BatchCandidate \<Rightarrow> BatchCandidate \<Rightarrow> BatchIncompatibilityReason list" where
  "check_compatibility a b =
     (if bc_model a \<noteq> bc_model b then [DIFFERENT_MODEL]
      else if bc_backend a \<noteq> bc_backend b then [DIFFERENT_BACKEND]
      else (if bc_stream a \<or> bc_stream b then [STREAMING_UNSUPPORTED] else [])
         @ (if bc_has_image a \<or> bc_has_image b then [VISION_UNSUPPORTED] else [])
         @ (if bc_sampling_class a \<noteq> bc_sampling_class b then [SAMPLING_MISMATCH] else []))"

text \<open>The inner loop: the candidates that join the group, and those that stay. \<open>n\<close> is
  \<open>len(compatible)\<close>.\<close>

fun collect ::
  "int \<Rightarrow> BatchCandidate \<Rightarrow> int \<Rightarrow> BatchCandidate list \<Rightarrow> BatchCandidate list \<times> BatchCandidate list" where
  "collect limit anchor n [] = ([], [])"
| "collect limit anchor n (other # remaining) =
     (if n \<ge> limit then ([], other # remaining)
      else if check_compatibility anchor other = []
      then (case collect limit anchor (n + 1) remaining of (joined, rest) \<Rightarrow> (other # joined, rest))
      else (case collect limit anchor n remaining of (joined, rest) \<Rightarrow> (joined, other # rest)))"

text \<open>\<open>(c.estimated_prompt_tokens or 0) + (c.max_tokens or 0)\<close>.\<close>

definition candidate_tokens :: "BatchCandidate \<Rightarrow> int" where
  "candidate_tokens c =
     (case bc_estimated_prompt_tokens c of None \<Rightarrow> 0 | Some n \<Rightarrow> n)
     + (case bc_max_tokens c of None \<Rightarrow> 0 | Some n \<Rightarrow> n)"

definition build_group :: "BatchAnalyzer \<Rightarrow> string \<Rightarrow> BatchCandidate list \<Rightarrow> BatchGroup" where
  "build_group an hex compatible =
     (let anchor = hd compatible;
          total = sum_list (map candidate_tokens compatible);
          total_tokens = (if total = 0 then None else Some total);
          eligible = length compatible > 1
      in \<lparr>bg_group_id = ''batchgrp_'' @ take 12 hex,
          bg_request_ids = map bc_request_id compatible,
          bg_model = bc_model anchor, bg_backend = bc_backend anchor,
          bg_eligible = (eligible \<and> (case total_tokens of None \<Rightarrow> 0 | Some n \<Rightarrow> n) \<le> max_total_tokens an),
          bg_reasons = (if \<not> eligible then [TOKEN_BUDGET_EXCEEDED] else []),
          bg_estimated_total_tokens = total_tokens\<rparr>)"

lemma collect_length: "length (snd (collect l a n cs)) \<le> length cs"
  by (induction l a n cs rule: collect.induct) (auto split: prod.splits)

text \<open>The outer loop \<open>while remaining\<close>: the member lists of the groups, in order.\<close>

function partition_candidates :: "BatchAnalyzer \<Rightarrow> BatchCandidate list \<Rightarrow> BatchCandidate list list" where
  "partition_candidates an [] = []"
| "partition_candidates an (anchor # remaining) =
     (case collect (max_group_size an) anchor 1 remaining of
        (joined, rest) \<Rightarrow> (anchor # joined) # partition_candidates an rest)"
  by pat_completeness auto

termination
proof (relation "measure (\<lambda>(an, cs). length cs)", goal_cases)
  case (2 an anchor remaining joined rest)
  then show ?case
    using collect_length[of "max_group_size an" anchor 1 remaining] by (metis case_prod_conv
        in_measure le_imp_less_Suc length_Cons snd_conv)
qed simp

definition analyze ::
  "BatchAnalyzer \<Rightarrow> (nat \<Rightarrow> string) \<Rightarrow> BatchCandidate list \<Rightarrow> bool \<Rightarrow> BatchAnalysis" where
  "analyze an uuid candidates enabled =
     (let groups =
            (if \<not> enabled \<or> candidates = [] then []
             else map (\<lambda>(i, members). build_group an (uuid i) members)
                    (enumerate 0 (partition_candidates an candidates)))
      in \<lparr>ba_enabled = enabled, ba_candidate_count = length candidates,
          ba_group_count = length groups,
          ba_eligible_group_count = length (filter bg_eligible groups),
          ba_groups = groups, ba_max_group_size = max_group_size an,
          ba_max_total_tokens = max_total_tokens an\<rparr>)"

section \<open>Properties\<close>

lemma collect_spec:
  "collect l a n cs = (j, r) \<Longrightarrow>
     mset j + mset r = mset cs \<and> subseq j cs \<and> subseq r cs
   \<and> list_all (\<lambda>c. check_compatibility a c = []) j \<and> (j = [] \<or> n + int (length j) \<le> l)"
proof (induction l a n cs arbitrary: j r rule: collect.induct)
  case (1 l a n)
  then show ?case by simp
next
  case (2 l a n c cs)
  show ?case
  proof (cases "n \<ge> l")
    case True
    then show ?thesis using "2.prems" by auto
  next
    case False
    then show ?thesis
      using "2.prems" "2.IH"(1)[OF False] "2.IH"(2)[OF False]
      by (auto split: if_splits prod.splits)
  qed
qed

lemma partition_candidates_mset: "mset (concat (partition_candidates an cs)) = mset cs"
proof (induction an cs rule: partition_candidates.induct)
  case (1 an)
  then show ?case by simp
next
  case (2 an c cs)
  obtain j r where jr: "collect (max_group_size an) c 1 cs = (j, r)" by fastforce
  then have "mset (concat (partition_candidates an r)) = mset r"
    using "2.IH"[OF jr[symmetric]] by simp
  then show ?case using collect_spec[OF jr] jr by simp
qed

lemma partition_candidates_members:
  "g \<in> set (partition_candidates an cs) \<Longrightarrow>
     g \<noteq> [] \<and> subseq g cs \<and> (length g \<le> 1 \<or> int (length g) \<le> max_group_size an)
   \<and> list_all (\<lambda>c. check_compatibility (hd g) c = []) (tl g)"
proof (induction an cs rule: partition_candidates.induct)
  case (1 an)
  then show ?case by simp
next
  case (2 an c cs)
  obtain j r where jr: "collect (max_group_size an) c 1 cs = (j, r)" by fastforce
  note spec = collect_spec[OF jr]
  show ?case
  proof (cases "g = c # j")
    case True
    then show ?thesis using spec by auto
  next
    case False
    then have "g \<in> set (partition_candidates an r)" using "2.prems" jr by simp
    then show ?thesis using "2.IH"[OF jr[symmetric]] spec subseq_order.order_trans[of g r cs]
      by (auto intro: list_emb_Cons)
  qed
qed

definition compatible_pair :: "BatchCandidate \<Rightarrow> BatchCandidate \<Rightarrow> bool" where
  "compatible_pair a b = (check_compatibility a b = [])"

lemma compatible_pair_iff:
  "compatible_pair a b \<longleftrightarrow>
     bc_model a = bc_model b \<and> bc_backend a = bc_backend b \<and> \<not> bc_stream a \<and> \<not> bc_stream b
   \<and> \<not> bc_has_image a \<and> \<not> bc_has_image b \<and> bc_sampling_class a = bc_sampling_class b"
  by (auto simp: compatible_pair_def check_compatibility_def)

lemma anchor_compatible_pairwise:
  assumes "list_all (\<lambda>c. check_compatibility (hd g) c = []) (tl g)" and "2 \<le> length g"
    and "a \<in> set g" and "b \<in> set g"
  shows "compatible_pair a b"
proof -
  obtain h t where g: "g = h # t" using assms(2) by (cases g) auto
  have t: "compatible_pair h c" if "c \<in> set t" for c
    using assms(1) that g by (simp add: compatible_pair_def list_all_iff)
  moreover obtain d where "d \<in> set t" using assms(2) g by (cases t) auto
  ultimately have "compatible_pair h h" unfolding compatible_pair_iff by blast
  with t have "compatible_pair h a" "compatible_pair h b" using assms(3,4) g by auto
  then show ?thesis by (simp add: compatible_pair_iff)
qed

text \<open>
  Batch analysis partitions the queue: every queued request is in exactly one group, each group
  lists its members in queue order, and a group marked eligible has at least two and at most
  \<open>max_group_size\<close> members that are pairwise compatible (same model, backend and sampling class,
  none streaming, none with images) and whose token estimates fit the budget.
\<close>

theorem analyze_partitions_candidates:
  "mset (concat (map bg_request_ids (ba_groups (analyze an uuid cs True)))) = mset (map bc_request_id cs)
   \<and> list_all (\<lambda>g. \<exists>ms. subseq ms cs \<and> bg_request_ids g = map bc_request_id ms
        \<and> (bg_eligible g \<longrightarrow>
             2 \<le> length ms \<and> int (length ms) \<le> max_group_size an
           \<and> sum_list (map candidate_tokens ms) \<le> max_total_tokens an
           \<and> (\<forall>a \<in> set ms. \<forall>b \<in> set ms. compatible_pair a b)))
       (ba_groups (analyze an uuid cs True))"
proof
  let ?ps = "partition_candidates an cs"
  have groups: "ba_groups (analyze an uuid cs True) =
      map (\<lambda>(i, members). build_group an (uuid i) members) (enumerate 0 ?ps)"
    by (simp add: analyze_def Let_def)
  have "map bg_request_ids (ba_groups (analyze an uuid cs True)) = map (map bc_request_id) ?ps"
    unfolding groups map_map
    by (rule nth_equalityI) (auto simp: nth_enumerate_eq build_group_def Let_def)
  then show "mset (concat (map bg_request_ids (ba_groups (analyze an uuid cs True)))) = mset (map bc_request_id cs)"
    by (metis map_concat mset_map partition_candidates_mset)
  show "list_all (\<lambda>g. \<exists>ms. subseq ms cs \<and> bg_request_ids g = map bc_request_id ms
        \<and> (bg_eligible g \<longrightarrow>
             2 \<le> length ms \<and> int (length ms) \<le> max_group_size an
           \<and> sum_list (map candidate_tokens ms) \<le> max_total_tokens an
           \<and> (\<forall>a \<in> set ms. \<forall>b \<in> set ms. compatible_pair a b)))
       (ba_groups (analyze an uuid cs True))"
    unfolding groups list_all_iff
  proof (clarsimp, goal_cases)
    case (1 i ms)
    then have ms: "ms \<in> set ?ps" by (auto simp: in_set_enumerate_eq)
    note spec = partition_candidates_members[OF ms]
    show ?case
      using spec anchor_compatible_pairwise[of ms]
      by (intro exI[of _ ms]) (auto simp: build_group_def Let_def split: if_splits)
  qed
qed

definition demo_batch_candidate :: "string \<Rightarrow> string \<Rightarrow> BatchCandidate" where
  "demo_batch_candidate k m =
     \<lparr>bc_request_id = k, bc_queued_at = 0, bc_model = m, bc_backend = None, bc_stream = False,
      bc_estimated_prompt_tokens = Some 10, bc_max_tokens = None, bc_sampling_class = None,
      bc_has_image = False\<rparr>"

theorem analyze_partitions_candidates_witness:
  "map bg_request_ids (filter bg_eligible (ba_groups (analyze \<lparr>max_group_size = 2, max_total_tokens = 100\<rparr>
     (\<lambda>_. ''0'') [demo_batch_candidate ''a'' ''m'', demo_batch_candidate ''b'' ''n'', demo_batch_candidate ''c'' ''m''] True)))
     = [[''a'', ''c'']]
   \<and> mset (concat (map bg_request_ids (ba_groups (analyze \<lparr>max_group_size = 2, max_total_tokens = 100\<rparr>
     (\<lambda>_. ''0'') [demo_batch_candidate ''a'' ''m'', demo_batch_candidate ''b'' ''n'', demo_batch_candidate ''c'' ''m''] True))))
     = {#''a'', ''b'', ''c''#}"
  using analyze_partitions_candidates[of "\<lparr>max_group_size = 2, max_total_tokens = 100\<rparr>" "\<lambda>_. ''0''"
      "[demo_batch_candidate ''a'' ''m'', demo_batch_candidate ''b'' ''n'', demo_batch_candidate ''c'' ''m'']"]
  by (simp add: analyze_def build_group_def demo_batch_candidate_def check_compatibility_def
      candidate_tokens_def Let_def)

end
