(* ===== verification/Request_Queue.thy ===== *)
theory Request_Queue
  imports Backend_Policy Correlation Scheduler Batching
begin

text \<open>
  \<open>whooshd/queue.py\<close>: the bounded queue of requests that wait for an execution slot.

  The deque holds entries by value; the coroutine that waits for an entry keeps its own copy,
  and a grant is returned to the caller, which stores it in the copy of the waiter that owns the
  entry (the theory \<open>Broker\<close> does so). \<open>granted\<close> stands for the flag and for the event that
  \<open>mark_granted\<close> sets with it. \<open>qe_cache_ready\<close> is the attribute read by
  \<open>getattr(e, "cache_ready", False)\<close>; no code of the program sets it.

  The callbacks are arguments: \<open>capacity_available\<close> a truth value, \<open>entry_eligible\<close> a predicate
  on entries, \<open>reserve\<close> a function on the caller's state, which \<open>select_and_dequeue\<close> threads. Code
  between two \<open>await\<close>s runs alone; the body of the loop in \<open>wait_for_execution\<close> up to its next
  \<open>await\<close> is the function \<open>wait_iteration\<close>. Its clock readings are separate arguments: \<open>t0\<close>
  where a grant is checked, \<open>t1\<close> in the selection, \<open>t2\<close> in the timeout check.
\<close>

section \<open>State\<close>

record QueueEntry =
  qe_request_id :: string
  qe_request :: BackendChatRequest
  qe_enqueued_at :: real
  qe_upstream_request_id :: "string option"
  qe_batch_claimed :: bool
  qe_batch_result_future :: "pyval option option"
  qe_granted :: bool
  qe_lane :: "string option"
  qe_lane_max_concurrent :: "int option"
  qe_deadline_at :: "real option"
  qe_cache_ready :: bool

definition new_entry ::
  "real \<Rightarrow> string \<Rightarrow> BackendChatRequest \<Rightarrow> string option \<Rightarrow> string option \<Rightarrow> int option \<Rightarrow> QueueEntry" where
  "new_entry now rid req upstream lane lane_max =
     \<lparr>qe_request_id = rid, qe_request = req, qe_enqueued_at = now,
      qe_upstream_request_id = normalize_identifier (opt_str upstream),
      qe_batch_claimed = False, qe_batch_result_future = None, qe_granted = False,
      qe_lane = lane, qe_lane_max_concurrent = lane_max, qe_deadline_at = None,
      qe_cache_ready = False\<rparr>"

definition mark_granted :: "QueueEntry \<Rightarrow> QueueEntry" where
  "mark_granted e = e\<lparr>qe_granted := True\<rparr>"

record RequestQueue =
  q_deque :: "QueueEntry list"
  q_capacity_event :: bool
  q_scheduler :: Scheduler

definition new_queue :: RequestQueue where
  "new_queue = \<lparr>q_deque = [], q_capacity_event = False, q_scheduler = new_scheduler\<rparr>"

definition depth :: "RequestQueue \<Rightarrow> nat" where
  "depth q = length (q_deque q)"

definition is_full :: "environ \<Rightarrow> RequestQueue \<Rightarrow> bool" where
  "is_full env q = (int (depth q) \<ge> get_max_queue_depth env)"

section \<open>Candidates\<close>

definition build_candidates :: "RequestQueue \<Rightarrow> SchedulerCandidate list" where
  "build_candidates q =
     map (\<lambda>e. \<lparr>cand_request_id = qe_request_id e, cand_queued_at = qe_enqueued_at e,
               cand_model = Some (br_model (qe_request e)), cand_stream = br_stream (qe_request e),
               cand_estimated_tokens = None, cand_threadwake_cache_key = None,
               cand_threadwake_stable_prefix_hash = None,
               cand_threadwake_cache_ready = qe_cache_ready e,
               cand_bypass_count = bypass_count (q_scheduler q) (qe_request_id e)\<rparr>)
       (q_deque q)"

definition build_batch_candidates :: "RequestQueue \<Rightarrow> BatchCandidate list" where
  "build_batch_candidates q =
     map (\<lambda>e. \<lparr>bc_request_id = qe_request_id e, bc_queued_at = qe_enqueued_at e,
               bc_model = br_model (qe_request e), bc_backend = None,
               bc_stream = br_stream (qe_request e), bc_estimated_prompt_tokens = None,
               bc_max_tokens = None, bc_sampling_class = None, bc_has_image = False\<rparr>)
       (q_deque q)"

section \<open>Batch groups\<close>

text \<open>The first eligible group that names the selected request and has two entries in the deque.\<close>

fun first_group :: "QueueEntry list \<Rightarrow> string \<Rightarrow> BatchGroup list \<Rightarrow> QueueEntry list option" where
  "first_group es sel [] = None"
| "first_group es sel (g # gs) =
     (let entries = filter (\<lambda>e. qe_request_id e \<in> set (bg_request_ids g)) es in
      if bg_eligible g \<and> sel \<in> set (bg_request_ids g) \<and> length entries \<ge> 2
      then Some entries else first_group es sel gs)"

definition find_batch_group ::
  "BatchAnalyzer \<Rightarrow> (nat \<Rightarrow> string) \<Rightarrow> bool \<Rightarrow> string \<Rightarrow> RequestQueue \<Rightarrow> QueueEntry list option" where
  "find_batch_group an uuid enabled sel q =
     (if \<not> enabled then None
      else first_group (q_deque q) sel
             (ba_groups (analyze an uuid (build_batch_candidates q) enabled)))"

text \<open>A future is \<open>Some None\<close> while pending and \<open>Some (Some v)\<close> once resolved with \<open>v\<close>. The
  entries are returned in order; the second component says which received a new future.\<close>

definition claim_batch_entries :: "QueueEntry list \<Rightarrow> QueueEntry list \<times> bool list" where
  "claim_batch_entries es =
     (map (\<lambda>e. if qe_batch_claimed e then e
               else e\<lparr>qe_batch_claimed := True, qe_batch_result_future := Some None\<rparr>) es,
      map (\<lambda>e. \<not> qe_batch_claimed e) es)"

definition resolve_batch_results ::
  "QueueEntry list \<Rightarrow> (string \<times> pyval) list \<Rightarrow> QueueEntry list" where
  "resolve_batch_results es results =
     map (\<lambda>e. case qe_batch_result_future e of
                None \<Rightarrow> e
              | Some (Some v) \<Rightarrow> e
              | Some None \<Rightarrow>
                  e\<lparr>qe_batch_result_future :=
                      Some (Some (case map_of (rev results) (qe_request_id e) of
                                    None \<Rightarrow> PNone | Some r \<Rightarrow> r))\<rparr>) es"

section \<open>Queue operations\<close>

definition is_expired :: "real \<Rightarrow> QueueEntry option \<Rightarrow> bool" where
  "is_expired now e =
     (case e of
        None \<Rightarrow> False
      | Some e \<Rightarrow> (case qe_deadline_at e of None \<Rightarrow> False | Some d \<Rightarrow> now \<ge> d))"

fun remove_entry :: "string \<Rightarrow> QueueEntry list \<Rightarrow> QueueEntry option \<times> QueueEntry list" where
  "remove_entry rid [] = (None, [])"
| "remove_entry rid (e # es) =
     (if qe_request_id e = rid then (Some e, es)
      else case remove_entry rid es of (r, es') \<Rightarrow> (r, e # es'))"

definition queue_remove :: "string \<Rightarrow> RequestQueue \<Rightarrow> QueueEntry option \<times> RequestQueue" where
  "queue_remove rid q =
     (case remove_entry rid (q_deque q) of
        (None, _) \<Rightarrow> (None, q)
      | (Some e, es) \<Rightarrow>
          (Some e, q\<lparr>q_deque := es, q_scheduler := remove_request rid (q_scheduler q)\<rparr>))"

definition timeout_entry :: "QueueEntry \<Rightarrow> RequestQueue \<Rightarrow> RequestQueue" where
  "timeout_entry e q = snd (queue_remove (qe_request_id e) q)"

definition stamp_deadline :: "real \<Rightarrow> real \<Rightarrow> QueueEntry \<Rightarrow> QueueEntry" where
  "stamp_deadline now timeout_seconds e =
     (case qe_deadline_at e of
        None \<Rightarrow> e\<lparr>qe_deadline_at := Some (now + timeout_seconds)\<rparr>
      | Some _ \<Rightarrow> e)"

definition enqueue :: "real \<Rightarrow> real \<Rightarrow> QueueEntry \<Rightarrow> RequestQueue \<Rightarrow> RequestQueue" where
  "enqueue now timeout_seconds e q =
     q\<lparr>q_deque := q_deque q @ [stamp_deadline now timeout_seconds e]\<rparr>"

definition dequeue :: "RequestQueue \<Rightarrow> QueueEntry option \<times> RequestQueue" where
  "dequeue q =
     (case q_deque q of
        [] \<Rightarrow> (None, q)
      | e # es \<Rightarrow>
          (Some e, q\<lparr>q_deque := es,
                     q_scheduler := remove_request (qe_request_id e) (q_scheduler q)\<rparr>))"

definition peek :: "RequestQueue \<Rightarrow> QueueEntry option" where
  "peek q = (case q_deque q of [] \<Rightarrow> None | e # _ \<Rightarrow> Some e)"

definition oldest_age_ms :: "real \<Rightarrow> RequestQueue \<Rightarrow> real" where
  "oldest_age_ms now q =
     (case peek q of None \<Rightarrow> 0 | Some e \<Rightarrow> (now - qe_enqueued_at e) * 1000)"

definition notify_capacity :: "RequestQueue \<Rightarrow> RequestQueue" where
  "notify_capacity q = q\<lparr>q_capacity_event := True\<rparr>"

definition clear_capacity_signal :: "RequestQueue \<Rightarrow> RequestQueue" where
  "clear_capacity_signal q = q\<lparr>q_capacity_event := False\<rparr>"

text \<open>\<open>{e.request_id: e for e in self._deque}\<close>.\<close>

definition by_id :: "RequestQueue \<Rightarrow> string \<Rightarrow> QueueEntry option" where
  "by_id q k = map_of (rev (map (\<lambda>e. (qe_request_id e, e)) (q_deque q))) k"

text \<open>The no-op decision, recorded so that observers see it.\<close>

definition decline :: "environ \<Rightarrow> SchedulerCandidate list \<Rightarrow> RequestQueue \<Rightarrow> RequestQueue" where
  "decline env cs q = q\<lparr>q_scheduler := snd (choose_next env cs False (q_scheduler q))\<rparr>"

definition select_and_dequeue ::
  "environ \<Rightarrow> real \<Rightarrow> bool \<Rightarrow> (QueueEntry \<Rightarrow> bool) \<Rightarrow> (QueueEntry \<Rightarrow> 's \<Rightarrow> 's) \<Rightarrow> RequestQueue \<Rightarrow> 's
   \<Rightarrow> QueueEntry option \<times> RequestQueue \<times> 's" where
  "select_and_dequeue env now capacity_available entry_eligible reserve q s =
     (let candidates = build_candidates q in
      if candidates = [] then (None, q, s)
      else if \<not> capacity_available then (None, decline env candidates q, s)
      else
        let live = filter (\<lambda>c. \<not> is_expired now (by_id q (cand_request_id c))) candidates in
        if live = [] then (None, decline env candidates q, s)
        else
          let eligible = filter (\<lambda>c. case by_id q (cand_request_id c) of
                                       None \<Rightarrow> False | Some e \<Rightarrow> entry_eligible e) live in
          if eligible = [] then (None, decline env live q, s)
          else
            case choose_next env eligible True (q_scheduler q) of (decision, sch) \<Rightarrow>
              let q = q\<lparr>q_scheduler := sch\<rparr> in
              (case dec_request_id decision of
                 None \<Rightarrow> (None, q, s)
               | Some rid \<Rightarrow>
                   (case queue_remove rid q of
                      (None, q) \<Rightarrow> (None, q, s)
                    | (Some selected, q) \<Rightarrow>
                        (Some (mark_granted selected), q, reserve selected s))))"

section \<open>Waiting\<close>

text \<open>
  What one pass through the loop of \<open>wait_for_execution\<close> comes to: the caller executes
  (\<open>W_TRUE\<close>), gives up (\<open>W_FALSE\<close>), or blocks until the next signal, after which the capacity
  event is left alone (\<open>W_RETRY\<close>, the \<open>continue\<close> branch) or cleared (\<open>W_POLL\<close>).
\<close>

datatype wait_outcome = W_TRUE | W_FALSE | W_RETRY | W_POLL

definition wait_iteration ::
  "environ \<Rightarrow> real \<Rightarrow> real \<Rightarrow> real \<Rightarrow> bool \<Rightarrow> bool \<Rightarrow> (QueueEntry \<Rightarrow> bool)
   \<Rightarrow> (QueueEntry \<Rightarrow> 's \<Rightarrow> 's) \<Rightarrow> QueueEntry \<Rightarrow> RequestQueue \<Rightarrow> 's
   \<Rightarrow> wait_outcome \<times> QueueEntry option \<times> RequestQueue \<times> 's" where
  "wait_iteration env t0 t1 t2 cancelled capacity_available entry_eligible reserve entry q s =
     (let rid = qe_request_id entry in
      if cancelled then (W_FALSE, None, snd (queue_remove rid q), s)
      else if qe_granted entry then
        (if is_expired t0 (Some entry) then (W_FALSE, None, snd (queue_remove rid q), s)
         else (W_TRUE, None, q, s))
      else if (case peek q of None \<Rightarrow> False | Some front \<Rightarrow> qe_request_id front = rid)
              \<and> capacity_available then
        (case select_and_dequeue env t1 capacity_available entry_eligible reserve q s of
           (selected, q, s) \<Rightarrow>
             (if (case selected of None \<Rightarrow> False | Some e \<Rightarrow> qe_request_id e = rid)
              then (W_TRUE, selected, q, s)
              else if is_expired t2 (Some entry) then (W_FALSE, selected, timeout_entry entry q, s)
              else (W_RETRY, selected, q, s)))
      else if (case qe_deadline_at entry of None \<Rightarrow> False | Some d \<Rightarrow> d - t2 \<le> 0)
      then (W_FALSE, None, timeout_entry entry q, s)
      else (W_POLL, None, q, s))"

text \<open>What the caller does to the capacity event when it wakes.\<close>

definition on_wake :: "wait_outcome \<Rightarrow> RequestQueue \<Rightarrow> RequestQueue" where
  "on_wake w q = (if w = W_POLL then clear_capacity_signal q else q)"

section \<open>Invariant and lemmas\<close>

abbreviation queued_ids :: "RequestQueue \<Rightarrow> string list" where
  "queued_ids q \<equiv> map qe_request_id (q_deque q)"

definition queue_ok :: "RequestQueue \<Rightarrow> bool" where
  "queue_ok q \<longleftrightarrow>
     distinct (queued_ids q)
   \<and> list_all (\<lambda>e. \<not> qe_granted e \<and> qe_deadline_at e \<noteq> None) (q_deque q)"

lemma queue_ok_new [simp]: "queue_ok new_queue"
  by (simp add: queue_ok_def new_queue_def)

lemma remove_entry_absent: "k \<notin> set (map qe_request_id es) \<Longrightarrow> remove_entry k es = (None, es)"
  by (induction es) auto

lemma remove_entry_present: "k \<in> set (map qe_request_id es) \<Longrightarrow> \<exists>e es'. remove_entry k es = (Some e, es')"
  by (induction es) (force split: prod.splits)+

lemma remove_entry_Some:
  "remove_entry k es = (Some e, es') \<Longrightarrow>
     \<exists>xs ys. es = xs @ e # ys \<and> es' = xs @ ys \<and> qe_request_id e = k \<and> k \<notin> set (map qe_request_id xs)"
proof (induction es arbitrary: es')
  case Nil
  then show ?case by simp
next
  case (Cons a es)
  show ?case
  proof (cases "qe_request_id a = k")
    case True
    then show ?thesis using Cons.prems by (intro exI[of _ "[]"] exI[of _ es]) auto
  next
    case False
    then obtain es'' where "remove_entry k es = (Some e, es'')" "es' = a # es''"
      using Cons.prems by (auto split: prod.splits)
    then obtain xs ys where "es = xs @ e # ys \<and> es'' = xs @ ys \<and> qe_request_id e = k \<and> k \<notin> set (map qe_request_id xs)"
      using Cons.IH by blast
    then show ?thesis using \<open>es' = a # es''\<close> False
      by (intro exI[of _ "a # xs"] exI[of _ ys]) simp
  qed
qed

lemma queue_remove_None: "queue_remove k q = (None, q') \<longleftrightarrow> k \<notin> set (queued_ids q) \<and> q' = q"
  using remove_entry_absent[of k "q_deque q"] remove_entry_present[of k "q_deque q"]
  by (cases "k \<in> set (queued_ids q)") (auto simp: queue_remove_def)

lemma queue_remove_Some:
  assumes "queue_remove k q = (Some e, q')"
  obtains xs ys where "q_deque q = xs @ e # ys" "q_deque q' = xs @ ys" "qe_request_id e = k"
    "q_capacity_event q' = q_capacity_event q"
proof -
  obtain es where es: "remove_entry k (q_deque q) = (Some e, es)"
      "q' = q\<lparr>q_deque := es, q_scheduler := remove_request k (q_scheduler q)\<rparr>"
    using assms by (auto simp: queue_remove_def split: prod.splits option.splits)
  obtain xs ys where xy: "q_deque q = xs @ e # ys" "es = xs @ ys" "qe_request_id e = k"
    using remove_entry_Some[OF es(1)] by blast
  show thesis by (rule that[of xs ys]) (use es xy in auto)
qed

lemma queue_remove_deque:
  "queue_ok q \<Longrightarrow> q_deque (snd (queue_remove k q)) = filter (\<lambda>e. qe_request_id e \<noteq> k) (q_deque q)"
proof (cases "queue_remove k q")
  case (Pair r q')
  assume ok: "queue_ok q"
  show ?thesis
  proof (cases r)
    case None
    then have "q' = q" and "k \<notin> set (queued_ids q)" using Pair queue_remove_None by auto
    then have "filter (\<lambda>e. qe_request_id e \<noteq> k) (q_deque q) = q_deque q"
      by (intro filter_True) auto
    then show ?thesis using Pair \<open>q' = q\<close> by simp
  next
    case (Some e)
    then obtain xs ys where xy: "q_deque q = xs @ e # ys" "q_deque q' = xs @ ys" "qe_request_id e = k"
      using Pair queue_remove_Some by blast
    have "k \<notin> set (map qe_request_id (xs @ ys))" using ok xy by (auto simp: queue_ok_def)
    then have "filter (\<lambda>e. qe_request_id e \<noteq> k) (xs @ ys) = xs @ ys"
      by (intro filter_True) auto
    then show ?thesis using Pair xy by simp
  qed
qed

lemma queue_ok_filter: "queue_ok q \<Longrightarrow> q_deque q' = filter P (q_deque q) \<Longrightarrow> queue_ok q'"
  by (auto simp: queue_ok_def list_all_iff distinct_map_filter)

lemma queue_ok_remove [inv_intros]: "queue_ok q \<Longrightarrow> queue_ok (snd (queue_remove k q))"
  by (rule queue_ok_filter[OF _ queue_remove_deque])

lemma queue_ok_deque: "q_deque q' = q_deque q \<Longrightarrow> queue_ok q' = queue_ok q"
  by (simp add: queue_ok_def)

lemma decline_deque [simp]: "q_deque (decline env cs q) = q_deque q"
  by (simp add: decline_def)

lemma stamp_deadline_id [simp]:
  "qe_request_id (stamp_deadline t w e) = qe_request_id e"
  "qe_granted (stamp_deadline t w e) = qe_granted e" "qe_lane (stamp_deadline t w e) = qe_lane e"
  "qe_lane_max_concurrent (stamp_deadline t w e) = qe_lane_max_concurrent e"
  "\<exists>d. qe_deadline_at (stamp_deadline t w e) = Some d"
  by (auto simp: stamp_deadline_def split: option.split)

lemma stamp_deadline_idem [simp]: "stamp_deadline t w (stamp_deadline t' w' e) = stamp_deadline t' w' e"
  by (simp add: stamp_deadline_def split: option.split)

lemma queue_ok_enqueue [inv_intros]:
  "queue_ok q \<Longrightarrow> qe_request_id e \<notin> set (queued_ids q) \<Longrightarrow> \<not> qe_granted e \<Longrightarrow> queue_ok (enqueue t w e q)"
  by (simp add: queue_ok_def enqueue_def)

lemma mark_granted_sel [simp]:
  "qe_request_id (mark_granted e) = qe_request_id e" "qe_granted (mark_granted e)"
  "qe_lane (mark_granted e) = qe_lane e" "qe_deadline_at (mark_granted e) = qe_deadline_at e"
  "qe_lane_max_concurrent (mark_granted e) = qe_lane_max_concurrent e"
  by (simp_all add: mark_granted_def)

lemma by_id_Some: "by_id q k = Some e \<Longrightarrow> e \<in> set (q_deque q) \<and> qe_request_id e = k"
  unfolding by_id_def by (auto dest: map_of_SomeD)

lemma by_id_entry: "queue_ok q \<Longrightarrow> e \<in> set (q_deque q) \<Longrightarrow> by_id q (qe_request_id e) = Some e"
  unfolding by_id_def queue_ok_def
  by (rule map_of_is_SomeI) (auto simp: rev_map[symmetric] comp_def)

lemma candidate_id:
  "c \<in> set (build_candidates q) \<Longrightarrow> cand_request_id c \<in> set (queued_ids q)"
  by (auto simp: build_candidates_def)

text \<open>The candidates that reach the scheduler: neither expired nor bound for a full lane.\<close>

definition selectable :: "real \<Rightarrow> (QueueEntry \<Rightarrow> bool) \<Rightarrow> RequestQueue \<Rightarrow> SchedulerCandidate list" where
  "selectable now elig q =
     filter (\<lambda>c. case by_id q (cand_request_id c) of
                   None \<Rightarrow> False | Some e \<Rightarrow> \<not> is_expired now (Some e) \<and> elig e) (build_candidates q)"

lemma selectable_eq:
  "filter (\<lambda>c. case by_id q (cand_request_id c) of None \<Rightarrow> False | Some e \<Rightarrow> elig e)
     (filter (\<lambda>c. \<not> is_expired now (by_id q (cand_request_id c))) (build_candidates q))
   = selectable now elig q"
  unfolding selectable_def filter_filter by (rule filter_cong) (auto split: option.splits)

lemma selectable_in:
  "c \<in> set (selectable now elig q) \<Longrightarrow>
     \<exists>e \<in> set (q_deque q). qe_request_id e = cand_request_id c
        \<and> by_id q (cand_request_id c) = Some e \<and> \<not> is_expired now (Some e) \<and> elig e"
  using by_id_Some[of q "cand_request_id c"] by (auto simp: selectable_def split: option.splits)

lemma selectable_ids:
  assumes "queue_ok q"
  shows "cand_request_id ` set (selectable now elig q) =
     qe_request_id ` {e \<in> set (q_deque q). \<not> is_expired now (Some e) \<and> elig e}" (is "?L = ?R")
proof
  show "?L \<subseteq> ?R" by (force dest!: selectable_in)
  show "?R \<subseteq> ?L"
  proof
    fix k assume "k \<in> ?R"
    then obtain e where e: "e \<in> set (q_deque q)" "\<not> is_expired now (Some e)" "elig e" "k = qe_request_id e"
      by blast
    then obtain c where "c \<in> set (build_candidates q)" "cand_request_id c = k"
      by (force simp: build_candidates_def)
    then show "k \<in> ?L" using e by_id_entry[OF assms e(1)] by (force simp: selectable_def)
  qed
qed

text \<open>A selection either leaves the deque and the caller's state alone, or takes out one entry
  that the scheduler chose among the selectable ones and reserves for it.\<close>

lemma select_cases:
  assumes "queue_ok q"
  obtains
    (none) q' where "select_and_dequeue env now avail elig res q s = (None, q', s)"
      "q_deque q' = q_deque q" "\<not> avail \<or> selectable now elig q = []"
      "q_capacity_event q' = q_capacity_event q"
  | (some) e q' where "select_and_dequeue env now avail elig res q s = (Some (mark_granted e), q', res e s)"
      "avail" "e \<in> set (q_deque q)" "\<not> is_expired now (Some e)" "elig e"
      "q_deque q' = filter (\<lambda>x. qe_request_id x \<noteq> qe_request_id e) (q_deque q)"
      "dec_request_id (fst (choose_next env (selectable now elig q) True (q_scheduler q))) = Some (qe_request_id e)"
      "q_capacity_event q' = q_capacity_event q"
proof (cases "avail \<and> selectable now elig q \<noteq> []")
  case False
  then have "\<exists>q'. select_and_dequeue env now avail elig res q s = (None, q', s) \<and> q_deque q' = q_deque q
      \<and> q_capacity_event q' = q_capacity_event q"
    unfolding select_and_dequeue_def Let_def selectable_eq by (auto simp: decline_def)
  then show ?thesis using none False by blast
next
  case True
  let ?el = "selectable now elig q"
  obtain d sch where d: "choose_next env ?el True (q_scheduler q) = (d, sch)" by fastforce
  obtain k where k: "dec_request_id d = Some k"
    using True choose_next_None[of env ?el True "q_scheduler q"] d by (cases "dec_request_id d") auto
  obtain c where c: "c \<in> set ?el" "cand_request_id c = k"
    using choose_next_Some[of env ?el True "q_scheduler q" k] d k by auto
  obtain e where e: "e \<in> set (q_deque q)" "qe_request_id e = k" "\<not> is_expired now (Some e)" "elig e"
    using selectable_in[OF c(1)] c(2) by auto
  let ?q = "q\<lparr>q_scheduler := sch\<rparr>"
  have ok: "queue_ok ?q" using assms queue_ok_deque[of ?q q] by simp
  obtain e' q' where rm: "queue_remove k ?q = (Some e', q')"
    using e(1,2) queue_remove_None[of k ?q] by (cases "queue_remove k ?q"; cases "fst (queue_remove k ?q)") auto
  then have e'in: "e' \<in> set (q_deque q)" "qe_request_id e' = k" and ev: "q_capacity_event q' = q_capacity_event q"
    by (auto elim!: queue_remove_Some)
  then have "e' = e" using e assms by_id_entry[OF assms] by (metis option.inject)
  have dq: "q_deque q' = filter (\<lambda>x. qe_request_id x \<noteq> k) (q_deque q)"
    using queue_remove_deque[OF ok, of k] rm by simp
  have cand: "build_candidates q \<noteq> []"
    "filter (\<lambda>c. \<not> is_expired now (by_id q (cand_request_id c))) (build_candidates q) \<noteq> []"
    using True by (auto simp: selectable_eq[symmetric] filter_empty_conv)
  have "select_and_dequeue env now avail elig res q s = (Some (mark_granted e), q', res e s)"
    using True cand d k rm \<open>e' = e\<close> unfolding select_and_dequeue_def Let_def selectable_eq by simp
  then show ?thesis
    using True e dq d k ev by (intro some[of e q']) auto
qed

text \<open>The waiter's copy agrees with the queue: an entry that has not been granted is in the deque.\<close>

definition entry_sync :: "QueueEntry \<Rightarrow> RequestQueue \<Rightarrow> bool" where
  "entry_sync e q \<longleftrightarrow> (if qe_granted e then qe_request_id e \<notin> set (queued_ids q) else e \<in> set (q_deque q))"

lemma removed_id: "queue_ok q \<Longrightarrow> k \<notin> set (queued_ids (snd (queue_remove k q)))"
  by (auto simp: queue_remove_deque)

lemma queue_remove_absent: "k \<notin> set (queued_ids q) \<Longrightarrow> queue_remove k q = (None, q)"
  using queue_remove_None by blast

lemma same_entry:
  "queue_ok q \<Longrightarrow> a \<in> set (q_deque q) \<Longrightarrow> b \<in> set (q_deque q) \<Longrightarrow> qe_request_id a = qe_request_id b \<Longrightarrow> a = b"
  using by_id_entry by (metis option.inject)

lemma is_expired_granted [simp]: "is_expired t (Some (mark_granted e)) = is_expired t (Some e)"
  by (simp add: is_expired_def)

text \<open>The ways one pass can go. Only the selection touches the caller's state.\<close>

lemma wait_cases:
  assumes ok: "queue_ok q" and sync: "entry_sync entry q"
  obtains
    (leave) "wait_iteration env t0 t1 t2 canc avail elig res entry q s =
        (W_FALSE, None, snd (queue_remove (qe_request_id entry) q), s)"
      "canc \<or> is_expired t0 (Some entry) \<or> is_expired t2 (Some entry)"
  | (granted) "wait_iteration env t0 t1 t2 canc avail elig res entry q s = (W_TRUE, None, q, s)"
      "\<not> canc" "qe_granted entry" "\<not> is_expired t0 (Some entry)"
  | (self) q' where "wait_iteration env t0 t1 t2 canc avail elig res entry q s =
        (W_TRUE, Some (mark_granted entry), q', res entry s)"
      "\<not> canc" "\<not> qe_granted entry" "\<not> is_expired t1 (Some entry)" "avail" "elig entry"
      "q_deque q' = filter (\<lambda>x. qe_request_id x \<noteq> qe_request_id entry) (q_deque q)"
  | (other) e q' q'' w where "wait_iteration env t0 t1 t2 canc avail elig res entry q s =
        (w, Some (mark_granted e), q'', res e s)"
      "\<not> canc" "\<not> qe_granted entry" "avail" "elig e" "e \<in> set (q_deque q)" "\<not> is_expired t1 (Some e)"
      "qe_request_id e \<noteq> qe_request_id entry"
      "q_deque q' = filter (\<lambda>x. qe_request_id x \<noteq> qe_request_id e) (q_deque q)"
      "(if is_expired t2 (Some entry) then w = W_FALSE \<and> q'' = timeout_entry entry q' else w = W_RETRY \<and> q'' = q')"
  | (wait) w q' where "wait_iteration env t0 t1 t2 canc avail elig res entry q s = (w, None, q', s)"
      "\<not> canc" "\<not> qe_granted entry" "\<not> is_expired t2 (Some entry)" "w = W_RETRY \<or> w = W_POLL"
      "q_deque q' = q_deque q"
  | (expired) q' where "wait_iteration env t0 t1 t2 canc avail elig res entry q s =
        (W_FALSE, None, timeout_entry entry q', s)"
      "\<not> canc" "\<not> qe_granted entry" "is_expired t2 (Some entry)" "q_deque q' = q_deque q"
proof -
  let ?k = "qe_request_id entry"
  let ?W = "wait_iteration env t0 t1 t2 canc avail elig res entry q s"
  let ?front = "(case peek q of None \<Rightarrow> False | Some front \<Rightarrow> qe_request_id front = ?k) \<and> avail"
  have dl: "(case qe_deadline_at entry of None \<Rightarrow> False | Some d \<Rightarrow> d - t2 \<le> 0) = is_expired t2 (Some entry)"
    by (auto simp: is_expired_def split: option.split)
  consider "canc" | "\<not> canc" "qe_granted entry" | "\<not> canc" "\<not> qe_granted entry" "\<not> ?front"
    | "\<not> canc" "\<not> qe_granted entry" "?front" by blast
  then show thesis
  proof cases
    case 1
    then show ?thesis by (intro leave) (simp_all add: wait_iteration_def Let_def)
  next
    case 2
    show ?thesis
    proof (cases "is_expired t0 (Some entry)")
      case True
      with 2 show ?thesis by (intro leave) (simp_all add: wait_iteration_def Let_def)
    next
      case False
      with 2 show ?thesis by (intro granted) (simp_all add: wait_iteration_def Let_def)
    qed
  next
    case 3
    have W: "?W = (if is_expired t2 (Some entry) then (W_FALSE, None, timeout_entry entry q, s) else (W_POLL, None, q, s))"
      by (simp only: wait_iteration_def Let_def dl 3 if_False)
    show ?thesis
    proof (cases "is_expired t2 (Some entry)")
      case True
      with W 3 show ?thesis by (intro expired[of q]) simp_all
    next
      case False
      with W 3 show ?thesis by (intro wait[of W_POLL q]) simp_all
    qed
  next
    case 4
    have ein: "entry \<in> set (q_deque q)" using sync 4(2) by (simp add: entry_sync_def)
    have W: "?W = (case select_and_dequeue env t1 avail elig res q s of (selected, q, s) \<Rightarrow>
             (if (case selected of None \<Rightarrow> False | Some e \<Rightarrow> qe_request_id e = ?k)
              then (W_TRUE, selected, q, s)
              else if is_expired t2 (Some entry) then (W_FALSE, selected, timeout_entry entry q, s)
              else (W_RETRY, selected, q, s)))"
      using 4 unfolding wait_iteration_def Let_def by simp
    show ?thesis
    proof (rule select_cases[OF ok, of env t1 avail elig res s])
      fix q' assume "select_and_dequeue env t1 avail elig res q s = (None, q', s)" "q_deque q' = q_deque q"
      then show ?thesis using W 4 expired[of q'] wait[of W_RETRY q']
        by (cases "is_expired t2 (Some entry)") auto
    next
      fix e q' assume *: "select_and_dequeue env t1 avail elig res q s = (Some (mark_granted e), q', res e s)"
        "avail" "e \<in> set (q_deque q)" "\<not> is_expired t1 (Some e)" "elig e"
        "q_deque q' = filter (\<lambda>x. qe_request_id x \<noteq> qe_request_id e) (q_deque q)"
      show ?thesis
      proof (cases "qe_request_id e = ?k")
        case True
        then have "e = entry" using same_entry[OF ok *(3) ein] by simp
        with True * W 4 show ?thesis by (intro self[of q']) auto
      next
        case False
        let ?x = "is_expired t2 (Some entry)"
        show ?thesis
          by (rule other[of "if ?x then W_FALSE else W_RETRY" e "if ?x then timeout_entry entry q' else q'" q'])
            (use False * W 4 in auto)
      qed
    qed
  qed
qed

section \<open>Slots as an interface\<close>

text \<open>
  What the queue relies on of the state it reserves in: when capacity is reported, fewer than
  \<open>limit\<close> slots are used; when an entry is eligible, its lane has room; a reservation takes at
  most one slot, in the entry's own lane. The theory \<open>Admission\<close> interprets this on the runtime
  state, with \<open>active_capacity_available\<close> as the report and \<open>reserve_capacity\<close> as the reservation.
\<close>

locale execution_slots =
  fixes available :: "'s \<Rightarrow> bool"
    and eligible :: "'s \<Rightarrow> QueueEntry \<Rightarrow> bool"
    and reserve :: "QueueEntry \<Rightarrow> 's \<Rightarrow> 's"
    and used :: "'s \<Rightarrow> nat"
    and lane_used :: "'s \<Rightarrow> string option \<Rightarrow> nat"
    and limit :: nat
    and lane_limit :: "QueueEntry \<Rightarrow> nat option"
  assumes available_below: "available s \<Longrightarrow> used s < limit"
    and eligible_below: "eligible s e \<Longrightarrow> lane_limit e = Some m \<Longrightarrow> lane_used s (qe_lane e) < m"
    and reserve_used: "used (reserve e s) \<le> used s + 1"
    and reserve_lane: "lane_used (reserve e s) l \<le> lane_used s l + of_bool (l = qe_lane e)"
begin

abbreviation select where
  "select env now q s \<equiv> select_and_dequeue env now (available s) (eligible s) reserve q s"

lemma select_within_limit:
  assumes "queue_ok q" and "used s \<le> limit"
  shows "used (snd (snd (select env now q s))) \<le> limit"
proof (rule select_cases[OF assms(1), of env now "available s" "eligible s" reserve s])
  fix e q' assume "select env now q s = (Some (mark_granted e), q', reserve e s)" "available s"
  then show ?thesis using available_below[of s] reserve_used[of e s] by simp
qed (use assms(2) in simp)

lemma select_within_lane_limit:
  assumes "queue_ok q" and "lane_used s l \<le> m"
    and "\<forall>e \<in> set (q_deque q). qe_lane e = l \<longrightarrow> lane_limit e = Some m"
  shows "lane_used (snd (snd (select env now q s))) l \<le> m"
proof (rule select_cases[OF assms(1), of env now "available s" "eligible s" reserve s])
  fix e q' assume *: "select env now q s = (Some (mark_granted e), q', reserve e s)" "eligible s e"
    "e \<in> set (q_deque q)"
  then show ?thesis
    using assms(2,3) eligible_below[OF *(2), of m] reserve_lane[of e s l]
    by (cases "qe_lane e = l") auto
qed (use assms(2) in simp)

end

section \<open>Properties\<close>

lemma selected_in_ids: "e \<in> set (q_deque q) \<Longrightarrow> qe_request_id e \<in> set (queued_ids q)"
  by simp

text \<open>A declined selection leaves a trace in one place only: the scheduler's last decision.\<close>

lemma decline_eq:
  "decline env cs q = q\<lparr>q_scheduler := (q_scheduler q)\<lparr>sch_last_decision :=
     Some \<lparr>dec_request_id = None, dec_policy = scheduler_policy env, dec_reason = CAPACITY_UNAVAILABLE,
           dec_eligible_count = length cs\<rparr>\<rparr>\<rparr>"
  by (simp add: decline_def choose_next_def note_decision_def)

lemma declined_selection:
  assumes "queue_ok q" and "select_and_dequeue env now avail elig res q s = (None, q', s')"
  shows "\<exists>d. q' = q\<lparr>q_scheduler := (q_scheduler q)\<lparr>sch_last_decision := d\<rparr>\<rparr>
           \<and> (case d of None \<Rightarrow> sch_last_decision (q_scheduler q) = None
              | Some x \<Rightarrow> d = sch_last_decision (q_scheduler q)
                         \<or> dec_request_id x = None \<and> dec_reason x = CAPACITY_UNAVAILABLE)"
proof -
  have same: ?thesis if "q' = q"
    using that by (intro exI[of _ "sch_last_decision (q_scheduler q)"]) (simp split: option.split)
  have dec: ?thesis if "q' = decline env cs q" for cs
    using that unfolding decline_eq by (intro exI[of _ "Some _"] conjI) (assumption, simp)
  show ?thesis
  proof (cases "avail \<and> selectable now elig q \<noteq> []")
    case True
    show ?thesis
      by (rule select_cases[OF assms(1), of env now avail elig res s]) (use True assms(2) in simp_all)
  next
    case False
    then show ?thesis
      using assms(2) same dec unfolding select_and_dequeue_def Let_def selectable_eq
      by (auto split: if_splits)
  qed
qed

text \<open>
  C8. A selection is atomic and safe. When it returns an entry, capacity was available, the entry
  was queued, is neither expired nor bound for an ineligible lane, is the one the scheduler chose
  among the live eligible ones, is marked granted, has been reserved for exactly once, and is gone
  from the queue, which keeps all the others in order. When it returns nothing, the caller's
  state, the queued entries (expired ones included), the capacity event and the scheduler's
  counters, bypass counts included, are as before: at most the scheduler's last decision is
  replaced, by one that names no request and gives missing capacity as its reason; and there was
  no capacity or no live eligible entry, so work is never held back while it could run.
\<close>

theorem select_and_dequeue_atomic:
  assumes "queue_ok q"
  shows "case select_and_dequeue env now avail elig reserve q s of
           (Some e, q', s') \<Rightarrow>
             avail \<and> qe_granted e \<and> e\<lparr>qe_granted := False\<rparr> \<in> set (q_deque q)
           \<and> \<not> is_expired now (Some e) \<and> elig (e\<lparr>qe_granted := False\<rparr>)
           \<and> dec_request_id (fst (choose_next env (selectable now elig q) True (q_scheduler q)))
               = Some (qe_request_id e)
           \<and> s' = reserve (e\<lparr>qe_granted := False\<rparr>) s
           \<and> q_deque q' = filter (\<lambda>x. qe_request_id x \<noteq> qe_request_id e) (q_deque q) \<and> queue_ok q'
           \<and> q_capacity_event q' = q_capacity_event q
         | (None, q', s') \<Rightarrow>
             s' = s
           \<and> (\<exists>d. q' = q\<lparr>q_scheduler := (q_scheduler q)\<lparr>sch_last_decision := d\<rparr>\<rparr>
               \<and> (case d of None \<Rightarrow> sch_last_decision (q_scheduler q) = None
                  | Some x \<Rightarrow> d = sch_last_decision (q_scheduler q)
                             \<or> dec_request_id x = None \<and> dec_reason x = CAPACITY_UNAVAILABLE))
           \<and> (\<not> avail \<or> list_all (\<lambda>e. is_expired now (Some e) \<or> \<not> elig e) (q_deque q))"
proof (rule select_cases[OF assms, of env now avail elig reserve s])
  fix q' assume *: "select_and_dequeue env now avail elig reserve q s = (None, q', s)"
    "\<not> avail \<or> selectable now elig q = []"
  have "list_all (\<lambda>e. is_expired now (Some e) \<or> \<not> elig e) (q_deque q)"
    if "selectable now elig q = []"
    using selectable_ids[OF assms, of now elig] that by (auto simp: list_all_iff)
  with * show ?thesis using declined_selection[OF assms *(1)] by auto
next
  fix e q' assume *: "select_and_dequeue env now avail elig reserve q s = (Some (mark_granted e), q', reserve e s)"
    "avail" "e \<in> set (q_deque q)" "\<not> is_expired now (Some e)" "elig e"
    "q_deque q' = filter (\<lambda>x. qe_request_id x \<noteq> qe_request_id e) (q_deque q)"
    "dec_request_id (fst (choose_next env (selectable now elig q) True (q_scheduler q))) = Some (qe_request_id e)"
    "q_capacity_event q' = q_capacity_event q"
  have "\<not> qe_granted e" using assms *(3) by (auto simp: queue_ok_def list_all_iff)
  then have ungrant: "(mark_granted e)\<lparr>qe_granted := False\<rparr> = e" by (simp add: mark_granted_def)
  have "is_expired now (Some (mark_granted e)) = is_expired now (Some e)" by (simp add: is_expired_def)
  then show ?thesis using * ungrant queue_ok_filter[OF assms *(6)] by simp
qed

definition demo_entry :: "string \<Rightarrow> string option \<Rightarrow> real \<Rightarrow> QueueEntry" where
  "demo_entry k lane t =
     stamp_deadline t 30 (new_entry t k (projr (sanitize_chat_request (Ingress (chat_request ''m'' [text_message ''user'' ''hi''])) (Some ''stub''))) None lane (Some 1))"

definition demo_queue :: RequestQueue where
  "demo_queue = new_queue\<lparr>q_deque := [demo_entry ''a'' (Some ''x'') 0, demo_entry ''b'' (Some ''y'') 1]\<rparr>"

lemmas demo_queue_simps =
  demo_queue_def demo_entry_def new_entry_def stamp_deadline_def new_queue_def opt_str_def
  new_scheduler_def

lemma demo_queue_ok: "queue_ok demo_queue"
  by (simp add: queue_ok_def demo_queue_simps)

theorem select_and_dequeue_atomic_witness:
  "\<exists>e q'. select_and_dequeue (\<lambda>_. None) 5 True (\<lambda>e. qe_lane e \<noteq> Some ''x'') (\<lambda>e n. n + (1::nat)) demo_queue 0
            = (Some e, q', 1)
        \<and> qe_request_id e = ''b'' \<and> q_deque q' = [demo_entry ''a'' (Some ''x'') 0]"
proof -
  let ?r = "select_and_dequeue (\<lambda>_. None) 5 True (\<lambda>e. qe_lane e \<noteq> Some ''x'') (\<lambda>e n. n + (1::nat)) demo_queue 0"
  obtain r q' s' where r: "?r = (r, q', s')" by (cases ?r) auto
  note ax = select_and_dequeue_atomic[OF demo_queue_ok, where env = "\<lambda>_. None" and now = 5 and avail = True
      and elig = "\<lambda>e. qe_lane e \<noteq> Some ''x''" and reserve = "\<lambda>e n. n + (1::nat)" and s = 0]
  show ?thesis
  proof (cases r)
    case None
    then show ?thesis using ax r by (simp add: demo_queue_simps is_expired_def)
  next
    case (Some e)
    then have e: "e\<lparr>qe_granted := False\<rparr> \<in> set (q_deque demo_queue)" "qe_lane e \<noteq> Some ''x''" "s' = 1"
      "q_deque q' = filter (\<lambda>x. qe_request_id x \<noteq> qe_request_id e) (q_deque demo_queue)"
      using ax r by simp_all
    have "qe_request_id e = ''b''"
    proof -
      have "e\<lparr>qe_granted := False\<rparr> = demo_entry ''a'' (Some ''x'') 0 \<or> e\<lparr>qe_granted := False\<rparr> = demo_entry ''b'' (Some ''y'') 1"
        using e(1) by (simp add: demo_queue_def)
      then show ?thesis
      proof
        assume "e\<lparr>qe_granted := False\<rparr> = demo_entry ''a'' (Some ''x'') 0"
        from arg_cong[OF this, of qe_lane] show ?thesis using e(2) by (simp add: demo_queue_simps)
      next
        assume "e\<lparr>qe_granted := False\<rparr> = demo_entry ''b'' (Some ''y'') 1"
        from arg_cong[OF this, of qe_request_id] show ?thesis by (simp add: demo_queue_simps)
      qed
    qed
    then show ?thesis using e Some r by (simp add: demo_queue_simps)
  qed
qed

lemma wait_iteration_facts:
  assumes "queue_ok q" and "entry_sync entry q"
    and "wait_iteration env t0 t1 t2 canc avail elig reserve entry q s = (w, sel, q', s')"
  shows "queue_ok q'
   \<and> (w = W_TRUE \<longrightarrow> \<not> canc \<and> (\<not> is_expired t0 (Some entry) \<or> \<not> is_expired t1 (Some entry)))
   \<and> (w \<in> {W_TRUE, W_FALSE} \<longrightarrow> qe_request_id entry \<notin> set (queued_ids q'))
   \<and> (w \<in> {W_RETRY, W_POLL} \<longrightarrow> entry_sync entry q' \<and> \<not> qe_granted entry)
   \<and> filter (\<lambda>e. qe_request_id e \<noteq> qe_request_id entry) (q_deque q') =
       filter (\<lambda>e. qe_request_id e \<noteq> qe_request_id entry
                 \<and> (case sel of None \<Rightarrow> True | Some g \<Rightarrow> qe_request_id e \<noteq> qe_request_id g)) (q_deque q)
   \<and> (is_expired t0 (Some entry) \<and> is_expired t1 (Some entry) \<and> is_expired t2 (Some entry)
        \<longrightarrow> w = W_FALSE)"
proof (rule wait_cases[OF assms(1,2), of env t0 t1 t2 canc avail elig reserve s])
  assume "wait_iteration env t0 t1 t2 canc avail elig reserve entry q s =
        (W_FALSE, None, snd (queue_remove (qe_request_id entry) q), s)"
  then show ?thesis using assms queue_ok_remove[OF assms(1)] removed_id[OF assms(1)]
    by (auto simp: queue_remove_deque)
next
  assume "wait_iteration env t0 t1 t2 canc avail elig reserve entry q s = (W_TRUE, None, q, s)"
    "\<not> canc" "qe_granted entry" "\<not> is_expired t0 (Some entry)"
  then show ?thesis using assms by (auto simp: entry_sync_def)
next
  fix q1 assume "wait_iteration env t0 t1 t2 canc avail elig reserve entry q s =
        (W_TRUE, Some (mark_granted entry), q1, reserve entry s)"
      "\<not> canc" "\<not> is_expired t1 (Some entry)"
      "q_deque q1 = filter (\<lambda>x. qe_request_id x \<noteq> qe_request_id entry) (q_deque q)"
  then show ?thesis using assms queue_ok_filter[OF assms(1), of q1] by auto
next
  fix e q1 q2 w' assume *: "wait_iteration env t0 t1 t2 canc avail elig reserve entry q s =
        (w', Some (mark_granted e), q2, reserve e s)"
      "\<not> qe_granted entry" "qe_request_id e \<noteq> qe_request_id entry"
      "q_deque q1 = filter (\<lambda>x. qe_request_id x \<noteq> qe_request_id e) (q_deque q)"
      "(if is_expired t2 (Some entry) then w' = W_FALSE \<and> q2 = timeout_entry entry q1 else w' = W_RETRY \<and> q2 = q1)"
  have q1: "queue_ok q1" using queue_ok_filter[OF assms(1) *(4)] .
  have "entry \<in> set (q_deque q1)" using assms(2) * by (auto simp: entry_sync_def)
  then show ?thesis using assms(3) * q1 queue_ok_remove[OF q1, of "qe_request_id entry"]
      removed_id[OF q1, of "qe_request_id entry"]
    by (auto simp: timeout_entry_def queue_remove_deque entry_sync_def conj_ac split: if_splits)
next
  fix w' q1 assume "wait_iteration env t0 t1 t2 canc avail elig reserve entry q s = (w', None, q1, s)"
      "\<not> qe_granted entry" "\<not> is_expired t2 (Some entry)" "w' = W_RETRY \<or> w' = W_POLL"
      "q_deque q1 = q_deque q"
  then show ?thesis using assms queue_ok_deque[of q1 q] by (auto simp: entry_sync_def)
next
  fix q1 assume "wait_iteration env t0 t1 t2 canc avail elig reserve entry q s =
        (W_FALSE, None, timeout_entry entry q1, s)" "q_deque q1 = q_deque q"
  moreover from this have "queue_ok q1" using assms(1) queue_ok_deque by blast
  ultimately show ?thesis using assms queue_ok_remove[of q1 "qe_request_id entry"]
      removed_id[of q1 "qe_request_id entry"]
    by (auto simp: timeout_entry_def queue_remove_deque)
qed

text \<open>Whom a pass reserves for: the caller's state changes by exactly the reservation of the
  entry that is granted, and a caller told to execute has either been granted before or been
  reserved for in this pass.\<close>

lemma wait_iteration_reserves:
  assumes "queue_ok q" and "entry_sync entry q"
    and "wait_iteration env t0 t1 t2 canc avail elig reserve entry q s = (w, sel, q', s')"
  shows "(case sel of None \<Rightarrow> s' = s
          | Some g \<Rightarrow> avail \<and> (\<exists>e \<in> set (q_deque q). g = mark_granted e \<and> elig e
                        \<and> \<not> is_expired t1 (Some e) \<and> s' = reserve e s))
   \<and> (w = W_TRUE \<longrightarrow> (if qe_granted entry then sel = None \<and> q' = q \<and> \<not> is_expired t0 (Some entry)
                       else sel = Some (mark_granted entry) \<and> s' = reserve entry s))"
  by (rule wait_cases[OF assms(1,2), of env t0 t1 t2 canc avail elig reserve s])
    (use assms in \<open>auto simp: entry_sync_def split: if_splits\<close>)

text \<open>
  C5. One pass of the waiting loop. The caller is told to execute only when it is not cancelled
  and its deadline had not passed when the grant was checked or made; once it stops waiting, for
  either reason, its entry is gone from the queue; while it goes on waiting its entry is still
  there and not granted, so no request is lost; a request other than the caller's leaves the queue
  only by being granted; and a pass made after the caller's deadline always ends the wait with a
  refusal. The caller's state changes by exactly the reservation of the entry the pass grants, a
  live eligible one; a caller told to execute has been reserved for in this very pass, or held a
  grant, which only a pass that reserved for it can have made.
\<close>

theorem wait_iteration_sound:
  assumes "queue_ok q" and "entry_sync entry q"
    and "wait_iteration env t0 t1 t2 canc avail elig reserve entry q s = (w, sel, q', s')"
  shows "queue_ok q'
   \<and> (w = W_TRUE \<longrightarrow> \<not> canc \<and> (\<not> is_expired t0 (Some entry) \<or> \<not> is_expired t1 (Some entry)))
   \<and> (w \<in> {W_TRUE, W_FALSE} \<longrightarrow> qe_request_id entry \<notin> set (queued_ids q'))
   \<and> (w \<in> {W_RETRY, W_POLL} \<longrightarrow> entry_sync entry q' \<and> \<not> qe_granted entry)
   \<and> filter (\<lambda>e. qe_request_id e \<noteq> qe_request_id entry) (q_deque q') =
       filter (\<lambda>e. qe_request_id e \<noteq> qe_request_id entry
                 \<and> (case sel of None \<Rightarrow> True | Some g \<Rightarrow> qe_request_id e \<noteq> qe_request_id g)) (q_deque q)
   \<and> (is_expired t0 (Some entry) \<and> is_expired t1 (Some entry) \<and> is_expired t2 (Some entry)
        \<longrightarrow> w = W_FALSE)
   \<and> (case sel of None \<Rightarrow> s' = s
      | Some g \<Rightarrow> avail \<and> (\<exists>e \<in> set (q_deque q). g = mark_granted e \<and> elig e
                    \<and> \<not> is_expired t1 (Some e) \<and> s' = reserve e s))
   \<and> (w = W_TRUE \<longrightarrow> (if qe_granted entry then sel = None \<and> q' = q \<and> \<not> is_expired t0 (Some entry)
                       else sel = Some (mark_granted entry) \<and> s' = reserve entry s))"
  using wait_iteration_facts[OF assms] wait_iteration_reserves[OF assms] by blast

lemma demo_fifo: "scheduler_policy (\<lambda>_. None) = FIFO"
  by code_simp

theorem wait_iteration_sound_witness:
  "fst (wait_iteration (\<lambda>_. None) 40 40 40 False True (\<lambda>_. True) (\<lambda>e n. n + (1::nat))
          (demo_entry ''a'' (Some ''x'') 0) demo_queue 0) = W_FALSE
 \<and> (\<exists>q'. wait_iteration (\<lambda>_. None) 5 5 5 False True (\<lambda>_. True) (\<lambda>e n. n + (1::nat))
          (demo_entry ''a'' (Some ''x'') 0) demo_queue 0
        = (W_TRUE, Some (mark_granted (demo_entry ''a'' (Some ''x'') 0)), q', 1))"
proof
  let ?e = "demo_entry ''a'' (Some ''x'') 0"
  let ?W = "\<lambda>t. wait_iteration (\<lambda>_. None) t t t False True (\<lambda>_. True) (\<lambda>e n. n + (1::nat)) ?e demo_queue 0"
  have sync: "entry_sync ?e demo_queue" by (simp add: entry_sync_def demo_queue_simps)
  show "fst (?W 40) = W_FALSE"
  proof -
    obtain w sel q' s' where r: "?W 40 = (w, sel, q', s')" using prod_cases4 by blast
    have "is_expired 40 (Some ?e)" by (simp add: is_expired_def demo_queue_simps)
    moreover have "is_expired 40 (Some ?e) \<longrightarrow> w = W_FALSE"
      using wait_iteration_sound[OF demo_queue_ok sync r] by blast
    ultimately show ?thesis using r by simp
  qed
  obtain w sel q' s' where r: "?W 5 = (w, sel, q', s')" using prod_cases4 by blast
  have w: "w = W_TRUE"
    using r by (simp add: wait_iteration_def select_and_dequeue_def demo_queue_simps peek_def is_expired_def
        build_candidates_def by_id_def Let_def choose_next_def choose_fifo_def note_decision_def py_min_key_def
        demo_fifo queue_remove_def)
  have "\<not> qe_granted ?e" by (simp add: demo_queue_simps)
  then show "\<exists>q'. ?W 5 = (W_TRUE, Some (mark_granted ?e), q', 1)"
    using wait_iteration_sound[OF demo_queue_ok sync r, THEN conjunct2, THEN conjunct2, THEN conjunct2,
        THEN conjunct2, THEN conjunct2, THEN conjunct2] r w by auto
qed

end
