(* ===== verification/Admission.thy ===== *)
theory Admission
  imports Control_Plane Capacity_Controller Runtime_State Request_Queue
begin

text \<open>
  \<open>whooshd/admission.py\<close>: the policy boundary in front of the adapters. Structural rules reject
  first; then the capacity controller decides, and its verdict is translated into an admission
  decision. The shared controller is passed and returned explicitly; \<open>frepr\<close> is \<open>repr\<close> on floats,
  which the cost estimate serializes. A raised \<open>TypeError\<close> is the left injection.

  The last part interprets the interface \<open>execution_slots\<close> of the queue on this theory's
  \<open>active_capacity_available\<close> and the runtime's \<open>reserve_capacity\<close>.
\<close>

section \<open>Vocabulary\<close>

datatype AdmissionDecision =
    AD_ACCEPTED | AD_QUEUED | REJECTED_OVERLOADED | REJECTED_QUEUE_FULL | REJECTED_PROMPT_TOO_LARGE
  | REJECTED_TOO_MANY_MESSAGES | REJECTED_MAX_TOKENS_TOO_HIGH | REJECTED_MODEL_NOT_READY
  | REJECTED_CONTEXT_OVERFLOW

fun AdmissionDecision_value :: "AdmissionDecision \<Rightarrow> string" where
  "AdmissionDecision_value AD_ACCEPTED = ''accepted''"
| "AdmissionDecision_value AD_QUEUED = ''queued''"
| "AdmissionDecision_value REJECTED_OVERLOADED = ''rejected_overloaded''"
| "AdmissionDecision_value REJECTED_QUEUE_FULL = ''rejected_queue_full''"
| "AdmissionDecision_value REJECTED_PROMPT_TOO_LARGE = ''rejected_prompt_too_large''"
| "AdmissionDecision_value REJECTED_TOO_MANY_MESSAGES = ''rejected_too_many_messages''"
| "AdmissionDecision_value REJECTED_MAX_TOKENS_TOO_HIGH = ''rejected_max_tokens_too_high''"
| "AdmissionDecision_value REJECTED_MODEL_NOT_READY = ''rejected_model_not_ready''"
| "AdmissionDecision_value REJECTED_CONTEXT_OVERFLOW = ''rejected_context_overflow''"

record AdmissionResult =
  adm_accepted :: bool
  adm_reason :: AdmissionDecision
  adm_error_code :: "ErrorCode option"
  adm_message :: "string option"
  adm_details :: "(string, pyval) dict"
  adm_http_status :: int

datatype admission_exn = TypeError

section \<open>Helpers\<close>

text \<open>\<open>len(v)\<close>: defined for strings, lists and dictionaries, a \<open>TypeError\<close> otherwise.\<close>

fun py_len :: "pyval \<Rightarrow> admission_exn + int" where
  "py_len (PStr s) = Inr (int (length s))"
| "py_len (PList xs) = Inr (int (length xs))"
| "py_len (PDict d) = Inr (int (length d))"
| "py_len _ = Inl TypeError"

definition part_chars :: "pyval \<Rightarrow> admission_exn + int" where
  "part_chars part =
     (case part of
        PDict d \<Rightarrow>
          (if dget d ''type'' = Some (PStr ''text'')
           then py_len (case dget d ''text'' of None \<Rightarrow> PStr [] | Some v \<Rightarrow> v)
           else Inr 0)
      | _ \<Rightarrow> Inr 0)"

fun parts_chars :: "pyval list \<Rightarrow> int \<Rightarrow> admission_exn + int" where
  "parts_chars [] acc = Inr acc"
| "parts_chars (p # ps) acc =
     (case part_chars p of Inl e \<Rightarrow> Inl e | Inr n \<Rightarrow> parts_chars ps (acc + n))"

fun messages_chars :: "ChatMessage list \<Rightarrow> int \<Rightarrow> admission_exn + int" where
  "messages_chars [] acc = Inr acc"
| "messages_chars (m # ms) acc =
     (case msg_content m of
        CText t \<Rightarrow> messages_chars ms (acc + int (length t))
      | CParts ps \<Rightarrow>
          (case parts_chars ps acc of Inl e \<Rightarrow> Inl e | Inr n \<Rightarrow> messages_chars ms n))"

definition estimade_prompt_chars :: "ChatCompletionRequest \<Rightarrow> admission_exn + int" where
  "estimade_prompt_chars r = messages_chars (req_messages r) 0"

definition memory_pressure_from_runtime :: "RuntimeState \<Rightarrow> MemoryPressureClass" where
  "memory_pressure_from_runtime rt =
     (let v = py_lower (MemoryPressure_value (rt_memory_pressure rt)) in
      if v = ''normal'' then P_NORMAL
      else if v = ''elevated'' then P_ELEVATED
      else if v = ''high'' then P_HIGH
      else if v = ''critical'' then P_CRITICAL
      else P_UNKNOWN)"

definition capacity_context ::
  "RuntimeState \<Rightarrow> int \<Rightarrow> MemoryPressureClass \<Rightarrow> int option \<Rightarrow> RequestCost option \<Rightarrow> ContextBudgets option
   \<Rightarrow> string option \<Rightarrow> int option \<Rightarrow> int \<Rightarrow> CapacityContext" where
  "capacity_context rt max_queue pressure tokens cost budgets lane lane_max lane_active =
     \<lparr>ctx_active_jobs = int (active_jobs rt), ctx_queue_depth = int (queue_depth rt),
      ctx_max_queue_depth = max_queue, ctx_runtime_ready = True, ctx_memory_pressure = pressure,
      ctx_requested_estimated_tokens = tokens, ctx_request_cost = cost,
      ctx_context_budgets = budgets, ctx_lane = lane, ctx_lane_max_concurrent = lane_max,
      ctx_lane_active_jobs = lane_active\<rparr>"

fun ContextDecisionReason_value :: "ContextDecisionReason \<Rightarrow> string" where
  "ContextDecisionReason_value WITHIN_INTERACTIVE = ''within_interactive''"
| "ContextDecisionReason_value WITHIN_RECOMMENDED = ''within_recommended''"
| "ContextDecisionReason_value ABOVE_RECOMMENDED = ''above_recommended''"
| "ContextDecisionReason_value ABOVE_HARD = ''above_hard''"
| "ContextDecisionReason_value ABOVE_INPUT_LIMIT = ''above_input_limit''"
| "ContextDecisionReason_value ABOVE_OUTPUT_LIMIT = ''above_output_limit''"
| "ContextDecisionReason_value NO_BUDGET = ''no_budget''"

fun ContextBudget_value :: "ContextBudget \<Rightarrow> string" where
  "ContextBudget_value CB_HARD = ''hard''"
| "ContextBudget_value CB_RECOMMENDED = ''recommended''"
| "ContextBudget_value CB_INTERACTIVE = ''interactive''"
| "ContextBudget_value CB_MAX_INPUT = ''max_input''"
| "ContextBudget_value CB_MAX_OUTPUT = ''max_output''"

fun CostStatus_value :: "CostStatus \<Rightarrow> string" where
  "CostStatus_value COST_STATUS_EXACT = ''exact''"
| "CostStatus_value COST_STATUS_ESTIMATED = ''estimated''"
| "CostStatus_value COST_STATUS_UNKNOWN = ''unknown''"

fun CapacityDecisionReason_value :: "CapacityDecisionReason \<Rightarrow> string" where
  "CapacityDecisionReason_value BELOW_OPERATOR_CEILING = ''below_operator_ceiling''"
| "CapacityDecisionReason_value CALIBRATED_LIMIT = ''calibrated_limit''"
| "CapacityDecisionReason_value OPERATOR_CEILING = ''operator_ceiling''"
| "CapacityDecisionReason_value MISSING_PROFILE = ''missing_profile''"
| "CapacityDecisionReason_value INVALID_PROFILE = ''invalid_profile''"
| "CapacityDecisionReason_value MEMORY_PRESSURE_HIGH = ''memory_pressure_high''"
| "CapacityDecisionReason_value QUEUE_FULL = ''queue_full''"
| "CapacityDecisionReason_value CONTEXT_OVERFLOW = ''context_overflow''"
| "CapacityDecisionReason_value LANE_CAPACITY = ''lane_capacity''"
| "CapacityDecisionReason_value RUNTIME_NOT_READY = ''runtime_not_ready''"
| "CapacityDecisionReason_value BATCH_ACTIVE_LIMIT_REACHED = ''batch_active_limit_reached''"

fun CapacityMode_value :: "CapacityMode \<Rightarrow> string" where
  "CapacityMode_value FIXED = ''fixed''"
| "CapacityMode_value ADAPTIVE = ''adaptive''"

definition py_opt_int :: "int option \<Rightarrow> pyval" where
  "py_opt_int v = (case v of None \<Rightarrow> PNone | Some n \<Rightarrow> PInt n)"

definition py_opt_budget :: "ContextBudget option \<Rightarrow> pyval" where
  "py_opt_budget v = (case v of None \<Rightarrow> PNone | Some b \<Rightarrow> PStr (ContextBudget_value b))"

text \<open>The context part of the details, shared by the accepting and the queueing result.\<close>

definition context_details :: "RequestCost \<Rightarrow> ContextEvaluation \<Rightarrow> CapacityEvaluation \<Rightarrow> (string, pyval) dict" where
  "context_details cost ce ev =
     [(''estimated_tokens'', PInt (total_tokens cost)),
      (''context_reason'', PStr (ContextDecisionReason_value (ce_reason ce))),
      (''context_cost_is_exact'', PBool (ce_cost_is_exact ce)),
      (''context_cost_status'', PStr (CostStatus_value (ce_cost_status ce))),
      (''context_cost_has_unknown'', PBool (has_unknown_cost cost)),
      (''context_budget'', py_opt_budget (ce_budget ce)),
      (''context_max_input_tokens'', py_opt_int (ce_max_input_tokens ce)),
      (''context_max_output_tokens'', py_opt_int (ce_max_output_tokens ce)),
      (''lane'', opt_str (ev_lane ev)),
      (''lane_max_concurrent'', py_opt_int (ev_lane_max_concurrent ev)),
      (''lane_active_jobs'', PInt (ev_lane_active_jobs ev)),
      (''lane_limited'', PBool (ev_lane_limited ev))]"

definition context_overflow_result :: "RequestCost \<Rightarrow> ContextEvaluation \<Rightarrow> AdmissionResult" where
  "context_overflow_result cost ce =
     \<lparr>adm_accepted = False, adm_reason = REJECTED_CONTEXT_OVERFLOW,
      adm_error_code = Some CONTEXT_OVERFLOW_CODE,
      adm_message = Some (''Request exceeds the model'' @ [char_of (39::nat)] @ ''s hard context budget (''
                          @ py_str_int (total_tokens cost) @ '' tokens).''),
      adm_details =
        [(''estimated_tokens'', PInt (total_tokens cost)),
         (''input_tokens'', PInt (input_tokens cost)),
         (''output_tokens'', PInt (output_tokens cost)),
         (''multimodal_tokens'', PInt (multimodal_tokens cost)),
         (''input_is_exact'', PBool (input_is_exact cost)),
         (''context_reason'', PStr (ContextDecisionReason_value (ce_reason ce))),
         (''context_cost_is_exact'', PBool (ce_cost_is_exact ce)),
         (''context_cost_status'', PStr (CostStatus_value (ce_cost_status ce))),
         (''context_cost_has_unknown'', PBool (has_unknown_cost cost)),
         (''context_budget'', py_opt_budget (ce_budget ce)),
         (''context_breached_budget'', py_opt_budget (ce_breached_budget ce)),
         (''hard_max_tokens'', py_opt_int (ce_hard_max_tokens ce)),
         (''recommended_max_tokens'', py_opt_int (ce_recommended_max_tokens ce)),
         (''interactive_max_tokens'', py_opt_int (ce_interactive_max_tokens ce)),
         (''context_max_input_tokens'', py_opt_int (ce_max_input_tokens ce)),
         (''context_max_output_tokens'', py_opt_int (ce_max_output_tokens ce))],
      adm_http_status = 422\<rparr>"

definition resolve_context_budgets ::
  "environ \<Rightarrow> host \<Rightarrow> controller \<Rightarrow> string option \<Rightarrow> ContextBudgets option \<times> controller" where
  "resolve_context_budgets env h c model_id = context_budgets env h c model_id"

section \<open>Admission\<close>

definition reject :: "AdmissionDecision \<Rightarrow> ErrorCode \<Rightarrow> string \<Rightarrow> (string, pyval) dict \<Rightarrow> int \<Rightarrow> AdmissionResult" where
  "reject reason code msg details status =
     \<lparr>adm_accepted = False, adm_reason = reason, adm_error_code = Some code, adm_message = Some msg,
      adm_details = details, adm_http_status = status\<rparr>"

text \<open>The translation of the controller's verdict.\<close>

definition admission_of_verdict ::
  "environ \<Rightarrow> RuntimeState \<Rightarrow> RequestCost \<Rightarrow> ContextEvaluation \<Rightarrow> CapacityEvaluation \<Rightarrow> AdmissionResult" where
  "admission_of_verdict env rt cost ce ev =
     (let max_active = get_max_active_requests env;
          max_queue = get_max_queue_depth env;
          capacity_details =
            [(''capacity_reason'', PStr (CapacityDecisionReason_value (ev_reason ev))),
             (''capacity_mode'', PStr (CapacityMode_value (ev_mode ev))),
             (''effective_active_limit'', PInt (ev_effective_active_limit ev))];
          queue_details =
            [(''active_jobs'', PInt (int (active_jobs rt))), (''max_active_requests'', PInt max_active),
             (''queue_depth'', PInt (int (queue_depth rt))), (''max_queue_depth'', PInt max_queue)]
      in
      if ev_action ev = RUN then
        \<lparr>adm_accepted = True, adm_reason = AD_ACCEPTED, adm_error_code = None, adm_message = None,
         adm_details = context_details cost ce ev, adm_http_status = 200\<rparr>
      else if ev_action ev = REJECT then
        (if ev_reason ev = CONTEXT_OVERFLOW then context_overflow_result cost ce
         else if ev_reason ev = RUNTIME_NOT_READY
         then reject REJECTED_MODEL_NOT_READY MODEL_UNAVAILABLE ''Runtime is not ready.''
                [(''capacity_reason'', PStr (CapacityDecisionReason_value (ev_reason ev)))] 503
         else reject REJECTED_QUEUE_FULL QUEUE_FULL_CODE
                (''Whoosh'' @ [char_of (39::nat)] @ ''d is at capacity and the queue is full (depth ''
                 @ show_nat (queue_depth rt) @ ''/'' @ py_str_int max_queue @ '').'')
                (queue_details @ capacity_details) 429)
      else if \<not> get_enable_queue env then
        reject REJECTED_OVERLOADED RUNNER_OVERLOADED
          (''Whoosh'' @ [char_of (39::nat)] @ ''d is at its active request limit ('' @ py_str_int max_active @ '').'')
          ([(''active_jobs'', PInt (int (active_jobs rt))), (''max_active_requests'', PInt max_active)]
           @ capacity_details) 429
      else
        \<lparr>adm_accepted = False, adm_reason = AD_QUEUED, adm_error_code = None, adm_message = None,
         adm_details = queue_details @ capacity_details @ context_details cost ce ev,
         adm_http_status = 202\<rparr>)"

definition evaluate_chat_request ::
  "(real \<Rightarrow> string) \<Rightarrow> environ \<Rightarrow> host \<Rightarrow> controller \<Rightarrow> ChatCompletionRequest \<Rightarrow> RuntimeState
   \<Rightarrow> string option \<Rightarrow> int option \<Rightarrow> string option \<Rightarrow> admission_exn + AdmissionResult \<times> controller" where
  "evaluate_chat_request frepr env h c r rt lane lane_max model_id =
     (let max_msgs = get_max_messages env;
          n_msgs = int (length (req_messages r)) in
      if n_msgs > max_msgs then
        Inr (reject REJECTED_TOO_MANY_MESSAGES INVALID_REQUEST
               (''Too many messages: '' @ py_str_int n_msgs @ '' (max '' @ py_str_int max_msgs @ '').'')
               [(''message_count'', PInt n_msgs), (''max_messages'', PInt max_msgs)] 400, c)
      else
        case estimade_prompt_chars r of
          Inl e \<Rightarrow> Inl e
        | Inr prompt_chars \<Rightarrow>
            (let max_chars = get_max_prompt_chars env in
             if prompt_chars > max_chars then
               Inr (reject REJECTED_PROMPT_TOO_LARGE CONTEXT_OVERFLOW_CODE
                      (''Prompt too large: ~'' @ py_str_int prompt_chars @ '' chars estimated (max ''
                       @ py_str_int max_chars @ '').'')
                      [(''estimated_chars'', PInt prompt_chars), (''max_prompt_chars'', PInt max_chars)] 400, c)
             else
               let max_tok = get_max_request_max_tokens env in
               if req_max_tokens r \<noteq> None \<and> the (req_max_tokens r) > max_tok then
                 Inr (reject REJECTED_MAX_TOKENS_TOO_HIGH INVALID_REQUEST
                        (''max_tokens '' @ py_str_int (the (req_max_tokens r)) @ '' exceeds server cap ''
                         @ py_str_int max_tok @ ''.'')
                        [(''request_max_tokens'', PInt (the (req_max_tokens r))), (''server_cap'', PInt max_tok)] 400, c)
               else
                 case context_budgets env h c model_id of (budgets, c1) \<Rightarrow>
                 let cost = estimate_request_cost frepr r None
                              (case budgets of None \<Rightarrow> None | Some b \<Rightarrow> multimodal_token_estimate b)
                              (get_default_max_tokens env);
                     ce = evaluate_context cost budgets;
                     lane_active = (if str_true lane then int (active_jobs_for_lane rt lane) else 0)
                 in case evaluate env h c1
                           (capacity_context rt (get_max_queue_depth env) (memory_pressure_from_runtime rt)
                              (Some (total_tokens cost)) (Some cost) budgets lane lane_max lane_active)
                    of (ev, c2) \<Rightarrow> Inr (admission_of_verdict env rt cost ce ev, c2)))"

definition active_capacity_available ::
  "environ \<Rightarrow> host \<Rightarrow> controller \<Rightarrow> RuntimeState \<Rightarrow> string option \<Rightarrow> int option \<Rightarrow> bool \<times> controller" where
  "active_capacity_available env h c rt lane lane_max =
     (case effective_active_limit env h c (memory_pressure_from_runtime rt) of (limit, c') \<Rightarrow>
        (if int (active_jobs rt) \<ge> limit then False
         else if lane_max \<noteq> None \<and> str_true lane
                 \<and> int (active_jobs_for_lane rt lane) \<ge> max (the lane_max) 1 then False
         else True, c'))"

section \<open>Lemmas\<close>

lemma admission_of_verdict_reason:
  "adm_reason (admission_of_verdict env rt cost ce ev) =
     (if ev_action ev = RUN then AD_ACCEPTED
      else if ev_action ev = REJECT then
        (if ev_reason ev = CONTEXT_OVERFLOW then REJECTED_CONTEXT_OVERFLOW
         else if ev_reason ev = RUNTIME_NOT_READY then REJECTED_MODEL_NOT_READY
         else REJECTED_QUEUE_FULL)
      else if \<not> get_enable_queue env then REJECTED_OVERLOADED else AD_QUEUED)"
  by (simp add: admission_of_verdict_def reject_def context_overflow_result_def Let_def)

text \<open>The context the controller decides on, with the budgets and the cost that go into it.\<close>

definition request_budgets :: "environ \<Rightarrow> host \<Rightarrow> controller \<Rightarrow> string option \<Rightarrow> ContextBudgets option" where
  "request_budgets env h c model_id = fst (context_budgets env h c model_id)"

definition request_cost ::
  "(real \<Rightarrow> string) \<Rightarrow> environ \<Rightarrow> ContextBudgets option \<Rightarrow> ChatCompletionRequest \<Rightarrow> RequestCost" where
  "request_cost frepr env budgets r =
     estimate_request_cost frepr r None
       (case budgets of None \<Rightarrow> None | Some b \<Rightarrow> multimodal_token_estimate b) (get_default_max_tokens env)"

definition request_context ::
  "(real \<Rightarrow> string) \<Rightarrow> environ \<Rightarrow> host \<Rightarrow> controller \<Rightarrow> ChatCompletionRequest \<Rightarrow> RuntimeState
   \<Rightarrow> string option \<Rightarrow> int option \<Rightarrow> string option \<Rightarrow> CapacityContext" where
  "request_context frepr env h c r rt lane lane_max model_id =
     (let budgets = request_budgets env h c model_id; cost = request_cost frepr env budgets r in
      capacity_context rt (get_max_queue_depth env) (memory_pressure_from_runtime rt)
        (Some (total_tokens cost)) (Some cost) budgets lane lane_max
        (if str_true lane then int (active_jobs_for_lane rt lane) else 0))"

definition structurally_valid :: "environ \<Rightarrow> ChatCompletionRequest \<Rightarrow> bool" where
  "structurally_valid env r \<longleftrightarrow>
     int (length (req_messages r)) \<le> get_max_messages env
   \<and> (\<exists>n. estimade_prompt_chars r = Inr n \<and> n \<le> get_max_prompt_chars env)
   \<and> (case req_max_tokens r of None \<Rightarrow> True | Some n \<Rightarrow> n \<le> get_max_request_max_tokens env)"

lemma context_budgets_snd: "snd (context_budgets env h c m) = snd (get_profile env h c)"
  by (auto simp: context_budgets_def Let_def split: prod.splits option.splits)

lemma limit_after_get_profile:
  "fst (effective_active_limit env h (snd (get_profile env h c)) p) = fst (effective_active_limit env h c p)"
  using effective_active_limit_stable[of env h c p] by (simp only: profile_status_snd)

lemma evaluate_chat_request_capacity:
  assumes "structurally_valid env r"
  shows "\<exists>ev c'. evaluate env h (snd (get_profile env h c)) (request_context frepr env h c r rt lane lane_max m) = (ev, c')
     \<and> evaluate_chat_request frepr env h c r rt lane lane_max m =
         Inr (admission_of_verdict env rt (request_cost frepr env (request_budgets env h c m) r)
                (evaluate_context (request_cost frepr env (request_budgets env h c m) r) (request_budgets env h c m)) ev, c')"
proof -
  obtain n where n: "estimade_prompt_chars r = Inr n" "n \<le> get_max_prompt_chars env"
    "int (length (req_messages r)) \<le> get_max_messages env"
    "\<not> (req_max_tokens r \<noteq> None \<and> the (req_max_tokens r) > get_max_request_max_tokens env)"
    using assms by (auto simp: structurally_valid_def split: option.splits)
  obtain b c1 where b: "context_budgets env h c m = (b, c1)" by fastforce
  then have c1: "c1 = snd (get_profile env h c)" using context_budgets_snd[of env h c m] by simp
  have bb: "request_budgets env h c m = b" using b by (simp add: request_budgets_def)
  obtain ev c' where ev: "evaluate env h c1 (request_context frepr env h c r rt lane lane_max m) = (ev, c')"
    by fastforce
  have "evaluate_chat_request frepr env h c r rt lane lane_max m =
         Inr (admission_of_verdict env rt (request_cost frepr env b r)
                (evaluate_context (request_cost frepr env b r) b) ev, c')"
    using n ev unfolding evaluate_chat_request_def Let_def b request_context_def bb request_cost_def
    by (cases "req_max_tokens r"; simp split del: if_split)
  then show ?thesis using ev bb c1 by blast
qed

lemma evaluate_chat_request_structural:
  "\<not> structurally_valid env r \<Longrightarrow>
     (case evaluate_chat_request frepr env h c r rt lane lane_max m of
        Inl e \<Rightarrow> estimade_prompt_chars r = Inl e
      | Inr (a, c') \<Rightarrow> c' = c \<and> \<not> adm_accepted a
          \<and> adm_reason a \<in> {REJECTED_TOO_MANY_MESSAGES, REJECTED_PROMPT_TOO_LARGE, REJECTED_MAX_TOKENS_TOO_HIGH})"
  by (auto simp: structurally_valid_def evaluate_chat_request_def Let_def reject_def
      split: sum.splits option.splits if_splits)

lemma request_context_sel [simp]:
  "ctx_active_jobs (request_context frepr env h c r rt lane lm m) = int (active_jobs rt)"
  "ctx_runtime_ready (request_context frepr env h c r rt lane lm m)"
  "ctx_queue_depth (request_context frepr env h c r rt lane lm m) = int (queue_depth rt)"
  "ctx_max_queue_depth (request_context frepr env h c r rt lane lm m) = get_max_queue_depth env"
  "ctx_memory_pressure (request_context frepr env h c r rt lane lm m) = memory_pressure_from_runtime rt"
  by (simp_all add: request_context_def capacity_context_def Let_def)

lemma lane_available_request:
  "lane_available (request_context frepr env h c r rt lane lm m) \<longleftrightarrow>
     (case lm of None \<Rightarrow> True
      | Some n \<Rightarrow> (if str_true lane then int (active_jobs_for_lane rt lane) else 0) < max n 1)"
  by (simp add: lane_available_def request_context_def capacity_context_def Let_def split: option.split)

text \<open>The memory signal of the runtime never reads as high.\<close>

lemma memory_pressure_never_high: "memory_pressure_from_runtime rt \<noteq> P_HIGH"
proof -
  have "py_lower (MemoryPressure_value p) \<noteq> ''high''" for p
    by (cases p) (simp_all add: py_lower_def char_lower_def is_upper_def)
  then show ?thesis by (simp add: memory_pressure_from_runtime_def Let_def)
qed

lemma accepted_iff_run:
  assumes "structurally_valid env r"
    and "evaluate_chat_request frepr env h c r rt lane lm m = Inr (a, c')"
  shows "adm_accepted a = (adm_reason a = AD_ACCEPTED)"
    and "adm_reason a = AD_ACCEPTED \<longleftrightarrow>
      decide env (request_context frepr env h c r rt lane lm m)
        (fst (effective_active_limit env h c (memory_pressure_from_runtime rt))) = RUN"
    and "adm_reason a = AD_QUEUED \<longleftrightarrow>
      get_enable_queue env \<and> decide env (request_context frepr env h c r rt lane lm m)
        (fst (effective_active_limit env h c (memory_pressure_from_runtime rt))) = QUEUE"
proof -
  let ?ctx = "request_context frepr env h c r rt lane lm m"
  obtain ev where ev: "fst (evaluate env h (snd (get_profile env h c)) ?ctx) = ev"
    and a: "a = admission_of_verdict env rt (request_cost frepr env (request_budgets env h c m) r)
                (evaluate_context (request_cost frepr env (request_budgets env h c m) r) (request_budgets env h c m)) ev"
    using evaluate_chat_request_capacity[OF assms(1), of h c frepr rt lane lm m] assms(2) by auto
  have act: "ev_action ev = decide env ?ctx
        (fst (effective_active_limit env h c (memory_pressure_from_runtime rt)))"
    using evaluate_action[of env h "snd (get_profile env h c)" ?ctx] ev
    by (simp add: limit_after_get_profile)
  show "adm_accepted a = (adm_reason a = AD_ACCEPTED)"
    unfolding a by (simp add: admission_of_verdict_def Let_def reject_def context_overflow_result_def)
  show "adm_reason a = AD_ACCEPTED \<longleftrightarrow> decide env ?ctx
        (fst (effective_active_limit env h c (memory_pressure_from_runtime rt))) = RUN"
    unfolding a admission_of_verdict_reason act by simp
  show "adm_reason a = AD_QUEUED \<longleftrightarrow> get_enable_queue env \<and> decide env ?ctx
        (fst (effective_active_limit env h c (memory_pressure_from_runtime rt))) = QUEUE"
    unfolding a admission_of_verdict_reason act
    by (cases "decide env ?ctx (fst (effective_active_limit env h c (memory_pressure_from_runtime rt)))") simp_all
qed

lemma overflow_iff_context:
  assumes "structurally_valid env r"
    and "evaluate_chat_request frepr env h c r rt lane lm m = Inr (a, c')"
  shows "(adm_reason a = REJECTED_CONTEXT_OVERFLOW) = context_over (request_context frepr env h c r rt lane lm m)"
proof -
  let ?ctx = "request_context frepr env h c r rt lane lm m"
  obtain ev where ev: "fst (evaluate env h (snd (get_profile env h c)) ?ctx) = ev"
    and a: "a = admission_of_verdict env rt (request_cost frepr env (request_budgets env h c m) r)
                (evaluate_context (request_cost frepr env (request_budgets env h c m) r) (request_budgets env h c m)) ev"
    using evaluate_chat_request_capacity[OF assms(1), of h c frepr rt lane lm m] assms(2) by auto
  have "(ev_action ev = REJECT \<and> ev_reason ev = CONTEXT_OVERFLOW) = context_over ?ctx"
    using evaluate_overflow[of env h "snd (get_profile env h c)" ?ctx] ev by simp
  then show ?thesis unfolding a admission_of_verdict_reason by auto
qed

section \<open>The runtime as a pool of execution slots\<close>

definition entry_lane_limit :: "QueueEntry \<Rightarrow> nat option" where
  "entry_lane_limit e =
     (if str_true (qe_lane e) then map_option (\<lambda>n. nat (max n 1)) (qe_lane_max_concurrent e) else None)"

definition reserve_entry :: "QueueEntry \<Rightarrow> RuntimeState \<Rightarrow> RuntimeState" where
  "reserve_entry e rt = snd (reserve_capacity (qe_request_id e) (qe_lane e) rt)"

definition capacity_now :: "environ \<Rightarrow> host \<Rightarrow> controller \<Rightarrow> RuntimeState \<Rightarrow> bool" where
  "capacity_now env h c rt = fst (active_capacity_available env h c rt None None)"

definition lane_open :: "environ \<Rightarrow> host \<Rightarrow> controller \<Rightarrow> RuntimeState \<Rightarrow> QueueEntry \<Rightarrow> bool" where
  "lane_open env h c rt e =
     fst (active_capacity_available env h c rt (qe_lane e) (qe_lane_max_concurrent e))"

interpretation slots: execution_slots
  "capacity_now env h c" "lane_open env h c" reserve_entry active_jobs active_jobs_for_lane
  "nat (operator_ceiling env)" entry_lane_limit
  for env h c
proof
  show "active_jobs rt < nat (operator_ceiling env)" if "capacity_now env h c rt" for rt
    using that effective_active_limit_bounds(2)[of env h c "memory_pressure_from_runtime rt"]
    by (auto simp: capacity_now_def active_capacity_available_def split: prod.splits if_splits)
  show "active_jobs_for_lane rt (qe_lane e) < n"
    if "lane_open env h c rt e" "entry_lane_limit e = Some n" for rt e n
    using that by (auto simp: lane_open_def active_capacity_available_def entry_lane_limit_def
        split: prod.splits if_splits)
  show "active_jobs (reserve_entry e rt) \<le> active_jobs rt + 1" for e rt
    by (simp add: reserve_entry_def reserve_active_jobs)
  show "active_jobs_for_lane (reserve_entry e rt) l \<le> active_jobs_for_lane rt l + of_bool (l = qe_lane e)" for e rt l
    by (simp add: reserve_entry_def reserve_active_jobs)
qed

section \<open>Properties\<close>

definition has_slot ::
  "environ \<Rightarrow> host \<Rightarrow> controller \<Rightarrow> RuntimeState \<Rightarrow> string option \<Rightarrow> int option \<Rightarrow> bool" where
  "has_slot env h c rt lane lm \<longleftrightarrow>
     int (active_jobs rt) < fst (effective_active_limit env h c (memory_pressure_from_runtime rt))
   \<and> (case lm of None \<Rightarrow> True
      | Some n \<Rightarrow> (if str_true lane then int (active_jobs_for_lane rt lane) else 0) < max n 1)"

definition fits_context ::
  "(real \<Rightarrow> string) \<Rightarrow> environ \<Rightarrow> host \<Rightarrow> controller \<Rightarrow> ChatCompletionRequest \<Rightarrow> string option \<Rightarrow> bool" where
  "fits_context frepr env h c r m =
     (\<not> ce_over_limit (evaluate_context (request_cost frepr env (request_budgets env h c m) r)
                        (request_budgets env h c m)))"

lemma context_over_request:
  "context_over (request_context frepr env h c r rt lane lm m) = (\<not> fits_context frepr env h c r m)"
proof (cases "request_budgets env h c m")
  case None
  then show ?thesis
    by (simp add: context_over_def context_eval_def request_context_def capacity_context_def
        fits_context_def evaluate_context_def Let_def)
next
  case (Some b)
  then show ?thesis
    by (simp add: context_over_def context_eval_def context_cost_def request_context_def
        capacity_context_def fits_context_def Let_def)
qed

lemma decide_request:
  assumes "l = fst (effective_active_limit env h c (memory_pressure_from_runtime rt))"
  shows "decide env (request_context frepr env h c r rt lane lm m) l =
     (if \<not> fits_context frepr env h c r m then REJECT
      else if has_slot env h c rt lane lm then RUN
      else if int (queue_depth rt) < get_max_queue_depth env then QUEUE else REJECT)"
  using memory_pressure_never_high[of rt] assms
  by (simp add: decide_def context_over_request memory_denied_def has_slot_def lane_available_request)

text \<open>The answer a result carries, and the answers the branches give.\<close>

definition adm_answer :: "AdmissionResult \<Rightarrow> AdmissionDecision \<times> bool \<times> ErrorCode option \<times> int" where
  "adm_answer a = (adm_reason a, adm_accepted a, adm_error_code a, adm_http_status a)"

lemma adm_answer_reject [simp]: "adm_answer (reject d code msg ds n) = (d, False, Some code, n)"
  by (simp add: adm_answer_def reject_def)

lemma admission_of_verdict_answer:
  "adm_answer (admission_of_verdict env rt cost ce ev) =
     (if ev_action ev = RUN then (AD_ACCEPTED, True, None, 200)
      else if ev_action ev = REJECT then
        (if ev_reason ev = CONTEXT_OVERFLOW then (REJECTED_CONTEXT_OVERFLOW, False, Some CONTEXT_OVERFLOW_CODE, 422)
         else if ev_reason ev = RUNTIME_NOT_READY then (REJECTED_MODEL_NOT_READY, False, Some MODEL_UNAVAILABLE, 503)
         else (REJECTED_QUEUE_FULL, False, Some QUEUE_FULL_CODE, 429))
      else if \<not> get_enable_queue env then (REJECTED_OVERLOADED, False, Some RUNNER_OVERLOADED, 429)
      else (AD_QUEUED, False, None, 202))"
  by (simp add: admission_of_verdict_def Let_def) (simp add: adm_answer_def context_overflow_result_def)

lemma capacity_answer:
  assumes "structurally_valid env r"
  shows "\<exists>a c'. evaluate_chat_request frepr env h c r rt lane lm m = Inr (a, c')
     \<and> adm_answer a =
        (if \<not> fits_context frepr env h c r m
         then (REJECTED_CONTEXT_OVERFLOW, False, Some CONTEXT_OVERFLOW_CODE, 422)
         else if has_slot env h c rt lane lm then (AD_ACCEPTED, True, None, 200)
         else if int (queue_depth rt) \<ge> get_max_queue_depth env
         then (REJECTED_QUEUE_FULL, False, Some QUEUE_FULL_CODE, 429)
         else if \<not> get_enable_queue env then (REJECTED_OVERLOADED, False, Some RUNNER_OVERLOADED, 429)
         else (AD_QUEUED, False, None, 202))"
proof -
  let ?ctx = "request_context frepr env h c r rt lane lm m" and ?c = "snd (get_profile env h c)"
  obtain ev c' where ev: "evaluate env h ?c ?ctx = (ev, c')"
    and a: "evaluate_chat_request frepr env h c r rt lane lm m =
         Inr (admission_of_verdict env rt (request_cost frepr env (request_budgets env h c m) r)
                (evaluate_context (request_cost frepr env (request_budgets env h c m) r) (request_budgets env h c m)) ev, c')"
    using evaluate_chat_request_capacity[OF assms, of h c frepr rt lane lm m] by blast
  have act: "ev_action ev = decide env ?ctx
        (fst (effective_active_limit env h c (memory_pressure_from_runtime rt)))"
    using evaluate_action[of env h ?c ?ctx] ev by (simp add: limit_after_get_profile)
  have over: "(ev_action ev = REJECT \<and> ev_reason ev = CONTEXT_OVERFLOW) = (\<not> fits_context frepr env h c r m)"
    using evaluate_overflow[of env h ?c ?ctx] ev by (simp add: context_over_request)
  have ready: "ev_reason ev \<noteq> RUNTIME_NOT_READY"
    using evaluate_reason_not_ready[of ?ctx env h ?c] ev by simp
  show ?thesis
    using a over ready act[unfolded decide_request[OF refl]]
    by (auto simp: admission_of_verdict_answer split: if_splits)
qed

text \<open>
  C4. The answer of admission on every branch: the decision, whether the request is accepted, the
  error code and the status. The message count is checked first, then the prompt's characters
  (whose count may raise), then the requested tokens; each of these refuses without asking the
  controller, whose profile cache stays as it is. A structurally valid request that exceeds the
  context budget is a context overflow however idle the runner; one that fits is accepted exactly
  when both the global limit and its lane have room; otherwise a full queue is reported before a
  disabled one, and only a request that finds the queue enabled and not full is queued.
\<close>

theorem admission_decision:
  "if int (length (req_messages r)) > get_max_messages env then
     \<exists>a. evaluate_chat_request frepr env h c r rt lane lm m = Inr (a, c)
        \<and> adm_answer a = (REJECTED_TOO_MANY_MESSAGES, False, Some INVALID_REQUEST, 400)
   else case estimade_prompt_chars r of
     Inl e \<Rightarrow> evaluate_chat_request frepr env h c r rt lane lm m = Inl e
   | Inr n \<Rightarrow>
       if n > get_max_prompt_chars env then
         \<exists>a. evaluate_chat_request frepr env h c r rt lane lm m = Inr (a, c)
            \<and> adm_answer a = (REJECTED_PROMPT_TOO_LARGE, False, Some CONTEXT_OVERFLOW_CODE, 400)
       else if (case req_max_tokens r of None \<Rightarrow> False | Some k \<Rightarrow> k > get_max_request_max_tokens env) then
         \<exists>a. evaluate_chat_request frepr env h c r rt lane lm m = Inr (a, c)
            \<and> adm_answer a = (REJECTED_MAX_TOKENS_TOO_HIGH, False, Some INVALID_REQUEST, 400)
       else \<exists>a c'. evaluate_chat_request frepr env h c r rt lane lm m = Inr (a, c')
         \<and> adm_answer a =
            (if \<not> fits_context frepr env h c r m
             then (REJECTED_CONTEXT_OVERFLOW, False, Some CONTEXT_OVERFLOW_CODE, 422)
             else if has_slot env h c rt lane lm then (AD_ACCEPTED, True, None, 200)
             else if int (queue_depth rt) \<ge> get_max_queue_depth env
             then (REJECTED_QUEUE_FULL, False, Some QUEUE_FULL_CODE, 429)
             else if \<not> get_enable_queue env then (REJECTED_OVERLOADED, False, Some RUNNER_OVERLOADED, 429)
             else (AD_QUEUED, False, None, 202))"
proof (cases "structurally_valid env r")
  case True
  then show ?thesis
    using capacity_answer[OF True, of frepr h c rt lane lm m]
    by (auto simp: structurally_valid_def split: option.splits)
next
  case False
  then show ?thesis
    by (auto simp: structurally_valid_def evaluate_chat_request_def Let_def
        split: sum.splits option.splits)
qed

text \<open>
  The memory-pressure denial of the controller is dead in admission: the runtime's signal has
  the values low, normal, warning and critical, of which the translation recognises normal and
  critical only, so no admission ever sees the pressure class HIGH and no verdict carries the
  reason MEMORY_PRESSURE_HIGH.
\<close>

lemma memory_pressure_denial_unreachable:
  "memory_pressure_from_runtime rt \<in> {P_UNKNOWN, P_NORMAL, P_CRITICAL}
   \<and> ev_reason (fst (evaluate env h c' (request_context frepr env h c r rt lane lm m))) \<noteq> MEMORY_PRESSURE_HIGH"
proof
  show "memory_pressure_from_runtime rt \<in> {P_UNKNOWN, P_NORMAL, P_CRITICAL}"
    by (cases "rt_memory_pressure rt")
      (simp_all add: memory_pressure_from_runtime_def py_lower_def char_lower_def is_upper_def)
  show "ev_reason (fst (evaluate env h c' (request_context frepr env h c r rt lane lm m))) \<noteq> MEMORY_PRESSURE_HIGH"
    by (rule evaluate_reason_not_high) (simp add: memory_pressure_never_high)
qed

end
