(* ===== verification/Registry.thy ===== *)
theory Registry
  imports Config Contracts
begin

text \<open>
  \<open>whooshd/registry.py\<close> and the registry cache of \<open>whooshd/runtime/__init__.py\<close>: the model
  descriptors, the cross-field rules, the loader, and \<open>RuntimeState._load_registry\<close>.

  The file system, the YAML parser and pydantic's \<open>model_validate\<close> are arguments of the loader:
  a path has a \<open>registry_file\<close>, \<open>safe_load\<close> answers \<open>None\<close> for a \<open>YAMLError\<close>, and
  \<open>model_validate\<close> answers \<open>None\<close> for a \<open>ValidationError\<close>. What the loader relies on of
  \<open>model_validate\<close> is that the entries it builds meet the constraints declared on the fields;
  that is \<open>validator_obeys\<close>.
\<close>

section \<open>Descriptors\<close>

datatype EngineType = ENGINE_MLX_LM | ENGINE_MLX_VLM | ENGINE_LLAMA_CPP

fun EngineType_value :: "EngineType \<Rightarrow> string" where
  "EngineType_value ENGINE_MLX_LM = ''mlx_lm''"
| "EngineType_value ENGINE_MLX_VLM = ''mlx_vlm''"
| "EngineType_value ENGINE_LLAMA_CPP = ''llama_cpp''"

definition vision_capable :: "EngineType list" where
  "vision_capable = [ENGINE_MLX_VLM]"

definition text_capable :: "EngineType list" where
  "text_capable = [ENGINE_MLX_LM, ENGINE_MLX_VLM, ENGINE_LLAMA_CPP]"

datatype ModelFormat = FORMAT_MLX | FORMAT_GGUF

datatype ModelModality = MODALITY_TEXT | MODALITY_VISION | MODALITY_EMBEDDING

datatype WarmPolicy = COLD | WARM_ON_START | WARM_ON_FIRST_USE | KEEP_WARM

datatype HardwareAffinity =
    HW_APPLE_SILICON | HW_METAL | HW_CUDA | HW_HIP | HW_VULKAN | HW_CPU | HW_AUTO

record RegistryModelEntry =
  ent_display_name :: string
  ent_engine :: EngineType
  ent_format :: ModelFormat
  ent_path :: string
  ent_modalities :: "ModelModality list"
  ent_context_window :: int
  ent_preferred_hardware :: "HardwareAffinity list"
  ent_warm_policy :: WarmPolicy
  ent_priority :: string
  ent_enabled :: bool
  ent_tags :: "string list"

text \<open>The \<open>Field\<close> constraints and the field validator of the entry.\<close>

definition entry_fields_valid :: "RegistryModelEntry \<Rightarrow> bool" where
  "entry_fields_valid e \<longleftrightarrow>
     ent_display_name e \<noteq> [] \<and> ent_path e \<noteq> [] \<and> ent_modalities e \<noteq> []
   \<and> 0 < ent_context_window e \<and> ent_preferred_hardware e \<noteq> []"

definition has_modality :: "RegistryModelEntry \<Rightarrow> ModelModality \<Rightarrow> bool" where
  "has_modality e m = (m \<in> set (ent_modalities e))"

definition is_vision_capable :: "RegistryModelEntry \<Rightarrow> bool" where
  "is_vision_capable e = (MODALITY_VISION \<in> set (ent_modalities e))"

type_synonym ModelRegistryConfig = "(string, RegistryModelEntry) dict"

definition enabled_models :: "ModelRegistryConfig \<Rightarrow> (string \<times> RegistryModelEntry) list" where
  "enabled_models reg = filter (\<lambda>(mid, e). ent_enabled e) reg"

definition registry_get :: "ModelRegistryConfig \<Rightarrow> string \<Rightarrow> RegistryModelEntry option" where
  "registry_get reg model_id = dget reg model_id"

section \<open>Validation\<close>

text \<open>The messages of \<open>RegistryValidationError\<close>, one constructor each, with what they quote.\<close>

datatype registry_problem =
    GGUF_ENGINE EngineType
  | MLX_ENGINE EngineType
  | VISION_ENGINE EngineType
  | CONTEXT_WINDOW int
  | FILE_UNREADABLE
  | INVALID_YAML
  | NO_MODELS_KEY
  | MODELS_NOT_MAPPING

datatype registry_exn =
    RegistryValidationError string registry_problem
  | ValidationError

definition validate_registry_entry :: "string \<Rightarrow> RegistryModelEntry \<Rightarrow> registry_exn option" where
  "validate_registry_entry model_id e =
     (if ent_format e = FORMAT_GGUF \<and> ent_engine e \<noteq> ENGINE_LLAMA_CPP then
        Some (RegistryValidationError model_id (GGUF_ENGINE (ent_engine e)))
      else if ent_format e = FORMAT_MLX \<and> ent_engine e \<notin> {ENGINE_MLX_LM, ENGINE_MLX_VLM} then
        Some (RegistryValidationError model_id (MLX_ENGINE (ent_engine e)))
      else if MODALITY_VISION \<in> set (ent_modalities e) \<and> ent_engine e \<notin> set vision_capable then
        Some (RegistryValidationError model_id (VISION_ENGINE (ent_engine e)))
      else if ent_context_window e \<le> 0 then
        Some (RegistryValidationError model_id (CONTEXT_WINDOW (ent_context_window e)))
      else None)"

fun validate_registry :: "ModelRegistryConfig \<Rightarrow> registry_exn option" where
  "validate_registry [] = None"
| "validate_registry ((model_id, e) # rest) =
     (case validate_registry_entry model_id e of
        Some x \<Rightarrow> Some x
      | None \<Rightarrow> validate_registry rest)"

section \<open>Loading\<close>

datatype registry_file = Absent | Unreadable | Contents string

definition load_model_registry ::
  "(string \<Rightarrow> registry_file) \<Rightarrow> (string \<Rightarrow> pyval option) \<Rightarrow> (pyval \<Rightarrow> ModelRegistryConfig option)
   \<Rightarrow> environ \<Rightarrow> string option \<Rightarrow> registry_exn + ModelRegistryConfig option" where
  "load_model_registry fs safe_load model_validate env path =
     (let resolved_path =
        (case path of
           Some p \<Rightarrow> Some p
         | None \<Rightarrow> (let env_path = env_str env ''WHOOSHD_MODEL_REGISTRY_PATH'' [] in
                    if env_path \<noteq> [] then Some env_path else None))
      in case resolved_path of
           None \<Rightarrow> Inr None
         | Some p \<Rightarrow>
             (case fs p of
                Absent \<Rightarrow> Inr None
              | Unreadable \<Rightarrow> Inl (RegistryValidationError ''<registry>'' FILE_UNREADABLE)
              | Contents raw \<Rightarrow>
                  (case safe_load raw of
                     None \<Rightarrow> Inl (RegistryValidationError ''<registry>'' INVALID_YAML)
                   | Some (PDict d) \<Rightarrow>
                       (case dget d ''models'' of
                          None \<Rightarrow> Inl (RegistryValidationError ''<registry>'' NO_MODELS_KEY)
                        | Some (PDict raw_models) \<Rightarrow>
                            (case model_validate (PDict d) of
                               None \<Rightarrow> Inl ValidationError
                             | Some registry \<Rightarrow>
                                 (case validate_registry registry of
                                    Some x \<Rightarrow> Inl x
                                  | None \<Rightarrow> Inr (Some registry)))
                        | Some _ \<Rightarrow> Inl (RegistryValidationError ''<registry>'' MODELS_NOT_MAPPING))
                   | Some _ \<Rightarrow> Inl (RegistryValidationError ''<registry>'' NO_MODELS_KEY))))"

text \<open>\<open>RuntimeState._registry\<close>: nothing loaded yet or no registry, \<open>False\<close>, or the registry.
  \<open>_load_registry\<close> returns what it stores.\<close>

datatype registry_cache = REG_NONE | REG_FALSE | REG ModelRegistryConfig

definition load_registry ::
  "(string \<Rightarrow> registry_file) \<Rightarrow> (string \<Rightarrow> pyval option) \<Rightarrow> (pyval \<Rightarrow> ModelRegistryConfig option)
   \<Rightarrow> environ \<Rightarrow> registry_cache \<Rightarrow> registry_cache" where
  "load_registry fs safe_load model_validate env cache =
     (if cache \<noteq> REG_NONE then cache
      else
        let explicit = get_model_registry_path env in
        case load_model_registry fs safe_load model_validate env explicit of
          Inl _ \<Rightarrow> REG_FALSE
        | Inr None \<Rightarrow> (if explicit \<noteq> None then REG_FALSE else REG_NONE)
        | Inr (Some reg) \<Rightarrow> REG reg)"

definition has_registry :: "registry_cache \<Rightarrow> bool" where
  "has_registry cache = (case cache of REG reg \<Rightarrow> reg \<noteq> [] | _ \<Rightarrow> False)"

section \<open>Lemmas\<close>

text \<open>What the four rules say together: format and engine agree, vision needs the vision engine.\<close>

definition entry_coherent :: "RegistryModelEntry \<Rightarrow> bool" where
  "entry_coherent e \<longleftrightarrow>
     (ent_format e = FORMAT_GGUF) = (ent_engine e = ENGINE_LLAMA_CPP)
   \<and> (is_vision_capable e \<longrightarrow> ent_engine e = ENGINE_MLX_VLM)
   \<and> 0 < ent_context_window e"

lemma validate_entry_None: "validate_registry_entry m e = None \<longleftrightarrow> entry_coherent e"
  by (cases "ent_format e"; cases "ent_engine e")
    (auto simp: validate_registry_entry_def entry_coherent_def is_vision_capable_def vision_capable_def)

lemma validate_entry_Some: "validate_registry_entry m e = Some x \<Longrightarrow> \<not> entry_coherent e"
  using validate_entry_None[of m e] by simp

lemma validate_registry_None:
  "validate_registry reg = None \<longleftrightarrow> (\<forall>(m, e) \<in> set reg. entry_coherent e)"
  by (induction reg rule: validate_registry.induct)
    (auto simp: validate_entry_None dest: validate_entry_Some split: option.splits)

lemma validate_registry_first:
  "validate_registry reg = Some x \<Longrightarrow>
     \<exists>pre m e post. reg = pre @ (m, e) # post \<and> (\<forall>(_, d) \<in> set pre. entry_coherent d)
       \<and> \<not> entry_coherent e \<and> validate_registry_entry m e = Some x"
proof (induction reg rule: validate_registry.induct)
  case (2 m e rest)
  show ?case
  proof (cases "validate_registry_entry m e")
    case None
    then obtain pre m' e' post where "rest = pre @ (m', e') # post" "\<forall>(_, d) \<in> set pre. entry_coherent d"
      "\<not> entry_coherent e'" "validate_registry_entry m' e' = Some x"
      using 2 by auto
    moreover have "entry_coherent e" using None by (simp add: validate_entry_None)
    ultimately show ?thesis by (intro exI[of _ "(m, e) # pre"]) auto
  next
    case (Some y)
    then have "\<not> entry_coherent e" "x = y" using 2(2) validate_entry_Some by auto
    with Some show ?thesis by (metis append_Nil empty_iff empty_set)
  qed
qed simp

text \<open>A loaded registry is coherent, whatever the parsers answer.\<close>

lemma load_model_registry_Some:
  assumes "load_model_registry fs sl mv env p = Inr (Some reg)"
  shows "\<forall>(m, e) \<in> set reg. entry_coherent e" and "\<exists>d. mv d = Some reg"
proof -
  have "validate_registry reg = None \<and> (\<exists>d. mv d = Some reg)"
    using assms by (auto simp: load_model_registry_def Let_def
        split: option.splits registry_file.splits pyval.splits if_splits)
  then show "\<forall>(m, e) \<in> set reg. entry_coherent e" "\<exists>d. mv d = Some reg"
    by (auto simp: validate_registry_None)
qed

text \<open>Every cache value that \<open>load_registry\<close> produces from a coherent one is coherent.\<close>

definition cache_ok :: "registry_cache \<Rightarrow> bool" where
  "cache_ok cache = (case cache of REG reg \<Rightarrow> (\<forall>(m, e) \<in> set reg. entry_coherent e) | _ \<Rightarrow> True)"

lemma load_registry_ok [inv_intros]:
  "cache_ok cache \<Longrightarrow> cache_ok (load_registry fs sl mv env cache)"
  using load_model_registry_Some(1)[of fs sl mv env "get_model_registry_path env"]
  by (auto simp: load_registry_def cache_ok_def Let_def split: sum.splits option.splits registry_cache.splits)

lemma load_registry_idem:
  "load_registry fs sl mv env cache \<noteq> REG_NONE \<Longrightarrow>
     load_registry fs' sl' mv' env' (load_registry fs sl mv env cache) = load_registry fs sl mv env cache"
  by (simp add: load_registry_def)

text \<open>With an explicit path the answer is never \<open>REG_NONE\<close>: the registry is there, or it is refused.\<close>

lemma load_registry_explicit:
  "get_model_registry_path env \<noteq> None \<Longrightarrow> load_registry fs sl mv env cache \<noteq> REG_NONE"
  by (auto simp: load_registry_def Let_def split: sum.splits option.splits)

end
