(* ===== verification/Routing.thy ===== *)
theory Routing
  imports Registry Correlation
begin

text \<open>
  \<open>whooshd/routing.py\<close>: the router's table of adapters and \<open>resolve_model_runtime\<close>, with
  \<open>safe_model_alias\<close> of \<open>log_safety.py\<close> and the provenance record it feeds.

  An adapter is what the router reads of it: its kind and name, the model identifier it reports
  (which depends on the external path bound in the request's context; an outer \<open>None\<close> stands for
  an exception), its lane ceiling, and the reference to its retained attestation. The lookup in the
  external inventory, a scan of the file system, is an argument: \<open>ext m\<close> is \<open>None\<close> when no route is
  configured or the lookup raises. A resolution has no suspension point, so it is one function.
\<close>

section \<open>Adapters and resolutions\<close>

record Adapter =
  ad_kind :: string
  ad_name :: string
  ad_model_id :: "string option \<Rightarrow> string option option"
  ad_max_concurrent_requests :: "int option"
  ad_supports_streaming :: bool
  ad_batching_capability :: string
  ad_takes_external_path :: bool
  ad_is_loaded :: bool
  ad_attestation :: "string \<Rightarrow> string \<Rightarrow> string option"

record RuntimeResolution =
  res_adapter :: Adapter
  res_requested_model_id :: string
  res_resolution_source :: string
  res_advertised_model_id :: string
  res_resolved_model_id :: string
  res_execution_mode :: string
  res_qualification_attestation :: "string option"
  res_lane :: "string option"
  res_lane_max_concurrent :: "int option"

abbreviation res_kind :: "RuntimeResolution \<Rightarrow> string" where
  "res_kind res \<equiv> ad_kind (res_adapter res)"

abbreviation res_supports_streaming :: "RuntimeResolution \<Rightarrow> bool" where
  "res_supports_streaming res \<equiv> ad_supports_streaming (res_adapter res)"

abbreviation res_batching_capability :: "RuntimeResolution \<Rightarrow> string" where
  "res_batching_capability res \<equiv> ad_batching_capability (res_adapter res)"

definition EXECUTION_MODES :: "(string, string) dict" where
  "EXECUTION_MODES =
     [(RuntimeKind_value STUB, ''stub''), (RuntimeKind_value MLX_LM, ''in_process''),
      (RuntimeKind_value MLX_LM_SERVER, ''managed_sidecar''), (RuntimeKind_value MLX_VLM, ''managed_sidecar''),
      (RuntimeKind_value LLAMA_CPP, ''external_sidecar'')]"

definition execution_mode :: "string \<Rightarrow> string" where
  "execution_mode kind =
     (case dget EXECUTION_MODES kind of Some m \<Rightarrow> m | None \<Rightarrow> ''external_sidecar'')"

definition for_model :: "string \<Rightarrow> RuntimeResolution \<Rightarrow> RuntimeResolution" where
  "for_model model_id res =
     res\<lparr>res_requested_model_id := model_id, res_advertised_model_id := model_id,
         res_qualification_attestation :=
           ad_attestation (res_adapter res) model_id (res_resolved_model_id res)\<rparr>"

section \<open>Provenance\<close>

definition REDACTED :: string where
  "REDACTED = ''<redacted>''"

definition windows_path :: "string \<Rightarrow> bool" where
  "windows_path s = (case s of a # b # c # _ \<Rightarrow> is_alpha a \<and> b = CHR '':'' \<and> (c = CHR 92 \<or> c = CHR ''/'') | _ \<Rightarrow> False)"

definition private_name :: "string \<Rightarrow> bool" where
  "private_name s \<longleftrightarrow>
     s = [] \<or> 128 < length s
   \<or> startswith_any s [''/'', ''~/'', ''./'', ''../'']
   \<or> windows_path s
   \<or> py_contains s ''://'' \<or> py_contains s ''@'' \<or> py_contains s ''?''
   \<or> endswith s ''.gguf'' \<or> endswith s ''.safetensors'' \<or> endswith s ''.bin''
   \<or> startswith_any s [''models/'', ''private/'', ''secret/'']
   \<or> list_ex (\<lambda>c. cp c < 32) s"

definition safe_model_alias :: "string \<Rightarrow> string" where
  "safe_model_alias s = (if private_name s then REDACTED else s)"

record RuntimeProvenance =
  prov_request_id :: "string option"
  prov_upstream_request_id :: "string option"
  prov_requested_model_id :: string
  prov_advertised_model_id :: string
  prov_resolved_model_id :: string
  prov_backend_reported_model_id :: "string option"
  prov_runtime_kind :: string
  prov_adapter_name :: string
  prov_resolution_source :: string
  prov_execution_mode :: string
  prov_streaming :: bool
  prov_queued :: bool
  prov_batched :: bool

definition provenance ::
  "RuntimeResolution \<Rightarrow> string option \<Rightarrow> string option \<Rightarrow> string option \<Rightarrow> bool \<Rightarrow> bool \<Rightarrow> bool
   \<Rightarrow> RuntimeProvenance" where
  "provenance res request_id upstream_request_id backend_reported streaming queued batched =
     \<lparr>prov_request_id = normalize_identifier (opt_str request_id),
      prov_upstream_request_id = normalize_identifier (opt_str upstream_request_id),
      prov_requested_model_id = safe_model_alias (res_requested_model_id res),
      prov_advertised_model_id = safe_model_alias (res_advertised_model_id res),
      prov_resolved_model_id = safe_model_alias (res_resolved_model_id res),
      prov_backend_reported_model_id =
        (case backend_reported of None \<Rightarrow> None | Some m \<Rightarrow> if m = [] then None else Some (safe_model_alias m)),
      prov_runtime_kind = take 64 (res_kind res),
      prov_adapter_name = take 64 (ad_name (res_adapter res)),
      prov_resolution_source = res_resolution_source res,
      prov_execution_mode = res_execution_mode res,
      prov_streaming = streaming, prov_queued = queued, prov_batched = batched\<rparr>"

section \<open>The router\<close>

record RuntimeRouter =
  rr_adapters :: "(string, Adapter) dict"
  rr_model_runtime_map :: "(string, string) dict"

definition new_router :: RuntimeRouter where
  "new_router = \<lparr>rr_adapters = [], rr_model_runtime_map = []\<rparr>"

definition register_adapter :: "Adapter \<Rightarrow> RuntimeRouter \<Rightarrow> RuntimeRouter" where
  "register_adapter a r = r\<lparr>rr_adapters := dset (ad_kind a) a (rr_adapters r)\<rparr>"

definition unregister_adapter :: "string \<Rightarrow> RuntimeRouter \<Rightarrow> RuntimeRouter" where
  "unregister_adapter kind r = r\<lparr>rr_adapters := dpop kind (rr_adapters r), rr_model_runtime_map := []\<rparr>"

definition get_adapter :: "RuntimeRouter \<Rightarrow> string \<Rightarrow> Adapter option" where
  "get_adapter r kind = dget (rr_adapters r) kind"

lemma get_adapter_register [simp]:
  "get_adapter (register_adapter a r) k = (if k = ad_kind a then Some a else get_adapter r k)"
  by (simp add: get_adapter_def register_adapter_def dict_simps)

definition registered_kinds :: "RuntimeRouter \<Rightarrow> string list" where
  "registered_kinds r = dkeys (rr_adapters r)"

text \<open>\<open>_resolution\<close>, with the external path bound in the request's context.\<close>

definition mk_resolution :: "string option \<Rightarrow> Adapter \<Rightarrow> string \<Rightarrow> string \<Rightarrow> RuntimeResolution" where
  "mk_resolution bound a model_id source =
     (let resolved = (case ad_model_id a bound of
                        Some (Some l) \<Rightarrow> if l = [] then model_id else l
                      | _ \<Rightarrow> model_id) in
      \<lparr>res_adapter = a, res_requested_model_id = model_id, res_resolution_source = source,
       res_advertised_model_id = model_id, res_resolved_model_id = resolved,
       res_execution_mode = execution_mode (ad_kind a),
       res_qualification_attestation = ad_attestation a model_id resolved,
       res_lane = Some (take 64 (ad_kind a)),
       res_lane_max_concurrent = ad_max_concurrent_requests a\<rparr>)"

datatype resolution_detail =
    REGISTRY_UNAVAILABLE
  | NOT_ALLOWED
  | MODEL_DISABLED
  | RUNTIME_NOT_ENABLED string
  | ROUTE_UNAVAILABLE
  | NOT_SERVABLE
  | CANNOT_BE_SERVED string
  | EXTERNAL_RUNTIME_MISSING
  | GGUF_WITHOUT_LLAMA_CPP
  | NO_MATCHING_RUNTIME

datatype route_exn = ModelResolutionError string resolution_detail | AdapterRaised

text \<open>\<open>_resolve_external_model\<close>: the adapter and the path bound for the request, if the model is external.\<close>

record external_resolution =
  ext_found :: bool
  ext_servable :: bool
  ext_reason :: "string option"
  ext_runtime :: "string option"
  ext_path :: "string option"

definition external_kind :: "string option \<Rightarrow> string option" where
  "external_kind runtime =
     (if runtime = Some ''llama_cpp'' then Some (RuntimeKind_value LLAMA_CPP)
      else if runtime = Some ''mlx_lm'' then Some (RuntimeKind_value MLX_LM_SERVER)
      else None)"

definition resolve_external_model ::
  "(string \<Rightarrow> external_resolution option) \<Rightarrow> RuntimeRouter \<Rightarrow> string
   \<Rightarrow> route_exn + (Adapter \<times> string option) option" where
  "resolve_external_model ext r model_id =
     (case ext model_id of
        None \<Rightarrow> Inr None
      | Some x \<Rightarrow>
          if \<not> ext_found x then Inr None
          else if \<not> ext_servable x then
            (let reason = (case ext_reason x of None \<Rightarrow> ''not_servable'' | Some s \<Rightarrow> if s = [] then ''not_servable'' else s) in
             if reason = ''route_unavailable'' then Inl (ModelResolutionError model_id ROUTE_UNAVAILABLE)
             else if reason = ''not_servable'' then Inl (ModelResolutionError model_id NOT_SERVABLE)
             else Inl (ModelResolutionError model_id (CANNOT_BE_SERVED reason)))
          else
            (case external_kind (ext_runtime x) of
               None \<Rightarrow> Inl (ModelResolutionError model_id EXTERNAL_RUNTIME_MISSING)
             | Some kind \<Rightarrow>
                 (case dget (rr_adapters r) kind of
                    None \<Rightarrow> Inl (ModelResolutionError model_id EXTERNAL_RUNTIME_MISSING)
                  | Some a \<Rightarrow>
                      Inr (Some (a, if str_true (ext_path x) \<and> ad_takes_external_path a then ext_path x else None)))))"

definition engine_kind :: "EngineType \<Rightarrow> string" where
  "engine_kind e =
     (case e of
        ENGINE_LLAMA_CPP \<Rightarrow> RuntimeKind_value LLAMA_CPP
      | ENGINE_MLX_LM \<Rightarrow> RuntimeKind_value MLX_LM_SERVER
      | ENGINE_MLX_VLM \<Rightarrow> RuntimeKind_value MLX_VLM)"

fun first_loaded :: "string \<Rightarrow> Adapter list \<Rightarrow> route_exn + Adapter option" where
  "first_loaded model_id [] = Inr None"
| "first_loaded model_id (a # as) =
     (case ad_model_id a None of
        None \<Rightarrow> Inl AdapterRaised
      | Some loaded \<Rightarrow>
          if str_true loaded \<and> loaded = Some model_id then Inr (Some a) else first_loaded model_id as)"

text \<open>Steps 2 to 5: by extension, by loaded model, the configured stub, the only runtime.\<close>

definition resolve_heuristic :: "environ \<Rightarrow> RuntimeRouter \<Rightarrow> string \<Rightarrow> route_exn + RuntimeResolution" where
  "resolve_heuristic env r model_id =
     (if endswith model_id ''.gguf'' then
        (case dget (rr_adapters r) (RuntimeKind_value LLAMA_CPP) of
           Some a \<Rightarrow> Inr (mk_resolution None a model_id ''format_heuristic'')
         | None \<Rightarrow> Inl (ModelResolutionError model_id GGUF_WITHOUT_LLAMA_CPP))
      else
        case first_loaded model_id (dvals (rr_adapters r)) of
          Inl e \<Rightarrow> Inl e
        | Inr (Some a) \<Rightarrow> Inr (mk_resolution None a model_id ''loaded_model_match'')
        | Inr None \<Rightarrow>
            (let stub = dget (rr_adapters r) (RuntimeKind_value STUB);
                 non_stub = map snd (filter (\<lambda>(k, a). k \<noteq> RuntimeKind_value STUB) (rr_adapters r)) in
             case (get_adapter_backend env = ''stub'', stub) of
               (True, Some a) \<Rightarrow> Inr (mk_resolution None a model_id ''configured_stub'')
             | _ \<Rightarrow>
                 if length non_stub = 1 then
                   Inr (mk_resolution None (hd non_stub) model_id ''single_runtime_compatibility'')
                 else
                   case stub of
                     Some a \<Rightarrow>
                       if length (rr_adapters r) = 1
                       then Inr (mk_resolution None a model_id ''stub_only_compatibility'')
                       else Inl (ModelResolutionError model_id NO_MATCHING_RUNTIME)
                   | None \<Rightarrow> Inl (ModelResolutionError model_id NO_MATCHING_RUNTIME)))"

definition resolve_unlisted ::
  "environ \<Rightarrow> (string \<Rightarrow> external_resolution option) \<Rightarrow> RuntimeRouter \<Rightarrow> string
   \<Rightarrow> route_exn + RuntimeResolution" where
  "resolve_unlisted env ext r model_id =
     (case resolve_external_model ext r model_id of
        Inl e \<Rightarrow> Inl e
      | Inr (Some (a, bound)) \<Rightarrow> Inr (mk_resolution bound a model_id ''external_route'')
      | Inr None \<Rightarrow> resolve_heuristic env r model_id)"

text \<open>\<open>resolve_model_runtime\<close>, given what \<open>_load_registry\<close> answered.\<close>

definition resolve_model_runtime ::
  "environ \<Rightarrow> (string \<Rightarrow> external_resolution option) \<Rightarrow> registry_cache \<Rightarrow> RuntimeRouter \<Rightarrow> string
   \<Rightarrow> route_exn + RuntimeResolution" where
  "resolve_model_runtime env ext reg r model_id =
     (let authoritative_registry = str_true (get_model_registry_path env) in
      case reg of
        REG models \<Rightarrow>
          (case registry_get models model_id of
             None \<Rightarrow>
               if authoritative_registry then Inl (ModelResolutionError model_id NOT_ALLOWED)
               else resolve_unlisted env ext r model_id
           | Some entry \<Rightarrow>
               if \<not> ent_enabled entry then
                 (if authoritative_registry then Inl (ModelResolutionError model_id MODEL_DISABLED)
                  else resolve_unlisted env ext r model_id)
               else
                 (case dget (rr_adapters r) (engine_kind (ent_engine entry)) of
                    Some a \<Rightarrow> Inr (mk_resolution None a model_id ''authoritative_registry'')
                  | None \<Rightarrow>
                      Inl (ModelResolutionError model_id (RUNTIME_NOT_ENABLED (engine_kind (ent_engine entry))))))
      | _ \<Rightarrow>
          if authoritative_registry then Inl (ModelResolutionError model_id REGISTRY_UNAVAILABLE)
          else resolve_unlisted env ext r model_id)"

section \<open>Lanes\<close>

text \<open>
  A lane is an adapter's kind; its ceiling is what the adapter of that kind declares. Registration
  keys the table by kind, and the kinds of the program are shorter than the 64 characters the lane
  is cut to, so that distinct adapters have distinct lanes.
\<close>

definition kind_ok :: "string \<Rightarrow> bool" where
  "kind_ok k \<longleftrightarrow> k \<noteq> [] \<and> length k \<le> 64"

definition router_ok :: "RuntimeRouter \<Rightarrow> bool" where
  "router_ok r \<longleftrightarrow>
     dict_ok (rr_adapters r) \<and> (\<forall>(k, a) \<in> set (rr_adapters r). k = ad_kind a \<and> kind_ok k)"

definition lane_ceiling :: "RuntimeRouter \<Rightarrow> string \<Rightarrow> int option" where
  "lane_ceiling r lane =
     (case dget (rr_adapters r) lane of None \<Rightarrow> None | Some a \<Rightarrow> ad_max_concurrent_requests a)"

definition route_ok :: "(string \<Rightarrow> int option) \<Rightarrow> RuntimeResolution \<Rightarrow> bool" where
  "route_ok L res \<longleftrightarrow>
     (case res_lane res of None \<Rightarrow> True | Some l \<Rightarrow> l \<noteq> [] \<and> res_lane_max_concurrent res = L l)"

lemma router_ok_new [inv_intros]: "router_ok new_router"
  by (simp add: router_ok_def new_router_def)

lemma set_dset: "dict_ok d \<Longrightarrow> x \<in> set (dset k v d) \<Longrightarrow> x = (k, v) \<or> x \<in> set d"
  by (induction d) (auto split: if_splits)

lemma router_ok_register [inv_intros]:
  "router_ok r \<Longrightarrow> kind_ok (ad_kind a) \<Longrightarrow> router_ok (register_adapter a r)"
  unfolding router_ok_def register_adapter_def by (auto dest: set_dset)

lemma set_dpop: "set (dpop k d) \<subseteq> set d"
  by (auto simp: AList.delete_eq)

lemma router_ok_unregister [inv_intros]: "router_ok r \<Longrightarrow> router_ok (unregister_adapter k r)"
  using set_dpop[of k "rr_adapters r"]
  unfolding router_ok_def unregister_adapter_def by auto

lemma router_ok_dget:
  "router_ok r \<Longrightarrow> dget (rr_adapters r) k = Some a \<Longrightarrow> k = ad_kind a \<and> kind_ok k"
  unfolding router_ok_def by (auto dest: map_of_SomeD)

lemma router_ok_val:
  "router_ok r \<Longrightarrow> a \<in> set (dvals (rr_adapters r)) \<Longrightarrow> dget (rr_adapters r) (ad_kind a) = Some a"
  unfolding router_ok_def by (auto simp: map_of_eq_Some_iff)

text \<open>Whatever branch resolves a model, the adapter is one of the table.\<close>

definition routes_to :: "RuntimeRouter \<Rightarrow> string \<Rightarrow> RuntimeResolution \<Rightarrow> bool" where
  "routes_to r m res \<longleftrightarrow>
     (\<exists>bound a source. a \<in> set (dvals (rr_adapters r)) \<and> res = mk_resolution bound a m source)"

lemma dget_dvals: "dget d k = Some v \<Longrightarrow> v \<in> snd ` set d"
  by (force dest: map_of_SomeD)

lemma first_loaded_mem: "first_loaded m xs = Inr (Some a) \<Longrightarrow> a \<in> set xs"
  by (induction m xs rule: first_loaded.induct) (auto split: option.splits if_splits)

lemma first_loaded_in:
  "first_loaded m (dvals d) = Inr (Some a) \<Longrightarrow> a \<in> snd ` set d"
  using first_loaded_mem[of m "dvals d"] by simp

lemma routes_toI: "(k, a) \<in> set (rr_adapters r) \<Longrightarrow> routes_to r m (mk_resolution bound a m source)"
  unfolding routes_to_def by force

lemma routes_to_val: "a \<in> snd ` set (rr_adapters r) \<Longrightarrow> routes_to r m (mk_resolution bound a m source)"
  by (auto intro: routes_toI)

lemma resolve_heuristic_routes:
  assumes "resolve_heuristic env r m = Inr res" shows "routes_to r m res"
proof -
  let ?ns = "map snd (filter (\<lambda>(k, a). k \<noteq> RuntimeKind_value STUB) (rr_adapters r))"
  have sub: "set ?ns \<subseteq> set (dvals (rr_adapters r))" by auto
  have one: "hd ?ns \<in> set (dvals (rr_adapters r))" if "length ?ns = 1"
  proof -
    have "?ns \<noteq> []" using that by (intro notI) simp
    from subsetD[OF sub hd_in_set[OF this]] show ?thesis .
  qed
  show ?thesis
    using assms one
    by (auto simp: resolve_heuristic_def Let_def intro!: routes_to_val dest: dget_dvals first_loaded_in
        split: if_splits option.splits sum.splits bool.splits)
qed

lemma resolve_unlisted_routes:
  assumes "resolve_unlisted env ext r m = Inr res" shows "routes_to r m res"
proof (cases "resolve_external_model ext r m")
  case (Inr x)
  show ?thesis
  proof (cases x)
    case None
    then show ?thesis using assms Inr by (auto simp: resolve_unlisted_def intro: resolve_heuristic_routes)
  next
    case (Some ab)
    obtain a bound where ab: "ab = (a, bound)" by (cases ab)
    have "a \<in> set (dvals (rr_adapters r))"
      using Inr Some ab
      by (auto simp: resolve_external_model_def Let_def dest: dget_dvals split: option.splits if_splits)
    then show ?thesis using assms Inr Some ab by (auto simp: resolve_unlisted_def intro: routes_toI)
  qed
qed (use assms in \<open>simp add: resolve_unlisted_def\<close>)

lemma resolve_routes:
  assumes "resolve_model_runtime env ext reg r m = Inr res" shows "routes_to r m res"
  using assms
  by (auto simp: resolve_model_runtime_def Let_def intro: resolve_unlisted_routes routes_toI dest: map_of_SomeD
      split: registry_cache.splits option.splits if_splits)

lemma routes_to_route_ok:
  assumes "router_ok r" "routes_to r m res" shows "route_ok (lane_ceiling r) res"
proof -
  obtain bound a source where a: "a \<in> set (dvals (rr_adapters r))" and res: "res = mk_resolution bound a m source"
    using assms(2) unfolding routes_to_def by blast
  have d: "dget (rr_adapters r) (ad_kind a) = Some a" by (rule router_ok_val[OF assms(1) a])
  then have "kind_ok (ad_kind a)" using router_ok_dget[OF assms(1)] by blast
  then show ?thesis using d by (simp add: res route_ok_def mk_resolution_def Let_def lane_ceiling_def kind_ok_def)
qed

text \<open>Under an explicit registry path, the only way to a route is an enabled entry.\<close>

lemma resolve_authoritative:
  assumes "get_model_registry_path env = Some p" "p \<noteq> []"
  shows "resolve_model_runtime env ext reg r m = Inr res \<longleftrightarrow>
      (\<exists>models e a. reg = REG models \<and> registry_get models m = Some e \<and> ent_enabled e
         \<and> get_adapter r (engine_kind (ent_engine e)) = Some a
         \<and> res = mk_resolution None a m ''authoritative_registry'')"
    and "(\<exists>res. resolve_model_runtime env ext reg r m = Inr res)
       \<or> (\<exists>d. resolve_model_runtime env ext reg r m = Inl (ModelResolutionError m d))"
  using assms
  by (cases reg; auto simp: resolve_model_runtime_def Let_def get_adapter_def split: option.splits)+

section \<open>Properties\<close>

text \<open>
  C14. An explicit registry is an allowlist. When the operator has configured a registry path, a
  model resolves exactly when the registry was loaded, lists the model, has it enabled, and the
  adapter of its engine is registered; the route is that adapter's, marked as coming from the
  registry. In every other case the answer is a resolution error, never another adapter and never
  an unrelated exception.
\<close>

theorem authoritative_registry_allowlist:
  assumes "get_model_registry_path env = Some p" "p \<noteq> []"
  shows "(resolve_model_runtime env ext reg r m = Inr res \<longleftrightarrow>
            (\<exists>models e a. reg = REG models \<and> registry_get models m = Some e \<and> ent_enabled e
               \<and> get_adapter r (engine_kind (ent_engine e)) = Some a
               \<and> res = mk_resolution None a m ''authoritative_registry''))
       \<and> ((\<exists>res. resolve_model_runtime env ext reg r m = Inr res)
          \<or> (\<exists>d. resolve_model_runtime env ext reg r m = Inl (ModelResolutionError m d)))"
  by (intro conjI resolve_authoritative[OF assms])

definition demo_adapter :: "string \<Rightarrow> Adapter" where
  "demo_adapter kind =
     \<lparr>ad_kind = kind, ad_name = kind, ad_model_id = (\<lambda>_. Some None), ad_max_concurrent_requests = Some 1,
      ad_supports_streaming = True, ad_batching_capability = ''unsupported'', ad_takes_external_path = True,
      ad_is_loaded = True, ad_attestation = (\<lambda>_ _. None)\<rparr>"

definition demo_router :: RuntimeRouter where
  "demo_router =
     register_adapter (demo_adapter ''mlx_vlm'') (register_adapter (demo_adapter ''stub'') new_router)"

definition demo_entry_vlm :: RegistryModelEntry where
  "demo_entry_vlm =
     \<lparr>ent_display_name = ''v'', ent_engine = ENGINE_MLX_VLM, ent_format = FORMAT_MLX, ent_path = ''p'',
      ent_modalities = [MODALITY_TEXT, MODALITY_VISION], ent_context_window = 4096,
      ent_preferred_hardware = [HW_AUTO], ent_warm_policy = WARM_ON_FIRST_USE, ent_priority = ''general'',
      ent_enabled = True, ent_tags = []\<rparr>"

theorem authoritative_registry_allowlist_witness:
  "resolve_model_runtime ((\<lambda>_. None)(''WHOOSHD_MODEL_REGISTRY_PATH'' \<mapsto> ''r.yaml'')) (\<lambda>_. None)
         (REG [(''vlm'', demo_entry_vlm)]) demo_router ''vlm''
       = Inr (mk_resolution None (demo_adapter ''mlx_vlm'') ''vlm'' ''authoritative_registry'')"
proof -
  let ?env = "(\<lambda>_. None)(''WHOOSHD_MODEL_REGISTRY_PATH'' \<mapsto> ''r.yaml'')"
  have "get_model_registry_path ?env = Some ''r.yaml''"
    by (simp add: get_model_registry_path_def env_str_def nonempty_def)
  from authoritative_registry_allowlist[OF this, of "\<lambda>_. None" "REG [(''vlm'', demo_entry_vlm)]" demo_router "''vlm''"
      "mk_resolution None (demo_adapter ''mlx_vlm'') ''vlm'' ''authoritative_registry''"]
  show ?thesis
    by (simp add: demo_entry_vlm_def demo_router_def demo_adapter_def registry_get_def get_adapter_def
        register_adapter_def new_router_def engine_kind_def)
qed

text \<open>
  Every route is a registered lane: whichever step resolves the model, the adapter is one of the
  table, the lane is its kind, the ceiling is the one it declares, and the requested identifier is
  the caller's. The execution mode is one of the four declared modes.
\<close>

theorem resolution_is_registered_lane:
  assumes "router_ok r" "resolve_model_runtime env ext reg r m = Inr res"
  shows "get_adapter r (res_kind res) = Some (res_adapter res) \<and> res_lane res = Some (res_kind res)
       \<and> res_lane_max_concurrent res = lane_ceiling r (res_kind res) \<and> res_requested_model_id res = m
       \<and> res_execution_mode res \<in> {''stub'', ''in_process'', ''managed_sidecar'', ''external_sidecar''}"
proof -
  obtain bound a source where a: "a \<in> set (dvals (rr_adapters r))" and res: "res = mk_resolution bound a m source"
    using resolve_routes[OF assms(2)] unfolding routes_to_def by blast
  have d: "dget (rr_adapters r) (ad_kind a) = Some a" by (rule router_ok_val[OF assms(1) a])
  then have "kind_ok (ad_kind a)" using router_ok_dget[OF assms(1)] by blast
  then have "take 64 (ad_kind a) = ad_kind a" by (simp add: kind_ok_def)
  moreover have "execution_mode k \<in> {''stub'', ''in_process'', ''managed_sidecar'', ''external_sidecar''}" for k
    by (simp add: execution_mode_def EXECUTION_MODES_def)
  ultimately show ?thesis using d by (simp add: res mk_resolution_def Let_def get_adapter_def lane_ceiling_def)
qed

theorem resolution_is_registered_lane_witness:
  "router_ok demo_router
   \<and> res_lane (mk_resolution None (demo_adapter ''mlx_vlm'') ''m'' ''single_runtime_compatibility'') = Some ''mlx_vlm''"
proof
  show ok: "router_ok demo_router"
    by (simp add: router_ok_def demo_router_def register_adapter_def new_router_def demo_adapter_def kind_ok_def)
  have "resolve_model_runtime ((\<lambda>_. None)(''WHOOSHD_ADAPTER'' \<mapsto> ''mlx'')) (\<lambda>_. None) REG_NONE demo_router ''m''
      = Inr (mk_resolution None (demo_adapter ''mlx_vlm'') ''m'' ''single_runtime_compatibility'')"
    by (simp add: resolve_model_runtime_def get_model_registry_path_def env_str_def nonempty_def
        resolve_unlisted_def resolve_external_model_def resolve_heuristic_def demo_router_def
        register_adapter_def new_router_def demo_adapter_def endswith_def get_adapter_backend_def)
  from resolution_is_registered_lane[OF ok this]
  show "res_lane (mk_resolution None (demo_adapter ''mlx_vlm'') ''m'' ''single_runtime_compatibility'') = Some ''mlx_vlm''"
    by (simp add: mk_resolution_def demo_adapter_def Let_def)
qed

lemma private_name_redacted: "\<not> private_name REDACTED"
  by (simp add: private_name_def REDACTED_def startswith_any_def windows_path_def endswith_def is_alpha_def)

lemma safe_model_alias_public: "\<not> private_name (safe_model_alias s)"
  by (simp add: safe_model_alias_def private_name_redacted)

text \<open>
  Provenance discloses no private name. Whatever model identifiers the caller, the registry and
  the backend supply, each identifier in the provenance record is a public name of at most 128
  characters (no path, URL, credential, weight file or control character), redacting it again
  changes nothing, and both request identifiers conform to the identifier contract.
\<close>

theorem provenance_discloses_public_names:
  "let p = provenance res rid uid reported streaming queued batched in
     \<not> private_name (prov_requested_model_id p) \<and> \<not> private_name (prov_advertised_model_id p)
   \<and> \<not> private_name (prov_resolved_model_id p)
   \<and> (case prov_backend_reported_model_id p of None \<Rightarrow> True | Some m \<Rightarrow> \<not> private_name m)
   \<and> length (prov_requested_model_id p) \<le> 128 \<and> length (prov_resolved_model_id p) \<le> 128
   \<and> safe_model_alias (prov_resolved_model_id p) = prov_resolved_model_id p
   \<and> (case prov_request_id p of None \<Rightarrow> True | Some i \<Rightarrow> safe_identifier_re i)
   \<and> (case prov_upstream_request_id p of None \<Rightarrow> True | Some i \<Rightarrow> safe_identifier_re i)
   \<and> length (prov_runtime_kind p) \<le> 64 \<and> length (prov_adapter_name p) \<le> 64"
proof -
  have len: "length (safe_model_alias s) \<le> 128" for s
    using safe_model_alias_public[of s] unfolding private_name_def by linarith
  have idem: "safe_model_alias (safe_model_alias s) = safe_model_alias s" for s
    using safe_model_alias_public[of s] by (simp add: safe_model_alias_def[of "safe_model_alias s"])
  have ident: "case normalize_identifier v of None \<Rightarrow> True | Some i \<Rightarrow> safe_identifier_re i" for v
    by (auto simp: normalize_identifier_Some split: option.splits)
  show ?thesis
    by (simp add: provenance_def Let_def safe_model_alias_public len idem ident split: option.splits)
qed

end
