(* ===== verification/Broker.thy ===== *)
theory Broker
  imports Admission Routing
begin

text \<open>
  \<open>whooshd/app.py\<close>: the request handlers over the runtime state, the queue and the capacity
  controller. A handler is a coroutine; code between two \<open>await\<close>s runs alone, so each such section
  is one function, and the handlers interleave as the steps of the relation \<open>broker_step\<close>:

    \<^item> \<open>chat_arrival\<close>: \<open>chat_completions\<close> from the resolved route to its first \<open>await\<close>, which is
      the wait in the queue or the adapter call;
    \<^item> \<open>wait_step\<close>: one pass of the waiting loop, with what \<open>chat_completions\<close> does when the wait ends;
    \<^item> \<open>exec_finish\<close>: what the execution helpers do when the adapter returns, raises, or the client
      of a stream goes away;
    \<^item> \<open>generate_arrival\<close>: \<open>generate\<close> up to its adapter call; \<open>cancel_endpoint\<close>: the cancel handler.

  Responses are reduced to a status and an error code. ThreadWake's observation changes no state
  modelled here and is left out. The route (adapter kind, lane, lane ceiling) is an argument: the
  router is asked before the section starts.

  \<open>bk_waiters\<close> holds the coroutines that wait, each with its reference to the queue entry;
  \<open>bk_running\<close> those that are inside an adapter. \<open>bk_dispatched\<close> is the history of the requests
  handed to an adapter; no code reads it.
\<close>

section \<open>State\<close>

record Waiter =
  wt_entry :: QueueEntry
  wt_stream :: bool
  wt_resolution :: RuntimeResolution
  wt_last :: wait_outcome

record Broker =
  bk_rt :: RuntimeState
  bk_queue :: RequestQueue
  bk_ctl :: controller
  bk_waiters :: "(string, Waiter) dict"
  bk_running :: "string list"
  bk_dispatched :: "string list"

definition new_broker :: Broker where
  "new_broker =
     \<lparr>bk_rt = new_runtime, bk_queue = new_queue, bk_ctl = new_controller, bk_waiters = [],
      bk_running = [], bk_dispatched = []\<rparr>"

datatype reply =
    Refused int ErrorCode
  | Waiting string
  | Started string
  | Batched string
  | Acknowledged
  | ServerError

section \<open>Handlers\<close>

text \<open>\<open>_request_has_image_content\<close> and \<open>_adapter_supports_vision\<close>.\<close>

definition request_has_image_content :: "ChatCompletionRequest \<Rightarrow> bool" where
  "request_has_image_content r =
     list_ex (\<lambda>m. case msg_content m of
                    CText _ \<Rightarrow> False
                  | CParts ps \<Rightarrow>
                      list_ex (\<lambda>p. case p of
                                     PDict d \<Rightarrow> dget d ''type'' = Some (PStr ''image_url'')
                                   | _ \<Rightarrow> False) ps) (req_messages r)"

definition adapter_supports_vision :: "string \<Rightarrow> bool" where
  "adapter_supports_vision kind = (kind = RuntimeKind_value MLX_VLM)"

definition start_execution :: "string \<Rightarrow> Broker \<Rightarrow> Broker" where
  "start_execution rid b =
     b\<lparr>bk_running := rid # bk_running b, bk_dispatched := rid # bk_dispatched b\<rparr>"

text \<open>Both endpoints when the router raises \<open>ModelResolutionError\<close>.\<close>

definition unrouted :: "Broker \<Rightarrow> reply \<times> Broker" where
  "unrouted b =
     (Refused 404 MODEL_NOT_FOUND, b\<lparr>bk_rt := record_rejected ''rejected_model_not_ready'' (bk_rt b)\<rparr>)"

text \<open>What the environment and the clock supply to one arrival.\<close>

record arrival =
  arr_now :: real
  arr_monotonic :: real
  arr_hex :: string
  arr_upstream :: "string option"
  arr_timeout :: real

definition or_code :: "ErrorCode option \<Rightarrow> ErrorCode \<Rightarrow> ErrorCode" where
  "or_code c d = (case c of None \<Rightarrow> d | Some x \<Rightarrow> x)"

text \<open>
  The chat handler from admission on. What precedes it and can end the request is in the theory
  \<open>Service\<close> (negotiation, route, vision check); the ThreadWake observation made in between raises
  on a malformed \<open>threadwake\<close> field, before any record exists and without touching the state
  modelled here, and is \<open>observe_request\<close> of \<open>ThreadWake_Manager\<close>.
\<close>

definition chat_arrival ::
  "(real \<Rightarrow> string) \<Rightarrow> environ \<Rightarrow> host \<Rightarrow> arrival \<Rightarrow> RuntimeResolution \<Rightarrow> ChatCompletionRequest \<Rightarrow> Broker
   \<Rightarrow> reply \<times> Broker" where
  "chat_arrival frepr env h arr res req b =
     (case evaluate_chat_request frepr env h (bk_ctl b) req (bk_rt b) (res_lane res)
             (res_lane_max_concurrent res)
             (Some (if res_resolved_model_id res \<noteq> [] then res_resolved_model_id res else req_model req)) of
        Inl e \<Rightarrow> (ServerError, b)
      | Inr (adm, ctl) \<Rightarrow>
          (let b = b\<lparr>bk_ctl := ctl\<rparr>; rt = bk_rt b in
           if adm_reason adm = REJECTED_QUEUE_FULL then
             (Refused (adm_http_status adm) (or_code (adm_error_code adm) QUEUE_FULL_CODE),
              b\<lparr>bk_rt := record_rejected (AdmissionDecision_value (adm_reason adm)) (record_queue_rejected rt)\<rparr>)
           else if \<not> adm_accepted adm \<and> adm_reason adm \<noteq> AD_QUEUED then
             (Refused (adm_http_status adm) (or_code (adm_error_code adm) INVALID_REQUEST),
              b\<lparr>bk_rt := record_rejected (AdmissionDecision_value (adm_reason adm)) rt\<rparr>)
           else
             let rt = record_accepted rt in
             if request_has_image_content req \<and> \<not> adapter_supports_vision (res_kind res) then
               (Refused 422 UNSUPPORTED_CAPABILITY,
                b\<lparr>bk_rt := record_rejected ''rejected_model_not_ready'' rt\<rparr>)
             else
               case ensure_backend_chat_request (Ingress req) (Some (res_kind res)) of
                 Inl e \<Rightarrow>
                   (Refused 400 UNSUPPORTED_FIELD,
                    b\<lparr>bk_rt := record_rejected ''rejected_unsupported_fields'' rt\<rparr>)
               | Inr backend_request \<Rightarrow>
                   if adm_reason adm = AD_QUEUED then
                     (case begin_request (arr_now arr) (arr_hex arr) (req_model req) (req_stream req)
                             (arr_upstream arr) (res_lane res) rt of
                        (rid, rt) \<Rightarrow>
                          (let entry = stamp_deadline (arr_monotonic arr) (arr_timeout arr)
                                 (new_entry (arr_now arr) rid backend_request (arr_upstream arr)
                                   (res_lane res) (res_lane_max_concurrent res))
                           in (Waiting rid,
                               b\<lparr>bk_rt := mark_queued rid rt,
                                 bk_queue := enqueue (arr_monotonic arr) (arr_timeout arr) entry (bk_queue b),
                                 bk_waiters := dset rid \<lparr>wt_entry = entry, wt_stream = req_stream req,
                                                         wt_resolution = res, wt_last = W_RETRY\<rparr>
                                                 (bk_waiters b)\<rparr>)))
                   else if \<not> req_stream req then
                     (case begin_request (arr_now arr) (arr_hex arr) (req_model req) False
                             (arr_upstream arr) (res_lane res) rt of
                        (rid, rt) \<Rightarrow>
                          (Started rid, start_execution rid (b\<lparr>bk_rt := mark_running rid rt\<rparr>)))
                   else if \<not> res_supports_streaming res then
                     (Refused 422 UNSUPPORTED_CAPABILITY, b\<lparr>bk_rt := rt\<rparr>)
                   else
                     (case begin_request (arr_now arr) (arr_hex arr) (req_model req) True
                             (arr_upstream arr) (res_lane res) rt of
                        (rid, rt) \<Rightarrow>
                          (Started rid, start_execution rid (b\<lparr>bk_rt := mark_streaming rid rt\<rparr>)))))"

definition token_cancelled :: "RuntimeState \<Rightarrow> string \<Rightarrow> bool" where
  "token_cancelled rt rid =
     (case get_cancellation_token rt rid of None \<Rightarrow> False | Some t \<Rightarrow> token_is_cancelled t)"

text \<open>\<open>_try_execute_live_batch\<close> up to the adapter call: the entries it would claim, if any.\<close>

definition live_batch_group ::
  "environ \<Rightarrow> (nat \<Rightarrow> string) \<Rightarrow> RuntimeResolution \<Rightarrow> string \<Rightarrow> RuntimeState \<Rightarrow> RequestQueue \<Rightarrow> QueueEntry list option" where
  "live_batch_group env uuid res rid rt q =
     (if \<not> get_batch_execution_enabled env \<or> res_batching_capability res \<noteq> ''experimental'' then None
      else
        case find_batch_group \<lparr>max_group_size = get_batch_execution_max_size env, max_total_tokens = 8192\<rparr>
               uuid (get_batch_analysis_enabled env) rid q of
          None \<Rightarrow> None
        | Some entries \<Rightarrow>
            (let active = filter (\<lambda>e. \<not> qe_batch_claimed e \<and> \<not> token_cancelled rt (qe_request_id e)) entries in
             if int (length active) < get_batch_execution_min_size env \<or> \<not> list_ex id (snd (claim_batch_entries active))
             then None else Some active))"

text \<open>The clock readings of one pass, the wall clock of the section that may follow it, and the
  identifiers drawn by the batch analysis.\<close>

record tick =
  tk_t0 :: real
  tk_t1 :: real
  tk_t2 :: real
  tk_now :: real
  tk_uuid :: "nat \<Rightarrow> string"

text \<open>A grant is stored in the copy of the waiter that owns the entry.\<close>

definition deliver_grant :: "QueueEntry option \<Rightarrow> (string, Waiter) dict \<Rightarrow> (string, Waiter) dict" where
  "deliver_grant sel ws =
     (case sel of
        None \<Rightarrow> ws
      | Some e \<Rightarrow>
          (case dget ws (qe_request_id e) of
             None \<Rightarrow> ws
           | Some w \<Rightarrow> dset (qe_request_id e) (w\<lparr>wt_entry := e\<rparr>) ws))"

text \<open>What \<open>chat_completions\<close> does once \<open>wait_for_execution\<close> has returned.\<close>

definition after_wait ::
  "environ \<Rightarrow> tick \<Rightarrow> wait_outcome \<Rightarrow> Waiter \<Rightarrow> string \<Rightarrow> Broker \<Rightarrow> reply \<times> Broker" where
  "after_wait env tk outcome w rid b =
     (let rt = bk_rt b in
      case outcome of
        W_FALSE \<Rightarrow>
          (if token_cancelled rt rid
           then (Refused 409 CANCELLED_CODE,
                 b\<lparr>bk_rt := record_queue_cancelled (cancel_request (tk_now tk) rid rt),
                   bk_waiters := dpop rid (bk_waiters b)\<rparr>)
           else (Refused 504 TIMEOUT,
                 b\<lparr>bk_rt := mark_timed_out (tk_now tk) rid rt, bk_waiters := dpop rid (bk_waiters b)\<rparr>))
      | W_TRUE \<Rightarrow>
          (let rt = mark_dequeued rid rt; b = b\<lparr>bk_rt := rt, bk_waiters := dpop rid (bk_waiters b)\<rparr> in
           if \<not> wt_stream w then
             (if live_batch_group env (tk_uuid tk) (wt_resolution w) rid rt (bk_queue b) \<noteq> None
              then (Batched rid, b)
              else (Started rid, start_execution rid (b\<lparr>bk_rt := mark_running rid rt\<rparr>)))
           else if \<not> res_supports_streaming (wt_resolution w) then
             (Refused 422 UNSUPPORTED_CAPABILITY, b\<lparr>bk_rt := fail_request (tk_now tk) rid None rt\<rparr>)
           else (Started rid, start_execution rid (b\<lparr>bk_rt := mark_streaming rid rt\<rparr>)))
      | _ \<Rightarrow> (Waiting rid, b\<lparr>bk_waiters := dset rid (w\<lparr>wt_last := outcome\<rparr>) (bk_waiters b)\<rparr>))"

text \<open>The controller's cache after the pass: it is consulted when the waiter is at the front.\<close>

definition ctl_after_wait :: "environ \<Rightarrow> host \<Rightarrow> Waiter \<Rightarrow> Broker \<Rightarrow> controller" where
  "ctl_after_wait env h w b =
     (if token_cancelled (bk_rt b) (qe_request_id (wt_entry w)) \<or> qe_granted (wt_entry w)
         \<or> map_option qe_request_id (peek (bk_queue b)) \<noteq> Some (qe_request_id (wt_entry w))
      then bk_ctl b
      else snd (active_capacity_available env h (bk_ctl b) (bk_rt b) None None))"

definition wait_step :: "environ \<Rightarrow> host \<Rightarrow> tick \<Rightarrow> Waiter \<Rightarrow> Broker \<Rightarrow> reply \<times> Broker" where
  "wait_step env h tk w b =
     (let rid = qe_request_id (wt_entry w) in
      case wait_iteration env (tk_t0 tk) (tk_t1 tk) (tk_t2 tk) (token_cancelled (bk_rt b) rid)
             (capacity_now env h (bk_ctl b) (bk_rt b)) (lane_open env h (bk_ctl b) (bk_rt b))
             reserve_entry (wt_entry w) (on_wake (wt_last w) (bk_queue b)) (bk_rt b) of
        (outcome, sel, q, rt) \<Rightarrow>
          after_wait env tk outcome w rid
            (b\<lparr>bk_rt := rt, bk_queue := q, bk_ctl := ctl_after_wait env h w b,
               bk_waiters := deliver_grant sel (bk_waiters b)\<rparr>))"

datatype exec_end = EXEC_COMPLETE | EXEC_FAIL | EXEC_DISCONNECT

text \<open>
  How a stream ends. The first chunk is fetched before the response starts: an empty stream
  completes and a failure there fails the request. Afterwards the \<open>finally\<close> block knows only whether
  the stream was exhausted: an upstream failure in mid-stream and a client that goes away are both
  recorded as a disconnect and a cancellation.
\<close>

datatype stream_event =
    STREAM_EMPTY | STREAM_OPEN_FAILED | STREAM_EXHAUSTED | STREAM_UPSTREAM_FAILED | STREAM_CLOSED

fun stream_end :: "stream_event \<Rightarrow> exec_end" where
  "stream_end STREAM_EMPTY = EXEC_COMPLETE"
| "stream_end STREAM_OPEN_FAILED = EXEC_FAIL"
| "stream_end STREAM_EXHAUSTED = EXEC_COMPLETE"
| "stream_end STREAM_UPSTREAM_FAILED = EXEC_DISCONNECT"
| "stream_end STREAM_CLOSED = EXEC_DISCONNECT"

definition exec_finish :: "real \<Rightarrow> string \<Rightarrow> exec_end \<Rightarrow> Broker \<Rightarrow> Broker" where
  "exec_finish now rid e b =
     b\<lparr>bk_running := remove1 rid (bk_running b),
       bk_rt := (case e of
                   EXEC_COMPLETE \<Rightarrow> complete_request now rid (bk_rt b)
                 | EXEC_FAIL \<Rightarrow> fail_request now rid None (bk_rt b)
                 | EXEC_DISCONNECT \<Rightarrow> cancel_request now rid (record_stream_disconnect rid (bk_rt b)))\<rparr>"

text \<open>
  The ways an execution can end without its record being closed: the helpers catch \<open>Exception\<close>
  only, so the \<open>CancelledError\<close> of a task cancelled while it awaits the adapter passes through, and
  the \<open>finally\<close> block of a stream belongs to a generator that a server which drops the response
  before its first chunk never starts. The coroutine is gone and the runtime state stays as it was.
  No step of the relation below is of this kind; \<open>abandoned_slot_stays\<close> shows what one would do.
\<close>

definition exec_abandoned :: "string \<Rightarrow> Broker \<Rightarrow> Broker" where
  "exec_abandoned rid b = b\<lparr>bk_running := remove1 rid (bk_running b)\<rparr>"

definition generate_arrival ::
  "environ \<Rightarrow> host \<Rightarrow> arrival \<Rightarrow> RuntimeResolution \<Rightarrow> GenerateRequest \<Rightarrow> Broker \<Rightarrow> reply \<times> Broker" where
  "generate_arrival env h arr res req b =
     (let model = (case gen_model_id req of None \<Rightarrow> ''stub-model'' | Some m \<Rightarrow> if m = [] then ''stub-model'' else m);
          resolved = (if res_resolved_model_id res \<noteq> [] then res_resolved_model_id res else model)
      in case resolve_context_budgets env h (bk_ctl b) (Some resolved) of (budgets, ctl) \<Rightarrow>
         let b = b\<lparr>bk_ctl := ctl\<rparr>; rt = bk_rt b;
             cost = estimate_prompt_cost (gen_prompt req) (Some (gen_max_tokens req)) None (get_default_max_tokens env);
             ce = evaluate_context cost budgets
         in if ce_over_limit ce then
              (let o' = context_overflow_result cost ce in
               (Refused (adm_http_status o') (or_code (adm_error_code o') CONTEXT_OVERFLOW_CODE),
                b\<lparr>bk_rt := record_rejected (AdmissionDecision_value (adm_reason o')) rt\<rparr>))
            else
              case active_capacity_available env h ctl rt (res_lane res) (res_lane_max_concurrent res) of
                (ok, ctl) \<Rightarrow>
                  (let b = b\<lparr>bk_ctl := ctl\<rparr> in
                   if \<not> ok then
                     (Refused 429 RUNNER_OVERLOADED, b\<lparr>bk_rt := record_rejected ''rejected_overloaded'' rt\<rparr>)
                   else
                     case begin_request (arr_now arr) (arr_hex arr) model False (arr_upstream arr)
                            (res_lane res) (record_accepted rt) of
                       (rid, rt) \<Rightarrow>
                         (Started rid, start_execution rid (b\<lparr>bk_rt := mark_running rid rt\<rparr>))))"

definition cancel_endpoint :: "real \<Rightarrow> string \<Rightarrow> Broker \<Rightarrow> reply \<times> Broker" where
  "cancel_endpoint now rid b =
     (case get_request_snapshot (bk_rt b) rid of
        None \<Rightarrow> (Refused 404 INTERNAL_ERROR, b)
      | Some snap \<Rightarrow>
          (if terminal_status (snap_status snap) then (Refused 409 CANCELLED_CODE, b)
           else
             case request_cancellation rid (bk_rt b) of (signalled, rt) \<Rightarrow>
               (Acknowledged,
                b\<lparr>bk_rt := (if signalled then cancel_request now rid rt else rt)\<rparr>)))"

section \<open>Interleaving\<close>

text \<open>
  The step relation, for a fixed environment \<open>env\<close> and lane ceilings \<open>L\<close> (an adapter's
  \<open>max_concurrent_requests\<close>, which does not change while it is registered). The host, the clock
  and the order of the steps are arbitrary. A drawn identifier is new: it is a random UUID.
\<close>

definition fresh_id :: "Broker \<Rightarrow> string \<Rightarrow> bool" where
  "fresh_id b hex \<longleftrightarrow> generate_whoosh_request_id hex \<notin> set (dkeys (rt_requests (bk_rt b)))"

inductive broker_step :: "environ \<Rightarrow> (string \<Rightarrow> int option) \<Rightarrow> Broker \<Rightarrow> reply \<Rightarrow> Broker \<Rightarrow> bool"
  for env L where
  chat: "route_ok L res \<Longrightarrow> fresh_id b (arr_hex arr) \<Longrightarrow>
      chat_arrival frepr env h arr res req b = (rep, b') \<Longrightarrow> broker_step env L b rep b'"
| generate: "route_ok L res \<Longrightarrow> fresh_id b (arr_hex arr) \<Longrightarrow>
      generate_arrival env h arr res greq b = (rep, b') \<Longrightarrow> broker_step env L b rep b'"
| unrouted: "unrouted b = (rep, b') \<Longrightarrow> broker_step env L b rep b'"
| wait: "dget (bk_waiters b) k = Some w \<Longrightarrow>
      wait_step env h tk w b = (rep, b') \<Longrightarrow> broker_step env L b rep b'"
| finish: "k \<in> set (bk_running b) \<Longrightarrow> b' = exec_finish now k e b \<Longrightarrow> broker_step env L b Acknowledged b'"
| cancel: "cancel_endpoint now k b = (rep, b') \<Longrightarrow> broker_step env L b rep b'"

inductive reachable :: "environ \<Rightarrow> (string \<Rightarrow> int option) \<Rightarrow> Broker \<Rightarrow> bool" for env L where
  init: "reachable env L new_broker"
| step: "reachable env L b \<Longrightarrow> broker_step env L b rep b' \<Longrightarrow> reachable env L b'"

section \<open>Invariant\<close>

definition rec_cancelled :: "RequestRecord \<Rightarrow> bool" where
  "rec_cancelled r = (case rec_cancel_token r of None \<Rightarrow> False | Some t \<Rightarrow> tok_cancelled t)"

text \<open>A waiter's record is queued, and reserved for once granted, unless it has been cancelled.\<close>

definition record_waits :: "RuntimeState \<Rightarrow> QueueEntry \<Rightarrow> RequestRecord \<Rightarrow> bool" where
  "record_waits rt e r \<longleftrightarrow>
     rec_lane r = qe_lane e \<and> rec_cancel_token r \<noteq> None
   \<and> (if rec_cancelled r then rec_status r = CANCELLED
      else rec_status r = QUEUED \<and> (qe_granted e \<longrightarrow> qe_request_id e \<in> set (dkeys (reservations rt))))"

definition waiter_ok :: "(string \<Rightarrow> int option) \<Rightarrow> RuntimeState \<Rightarrow> RequestQueue \<Rightarrow> string \<Rightarrow> Waiter \<Rightarrow> bool" where
  "waiter_ok L rt q k w \<longleftrightarrow>
     qe_request_id (wt_entry w) = k \<and> entry_sync (wt_entry w) q
   \<and> (case qe_lane (wt_entry w) of None \<Rightarrow> True | Some l \<Rightarrow> l \<noteq> [] \<and> qe_lane_max_concurrent (wt_entry w) = L l)
   \<and> (\<exists>r. dget (rt_requests rt) k = Some r \<and> record_waits rt (wt_entry w) r)"

definition within_capacity :: "environ \<Rightarrow> (string \<Rightarrow> int option) \<Rightarrow> RuntimeState \<Rightarrow> bool" where
  "within_capacity env L rt \<longleftrightarrow>
     active_jobs rt \<le> nat (operator_ceiling env)
   \<and> (\<forall>l m. l \<noteq> [] \<and> L l = Some m \<longrightarrow> active_jobs_for_lane rt (Some l) \<le> nat (max m 1))"

text \<open>Every queued record has a waiter, every record in a slot is inside an adapter, and every
  reservation belongs to a granted waiter.\<close>

definition owned :: "Broker \<Rightarrow> bool" where
  "owned b \<longleftrightarrow>
     (\<forall>k r. dget (rt_requests (bk_rt b)) k = Some r \<longrightarrow>
        (rec_status r = QUEUED \<longrightarrow> k \<in> set (dkeys (bk_waiters b)))
      \<and> (slot_status (rec_status r) \<longrightarrow> k \<in> set (bk_running b)))
   \<and> (\<forall>k \<in> set (dkeys (reservations (bk_rt b))).
        \<exists>w. dget (bk_waiters b) k = Some w \<and> qe_granted (wt_entry w))
   \<and> (\<forall>e \<in> set (q_deque (bk_queue b)).
        \<exists>w. dget (bk_waiters b) (qe_request_id e) = Some w \<and> wt_entry w = e)"

definition history_ok :: "Broker \<Rightarrow> bool" where
  "history_ok b \<longleftrightarrow>
     distinct (bk_dispatched b) \<and> distinct (bk_running b)
   \<and> set (bk_running b) \<subseteq> set (bk_dispatched b)
   \<and> set (bk_dispatched b) \<subseteq> set (dkeys (rt_requests (bk_rt b)))
   \<and> set (bk_dispatched b) \<inter> set (dkeys (bk_waiters b)) = {}"

definition broker_ok :: "environ \<Rightarrow> (string \<Rightarrow> int option) \<Rightarrow> Broker \<Rightarrow> bool" where
  "broker_ok env L b \<longleftrightarrow>
     runtime_ok (bk_rt b) \<and> queue_ok (bk_queue b) \<and> dict_ok (bk_waiters b)
   \<and> within_capacity env L (bk_rt b)
   \<and> (\<forall>k w. dget (bk_waiters b) k = Some w \<longrightarrow> waiter_ok L (bk_rt b) (bk_queue b) k w)
   \<and> owned b \<and> history_ok b"

lemma broker_ok_new: "broker_ok env L new_broker"
  by (simp add: broker_ok_def new_broker_def within_capacity_def owned_def history_ok_def
      active_jobs_def active_jobs_for_lane_def new_runtime_def new_queue_def runtime_ok_def queue_ok_def)

text \<open>The invariant does not look at the counters, at the controller, or at the capacity event.\<close>

lemma broker_ok_frame:
  assumes "broker_ok env L b"
    and "rt_requests (bk_rt b') = rt_requests (bk_rt b)" "reservations (bk_rt b') = reservations (bk_rt b)"
    and "q_deque (bk_queue b') = q_deque (bk_queue b)" "bk_waiters b' = bk_waiters b"
    and "bk_running b' = bk_running b" "bk_dispatched b' = bk_dispatched b"
  shows "broker_ok env L b'"
proof -
  have "within_capacity env L (bk_rt b') = within_capacity env L (bk_rt b)"
    unfolding within_capacity_def active_frame(1)[OF assms(2,3)] active_frame(2)[OF assms(2,3)] by simp
  moreover have "runtime_ok (bk_rt b') = runtime_ok (bk_rt b)" by (rule runtime_ok_frame) (use assms in auto)
  moreover have "queue_ok (bk_queue b') = queue_ok (bk_queue b)" by (rule queue_ok_deque) (use assms in auto)
  moreover have "owned b' = owned b" "history_ok b' = history_ok b"
    using assms(2-) by (simp_all add: owned_def history_ok_def)
  moreover have "waiter_ok L (bk_rt b') (bk_queue b') k w = waiter_ok L (bk_rt b) (bk_queue b) k w" for k w
    using assms(2-) by (simp add: waiter_ok_def record_waits_def entry_sync_def)
  ultimately show ?thesis using assms(1,5) unfolding broker_ok_def by simp
qed

lemma ownedD:
  assumes "owned b"
  shows "dget (rt_requests (bk_rt b)) k = Some r \<Longrightarrow> rec_status r = QUEUED \<Longrightarrow> k \<in> set (dkeys (bk_waiters b))"
    and "dget (rt_requests (bk_rt b)) k = Some r \<Longrightarrow> slot_status (rec_status r) \<Longrightarrow> k \<in> set (bk_running b)"
    and "k \<in> set (dkeys (reservations (bk_rt b))) \<Longrightarrow> \<exists>w. dget (bk_waiters b) k = Some w \<and> qe_granted (wt_entry w)"
    and "e \<in> set (q_deque (bk_queue b)) \<Longrightarrow> \<exists>w. dget (bk_waiters b) (qe_request_id e) = Some w \<and> wt_entry w = e"
  using assms unfolding owned_def by blast+

lemma broker_okD:
  assumes "broker_ok env L b"
  shows "runtime_ok (bk_rt b)" "queue_ok (bk_queue b)" "dict_ok (bk_waiters b)"
    "within_capacity env L (bk_rt b)" "owned b" "history_ok b"
    "dget (bk_waiters b) k = Some w \<Longrightarrow> waiter_ok L (bk_rt b) (bk_queue b) k w"
  using assms unfolding broker_ok_def by blast+

lemma token_cancelled_rec:
  "dget (rt_requests rt) k = Some r \<Longrightarrow> token_cancelled rt k = rec_cancelled r"
  by (simp add: token_cancelled_def get_cancellation_token_def rec_cancelled_def token_is_cancelled_def
      split: option.split)

section \<open>Preservation\<close>

lemma within_capacityI:
  assumes "within_capacity env L rt" and "active_jobs rt' \<le> active_jobs rt"
    and "\<And>l. active_jobs_for_lane rt' l \<le> active_jobs_for_lane rt l"
  shows "within_capacity env L rt'"
  unfolding within_capacity_def
proof (intro conjI allI impI)
  show "active_jobs rt' \<le> nat (operator_ceiling env)"
    using assms(1,2) by (simp add: within_capacity_def)
  fix l m assume "l \<noteq> [] \<and> L l = Some m"
  then have "active_jobs_for_lane rt (Some l) \<le> nat (max m 1)"
    using assms(1) unfolding within_capacity_def by blast
  then show "active_jobs_for_lane rt' (Some l) \<le> nat (max m 1)"
    using assms(3)[of "Some l"] by linarith
qed

text \<open>Ending a record: it becomes terminal and gives back its slot and its reservation.\<close>

definition closes :: "string \<Rightarrow> RuntimeState \<Rightarrow> RuntimeState \<Rightarrow> bool" where
  "closes k rt rt' \<longleftrightarrow>
     (\<exists>f. rt_requests rt' = upd_req k f (rt_requests rt) \<and> reservations rt' = dpop k (reservations rt)
        \<and> (\<forall>r. terminal_status (rec_status (f r)) \<and> rec_request_id (f r) = rec_request_id r
             \<and> rec_lane (f r) = rec_lane r \<and> rec_cancel_token (f r) = rec_cancel_token r))"

lemma closes_ops:
  "closes k rt (complete_request t k rt)" "closes k rt (cancel_request t k rt)"
  "closes k rt (fail_request t k c rt)" "closes k rt (mark_timed_out t k rt)"
  unfolding closes_def by (intro exI conjI, rule complete_request_views cancel_request_views
    fail_request_views mark_timed_out_views, simp add: rt_views, simp add: terminal_status_def)+

lemma closes_frame:
  "closes k rt rt' \<Longrightarrow> rt_requests rt2 = rt_requests rt' \<Longrightarrow> reservations rt2 = reservations rt' \<Longrightarrow> closes k rt rt2"
  by (simp add: closes_def)

lemma terminal_not_slot: "terminal_status s \<Longrightarrow> \<not> slot_status s \<and> s \<noteq> QUEUED"
  by (cases s) (simp_all add: terminal_status_def slot_status_def)

lemma closes_facts:
  assumes "closes k rt rt'" and "runtime_ok rt"
  shows "runtime_ok rt'" and "active_jobs rt' \<le> active_jobs rt"
    and "active_jobs_for_lane rt' l \<le> active_jobs_for_lane rt l"
    and "set (dkeys (reservations rt')) = set (dkeys (reservations rt)) - {k}"
    and "set (dkeys (rt_requests rt')) = set (dkeys (rt_requests rt))"
    and "j \<noteq> k \<Longrightarrow> dget (rt_requests rt') j = dget (rt_requests rt) j"
    and "dget (rt_requests rt') k = Some r \<Longrightarrow> terminal_status (rec_status r)"
proof -
  obtain f where f: "rt_requests rt' = upd_req k f (rt_requests rt)" "reservations rt' = dpop k (reservations rt)"
    "\<And>r. terminal_status (rec_status (f r)) \<and> rec_request_id (f r) = rec_request_id r \<and> rec_lane (f r) = rec_lane r"
    using assms(1) unfolding closes_def by blast
  show "runtime_ok rt'" by (rule runtime_ok_update[OF assms(2) f(1)]) (use f in auto)
  have ns: "\<not> slot_status (rec_status (f r))" for r using f(3) terminal_not_slot by blast
  show "active_jobs rt' \<le> active_jobs rt" using active_jobs_close[OF assms(2) f(1,2) ns] by linarith
  show "active_jobs_for_lane rt' l \<le> active_jobs_for_lane rt l" by (rule lane_jobs_close[OF assms(2) f(1,2) ns])
  show "set (dkeys (reservations rt')) = set (dkeys (reservations rt)) - {k}" by (simp add: f(2))
  have "dom (map_of (rt_requests rt')) = dom (map_of (rt_requests rt))"
    unfolding f(1) by (auto simp: rt_views dom_def split: if_splits)
  then show "set (dkeys (rt_requests rt')) = set (dkeys (rt_requests rt))"
    by (simp add: dom_map_of_conv_image_fst)
  show "j \<noteq> k \<Longrightarrow> dget (rt_requests rt') j = dget (rt_requests rt) j" by (simp add: f(1) rt_views)
  show "dget (rt_requests rt') k = Some r \<Longrightarrow> terminal_status (rec_status r)"
    using f(3) by (auto simp: f(1) rt_views)
qed

lemma waiter_ok_other:
  assumes "waiter_ok L rt q j w" and "j \<noteq> k"
    and "dget (rt_requests rt') j = dget (rt_requests rt) j"
    and "j \<in> set (dkeys (reservations rt)) \<Longrightarrow> j \<in> set (dkeys (reservations rt'))"
    and "entry_sync (wt_entry w) q'"
  shows "waiter_ok L rt' q' j w"
  using assms by (auto simp: waiter_ok_def record_waits_def)

text \<open>A finished execution: the request is in no queue and holds no reservation.\<close>

lemma broker_ok_finish:
  assumes ok: "broker_ok env L b" and k: "k \<in> set (bk_running b)" and cl: "closes k (bk_rt b) (bk_rt b')"
    and b': "bk_queue b' = bk_queue b" "bk_waiters b' = bk_waiters b"
      "bk_running b' = remove1 k (bk_running b)" "bk_dispatched b' = bk_dispatched b"
  shows "broker_ok env L b'"
proof -
  note cf = closes_facts[OF cl] and okd = broker_okD[OF ok]
  have rtok: "runtime_ok (bk_rt b)" by (rule okd(1))
  have kw: "k \<notin> set (dkeys (bk_waiters b))" using okd(1,6) k by (auto simp: history_ok_def)
  have wk: "waiter_ok L (bk_rt b') (bk_queue b') j w" if "dget (bk_waiters b') j = Some w" for j w
  proof -
    have jk: "j \<noteq> k" using that kw b' by (auto dest: dget_key)
    have "waiter_ok L (bk_rt b) (bk_queue b) j w" using okd that b' by simp
    then show ?thesis
      using waiter_ok_other[OF _ jk, of L "bk_rt b" "bk_queue b" w "bk_rt b'" "bk_queue b'"] cf(4,6) rtok b' jk
      by (simp add: waiter_ok_def)
  qed
  have own: "owned b'"
    unfolding owned_def
  proof (intro conjI allI impI ballI)
    fix j r assume j: "dget (rt_requests (bk_rt b')) j = Some r"
    have old: "j \<noteq> k \<Longrightarrow> dget (rt_requests (bk_rt b)) j = Some r" using j cf(6)[OF rtok] by simp
    show "rec_status r = QUEUED \<Longrightarrow> j \<in> set (dkeys (bk_waiters b'))"
      using j old cf(7)[OF rtok] terminal_not_slot ownedD(1,2)[OF okd(5)] b' by (cases "j = k") auto
    show "slot_status (rec_status r) \<Longrightarrow> j \<in> set (bk_running b')"
      using j old cf(7)[OF rtok] terminal_not_slot ownedD(1,2)[OF okd(5)] b' by (cases "j = k") auto
  next
    fix j assume "j \<in> set (dkeys (reservations (bk_rt b')))"
    then show "\<exists>w. dget (bk_waiters b') j = Some w \<and> qe_granted (wt_entry w)"
      using cf(4)[OF rtok] ownedD(3)[OF okd(5)] b' by auto
  next
    fix e assume "e \<in> set (q_deque (bk_queue b'))"
    then show "\<exists>w. dget (bk_waiters b') (qe_request_id e) = Some w \<and> wt_entry w = e"
      using ownedD(4)[OF okd(5)] b' by auto
  qed
  have "history_ok b'" using okd b' cf(5)[OF rtok] by (auto simp: history_ok_def dest: set_remove1_subset[THEN subsetD])
  then show ?thesis
    using okd cf(1,2,3) rtok within_capacityI[of env L "bk_rt b" "bk_rt b'"] wk own b'
    unfolding broker_ok_def by simp
qed

text \<open>A waiter that gives up: its record ends, its entry and its wait are gone.\<close>

lemma broker_ok_give_up:
  assumes ok: "broker_ok env L b" and cl: "closes k (bk_rt b) (bk_rt b')"
    and q': "q_deque (bk_queue b') = filter (\<lambda>e. qe_request_id e \<noteq> k) (q_deque (bk_queue b))"
    and b': "bk_waiters b' = dpop k (bk_waiters b)" "bk_running b' = bk_running b" "bk_dispatched b' = bk_dispatched b"
    and k: "k \<in> set (dkeys (bk_waiters b))"
  shows "broker_ok env L b'"
proof -
  note cf = closes_facts[OF cl] and okd = broker_okD[OF ok]
  have rtok: "runtime_ok (bk_rt b)" and krun: "k \<notin> set (bk_running b)" using okd(1,6) k by (auto simp: history_ok_def)
  have wk: "waiter_ok L (bk_rt b') (bk_queue b') j w" if "dget (bk_waiters b') j = Some w" for j w
  proof -
    have jk: "j \<noteq> k" and jw: "dget (bk_waiters b) j = Some w"
      using that b' by (auto simp: dict_simps split: if_splits)
    have old: "waiter_ok L (bk_rt b) (bk_queue b) j w" using okd jw by simp
    then have "entry_sync (wt_entry w) (bk_queue b')" using jk q' by (auto simp: waiter_ok_def entry_sync_def)
    then show ?thesis using waiter_ok_other[OF old jk] cf(4,6) rtok jk by simp
  qed
  have own: "owned b'"
    unfolding owned_def
  proof (intro conjI allI impI ballI)
    fix j r assume j: "dget (rt_requests (bk_rt b')) j = Some r"
    have old: "j \<noteq> k \<Longrightarrow> dget (rt_requests (bk_rt b)) j = Some r" using j cf(6)[OF rtok] by simp
    show "rec_status r = QUEUED \<Longrightarrow> j \<in> set (dkeys (bk_waiters b'))"
      using j old cf(7)[OF rtok] terminal_not_slot ownedD(1,2)[OF okd(5)] b' by (cases "j = k") auto
    show "slot_status (rec_status r) \<Longrightarrow> j \<in> set (bk_running b')"
      using j old cf(7)[OF rtok] terminal_not_slot ownedD(1,2)[OF okd(5)] b' by (cases "j = k") auto
  next
    fix j assume "j \<in> set (dkeys (reservations (bk_rt b')))"
    then have "j \<in> set (dkeys (reservations (bk_rt b)))" "j \<noteq> k" using cf(4)[OF rtok] by auto
    then show "\<exists>w. dget (bk_waiters b') j = Some w \<and> qe_granted (wt_entry w)"
      using ownedD(3)[OF okd(5)] b' by (simp add: dict_simps)
  next
    fix e assume "e \<in> set (q_deque (bk_queue b'))"
    then have "e \<in> set (q_deque (bk_queue b))" "qe_request_id e \<noteq> k" using q' by auto
    then show "\<exists>w. dget (bk_waiters b') (qe_request_id e) = Some w \<and> wt_entry w = e"
      using ownedD(4)[OF okd(5)] b' by (simp add: dict_simps)
  qed
  have "history_ok b'" using okd b' cf(5)[OF rtok] by (auto simp: history_ok_def)
  moreover have "queue_ok (bk_queue b')" using okd queue_ok_filter[OF _ q'] by blast
  ultimately show ?thesis
    using okd cf(1,2,3) rtok within_capacityI[of env L "bk_rt b" "bk_rt b'"] wk own b'
    unfolding broker_ok_def by simp
qed

text \<open>A granted waiter that starts: its reservation becomes its slot.\<close>

lemma broker_ok_start_granted:
  assumes ok: "broker_ok env L b" and k: "dget (bk_waiters b) k = Some w" and g: "qe_granted (wt_entry w)"
    and nc: "\<not> token_cancelled (bk_rt b) k" and st: "st = RUNNING \<or> st = STREAMING"
    and rt': "rt_requests (bk_rt b') = rt_requests (mark_started st k (bk_rt b))"
      "reservations (bk_rt b') = reservations (mark_started st k (bk_rt b))"
    and b': "q_deque (bk_queue b') = q_deque (bk_queue b)" "bk_waiters b' = dpop k (bk_waiters b)"
      "bk_running b' = k # bk_running b" "bk_dispatched b' = k # bk_dispatched b"
  shows "broker_ok env L b'"
proof -
  note okd = broker_okD[OF ok]
  have rtok: "runtime_ok (bk_rt b)" by (rule okd(1))
  have wk0: "waiter_ok L (bk_rt b) (bk_queue b) k w" using okd k by simp
  obtain r where r: "dget (rt_requests (bk_rt b)) k = Some r" "record_waits (bk_rt b) (wt_entry w) r"
    using wk0 by (auto simp: waiter_ok_def)
  have id: "qe_request_id (wt_entry w) = k" using wk0 by (simp add: waiter_ok_def)
  have nc': "\<not> rec_cancelled r" using nc token_cancelled_rec[OF r(1)] by simp
  then have q: "rec_status r = QUEUED" and res: "k \<in> set (dkeys (reservations (bk_rt b)))"
    using r(2) g id by (auto simp: record_waits_def)
  have sst: "slot_status st" using st by (auto simp: slot_status_def)
  have reqs: "dget (rt_requests (bk_rt b')) j = (if j = k then Some (r\<lparr>rec_status := st\<rparr>) else dget (rt_requests (bk_rt b)) j)" for j
    using rt'(1) r(1) q by (simp add: rt_views)
  have ress: "reservations (bk_rt b') = dpop k (reservations (bk_rt b))"
    using rt'(2) r(1) q by (simp add: rt_views)
  have rtok': "runtime_ok (bk_rt b')"
    using runtime_ok_frame[OF rt'] runtime_ok_ops(3)[OF rtok] by blast
  have cap: "within_capacity env L (bk_rt b')"
  proof (rule within_capacityI[of env L "bk_rt b"])
    show "within_capacity env L (bk_rt b)" using okd by blast
    show "active_jobs (bk_rt b') \<le> active_jobs (bk_rt b)"
      unfolding active_frame(1)[OF rt'] using started_active_jobs[OF rtok r(1) sst] res q by simp
    show "active_jobs_for_lane (bk_rt b') l \<le> active_jobs_for_lane (bk_rt b) l" for l
      unfolding active_frame(2)[OF rt'] using started_lane_jobs[OF rtok r(1) sst] res q by simp
  qed
  have wk: "waiter_ok L (bk_rt b') (bk_queue b') j v" if "dget (bk_waiters b') j = Some v" for j v
  proof -
    have jk: "j \<noteq> k" and jw: "dget (bk_waiters b) j = Some v"
      using that b' by (auto simp: dict_simps split: if_splits)
    have old: "waiter_ok L (bk_rt b) (bk_queue b) j v" using okd jw by simp
    then have "entry_sync (wt_entry v) (bk_queue b')" using b' by (auto simp: waiter_ok_def entry_sync_def)
    then show ?thesis using waiter_ok_other[OF old jk] reqs ress jk by simp
  qed
  have own: "owned b'"
    unfolding owned_def
  proof (intro conjI allI impI ballI)
    fix j r' assume j: "dget (rt_requests (bk_rt b')) j = Some r'"
    show "rec_status r' = QUEUED \<Longrightarrow> j \<in> set (dkeys (bk_waiters b'))"
      using j reqs[of j] st ownedD(1,2)[OF okd(5)] b' by (cases "j = k") auto
    show "slot_status (rec_status r') \<Longrightarrow> j \<in> set (bk_running b')"
      using j reqs[of j] ownedD(1,2)[OF okd(5)] b' by (cases "j = k") auto
  next
    fix j assume "j \<in> set (dkeys (reservations (bk_rt b')))"
    then have "j \<in> set (dkeys (reservations (bk_rt b)))" "j \<noteq> k" using ress by auto
    then show "\<exists>w. dget (bk_waiters b') j = Some w \<and> qe_granted (wt_entry w)"
      using ownedD(3)[OF okd(5)] b' by (simp add: dict_simps)
  next
    fix e assume e: "e \<in> set (q_deque (bk_queue b'))"
    then have "qe_request_id e \<in> set (queued_ids (bk_queue b))" using b' by simp
    moreover have "k \<notin> set (queued_ids (bk_queue b))" using wk0 g id by (simp add: waiter_ok_def entry_sync_def)
    ultimately have "qe_request_id e \<noteq> k" by metis
    then show "\<exists>w. dget (bk_waiters b') (qe_request_id e) = Some w \<and> wt_entry w = e"
      using e ownedD(4)[OF okd(5)] b' by (simp add: dict_simps)
  qed
  have kk: "k \<in> set (dkeys (bk_waiters b))" "k \<in> set (dkeys (rt_requests (bk_rt b)))"
    using k r(1) dget_key by fast+
  have keys: "set (dkeys (rt_requests (bk_rt b'))) = set (dkeys (rt_requests (bk_rt b)))"
    using rt'(1) kk by (simp add: rt_views upd_req_def dict_simps dkeys_dset_in r(1))
  have "history_ok b'" using okd kk b' keys by (auto simp: history_ok_def)
  moreover have "queue_ok (bk_queue b')" using okd queue_ok_deque[OF b'(1)] by blast
  ultimately show ?thesis using okd rtok' cap wk own b' unfolding broker_ok_def by simp
qed

text \<open>A grant: the entry leaves the deque, its slot is reserved, and its waiter learns of it.\<close>

lemma reserve_entry_views:
  "rt_requests (reserve_entry e rt) = rt_requests rt"
  "set (dkeys (reservations (reserve_entry e rt))) = insert (qe_request_id e) (set (dkeys (reservations rt)))"
  using pd.keys_put[of "qe_request_id e" "qe_lane e" "reservations rt"]
  by (auto simp: reserve_entry_def reserve_capacity_def)

lemma waiter_lane_limit:
  assumes "waiter_ok L rt q k w" and "qe_lane (wt_entry w) = Some l"
  shows "entry_lane_limit (wt_entry w) = map_option (\<lambda>n. nat (max n 1)) (L l)"
  using assms by (simp add: waiter_ok_def entry_lane_limit_def)

lemma within_capacity_grant:
  assumes "within_capacity env L rt" and "capacity_now env h c rt" and "lane_open env h c rt e"
    and "\<And>l. qe_lane e = Some l \<Longrightarrow> entry_lane_limit e = map_option (\<lambda>n. nat (max n 1)) (L l)"
  shows "within_capacity env L (reserve_entry e rt)"
  unfolding within_capacity_def
proof (intro conjI allI impI)
  show "active_jobs (reserve_entry e rt) \<le> nat (operator_ceiling env)"
    using slots.available_below[OF assms(2)] slots.reserve_used[of e rt] by linarith
  fix l m assume lm: "l \<noteq> [] \<and> L l = Some m"
  then have old: "active_jobs_for_lane rt (Some l) \<le> nat (max m 1)"
    using assms(1) unfolding within_capacity_def by blast
  show "active_jobs_for_lane (reserve_entry e rt) (Some l) \<le> nat (max m 1)"
  proof (cases "qe_lane e = Some l")
    case True
    then have "entry_lane_limit e = Some (nat (max m 1))" using assms(4)[of l] lm by simp
    from slots.eligible_below[OF assms(3) this] True
    show ?thesis using slots.reserve_lane[of e rt "Some l"] by simp
  next
    case False
    then show ?thesis using slots.reserve_lane[of e rt "Some l"] old by (simp add: eq_commute)
  qed
qed

lemma broker_ok_grant:
  assumes ok: "broker_ok env L b" and e: "e \<in> set (q_deque (bk_queue b))"
    and cap: "capacity_now env h c (bk_rt b)" "lane_open env h c (bk_rt b) e"
    and rt': "bk_rt b' = reserve_entry e (bk_rt b)"
    and q': "q_deque (bk_queue b') = filter (\<lambda>x. qe_request_id x \<noteq> qe_request_id e) (q_deque (bk_queue b))"
    and b': "bk_waiters b' = deliver_grant (Some (mark_granted e)) (bk_waiters b)"
      "bk_running b' = bk_running b" "bk_dispatched b' = bk_dispatched b"
  shows "broker_ok env L b'"
proof -
  note okd = broker_okD[OF ok]
  let ?k = "qe_request_id e"
  obtain w where w: "dget (bk_waiters b) ?k = Some w" "wt_entry w = e" using ownedD(4)[OF okd(5) e] by blast
  have wk0: "waiter_ok L (bk_rt b) (bk_queue b) ?k w" by (rule okd(7)[OF w(1)])
  obtain r where r: "dget (rt_requests (bk_rt b)) ?k = Some r" "record_waits (bk_rt b) e r"
    using wk0 w(2) by (auto simp: waiter_ok_def)
  have ws: "bk_waiters b' = dset ?k (w\<lparr>wt_entry := mark_granted e\<rparr>) (bk_waiters b)"
    using b'(1) w by (simp add: deliver_grant_def)
  note rv = reserve_entry_views[of e "bk_rt b", folded rt']
  have keys: "set (dkeys (bk_waiters b')) = set (dkeys (bk_waiters b))"
    using ws dget_key[OF w(1)] by (simp only: dkeys_dset_in)
  have wk: "waiter_ok L (bk_rt b') (bk_queue b') j v" if "dget (bk_waiters b') j = Some v" for j v
  proof (cases "j = ?k")
    case True
    then have v: "v = w\<lparr>wt_entry := mark_granted e\<rparr>" using that ws by (simp add: dict_simps)
    have "record_waits (bk_rt b') (mark_granted e) r" using r(2) rv by (auto simp: record_waits_def)
    then show ?thesis
      using wk0 r(1) rv w(2) q' True v
      by (auto simp: waiter_ok_def entry_sync_def split: option.splits)
  next
    case False
    then have jw: "dget (bk_waiters b) j = Some v" using that ws by (simp add: dict_simps)
    have old: "waiter_ok L (bk_rt b) (bk_queue b) j v" by (rule okd(7)[OF jw])
    then have "entry_sync (wt_entry v) (bk_queue b')" using False q' by (auto simp: waiter_ok_def entry_sync_def)
    then show ?thesis using waiter_ok_other[OF old False] rv by simp
  qed
  have own: "owned b'"
    unfolding owned_def
  proof (intro conjI allI impI ballI)
    fix j r' assume j: "dget (rt_requests (bk_rt b')) j = Some r'"
    show "rec_status r' = QUEUED \<Longrightarrow> j \<in> set (dkeys (bk_waiters b'))"
      using j rv ownedD(1)[OF okd(5)] keys by simp
    show "slot_status (rec_status r') \<Longrightarrow> j \<in> set (bk_running b')"
      using j rv ownedD(2)[OF okd(5)] b' by simp
  next
    fix j assume "j \<in> set (dkeys (reservations (bk_rt b')))"
    then show "\<exists>w. dget (bk_waiters b') j = Some w \<and> qe_granted (wt_entry w)"
      using rv(2) ownedD(3)[OF okd(5), of j] ws by (cases "j = ?k") (auto simp: dict_simps)
  next
    fix x assume "x \<in> set (q_deque (bk_queue b'))"
    then have "x \<in> set (q_deque (bk_queue b))" "qe_request_id x \<noteq> ?k" using q' by auto
    then show "\<exists>w. dget (bk_waiters b') (qe_request_id x) = Some w \<and> wt_entry w = x"
      using ownedD(4)[OF okd(5)] ws by (simp add: dict_simps)
  qed
  have "runtime_ok (bk_rt b')"
    using runtime_ok_reserve[OF okd(1) r(1), of "qe_lane e"] r(2) rt'
    by (simp add: record_waits_def reserve_entry_def)
  moreover have "within_capacity env L (bk_rt b')"
    unfolding rt' using within_capacity_grant[OF okd(4) cap] waiter_lane_limit[OF wk0] w(2) by blast
  moreover have "history_ok b'" using okd(6) b' rv(1) keys by (simp add: history_ok_def)
  moreover have "queue_ok (bk_queue b')" by (rule queue_ok_filter[OF okd(2) q'])
  moreover have "dict_ok (bk_waiters b')" using okd(3) ws by simp
  ultimately show ?thesis using wk own unfolding broker_ok_def by blast
qed

lemma broker_ok_note_outcome:
  assumes ok: "broker_ok env L b" and k: "dget (bk_waiters b) k = Some v" and w: "wt_entry w = wt_entry v"
    and b': "b' = b\<lparr>bk_waiters := dset k w (bk_waiters b)\<rparr>"
  shows "broker_ok env L b'"
proof -
  note okd = broker_okD[OF ok]
  have keys: "dkeys (bk_waiters b') = dkeys (bk_waiters b)"
    using b' dget_key[OF k] by (simp add: dkeys_dset_in)
  have look: "\<exists>u'. dget (bk_waiters b') j = Some u' \<and> wt_entry u' = wt_entry u"
    if "dget (bk_waiters b) j = Some u" for j u
    using that k w b' by (cases "j = k") (auto simp: dict_simps)
  have prior: "\<exists>u. dget (bk_waiters b) j = Some u \<and> wt_entry u' = wt_entry u"
    if "dget (bk_waiters b') j = Some u'" for j u'
    using that k w b' by (cases "j = k") (auto simp: dict_simps)
  have "waiter_ok L (bk_rt b) (bk_queue b) j u'" if j: "dget (bk_waiters b') j = Some u'" for j u'
  proof -
    obtain u where "dget (bk_waiters b) j = Some u" "wt_entry u' = wt_entry u" using prior[OF j] by blast
    then show ?thesis using okd(7)[of j u] by (auto simp: waiter_ok_def split: option.splits)
  qed
  moreover have "owned b'"
    unfolding owned_def
  proof (intro conjI allI impI ballI)
    fix j r assume "dget (rt_requests (bk_rt b')) j = Some r"
    then have j: "dget (rt_requests (bk_rt b)) j = Some r" by (simp add: b')
    show "rec_status r = QUEUED \<Longrightarrow> j \<in> set (dkeys (bk_waiters b'))"
      using ownedD(1)[OF okd(5) j] keys by simp
    show "slot_status (rec_status r) \<Longrightarrow> j \<in> set (bk_running b')"
      using ownedD(2)[OF okd(5) j] b' by simp
  next
    fix j assume "j \<in> set (dkeys (reservations (bk_rt b')))"
    then have "j \<in> set (dkeys (reservations (bk_rt b)))" by (simp add: b')
    then obtain u where "dget (bk_waiters b) j = Some u" "qe_granted (wt_entry u)"
      using ownedD(3)[OF okd(5)] by blast
    then show "\<exists>w. dget (bk_waiters b') j = Some w \<and> qe_granted (wt_entry w)" using look by metis
  next
    fix e assume "e \<in> set (q_deque (bk_queue b'))"
    then have "e \<in> set (q_deque (bk_queue b))" by (simp add: b')
    then obtain u where "dget (bk_waiters b) (qe_request_id e) = Some u" "wt_entry u = e"
      using ownedD(4)[OF okd(5)] by blast
    then show "\<exists>w. dget (bk_waiters b') (qe_request_id e) = Some w \<and> wt_entry w = e" using look by metis
  qed
  moreover have "history_ok b'" unfolding history_ok_def keys using okd(6) by (simp add: history_ok_def b')
  moreover have "dict_ok (bk_waiters b')" using keys okd(3) by simp
  ultimately show ?thesis using okd(1,2,4) unfolding broker_ok_def b' by simp
qed

text \<open>Cancelling through the endpoint: the token is set and the record ends; the coroutine that
  owns the request finds out later.\<close>

lemma broker_ok_cancel:
  assumes ok: "broker_ok env L b" and s: "request_cancellation k (bk_rt b) = (True, rt1)"
  shows "broker_ok env L (b\<lparr>bk_rt := cancel_request now k rt1\<rparr>)" (is "broker_ok env L ?b")
proof -
  note okd = broker_okD[OF ok]
  let ?f = "\<lambda>r. if terminal_status (rec_status r) then r
                 else r\<lparr>rec_cancel_requested := True, rec_cancel_token := map_option token_cancel (rec_cancel_token r)\<rparr>"
  obtain r where r: "dget (rt_requests (bk_rt b)) k = Some r" "\<not> terminal_status (rec_status r)"
    using s by (auto simp: request_cancellation_def split: option.splits if_splits)
  have v1: "rt_requests rt1 = upd_req k ?f (rt_requests (bk_rt b))" "reservations rt1 = reservations (bk_rt b)"
    using request_cancellation_views[of k "bk_rt b"] s by simp_all
  have rt1: "runtime_ok rt1" using runtime_ok_ops(7)[OF okd(1), of k] s by simp
  have cl: "closes k rt1 (cancel_request now k rt1)" by (rule closes_ops)
  note cf = closes_facts[OF cl rt1]
  let ?r = "r\<lparr>rec_cancel_requested := True, rec_cancel_token := map_option token_cancel (rec_cancel_token r),
             rec_status := CANCELLED, rec_ended_at := Some now\<rparr>"
  have reqs: "dget (rt_requests (bk_rt ?b)) j = (if j = k then Some ?r else dget (rt_requests (bk_rt b)) j)" for j
    using r by (simp add: rt_views v1)
  have ress: "set (dkeys (reservations (bk_rt ?b))) = set (dkeys (reservations (bk_rt b))) - {k}"
    using cf(4) v1(2) by simp
  have cap: "within_capacity env L (bk_rt ?b)"
  proof (rule within_capacityI[OF okd(4)])
    show "active_jobs (bk_rt ?b) \<le> active_jobs (bk_rt b)"
      using cf(2) cancellation_active_jobs(1)[OF okd(1), of k] s by simp
    show "active_jobs_for_lane (bk_rt ?b) l \<le> active_jobs_for_lane (bk_rt b) l" for l
      using cf(3)[of l] cancellation_active_jobs(2)[OF okd(1), of k l] s by simp
  qed
  have wk: "waiter_ok L (bk_rt ?b) (bk_queue b) j w" if j: "dget (bk_waiters b) j = Some w" for j w
  proof (cases "j = k")
    case True
    have old: "waiter_ok L (bk_rt b) (bk_queue b) k w" using okd(7)[OF j] True by simp
    then have "record_waits (bk_rt b) (wt_entry w) r" using r(1) by (auto simp: waiter_ok_def)
    then have "record_waits (bk_rt ?b) (wt_entry w) ?r"
      by (auto simp: record_waits_def rec_cancelled_def token_cancel_def)
    then show ?thesis using old reqs[of k] True by (auto simp: waiter_ok_def split: option.splits)
  next
    case False
    have old: "waiter_ok L (bk_rt b) (bk_queue b) j w" by (rule okd(7)[OF j])
    then show ?thesis
      using waiter_ok_other[OF old False, of "bk_rt ?b" "bk_queue b"] reqs[of j] ress False
      by (simp add: waiter_ok_def)
  qed
  have "owned ?b"
    unfolding owned_def
  proof (intro conjI allI impI ballI)
    fix j r' assume j: "dget (rt_requests (bk_rt ?b)) j = Some r'"
    show "rec_status r' = QUEUED \<Longrightarrow> j \<in> set (dkeys (bk_waiters ?b))"
      using j reqs[of j] ownedD(1)[OF okd(5), of j r'] by (auto split: if_splits)
    show "slot_status (rec_status r') \<Longrightarrow> j \<in> set (bk_running ?b)"
      using j reqs[of j] ownedD(2)[OF okd(5), of j r'] by (auto simp: slot_status_def split: if_splits)
  next
    fix j assume "j \<in> set (dkeys (reservations (bk_rt ?b)))"
    then have "j \<in> set (dkeys (reservations (bk_rt b)))" using ress by blast
    then show "\<exists>w. dget (bk_waiters ?b) j = Some w \<and> qe_granted (wt_entry w)" using ownedD(3)[OF okd(5)] by simp
  next
    fix e assume "e \<in> set (q_deque (bk_queue ?b))"
    then show "\<exists>w. dget (bk_waiters ?b) (qe_request_id e) = Some w \<and> wt_entry w = e"
      using ownedD(4)[OF okd(5)] by simp
  qed
  moreover have "set (dkeys (rt_requests (bk_rt ?b))) = set (dkeys (rt_requests (bk_rt b)))"
  proof -
    have "dom (map_of (rt_requests (bk_rt ?b))) = dom (map_of (rt_requests (bk_rt b)))"
      using reqs r(1) by (auto simp: dom_def split: if_splits)
    then show ?thesis by (simp add: dom_map_of_conv_image_fst)
  qed
  then have "history_ok ?b" using okd(6) by (simp add: history_ok_def)
  ultimately show ?thesis using okd(2,3) cf(1) cap wk unfolding broker_ok_def by simp
qed

text \<open>A new request: its identifier is in neither dictionary.\<close>

lemma begin_fresh:
  assumes "runtime_ok rt" and "begin_request now hex model stream up lane rt = (rid, rt1)"
    and "rid \<notin> set (dkeys (rt_requests rt))"
  obtains r where "rt_requests rt1 = rt_requests rt @ [(rid, r)]" "reservations rt1 = reservations rt"
    "rid \<notin> set (dkeys (reservations rt))" "rec_status r = ACCEPTED" "rec_lane r = lane"
    "rec_cancel_token r = Some (new_token rid)" "runtime_ok rt1" "dget (rt_requests rt1) rid = Some r"
proof -
  obtain r where r: "rt_requests rt1 = dset rid r (rt_requests rt)" "rec_status r = ACCEPTED" "rec_lane r = lane"
      "rec_cancel_token r = Some (new_token rid)" using begin_request_views(3)[OF assms(2)] by blast
  moreover have "dget (rt_requests rt1) rid = Some r" using r(1) by (simp add: dict_simps)
  moreover have "rid \<notin> set (dkeys (reservations rt))"
  proof
    assume "rid \<in> set (dkeys (reservations rt))"
    then obtain l where "dget (reservations rt) rid = Some l" using key_dget by fast
    then obtain r where "dget (rt_requests rt) rid = Some r" using assms(1) unfolding runtime_ok_def by blast
    then show False using dget_key assms(3) by fast
  qed
  ultimately show thesis
    using that[of r] dset_fresh[OF assms(3)] begin_request_views(2)[OF assms(2)] runtime_ok_begin[OF assms] by simp
qed

lemma mark_queued_jobs:
  assumes "runtime_ok rt" and "dget (rt_requests rt) k = Some r" and "rec_status r = ACCEPTED"
  shows "active_jobs (mark_queued k rt) + 1 = active_jobs rt"
    and "active_jobs_for_lane (mark_queued k rt) l + of_bool (str_true l \<and> rec_lane r = l) = active_jobs_for_lane rt l"
  using assms dcount_upd_req[of "rt_requests rt" "\<lambda>r. slot_status (rec_status r)" k "rec_status_update (\<lambda>_. QUEUED)"]
    dcount_upd_req[of "rt_requests rt" "\<lambda>r. rec_lane r = l \<and> slot_status (rec_status r)" k "rec_status_update (\<lambda>_. QUEUED)"]
  by (auto simp: active_jobs_def active_jobs_for_lane_def rt_views runtime_ok_def slot_status_def)

lemma fresh_not_waiting:
  assumes "broker_ok env L b" and "rid \<notin> set (dkeys (rt_requests (bk_rt b)))"
  shows "rid \<notin> set (dkeys (bk_waiters b))" "rid \<notin> set (bk_dispatched b)" "rid \<notin> set (queued_ids (bk_queue b))"
proof -
  note okd = broker_okD[OF assms(1)]
  show w: "rid \<notin> set (dkeys (bk_waiters b))"
  proof
    assume "rid \<in> set (dkeys (bk_waiters b))"
    then obtain w where "dget (bk_waiters b) rid = Some w" using key_dget by fast
    then have "waiter_ok L (bk_rt b) (bk_queue b) rid w" by (rule okd(7))
    then show False using assms(2) dget_key[of "rt_requests (bk_rt b)" rid] by (auto simp: waiter_ok_def)
  qed
  show "rid \<notin> set (bk_dispatched b)" using okd(6) assms(2) by (auto simp: history_ok_def)
  show "rid \<notin> set (queued_ids (bk_queue b))"
    using ownedD(4)[OF okd(5)] w dget_key[of "bk_waiters b"] by fastforce
qed

lemma waiter_ok_extend:
  assumes old: "waiter_ok L rt q j w"
    and reqs: "dget (rt_requests rt') j = dget (rt_requests rt) j" and ress: "reservations rt' = reservations rt"
    and sync: "entry_sync (wt_entry w) q'"
  shows "waiter_ok L rt' q' j w"
  using assms by (auto simp: waiter_ok_def record_waits_def split: option.splits)

lemma dget_append_fresh:
  "k \<notin> set (dkeys d) \<Longrightarrow> dget (d @ [(k, v)]) j = (if j = k then Some v else dget d j)"
  by (auto simp: map_add_def map_of_eq_None_iff[symmetric] split: option.split)

text \<open>A request that runs at once.\<close>

lemma broker_ok_arrive_run:
  assumes ok: "broker_ok env L b" and beg: "begin_request now hex model stream up lane (bk_rt b) = (rid, rt1)"
    and fresh: "rid \<notin> set (dkeys (rt_requests (bk_rt b)))" and st: "st = RUNNING \<or> st = STREAMING"
    and room: "active_jobs (bk_rt b) < nat (operator_ceiling env)"
    and lroom: "\<And>l m. lane = Some l \<Longrightarrow> L l = Some m \<Longrightarrow> active_jobs_for_lane (bk_rt b) (Some l) < nat (max m 1)"
  shows "broker_ok env L (start_execution rid (b\<lparr>bk_rt := mark_started st rid rt1\<rparr>))" (is "broker_ok env L ?b")
proof -
  note okd = broker_okD[OF ok] and new = fresh_not_waiting[OF ok fresh]
  obtain r where r: "rt_requests rt1 = rt_requests (bk_rt b) @ [(rid, r)]" "reservations rt1 = reservations (bk_rt b)"
    "rid \<notin> set (dkeys (reservations (bk_rt b)))" "rec_status r = ACCEPTED" "rec_lane r = lane"
    "runtime_ok rt1" "dget (rt_requests rt1) rid = Some r"
    using begin_fresh[OF okd(1) beg fresh] by metis
  have sst: "slot_status st" using st by (auto simp: slot_status_def)
  have look1: "dget (rt_requests rt1) j = (if j = rid then Some r else dget (rt_requests (bk_rt b)) j)" for j
    unfolding r(1) by (rule dget_append_fresh[OF fresh])
  have reqs: "dget (rt_requests (bk_rt ?b)) j = (if j = rid then Some (r\<lparr>rec_status := st\<rparr>) else dget (rt_requests (bk_rt b)) j)" for j
    using r(4) by (simp add: start_execution_def rt_views look1)
  have ress: "reservations (bk_rt ?b) = reservations (bk_rt b)"
    using r by (simp add: start_execution_def rt_views dpop_fresh)
  have act: "active_jobs (bk_rt ?b) = active_jobs (bk_rt b) + 1"
    using started_active_jobs[OF r(6,7) sst] r(2,3,4) begin_active_jobs(1)[OF beg fresh]
    by (simp add: start_execution_def)
  have lact: "active_jobs_for_lane (bk_rt ?b) l = active_jobs_for_lane (bk_rt b) l + of_bool (str_true l \<and> l = lane)" for l
    using started_lane_jobs[OF r(6,7) sst] r(2,3,4) begin_active_jobs(2)[OF beg fresh]
    by (simp add: start_execution_def)
  have cap: "within_capacity env L (bk_rt ?b)"
    unfolding within_capacity_def
  proof (intro conjI allI impI)
    show "active_jobs (bk_rt ?b) \<le> nat (operator_ceiling env)" using act room by simp
    fix l m assume lm: "l \<noteq> [] \<and> L l = Some m"
    then have "active_jobs_for_lane (bk_rt b) (Some l) \<le> nat (max m 1)"
      using okd(4) unfolding within_capacity_def by blast
    then show "active_jobs_for_lane (bk_rt ?b) (Some l) \<le> nat (max m 1)"
      using lact[of "Some l"] lroom[of l m] lm by (cases "lane = Some l") auto
  qed
  have wk: "waiter_ok L (bk_rt ?b) (bk_queue b) j w" if j: "dget (bk_waiters b) j = Some w" for j w
  proof -
    have "j \<noteq> rid" using dget_key[OF j] new(1) by auto
    then show ?thesis
      using waiter_ok_extend[OF okd(7)[OF j], of "bk_rt ?b" "bk_queue b"] reqs[of j] ress okd(7)[OF j]
      by (simp add: waiter_ok_def)
  qed
  have "owned ?b"
    unfolding owned_def
  proof (intro conjI allI impI ballI)
    fix j r' assume j: "dget (rt_requests (bk_rt ?b)) j = Some r'"
    show "rec_status r' = QUEUED \<Longrightarrow> j \<in> set (dkeys (bk_waiters ?b))"
      using j reqs[of j] st ownedD(1)[OF okd(5), of j r'] by (auto simp: start_execution_def split: if_splits)
    show "slot_status (rec_status r') \<Longrightarrow> j \<in> set (bk_running ?b)"
      using j reqs[of j] ownedD(2)[OF okd(5), of j r'] by (auto simp: start_execution_def split: if_splits)
  next
    fix j assume "j \<in> set (dkeys (reservations (bk_rt ?b)))"
    then show "\<exists>w. dget (bk_waiters ?b) j = Some w \<and> qe_granted (wt_entry w)"
      using ownedD(3)[OF okd(5)] by (simp add: ress) (simp add: start_execution_def)
  next
    fix e assume "e \<in> set (q_deque (bk_queue ?b))"
    then show "\<exists>w. dget (bk_waiters ?b) (qe_request_id e) = Some w \<and> wt_entry w = e"
      using ownedD(4)[OF okd(5)] by (simp add: start_execution_def)
  qed
  moreover have "set (dkeys (rt_requests (bk_rt ?b))) = insert rid (set (dkeys (rt_requests (bk_rt b))))"
    using r(1,7) by (simp add: start_execution_def rt_views upd_req_def dict_simps)
  then have "history_ok ?b" using okd(6) new by (auto simp: history_ok_def start_execution_def)
  moreover have "runtime_ok (bk_rt ?b)" using runtime_ok_ops(3)[OF r(6)] by (simp add: start_execution_def)
  ultimately show ?thesis using okd(2,3) cap wk unfolding broker_ok_def by (simp add: start_execution_def)
qed

text \<open>A request that waits.\<close>

lemma broker_ok_arrive_queue:
  assumes ok: "broker_ok env L b" and beg: "begin_request now hex model stream up lane (bk_rt b) = (rid, rt1)"
    and fresh: "rid \<notin> set (dkeys (rt_requests (bk_rt b)))"
    and e: "qe_request_id (wt_entry w) = rid" "\<not> qe_granted (wt_entry w)" "qe_lane (wt_entry w) = lane"
      "case lane of None \<Rightarrow> True | Some l \<Rightarrow> l \<noteq> [] \<and> qe_lane_max_concurrent (wt_entry w) = L l"
    and q': "q_deque q' = q_deque (bk_queue b) @ [wt_entry w]" "queue_ok q'"
  shows "broker_ok env L (b\<lparr>bk_rt := mark_queued rid rt1, bk_queue := q', bk_waiters := dset rid w (bk_waiters b)\<rparr>)"
    (is "broker_ok env L ?b")
proof -
  note okd = broker_okD[OF ok] and new = fresh_not_waiting[OF ok fresh]
  obtain r where r: "rt_requests rt1 = rt_requests (bk_rt b) @ [(rid, r)]" "reservations rt1 = reservations (bk_rt b)"
    "rid \<notin> set (dkeys (reservations (bk_rt b)))" "rec_status r = ACCEPTED" "rec_lane r = lane"
    "rec_cancel_token r = Some (new_token rid)" "runtime_ok rt1" "dget (rt_requests rt1) rid = Some r"
    by (rule begin_fresh[OF okd(1) beg fresh]) blast
  have look1: "dget (rt_requests rt1) j = (if j = rid then Some r else dget (rt_requests (bk_rt b)) j)" for j
    unfolding r(1) by (rule dget_append_fresh[OF fresh])
  have reqs: "dget (rt_requests (bk_rt ?b)) j = (if j = rid then Some (r\<lparr>rec_status := QUEUED\<rparr>) else dget (rt_requests (bk_rt b)) j)" for j
    by (simp add: rt_views look1)
  have ress: "reservations (bk_rt ?b) = reservations (bk_rt b)" using r by (simp add: rt_views)
  have cap: "within_capacity env L (bk_rt ?b)"
  proof (rule within_capacityI[OF okd(4)])
    show "active_jobs (bk_rt ?b) \<le> active_jobs (bk_rt b)"
      using mark_queued_jobs(1)[OF r(7,8,4)] begin_active_jobs(1)[OF beg fresh] by simp
    show "active_jobs_for_lane (bk_rt ?b) l \<le> active_jobs_for_lane (bk_rt b) l" for l
      using mark_queued_jobs(2)[OF r(7,8,4), of l] begin_active_jobs(2)[OF beg fresh, of l] r(5)
      by (simp add: eq_commute)
  qed
  have look: "dget (bk_waiters ?b) j = (if j = rid then Some w else dget (bk_waiters b) j)" for j
    by (simp add: dict_simps)
  have wk: "waiter_ok L (bk_rt ?b) q' j v" if j: "dget (bk_waiters ?b) j = Some v" for j v
  proof (cases "j = rid")
    case True
    then have "v = w" using j look[of j] by simp
    moreover have "record_waits (bk_rt ?b) (wt_entry w) (r\<lparr>rec_status := QUEUED\<rparr>)"
      using r(5,6) e by (simp add: record_waits_def rec_cancelled_def new_token_def)
    ultimately show ?thesis using e q'(1) reqs[of rid] True
      by (auto simp: waiter_ok_def entry_sync_def)
  next
    case False
    then have jw: "dget (bk_waiters b) j = Some v" using j look[of j] by simp
    note old = okd(7)[OF jw]
    have "entry_sync (wt_entry v) q'" using old False e(1) q'(1) by (auto simp: waiter_ok_def entry_sync_def)
    then show ?thesis using waiter_ok_extend[OF old, of "bk_rt ?b" q'] reqs[of j] ress False by simp
  qed
  have "owned ?b"
    unfolding owned_def
  proof (intro conjI allI impI ballI)
    fix j r' assume j: "dget (rt_requests (bk_rt ?b)) j = Some r'"
    show "rec_status r' = QUEUED \<Longrightarrow> j \<in> set (dkeys (bk_waiters ?b))"
      using j reqs[of j] ownedD(1)[OF okd(5), of j r'] pd.keys_put[of rid w "bk_waiters b"]
      by (auto split: if_splits)
    show "slot_status (rec_status r') \<Longrightarrow> j \<in> set (bk_running ?b)"
      using j reqs[of j] ownedD(2)[OF okd(5), of j r'] by (auto simp: slot_status_def split: if_splits)
  next
    fix j assume "j \<in> set (dkeys (reservations (bk_rt ?b)))"
    then have jr: "j \<in> set (dkeys (reservations (bk_rt b)))" unfolding ress .
    with r(3) have "j \<noteq> rid" by auto
    then show "\<exists>w. dget (bk_waiters ?b) j = Some w \<and> qe_granted (wt_entry w)"
      using ownedD(3)[OF okd(5) jr] look[of j] by simp
  next
    fix x assume "x \<in> set (q_deque (bk_queue ?b))"
    then consider "x = wt_entry w" | "x \<in> set (q_deque (bk_queue b))" using q'(1) by auto
    then show "\<exists>w. dget (bk_waiters ?b) (qe_request_id x) = Some w \<and> wt_entry w = x"
    proof cases
      case 1
      then show ?thesis using e(1) look[of rid] by auto
    next
      case 2
      then have "qe_request_id x \<noteq> rid" using new(3) by auto
      then show ?thesis using ownedD(4)[OF okd(5) 2] look by simp
    qed
  qed
  moreover have "set (dkeys (rt_requests (bk_rt ?b))) = insert rid (set (dkeys (rt_requests (bk_rt b))))"
    using r(1,8) by (simp add: rt_views upd_req_def dict_simps)
  then have "history_ok ?b" using okd(6) new pd.keys_put[of rid w "bk_waiters b"] by (auto simp: history_ok_def)
  moreover have "runtime_ok (bk_rt ?b)" using runtime_ok_ops(1)[OF r(7)] by simp
  moreover have "dict_ok (bk_waiters ?b)" using okd(3) by simp
  ultimately show ?thesis using q'(2) cap wk unfolding broker_ok_def by simp
qed

section \<open>The steps preserve the invariant\<close>

lemma active_capacity_room:
  assumes "fst (active_capacity_available env h c rt lane lm)"
  shows "active_jobs rt < nat (operator_ceiling env)"
    and "lane = Some l \<Longrightarrow> l \<noteq> [] \<Longrightarrow> lm = Some m \<Longrightarrow> active_jobs_for_lane rt (Some l) < nat (max m 1)"
proof -
  have "int (active_jobs rt) < fst (effective_active_limit env h c (memory_pressure_from_runtime rt))"
    using assms by (auto simp: active_capacity_available_def split: prod.splits if_splits)
  then show "active_jobs rt < nat (operator_ceiling env)"
    using effective_active_limit_bounds(2)[of env h c "memory_pressure_from_runtime rt"] by linarith
  show "lane = Some l \<Longrightarrow> l \<noteq> [] \<Longrightarrow> lm = Some m \<Longrightarrow> active_jobs_for_lane rt (Some l) < nat (max m 1)"
    using assms by (auto simp: active_capacity_available_def split: prod.splits if_splits)
qed

lemma has_slot_room:
  assumes "has_slot env h c rt lane lm"
  shows "active_jobs rt < nat (operator_ceiling env)"
    and "lane = Some l \<Longrightarrow> l \<noteq> [] \<Longrightarrow> lm = Some m \<Longrightarrow> active_jobs_for_lane rt (Some l) < nat (max m 1)"
proof -
  show "active_jobs rt < nat (operator_ceiling env)"
    using assms effective_active_limit_bounds(2)[of env h c "memory_pressure_from_runtime rt"]
    by (auto simp: has_slot_def)
  show "lane = Some l \<Longrightarrow> l \<noteq> [] \<Longrightarrow> lm = Some m \<Longrightarrow> active_jobs_for_lane rt (Some l) < nat (max m 1)"
    using assms by (auto simp: has_slot_def split: option.splits)
qed

lemma accepted_has_slot:
  assumes "evaluate_chat_request frepr env h c r rt lane lm m = Inr (a, c')" and "adm_accepted a"
  shows "has_slot env h c rt lane lm"
proof (cases "structurally_valid env r")
  case True
  have "decide env (request_context frepr env h c r rt lane lm m)
        (fst (effective_active_limit env h c (memory_pressure_from_runtime rt))) = RUN"
    using accepted_iff_run[OF True assms(1)] assms(2) by blast
  then show ?thesis unfolding decide_request[OF refl] by (simp split: if_splits)
next
  case False
  then show ?thesis using evaluate_chat_request_structural[OF False, where frepr = frepr and h = h and c = c and rt = rt and lane = lane and lane_max = lm and m = m] assms by simp
qed

lemma accepted_or_queued:
  assumes "evaluate_chat_request frepr env h c r rt lane lm m = Inr (a, c')"
  shows "adm_reason a = AD_QUEUED \<Longrightarrow> \<not> adm_accepted a"
proof (cases "structurally_valid env r")
  case True
  then show "adm_reason a = AD_QUEUED \<Longrightarrow> \<not> adm_accepted a" using accepted_iff_run(1)[OF True assms] by simp
next
  case False
  then show "adm_reason a = AD_QUEUED \<Longrightarrow> \<not> adm_accepted a"
    using evaluate_chat_request_structural[OF False, where frepr = frepr and h = h and c = c and rt = rt and lane = lane and lane_max = lm and m = m] assms by auto
qed

lemma begin_id: "begin_request now hex model stream up lane rt = (rid, rt1) \<Longrightarrow> rid = generate_whoosh_request_id hex"
  by (rule begin_request_views(1))

text \<open>The three continuations of an admitted arrival, from a broker whose counters have moved.\<close>

lemma chat_arrival_ok:
  assumes ok: "broker_ok env L b" and route: "route_ok L res" and fresh: "fresh_id b (arr_hex arr)"
    and step: "chat_arrival frepr env h arr res req b = (rep, b')"
  shows "broker_ok env L b'"
proof -
  let ?m = "Some (if res_resolved_model_id res \<noteq> [] then res_resolved_model_id res else req_model req)"
  let ?E = "evaluate_chat_request frepr env h (bk_ctl b) req (bk_rt b) (res_lane res) (res_lane_max_concurrent res) ?m"
  show ?thesis
  proof (cases ?E)
    case (Inl e)
    then show ?thesis using step ok by (simp add: chat_arrival_def)
  next
    case (Inr ac)
    obtain a c' where ac: "?E = Inr (a, c')" using Inr by (cases ac) simp
    let ?b = "b\<lparr>bk_ctl := c', bk_rt := record_accepted (bk_rt b)\<rparr>"
    have okb: "broker_ok env L ?b" by (rule broker_ok_frame[OF ok]) (simp_all add: rt_views)
    have frame: "broker_ok env L (b\<lparr>bk_ctl := c', bk_rt := rt\<rparr>)"
      if "rt_requests rt = rt_requests (bk_rt b)" "reservations rt = reservations (bk_rt b)" for rt
      by (rule broker_ok_frame[OF ok]) (simp_all add: that)
    have fr: "generate_whoosh_request_id (arr_hex arr) \<notin> set (dkeys (rt_requests (bk_rt ?b)))"
      using fresh by (simp add: fresh_id_def rt_views)
    have run: "broker_ok env L (start_execution rid (?b\<lparr>bk_rt := mark_started st rid rt1\<rparr>))"
      if acc: "adm_accepted a" and beg: "begin_request (arr_now arr) (arr_hex arr) model stream (arr_upstream arr) (res_lane res) (bk_rt ?b) = (rid, rt1)"
        and st: "st = RUNNING \<or> st = STREAMING" for model stream rid rt1 st
    proof (rule broker_ok_arrive_run[OF okb beg _ st])
      note slot = accepted_has_slot[OF ac acc]
      show "rid \<notin> set (dkeys (rt_requests (bk_rt ?b)))" using fr begin_id[OF beg] by simp
      show "active_jobs (bk_rt ?b) < nat (operator_ceiling env)" using has_slot_room(1)[OF slot] by simp
      show "active_jobs_for_lane (bk_rt ?b) (Some l) < nat (max m 1)" if "res_lane res = Some l" "L l = Some m" for l m
        using has_slot_room(2)[OF slot] that route by (simp add: route_ok_def)
    qed
    have wait: "broker_ok env L (?b\<lparr>bk_rt := mark_queued rid rt1, bk_queue := enqueue t w e (bk_queue ?b),
                  bk_waiters := dset rid \<lparr>wt_entry = e, wt_stream = s, wt_resolution = res, wt_last = W_RETRY\<rparr> (bk_waiters ?b)\<rparr>)"
      if beg: "begin_request (arr_now arr) (arr_hex arr) model stream (arr_upstream arr) (res_lane res) (bk_rt ?b) = (rid, rt1)"
        and e: "e = stamp_deadline t w (new_entry t' rid be up (res_lane res) (res_lane_max_concurrent res))"
      for model stream rid rt1 e t t' w s be up
    proof (rule broker_ok_arrive_queue[OF okb beg])
      show f: "rid \<notin> set (dkeys (rt_requests (bk_rt ?b)))" using fr begin_id[OF beg] by simp
      have e': "stamp_deadline t w e = e" by (simp add: e)
      show "q_deque (enqueue t w e (bk_queue ?b)) = q_deque (bk_queue ?b) @ [wt_entry \<lparr>wt_entry = e, wt_stream = s, wt_resolution = res, wt_last = W_RETRY\<rparr>]"
        by (simp add: enqueue_def e')
      show "queue_ok (enqueue t w e (bk_queue ?b))"
        by (rule queue_ok_enqueue) (use broker_okD(2)[OF okb] fresh_not_waiting(3)[OF okb f] e in \<open>simp_all add: new_entry_def\<close>)
    qed (use e route in \<open>auto simp: new_entry_def route_ok_def split: option.splits\<close>)
    show ?thesis
      using step ac
      unfolding chat_arrival_def mark_running_def mark_streaming_def
      by (auto simp: Let_def rt_views split: if_splits sum.splits prod.splits
          intro!: frame intro: run[simplified] wait[simplified])
  qed
qed

lemma generate_arrival_ok:
  assumes ok: "broker_ok env L b" and route: "route_ok L res" and fresh: "fresh_id b (arr_hex arr)"
    and step: "generate_arrival env h arr res req b = (rep, b')"
  shows "broker_ok env L b'"
proof -
  have frame: "broker_ok env L (b\<lparr>bk_ctl := c, bk_rt := rt\<rparr>)"
    if "rt_requests rt = rt_requests (bk_rt b)" "reservations rt = reservations (bk_rt b)" for c rt
    by (rule broker_ok_frame[OF ok]) (simp_all add: that)
  have run: "broker_ok env L (start_execution rid (b\<lparr>bk_ctl := c2, bk_rt := mark_started RUNNING rid rt1\<rparr>))"
    if cap: "active_capacity_available env h c1 (bk_rt b) (res_lane res) (res_lane_max_concurrent res) = (True, c2)"
      and beg: "begin_request (arr_now arr) (arr_hex arr) model False (arr_upstream arr) (res_lane res) (record_accepted (bk_rt b)) = (rid, rt1)"
    for c1 c2 model rid rt1
  proof -
    let ?b = "b\<lparr>bk_ctl := c2, bk_rt := record_accepted (bk_rt b)\<rparr>"
    have okb: "broker_ok env L ?b" by (rule frame) (simp_all add: rt_views)
    have fr: "rid \<notin> set (dkeys (rt_requests (bk_rt ?b)))"
      using fresh begin_id[OF beg] by (simp add: fresh_id_def rt_views)
    note room = active_capacity_room[of env h c1 "bk_rt b" "res_lane res" "res_lane_max_concurrent res"]
    have "broker_ok env L (start_execution rid (?b\<lparr>bk_rt := mark_started RUNNING rid rt1\<rparr>))"
    proof (rule broker_ok_arrive_run[OF okb _ fr])
      show "begin_request (arr_now arr) (arr_hex arr) model False (arr_upstream arr) (res_lane res) (bk_rt ?b) = (rid, rt1)"
        using beg by simp
      show "active_jobs (bk_rt ?b) < nat (operator_ceiling env)" using room(1) cap by simp
      show "active_jobs_for_lane (bk_rt ?b) (Some l) < nat (max m 1)" if "res_lane res = Some l" "L l = Some m" for l m
        using room(2)[of l m] cap that route by (simp add: route_ok_def)
    qed simp
    then show ?thesis by simp
  qed
  obtain budgets c1 where c1: "resolve_context_budgets env h (bk_ctl b)
      (Some (if res_resolved_model_id res \<noteq> [] then res_resolved_model_id res
             else (case gen_model_id req of None \<Rightarrow> ''stub-model'' | Some m \<Rightarrow> if m = [] then ''stub-model'' else m))) = (budgets, c1)"
    by fastforce
  obtain ok2 c2 where c2: "active_capacity_available env h c1 (bk_rt b) (res_lane res) (res_lane_max_concurrent res) = (ok2, c2)"
    by fastforce
  show ?thesis
    using step c2
    unfolding generate_arrival_def Let_def c1 mark_running_def
    by (auto simp: rt_views split: if_splits prod.splits intro!: frame intro: run[simplified])
qed

lemma exec_finish_ok:
  assumes "broker_ok env L b" and "k \<in> set (bk_running b)"
  shows "broker_ok env L (exec_finish now k e b)"
proof (rule broker_ok_finish[OF assms])
  have "closes k (bk_rt b) (cancel_request now k (record_stream_disconnect k (bk_rt b)))"
  proof -
    have "closes k (record_stream_disconnect k (bk_rt b)) (cancel_request now k (record_stream_disconnect k (bk_rt b)))"
      by (rule closes_ops)
    then show ?thesis by (simp add: closes_def rt_views)
  qed
  then show "closes k (bk_rt b) (bk_rt (exec_finish now k e b))"
    using closes_ops by (cases e) (simp_all add: exec_finish_def)
qed (simp_all add: exec_finish_def)

lemma cancel_endpoint_ok:
  assumes ok: "broker_ok env L b" and step: "cancel_endpoint now k b = (rep, b')"
  shows "broker_ok env L b'"
proof -
  obtain s rt1 where c: "request_cancellation k (bk_rt b) = (s, rt1)" by fastforce
  have "\<not> s \<Longrightarrow> rt1 = bk_rt b"
    using c by (auto simp: request_cancellation_def split: option.splits if_splits)
  then show ?thesis using step ok c broker_ok_cancel[OF ok, of k rt1 now]
    by (cases s) (auto simp: cancel_endpoint_def split: option.splits if_splits)
qed

text \<open>Starting the execution of a granted waiter, with the batch attempt that finds nothing.\<close>

lemma first_group_absent:
  "(\<forall>g \<in> set gs. sel \<notin> set (bg_request_ids g)) \<Longrightarrow> first_group es sel gs = None"
  by (induction gs) (auto simp: Let_def)

lemma analyze_members:
  assumes "g \<in> set (ba_groups (analyze an uuid cs en))"
  shows "set (bg_request_ids g) \<subseteq> set (map bc_request_id cs)"
proof -
  obtain i where "i < length (partition_candidates an cs)" "g = build_group an (uuid i) (partition_candidates an cs ! i)"
    using assms by (auto simp: analyze_def Let_def in_set_enumerate_eq split: if_splits)
  then obtain ms where "ms \<in> set (partition_candidates an cs)" "g = build_group an (uuid i) ms"
    using nth_mem by blast
  then show ?thesis using partition_candidates_members[of ms an cs]
    by (auto simp: build_group_def Let_def dest: list_emb_set)
qed

lemma find_batch_group_absent:
  assumes "sel \<notin> set (queued_ids q)"
  shows "find_batch_group an uuid en sel q = None"
proof -
  have "sel \<notin> set (bg_request_ids g)" if "g \<in> set (ba_groups (analyze an uuid (build_batch_candidates q) en))" for g
    using analyze_members[OF that] assms by (auto simp: build_batch_candidates_def)
  then show ?thesis by (simp add: find_batch_group_def first_group_absent)
qed

lemma live_batch_none: "rid \<notin> set (queued_ids q) \<Longrightarrow> live_batch_group env uuid res rid rt q = None"
  by (simp add: live_batch_group_def find_batch_group_absent)

lemma after_wait_true_ok:
  assumes ok: "broker_ok env L b" and k: "dget (bk_waiters b) k = Some v" "qe_granted (wt_entry v)"
    and nc: "\<not> token_cancelled (bk_rt b) k"
    and step: "after_wait env tk W_TRUE w k b = (rep, b')"
  shows "broker_ok env L b'"
proof -
  note okd = broker_okD[OF ok]
  let ?rt = "mark_dequeued k (bk_rt b)"
  have wk: "waiter_ok L (bk_rt b) (bk_queue b) k v" by (rule okd(7)[OF k(1)])
  then have absent: "k \<notin> set (queued_ids (bk_queue b))" using k(2) by (auto simp: waiter_ok_def entry_sync_def)
  have start: "broker_ok env L (start_execution k (b\<lparr>bk_waiters := dpop k (bk_waiters b), bk_rt := mark_started st k ?rt\<rparr>))"
    if "st = RUNNING \<or> st = STREAMING" for st
    by (rule broker_ok_start_granted[OF ok k nc that])
      (simp_all add: start_execution_def rt_views split: option.split)
  have stop: "broker_ok env L (b\<lparr>bk_waiters := dpop k (bk_waiters b), bk_rt := fail_request (tk_now tk) k None ?rt\<rparr>)"
  proof (rule broker_ok_give_up[OF ok])
    have "closes k ?rt (fail_request (tk_now tk) k None ?rt)" by (rule closes_ops)
    then show "closes k (bk_rt b) (bk_rt (b\<lparr>bk_waiters := dpop k (bk_waiters b), bk_rt := fail_request (tk_now tk) k None ?rt\<rparr>))"
      by (simp add: closes_def rt_views)
    show "q_deque (bk_queue (b\<lparr>bk_waiters := dpop k (bk_waiters b), bk_rt := fail_request (tk_now tk) k None ?rt\<rparr>))
        = filter (\<lambda>e. qe_request_id e \<noteq> k) (q_deque (bk_queue b))"
      using absent by (auto intro!: filter_True[symmetric])
    show "k \<in> set (dkeys (bk_waiters b))" by (rule dget_key[OF k(1)])
  qed simp_all
  show ?thesis
    using step start stop live_batch_none[OF absent]
    by (auto simp: after_wait_def Let_def mark_running_def mark_streaming_def split: if_splits)
qed

lemma after_wait_false_ok:
  assumes ok: "broker_ok env L b" and k: "k \<in> set (dkeys (bk_waiters b))"
    and q: "q_deque q = filter (\<lambda>e. qe_request_id e \<noteq> k) (q_deque (bk_queue b))"
    and step: "after_wait env tk W_FALSE w k (b\<lparr>bk_queue := q, bk_ctl := c\<rparr>) = (rep, b')"
  shows "broker_ok env L b'"
proof -
  have stop: "broker_ok env L (b\<lparr>bk_queue := q, bk_ctl := c, bk_rt := rt', bk_waiters := dpop k (bk_waiters b)\<rparr>)"
    if "closes k (bk_rt b) rt'" for rt'
    by (rule broker_ok_give_up[OF ok _ _ _ _ _ k]) (use that q in simp_all)
  have "closes k (bk_rt b) (record_queue_cancelled (cancel_request (tk_now tk) k (bk_rt b)))"
    by (rule closes_frame[OF closes_ops(2)]) (simp_all add: rt_views)
  then show ?thesis using step stop closes_ops(4)
    by (auto simp: after_wait_def Let_def split: if_splits)
qed

lemma reserve_entry_token [simp]: "token_cancelled (reserve_entry e rt) k = token_cancelled rt k"
  by (simp add: token_cancelled_def get_cancellation_token_def reserve_entry_views)

lemma deliver_grant_None [simp]: "deliver_grant None ws = ws"
  by (simp add: deliver_grant_def)

lemma wait_step_ok:
  assumes ok: "broker_ok env L b" and k: "dget (bk_waiters b) k = Some w"
    and step: "wait_step env h tk w b = (rep, b')"
  shows "broker_ok env L b'"
proof -
  define b0 where "b0 = b\<lparr>bk_queue := on_wake (wt_last w) (bk_queue b)\<rparr>"
  let ?c = "ctl_after_wait env h w b"
  have ok0: "broker_ok env L b0"
    by (rule broker_ok_frame[OF ok]) (simp_all add: b0_def on_wake_def clear_capacity_signal_def)
  have k0: "dget (bk_waiters b0) k = Some w" and rt0: "bk_rt b0 = bk_rt b" using k by (simp_all add: b0_def)
  note okd = broker_okD[OF ok0]
  have wk: "waiter_ok L (bk_rt b0) (bk_queue b0) k w" by (rule okd(7)[OF k0])
  then have id: "qe_request_id (wt_entry w) = k" and sync: "entry_sync (wt_entry w) (bk_queue b0)"
    by (simp_all add: waiter_ok_def)
  have kw: "k \<in> set (dkeys (bk_waiters b0))" by (rule dget_key[OF k0])
  let ?W = "wait_iteration env (tk_t0 tk) (tk_t1 tk) (tk_t2 tk) (token_cancelled (bk_rt b0) k)
      (capacity_now env h (bk_ctl b) (bk_rt b0)) (lane_open env h (bk_ctl b) (bk_rt b0))
      reserve_entry (wt_entry w) (bk_queue b0) (bk_rt b0)"
  have st: "(case ?W of (outcome, sel, q, rt) \<Rightarrow>
      after_wait env tk outcome w k (b0\<lparr>bk_rt := rt, bk_queue := q, bk_ctl := ?c,
        bk_waiters := deliver_grant sel (bk_waiters b0)\<rparr>)) = (rep, b')"
    using step by (simp add: wait_step_def id b0_def Let_def)
  have granted_ok: "broker_ok env L (b0\<lparr>bk_rt := reserve_entry e (bk_rt b0), bk_queue := q', bk_ctl := ?c,
        bk_waiters := deliver_grant (Some (mark_granted e)) (bk_waiters b0)\<rparr>)" (is "broker_ok env L (?b1 e q')")
    if "e \<in> set (q_deque (bk_queue b0))" "capacity_now env h (bk_ctl b) (bk_rt b0)"
      "lane_open env h (bk_ctl b) (bk_rt b0) e"
      "q_deque q' = filter (\<lambda>x. qe_request_id x \<noteq> qe_request_id e) (q_deque (bk_queue b0))" for e q'
    by (rule broker_ok_grant[OF ok0 that(1-3)]) (use that(4) in simp_all)
  show ?thesis
  proof (rule wait_cases[OF okd(2) sync, of env "tk_t0 tk" "tk_t1 tk" "tk_t2 tk" "token_cancelled (bk_rt b0) k"
        "capacity_now env h (bk_ctl b) (bk_rt b0)" "lane_open env h (bk_ctl b) (bk_rt b0)" reserve_entry "bk_rt b0"])
    assume "?W = (W_FALSE, None, snd (queue_remove (qe_request_id (wt_entry w)) (bk_queue b0)), bk_rt b0)"
    then show ?thesis using st id after_wait_false_ok[OF ok0 kw queue_remove_deque[OF okd(2)]] by simp
  next
    assume *: "?W = (W_TRUE, None, bk_queue b0, bk_rt b0)" "\<not> token_cancelled (bk_rt b0) k" "qe_granted (wt_entry w)"
    have okc: "broker_ok env L (b0\<lparr>bk_ctl := ?c\<rparr>)" by (rule broker_ok_frame[OF ok0]) simp_all
    show ?thesis using st * k0 after_wait_true_ok[OF okc, of k w tk w rep b'] by simp
  next
    fix q' assume *: "?W = (W_TRUE, Some (mark_granted (wt_entry w)), q', reserve_entry (wt_entry w) (bk_rt b0))"
      "\<not> token_cancelled (bk_rt b0) k" "\<not> qe_granted (wt_entry w)" "capacity_now env h (bk_ctl b) (bk_rt b0)"
      "lane_open env h (bk_ctl b) (bk_rt b0) (wt_entry w)"
      "q_deque q' = filter (\<lambda>x. qe_request_id x \<noteq> qe_request_id (wt_entry w)) (q_deque (bk_queue b0))"
    have "wt_entry w \<in> set (q_deque (bk_queue b0))" using sync *(3) by (simp add: entry_sync_def)
    from granted_ok[OF this *(4,5,6)] show ?thesis
      using st * id k0 after_wait_true_ok[of env L "?b1 (wt_entry w) q'" k "w\<lparr>wt_entry := mark_granted (wt_entry w)\<rparr>" tk w rep b']
      by (simp add: deliver_grant_def dict_simps)
  next
    fix e q1 q2 oc assume *: "?W = (oc, Some (mark_granted e), q2, reserve_entry e (bk_rt b0))"
      "capacity_now env h (bk_ctl b) (bk_rt b0)" "lane_open env h (bk_ctl b) (bk_rt b0) e"
      "e \<in> set (q_deque (bk_queue b0))" "qe_request_id e \<noteq> qe_request_id (wt_entry w)"
      "q_deque q1 = filter (\<lambda>x. qe_request_id x \<noteq> qe_request_id e) (q_deque (bk_queue b0))"
      "(if is_expired (tk_t2 tk) (Some (wt_entry w)) then oc = W_FALSE \<and> q2 = timeout_entry (wt_entry w) q1
        else oc = W_RETRY \<and> q2 = q1)"
    have ok1: "broker_ok env L (?b1 e q1)" by (rule granted_ok[OF *(4,2,3,6)])
    have k1: "dget (bk_waiters (?b1 e q1)) k = Some w"
      using k0 *(5) id by (simp add: deliver_grant_def dict_simps split: option.split)
    show ?thesis
    proof (cases "is_expired (tk_t2 tk) (Some (wt_entry w))")
      case True
      have eq: "?b1 e q1\<lparr>bk_queue := q2, bk_ctl := ?c\<rparr> = ?b1 e q2" by (cases b0) simp
      have "after_wait env tk W_FALSE w k (?b1 e q2) = (rep, b')" using st * True by simp
      then have "after_wait env tk W_FALSE w k (?b1 e q1\<lparr>bk_queue := q2, bk_ctl := ?c\<rparr>) = (rep, b')"
        by (simp only: eq)
      moreover have "q_deque q2 = filter (\<lambda>x. qe_request_id x \<noteq> k) (q_deque (bk_queue (?b1 e q1)))"
        using *(7) True queue_remove_deque[OF broker_okD(2)[OF ok1], of k] id by (simp add: timeout_entry_def)
      ultimately show ?thesis using after_wait_false_ok[OF ok1 dget_key[OF k1]] by blast
    next
      case False
      then have "b' = ?b1 e q1\<lparr>bk_waiters := dset k (w\<lparr>wt_last := W_RETRY\<rparr>) (bk_waiters (?b1 e q1))\<rparr>"
        using st * by (simp add: after_wait_def)
      then show ?thesis using broker_ok_note_outcome[OF ok1 k1] by simp
    qed
  next
    fix oc q' assume *: "?W = (oc, None, q', bk_rt b0)" "oc = W_RETRY \<or> oc = W_POLL" "q_deque q' = q_deque (bk_queue b0)"
    have okc: "broker_ok env L (b0\<lparr>bk_queue := q', bk_ctl := ?c\<rparr>)"
      by (rule broker_ok_frame[OF ok0]) (use * in simp_all)
    have "b' = b0\<lparr>bk_queue := q', bk_ctl := ?c, bk_waiters := dset k (w\<lparr>wt_last := oc\<rparr>) (bk_waiters b0)\<rparr>"
      using st * by (auto simp: after_wait_def)
    then show ?thesis using broker_ok_note_outcome[OF okc, of k w "w\<lparr>wt_last := oc\<rparr>"] k0 by simp
  next
    fix q' assume *: "?W = (W_FALSE, None, timeout_entry (wt_entry w) q', bk_rt b0)" "q_deque q' = q_deque (bk_queue b0)"
    have "queue_ok q'" using okd(2) queue_ok_deque[OF *(2)] by simp
    then have "q_deque (timeout_entry (wt_entry w) q') = filter (\<lambda>x. qe_request_id x \<noteq> k) (q_deque (bk_queue b0))"
      using *(2) id by (simp add: timeout_entry_def queue_remove_deque)
    then show ?thesis using st * after_wait_false_ok[OF ok0 kw] by simp
  qed
qed

lemma unrouted_ok: "broker_ok env L b \<Longrightarrow> unrouted b = (rep, b') \<Longrightarrow> broker_ok env L b'"
  by (rule broker_ok_frame[of env L b]) (auto simp: unrouted_def record_rejected_def)

lemma broker_step_ok: "broker_step env L b rep b' \<Longrightarrow> broker_ok env L b \<Longrightarrow> broker_ok env L b'"
  by (induction rule: broker_step.induct)
    (auto intro: chat_arrival_ok generate_arrival_ok unrouted_ok wait_step_ok exec_finish_ok cancel_endpoint_ok)

lemma reachable_ok: "reachable env L b \<Longrightarrow> broker_ok env L b"
  by (induction rule: reachable.induct) (auto intro: broker_ok_new broker_step_ok)

section \<open>Properties\<close>

text \<open>
  C2. Capacity safety. In every state the broker can reach, under any interleaving of arrivals,
  passes of waiters, grants, ends of execution and cancellations, the number of occupied slots (the
  active records and the reservations of granted requests) does not exceed the operator's ceiling,
  and the number of occupied slots of a lane does not exceed that lane's own ceiling.
\<close>

theorem broker_capacity_safety:
  assumes "reachable env L b"
  shows "int (active_jobs (bk_rt b)) \<le> operator_ceiling env
   \<and> (\<forall>lane m. lane \<noteq> [] \<and> L lane = Some m \<longrightarrow>
        int (active_jobs_for_lane (bk_rt b) (Some lane)) \<le> max m 1)"
proof -
  have cap: "within_capacity env L (bk_rt b)" using broker_okD(4)[OF reachable_ok[OF assms]] .
  have "int (active_jobs_for_lane (bk_rt b) (Some lane)) \<le> max m 1" if "lane \<noteq> [] \<and> L lane = Some m" for lane m
  proof -
    have "active_jobs_for_lane (bk_rt b) (Some lane) \<le> nat (max m 1)"
      using cap that unfolding within_capacity_def by blast
    then show ?thesis by linarith
  qed
  moreover have "int (active_jobs (bk_rt b)) \<le> operator_ceiling env"
  proof -
    have "active_jobs (bk_rt b) \<le> nat (operator_ceiling env)" using cap by (simp add: within_capacity_def)
    then show ?thesis using operator_ceiling_pos[of env] by linarith
  qed
  ultimately show ?thesis by blast
qed

definition demo_resolution :: RuntimeResolution where
  "demo_resolution =
     mk_resolution None (demo_adapter ''stub'') ''m'' ''configured_stub''"

definition demo_arrival :: "string \<Rightarrow> arrival" where
  "demo_arrival hex =
     \<lparr>arr_now = 0, arr_monotonic = 0, arr_hex = hex, arr_upstream = None, arr_timeout = 30\<rparr>"

definition demo_generate :: GenerateRequest where
  "demo_generate =
     \<lparr>gen_prompt = ''hi'', gen_model_id = Some ''m'', gen_max_tokens = 8, gen_temperature = 1,
      gen_top_p = 1, gen_stop = None, gen_request_id = None\<rparr>"

text \<open>A broker that serves one request, on a lane that takes one at a time.\<close>

definition demo_broker :: Broker where
  "demo_broker =
     snd (generate_arrival (\<lambda>_. None) (demo_host 0 None) (demo_arrival ''a'') demo_resolution demo_generate new_broker)"

definition demo_lanes :: "string \<Rightarrow> int option" where
  "demo_lanes = (\<lambda>l. if l = ''stub'' then Some 1 else None)"

lemma demo_broker_reachable: "reachable (\<lambda>_. None) demo_lanes demo_broker"
proof (rule reachable.step[OF reachable.init], rule broker_step.generate)
  show "route_ok demo_lanes demo_resolution" by (simp add: route_ok_def demo_resolution_def demo_lanes_def mk_resolution_def demo_adapter_def)
  show "fresh_id new_broker (arr_hex (demo_arrival ''a''))"
    by (simp add: fresh_id_def new_broker_def new_runtime_def)
  show "generate_arrival (\<lambda>_. None) (demo_host 0 None) (demo_arrival ''a'') demo_resolution demo_generate new_broker
      = (fst (generate_arrival (\<lambda>_. None) (demo_host 0 None) (demo_arrival ''a'') demo_resolution demo_generate new_broker), demo_broker)"
    by (simp add: demo_broker_def)
qed

definition demo_view :: "Broker \<Rightarrow> nat \<times> string list \<times> string list" where
  "demo_view b = (active_jobs (bk_rt b), bk_dispatched b, bk_running b)"

lemma demo_broker_view: "demo_view demo_broker = (1, [''whoosh-a''], [''whoosh-a''])"
  by code_simp

theorem broker_capacity_safety_witness:
  "int (active_jobs (bk_rt demo_broker)) \<le> operator_ceiling (\<lambda>_. None) \<and> active_jobs (bk_rt demo_broker) = 1
   \<and> int (active_jobs_for_lane (bk_rt demo_broker) (Some ''stub'')) \<le> 1"
proof -
  have "active_jobs (bk_rt demo_broker) = 1" using demo_broker_view by (simp add: demo_view_def)
  moreover have "demo_lanes ''stub'' = Some 1" by (simp add: demo_lanes_def)
  then have "int (active_jobs_for_lane (bk_rt demo_broker) (Some ''stub'')) \<le> max 1 1"
    using broker_capacity_safety[OF demo_broker_reachable] by blast
  ultimately show ?thesis using broker_capacity_safety[OF demo_broker_reachable] by simp
qed





text \<open>
  An abandoned execution leaks its slot: no coroutine is inside the adapter for it any more, the
  slot stays occupied, and a broker whose slots are all occupied refuses every generate request.
\<close>

lemma full_broker_refuses:
  assumes "operator_ceiling env \<le> int (active_jobs (bk_rt b))"
  shows "\<exists>n code. fst (generate_arrival env h arr res req b) = Refused n code"
proof -
  have "\<not> fst (active_capacity_available env h c (bk_rt b) lane lm)" for c lane lm
    using assms effective_active_limit_bounds(2)[of env h c "memory_pressure_from_runtime (bk_rt b)"]
    by (simp add: active_capacity_available_def case_prod_beta')
  then show ?thesis by (simp add: generate_arrival_def Let_def case_prod_beta')
qed

lemma abandoned_slot_stays:
  assumes "reachable env L b" and "k \<in> set (bk_running b)"
    and "operator_ceiling env \<le> int (active_jobs (bk_rt b))"
  shows "k \<notin> set (bk_running (exec_abandoned k b))"
    and "active_jobs (bk_rt (exec_abandoned k b)) = active_jobs (bk_rt b)"
    and "\<exists>n code. fst (generate_arrival env h arr res req (exec_abandoned k b)) = Refused n code"
proof -
  have "distinct (bk_running b)"
    using broker_okD(6)[OF reachable_ok[OF assms(1)]] by (simp add: history_ok_def)
  then show "k \<notin> set (bk_running (exec_abandoned k b))" by (simp add: exec_abandoned_def)
  show "active_jobs (bk_rt (exec_abandoned k b)) = active_jobs (bk_rt b)" by (simp add: exec_abandoned_def)
  show "\<exists>n code. fst (generate_arrival env h arr res req (exec_abandoned k b)) = Refused n code"
    by (rule full_broker_refuses) (use assms(3) in \<open>simp add: exec_abandoned_def\<close>)
qed

text \<open>What one pass of a waiter can answer, in terms of the outcome of the loop body.\<close>

lemma wait_step_outcome:
  assumes ok: "broker_ok env L b" and k: "dget (bk_waiters b) k = Some w"
    and step: "wait_step env h tk w b = (rep, b')"
  obtains outcome b1 where "after_wait env tk outcome w k b1 = (rep, b')"
    "outcome = W_TRUE \<Longrightarrow> \<not> token_cancelled (bk_rt b) k
       \<and> (\<not> is_expired (tk_t0 tk) (Some (wt_entry w)) \<or> \<not> is_expired (tk_t1 tk) (Some (wt_entry w)))"
    "token_cancelled (bk_rt b) k \<Longrightarrow> outcome = W_FALSE \<and> bk_rt b1 = bk_rt b"
    "outcome \<in> {W_TRUE, W_FALSE} \<Longrightarrow> k \<notin> set (queued_ids (bk_queue b1))"
    "is_expired (tk_t0 tk) (Some (wt_entry w)) \<and> is_expired (tk_t1 tk) (Some (wt_entry w))
       \<and> is_expired (tk_t2 tk) (Some (wt_entry w)) \<Longrightarrow> outcome = W_FALSE"
proof -
  note okd = broker_okD[OF ok]
  let ?q = "on_wake (wt_last w) (bk_queue b)"
  have dq: "q_deque ?q = q_deque (bk_queue b)" by (simp add: on_wake_def clear_capacity_signal_def)
  have wk: "waiter_ok L (bk_rt b) (bk_queue b) k w" by (rule okd(7)[OF k])
  then have id: "qe_request_id (wt_entry w) = k" and sync: "entry_sync (wt_entry w) ?q"
    using dq by (auto simp: waiter_ok_def entry_sync_def)
  have qok: "queue_ok ?q" using okd(2) queue_ok_deque[OF dq] by simp
  obtain oc sel q rt where W: "wait_iteration env (tk_t0 tk) (tk_t1 tk) (tk_t2 tk) (token_cancelled (bk_rt b) k)
      (capacity_now env h (bk_ctl b) (bk_rt b)) (lane_open env h (bk_ctl b) (bk_rt b))
      reserve_entry (wt_entry w) ?q (bk_rt b) = (oc, sel, q, rt)" using prod_cases4 by blast
  note facts = wait_iteration_facts[OF qok sync W, unfolded id]
  have canc: "oc = W_FALSE \<and> rt = bk_rt b" if "token_cancelled (bk_rt b) k"
    using W that by (auto simp: wait_iteration_def Let_def)
  let ?b1 = "b\<lparr>bk_rt := rt, bk_queue := q, bk_ctl := ctl_after_wait env h w b,
               bk_waiters := deliver_grant sel (bk_waiters b)\<rparr>"
  have aw: "after_wait env tk oc w k ?b1 = (rep, b')"
    using step unfolding wait_step_def id Let_def W by simp
  show thesis
  proof (rule that[OF aw])
    show "oc \<in> {W_TRUE, W_FALSE} \<Longrightarrow> k \<notin> set (queued_ids (bk_queue ?b1))" using facts by simp
    show "token_cancelled (bk_rt b) k \<Longrightarrow> oc = W_FALSE \<and> bk_rt ?b1 = bk_rt b" using canc by simp
  qed (use facts in blast)+
qed

text \<open>
  A waiting request starts in time or not at all. The pass of a waiter answers \<open>Started\<close> only
  for the waiter's own request, when it has not been cancelled and its queue deadline had not passed
  at the grant; a pass after the deadline never starts it; and a pass never answers \<open>Batched\<close>: by
  the time the batch group of the selected request is looked for, that request has left the queue,
  so no group contains it and the live batch path never forms a batch.
\<close>

theorem waiter_starts_in_time:
  assumes "broker_ok env L b" and "dget (bk_waiters b) k = Some w"
    and "wait_step env h tk w b = (rep, b')"
  shows "(\<forall>j. rep = Started j \<longrightarrow> j = k \<and> \<not> token_cancelled (bk_rt b) k
            \<and> (\<not> is_expired (tk_t0 tk) (Some (wt_entry w)) \<or> \<not> is_expired (tk_t1 tk) (Some (wt_entry w))))
       \<and> (is_expired (tk_t0 tk) (Some (wt_entry w)) \<and> is_expired (tk_t1 tk) (Some (wt_entry w))
            \<and> is_expired (tk_t2 tk) (Some (wt_entry w)) \<longrightarrow> rep \<in> {Refused 409 CANCELLED_CODE, Refused 504 TIMEOUT})
       \<and> (\<forall>j. rep \<noteq> Batched j)"
proof (rule wait_step_outcome[OF assms])
  fix outcome b1
  assume *: "after_wait env tk outcome w k b1 = (rep, b')"
    "outcome = W_TRUE \<Longrightarrow> \<not> token_cancelled (bk_rt b) k
       \<and> (\<not> is_expired (tk_t0 tk) (Some (wt_entry w)) \<or> \<not> is_expired (tk_t1 tk) (Some (wt_entry w)))"
    "outcome \<in> {W_TRUE, W_FALSE} \<Longrightarrow> k \<notin> set (queued_ids (bk_queue b1))"
    "is_expired (tk_t0 tk) (Some (wt_entry w)) \<and> is_expired (tk_t1 tk) (Some (wt_entry w))
       \<and> is_expired (tk_t2 tk) (Some (wt_entry w)) \<Longrightarrow> outcome = W_FALSE"
  have nb: "live_batch_group env (tk_uuid tk) (wt_resolution w) k rt (bk_queue b1) = None" if "outcome = W_TRUE" for rt
    using live_batch_none *(3) that by simp
  show ?thesis
    using *(1,2,4) nb by (cases outcome) (auto simp: after_wait_def Let_def split: if_splits)
qed

text \<open>A broker in which one request waits at the head of the queue.\<close>

definition demo_waiter :: Waiter where
  "demo_waiter =
     \<lparr>wt_entry = demo_entry ''whoosh-q'' (Some ''stub'') 0, wt_stream = False, wt_resolution = demo_resolution,
      wt_last = W_RETRY\<rparr>"

definition demo_waiting_broker :: Broker where
  "demo_waiting_broker =
     new_broker
       \<lparr>bk_rt := mark_queued ''whoosh-q'' (snd (begin_request 0 ''q'' ''m'' False None (Some ''stub'') new_runtime)),
        bk_queue := new_queue\<lparr>q_deque := [wt_entry demo_waiter]\<rparr>,
        bk_waiters := [(''whoosh-q'', demo_waiter)]\<rparr>"

lemma demo_waiting_ok: "broker_ok (\<lambda>_. None) demo_lanes demo_waiting_broker"
proof -
  let ?rt = "snd (begin_request 0 ''q'' ''m'' False None (Some ''stub'') new_runtime)"
  have "broker_ok (\<lambda>_. None) demo_lanes
      (new_broker\<lparr>bk_rt := mark_queued ''whoosh-q'' ?rt, bk_queue := new_queue\<lparr>q_deque := [wt_entry demo_waiter]\<rparr>,
        bk_waiters := dset ''whoosh-q'' demo_waiter (bk_waiters new_broker)\<rparr>)"
  proof (rule broker_ok_arrive_queue[OF broker_ok_new])
    show "begin_request 0 ''q'' ''m'' False None (Some ''stub'') (bk_rt new_broker) = (''whoosh-q'', ?rt)"
      by (simp add: begin_request_def new_broker_def generate_whoosh_request_id_def Let_def)
  qed (simp_all add: new_broker_def new_runtime_def demo_waiter_def demo_queue_simps demo_lanes_def queue_ok_def)
  then show ?thesis by (simp add: demo_waiting_broker_def new_broker_def)
qed

definition demo_tick :: "real \<Rightarrow> tick" where
  "demo_tick t = \<lparr>tk_t0 = t, tk_t1 = t, tk_t2 = t, tk_now = t, tk_uuid = (\<lambda>_. [])\<rparr>"

theorem waiter_starts_in_time_witness:
  "fst (wait_step (\<lambda>_. None) (demo_host 0 None) (demo_tick 60) demo_waiter demo_waiting_broker)
     \<in> {Refused 409 CANCELLED_CODE, Refused 504 TIMEOUT}"
proof -
  have k: "dget (bk_waiters demo_waiting_broker) ''whoosh-q'' = Some demo_waiter"
    by (simp add: demo_waiting_broker_def)
  have "is_expired 60 (Some (wt_entry demo_waiter))"
    by (simp add: is_expired_def demo_waiter_def demo_queue_simps)
  then show ?thesis
    using waiter_starts_in_time[OF demo_waiting_ok k, of "demo_host 0 None" "demo_tick 60"]
    by (cases "wait_step (\<lambda>_. None) (demo_host 0 None) (demo_tick 60) demo_waiter demo_waiting_broker")
      (simp add: demo_tick_def)
qed

text \<open>
  C13. Cancelling a queued request through the endpoint. The endpoint acknowledges, the record is
  cancelled at once and no slot is held for it; the next pass of its waiter, whatever the clock and
  the capacity, refuses it with 409 and never starts it. The runtime's counter of cancelled requests
  then has moved by two for the one request: both the endpoint and the waiter count it.
\<close>

theorem queued_cancellation:
  assumes "broker_ok env L b" and "dget (bk_waiters b) k = Some w" and "\<not> token_cancelled (bk_rt b) k"
    and "cancel_endpoint now k b = (rep1, b1)" and "wait_step env h tk w b1 = (rep2, b2)"
  shows "rep1 = Acknowledged \<and> rep2 = Refused 409 CANCELLED_CODE
       \<and> slot_of (bk_rt b1) k = 0 \<and> res_of (bk_rt b1) k = 0
       \<and> total_requests_cancelled (bk_rt b2) = total_requests_cancelled (bk_rt b) + 2"
proof -
  note okd = broker_okD[OF assms(1)]
  obtain r where r: "dget (rt_requests (bk_rt b)) k = Some r" "record_waits (bk_rt b) (wt_entry w) r"
    using okd(7)[OF assms(2)] by (auto simp: waiter_ok_def)
  then have q: "rec_status r = QUEUED" and tok: "rec_cancel_token r \<noteq> None"
    using assms(3) token_cancelled_rec[OF r(1)] by (auto simp: record_waits_def)
  let ?r = "r\<lparr>rec_cancel_requested := True, rec_cancel_token := map_option token_cancel (rec_cancel_token r)\<rparr>"
  obtain rt1 where c: "request_cancellation k (bk_rt b) = (True, rt1)"
    and rt1: "rt_requests rt1 = dset k ?r (rt_requests (bk_rt b))"
      "total_requests_cancelled rt1 = total_requests_cancelled (bk_rt b)"
    using r(1) q by (auto simp: request_cancellation_def terminal_status_def with_record_def)
  have step1: "rep1 = Acknowledged" "b1 = b\<lparr>bk_rt := cancel_request now k rt1\<rparr>"
    using assms(4) r(1) q c
    by (auto simp: cancel_endpoint_def get_request_snapshot_def snapshot_of_def terminal_status_def)
  have ok1: "broker_ok env L b1" unfolding step1(2) by (rule broker_ok_cancel[OF assms(1) c])
  have k1: "dget (bk_waiters b1) k = Some w" using assms(2) step1(2) by simp
  have look1: "dget (rt_requests (bk_rt b1)) k = Some (?r\<lparr>rec_status := CANCELLED, rec_ended_at := Some now\<rparr>)"
    by (simp add: step1(2) rt_views rt1(1) dict_simps)
  have tc: "token_cancelled (bk_rt b1) k"
    using tok token_cancelled_rec[OF look1] by (auto simp: rec_cancelled_def token_cancel_def)
  have n1: "total_requests_cancelled (bk_rt b1) = total_requests_cancelled (bk_rt b) + 1"
    by (simp add: step1(2) cancel_request_def rt1 dict_simps release_capacity_def with_record_def split: option.split)
  have z: "slot_of (bk_rt b1) k = 0" "res_of (bk_rt b1) k = 0"
    unfolding step1(2) using slot_of_closed[OF cancel_request_views, of now k rt1] by (simp_all add: slot_status_def)
  show ?thesis
  proof (rule wait_step_outcome[OF ok1 k1 assms(5)])
    fix outcome bb assume *: "after_wait env tk outcome w k bb = (rep2, b2)"
      "token_cancelled (bk_rt b1) k \<Longrightarrow> outcome = W_FALSE \<and> bk_rt bb = bk_rt b1"
    then have "rep2 = Refused 409 CANCELLED_CODE"
      "bk_rt b2 = record_queue_cancelled (cancel_request (tk_now tk) k (bk_rt b1))"
      using tc by (auto simp: after_wait_def Let_def)
    then show ?thesis using step1(1) z n1 look1
      by (simp add: record_queue_cancelled_def cancel_request_def release_capacity_def with_record_def)
  qed
qed

theorem queued_cancellation_witness:
  "fst (wait_step (\<lambda>_. None) (demo_host 0 None) (demo_tick 1) demo_waiter
          (snd (cancel_endpoint 1 ''whoosh-q'' demo_waiting_broker))) = Refused 409 CANCELLED_CODE"
proof -
  have k: "dget (bk_waiters demo_waiting_broker) ''whoosh-q'' = Some demo_waiter"
    by (simp add: demo_waiting_broker_def)
  have nc: "\<not> token_cancelled (bk_rt demo_waiting_broker) ''whoosh-q''"
    by (simp add: demo_waiting_broker_def token_cancelled_def get_cancellation_token_def rt_views dget_upd_req
        begin_request_def generate_whoosh_request_id_def new_token_def token_is_cancelled_def Let_def dict_simps)
  show ?thesis
    using queued_cancellation[OF demo_waiting_ok k nc, of 1 "fst (cancel_endpoint 1 ''whoosh-q'' demo_waiting_broker)"
        "snd (cancel_endpoint 1 ''whoosh-q'' demo_waiting_broker)" "demo_host 0 None" "demo_tick 1"]
    by (metis prod.collapse)
qed

end
