(* ===== verification/Lifecycle.thy ===== *)
theory Lifecycle
  imports Routing Runtime_State
begin

text \<open>
  Start-up, health and model lifecycle: \<open>RuntimeRouter.health\<close>, \<open>warmup_all\<close> and \<open>unload_all\<close> of
  \<open>whooshd/routing.py\<close>, and \<open>_init_router\<close>, \<open>_init_lifecycle\<close>, \<open>/ready\<close>, \<open>/runtime/model\<close>,
  \<open>/runtime/model/warmup\<close> and \<open>/runtime/model/unload\<close> of \<open>whooshd/app.py\<close>.

  What an adapter answers is an argument: \<open>probe a\<close> is its health (\<open>None\<close> when the probe raises),
  \<open>act a\<close> is \<open>None\<close> when its \<open>warmup\<close> or \<open>unload\<close> returns and the name of the exception's type when
  it raises, and \<open>mk kind\<close> is the adapter that the program constructs for a kind. The warm-up and
  unload handlers suspend while the adapters work, so each is two functions.
\<close>

section \<open>Health\<close>

datatype RuntimeHealthState =
    H_OFFLINE | H_STARTING | H_RUNTIME_AVAILABLE | H_MODEL_WARMING | H_READY | H_GENERATING
  | H_DEGRADED | H_ERROR

record RuntimeHealth =
  rh_kind :: string
  rh_enabled :: bool
  rh_state :: RuntimeHealthState
  rh_active_model :: "string option"
  rh_configured_model :: "string option"

record MultiRuntimeHealthResponse =
  mh_status :: string
  mh_runtimes :: "(string, RuntimeHealth) dict"

definition error_health :: "Adapter \<Rightarrow> RuntimeHealth" where
  "error_health a =
     \<lparr>rh_kind = ad_kind a, rh_enabled = True, rh_state = H_ERROR, rh_active_model = None,
      rh_configured_model = None\<rparr>"

text \<open>One round of the loop: \<open>None\<close> when the probe or the model identifier raises.\<close>

definition adapter_health :: "(Adapter \<Rightarrow> RuntimeHealth option) \<Rightarrow> Adapter \<Rightarrow> RuntimeHealth option" where
  "adapter_health probe a =
     (case probe a of
        None \<Rightarrow> None
      | Some h \<Rightarrow>
          (case ad_model_id a None of
             None \<Rightarrow> None
           | Some configured \<Rightarrow>
               Some (if str_true configured \<and> rh_configured_model h = None
                     then h\<lparr>rh_configured_model := configured\<rparr> else h)))"

fun health_loop ::
  "(Adapter \<Rightarrow> RuntimeHealth option) \<Rightarrow> Adapter list \<Rightarrow> MultiRuntimeHealthResponse \<Rightarrow> MultiRuntimeHealthResponse" where
  "health_loop probe [] acc = acc"
| "health_loop probe (a # rest) acc =
     (case adapter_health probe a of
        Some h \<Rightarrow>
          health_loop probe rest
            \<lparr>mh_status = (if rh_state h \<in> {H_ERROR, H_DEGRADED} \<and> mh_status acc = ''ok'' then ''degraded''
                          else mh_status acc),
             mh_runtimes = dset (ad_kind a) h (mh_runtimes acc)\<rparr>
      | None \<Rightarrow>
          health_loop probe rest
            \<lparr>mh_status = ''degraded'', mh_runtimes = dset (ad_kind a) (error_health a) (mh_runtimes acc)\<rparr>)"

definition router_health :: "(Adapter \<Rightarrow> RuntimeHealth option) \<Rightarrow> RuntimeRouter \<Rightarrow> MultiRuntimeHealthResponse" where
  "router_health probe r =
     health_loop probe (dvals (rr_adapters r)) \<lparr>mh_status = ''ok'', mh_runtimes = []\<rparr>"

section \<open>Readiness\<close>

record ReadinessResponse =
  rd_ready :: bool
  rd_model_lifecycle :: ModelLifecycleState
  rd_reason :: "string option"
  rd_status_code :: int

definition not_ready_reason :: "ModelLifecycleState \<Rightarrow> string option" where
  "not_ready_reason l =
     (case l of
        ML_WARMING \<Rightarrow> Some ''model_warming''
      | ML_UNLOADED \<Rightarrow> Some ''model_unloaded''
      | ML_FAILED \<Rightarrow> Some ''model_load_failed''
      | ML_DEGRADED \<Rightarrow> Some ''model_degraded''
      | _ \<Rightarrow> None)"

definition ready :: "(Adapter \<Rightarrow> RuntimeHealth option) \<Rightarrow> RuntimeRouter \<Rightarrow> RuntimeState \<Rightarrow> ReadinessResponse" where
  "ready probe r rt =
     (let lifecycle = model_lifecycle rt;
          is_ready =
            (lifecycle = ML_READY
             \<or> list_ex (\<lambda>(kind, h). kind \<noteq> ''stub'' \<and> rh_state h = H_READY) (mh_runtimes (router_health probe r)))
      in \<lparr>rd_ready = is_ready, rd_model_lifecycle = lifecycle,
          rd_reason = (if is_ready then None else not_ready_reason lifecycle),
          rd_status_code = (if is_ready then 200 else 503)\<rparr>)"

section \<open>Start-up\<close>

definition init_router :: "environ \<Rightarrow> (RuntimeKind \<Rightarrow> Adapter) \<Rightarrow> RuntimeRouter \<Rightarrow> RuntimeRouter" where
  "init_router env mk r =
     (let r = register_adapter (mk STUB) r;
          r = (if get_mlx_lm_server_enabled env then register_adapter (mk MLX_LM_SERVER) r else r);
          r = (if get_adapter_backend env = ''mlx'' then register_adapter (mk MLX_LM) r else r);
          r = (if get_mlx_vlm_enabled env then register_adapter (mk MLX_VLM) r else r)
      in register_adapter (mk LLAMA_CPP) r)"

definition init_lifecycle :: "real \<Rightarrow> RuntimeRouter \<Rightarrow> RuntimeState \<Rightarrow> RuntimeState" where
  "init_lifecycle now r rt =
     (if list_ex ad_is_loaded (dvals (rr_adapters r)) then complete_warmup now rt else rt)"

section \<open>Warm-up and unload\<close>

fun run_all ::
  "string \<Rightarrow> (Adapter \<Rightarrow> string option) \<Rightarrow> Adapter list \<Rightarrow> (string, string) dict \<Rightarrow> (string, string) dict" where
  "run_all done_word act [] results = results"
| "run_all done_word act (a # rest) results =
     run_all done_word act rest
       (dset (ad_kind a) (case act a of None \<Rightarrow> done_word | Some t \<Rightarrow> ''failed: '' @ t) results)"

definition warmup_all :: "(Adapter \<Rightarrow> string option) \<Rightarrow> RuntimeRouter \<Rightarrow> (string, string) dict" where
  "warmup_all act r = run_all ''ready'' act (dvals (rr_adapters r)) []"

definition unload_all :: "(Adapter \<Rightarrow> string option) \<Rightarrow> RuntimeRouter \<Rightarrow> (string, string) dict" where
  "unload_all act r = run_all ''unloaded'' act (dvals (rr_adapters r)) []"

definition warmup_begin :: "real \<Rightarrow> RuntimeState \<Rightarrow> RuntimeState" where
  "warmup_begin now rt = begin_warmup now rt"

definition warmup_end :: "real \<Rightarrow> (string, string) dict \<Rightarrow> RuntimeState \<Rightarrow> RuntimeState" where
  "warmup_end now results rt =
     (let real_adapter_ready =
            list_ex (\<lambda>(kind, status). kind \<noteq> RuntimeKind_value STUB \<and> status = ''ready'') results;
          has_real_adapters = list_ex (\<lambda>(kind, _). kind \<noteq> RuntimeKind_value STUB) results
      in if has_real_adapters \<and> \<not> real_adapter_ready
         then fail_warmup (Some ''MODEL_LOAD_FAILED'') (Some ''All non-stub adapters failed warmup.'') rt
         else complete_warmup now rt)"

text \<open>\<open>/runtime/model/unload\<close>: refused with 409 while a slot is occupied.\<close>

definition unload_begin :: "RuntimeState \<Rightarrow> bool" where
  "unload_begin rt = (active_jobs rt = 0)"

definition unload_end :: "real \<Rightarrow> RuntimeState \<Rightarrow> RuntimeState" where
  "unload_end now rt = complete_unload now rt"

text \<open>The adapter name of \<open>/runtime/model\<close> and the loaded model of \<open>build_model_snapshot\<close>.\<close>

definition surfaced_adapter :: "RuntimeRouter \<Rightarrow> string" where
  "surfaced_adapter r =
     (case find (\<lambda>(kind, a). kind \<noteq> ''stub'' \<and> ad_is_loaded a) (rr_adapters r) of
        None \<Rightarrow> ''multi-runtime''
      | Some (_, a) \<Rightarrow> ad_name a)"

section \<open>Lemmas\<close>

text \<open>The table of a well-formed router, as a list of its adapters.\<close>

lemma router_ok_kinds:
  assumes "router_ok r"
  shows "map ad_kind (dvals (rr_adapters r)) = dkeys (rr_adapters r)" "distinct (map ad_kind (dvals (rr_adapters r)))"
proof -
  show keys: "map ad_kind (dvals (rr_adapters r)) = dkeys (rr_adapters r)"
    using assms by (auto simp: router_ok_def)
  show "distinct (map ad_kind (dvals (rr_adapters r)))"
    unfolding keys using assms by (simp add: router_ok_def)
qed

lemma dset_new: "k \<notin> fst ` set d \<Longrightarrow> dset k v d = d @ [(k, v)]"
  using dset_fresh[of k d v] by simp

lemma run_all_map:
  "distinct (map ad_kind as') \<Longrightarrow> fst ` set results \<inter> ad_kind ` set as' = {} \<Longrightarrow>
   run_all w act as' results =
     results @ map (\<lambda>a. (ad_kind a, case act a of None \<Rightarrow> w | Some t \<Rightarrow> ''failed: '' @ t)) as'"
  by (induction w act as' results rule: run_all.induct) (auto simp: dset_new)

lemma warmup_all_map:
  "router_ok r \<Longrightarrow> warmup_all act r =
     map (\<lambda>a. (ad_kind a, case act a of None \<Rightarrow> ''ready'' | Some t \<Rightarrow> ''failed: '' @ t)) (dvals (rr_adapters r))"
  using run_all_map[of "dvals (rr_adapters r)" "[]" "''ready''" act] router_ok_kinds(2)
  by (simp add: warmup_all_def)

definition reported_health :: "(Adapter \<Rightarrow> RuntimeHealth option) \<Rightarrow> Adapter \<Rightarrow> RuntimeHealth" where
  "reported_health probe a =
     (case adapter_health probe a of None \<Rightarrow> error_health a | Some h \<Rightarrow> h)"

definition healthy :: "RuntimeHealth \<Rightarrow> bool" where
  "healthy h = (rh_state h \<notin> {H_ERROR, H_DEGRADED})"

lemma health_loop_map:
  "distinct (map ad_kind as') \<Longrightarrow> fst ` set (mh_runtimes acc) \<inter> ad_kind ` set as' = {} \<Longrightarrow>
   mh_runtimes (health_loop probe as' acc) =
     mh_runtimes acc @ map (\<lambda>a. (ad_kind a, reported_health probe a)) as'"
  by (induction probe as' acc rule: health_loop.induct)
    (auto simp: dset_new reported_health_def split: option.splits)

lemma health_loop_status:
  "mh_status acc \<in> {''ok'', ''degraded''} \<Longrightarrow>
   mh_status (health_loop probe as' acc) =
     (if mh_status acc = ''ok'' \<and> list_all (healthy \<circ> reported_health probe) as' then ''ok'' else ''degraded'')"
  by (induction probe as' acc rule: health_loop.induct)
    (auto simp: reported_health_def healthy_def error_health_def split: option.splits)

lemma router_ok_init:
  assumes "\<And>k. ad_kind (mk k) = RuntimeKind_value k"
  shows "router_ok (init_router env mk new_router)"
proof -
  have "kind_ok (ad_kind (mk k))" for k by (cases k) (simp_all add: assms kind_ok_def)
  then show ?thesis by (simp add: init_router_def Let_def inv_intros)
qed

lemma init_router_stub:
  assumes "\<And>k. ad_kind (mk k) = RuntimeKind_value k"
  shows "get_adapter (init_router env mk new_router) (RuntimeKind_value STUB) = Some (mk STUB)"
  by (simp add: init_router_def Let_def assms)

section \<open>Properties\<close>

text \<open>
  The health report is faithful: it has one entry for each registered runtime, in the order of
  registration, holding what that runtime's probe answered, or an error entry where the probe
  raised; and the aggregate status is ok exactly when every runtime's entry is neither an error nor
  degraded.
\<close>

theorem router_health_faithful:
  assumes "router_ok r"
  shows "mh_runtimes (router_health probe r) = map (\<lambda>(k, a). (k, reported_health probe a)) (rr_adapters r)
       \<and> (mh_status (router_health probe r) = ''ok'') = (\<forall>(k, a) \<in> set (rr_adapters r). healthy (reported_health probe a))
       \<and> mh_status (router_health probe r) \<in> {''ok'', ''degraded''}"
proof -
  have "mh_runtimes (router_health probe r) = map (\<lambda>a. (ad_kind a, reported_health probe a)) (dvals (rr_adapters r))"
    using health_loop_map[OF router_ok_kinds(2)[OF assms], of "\<lparr>mh_status = ''ok'', mh_runtimes = []\<rparr>"]
    by (simp add: router_health_def)
  also have "\<dots> = map (\<lambda>(k, a). (k, reported_health probe a)) (rr_adapters r)"
    using assms by (auto simp: router_ok_def)
  finally have "mh_runtimes (router_health probe r) = map (\<lambda>(k, a). (k, reported_health probe a)) (rr_adapters r)" .
  moreover have "mh_status (router_health probe r) =
      (if list_all (healthy \<circ> reported_health probe) (dvals (rr_adapters r)) then ''ok'' else ''degraded'')"
    using health_loop_status[of "\<lparr>mh_status = ''ok'', mh_runtimes = []\<rparr>"] by (simp add: router_health_def)
  ultimately show ?thesis by (auto simp: list_all_iff)
qed

definition demo_health :: "string \<Rightarrow> RuntimeHealthState \<Rightarrow> RuntimeHealth" where
  "demo_health k st =
     \<lparr>rh_kind = k, rh_enabled = True, rh_state = st, rh_active_model = None, rh_configured_model = None\<rparr>"

lemma demo_router_ok: "router_ok demo_router"
  by (simp add: router_ok_def demo_router_def register_adapter_def new_router_def demo_adapter_def kind_ok_def)

theorem router_health_faithful_witness:
  "mh_status (router_health (\<lambda>a. if ad_kind a = ''stub'' then Some (demo_health ''stub'' H_READY) else None) demo_router)
     = ''degraded''"
proof -
  let ?p = "\<lambda>a. if ad_kind a = ''stub'' then Some (demo_health ''stub'' H_READY) else None"
  have "\<not> (\<forall>(k, a) \<in> set (rr_adapters demo_router). healthy (reported_health ?p a))"
    by (simp add: demo_router_def register_adapter_def new_router_def demo_adapter_def reported_health_def
        adapter_health_def error_health_def healthy_def)
  then show ?thesis using router_health_faithful[OF demo_router_ok, of ?p] by blast
qed

text \<open>
  The verdict of a warm-up: the model lifecycle is ready exactly when some runtime other than the
  stub warmed up, or no such runtime is registered; otherwise it is failed and the error code says
  so. The stub's own success never counts.
\<close>

theorem warmup_verdict:
  assumes "router_ok r"
  shows "model_lifecycle (warmup_end now (warmup_all act r) rt) =
      (if (\<exists>(k, a) \<in> set (rr_adapters r). k \<noteq> RuntimeKind_value STUB \<and> act a = None)
          \<or> (\<forall>(k, a) \<in> set (rr_adapters r). k = RuntimeKind_value STUB)
       then ML_READY else ML_FAILED)
    \<and> ((\<exists>(k, a) \<in> set (rr_adapters r). k \<noteq> RuntimeKind_value STUB)
       \<and> (\<forall>(k, a) \<in> set (rr_adapters r). k \<noteq> RuntimeKind_value STUB \<longrightarrow> act a \<noteq> None)
       \<longrightarrow> last_error_code (warmup_end now (warmup_all act r) rt) = Some ''MODEL_LOAD_FAILED'')"
proof -
  have pairs: "warmup_all act r =
      map (\<lambda>(k, a). (k, case act a of None \<Rightarrow> ''ready'' | Some t \<Rightarrow> ''failed: '' @ t)) (rr_adapters r)"
    using assms by (auto simp: warmup_all_map router_ok_def)
  have ready: "list_ex (\<lambda>(kind, status). kind \<noteq> RuntimeKind_value STUB \<and> status = ''ready'') (warmup_all act r)
      = (\<exists>(k, a) \<in> set (rr_adapters r). k \<noteq> RuntimeKind_value STUB \<and> act a = None)"
    by (auto simp: pairs list_ex_iff split: option.splits) force+
  have real: "list_ex (\<lambda>(kind, _). kind \<noteq> RuntimeKind_value STUB) (warmup_all act r)
      = (\<exists>(k, a) \<in> set (rr_adapters r). k \<noteq> RuntimeKind_value STUB)"
    by (auto simp: pairs list_ex_iff) force
  show ?thesis
    unfolding warmup_end_def Let_def ready real
    by (auto simp: complete_warmup_def fail_warmup_def split_beta)
qed

theorem warmup_verdict_witness:
  "model_lifecycle (warmup_end 0 (warmup_all (\<lambda>a. if ad_kind a = ''stub'' then None else Some ''OSError'') demo_router)
     new_runtime) = ML_FAILED"
  using warmup_verdict[OF demo_router_ok, of 0 "\<lambda>a. if ad_kind a = ''stub'' then None else Some ''OSError''" new_runtime]
  by (simp add: demo_router_def register_adapter_def new_router_def demo_adapter_def)

text \<open>
  C18. The start-up path never leaves the service unready: the stub is always registered and always
  loaded, so \<open>_init_lifecycle\<close> marks the model lifecycle ready, and \<open>/ready\<close> answers 200 whatever the
  health of the real runtimes.
\<close>

theorem startup_always_ready:
  assumes "\<And>k. ad_kind (mk k) = RuntimeKind_value k" and "ad_is_loaded (mk STUB)"
  shows "let r = init_router env mk new_router in
           rd_status_code (ready probe r (init_lifecycle now r rt)) = 200
         \<and> rd_model_lifecycle (ready probe r (init_lifecycle now r rt)) = ML_READY"
proof -
  let ?r = "init_router env mk new_router"
  have "mk STUB \<in> snd ` set (rr_adapters ?r)"
    using init_router_stub[OF assms(1), of env] dget_dvals unfolding get_adapter_def by fast
  then have "list_ex ad_is_loaded (dvals (rr_adapters ?r))" using assms(2) by (force simp: list_ex_iff)
  then show ?thesis by (simp add: init_lifecycle_def ready_def Let_def complete_warmup_def)
qed

theorem startup_always_ready_witness:
  "rd_status_code (ready (\<lambda>_. None) (init_router (\<lambda>_. None) (demo_adapter \<circ> RuntimeKind_value) new_router)
     (init_lifecycle 0 (init_router (\<lambda>_. None) (demo_adapter \<circ> RuntimeKind_value) new_router) new_runtime)) = 200"
  using startup_always_ready[of "demo_adapter \<circ> RuntimeKind_value" "\<lambda>_. None" "\<lambda>_. None" 0 new_runtime]
  by (simp add: demo_adapter_def Let_def)

end
