(* ===== verification/Service.thy ===== *)
theory Service
  imports Broker Lifecycle
begin

text \<open>
  The service as a whole: the middleware of \<open>whooshd/app.py\<close> that negotiates the contract version,
  the two inference endpoints with their route resolution, and the interleaving of all handlers over
  one state: the broker, the runtime's registry cache and the router's table.

  The registry file, its parsers and the external inventory are the fields of \<open>externals\<close> and may
  answer differently at every step. Resolution runs inside the section of its endpoint, since
  nothing in it suspends.

  \<open>service_simulates_broker\<close> is the refinement that connects the two levels: every step of the
  service is a step of the broker at the lane ceilings that the router's table declares, or leaves
  the broker's requests, queue and waiters alone. Every invariant of the broker is thereby one of
  the service, for routes that the router really gives.
\<close>

section \<open>State and handlers\<close>

record externals =
  x_fs :: "string \<Rightarrow> registry_file"
  x_safe_load :: "string \<Rightarrow> pyval option"
  x_model_validate :: "pyval \<Rightarrow> ModelRegistryConfig option"
  x_ext :: "string \<Rightarrow> external_resolution option"

record Service =
  sv_broker :: Broker
  sv_registry :: registry_cache
  sv_router :: RuntimeRouter

definition new_service :: "environ \<Rightarrow> real \<Rightarrow> (RuntimeKind \<Rightarrow> Adapter) \<Rightarrow> Service" where
  "new_service env now mk =
     (let r = init_router env mk new_router in
      \<lparr>sv_broker = new_broker\<lparr>bk_rt := init_lifecycle now r (bk_rt new_broker)\<rparr>,
       sv_registry = REG_NONE, sv_router = r\<rparr>)"

definition resolve_route ::
  "environ \<Rightarrow> externals \<Rightarrow> string \<Rightarrow> Service \<Rightarrow> (route_exn + RuntimeResolution) \<times> Service" where
  "resolve_route env x model s =
     (let reg = load_registry (x_fs x) (x_safe_load x) (x_model_validate x) env (sv_registry s)
      in (resolve_model_runtime env (x_ext x) reg (sv_router s) model, s\<lparr>sv_registry := reg\<rparr>))"

definition on_broker :: "(Broker \<Rightarrow> reply \<times> Broker) \<Rightarrow> Service \<Rightarrow> reply \<times> Service" where
  "on_broker f s = (case f (sv_broker s) of (rep, b) \<Rightarrow> (rep, s\<lparr>sv_broker := b\<rparr>))"

text \<open>An endpoint resolves the route and continues on the broker.\<close>

definition routed_endpoint ::
  "environ \<Rightarrow> externals \<Rightarrow> string \<Rightarrow> (RuntimeResolution \<Rightarrow> Broker \<Rightarrow> reply \<times> Broker) \<Rightarrow> Service
   \<Rightarrow> reply \<times> Service" where
  "routed_endpoint env x model k s =
     (case resolve_route env x model s of
        (Inl (ModelResolutionError _ _), s) \<Rightarrow> on_broker unrouted s
      | (Inl AdapterRaised, s) \<Rightarrow> (ServerError, s)
      | (Inr res, s) \<Rightarrow> on_broker (k res) s)"

definition chat_completions ::
  "(real \<Rightarrow> string) \<Rightarrow> environ \<Rightarrow> host \<Rightarrow> externals \<Rightarrow> arrival \<Rightarrow> ChatCompletionRequest \<Rightarrow> Service
   \<Rightarrow> reply \<times> Service" where
  "chat_completions frepr env h x arr req s =
     routed_endpoint env x (req_model req) (\<lambda>res. chat_arrival frepr env h arr res req) s"

definition generate_model :: "GenerateRequest \<Rightarrow> string" where
  "generate_model req =
     (case gen_model_id req of None \<Rightarrow> ''stub-model'' | Some m \<Rightarrow> if m = [] then ''stub-model'' else m)"

definition generate ::
  "environ \<Rightarrow> host \<Rightarrow> externals \<Rightarrow> arrival \<Rightarrow> GenerateRequest \<Rightarrow> Service \<Rightarrow> reply \<times> Service" where
  "generate env h x arr req s =
     routed_endpoint env x (generate_model req) (\<lambda>res. generate_arrival env h arr res req) s"

text \<open>\<open>add_control_plane_version_header\<close>, around any endpoint.\<close>

record http_headers =
  hd_target_version :: "string option"
  hd_legacy_version :: "string option"
  hd_upstream_request_id :: "string option"

definition with_negotiation ::
  "http_headers \<Rightarrow> (string option \<Rightarrow> 's \<Rightarrow> reply \<times> 's) \<Rightarrow> 's \<Rightarrow> reply \<times> 's" where
  "with_negotiation hs handler s =
     (let upstream = normalize_identifier (opt_str (hd_upstream_request_id hs)) in
      if \<not> compatible (negotiate_contract_version (hd_target_version hs) (hd_legacy_version hs))
      then (Refused 400 CONTRACT_VERSION_UNSUPPORTED, s)
      else handler upstream s)"

definition post_chat ::
  "(real \<Rightarrow> string) \<Rightarrow> environ \<Rightarrow> host \<Rightarrow> externals \<Rightarrow> http_headers \<Rightarrow> arrival \<Rightarrow> ChatCompletionRequest \<Rightarrow> Service
   \<Rightarrow> reply \<times> Service" where
  "post_chat frepr env h x hs arr req =
     with_negotiation hs (\<lambda>upstream. chat_completions frepr env h x (arr\<lparr>arr_upstream := upstream\<rparr>) req)"

definition post_generate ::
  "environ \<Rightarrow> host \<Rightarrow> externals \<Rightarrow> http_headers \<Rightarrow> arrival \<Rightarrow> GenerateRequest \<Rightarrow> Service \<Rightarrow> reply \<times> Service" where
  "post_generate env h x hs arr req =
     with_negotiation hs (\<lambda>upstream. generate env h x (arr\<lparr>arr_upstream := upstream\<rparr>) req)"

definition post_cancel :: "real \<Rightarrow> http_headers \<Rightarrow> string \<Rightarrow> Service \<Rightarrow> reply \<times> Service" where
  "post_cancel now hs rid = with_negotiation hs (\<lambda>_. on_broker (cancel_endpoint now rid))"

section \<open>Interleaving\<close>

definition on_runtime :: "(RuntimeState \<Rightarrow> RuntimeState) \<Rightarrow> Service \<Rightarrow> Service" where
  "on_runtime f s = s\<lparr>sv_broker := (sv_broker s)\<lparr>bk_rt := f (bk_rt (sv_broker s))\<rparr>\<rparr>"

inductive service_step :: "environ \<Rightarrow> Service \<Rightarrow> reply \<Rightarrow> Service \<Rightarrow> bool" for env where
  sv_chat: "fresh_id (sv_broker s) (arr_hex arr) \<Longrightarrow>
      post_chat frepr env h x hs arr req s = (rep, s') \<Longrightarrow> service_step env s rep s'"
| sv_generate: "fresh_id (sv_broker s) (arr_hex arr) \<Longrightarrow>
      post_generate env h x hs arr greq s = (rep, s') \<Longrightarrow> service_step env s rep s'"
| sv_cancel: "post_cancel now hs k s = (rep, s') \<Longrightarrow> service_step env s rep s'"
| sv_wait: "dget (bk_waiters (sv_broker s)) k = Some w \<Longrightarrow>
      on_broker (wait_step env h tk w) s = (rep, s') \<Longrightarrow> service_step env s rep s'"
| sv_finish: "k \<in> set (bk_running (sv_broker s)) \<Longrightarrow>
      s' = s\<lparr>sv_broker := exec_finish now k e (sv_broker s)\<rparr> \<Longrightarrow> service_step env s Acknowledged s'"
| sv_warmup_begin: "s' = on_runtime (warmup_begin now) s \<Longrightarrow> service_step env s Acknowledged s'"
| sv_warmup_end: "s' = on_runtime (warmup_end now (warmup_all act (sv_router s))) s \<Longrightarrow>
      service_step env s Acknowledged s'"
| sv_unload_end: "s' = on_runtime (unload_end now) s \<Longrightarrow> service_step env s Acknowledged s'"

inductive service_reachable :: "environ \<Rightarrow> Service \<Rightarrow> Service \<Rightarrow> bool" for env s0 where
  sv_init: "service_reachable env s0 s0"
| sv_step: "service_reachable env s0 s \<Longrightarrow> service_step env s rep s' \<Longrightarrow> service_reachable env s0 s'"

section \<open>Refinement\<close>

text \<open>Steps that touch only the lifecycle, the counters or the controller's cache.\<close>

definition same_work :: "Broker \<Rightarrow> Broker \<Rightarrow> bool" where
  "same_work b b' \<longleftrightarrow>
     rt_requests (bk_rt b') = rt_requests (bk_rt b) \<and> reservations (bk_rt b') = reservations (bk_rt b)
   \<and> bk_queue b' = bk_queue b \<and> bk_waiters b' = bk_waiters b
   \<and> bk_running b' = bk_running b \<and> bk_dispatched b' = bk_dispatched b"

lemma same_work_refl [simp]: "same_work b b"
  by (simp add: same_work_def)

lemma broker_ok_same_work: "same_work b b' \<Longrightarrow> broker_ok env L b \<Longrightarrow> broker_ok env L b'"
  by (rule broker_ok_frame) (simp_all add: same_work_def)

definition sv_lanes :: "Service \<Rightarrow> string \<Rightarrow> int option" where
  "sv_lanes s = lane_ceiling (sv_router s)"

lemma resolve_route_Inr:
  assumes "resolve_route env x m s = (Inr res, s')" "router_ok (sv_router s)"
  shows "route_ok (sv_lanes s) res" "sv_broker s' = sv_broker s" "sv_router s' = sv_router s"
proof -
  have "resolve_model_runtime env (x_ext x) (sv_registry s') (sv_router s) m = Inr res"
    and s': "s' = s\<lparr>sv_registry := sv_registry s'\<rparr>"
    using assms(1) by (auto simp: resolve_route_def Let_def)
  then show "route_ok (sv_lanes s) res"
    unfolding sv_lanes_def by (intro routes_to_route_ok[OF assms(2)] resolve_routes)
  show "sv_broker s' = sv_broker s" "sv_router s' = sv_router s" by (subst s', simp)+
qed

lemma resolve_route_frame:
  "resolve_route env x m s = (y, s') \<Longrightarrow> sv_broker s' = sv_broker s \<and> sv_router s' = sv_router s"
  by (auto simp: resolve_route_def Let_def)

lemma on_broker_step:
  "on_broker f s = (rep, s') \<Longrightarrow> f (sv_broker s) = (rep, sv_broker s') \<and> sv_router s' = sv_router s"
  by (auto simp: on_broker_def split: prod.splits)

text \<open>Any routed endpoint whose continuation is a broker step on an admissible route is one.\<close>

lemma routed_endpoint_step:
  assumes ok: "router_ok (sv_router s)"
    and ep: "routed_endpoint env x m k s = (rep, s')"
    and cont: "\<And>res b'. route_ok (sv_lanes s) res \<Longrightarrow> k res (sv_broker s) = (rep, b') \<Longrightarrow>
                 broker_step env (sv_lanes s) (sv_broker s) rep b'"
  shows "sv_router s' = sv_router s
       \<and> (broker_step env (sv_lanes s) (sv_broker s) rep (sv_broker s') \<or> same_work (sv_broker s) (sv_broker s'))"
proof -
  obtain y s1 where y: "resolve_route env x m s = (y, s1)" by fastforce
  note fr = resolve_route_frame[OF y]
  show ?thesis
  proof (cases y)
    case (Inr res)
    with y ep have "on_broker (k res) s1 = (rep, s')" by (simp add: routed_endpoint_def)
    with on_broker_step fr have "k res (sv_broker s) = (rep, sv_broker s')" "sv_router s' = sv_router s" by fastforce+
    with cont resolve_route_Inr(1)[OF y[unfolded Inr] ok] show ?thesis by blast
  next
    case (Inl e)
    show ?thesis
    proof (cases e)
      case AdapterRaised
      with y ep Inl have "s' = s1" by (simp add: routed_endpoint_def)
      with fr show ?thesis by simp
    next
      case (ModelResolutionError a d)
      with y ep Inl have "on_broker unrouted s1 = (rep, s')" by (simp add: routed_endpoint_def)
      with on_broker_step fr have "unrouted (sv_broker s) = (rep, sv_broker s')" "sv_router s' = sv_router s" by fastforce+
      then show ?thesis using broker_step.unrouted by blast
    qed
  qed
qed

lemma with_negotiation_cases:
  assumes "with_negotiation hs f s = (rep, s')"
  obtains "s' = s" | u where "f u s = (rep, s')"
  using assms by (auto simp: with_negotiation_def Let_def split: if_splits)

lemma on_runtime_same_work:
  "(\<And>rt. rt_requests (f rt) = rt_requests rt \<and> reservations (f rt) = reservations rt) \<Longrightarrow>
   same_work (sv_broker s) (sv_broker (on_runtime f s)) \<and> sv_router (on_runtime f s) = sv_router s"
  by (simp add: on_runtime_def same_work_def)

lemma lifecycle_frame:
  "rt_requests (warmup_begin now rt) = rt_requests rt \<and> reservations (warmup_begin now rt) = reservations rt"
  "rt_requests (warmup_end now results rt) = rt_requests rt \<and> reservations (warmup_end now results rt) = reservations rt"
  "rt_requests (unload_end now rt) = rt_requests rt \<and> reservations (unload_end now rt) = reservations rt"
  by (simp_all add: warmup_begin_def begin_warmup_def warmup_end_def Let_def complete_warmup_def fail_warmup_def
      unload_end_def complete_unload_def)

lemma service_step_simulates:
  assumes "service_step env s rep s'" and ok: "router_ok (sv_router s)"
  shows "sv_router s' = sv_router s
       \<and> (broker_step env (sv_lanes s) (sv_broker s) rep (sv_broker s') \<or> same_work (sv_broker s) (sv_broker s'))"
  using assms(1)
proof cases
  case (sv_chat arr frepr h x hs req)
  show ?thesis
  proof (rule with_negotiation_cases[OF sv_chat(2)[unfolded post_chat_def]])
    fix u assume "chat_completions frepr env h x (arr\<lparr>arr_upstream := u\<rparr>) req s = (rep, s')"
    then show ?thesis unfolding chat_completions_def
      by (rule routed_endpoint_step[OF ok]) (rule broker_step.chat; use sv_chat(1) in \<open>simp add: fresh_id_def\<close>)
  qed simp
next
  case (sv_generate arr h x hs greq)
  show ?thesis
  proof (rule with_negotiation_cases[OF sv_generate(2)[unfolded post_generate_def]])
    fix u assume "generate env h x (arr\<lparr>arr_upstream := u\<rparr>) greq s = (rep, s')"
    then show ?thesis unfolding generate_def
      by (rule routed_endpoint_step[OF ok]) (rule broker_step.generate; use sv_generate(1) in \<open>simp add: fresh_id_def\<close>)
  qed simp
next
  case (sv_cancel now hs k)
  show ?thesis
  proof (rule with_negotiation_cases[OF sv_cancel[unfolded post_cancel_def]])
    fix u assume "on_broker (cancel_endpoint now k) s = (rep, s')"
    then show ?thesis using on_broker_step broker_step.cancel by blast
  qed simp
next
  case (sv_wait k w h tk)
  then show ?thesis using on_broker_step broker_step.wait by blast
next
  case (sv_finish k now e)
  then show ?thesis using broker_step.finish by fastforce
next
  case (sv_warmup_begin now)
  then show ?thesis using on_runtime_same_work lifecycle_frame(1) by blast
next
  case (sv_warmup_end now act)
  then show ?thesis using on_runtime_same_work lifecycle_frame(2) by blast
next
  case (sv_unload_end now)
  then show ?thesis using on_runtime_same_work lifecycle_frame(3) by blast
qed

text \<open>The service invariant, and that the start-up state has it.\<close>

definition service_ok :: "environ \<Rightarrow> Service \<Rightarrow> bool" where
  "service_ok env s \<longleftrightarrow>
     router_ok (sv_router s) \<and> broker_ok env (sv_lanes s) (sv_broker s) \<and> cache_ok (sv_registry s)"

lemma on_broker_registry: "on_broker f s = (rep, s') \<Longrightarrow> sv_registry s' = sv_registry s"
  by (auto simp: on_broker_def split: prod.splits)

lemma routed_endpoint_cache:
  assumes "routed_endpoint env x m k s = (rep, s')" "cache_ok (sv_registry s)"
  shows "cache_ok (sv_registry s')"
proof -
  have "cache_ok (load_registry (x_fs x) (x_safe_load x) (x_model_validate x) env (sv_registry s))"
    using assms(2) by (rule load_registry_ok)
  then show ?thesis
    using assms(1) by (auto simp: routed_endpoint_def resolve_route_def Let_def dest: on_broker_registry
        split: sum.splits route_exn.splits)
qed

lemma service_step_cache:
  assumes "service_step env s rep s'" "cache_ok (sv_registry s)"
  shows "cache_ok (sv_registry s')"
  using assms
  by cases
    (auto simp: post_chat_def post_generate_def post_cancel_def chat_completions_def generate_def on_runtime_def
      elim!: with_negotiation_cases dest: routed_endpoint_cache on_broker_registry)

lemma service_step_ok:
  assumes "service_step env s rep s'" "service_ok env s"
  shows "service_ok env s'"
proof -
  note ok = assms(2)[unfolded service_ok_def]
  note sim = service_step_simulates[OF assms(1)]
  have "sv_lanes s' = sv_lanes s" using sim ok by (simp add: sv_lanes_def)
  then have "broker_ok env (sv_lanes s') (sv_broker s')"
    using sim ok broker_step_ok broker_ok_same_work by metis
  then show ?thesis using sim ok service_step_cache[OF assms(1)] by (simp add: service_ok_def)
qed

lemma service_ok_new:
  assumes "\<And>k. ad_kind (mk k) = RuntimeKind_value k"
  shows "service_ok env (new_service env now mk)"
proof -
  let ?b = "\<lambda>r. new_broker\<lparr>bk_rt := init_lifecycle now r (bk_rt new_broker)\<rparr>"
  have "same_work new_broker (?b r)" for r
    by (simp add: same_work_def init_lifecycle_def complete_warmup_def)
  then have "broker_ok env L (?b r)" for L r using broker_ok_same_work broker_ok_new by blast
  then show ?thesis using router_ok_init[OF assms]
    by (simp add: service_ok_def new_service_def Let_def cache_ok_def)
qed

lemma service_reachable_ok:
  assumes "service_reachable env s0 s" "service_ok env s0"
  shows "service_ok env s" and "sv_router s = sv_router s0"
proof -
  have "service_ok env s \<and> sv_router s = sv_router s0"
    using assms
  proof (induction rule: service_reachable.induct)
    case (sv_step s rep s')
    then have ok: "service_ok env s" "sv_router s = sv_router s0" by simp_all
    then have "router_ok (sv_router s)" by (simp add: service_ok_def)
    then show ?case using ok service_step_ok service_step_simulates sv_step.hyps(2) by metis
  qed simp
  then show "service_ok env s" "sv_router s = sv_router s0" by simp_all
qed

section \<open>Properties\<close>

text \<open>
  C1. Capacity safety of the service. From start-up, whatever requests arrive, however the registry
  file, the external inventory, the host and the clock behave, and however the handlers interleave,
  the occupied slots never exceed the operator's ceiling and the occupied slots of a registered
  runtime never exceed the ceiling that runtime declares.
\<close>

theorem service_capacity_safety:
  assumes "\<And>k. ad_kind (mk k) = RuntimeKind_value k"
    and "service_reachable env (new_service env now mk) s"
  shows "int (active_jobs (bk_rt (sv_broker s))) \<le> operator_ceiling env
   \<and> (\<forall>kind a m. get_adapter (init_router env mk new_router) kind = Some a \<and> ad_max_concurrent_requests a = Some m \<longrightarrow>
        int (active_jobs_for_lane (bk_rt (sv_broker s)) (Some kind)) \<le> max m 1)"
proof -
  note ok = service_reachable_ok[OF assms(2) service_ok_new[OF assms(1)]]
  have router: "sv_router s = init_router env mk new_router" using ok(2) by (simp add: new_service_def Let_def)
  have "within_capacity env (sv_lanes s) (bk_rt (sv_broker s))"
    using ok(1) broker_okD(4) unfolding service_ok_def by blast
  then have cap: "active_jobs (bk_rt (sv_broker s)) \<le> nat (operator_ceiling env)"
      "\<And>l m. l \<noteq> [] \<Longrightarrow> sv_lanes s l = Some m \<Longrightarrow> active_jobs_for_lane (bk_rt (sv_broker s)) (Some l) \<le> nat (max m 1)"
    unfolding within_capacity_def by blast+
  have "int (active_jobs_for_lane (bk_rt (sv_broker s)) (Some kind)) \<le> max m 1"
    if "get_adapter (init_router env mk new_router) kind = Some a" "ad_max_concurrent_requests a = Some m" for kind a m
  proof -
    have "kind \<noteq> []" using that(1) router_ok_dget[OF router_ok_init[OF assms(1)]]
      by (auto simp: get_adapter_def kind_ok_def)
    moreover have "sv_lanes s kind = Some m" using that by (simp add: sv_lanes_def router lane_ceiling_def get_adapter_def)
    ultimately have "active_jobs_for_lane (bk_rt (sv_broker s)) (Some kind) \<le> nat (max m 1)" by (rule cap(2))
    then show ?thesis by linarith
  qed
  moreover have "int (active_jobs (bk_rt (sv_broker s))) \<le> operator_ceiling env"
    using cap(1) operator_ceiling_pos[of env] by linarith
  ultimately show ?thesis by blast
qed

abbreviation demo_mk :: "RuntimeKind \<Rightarrow> Adapter" where
  "demo_mk \<equiv> demo_adapter \<circ> RuntimeKind_value"

lemma demo_adapter_kind: "ad_kind (demo_adapter k) = k"
  by (simp add: demo_adapter_def)

lemma demo_mk_kind: "ad_kind (demo_mk k) = RuntimeKind_value k"
  by (simp add: demo_adapter_def)

definition demo_externals :: externals where
  "demo_externals =
     \<lparr>x_fs = (\<lambda>_. Absent), x_safe_load = (\<lambda>_. None), x_model_validate = (\<lambda>_. None), x_ext = (\<lambda>_. None)\<rparr>"

definition demo_headers :: http_headers where
  "demo_headers =
     \<lparr>hd_target_version = Some ''1'', hd_legacy_version = None, hd_upstream_request_id = Some ''up-1''\<rparr>"

text \<open>A service that has started one request on its stub.\<close>

definition demo_service :: Service where
  "demo_service =
     snd (post_generate (\<lambda>_. None) (demo_host 0 None) demo_externals demo_headers (demo_arrival ''a'') demo_generate
            (new_service (\<lambda>_. None) 0 demo_mk))"

lemma demo_service_reachable: "service_reachable (\<lambda>_. None) (new_service (\<lambda>_. None) 0 demo_mk) demo_service"
proof (rule sv_step[OF sv_init], rule sv_generate)
  show "fresh_id (sv_broker (new_service (\<lambda>_. None) 0 demo_mk)) (arr_hex (demo_arrival ''a''))"
    by (simp add: fresh_id_def new_service_def new_broker_def new_runtime_def init_lifecycle_def complete_warmup_def
        Let_def)
  show "post_generate (\<lambda>_. None) (demo_host 0 None) demo_externals demo_headers (demo_arrival ''a'') demo_generate
          (new_service (\<lambda>_. None) 0 demo_mk)
      = (fst (post_generate (\<lambda>_. None) (demo_host 0 None) demo_externals demo_headers (demo_arrival ''a'') demo_generate
               (new_service (\<lambda>_. None) 0 demo_mk)), demo_service)"
    by (simp add: demo_service_def)
qed

theorem service_capacity_safety_witness:
  "active_jobs (bk_rt (sv_broker demo_service)) = 1 \<and> 1 \<le> operator_ceiling (\<lambda>_. None)"
proof -
  have "active_jobs (bk_rt (sv_broker demo_service)) = 1" by code_simp
  then show ?thesis
    using service_capacity_safety[OF demo_mk_kind demo_service_reachable] by simp
qed

text \<open>
  C15. A model that the explicit registry does not enable is never served. Whatever the adapters have
  loaded and whatever the external inventory offers, the chat endpoint answers 404, or 400 when the
  contract version is refused, and no record, queue entry, reservation or execution comes of it.
\<close>

theorem unlisted_model_never_served:
  assumes "get_model_registry_path env = Some p" "p \<noteq> []"
    and "\<And>models e. load_registry (x_fs x) (x_safe_load x) (x_model_validate x) env (sv_registry s) = REG models \<Longrightarrow>
           registry_get models (req_model req) = Some e \<Longrightarrow> \<not> ent_enabled e"
    and "post_chat frepr env h x hs arr req s = (rep, s')"
  shows "rep \<in> {Refused 404 MODEL_NOT_FOUND, Refused 400 CONTRACT_VERSION_UNSUPPORTED}
       \<and> same_work (sv_broker s) (sv_broker s')"
proof -
  let ?reg = "load_registry (x_fs x) (x_safe_load x) (x_model_validate x) env (sv_registry s)"
  obtain d where d: "resolve_model_runtime env (x_ext x) ?reg (sv_router s) (req_model req)
      = Inl (ModelResolutionError (req_model req) d)"
    using resolve_authoritative[OF assms(1,2), of "x_ext x" ?reg "sv_router s" "req_model req"] assms(3) by blast
  show ?thesis
    using assms(4)
    by (auto simp: post_chat_def with_negotiation_def Let_def chat_completions_def routed_endpoint_def resolve_route_def
        d on_broker_def unrouted_def same_work_def record_rejected_def split: if_splits)
qed

definition demo_registry_env :: environ where
  "demo_registry_env = (\<lambda>_. None)(''WHOOSHD_MODEL_REGISTRY_PATH'' \<mapsto> ''r.yaml'')"

lemma demo_registry_path: "get_model_registry_path demo_registry_env = Some ''r.yaml''"
  by (simp add: demo_registry_env_def get_model_registry_path_def env_str_def nonempty_def)

theorem unlisted_model_never_served_witness:
  "same_work (sv_broker (new_service demo_registry_env 0 demo_mk))
     (sv_broker (snd (post_chat (\<lambda>_. ''0'') demo_registry_env (demo_host 0 None) demo_externals demo_headers
        (demo_arrival ''a'') (chat_request ''unlisted'' [text_message ''user'' ''hi'']) (new_service demo_registry_env 0 demo_mk))))"
proof -
  let ?s = "new_service demo_registry_env 0 demo_mk"
  have "load_registry (x_fs demo_externals) (x_safe_load demo_externals) (x_model_validate demo_externals)
          demo_registry_env (sv_registry ?s) = REG_FALSE"
    by (simp add: load_registry_def new_service_def Let_def demo_registry_path load_model_registry_def demo_externals_def)
  then show ?thesis
    using unlisted_model_never_served[OF demo_registry_path, of demo_externals ?s, OF _ _ prod.collapse[symmetric]]
    by simp
qed

text \<open>
  C16. Models declared with vision reach a runtime that has it. In every state of the service, when an
  explicit registry routes a model whose entry declares the vision modality, the adapter it selects
  passes the vision check of the chat endpoint; the cross-field rules of the loader guarantee it.
\<close>

theorem vision_models_reach_vision_runtime:
  assumes "\<And>k. ad_kind (mk k) = RuntimeKind_value k"
    and "service_reachable env (new_service env now mk) s"
    and "get_model_registry_path env = Some p" "p \<noteq> []"
    and "resolve_route env x m s = (Inr res, s')"
  shows "\<exists>models e. sv_registry s' = REG models \<and> registry_get models m = Some e \<and> ent_enabled e
           \<and> adapter_supports_vision (res_kind res) = (ent_engine e = ENGINE_MLX_VLM)
           \<and> (is_vision_capable e \<longrightarrow> adapter_supports_vision (res_kind res))"
proof -
  have ok: "service_ok env s" by (rule service_reachable_ok(1)[OF assms(2) service_ok_new[OF assms(1)]])
  have reg: "sv_registry s' = load_registry (x_fs x) (x_safe_load x) (x_model_validate x) env (sv_registry s)"
    and "resolve_model_runtime env (x_ext x) (sv_registry s') (sv_router s) m = Inr res"
    using assms(5) by (auto simp: resolve_route_def Let_def)
  then obtain models e a where e: "sv_registry s' = REG models" "registry_get models m = Some e" "ent_enabled e"
      and a: "get_adapter (sv_router s) (engine_kind (ent_engine e)) = Some a"
      and res: "res = mk_resolution None a m ''authoritative_registry''"
    using resolve_authoritative(1)[OF assms(3,4)] by blast
  have "cache_ok (sv_registry s')" unfolding reg using ok by (intro load_registry_ok) (simp add: service_ok_def)
  then have "entry_coherent e" using e(1,2) by (auto simp: cache_ok_def registry_get_def dest: map_of_SomeD)
  moreover have "res_kind res = engine_kind (ent_engine e)"
    using a router_ok_dget ok by (auto simp: res mk_resolution_def Let_def get_adapter_def service_ok_def)
  then have "adapter_supports_vision (res_kind res) = (ent_engine e = ENGINE_MLX_VLM)"
    by (cases "ent_engine e") (simp_all add: adapter_supports_vision_def engine_kind_def)
  ultimately show ?thesis using e by (auto simp: entry_coherent_def)
qed

definition demo_vision_externals :: externals where
  "demo_vision_externals =
     \<lparr>x_fs = (\<lambda>_. Contents ''y''), x_safe_load = (\<lambda>_. Some (PDict [(''models'', PDict [])])),
      x_model_validate = (\<lambda>_. Some [(''vlm'', demo_entry_vlm)]), x_ext = (\<lambda>_. None)\<rparr>"

definition demo_vision_env :: environ where
  "demo_vision_env = demo_registry_env(''WHOOSHD_MLX_VLM_ENABLED'' \<mapsto> ''true'')"

theorem vision_models_reach_vision_runtime_witness:
  "is_vision_capable demo_entry_vlm
   \<and> adapter_supports_vision (res_kind (mk_resolution None (demo_adapter ''mlx_vlm'') ''vlm'' ''authoritative_registry''))"
proof -
  let ?s = "new_service demo_vision_env 0 demo_mk"
  let ?res = "mk_resolution None (demo_adapter ''mlx_vlm'') ''vlm'' ''authoritative_registry''"
  let ?s' = "?s\<lparr>sv_registry := REG [(''vlm'', demo_entry_vlm)]\<rparr>"
  have path: "get_model_registry_path demo_vision_env = Some ''r.yaml''"
    by (simp add: demo_vision_env_def demo_registry_env_def get_model_registry_path_def env_str_def nonempty_def)
  have load: "load_registry (x_fs demo_vision_externals) (x_safe_load demo_vision_externals)
      (x_model_validate demo_vision_externals) demo_vision_env REG_NONE = REG [(''vlm'', demo_entry_vlm)]"
    by (simp add: load_registry_def path load_model_registry_def demo_vision_externals_def demo_entry_vlm_def
        validate_registry_entry_def vision_capable_def)
  have "get_mlx_vlm_enabled demo_vision_env" by code_simp
  then have vlm: "get_adapter (sv_router ?s) (engine_kind ENGINE_MLX_VLM) = Some (demo_adapter ''mlx_vlm'')"
    by (simp add: new_service_def Let_def init_router_def engine_kind_def demo_adapter_kind)
  have "resolve_model_runtime demo_vision_env (x_ext demo_vision_externals) (REG [(''vlm'', demo_entry_vlm)])
      (sv_router ?s) ''vlm'' = Inr ?res"
    unfolding resolve_authoritative(1)[OF path list.distinct(2)]
    using vlm by (simp add: registry_get_def demo_entry_vlm_def)
  then have "resolve_route demo_vision_env demo_vision_externals ''vlm'' ?s = (Inr ?res, ?s')"
    using load by (simp add: resolve_route_def new_service_def Let_def)
  from vision_models_reach_vision_runtime[OF demo_mk_kind sv_init path list.distinct(2) this]
  show ?thesis by (auto simp: registry_get_def is_vision_capable_def demo_entry_vlm_def)
qed

text \<open>
  C17. Cancellation frees a slot before the adapter is done. The ceilings bound the records in a slot,
  not the executions inside the adapters: with a ceiling of one, starting a request, cancelling it
  through the endpoint and starting another reaches a state in which two requests are inside an
  adapter while one slot is counted.
\<close>

definition one_slot_env :: environ where
  "one_slot_env = (\<lambda>_. None)(''WHOOSHD_MAX_ACTIVE_REQUESTS'' \<mapsto> ''1'')"

definition overcommitted :: Broker where
  "overcommitted =
     (let go = (\<lambda>hex b. snd (generate_arrival one_slot_env (demo_host 0 None) (demo_arrival hex) demo_resolution
                              demo_generate b))
      in go ''b'' (snd (cancel_endpoint 1 ''whoosh-a'' (go ''a'' new_broker))))"

theorem cancellation_overcommits:
  "operator_ceiling one_slot_env = 1 \<and> reachable one_slot_env demo_lanes overcommitted
   \<and> length (bk_running overcommitted) = 2 \<and> active_jobs (bk_rt overcommitted) = 1"
proof -
  let ?b1 = "snd (generate_arrival one_slot_env (demo_host 0 None) (demo_arrival ''a'') demo_resolution demo_generate new_broker)"
  let ?b2 = "snd (cancel_endpoint 1 ''whoosh-a'' ?b1)"
  have route: "route_ok demo_lanes demo_resolution"
    by (simp add: route_ok_def demo_resolution_def demo_lanes_def mk_resolution_def demo_adapter_def)
  have "fresh_id new_broker (arr_hex (demo_arrival ''a''))" by code_simp
  then have "reachable one_slot_env demo_lanes ?b1"
    by (rule reachable.step[OF reachable.init broker_step.generate[OF route _ prod.collapse[symmetric]]])
  then have r2: "reachable one_slot_env demo_lanes ?b2"
    by (rule reachable.step) (rule broker_step.cancel[OF prod.collapse[symmetric]])
  have "fresh_id ?b2 (arr_hex (demo_arrival ''b''))" by code_simp
  then have "reachable one_slot_env demo_lanes overcommitted"
    unfolding overcommitted_def Let_def
    by (rule reachable.step[OF r2 broker_step.generate[OF route _ prod.collapse[symmetric]]])
  moreover have "operator_ceiling one_slot_env = 1" by code_simp
  moreover have "length (bk_running overcommitted) = 2" by code_simp
  moreover have "active_jobs (bk_rt overcommitted) = 1" by code_simp
  ultimately show ?thesis by simp
qed

end
