(* ===== verification/Model_Inventory.thy ===== *)
theory Model_Inventory
  imports Routing "HOL-Library.Product_Lexorder"
begin

text \<open>
  External model weights: \<open>whooshd/models/types.py\<close>, \<open>resolver.py\<close>, \<open>routes.py\<close> and \<open>inventory.py\<close>,
  and the handover to the router in \<open>RuntimeRouter._resolve_external_model\<close>.

  A \<open>Path\<close> is the list of its \<open>parts\<close>, an absolute one starting with the part \<open>"/"\<close>. The file system
  is a parameter record: what \<open>exists\<close>, \<open>is_dir\<close>, \<open>is_file\<close> and \<open>iterdir\<close> answer, and what
  \<open>expanduser().resolve()\<close> turns a path into (\<open>None\<close> when it raises). The laws the proofs need of it
  are the hypotheses collected in \<open>fs_laws\<close>. The results of the functions are options, \<open>None\<close>
  meaning that an exception leaves the function; the router catches them all.
\<close>

section \<open>Paths and the file system\<close>

type_synonym path = "string list"

record file_system =
  fs_exists :: "path \<Rightarrow> bool"
  fs_is_dir :: "path \<Rightarrow> bool"
  fs_is_file :: "path \<Rightarrow> bool"
  fs_iterdir :: "path \<Rightarrow> string list option"
  fs_resolve :: "path \<Rightarrow> path option"

fun py_split :: "char \<Rightarrow> string \<Rightarrow> string list" where
  "py_split sep [] = [[]]"
| "py_split sep (c # cs) =
     (if c = sep then [] # py_split sep cs
      else case py_split sep cs of [] \<Rightarrow> [[c]] | p # ps \<Rightarrow> (c # p) # ps)"

text \<open>\<open>Path(text)\<close>: empty and \<open>.\<close> components vanish, two leading slashes are kept apart from one.\<close>

definition path_of :: "string \<Rightarrow> path" where
  "path_of t =
     (let parts = filter (\<lambda>c. c \<noteq> [] \<and> c \<noteq> ''.'') (py_split CHR ''/'' t) in
      if startswith t ''//'' \<and> \<not> startswith t ''///'' then ''//'' # parts
      else if startswith t ''/'' then ''/'' # parts
      else parts)"

definition path_str :: "path \<Rightarrow> string" where
  "path_str p =
     (case p of
        [] \<Rightarrow> ''.''
      | c # cs \<Rightarrow> if c = ''/'' \<or> c = ''//'' then c @ py_join ''/'' cs else py_join ''/'' p)"

text \<open>\<open>p / c\<close> for a single component.\<close>

definition path_child :: "path \<Rightarrow> string \<Rightarrow> path" where
  "path_child p c = (if c = [] \<or> c = ''.'' then p else p @ [c])"

text \<open>\<open>name.stem\<close>: the name without its last sfx.\<close>

definition path_stem :: "string \<Rightarrow> string" where
  "path_stem name =
     (let tail = takeWhile (\<lambda>c. c \<noteq> CHR ''.'') (rev name); i = length name - Suc (length tail) in
      if length tail < length name \<and> 0 < i \<and> tail \<noteq> [] then take i name else name)"

text \<open>\<open>sorted(directory.glob("*" + sfx))\<close>, as names; a directory that cannot be listed yields none.\<close>

definition fs_glob :: "file_system \<Rightarrow> path \<Rightarrow> string \<Rightarrow> string list" where
  "fs_glob fs dir sfx =
     (case fs_iterdir fs dir of None \<Rightarrow> [] | Some names \<Rightarrow> sort (filter (\<lambda>n. endswith n sfx) names))"

text \<open>\<open>str(p.resolve())\<close> of an absolute path.\<close>

definition resolved_text :: "file_system \<Rightarrow> path \<Rightarrow> string option" where
  "resolved_text fs p = map_option path_str (fs_resolve fs p)"

text \<open>
  \<open>s.upper()\<close>. The micro sign and the y with diaeresis, whose upper case lies outside Latin-1, are
  left alone; the sharp s becomes two letters.
\<close>

definition char_upper :: "char \<Rightarrow> string" where
  "char_upper c =
     (if is_lower c \<or> 224 \<le> cp c \<and> cp c \<le> 254 \<and> cp c \<noteq> 247 then [char_of (cp c - 32)]
      else if cp c = 223 then ''SS'' else [c])"

definition py_upper :: "string \<Rightarrow> string" where
  "py_upper s = concat (map char_upper s)"

section \<open>Resolver (resolver.py)\<close>

datatype ResolutionStatus = RS_FOUND | RS_MISSING | RS_INVALID_LAYOUT | RS_UNSUPPORTED_FORMAT

datatype resolution_reason =
    REASON_UNSUPPORTED_FORMAT "string option"
  | REASON_MALFORMED_MODEL_ID string
  | REASON_NOT_FOUND
  | REASON_NO_GGUF_FILES
  | REASON_NO_QUANT_MATCH "string option"
  | REASON_NO_CONFIG
  | REASON_NO_CONFIG_OR_SAFETENSORS
  | REASON_NO_ROUTES
  | REASON_NOT_IN_ROUTES

record ModelResolutionRequest =
  mq_model_id :: string
  mq_format :: "string option"
  mq_quant :: "string option"
  mq_search_paths :: "path list"

record ModelResolutionResult =
  mr_status :: ResolutionStatus
  mr_model_id :: string
  mr_format :: "string option"
  mr_path :: "string option"
  mr_source :: "string option"
  mr_runtime :: "string option"
  mr_reason :: "resolution_reason option"
  mr_metadata :: "(string, pyval) dict"

definition SUPPORTED_FORMATS :: "string list" where
  "SUPPORTED_FORMATS = [''gguf'', ''mlx'', ''safetensors'']"

definition RUNTIME_MAP :: "(string, string) dict" where
  "RUNTIME_MAP = [(''gguf'', ''llama_cpp''), (''mlx'', ''mlx_lm''), (''safetensors'', ''unsupported'')]"

definition detect_format :: "string \<Rightarrow> string" where
  "detect_format model_id =
     (let upper = py_upper model_id; lower = py_lower model_id in
      if endswith upper ''-GGUF'' \<or> py_contains upper ''GGUF'' then ''gguf''
      else if startswith lower ''mlx-community/'' \<or> endswith lower ''-mlx'' then ''mlx''
      else ''safetensors'')"

definition resolve_format :: "string option \<Rightarrow> string \<Rightarrow> string option" where
  "resolve_format explicit_format model_id =
     (case explicit_format of
        Some f \<Rightarrow> (let explicit = py_lower (py_strip f) in if explicit \<in> set SUPPORTED_FORMATS then Some explicit else None)
      | None \<Rightarrow> Some (detect_format model_id))"

definition split_model_id :: "string \<Rightarrow> (string \<times> string) option" where
  "split_model_id model_id =
     (case py_split CHR ''/'' model_id of
        [publisher, repo] \<Rightarrow> if publisher = [] \<or> repo = [] then None else Some (publisher, repo)
      | _ \<Rightarrow> None)"

definition not_found_result :: "ResolutionStatus \<Rightarrow> string \<Rightarrow> string option \<Rightarrow> string option \<Rightarrow> resolution_reason
    \<Rightarrow> (string, pyval) dict \<Rightarrow> ModelResolutionResult" where
  "not_found_result status model_id fmt runtime reason meta =
     \<lparr>mr_status = status, mr_model_id = model_id, mr_format = fmt, mr_path = None, mr_source = None,
      mr_runtime = runtime, mr_reason = Some reason, mr_metadata = meta\<rparr>"

definition found_result :: "string \<Rightarrow> string \<Rightarrow> string \<Rightarrow> string \<Rightarrow> (string, pyval) dict \<Rightarrow> ModelResolutionResult" where
  "found_result model_id fmt file runtime meta =
     \<lparr>mr_status = RS_FOUND, mr_model_id = model_id, mr_format = Some fmt, mr_path = Some file,
      mr_source = Some ''local_filesystem'', mr_runtime = Some runtime, mr_reason = None, mr_metadata = meta\<rparr>"

text \<open>The file a request for a quantization gets, if any.\<close>

definition match_quant :: "string option \<Rightarrow> string list \<Rightarrow> string option" where
  "match_quant quant gguf_files =
     (case quant of
        None \<Rightarrow> None
      | Some q \<Rightarrow>
          (if py_strip q = [] then None
           else find (\<lambda>n. py_contains (py_lower n) (py_lower (py_strip q))) gguf_files))"

definition validate_gguf ::
  "file_system \<Rightarrow> path \<Rightarrow> string option \<Rightarrow> string \<Rightarrow> string \<Rightarrow> (string, pyval) dict \<Rightarrow> ModelResolutionResult option" where
  "validate_gguf fs dir quant model_id runtime meta =
     (case fs_glob fs dir ''.gguf'' of
        [] \<Rightarrow> Some (not_found_result RS_INVALID_LAYOUT model_id (Some ''gguf'') (Some runtime) REASON_NO_GGUF_FILES meta)
      | first # rest \<Rightarrow>
          (case (match_quant quant (first # rest), quant) of
             (None, Some q) \<Rightarrow>
               Some (not_found_result RS_MISSING model_id (Some ''gguf'') (Some runtime) (REASON_NO_QUANT_MATCH quant)
                       (dset ''quant_requested'' (PStr q) meta))
           | (found, _) \<Rightarrow>
               (let name = (case found of Some n \<Rightarrow> n | None \<Rightarrow> first) in
                map_option (\<lambda>file. found_result model_id ''gguf'' file runtime
                                     (dset ''quant'' (opt_str quant) (dset ''matched_file'' (PStr name) meta)))
                  (resolved_text fs (path_child dir name)))))"

definition validate_mlx ::
  "file_system \<Rightarrow> path \<Rightarrow> string \<Rightarrow> string \<Rightarrow> (string, pyval) dict \<Rightarrow> ModelResolutionResult option" where
  "validate_mlx fs dir model_id runtime meta =
     (if \<not> fs_is_file fs (path_child dir ''config.json'') then
        Some (not_found_result RS_INVALID_LAYOUT model_id (Some ''mlx'') (Some runtime) REASON_NO_CONFIG meta)
      else map_option (\<lambda>file. found_result model_id ''mlx'' file runtime (dset ''matched_file'' (PStr ''config.json'') meta))
             (resolved_text fs dir))"

definition has_safetensors_layout :: "file_system \<Rightarrow> path \<Rightarrow> bool" where
  "has_safetensors_layout fs dir =
     (fs_is_file fs (path_child dir ''config.json'') \<or> fs_glob fs dir ''.safetensors'' \<noteq> [])"

definition safetensors_match :: "file_system \<Rightarrow> path \<Rightarrow> string" where
  "safetensors_match fs dir = (if fs_is_file fs (path_child dir ''config.json'') then ''config.json'' else ''*.safetensors'')"

definition validate_safetensors ::
  "file_system \<Rightarrow> path \<Rightarrow> string \<Rightarrow> string \<Rightarrow> (string, pyval) dict \<Rightarrow> ModelResolutionResult option" where
  "validate_safetensors fs dir model_id runtime meta =
     (if \<not> has_safetensors_layout fs dir then
        Some (not_found_result RS_INVALID_LAYOUT model_id (Some ''safetensors'') (Some runtime)
                REASON_NO_CONFIG_OR_SAFETENSORS meta)
      else map_option (\<lambda>file. found_result model_id ''safetensors'' file runtime
                                (dset ''matched_file'' (PStr (safetensors_match fs dir)) meta))
             (resolved_text fs dir))"

text \<open>
  \<open>_validate_directory\<close>: the outer option is an exception, the inner one "keep searching".
\<close>

definition validate_directory ::
  "file_system \<Rightarrow> path \<Rightarrow> string \<Rightarrow> string option \<Rightarrow> string \<Rightarrow> string \<Rightarrow> string list
   \<Rightarrow> ModelResolutionResult option option" where
  "validate_directory fs dir fmt quant model_id runtime checked_paths =
     (if \<not> fs_is_dir fs dir then Some None
      else
        let meta = [(''checked_paths'', PList (map PStr checked_paths))] in
        if fmt = ''gguf'' then map_option Some (validate_gguf fs dir quant model_id runtime meta)
        else if fmt = ''mlx'' then map_option Some (validate_mlx fs dir model_id runtime meta)
        else if fmt = ''safetensors'' then map_option Some (validate_safetensors fs dir model_id runtime meta)
        else Some None)"

definition model_dir :: "path \<Rightarrow> string \<Rightarrow> string \<Rightarrow> string \<Rightarrow> path" where
  "model_dir base fmt publisher repo = path_child (path_child (path_child base fmt) publisher) repo"

fun search_roots ::
  "file_system \<Rightarrow> string \<Rightarrow> string \<Rightarrow> string \<Rightarrow> string option \<Rightarrow> string \<Rightarrow> string \<Rightarrow> string list \<Rightarrow> path list
   \<Rightarrow> ModelResolutionResult option" where
  "search_roots fs fmt publisher repo quant model_id runtime checked_paths [] =
     Some (not_found_result RS_MISSING model_id (Some fmt) (Some runtime) REASON_NOT_FOUND
             [(''checked_paths'', PList (map PStr checked_paths))])"
| "search_roots fs fmt publisher repo quant model_id runtime checked_paths (r # rs) =
     (case fs_resolve fs r of
        None \<Rightarrow> None
      | Some base \<Rightarrow>
          let dir = model_dir base fmt publisher repo; checked_paths = checked_paths @ [path_str dir] in
          case validate_directory fs dir fmt quant model_id runtime checked_paths of
            None \<Rightarrow> None
          | Some (Some result) \<Rightarrow> Some result
          | Some None \<Rightarrow> search_roots fs fmt publisher repo quant model_id runtime checked_paths rs)"

definition resolve_model :: "file_system \<Rightarrow> ModelResolutionRequest \<Rightarrow> ModelResolutionResult option" where
  "resolve_model fs rq =
     (let model_id = mq_model_id rq in
      case resolve_format (mq_format rq) model_id of
        None \<Rightarrow> Some (not_found_result RS_UNSUPPORTED_FORMAT model_id (mq_format rq) None
                        (REASON_UNSUPPORTED_FORMAT (mq_format rq)) [])
      | Some fmt \<Rightarrow>
          let runtime = (case dget RUNTIME_MAP fmt of Some r \<Rightarrow> r | None \<Rightarrow> ''unsupported'') in
          case split_model_id model_id of
            None \<Rightarrow> Some (not_found_result RS_MISSING model_id (Some fmt) (Some runtime)
                            (REASON_MALFORMED_MODEL_ID model_id) [(''checked_paths'', PList [])])
          | Some (publisher, repo) \<Rightarrow>
              search_roots fs fmt publisher repo (mq_quant rq) model_id runtime [] (mq_search_paths rq))"

section \<open>External weight routes (routes.py)\<close>

record ExternalWeightRoute =
  wr_id :: string
  wr_path :: path
  wr_enabled :: bool
  wr_read_only :: bool
  wr_priority :: int

datatype ExternalRouteStatus = XR_AVAILABLE | XR_DISABLED | XR_MOUNT_UNAVAILABLE | XR_INVALID_PATH

datatype route_reason = ROUTE_DISABLED | NOT_A_DIRECTORY | MOUNT_POINT_UNAVAILABLE string | PATH_DOES_NOT_EXIST

record ExternalWeightRouteStatus =
  ws_id :: string
  ws_path :: path
  ws_enabled :: bool
  ws_available :: bool
  ws_status :: ExternalRouteStatus
  ws_reason :: "route_reason option"

text \<open>\<open>int(v)\<close>: \<open>None\<close> is \<open>TypeError\<close> or \<open>ValueError\<close>.\<close>

fun py_int_of :: "pyval \<Rightarrow> int option" where
  "py_int_of (PBool b) = Some (if b then 1 else 0)"
| "py_int_of (PInt i) = Some i"
| "py_int_of (PFloat r) = Some (if r < 0 then - \<lfloor>- r\<rfloor> else \<lfloor>r\<rfloor>)"
| "py_int_of (PStr s) = py_int s"
| "py_int_of _ = None"

text \<open>
  One entry of the configured array: skipped, or a route, or an exception. \<open>home\<close> is \<open>expanduser()\<close>.
\<close>

definition load_route :: "(path \<Rightarrow> path option) \<Rightarrow> pyval \<Rightarrow> ExternalWeightRoute option option" where
  "load_route home v =
     (case v of
        PDict entry \<Rightarrow>
          (case (dget entry ''id'', dget entry ''path'') of
             (Some (PStr rid), Some (PStr rpath)) \<Rightarrow>
               (if rid = [] \<or> rpath = [] then Some None
                else
                  (case (home (path_of (py_strip rpath)),
                         py_int_of (case dget entry ''priority'' of None \<Rightarrow> PInt 100 | Some p \<Rightarrow> p)) of
                     (Some p, Some priority) \<Rightarrow>
                       Some (Some \<lparr>wr_id = py_strip rid, wr_path = p,
                         wr_enabled = truthy (case dget entry ''enabled'' of None \<Rightarrow> PBool True | Some b \<Rightarrow> b),
                         wr_read_only = truthy (case dget entry ''read_only'' of None \<Rightarrow> PBool True | Some b \<Rightarrow> b),
                         wr_priority = priority\<rparr>)
                   | _ \<Rightarrow> None))
           | _ \<Rightarrow> Some None)
      | _ \<Rightarrow> Some None)"

fun load_routes :: "(path \<Rightarrow> path option) \<Rightarrow> pyval list \<Rightarrow> ExternalWeightRoute list option" where
  "load_routes home [] = Some []"
| "load_routes home (v # vs) =
     (case load_route home v of
        None \<Rightarrow> None
      | Some r \<Rightarrow> map_option (\<lambda>rs. case r of None \<Rightarrow> rs | Some r \<Rightarrow> r # rs) (load_routes home vs))"

text \<open>\<open>loads\<close> is \<open>json.loads\<close>, \<open>None\<close> standing for \<open>JSONDecodeError\<close>.\<close>

definition load_external_weight_routes ::
  "environ \<Rightarrow> (string \<Rightarrow> pyval option) \<Rightarrow> (path \<Rightarrow> path option) \<Rightarrow> ExternalWeightRoute list option" where
  "load_external_weight_routes env loads home =
     (let raw = py_strip (case env ''WHOOSHD_EXTERNAL_ROUTES'' of None \<Rightarrow> [] | Some s \<Rightarrow> s) in
      if raw = [] then Some []
      else case loads raw of Some (PList vs) \<Rightarrow> load_routes home vs | _ \<Rightarrow> Some [])"

definition is_mount_unavailable :: "file_system \<Rightarrow> path \<Rightarrow> bool" where
  "is_mount_unavailable fs p =
     (case p of r # v # name # _ \<Rightarrow> r = ''/'' \<and> v = ''Volumes'' \<and> \<not> fs_exists fs [r, v, name] | _ \<Rightarrow> False)"

definition mount_point :: "path \<Rightarrow> string" where
  "mount_point p =
     (case p of
        r # v # name # _ \<Rightarrow> if r = ''/'' \<and> v = ''Volumes'' then path_str [r, v, name] else path_str p
      | _ \<Rightarrow> path_str p)"

definition validate_route_status :: "file_system \<Rightarrow> ExternalWeightRoute \<Rightarrow> ExternalWeightRouteStatus option" where
  "validate_route_status fs r =
     (let status = (\<lambda>p en av st re. \<lparr>ws_id = wr_id r, ws_path = p, ws_enabled = en, ws_available = av,
                                      ws_status = st, ws_reason = re\<rparr>) in
      if \<not> wr_enabled r then Some (status (wr_path r) False False XR_DISABLED (Some ROUTE_DISABLED))
      else
        map_option (\<lambda>rpath.
            if fs_exists fs rpath then
              (if fs_is_dir fs rpath then status rpath True True XR_AVAILABLE None
               else status rpath True False XR_INVALID_PATH (Some NOT_A_DIRECTORY))
            else if is_mount_unavailable fs rpath then
              status rpath True False XR_MOUNT_UNAVAILABLE (Some (MOUNT_POINT_UNAVAILABLE (mount_point rpath)))
            else status rpath True False XR_INVALID_PATH (Some PATH_DOES_NOT_EXIST))
          (fs_resolve fs (wr_path r)))"

text \<open>\<open>[f(x) for x in xs]\<close> where \<open>f\<close> may raise.\<close>

fun map_raising :: "('a \<Rightarrow> 'b option) \<Rightarrow> 'a list \<Rightarrow> 'b list option" where
  "map_raising f [] = Some []"
| "map_raising f (x # xs) =
     (case f x of None \<Rightarrow> None | Some y \<Rightarrow> map_option (Cons y) (map_raising f xs))"

definition validate_all_routes :: "file_system \<Rightarrow> ExternalWeightRoute list \<Rightarrow> ExternalWeightRouteStatus list option" where
  "validate_all_routes fs routes = map_raising (validate_route_status fs) routes"

definition route_priority :: "ExternalWeightRoute list \<Rightarrow> string \<Rightarrow> int" where
  "route_priority routes rid =
     (case dget (fold (\<lambda>r d. dset (wr_id r) r d) routes []) rid of None \<Rightarrow> 100 | Some r \<Rightarrow> wr_priority r)"

definition get_available_route_paths :: "file_system \<Rightarrow> ExternalWeightRoute list \<Rightarrow> path list option" where
  "get_available_route_paths fs routes =
     map_option (\<lambda>statuses.
         map ws_path (sort_key (\<lambda>s. (route_priority routes (ws_id s), ws_id s)) (filter ws_available statuses)))
       (map_raising (validate_route_status fs) (filter wr_enabled routes))"

definition ExternalRouteStatus_value :: "ExternalRouteStatus \<Rightarrow> string" where
  "ExternalRouteStatus_value s =
     (case s of XR_AVAILABLE \<Rightarrow> ''available'' | XR_DISABLED \<Rightarrow> ''disabled''
      | XR_MOUNT_UNAVAILABLE \<Rightarrow> ''mount_unavailable'' | XR_INVALID_PATH \<Rightarrow> ''invalid_path'')"

definition route_reason_text :: "route_reason option \<Rightarrow> pyval" where
  "route_reason_text r =
     (case r of
        None \<Rightarrow> PNone
      | Some ROUTE_DISABLED \<Rightarrow> PStr ''route is disabled''
      | Some NOT_A_DIRECTORY \<Rightarrow> PStr ''path exists but is not a directory''
      | Some (MOUNT_POINT_UNAVAILABLE m) \<Rightarrow> PStr (''mount point unavailable: '' @ m)
      | Some PATH_DOES_NOT_EXIST \<Rightarrow> PStr ''path does not exist'')"

definition route_metadata :: "ExternalWeightRouteStatus list \<Rightarrow> (string, pyval) dict" where
  "route_metadata statuses =
     [(''route_ids_checked'', PList (map (PStr \<circ> ws_id) statuses)),
      (''available_route_ids'', PList (map (PStr \<circ> ws_id) (filter ws_available statuses))),
      (''unavailable_routes'', PList (map (\<lambda>s. PDict [(''id'', PStr (ws_id s)),
          (''status'', PStr (ExternalRouteStatus_value (ws_status s))), (''path'', PStr (path_str (ws_path s))),
          (''reason'', route_reason_text (ws_reason s))]) (filter (\<lambda>s. \<not> ws_available s) statuses)))]"

definition resolve_model_from_routes ::
  "file_system \<Rightarrow> ModelResolutionRequest \<Rightarrow> ExternalWeightRoute list \<Rightarrow> ModelResolutionResult option" where
  "resolve_model_from_routes fs rq routes =
     (case (validate_all_routes fs routes, get_available_route_paths fs routes) of
        (Some statuses, Some paths) \<Rightarrow>
          if paths = [] then
            Some (not_found_result RS_MISSING (mq_model_id rq) (mq_format rq) None REASON_NO_ROUTES (route_metadata statuses))
          else
            map_option (\<lambda>result.
                let result = result\<lparr>mr_metadata := fold (\<lambda>(k, v) d. dset k v d) (route_metadata statuses) (mr_metadata result)\<rparr> in
                if mr_status result = RS_FOUND then result\<lparr>mr_source := Some ''external''\<rparr>
                else result\<lparr>mr_reason := (case mr_reason result of None \<Rightarrow> Some REASON_NOT_IN_ROUTES | r \<Rightarrow> r)\<rparr>)
              (resolve_model fs (rq\<lparr>mq_search_paths := paths\<rparr>))
      | _ \<Rightarrow> None)"

section \<open>External inventory (inventory.py)\<close>

record ExternalModelInventoryEntry =
  xe_id :: string
  xe_model_id :: string
  xe_source :: string
  xe_route_id :: string
  xe_format :: string
  xe_runtime :: "string option"
  xe_path :: string
  xe_registry_managed :: bool
  xe_path_available :: bool
  xe_servable :: bool
  xe_metadata :: "(string, pyval) dict"

definition external_entry ::
  "string \<Rightarrow> string \<Rightarrow> string \<Rightarrow> string \<Rightarrow> string \<Rightarrow> string \<Rightarrow> bool \<Rightarrow> (string, pyval) dict
   \<Rightarrow> ExternalModelInventoryEntry" where
  "external_entry public_id model_id route_id fmt runtime file servable meta =
     \<lparr>xe_id = public_id, xe_model_id = model_id, xe_source = ''external'', xe_route_id = route_id, xe_format = fmt,
      xe_runtime = Some runtime, xe_path = file, xe_registry_managed = False, xe_path_available = True,
      xe_servable = servable, xe_metadata = meta\<rparr>"

definition SKIP_DIRS :: "string list" where
  "SKIP_DIRS = [''.cache'', ''.huggingface'', ''.git'', ''.DS_Store'', ''__pycache__'']"

definition KNOWN_QUANTS :: "string list" where
  "KNOWN_QUANTS = [''Q4_K_M'', ''Q5_K_M'', ''Q8_0'']"

text \<open>\<open>_QUANT_RE\<close> matched at the start of a text, its alternatives in order.\<close>

definition quant_at :: "string \<Rightarrow> string option" where
  "quant_at s =
     (let nth_is = (\<lambda>i p. i < length s \<and> p (s ! i)); is_q = (\<lambda>c. char_lower c = CHR ''q''); is_f = (\<lambda>c. char_lower c = CHR ''f'');
          one_of = (\<lambda>cs c. char_lower c \<in> set cs) in
      if nth_is 0 is_q \<and> nth_is 1 is_digit \<and> nth_is 2 (\<lambda>c. c = CHR ''_'') \<and> nth_is 3 (one_of ''klm0'') then Some (take 4 s)
      else if nth_is 0 is_q \<and> nth_is 1 is_digit \<and> nth_is 2 (\<lambda>c. c = CHR ''_'') \<and> nth_is 3 is_digit then Some (take 4 s)
      else if nth_is 0 is_f \<and> nth_is 1 (one_of ''1'') \<and> nth_is 2 (one_of ''6'') then Some (take 3 s)
      else if nth_is 0 is_f \<and> nth_is 1 (one_of ''3'') \<and> nth_is 2 (one_of ''2'') then Some (take 3 s)
      else if nth_is 0 (one_of ''b'') \<and> nth_is 1 is_f \<and> nth_is 2 (one_of ''1'') \<and> nth_is 3 (one_of ''6'') then Some (take 4 s)
      else if nth_is 0 (one_of ''i'') \<and> nth_is 1 is_q \<and> nth_is 2 is_digit \<and> nth_is 3 (\<lambda>c. c = CHR ''_'')
        then Some (take 4 s @ takeWhile (\<lambda>c. c \<noteq> CHR ''/'' \<and> c \<noteq> CHR ''.'') (drop 4 s))
      else None)"

fun quant_search :: "string \<Rightarrow> string option" where
  "quant_search [] = None"
| "quant_search (c # cs) = (case quant_at (c # cs) of Some m \<Rightarrow> Some m | None \<Rightarrow> quant_search cs)"

text \<open>\<open>known\<close> is the order in which the set of known labels is walked.\<close>

definition extract_quant :: "string list \<Rightarrow> string \<Rightarrow> string option" where
  "extract_quant known stem =
     (case find (\<lambda>kq. py_contains (py_upper stem) kq) known of
        Some kq \<Rightarrow> Some kq
      | None \<Rightarrow> map_option py_upper (quant_search stem))"

definition safe_id_component :: "string \<Rightarrow> string" where
  "safe_id_component name =
     (let safe = take 64 (map (\<lambda>c. if is_alnum c \<or> c \<in> set ''._-'' then c else CHR ''-'') name);
          safe = py_rstrip_chars (\<lambda>c. c \<in> set ''-.'') (dropWhile (\<lambda>c. c \<in> set ''-.'') safe) in
      if safe = [] then ''unknown'' else safe)"

definition gguf_public_id :: "string list \<Rightarrow> string \<Rightarrow> string \<Rightarrow> string" where
  "gguf_public_id known model_id name =
     (case extract_quant known (path_stem name) of
        Some q \<Rightarrow> if q = [] then model_id @ '':'' @ safe_id_component (path_stem name) else model_id @ '':'' @ q
      | None \<Rightarrow> model_id @ '':'' @ safe_id_component (path_stem name))"

text \<open>Entries found so far and the public ids already used.\<close>

type_synonym scan_state = "ExternalModelInventoryEntry list \<times> string list"

definition add_entry :: "ExternalModelInventoryEntry \<Rightarrow> scan_state \<Rightarrow> scan_state" where
  "add_entry e st = (case st of (entries, seen_ids) \<Rightarrow>
     if xe_id e \<in> set seen_ids then st else (entries @ [e], seen_ids @ [xe_id e]))"

fun scan_gguf_files ::
  "file_system \<Rightarrow> string list \<Rightarrow> string \<Rightarrow> path \<Rightarrow> string \<Rightarrow> string list \<Rightarrow> scan_state \<Rightarrow> scan_state option" where
  "scan_gguf_files fs known model_id dir route_id [] st = Some st"
| "scan_gguf_files fs known model_id dir route_id (n # ns) st =
     (if startswith n ''.'' \<or> gguf_public_id known model_id n \<in> set (snd st)
      then scan_gguf_files fs known model_id dir route_id ns st
      else
        case resolved_text fs (path_child dir n) of
          None \<Rightarrow> None
        | Some file \<Rightarrow>
            scan_gguf_files fs known model_id dir route_id ns
              (add_entry (external_entry (gguf_public_id known model_id n) model_id route_id ''gguf'' ''llama_cpp'' file True
                 [(''matched_file'', PStr n), (''quant'', opt_str (extract_quant known (path_stem n)))]) st))"

definition scan_gguf_dir ::
  "file_system \<Rightarrow> string list \<Rightarrow> string \<Rightarrow> path \<Rightarrow> string \<Rightarrow> scan_state \<Rightarrow> scan_state option" where
  "scan_gguf_dir fs known model_id dir route_id st =
     scan_gguf_files fs known model_id dir route_id (fs_glob fs dir ''.gguf'') st"

definition build_mlx_entry :: "file_system \<Rightarrow> string \<Rightarrow> path \<Rightarrow> string \<Rightarrow> ExternalModelInventoryEntry option option" where
  "build_mlx_entry fs model_id dir route_id =
     (if \<not> fs_is_file fs (path_child dir ''config.json'') then Some None
      else map_option (\<lambda>file. Some (external_entry model_id model_id route_id ''mlx'' ''mlx_lm'' file True
                                [(''matched_file'', PStr ''config.json'')]))
             (resolved_text fs dir))"

definition build_safetensors_entry :: "file_system \<Rightarrow> string \<Rightarrow> path \<Rightarrow> string \<Rightarrow> ExternalModelInventoryEntry option option" where
  "build_safetensors_entry fs model_id dir route_id =
     (if \<not> has_safetensors_layout fs dir then Some None
      else map_option (\<lambda>file. Some (external_entry model_id model_id route_id ''safetensors'' ''unsupported'' file False
                                [(''matched_file'', PStr (safetensors_match fs dir))]))
             (resolved_text fs dir))"

text \<open>One model directory of a route; the formats are the ones \<open>_scan_route\<close> walks.\<close>

definition scan_repo ::
  "file_system \<Rightarrow> string list \<Rightarrow> string \<Rightarrow> string \<Rightarrow> path \<Rightarrow> string \<Rightarrow> scan_state \<Rightarrow> scan_state option" where
  "scan_repo fs known fmt route_id dir model_id st =
     (if fmt = ''gguf'' then scan_gguf_dir fs known model_id dir route_id st
      else map_option (\<lambda>e. case e of None \<Rightarrow> st | Some e \<Rightarrow> add_entry e st)
             (if fmt = ''mlx'' then build_mlx_entry fs model_id dir route_id
              else build_safetensors_entry fs model_id dir route_id))"

text \<open>The visible subdirectories of a directory, in order; \<open>None\<close> when it cannot be listed.\<close>

definition visible_dirs :: "file_system \<Rightarrow> path \<Rightarrow> string list option" where
  "visible_dirs fs dir =
     map_option (\<lambda>names. filter (\<lambda>n. fs_is_dir fs (path_child dir n) \<and> \<not> startswith n ''.'' \<and> n \<notin> set SKIP_DIRS) (sort names))
       (fs_iterdir fs dir)"

fun fold_raising :: "('a \<Rightarrow> 's \<Rightarrow> 's option) \<Rightarrow> 'a list \<Rightarrow> 's \<Rightarrow> 's option" where
  "fold_raising f [] s = Some s"
| "fold_raising f (x # xs) s = (case f x s of None \<Rightarrow> None | Some s' \<Rightarrow> fold_raising f xs s')"

definition scan_publisher ::
  "file_system \<Rightarrow> string list \<Rightarrow> string \<Rightarrow> string \<Rightarrow> path \<Rightarrow> string \<Rightarrow> scan_state \<Rightarrow> scan_state option" where
  "scan_publisher fs known fmt route_id fmt_root publisher st =
     (case visible_dirs fs (path_child fmt_root publisher) of
        None \<Rightarrow> None
      | Some repos \<Rightarrow>
          fold_raising (\<lambda>repo st. scan_repo fs known fmt route_id (path_child (path_child fmt_root publisher) repo)
                                    (publisher @ ''/'' @ repo) st) repos st)"

definition scan_format ::
  "file_system \<Rightarrow> string list \<Rightarrow> path \<Rightarrow> string \<Rightarrow> string \<Rightarrow> scan_state \<Rightarrow> scan_state option" where
  "scan_format fs known base route_id fmt st =
     (if \<not> fs_is_dir fs (path_child base fmt) then Some st
      else
        case visible_dirs fs (path_child base fmt) of
          None \<Rightarrow> None
        | Some publishers \<Rightarrow> fold_raising (scan_publisher fs known fmt route_id (path_child base fmt)) publishers st)"

definition scan_route :: "file_system \<Rightarrow> string list \<Rightarrow> path \<Rightarrow> string \<Rightarrow> scan_state \<Rightarrow> scan_state option" where
  "scan_route fs known base route_id st =
     fold_raising (scan_format fs known base route_id) [''gguf'', ''mlx'', ''safetensors''] st"

text \<open>The resolved path of every available route, with the id of the last route that has it.\<close>

definition path_to_route :: "file_system \<Rightarrow> ExternalWeightRouteStatus list \<Rightarrow> (string, string) dict option" where
  "path_to_route fs statuses =
     map_option (\<lambda>ps. fold (\<lambda>(p, i) d. dset p i d) ps [])
       (map_raising (\<lambda>s. map_option (\<lambda>t. (t, ws_id s)) (resolved_text fs (ws_path s))) (filter ws_available statuses))"

definition list_external_model_inventory ::
  "file_system \<Rightarrow> string list \<Rightarrow> ExternalWeightRoute list \<Rightarrow> ExternalModelInventoryEntry list option" where
  "list_external_model_inventory fs known routes =
     (case (validate_all_routes fs routes, get_available_route_paths fs routes) of
        (Some statuses, Some paths) \<Rightarrow>
          (case path_to_route fs statuses of
             None \<Rightarrow> None
           | Some ids \<Rightarrow>
               map_option fst
                 (fold_raising (\<lambda>base st.
                     case resolved_text fs base of
                       None \<Rightarrow> None
                     | Some t \<Rightarrow> scan_route fs known base (case dget ids t of Some i \<Rightarrow> i | None \<Rightarrow> ''unknown'') st)
                   paths ([], [])))
      | _ \<Rightarrow> None)"

section \<open>Runtime handover\<close>

record parsed_public_id =
  pi_model_id :: string
  pi_format :: string
  pi_quant :: "string option"

text \<open>\<open>s.rsplit(":", 1)\<close> when there is a colon.\<close>

definition split_last_colon :: "string \<Rightarrow> string \<times> string" where
  "split_last_colon s =
     (let after = rev (takeWhile (\<lambda>c. c \<noteq> CHR '':'') (rev s)) in (take (length s - Suc (length after)) s, after))"

definition parse_external_model_public_id :: "string \<Rightarrow> parsed_public_id" where
  "parse_external_model_public_id model =
     (let model = py_strip model; lower = py_lower model; (candidate_id, sfx) = split_last_colon model in
      if CHR '':'' \<in> set model \<and> CHR ''/'' \<in> set model
         \<and> (py_contains (py_upper candidate_id) ''GGUF'' \<or> endswith (py_upper candidate_id) ''-GGUF'')
      then \<lparr>pi_model_id = candidate_id, pi_format = ''gguf'', pi_quant = Some sfx\<rparr>
      else if startswith lower ''mlx-community/'' \<or> endswith lower ''-mlx''
      then \<lparr>pi_model_id = model, pi_format = ''mlx'', pi_quant = None\<rparr>
      else \<lparr>pi_model_id = model, pi_format = ''safetensors'', pi_quant = None\<rparr>)"

record ExternalRuntimeResolution =
  xr_found :: bool
  xr_servable :: bool
  xr_model_id :: string
  xr_public_id :: string
  xr_format :: "string option"
  xr_runtime :: "string option"
  xr_path :: "string option"
  xr_route_id :: "string option"
  xr_reason :: "string option"

definition unservable :: "string \<Rightarrow> ExternalModelInventoryEntry \<Rightarrow> string \<Rightarrow> ExternalRuntimeResolution" where
  "unservable requested e reason =
     \<lparr>xr_found = True, xr_servable = False, xr_model_id = xe_model_id e, xr_public_id = requested,
      xr_format = Some (xe_format e), xr_runtime = xe_runtime e, xr_path = None, xr_route_id = Some (xe_route_id e),
      xr_reason = Some reason\<rparr>"

definition resolve_external_runtime_model ::
  "file_system \<Rightarrow> string list \<Rightarrow> string \<Rightarrow> ExternalWeightRoute list \<Rightarrow> ExternalRuntimeResolution option" where
  "resolve_external_runtime_model fs known requested routes =
     (let parsed = parse_external_model_public_id requested; quant = pi_quant parsed in
      case list_external_model_inventory fs known routes of
        None \<Rightarrow> None
      | Some inventory \<Rightarrow>
          (case find (\<lambda>e. xe_id e = requested) inventory of
             None \<Rightarrow> Some \<lparr>xr_found = False, xr_servable = False, xr_model_id = [], xr_public_id = requested,
                            xr_format = Some (pi_format parsed), xr_runtime = None, xr_path = None, xr_route_id = None,
                            xr_reason = Some ''not_external''\<rparr>
           | Some e \<Rightarrow>
               if \<not> xe_servable e then Some (unservable requested e ''not_servable'')
               else
                 case get_available_route_paths fs routes of
                   None \<Rightarrow> None
                 | Some [] \<Rightarrow> Some (unservable requested e ''route_unavailable'')
                 | Some paths \<Rightarrow>
                     map_option (\<lambda>result.
                         if mr_status result \<noteq> RS_FOUND then unservable requested e ''invalid_layout''
                         else (unservable requested e [])\<lparr>xr_servable := True, xr_path := mr_path result, xr_reason := None\<rparr>)
                       (resolve_model fs \<lparr>mq_model_id = (if xe_model_id e = [] then requested else xe_model_id e),
                          mq_format = Some (xe_format e), mq_quant = (if str_true quant then quant else None),
                          mq_search_paths = paths\<rparr>)))"

text \<open>
  What the router gets (\<open>RuntimeRouter._resolve_external_model\<close>): nothing without routes or after an
  exception.
\<close>

definition external_resolutions ::
  "environ \<Rightarrow> (string \<Rightarrow> pyval option) \<Rightarrow> (path \<Rightarrow> path option) \<Rightarrow> file_system \<Rightarrow> string list \<Rightarrow> string
   \<Rightarrow> external_resolution option" where
  "external_resolutions env loads home fs known model_id =
     (case load_external_weight_routes env loads home of
        None \<Rightarrow> None
      | Some [] \<Rightarrow> None
      | Some routes \<Rightarrow>
          map_option (\<lambda>x. \<lparr>ext_found = xr_found x, ext_servable = xr_servable x, ext_reason = xr_reason x,
                           ext_runtime = xr_runtime x, ext_path = xr_path x\<rparr>)
            (resolve_external_runtime_model fs known model_id routes))"

section \<open>Splitting model ids\<close>

lemma py_split_no_sep: "c \<notin> set s \<Longrightarrow> py_split c s = [s]"
  by (induction s) auto

lemma py_split_append: "c \<notin> set p \<Longrightarrow> py_split c (p @ c # r) = p # py_split c r"
  by (induction p) auto

definition proper_name :: "string \<Rightarrow> bool" where
  "proper_name n = (n \<noteq> [] \<and> n \<noteq> ''.'' \<and> n \<noteq> ''..'' \<and> CHR ''/'' \<notin> set n)"

lemma split_model_id_of:
  "proper_name publisher \<Longrightarrow> proper_name repo \<Longrightarrow> split_model_id (publisher @ ''/'' @ repo) = Some (publisher, repo)"
  by (simp add: split_model_id_def proper_name_def py_split_append py_split_no_sep)

lemma path_child_proper [simp]: "proper_name n \<Longrightarrow> path_child p n = p @ [n]"
  by (simp add: path_child_def proper_name_def)

lemma proper_formats: "proper_name ''gguf''" "proper_name ''mlx''" "proper_name ''safetensors''"
  by (simp_all add: proper_name_def)

section \<open>What a search finds\<close>

text \<open>
  The laws of the file system: listings hold file names, which are neither empty nor \<open>.\<close> or \<open>..\<close>
  and contain no slash, and resolving a resolved path changes nothing.
\<close>

definition fs_laws :: "file_system \<Rightarrow> bool" where
  "fs_laws fs \<longleftrightarrow>
     (\<forall>p names. fs_iterdir fs p = Some names \<longrightarrow> list_all proper_name names)
   \<and> (\<forall>p q. fs_resolve fs p = Some q \<longrightarrow> fs_resolve fs q = Some q)"

lemma fs_glob_mem: "n \<in> set (fs_glob fs dir e) \<Longrightarrow> fs_laws fs \<Longrightarrow> proper_name n \<and> endswith n e"
  by (cases "fs_iterdir fs dir") (auto simp: fs_glob_def fs_laws_def list_all_iff)

text \<open>The artifact of a model directory that stands for the model in a format.\<close>

definition artifact_of :: "file_system \<Rightarrow> string \<Rightarrow> path \<Rightarrow> path \<Rightarrow> bool" where
  "artifact_of fs fmt dir target =
     (if fmt = ''gguf'' then (\<exists>n. n \<in> set (fs_glob fs dir ''.gguf'') \<and> target = path_child dir n)
      else target = dir \<and> (if fmt = ''mlx'' then fs_is_file fs (path_child dir ''config.json'')
                           else has_safetensors_layout fs dir))"

lemma match_quant_mem: "match_quant quant names = Some n \<Longrightarrow> n \<in> set names"
  by (auto simp: match_quant_def find_Some_iff split: option.splits if_splits)

lemma validate_gguf_found:
  assumes "validate_gguf fs dir quant model_id runtime meta = Some res" "mr_status res = RS_FOUND"
  shows "\<exists>target. artifact_of fs ''gguf'' dir target \<and> mr_path res = resolved_text fs target"
proof -
  obtain first rest where ns: "fs_glob fs dir ''.gguf'' = first # rest"
    using assms by (cases "fs_glob fs dir ''.gguf''") (auto simp: validate_gguf_def not_found_result_def)
  let ?n = "case match_quant quant (first # rest) of Some n \<Rightarrow> n | None \<Rightarrow> first"
  have "mr_path res = resolved_text fs (path_child dir ?n)"
    using assms by (auto simp: validate_gguf_def ns not_found_result_def found_result_def split: option.splits)
  moreover have "?n \<in> set (first # rest)" using match_quant_mem[of quant "first # rest"] by (auto split: option.split)
  ultimately show ?thesis unfolding artifact_of_def ns by auto
qed

lemma validate_directory_found:
  assumes "validate_directory fs dir fmt quant model_id runtime checked = Some (Some res)" "mr_status res = RS_FOUND"
  shows "fs_is_dir fs dir \<and> (\<exists>target. artifact_of fs fmt dir target \<and> mr_path res = resolved_text fs target)"
  using assms validate_gguf_found
  by (auto simp: validate_directory_def validate_mlx_def validate_safetensors_def not_found_result_def found_result_def
      artifact_of_def Let_def split: if_splits)

lemma search_roots_found:
  assumes "search_roots fs fmt publisher repo quant model_id runtime checked rs = Some res" "mr_status res = RS_FOUND"
  shows "\<exists>r base target. r \<in> set rs \<and> fs_resolve fs r = Some base \<and> fs_is_dir fs (model_dir base fmt publisher repo)
     \<and> artifact_of fs fmt (model_dir base fmt publisher repo) target \<and> mr_path res = resolved_text fs target"
  using assms(1)
proof (induction rs arbitrary: checked)
  case Nil
  then show ?case using assms(2) by (auto simp: not_found_result_def)
next
  case (Cons r rs)
  obtain base where base: "fs_resolve fs r = Some base" using Cons.prems by (auto split: option.splits)
  let ?dir = "model_dir base fmt publisher repo"
  obtain v where v: "validate_directory fs ?dir fmt quant model_id runtime (checked @ [path_str ?dir]) = Some v"
    using Cons.prems base by (auto simp: Let_def split: option.splits)
  show ?case
  proof (cases v)
    case None
    then have "search_roots fs fmt publisher repo quant model_id runtime (checked @ [path_str ?dir]) rs = Some res"
      using Cons.prems base v by (simp add: Let_def)
    from Cons.IH[OF this] show ?thesis by (metis list.set_intros(2))
  next
    case (Some res')
    then have "res' = res" using Cons.prems base v by (simp add: Let_def)
    then show ?thesis using validate_directory_found[of fs ?dir] v Some base assms(2) by auto
  qed
qed

text \<open>The first root that has a directory for the model decides; later ones are not looked at.\<close>

lemma search_roots_first:
  assumes "list_all (\<lambda>r. fs_resolve fs r = Some (f r)) rs" "fmt \<in> set SUPPORTED_FORMATS"
  shows "search_roots fs fmt publisher repo quant model_id runtime checked rs =
     (case find (\<lambda>r. fs_is_dir fs (model_dir (f r) fmt publisher repo)) rs of
        None \<Rightarrow> Some (not_found_result RS_MISSING model_id (Some fmt) (Some runtime) REASON_NOT_FOUND
                  [(''checked_paths'', PList (map PStr (checked @ map (\<lambda>r. path_str (model_dir (f r) fmt publisher repo)) rs)))])
      | Some r \<Rightarrow>
          map_option the (validate_directory fs (model_dir (f r) fmt publisher repo) fmt quant model_id runtime
             (checked @ map (\<lambda>r. path_str (model_dir (f r) fmt publisher repo))
                (takeWhile (\<lambda>r. \<not> fs_is_dir fs (model_dir (f r) fmt publisher repo)) rs)
              @ [path_str (model_dir (f r) fmt publisher repo)])))"
  using assms
  by (induction rs arbitrary: checked)
    (auto simp: validate_directory_def Let_def SUPPORTED_FORMATS_def split: option.splits)

section \<open>Routes\<close>

lemma map_raising_Some: "map_raising f xs = Some ys \<Longrightarrow> list_all2 (\<lambda>x y. f x = Some y) xs ys"
  by (induction xs arbitrary: ys) (auto split: option.splits)

lemma map_raising_mem: "map_raising f xs = Some ys \<Longrightarrow> y \<in> set ys \<Longrightarrow> \<exists>x\<in>set xs. f x = Some y"
  by (induction xs arbitrary: ys) (auto split: option.splits)

lemma map_raising_image: "map_raising f xs = Some ys \<Longrightarrow> x \<in> set xs \<Longrightarrow> \<exists>y\<in>set ys. f x = Some y"
  by (induction xs arbitrary: ys) (auto split: option.splits)

definition usable_route :: "file_system \<Rightarrow> ExternalWeightRoute \<Rightarrow> path \<Rightarrow> bool" where
  "usable_route fs r p \<longleftrightarrow> wr_enabled r \<and> fs_resolve fs (wr_path r) = Some p \<and> fs_exists fs p \<and> fs_is_dir fs p"

lemma validate_route_usable:
  "validate_route_status fs r = Some s \<Longrightarrow> ws_available s \<Longrightarrow> usable_route fs r (ws_path s)"
  by (auto simp: validate_route_status_def usable_route_def Let_def split: if_splits)

lemma usable_route_status:
  assumes "usable_route fs r p" "validate_route_status fs r = Some s"
  shows "ws_available s \<and> ws_path s = p"
  using assms by (auto simp: validate_route_status_def usable_route_def Let_def)

lemma available_paths:
  assumes "get_available_route_paths fs routes = Some paths"
  shows "set paths = {p. \<exists>r\<in>set routes. usable_route fs r p}"
proof -
  obtain ss where ss: "map_raising (validate_route_status fs) (filter wr_enabled routes) = Some ss"
    and paths: "set paths = ws_path ` {s \<in> set ss. ws_available s}"
    using assms by (auto simp: get_available_route_paths_def)
  show ?thesis
  proof (intro equalityI subsetI)
    fix p assume "p \<in> set paths"
    then show "p \<in> {p. \<exists>r\<in>set routes. usable_route fs r p}"
      using map_raising_mem[OF ss] validate_route_usable unfolding paths by fastforce
  next
    fix p assume "p \<in> {p. \<exists>r\<in>set routes. usable_route fs r p}"
    then obtain r where r: "r \<in> set routes" "usable_route fs r p" by auto
    then have "r \<in> set (filter wr_enabled routes)" by (simp add: usable_route_def)
    from map_raising_image[OF ss this] obtain s where "s \<in> set ss" "validate_route_status fs r = Some s" by auto
    with usable_route_status[OF r(2)] show "p \<in> set paths" unfolding paths by blast
  qed
qed

section \<open>The inventory\<close>

lemma fold_raising_inv:
  assumes "\<And>x s s'. x \<in> set xs \<Longrightarrow> I s \<Longrightarrow> f x s = Some s' \<Longrightarrow> I s'" "I s" "fold_raising f xs s = Some s'"
  shows "I s'"
  using assms by (induction xs arbitrary: s) (auto split: option.splits)

text \<open>
  Every entry stands for an artifact in a visible model directory of a scanned root, and its fields
  follow from where it lies.
\<close>

definition entry_at :: "file_system \<Rightarrow> path list \<Rightarrow> ExternalModelInventoryEntry \<Rightarrow> bool" where
  "entry_at fs paths e \<longleftrightarrow>
     (\<exists>base fmt publisher repo target publishers repos.
        base \<in> set paths \<and> fmt \<in> set SUPPORTED_FORMATS
      \<and> visible_dirs fs (path_child base fmt) = Some publishers \<and> publisher \<in> set publishers
      \<and> visible_dirs fs (path_child (path_child base fmt) publisher) = Some repos \<and> repo \<in> set repos
      \<and> artifact_of fs fmt (model_dir base fmt publisher repo) target
      \<and> resolved_text fs target = Some (xe_path e)
      \<and> xe_model_id e = publisher @ ''/'' @ repo \<and> xe_format e = fmt
      \<and> xe_runtime e = dget RUNTIME_MAP fmt \<and> (xe_servable e \<longleftrightarrow> fmt \<noteq> ''safetensors''))"

definition scan_ok :: "(ExternalModelInventoryEntry \<Rightarrow> bool) \<Rightarrow> scan_state \<Rightarrow> bool" where
  "scan_ok P st \<longleftrightarrow> snd st = map xe_id (fst st) \<and> distinct (snd st) \<and> (\<forall>e\<in>set (fst st). P e)"

lemma add_entry_ok: "scan_ok P st \<Longrightarrow> P e \<Longrightarrow> scan_ok P (add_entry e st)"
  by (auto simp: scan_ok_def add_entry_def split: prod.splits)

lemma scan_gguf_files_ok:
  assumes "scan_gguf_files fs known model_id dir route_id ns st = Some st'" "scan_ok P st"
    and "\<And>n file. n \<in> set ns \<Longrightarrow> resolved_text fs (path_child dir n) = Some file \<Longrightarrow>
           P (external_entry (gguf_public_id known model_id n) model_id route_id ''gguf'' ''llama_cpp'' file True
                 [(''matched_file'', PStr n), (''quant'', opt_str (extract_quant known (path_stem n)))])"
  shows "scan_ok P st'"
  using assms
proof (induction ns arbitrary: st)
  case (Cons n ns)
  show ?case
  proof (cases "startswith n ''.'' \<or> gguf_public_id known model_id n \<in> set (snd st)")
    case True
    then show ?thesis using Cons by (auto split: if_splits)
  next
    case False
    then obtain loc where resolved: "resolved_text fs (path_child dir n) = Some loc"
      using Cons.prems(1) by (auto split: option.splits)
    have "scan_gguf_files fs known model_id dir route_id ns
       (add_entry (external_entry (gguf_public_id known model_id n) model_id route_id ''gguf'' ''llama_cpp'' loc True
                 [(''matched_file'', PStr n), (''quant'', opt_str (extract_quant known (path_stem n)))]) st) = Some st'"
      using Cons.prems(1) False resolved by simp
    from Cons.IH[OF this] show ?thesis
      using add_entry_ok[OF Cons.prems(2)] Cons.prems(3)[OF _ resolved] Cons.prems(3) by simp
  qed
qed simp

lemma scan_repo_ok:
  assumes "scan_repo fs known fmt route_id (model_dir base fmt publisher repo) (publisher @ ''/'' @ repo) st = Some st'"
    and "scan_ok (entry_at fs paths) st" "base \<in> set paths" "fmt \<in> set SUPPORTED_FORMATS"
    and "visible_dirs fs (path_child base fmt) = Some publishers" "publisher \<in> set publishers"
    and "visible_dirs fs (path_child (path_child base fmt) publisher) = Some repos" "repo \<in> set repos"
  shows "scan_ok (entry_at fs paths) st'"
proof -
  have at_place: "entry_at fs paths e"
    if "artifact_of fs fmt (model_dir base fmt publisher repo) target" "resolved_text fs target = Some (xe_path e)"
      "xe_model_id e = publisher @ ''/'' @ repo" "xe_format e = fmt" "xe_runtime e = dget RUNTIME_MAP fmt"
      "xe_servable e \<longleftrightarrow> fmt \<noteq> ''safetensors''" for e target
    unfolding entry_at_def using that assms(3-8) by blast
  show ?thesis
  proof (cases "fmt = ''gguf''")
    case True
    then have "scan_gguf_files fs known (publisher @ ''/'' @ repo) (model_dir base fmt publisher repo) route_id
        (fs_glob fs (model_dir base fmt publisher repo) ''.gguf'') st = Some st'"
      using assms(1) by (simp add: scan_repo_def scan_gguf_dir_def)
    then show ?thesis
      by (rule scan_gguf_files_ok[OF _ assms(2)])
        (rule at_place, auto simp: True artifact_of_def external_entry_def RUNTIME_MAP_def)
  next
    case False
    then obtain e where e: "st' = (case e of None \<Rightarrow> st | Some e \<Rightarrow> add_entry e st)"
      "(if fmt = ''mlx'' then build_mlx_entry fs (publisher @ ''/'' @ repo) (model_dir base fmt publisher repo) route_id
        else build_safetensors_entry fs (publisher @ ''/'' @ repo) (model_dir base fmt publisher repo) route_id) = Some e"
      using assms(1) by (auto simp: scan_repo_def simp del: append_Cons append_Nil)
    have "entry_at fs paths x" if "e = Some x" for x
      using e(2) that assms(4) False
      by (intro at_place[of "model_dir base fmt publisher repo"])
        (auto simp: build_mlx_entry_def build_safetensors_entry_def artifact_of_def external_entry_def RUNTIME_MAP_def
          SUPPORTED_FORMATS_def split: if_splits)
    then show ?thesis using e(1) add_entry_ok[OF assms(2)] assms(2) by (auto split: option.splits)
  qed
qed

lemma scan_publisher_ok:
  assumes "scan_publisher fs known fmt route_id (path_child base fmt) publisher st = Some st'"
    and "scan_ok (entry_at fs paths) st" "base \<in> set paths" "fmt \<in> set SUPPORTED_FORMATS"
    and "visible_dirs fs (path_child base fmt) = Some publishers" "publisher \<in> set publishers"
  shows "scan_ok (entry_at fs paths) st'"
proof -
  obtain repos where repos: "visible_dirs fs (path_child (path_child base fmt) publisher) = Some repos"
    and run: "fold_raising (\<lambda>repo st. scan_repo fs known fmt route_id (model_dir base fmt publisher repo)
                                        (publisher @ ''/'' @ repo) st) repos st = Some st'"
    using assms(1) by (auto simp: scan_publisher_def model_dir_def split: option.splits)
  show ?thesis by (rule fold_raising_inv[where I = "scan_ok (entry_at fs paths)", OF _ assms(2) run]) (rule scan_repo_ok[OF _ _ assms(3-6) repos])
qed

lemma scan_format_ok:
  assumes "scan_format fs known base route_id fmt st = Some st'"
    and "scan_ok (entry_at fs paths) st" "base \<in> set paths" "fmt \<in> set SUPPORTED_FORMATS"
  shows "scan_ok (entry_at fs paths) st'"
proof (cases "fs_is_dir fs (path_child base fmt)")
  case True
  then obtain publishers where p: "visible_dirs fs (path_child base fmt) = Some publishers"
    and run: "fold_raising (scan_publisher fs known fmt route_id (path_child base fmt)) publishers st = Some st'"
    using assms(1) by (auto simp: scan_format_def split: option.splits)
  show ?thesis by (rule fold_raising_inv[where I = "scan_ok (entry_at fs paths)", OF _ assms(2) run]) (rule scan_publisher_ok[OF _ _ assms(3,4) p])
qed (use assms in \<open>simp add: scan_format_def\<close>)

lemma scan_route_ok:
  assumes "scan_route fs known base route_id st = Some st'" "scan_ok (entry_at fs paths) st" "base \<in> set paths"
  shows "scan_ok (entry_at fs paths) st'"
  by (rule fold_raising_inv[where I = "scan_ok (entry_at fs paths)", OF _ assms(2) assms(1)[unfolded scan_route_def]])
    (rule scan_format_ok[OF _ _ assms(3)], auto simp: SUPPORTED_FORMATS_def)

text \<open>The public ids a directory tree offers, read off without the scan's bookkeeping.\<close>

definition repo_ids :: "file_system \<Rightarrow> string list \<Rightarrow> string \<Rightarrow> path \<Rightarrow> string \<Rightarrow> string list" where
  "repo_ids fs known fmt dir model_id =
     (if fmt = ''gguf'' then
        map (gguf_public_id known model_id) (filter (\<lambda>n. \<not> startswith n ''.'') (fs_glob fs dir ''.gguf''))
      else if fmt = ''mlx'' \<and> fs_is_file fs (path_child dir ''config.json'') \<or> fmt \<noteq> ''mlx'' \<and> has_safetensors_layout fs dir
      then [model_id] else [])"

definition dirs_of :: "file_system \<Rightarrow> path \<Rightarrow> string list" where
  "dirs_of fs dir = (case visible_dirs fs dir of None \<Rightarrow> [] | Some ds \<Rightarrow> ds)"

definition disk_ids :: "file_system \<Rightarrow> string list \<Rightarrow> path \<Rightarrow> string set" where
  "disk_ids fs known base =
     (\<Union>fmt\<in>{f \<in> set SUPPORTED_FORMATS. fs_is_dir fs (path_child base f)}.
        \<Union>publisher\<in>set (dirs_of fs (path_child base fmt)).
          \<Union>repo\<in>set (dirs_of fs (path_child (path_child base fmt) publisher)).
            set (repo_ids fs known fmt (model_dir base fmt publisher repo) (publisher @ ''/'' @ repo)))"

lemma fold_raising_ids:
  assumes "\<And>x s s'. f x s = Some s' \<Longrightarrow> set (snd s') = set (snd s) \<union> A x" "fold_raising f xs s = Some s'"
  shows "set (snd s') = set (snd s) \<union> (\<Union>x\<in>set xs. A x)"
  using assms(2)
proof (induction xs arbitrary: s)
  case (Cons x xs)
  then obtain t where "f x s = Some t" "fold_raising f xs t = Some s'" by (auto split: option.splits)
  then show ?case using Cons.IH assms(1) by auto
qed simp

lemma add_entry_ids: "set (snd (add_entry e st)) = insert (xe_id e) (set (snd st))"
  by (auto simp: add_entry_def split: prod.splits)

lemma scan_gguf_ids:
  "scan_gguf_files fs known model_id dir route_id ns st = Some st' \<Longrightarrow>
   set (snd st') = set (snd st) \<union> gguf_public_id known model_id ` {n \<in> set ns. \<not> startswith n ''.''}"
proof (induction ns arbitrary: st)
  case (Cons n ns)
  show ?case
  proof (cases "startswith n ''.'' \<or> gguf_public_id known model_id n \<in> set (snd st)")
    case True
    then show ?thesis using Cons.IH[of st] Cons.prems by (auto split: if_splits)
  next
    case False
    then obtain loc where "scan_gguf_files fs known model_id dir route_id ns
       (add_entry (external_entry (gguf_public_id known model_id n) model_id route_id ''gguf'' ''llama_cpp'' loc True
                 [(''matched_file'', PStr n), (''quant'', opt_str (extract_quant known (path_stem n)))]) st) = Some st'"
      using Cons.prems by (auto split: option.splits)
    from Cons.IH[OF this] show ?thesis using False by (auto simp: add_entry_ids external_entry_def)
  qed
qed simp

lemma scan_repo_ids:
  assumes "scan_repo fs known fmt route_id dir model_id st = Some st'"
  shows "set (snd st') = set (snd st) \<union> set (repo_ids fs known fmt dir model_id)"
proof (cases "fmt = ''gguf''")
  case True
  then show ?thesis using assms scan_gguf_ids by (auto simp: scan_repo_def scan_gguf_dir_def repo_ids_def)
next
  case False
  then show ?thesis using assms
    by (auto simp: scan_repo_def build_mlx_entry_def build_safetensors_entry_def external_entry_def repo_ids_def add_entry_ids
        split: if_splits)
qed

lemma scan_publisher_ids:
  assumes "scan_publisher fs known fmt route_id (path_child base fmt) publisher st = Some st'"
  shows "set (snd st') = set (snd st) \<union> (\<Union>repo\<in>set (dirs_of fs (path_child (path_child base fmt) publisher)).
            set (repo_ids fs known fmt (model_dir base fmt publisher repo) (publisher @ ''/'' @ repo)))"
proof -
  obtain repos where repos: "visible_dirs fs (path_child (path_child base fmt) publisher) = Some repos"
    and run: "fold_raising (\<lambda>repo st. scan_repo fs known fmt route_id (model_dir base fmt publisher repo)
                                        (publisher @ ''/'' @ repo) st) repos st = Some st'"
    using assms by (auto simp: scan_publisher_def model_dir_def split: option.splits)
  show ?thesis using fold_raising_ids[OF scan_repo_ids run] by (simp add: dirs_of_def repos)
qed

lemma scan_format_ids:
  assumes "scan_format fs known base route_id fmt st = Some st'"
  shows "set (snd st') = set (snd st) \<union> (if fs_is_dir fs (path_child base fmt) then
     \<Union>publisher\<in>set (dirs_of fs (path_child base fmt)). \<Union>repo\<in>set (dirs_of fs (path_child (path_child base fmt) publisher)).
            set (repo_ids fs known fmt (model_dir base fmt publisher repo) (publisher @ ''/'' @ repo)) else {})"
proof (cases "fs_is_dir fs (path_child base fmt)")
  case True
  then obtain ps where ps: "visible_dirs fs (path_child base fmt) = Some ps"
    and run: "fold_raising (scan_publisher fs known fmt route_id (path_child base fmt)) ps st = Some st'"
    using assms by (auto simp: scan_format_def split: option.splits)
  show ?thesis using fold_raising_ids[OF scan_publisher_ids run] True by (simp add: dirs_of_def ps)
qed (use assms in \<open>simp add: scan_format_def\<close>)

lemma scan_route_ids:
  assumes "scan_route fs known base route_id st = Some st'"
  shows "set (snd st') = set (snd st) \<union> disk_ids fs known base"
proof -
  have guard: "(\<Union>x\<in>S. if P x then A x else {}) = (\<Union>x\<in>{x \<in> S. P x}. A x)" for S :: "string set" and P and A :: "string \<Rightarrow> string set"
    by auto
  show ?thesis
    using fold_raising_ids[OF scan_format_ids assms[unfolded scan_route_def]] unfolding guard disk_ids_def SUPPORTED_FORMATS_def .
qed

lemma inventory_run:
  assumes "list_external_model_inventory fs known routes = Some es"
  shows "\<exists>paths. get_available_route_paths fs routes = Some paths \<and> distinct (map xe_id es)
     \<and> (\<forall>e\<in>set es. entry_at fs paths e) \<and> set (map xe_id es) = (\<Union>p\<in>set paths. disk_ids fs known p)"
proof -
  obtain paths ids st where paths: "get_available_route_paths fs routes = Some paths" and es: "es = fst st"
    and run: "fold_raising (\<lambda>base st. case resolved_text fs base of None \<Rightarrow> None
               | Some t \<Rightarrow> scan_route fs known base (case dget ids t of Some i \<Rightarrow> i | None \<Rightarrow> ''unknown'') st)
              paths ([], []) = Some st"
    using assms by (auto simp: list_external_model_inventory_def split: option.splits)
  have "scan_ok (entry_at fs paths) st"
  proof (rule fold_raising_inv[where I = "scan_ok (entry_at fs paths)", OF _ _ run])
    show "scan_ok (entry_at fs paths) ([], [])" by (simp add: scan_ok_def)
  qed (auto intro: scan_route_ok split: option.splits)
  moreover have "set (snd st) = set (snd ([] :: ExternalModelInventoryEntry list, [] :: string list)) \<union> (\<Union>p\<in>set paths. disk_ids fs known p)"
    by (rule fold_raising_ids[OF _ run]) (auto split: option.splits dest: scan_route_ids)
  ultimately show ?thesis using paths es by (auto simp: scan_ok_def)
qed

section \<open>Properties of the external inventory\<close>

text \<open>C24. The inventory is exact: when the scan ends without an exception it lists each public id once,
  the ids are precisely those that the visible model directories under the usable routes offer, and
  every entry stands for an artifact that lies in such a directory, is served by the runtime the
  resolver assigns to its format, and is marked servable exactly for the formats with a runtime.\<close>

theorem external_inventory_exact:
  "case list_external_model_inventory fs known routes of
     None \<Rightarrow> True
   | Some es \<Rightarrow>
       distinct (map xe_id es)
     \<and> set (map xe_id es) = {i. \<exists>r\<in>set routes. \<exists>p. usable_route fs r p \<and> i \<in> disk_ids fs known p}
     \<and> list_all (\<lambda>e. \<exists>r\<in>set routes. \<exists>p. usable_route fs r p \<and> entry_at fs [p] e) es"
proof (cases "list_external_model_inventory fs known routes")
  case (Some es)
  obtain paths where paths: "get_available_route_paths fs routes = Some paths" and d: "distinct (map xe_id es)"
    and all: "\<forall>e\<in>set es. entry_at fs paths e" and ids: "set (map xe_id es) = (\<Union>p\<in>set paths. disk_ids fs known p)"
    using inventory_run[OF Some] by blast
  have "\<exists>p. p \<in> set paths \<and> entry_at fs [p] e" if "e \<in> set es" for e
    using all that unfolding entry_at_def list.set by (metis singletonI)
  then have "list_all (\<lambda>e. \<exists>r\<in>set routes. \<exists>p. usable_route fs r p \<and> entry_at fs [p] e) es"
    using available_paths[OF paths] by (fastforce simp: list_all_iff)
  moreover have "set (map xe_id es) = {i. \<exists>r\<in>set routes. \<exists>p. usable_route fs r p \<and> i \<in> disk_ids fs known p}"
    unfolding ids using available_paths[OF paths] by auto
  ultimately show ?thesis using Some d by simp
qed simp

lemma visible_proper: "visible_dirs fs dir = Some ds \<Longrightarrow> d \<in> set ds \<Longrightarrow> fs_laws fs \<Longrightarrow> proper_name d"
  by (cases "fs_iterdir fs dir") (auto simp: visible_dirs_def fs_laws_def list_all_iff)

lemma explicit_formats:
  "fmt \<in> set SUPPORTED_FORMATS \<Longrightarrow> resolve_format (Some fmt) m = Some fmt"
  by (auto simp: SUPPORTED_FORMATS_def resolve_format_def py_strip_def py_lstrip_def py_rstrip_chars_def py_is_space_def
      py_lower_def char_lower_def is_upper_def)

lemma servable_resolution:
  assumes "fs_laws fs" "resolve_external_runtime_model fs known m routes = Some x" "xr_found x" "xr_servable x"
  shows "\<exists>r base fmt publisher repo target. r \<in> set routes \<and> usable_route fs r base \<and> fmt \<in> {''gguf'', ''mlx''}
     \<and> proper_name publisher \<and> proper_name repo \<and> fs_is_dir fs (base @ [fmt, publisher, repo])
     \<and> artifact_of fs fmt (base @ [fmt, publisher, repo]) target
     \<and> xr_path x = resolved_text fs target \<and> xr_runtime x = dget RUNTIME_MAP fmt"
proof -
  obtain es where es: "list_external_model_inventory fs known routes = Some es"
    using assms(2) by (auto simp: resolve_external_runtime_model_def Let_def split: option.splits)
  obtain e where e: "find (\<lambda>e. xe_id e = m) es = Some e"
    using assms(2,3) es by (auto simp: resolve_external_runtime_model_def Let_def split: option.splits)
  have srv: "xe_servable e"
    using assms(2,4) es e by (auto simp: resolve_external_runtime_model_def unservable_def Let_def split: if_splits)
  obtain paths where paths: "get_available_route_paths fs routes = Some paths" and at_e: "entry_at fs paths e"
    using inventory_run[OF es] e by (auto simp: find_Some_iff)
  let ?rq = "\<lparr>mq_model_id = (if xe_model_id e = [] then m else xe_model_id e), mq_format = Some (xe_format e),
     mq_quant = (if str_true (pi_quant (parse_external_model_public_id m)) then pi_quant (parse_external_model_public_id m) else None),
     mq_search_paths = paths\<rparr>"
  obtain res where res: "resolve_model fs ?rq = Some res" "mr_status res = RS_FOUND"
    and x: "xr_path x = mr_path res" "xr_runtime x = xe_runtime e"
    using assms(2,4) es e srv paths
    by (auto simp: resolve_external_runtime_model_def unservable_def Let_def split: list.splits if_splits)
  obtain fmt publisher repo where fmt: "fmt \<in> set SUPPORTED_FORMATS" "xe_format e = fmt" "fmt \<noteq> ''safetensors''"
    "xe_runtime e = dget RUNTIME_MAP fmt" "xe_model_id e = publisher @ ''/'' @ repo"
    and names: "proper_name publisher" "proper_name repo"
    using at_e srv visible_proper[OF _ _ assms(1)] unfolding entry_at_def by metis
  have "split_model_id (publisher @ ''/'' @ repo) = Some (publisher, repo)" using names by (rule split_model_id_of)
  with res(1) fmt explicit_formats[OF fmt(1)] obtain quant runtime where
    "search_roots fs fmt publisher repo quant (publisher @ ''/'' @ repo) runtime [] paths = Some res"
    by (auto simp: resolve_model_def Let_def simp del: append_Cons append_Nil)
  from search_roots_found[OF this res(2)] obtain p base target where p: "p \<in> set paths" "fs_resolve fs p = Some base"
    "fs_is_dir fs (model_dir base fmt publisher repo)" "artifact_of fs fmt (model_dir base fmt publisher repo) target"
    "mr_path res = resolved_text fs target" by blast
  from p(1) available_paths[OF paths] obtain r where r: "r \<in> set routes" "usable_route fs r p" by blast
  then have "base = p" using assms(1) p(2) unfolding fs_laws_def usable_route_def by (metis option.inject)
  moreover have "fmt \<in> {''gguf'', ''mlx''}" using fmt(1,3) by (auto simp: SUPPORTED_FORMATS_def)
  moreover from this have "model_dir base fmt publisher repo = base @ [fmt, publisher, repo]"
    using names proper_formats by (auto simp: model_dir_def)
  ultimately show ?thesis using p r names x fmt(4) by metis
qed

text \<open>External paths stay under the configured routes: when the router binds a path for an external
  model, that path is an artifact of a model directory \<open>format/publisher/repo\<close> directly below the root
  of an enabled route that exists, the two names are plain directory names, and the adapter is the
  one registered for the format.\<close>

theorem external_path_confined:
  assumes "fs_laws fs"
    and "resolve_external_model (external_resolutions env loads home fs known) rr m = Inr (Some (a, Some t))"
  shows "\<exists>routes r base fmt publisher repo target.
     load_external_weight_routes env loads home = Some routes \<and> r \<in> set routes \<and> usable_route fs r base
   \<and> fmt \<in> {''gguf'', ''mlx''} \<and> proper_name publisher \<and> proper_name repo
   \<and> artifact_of fs fmt (base @ [fmt, publisher, repo]) target \<and> resolved_text fs target = Some t
   \<and> dget (rr_adapters rr) (RuntimeKind_value (if fmt = ''gguf'' then LLAMA_CPP else MLX_LM_SERVER)) = Some a"
proof -
  obtain routes x where routes: "load_external_weight_routes env loads home = Some routes"
    and x: "resolve_external_runtime_model fs known m routes = Some x" "xr_found x" "xr_servable x" "xr_path x = Some t"
    and a: "\<exists>kind. external_kind (xr_runtime x) = Some kind \<and> dget (rr_adapters rr) kind = Some a"
    using assms(2)
    by (auto simp: resolve_external_model_def external_resolutions_def Let_def split: option.splits if_splits list.splits)
  from servable_resolution[OF assms(1) x(1-3)] obtain r base fmt publisher repo target where
    s: "r \<in> set routes" "usable_route fs r base" "fmt \<in> {''gguf'', ''mlx''}" "proper_name publisher" "proper_name repo"
      "artifact_of fs fmt (base @ [fmt, publisher, repo]) target" "xr_path x = resolved_text fs target"
      "xr_runtime x = dget RUNTIME_MAP fmt" by blast
  have "dget (rr_adapters rr) (RuntimeKind_value (if fmt = ''gguf'' then LLAMA_CPP else MLX_LM_SERVER)) = Some a"
    using a s(3,8) by (auto simp: RUNTIME_MAP_def external_kind_def)
  with routes s x(4) show ?thesis by metis
qed

text \<open>A tree with one model in two quantizations, whose repository name does not mention the format.\<close>

definition demo_tree :: "(path \<times> string list) list" where
  "demo_tree =
     [([''/'', ''w''], [''gguf'']), ([''/'', ''w'', ''gguf''], [''p'']), ([''/'', ''w'', ''gguf'', ''p''], [''r'']),
      ([''/'', ''w'', ''gguf'', ''p'', ''r''], [''a-Q4_K_M.gguf'', ''b-Q8_0.gguf''])]"

definition demo_fs :: file_system where
  "demo_fs = \<lparr>fs_exists = (\<lambda>p. dget demo_tree p \<noteq> None), fs_is_dir = (\<lambda>p. dget demo_tree p \<noteq> None),
     fs_is_file = (\<lambda>p. False), fs_iterdir = dget demo_tree, fs_resolve = Some\<rparr>"

definition demo_external :: "string \<Rightarrow> external_resolution option" where
  "demo_external = external_resolutions [''WHOOSHD_EXTERNAL_ROUTES'' \<mapsto> ''[...]'']
     (\<lambda>_. Some (PList [PDict [(''id'', PStr ''v''), (''path'', PStr ''/w'')]])) Some demo_fs KNOWN_QUANTS"

lemma demo_fs_laws: "fs_laws demo_fs"
proof -
  have "list_all (list_all proper_name \<circ> snd) demo_tree" by (simp add: demo_tree_def proper_name_def)
  then show ?thesis
    by (auto simp: fs_laws_def demo_fs_def list_all_iff dest!: map_of_SomeD split: prod.splits)
qed

text \<open>Asked for one quantization, the resolver hands out the other.\<close>

lemma other_quantization_served:
  "map_option (\<lambda>x. (ext_found x, ext_servable x, ext_runtime x, ext_path x)) (demo_external ''p/r:Q8_0'')
   = Some (True, True, Some ''llama_cpp'', Some ''/w/gguf/p/r/a-Q4_K_M.gguf'')"
  by code_simp

theorem external_path_confined_witness:
  "\<exists>r base fmt publisher repo target.
     usable_route demo_fs r base \<and> fmt \<in> {''gguf'', ''mlx''} \<and> proper_name publisher \<and> proper_name repo
   \<and> artifact_of demo_fs fmt (base @ [fmt, publisher, repo]) target
   \<and> resolved_text demo_fs target = Some ''/w/gguf/p/r/a-Q4_K_M.gguf''"
proof -
  let ?rr = "register_adapter (demo_adapter ''llama_cpp'') new_router"
  obtain x where "demo_external ''p/r:Q8_0'' = Some x" "ext_found x" "ext_servable x" "ext_runtime x = Some ''llama_cpp''"
    "ext_path x = Some ''/w/gguf/p/r/a-Q4_K_M.gguf''"
    using other_quantization_served by auto
  then have "resolve_external_model demo_external ?rr ''p/r:Q8_0''
      = Inr (Some (demo_adapter ''llama_cpp'', Some ''/w/gguf/p/r/a-Q4_K_M.gguf''))"
    by (simp add: resolve_external_model_def external_kind_def register_adapter_def new_router_def demo_adapter_def)
  from external_path_confined[OF demo_fs_laws this[unfolded demo_external_def]] show ?thesis by blast
qed

text \<open>
  A publisher or repository called \<open>..\<close> is not a plain name: asked for such an id directly, the
  resolver looks outside the directory of the format.
\<close>

lemma dotdot_leaves_the_format:
  "split_model_id ''../..'' = Some (''..'', ''..'')" "model_dir base ''mlx'' ''..'' ''..'' = base @ [''mlx'', ''..'', ''..'']"
  by (simp_all add: split_model_id_def model_dir_def path_child_def)

text \<open>A priority that is not a number makes the loader raise although it promises not to.\<close>

lemma bad_priority_raises:
  "load_external_weight_routes [''WHOOSHD_EXTERNAL_ROUTES'' \<mapsto> ''r'']
     (\<lambda>_. Some (PList [PDict [(''id'', PStr ''v''), (''path'', PStr ''/w''), (''priority'', PStr ''high'')]])) Some = None"
  by code_simp

end
