(* ===== verification/Model_Store.thy ===== *)
theory Model_Store
  imports Model_Inventory Json_Text
begin

text \<open>
  The persistent model store: \<open>whooshd/model_registry/contracts.py\<close>, \<open>bootstrap.py\<close>, \<open>candidates.py\<close>,
  \<open>registration.py\<close>, \<open>compatibility.py\<close> and \<open>inventory.py\<close>. A store is a directory with a manifest
  \<open>registry/models.json\<close>; artifacts are inspected, recorded as candidates, copied into the store and
  appended to the manifest, and later checked against the adapters.

  The disk is state: an association list from paths to directories and files with their text. It has
  no links, and nothing in it is ever deleted except the temporary file of a failed atomic write, which
  is not kept. Every operation takes and returns it; a result \<open>None\<close> is an exception that leaves the
  function. What may fail at the operating system's discretion (a copy, an atomic write) takes the
  outcome as an argument. \<open>json.loads\<close> and \<open>json.dumps\<close>, \<open>str\<close> of values that are not strings,
  \<open>expanduser().resolve()\<close> and SHA-256 are the parameters of \<open>store_env\<close>.
\<close>

section \<open>The disk\<close>

datatype node = DIR | FILE string

type_synonym disk = "(path, node) dict"

definition dk_exists :: "disk \<Rightarrow> path \<Rightarrow> bool" where
  "dk_exists d p = (dget d p \<noteq> None)"

definition dk_is_dir :: "disk \<Rightarrow> path \<Rightarrow> bool" where
  "dk_is_dir d p = (dget d p = Some DIR)"

definition dk_is_file :: "disk \<Rightarrow> path \<Rightarrow> bool" where
  "dk_is_file d p = (case dget d p of Some (FILE _) \<Rightarrow> True | _ \<Rightarrow> False)"

definition dk_read :: "disk \<Rightarrow> path \<Rightarrow> string option" where
  "dk_read d p = (case dget d p of Some (FILE t) \<Rightarrow> Some t | _ \<Rightarrow> None)"

definition dk_iterdir :: "disk \<Rightarrow> path \<Rightarrow> string list" where
  "dk_iterdir d p = map last (filter (\<lambda>q. q \<noteq> [] \<and> butlast q = p) (map fst d))"

text \<open>\<open>p.mkdir(parents=True, exist_ok=True)\<close>.\<close>

definition dk_add_dir :: "path \<Rightarrow> disk \<Rightarrow> disk" where
  "dk_add_dir p d = (if dk_exists d p then d else dset p DIR d)"

definition dirs_to :: "path \<Rightarrow> path list" where
  "dirs_to p = map (\<lambda>k. take k p) [1..<Suc (length p)]"

definition dk_mkdir :: "path \<Rightarrow> disk \<Rightarrow> disk option" where
  "dk_mkdir p d =
     (if list_ex (dk_is_file d) (dirs_to p) then None else Some (fold dk_add_dir (dirs_to p) d))"

text \<open>
  The atomic write through \<open>tmp/\<close>: \<open>ok\<close> says whether the operating system lets it succeed; on
  failure the temporary file is removed again and the exception goes on.
\<close>

definition write_atomic :: "bool \<Rightarrow> path \<Rightarrow> path \<Rightarrow> string \<Rightarrow> disk \<Rightarrow> unit option \<times> disk" where
  "write_atomic ok base target payload d =
     (case dk_mkdir (base @ [''tmp'']) d of
        None \<Rightarrow> (None, d)
      | Some d \<Rightarrow>
          if ok \<and> dk_is_dir d (butlast target) \<and> \<not> dk_is_dir d target then (Some (), dset target (FILE payload) d)
          else (None, d))"

record store_env =
  sv_loads :: "string \<Rightarrow> pyval option"
  sv_dumps :: "pyval \<Rightarrow> string"
  sv_str :: "pyval \<Rightarrow> string"
  sv_resolve :: "path \<Rightarrow> path"
  sv_sha :: "string \<Rightarrow> string"

definition py_str :: "store_env \<Rightarrow> pyval \<Rightarrow> string" where
  "py_str E v = (case v of PStr s \<Rightarrow> s | _ \<Rightarrow> sv_str E v)"

text \<open>\<open>list(v)\<close>: \<open>None\<close> is \<open>TypeError\<close>.\<close>

fun py_list :: "pyval \<Rightarrow> pyval list option" where
  "py_list (PList xs) = Some xs"
| "py_list (PStr s) = Some (map (\<lambda>c. PStr [c]) s)"
| "py_list (PDict d) = Some (map (PStr \<circ> fst) d)"
| "py_list _ = None"

definition dget_or :: "(string, pyval) dict \<Rightarrow> string \<Rightarrow> pyval \<Rightarrow> pyval" where
  "dget_or d k v = (case dget d k of None \<Rightarrow> v | Some w \<Rightarrow> w)"

section \<open>Contracts (contracts.py)\<close>

text \<open>\<open>ModelStoreLayout\<close>: the directories of a store, in creation order.\<close>

definition registry_dir :: "path \<Rightarrow> path" where
  "registry_dir base = base @ [''registry'']"

definition manifest_path :: "path \<Rightarrow> path" where
  "manifest_path base = registry_dir base @ [''models.json'']"

definition all_directories :: "path \<Rightarrow> path list" where
  "all_directories base =
     [base @ [''incoming''], base @ [''models'', ''mlx''], base @ [''models'', ''gguf''], base @ [''models'', ''vlm''],
      registry_dir base, base @ [''quarantine''], base @ [''tmp'']]"

record ModelRegistryManifest =
  mm_schema_version :: int
  mm_store_root :: string
  mm_created_at :: string
  mm_updated_at :: string
  mm_models :: "pyval list"

definition manifest_create :: "path \<Rightarrow> string \<Rightarrow> ModelRegistryManifest" where
  "manifest_create base now =
     \<lparr>mm_schema_version = 1, mm_store_root = path_str base, mm_created_at = now, mm_updated_at = now, mm_models = []\<rparr>"

definition manifest_touch :: "string \<Rightarrow> ModelRegistryManifest \<Rightarrow> ModelRegistryManifest" where
  "manifest_touch now m = m\<lparr>mm_updated_at := now\<rparr>"

definition manifest_to_dict :: "ModelRegistryManifest \<Rightarrow> pyval" where
  "manifest_to_dict m =
     PDict [(''schema_version'', PInt (mm_schema_version m)), (''store_root'', PStr (mm_store_root m)),
            (''created_at'', PStr (mm_created_at m)), (''updated_at'', PStr (mm_updated_at m)),
            (''models'', PList (mm_models m))]"

definition manifest_from_dict :: "store_env \<Rightarrow> pyval \<Rightarrow> ModelRegistryManifest option" where
  "manifest_from_dict E data =
     (case data of
        PDict d \<Rightarrow>
          (case (py_int_of (dget_or d ''schema_version'' (PInt 1)), py_list (dget_or d ''models'' (PList []))) of
             (Some v, Some ms) \<Rightarrow>
               Some \<lparr>mm_schema_version = v, mm_store_root = py_str E (dget_or d ''store_root'' (PStr [])),
                     mm_created_at = py_str E (dget_or d ''created_at'' (PStr [])),
                     mm_updated_at = py_str E (dget_or d ''updated_at'' (PStr [])), mm_models = ms\<rparr>
           | _ \<Rightarrow> None)
      | _ \<Rightarrow> None)"

record ModelCandidate =
  mc_candidate_id :: string
  mc_status :: string
  mc_source_path :: string
  mc_detected_format :: string
  mc_detected_family :: string
  mc_modalities :: "pyval list"
  mc_evidence :: "pyval list"
  mc_problems :: "pyval list"
  mc_created_at :: string

definition candidate_to_dict :: "ModelCandidate \<Rightarrow> pyval" where
  "candidate_to_dict c =
     PDict [(''candidate_id'', PStr (mc_candidate_id c)), (''status'', PStr (mc_status c)),
            (''source_path'', PStr (mc_source_path c)), (''detected_format'', PStr (mc_detected_format c)),
            (''detected_family'', PStr (mc_detected_family c)), (''modalities'', PList (mc_modalities c)),
            (''evidence'', PList (mc_evidence c)), (''problems'', PList (mc_problems c)),
            (''created_at'', PStr (mc_created_at c))]"

definition candidate_from_dict :: "store_env \<Rightarrow> pyval \<Rightarrow> ModelCandidate option" where
  "candidate_from_dict E data =
     (case data of
        PDict d \<Rightarrow>
          (case (py_list (dget_or d ''modalities'' (PList [])), py_list (dget_or d ''evidence'' (PList [])),
                 py_list (dget_or d ''problems'' (PList []))) of
             (Some ms, Some es, Some ps) \<Rightarrow>
               Some \<lparr>mc_candidate_id = py_str E (dget_or d ''candidate_id'' (PStr [])),
                     mc_status = py_str E (dget_or d ''status'' (PStr ''candidate'')),
                     mc_source_path = py_str E (dget_or d ''source_path'' (PStr [])),
                     mc_detected_format = py_str E (dget_or d ''detected_format'' (PStr ''unknown'')),
                     mc_detected_family = py_str E (dget_or d ''detected_family'' (PStr ''unknown'')),
                     mc_modalities = ms, mc_evidence = es, mc_problems = ps,
                     mc_created_at = py_str E (dget_or d ''created_at'' (PStr []))\<rparr>
           | _ \<Rightarrow> None)
      | _ \<Rightarrow> None)"

record RegisteredModel =
  rm_model_id :: string
  rm_display_name :: string
  rm_status :: string
  rm_storage_mode :: string
  rm_managed_path :: string
  rm_source_candidate_id :: string
  rm_source_path :: string
  rm_detected_format :: string
  rm_detected_family :: string
  rm_modalities :: "pyval list"
  rm_evidence :: "pyval list"
  rm_created_at :: string
  rm_updated_at :: string

text \<open>\<open>RegisteredModel(model_id=...)\<close> with the defaults of the class.\<close>

definition default_model :: "string \<Rightarrow> RegisteredModel" where
  "default_model model_id =
     \<lparr>rm_model_id = model_id, rm_display_name = [], rm_status = ''registered'', rm_storage_mode = ''managed'',
      rm_managed_path = [], rm_source_candidate_id = [], rm_source_path = [], rm_detected_format = ''unknown'',
      rm_detected_family = ''unknown'', rm_modalities = [], rm_evidence = [], rm_created_at = [], rm_updated_at = []\<rparr>"

definition registered_to_dict :: "RegisteredModel \<Rightarrow> pyval" where
  "registered_to_dict m =
     PDict [(''model_id'', PStr (rm_model_id m)), (''display_name'', PStr (rm_display_name m)),
            (''status'', PStr (rm_status m)), (''storage_mode'', PStr (rm_storage_mode m)),
            (''managed_path'', PStr (rm_managed_path m)), (''source_candidate_id'', PStr (rm_source_candidate_id m)),
            (''source_path'', PStr (rm_source_path m)), (''detected_format'', PStr (rm_detected_format m)),
            (''detected_family'', PStr (rm_detected_family m)), (''modalities'', PList (rm_modalities m)),
            (''evidence'', PList (rm_evidence m)), (''created_at'', PStr (rm_created_at m)),
            (''updated_at'', PStr (rm_updated_at m))]"

definition registered_from_dict :: "store_env \<Rightarrow> pyval \<Rightarrow> RegisteredModel option" where
  "registered_from_dict E data =
     (case data of
        PDict d \<Rightarrow>
          (case (py_list (dget_or d ''modalities'' (PList [])), py_list (dget_or d ''evidence'' (PList []))) of
             (Some ms, Some es) \<Rightarrow>
               Some \<lparr>rm_model_id = py_str E (dget_or d ''model_id'' (PStr [])),
                     rm_display_name = py_str E (dget_or d ''display_name'' (PStr [])),
                     rm_status = py_str E (dget_or d ''status'' (PStr ''registered'')),
                     rm_storage_mode = py_str E (dget_or d ''storage_mode'' (PStr ''managed'')),
                     rm_managed_path = py_str E (dget_or d ''managed_path'' (PStr [])),
                     rm_source_candidate_id = py_str E (dget_or d ''source_candidate_id'' (PStr [])),
                     rm_source_path = py_str E (dget_or d ''source_path'' (PStr [])),
                     rm_detected_format = py_str E (dget_or d ''detected_format'' (PStr ''unknown'')),
                     rm_detected_family = py_str E (dget_or d ''detected_family'' (PStr ''unknown'')),
                     rm_modalities = ms, rm_evidence = es,
                     rm_created_at = py_str E (dget_or d ''created_at'' (PStr [])),
                     rm_updated_at = py_str E (dget_or d ''updated_at'' (PStr []))\<rparr>
           | _ \<Rightarrow> None)
      | _ \<Rightarrow> None)"

section \<open>Bootstrap (bootstrap.py)\<close>

datatype bootstrap_error = MANIFEST_UNREADABLE | SCHEMA_UNSUPPORTED int

record ModelRegistryState =
  gs_store_root :: string
  gs_manifest_path :: string
  gs_manifest_created :: bool
  gs_manifest_reused :: bool
  gs_directories_created :: "string list"
  gs_schema_version :: int
  gs_error :: "bootstrap_error option"

text \<open>The directories that do not exist yet are made, and reported, in order.\<close>

fun make_directories :: "path list \<Rightarrow> disk \<Rightarrow> string list \<Rightarrow> string list option \<times> disk" where
  "make_directories [] d made = (Some made, d)"
| "make_directories (p # ps) d made =
     (if dk_exists d p then make_directories ps d made
      else case dk_mkdir p d of None \<Rightarrow> (None, d) | Some d \<Rightarrow> make_directories ps d (made @ [path_str p]))"

definition write_manifest :: "store_env \<Rightarrow> bool \<Rightarrow> path \<Rightarrow> ModelRegistryManifest \<Rightarrow> disk \<Rightarrow> unit option \<times> disk" where
  "write_manifest E ok base m d = write_atomic ok base (manifest_path base) (sv_dumps E (manifest_to_dict m)) d"

text \<open>
  \<open>bootstrap_model_store\<close>. \<open>None\<close> is an exception: \<open>ValueError\<close> for an empty root or \<open>/\<close>, or one of
  the operating system.
\<close>

definition bootstrap_model_store ::
  "store_env \<Rightarrow> string \<Rightarrow> bool \<Rightarrow> string \<Rightarrow> disk \<Rightarrow> ModelRegistryState option \<times> disk" where
  "bootstrap_model_store E now ok store_root d =
     (let raw = py_strip store_root; base = sv_resolve E (path_of raw) in
      if raw = [] \<or> base = [''/''] then (None, d)
      else
        case make_directories (all_directories base) d [] of
          (None, d) \<Rightarrow> (None, d)
        | (Some made, d) \<Rightarrow>
            let state = \<lparr>gs_store_root = path_str base, gs_manifest_path = path_str (manifest_path base),
                         gs_manifest_created = False, gs_manifest_reused = False, gs_directories_created = made,
                         gs_schema_version = 1, gs_error = None\<rparr> in
            if dk_exists d (manifest_path base) then
              (case Option.bind (dk_read d (manifest_path base)) (sv_loads E) of
                 None \<Rightarrow> (Some (state\<lparr>gs_error := Some MANIFEST_UNREADABLE\<rparr>), d)
               | Some data \<Rightarrow>
                   (case manifest_from_dict E data of
                      None \<Rightarrow> (None, d)
                    | Some m \<Rightarrow>
                        if mm_schema_version m \<noteq> 1
                        then (Some (state\<lparr>gs_error := Some (SCHEMA_UNSUPPORTED (mm_schema_version m))\<rparr>), d)
                        else
                          case write_manifest E ok base (manifest_touch now m) d of
                            (None, d) \<Rightarrow> (None, d)
                          | (Some _, d) \<Rightarrow> (Some (state\<lparr>gs_manifest_reused := True\<rparr>), d)))
            else
              case write_manifest E ok base (manifest_create base now) d of
                (None, d) \<Rightarrow> (None, d)
              | (Some _, d) \<Rightarrow> (Some (state\<lparr>gs_manifest_created := True\<rparr>), d))"

section \<open>Candidate inspection (candidates.py)\<close>

definition make_candidate_id :: "store_env \<Rightarrow> string \<Rightarrow> string list \<Rightarrow> string" where
  "make_candidate_id E source evidence = take 16 (sv_sha E (source @ ''||'' @ py_join ''|'' (sort evidence)))"

definition safe_filename :: "string \<Rightarrow> string" where
  "safe_filename name = take 64 (filter (\<lambda>c. py_isalnum c \<or> c \<in> set ''_-.'') name)"

definition path_name :: "path \<Rightarrow> string" where
  "path_name p = (case rev p of [] \<Rightarrow> [] | n # _ \<Rightarrow> if n = ''/'' \<or> n = ''//'' then [] else n)"

text \<open>\<open>p.suffix == ext\<close> for an extension \<open>ext\<close> with its dot.\<close>

definition has_suffix :: "string \<Rightarrow> string \<Rightarrow> bool" where
  "has_suffix name ext = (path_stem name @ ext = name \<and> path_stem name \<noteq> name)"

definition family_in :: "string list \<Rightarrow> string" where
  "family_in names =
     (case find (\<lambda>f. list_ex (\<lambda>n. py_contains n f) names) [''gemma'', ''qwen'', ''llama''] of
        Some f \<Rightarrow> f | None \<Rightarrow> ''unknown'')"

definition detect_family :: "path \<Rightarrow> string" where
  "detect_family p =
     family_in [py_lower (path_name p), py_lower (path_name (path_of (py_rstrip_chars (\<lambda>c. c = CHR ''/'') (path_str p))))]"

text \<open>The first architecture that names a family; \<open>None\<close> when the value cannot be iterated.\<close>

fun family_of_architectures :: "store_env \<Rightarrow> pyval list \<Rightarrow> string" where
  "family_of_architectures E [] = ''unknown''"
| "family_of_architectures E (a # rest) =
     (let f = family_in [py_lower (py_str E a)] in if f = ''unknown'' then family_of_architectures E rest else f)"

definition detect_family_from_config :: "store_env \<Rightarrow> (string, pyval) dict \<Rightarrow> string option" where
  "detect_family_from_config E config =
     (let family = family_in [py_lower (py_str E (dget_or config ''model_type'' (PStr [])))] in
      if family \<noteq> ''unknown'' then Some family
      else map_option (family_of_architectures E) (py_list (dget_or config ''architectures'' (PList []))))"

definition VLM_MODEL_TYPES :: "string list" where
  "VLM_MODEL_TYPES = [''qwen2_vl'', ''qwen2-vl'', ''llava'', ''paligemma'']"

definition VLM_ARCHITECTURES :: "string list" where
  "VLM_ARCHITECTURES =
     [''qwen2vlforconditionalgeneration'', ''qwen2vl'', ''llavaforconditionalgeneration'',
      ''paligemmaforconditionalgeneration'']"

definition VLM_ARTIFACT_NAMES :: "string list" where
  "VLM_ARTIFACT_NAMES = [''mm_projector'', ''vision_tower'', ''image_newline'']"

definition EXPLICIT_VISION_EVIDENCE :: "string list" where
  "EXPLICIT_VISION_EVIDENCE =
     [''found_vision_config'', ''model_type_qwen2_vl'', ''model_type_qwen2-vl'', ''model_type_llava'', ''model_type_paligemma'',
      ''architecture_qwen2vlforconditionalgeneration'', ''architecture_qwen2vl'',
      ''architecture_llavaforconditionalgeneration'', ''architecture_paligemmaforconditionalgeneration'',
      ''found_mm_projector'', ''found_vision_tower'', ''found_image_newline'']"

definition has_explicit_vision_evidence :: "string list \<Rightarrow> bool" where
  "has_explicit_vision_evidence evidence = list_ex (\<lambda>ev. ev \<in> set EXPLICIT_VISION_EVIDENCE) evidence"

definition normalize_modalities :: "string list \<Rightarrow> string list \<Rightarrow> string list" where
  "normalize_modalities modalities evidence =
     (let has_vision = ''vision'' \<in> set modalities; has_text = ''text'' \<in> set modalities in
      if has_vision \<and> \<not> has_explicit_vision_evidence evidence then (if has_text then [''text''] else [])
      else if has_vision then (if has_text then [''text'', ''vision''] else [''vision''])
      else if has_text then [''text''] else [])"

definition nonempty_dict :: "pyval \<Rightarrow> bool" where
  "nonempty_dict v = (case v of PDict d \<Rightarrow> d \<noteq> [] | _ \<Rightarrow> False)"

text \<open>\<open>s.replace("-", "_")\<close>.\<close>

definition dashes_to_underscores :: "string \<Rightarrow> string" where
  "dashes_to_underscores s = map (\<lambda>c. if c = CHR ''-'' then CHR ''_'' else c) s"

text \<open>What the architectures say of vision: the evidence they add, if any does.\<close>

fun vision_architecture :: "store_env \<Rightarrow> bool \<Rightarrow> pyval list \<Rightarrow> string list option" where
  "vision_architecture E vision_config [] = None"
| "vision_architecture E vision_config (a # rest) =
     (let arch = py_lower (py_str E a) in
      if arch \<in> set VLM_ARCHITECTURES then Some [''architecture_'' @ arch]
      else if py_contains arch ''forconditionalgeneration'' \<and> vision_config
      then Some [''found_vision_config'', ''architecture_'' @ arch]
      else vision_architecture E vision_config rest)"

text \<open>
  \<open>_detect_modalities\<close>: the modalities and the evidence after it. \<open>artifacts\<close> is the order in which
  the set of artifact names is walked.
\<close>

definition detect_modalities ::
  "store_env \<Rightarrow> string list \<Rightarrow> disk \<Rightarrow> path \<Rightarrow> (string, pyval) dict \<Rightarrow> string list \<Rightarrow> (string list \<times> string list) option" where
  "detect_modalities E artifacts d dir config evidence =
     (let model_type = py_lower (py_str E (dget_or config ''model_type'' (PStr [])));
          vision_config = nonempty_dict (dget_or config ''vision_config'' (PDict []));
          text_config = nonempty_dict (dget_or config ''text_config'' (PDict [])) in
      if model_type \<in> set VLM_MODEL_TYPES
      then Some ([''text'', ''vision''], evidence @ [''model_type_'' @ dashes_to_underscores model_type])
      else if vision_config
      then Some ([''text'', ''vision''], evidence @ [''found_vision_config''] @ (if text_config then [''found_text_config''] else []))
      else
        map_option (\<lambda>archs.
            case vision_architecture E vision_config archs of
              Some ev \<Rightarrow> ([''text'', ''vision''], evidence @ ev)
            | None \<Rightarrow>
                if dk_is_dir d dir then
                  (case find (\<lambda>a. dk_exists d (dir @ [a])) artifacts of
                     Some a \<Rightarrow> ([''text'', ''vision''], evidence @ [''found_'' @ a])
                   | None \<Rightarrow> ([''text''], evidence))
                else ([''text''], evidence))
          (py_list (dget_or config ''architectures'' (PList []))))"

definition mk_candidate ::
  "string \<Rightarrow> string \<Rightarrow> string \<Rightarrow> string \<Rightarrow> string \<Rightarrow> string list \<Rightarrow> string list \<Rightarrow> string list \<Rightarrow> string \<Rightarrow> ModelCandidate" where
  "mk_candidate cid status source fmt family modalities evidence problems now =
     \<lparr>mc_candidate_id = cid, mc_status = status, mc_source_path = source, mc_detected_format = fmt,
      mc_detected_family = family, mc_modalities = map PStr modalities, mc_evidence = map PStr evidence,
      mc_problems = map PStr problems, mc_created_at = now\<rparr>"

definition found_tokenizer :: "disk \<Rightarrow> path \<Rightarrow> bool" where
  "found_tokenizer d dir = (dk_is_file d (dir @ [''tokenizer.json'']) \<or> dk_is_file d (dir @ [''tokenizer_config.json'']))"

definition found_safetensors :: "disk \<Rightarrow> path \<Rightarrow> bool" where
  "found_safetensors d dir =
     (list_ex (\<lambda>n. dk_is_file d (dir @ [n]) \<and> has_suffix n ''.safetensors'') (dk_iterdir d dir)
      \<or> dk_is_file d (dir @ [''model.safetensors.index.json'']))"

text \<open>
  What \<open>config.json\<close> contributes: family, modalities, evidence and problems. A config that is not a
  JSON object has no \<open>get\<close>: the exception leaves the inspection.
\<close>

definition inspect_config ::
  "store_env \<Rightarrow> string list \<Rightarrow> disk \<Rightarrow> path \<Rightarrow> string list \<Rightarrow> (string \<times> string list \<times> string list \<times> string list) option" where
  "inspect_config E artifacts d dir evidence =
     (let (config, problems) =
            (case Option.bind (dk_read d (dir @ [''config.json''])) (sv_loads E) of
               None \<Rightarrow> (PDict [], [''config_unreadable'']) | Some v \<Rightarrow> (v, [])) in
      case config of
        PDict config \<Rightarrow>
          (case detect_family_from_config E config of
             None \<Rightarrow> None
           | Some family \<Rightarrow>
               let evidence = evidence @ (if family = ''unknown'' then [] else [''model_type_'' @ family]) in
               map_option (\<lambda>(modalities, evidence). (family, modalities, evidence, problems))
                 (detect_modalities E artifacts d dir config evidence))
      | _ \<Rightarrow> None)"

definition inspect_directory :: "store_env \<Rightarrow> string list \<Rightarrow> string \<Rightarrow> disk \<Rightarrow> path \<Rightarrow> ModelCandidate option" where
  "inspect_directory E artifacts now d dir =
     (if dk_iterdir d dir = [] then
        Some (mk_candidate (make_candidate_id E (path_str dir) []) ''unsupported'' (path_str dir) ''unknown'' ''unknown''
                [] [] [''empty_directory''] now)
      else
        let has_config = dk_is_file d (dir @ [''config.json'']); has_tokenizer = found_tokenizer d dir;
            has_safetensors = found_safetensors d dir;
            evidence = (if has_config then [''found_config_json''] else []) @ (if has_tokenizer then [''found_tokenizer''] else [])
                       @ (if has_safetensors then [''found_safetensors''] else []) in
        map_option (\<lambda>(family, modalities, evidence, problems).
            let problems = problems @ (if has_safetensors \<and> \<not> has_config \<and> \<not> has_tokenizer then [''ambiguous_candidate''] else []);
                enough = has_safetensors \<and> (has_config \<or> has_tokenizer) in
            mk_candidate (make_candidate_id E (path_str dir) evidence) (if enough then ''candidate'' else ''unsupported'')
              (path_str dir) (if enough then ''mlx'' else ''unknown'') family (normalize_modalities modalities evidence)
              evidence problems now)
          (if has_config then inspect_config E artifacts d dir evidence
           else Some (detect_family dir, [''text''], evidence, [])))"

text \<open>\<open>inspect_model_candidate\<close>: the candidate, and whether there is a top-level error.\<close>

definition inspect_model_candidate :: "store_env \<Rightarrow> string list \<Rightarrow> string \<Rightarrow> disk \<Rightarrow> string \<Rightarrow> (ModelCandidate \<times> bool) option" where
  "inspect_model_candidate E artifacts now d source =
     (let raw = py_strip source; p = sv_resolve E (path_of raw);
          plain = (\<lambda>cid status problems. mk_candidate cid status (path_str p) ''unknown'' ''unknown'' [] [] problems now) in
      if raw = [] then Some (mk_candidate (make_candidate_id E [] []) ''invalid'' [] ''unknown'' ''unknown'' [] [] [] now, True)
      else if \<not> dk_exists d p then Some (plain (make_candidate_id E raw []) ''invalid'' [''path_missing''], False)
      else if dk_is_file d p \<and> has_suffix (path_name p) ''.gguf'' then
        Some (mk_candidate (make_candidate_id E (path_str p) [''found_gguf_file'']) ''candidate'' (path_str p) ''gguf''
                (detect_family p) [''text''] [''found_gguf_file''] [] now, False)
      else if dk_is_dir d p then map_option (\<lambda>c. (c, False)) (inspect_directory E artifacts now d p)
      else Some (plain (make_candidate_id E (path_str p) []) ''unsupported'' [''unsupported_format''], False))"

text \<open>\<open>write_candidate_record\<close>: the path written, or an exception.\<close>

definition write_candidate_record ::
  "store_env \<Rightarrow> bool \<Rightarrow> path \<Rightarrow> ModelCandidate \<Rightarrow> disk \<Rightarrow> path option \<times> disk" where
  "write_candidate_record E ok base c d =
     (if \<not> dk_exists d (registry_dir base) then (None, d)
      else
        case dk_mkdir (registry_dir base @ [''candidates'']) d of
          None \<Rightarrow> (None, d)
        | Some d \<Rightarrow>
            let target = sv_resolve E (registry_dir base @ [''candidates'', safe_filename (mc_candidate_id c) @ ''.json'']);
                payload = sv_dumps E (candidate_to_dict c) in
            if \<not> startswith (path_str target) (path_str (sv_resolve E base)) then (None, d)
            else if dk_exists d target \<and> dk_read d target = None then (None, d)
            else if (case dk_read d target of Some t \<Rightarrow> py_strip t = py_strip payload | None \<Rightarrow> False) then (Some target, d)
            else
              case write_atomic ok base target payload d of
                (None, d) \<Rightarrow> (None, d) | (Some _, d) \<Rightarrow> (Some target, d))"

section \<open>Registration (registration.py)\<close>

definition safe_id_char :: "char \<Rightarrow> bool" where
  "safe_id_char c = (is_alnum c \<or> c \<in> set ''._-'')"

text \<open>\<open>_validate_model_id\<close>; \<open>$\<close> also matches before a final newline.\<close>

definition safe_id_match :: "string \<Rightarrow> bool" where
  "safe_id_match s =
     (let t = (if s \<noteq> [] \<and> last s = CHR 0x0A then butlast s else s) in
      t \<noteq> [] \<and> is_alnum (hd t) \<and> list_all safe_id_char (tl t) \<and> length t \<le> 128)"

definition valid_model_id :: "string \<Rightarrow> bool" where
  "valid_model_id s =
     (s \<noteq> [] \<and> py_strip s \<noteq> [] \<and> safe_id_match s \<and> \<not> py_contains s ''..'' \<and> \<not> startswith s ''/'' \<and> \<not> startswith s ''.'')"

record ModelRegistrationResult =
  gr_registered_model :: RegisteredModel
  gr_managed_path :: string
  gr_manifest_updated :: bool
  gr_problem :: "string option"

definition reg_fail :: "string \<Rightarrow> string \<Rightarrow> ModelRegistrationResult" where
  "reg_fail model_id problem =
     \<lparr>gr_registered_model = default_model model_id, gr_managed_path = [], gr_manifest_updated = False,
      gr_problem = Some problem\<rparr>"

text \<open>\<open>_load_manifest\<close>: an exception, a problem, or the manifest.\<close>

definition load_manifest :: "store_env \<Rightarrow> path \<Rightarrow> disk \<Rightarrow> (string + ModelRegistryManifest) option" where
  "load_manifest E base d =
     (if \<not> dk_exists d (manifest_path base) then Some (Inl ''store_not_bootstrapped'')
      else
        case Option.bind (dk_read d (manifest_path base)) (sv_loads E) of
          None \<Rightarrow> Some (Inl ''manifest_unreadable'')
        | Some data \<Rightarrow>
            map_option (\<lambda>m. if mm_schema_version m \<noteq> 1 then Inl ''manifest_schema_unsupported'' else Inr m)
              (manifest_from_dict E data))"

text \<open>\<open>_find_existing\<close>: an entry that is not an object has no \<open>get\<close>.\<close>

fun find_existing :: "pyval list \<Rightarrow> string \<Rightarrow> (string, pyval) dict option option" where
  "find_existing [] model_id = Some None"
| "find_existing (PDict e # es) model_id =
     (if dget e ''model_id'' = Some (PStr model_id) then Some (Some e) else find_existing es model_id)"
| "find_existing (_ # es) model_id = None"

definition models_match :: "(string, pyval) dict \<Rightarrow> ModelCandidate \<Rightarrow> string \<Rightarrow> bool" where
  "models_match e c model_id =
     (dget e ''model_id'' = Some (PStr model_id) \<and> dget e ''source_candidate_id'' = Some (PStr (mc_candidate_id c))
      \<and> dget e ''detected_format'' = Some (PStr (mc_detected_format c)))"

definition remove_gguf :: "string \<Rightarrow> string" where
  "remove_gguf s = (if endswith s ''.gguf'' then take (length s - 5) s else s)"

definition derive_model_id :: "ModelCandidate \<Rightarrow> string" where
  "derive_model_id c =
     (let safe = take 64 (map (\<lambda>c. if safe_id_char c then c else CHR ''-'') (remove_gguf (path_name (path_of (mc_source_path c)))));
          safe = py_rstrip_chars (\<lambda>c. c \<in> set ''-.'') (dropWhile (\<lambda>c. c \<in> set ''-.'') safe) in
      if safe = [] then ''model-'' @ take 8 (mc_candidate_id c) else safe)"

text \<open>\<open>_managed_destination\<close>: the directory to make and the artifact, both relative to the store.\<close>

definition managed_destination :: "ModelCandidate \<Rightarrow> string \<Rightarrow> path \<times> path" where
  "managed_destination c model_id =
     (let safe_id = safe_filename model_id in
      if mc_detected_format c = ''gguf''
      then ([''models'', ''gguf'', safe_id], path_child [''models'', ''gguf'', safe_id] (path_name (path_of (mc_source_path c))))
      else if PStr ''vision'' \<in> set (mc_modalities c) then ([''models'', ''vlm''], [''models'', ''vlm'', safe_id])
      else ([''models'', ''mlx''], [''models'', ''mlx'', safe_id]))"

text \<open>
  The nodes a copy creates: those at and below the source, moved to the destination. A copy that
  fails may have created some of them.
\<close>

datatype copy_outcome = COPY_OK | COPY_FAILS "path \<Rightarrow> bool"

definition copied_nodes :: "path \<Rightarrow> path \<Rightarrow> disk \<Rightarrow> disk" where
  "copied_nodes src dest d =
     map (\<lambda>(q, n). (dest @ drop (length src) q, n)) (filter (\<lambda>(q, n). take (length src) q = src) d)"

definition copy_artifact :: "copy_outcome \<Rightarrow> path \<Rightarrow> path \<Rightarrow> path \<Rightarrow> disk \<Rightarrow> bool \<times> disk" where
  "copy_artifact outcome src dir dest d =
     (case dk_mkdir dir d of
        None \<Rightarrow> (False, d)
      | Some d' \<Rightarrow>
          (case outcome of
             COPY_OK \<Rightarrow> (True, fold (\<lambda>(q, n). dset q n) (copied_nodes src dest d) d')
           | COPY_FAILS keep \<Rightarrow> (False, fold (\<lambda>(q, n). dset q n) (filter (keep \<circ> fst) (copied_nodes src dest d)) d')))"

definition registered_entry :: "string \<Rightarrow> ModelCandidate \<Rightarrow> string \<Rightarrow> string \<Rightarrow> path \<Rightarrow> RegisteredModel" where
  "registered_entry now c model_id display rel =
     \<lparr>rm_model_id = model_id, rm_display_name = display, rm_status = ''registered'', rm_storage_mode = ''managed'',
      rm_managed_path = path_str rel, rm_source_candidate_id = mc_candidate_id c, rm_source_path = mc_source_path c,
      rm_detected_format = mc_detected_format c, rm_detected_family = mc_detected_family c,
      rm_modalities = mc_modalities c, rm_evidence = mc_evidence c, rm_created_at = now, rm_updated_at = now\<rparr>"

text \<open>From the resolved id on: duplicates, the destination, the copy and the manifest.\<close>

definition register_resolved ::
  "store_env \<Rightarrow> string \<Rightarrow> copy_outcome \<Rightarrow> bool \<Rightarrow> path \<Rightarrow> ModelRegistryManifest \<Rightarrow> ModelCandidate \<Rightarrow> string \<Rightarrow> string
   \<Rightarrow> disk \<Rightarrow> ModelRegistrationResult option \<times> disk" where
  "register_resolved E now outcome ok base m c model_id display d =
     (let (dir, rel) = managed_destination c model_id; src = path_of (mc_source_path c) in
      case find_existing (mm_models m) model_id of
        None \<Rightarrow> (None, d)
      | Some (Some e) \<Rightarrow>
          if models_match e c model_id then
            (map_option (\<lambda>r. \<lparr>gr_registered_model = r, gr_managed_path = path_str rel, gr_manifest_updated = False,
                              gr_problem = None\<rparr>) (registered_from_dict E (PDict e)), d)
          else (Some (reg_fail model_id ''duplicate_model_id''), d)
      | Some None \<Rightarrow>
          if \<not> dk_exists d src then (Some (reg_fail model_id ''candidate_missing''), d)
          else if dk_exists d (base @ rel) then (Some (reg_fail model_id ''managed_destination_exists''), d)
          else
            case copy_artifact outcome src (base @ dir) (base @ rel) d of
              (False, d) \<Rightarrow> (Some (reg_fail model_id ''copy_failed''), d)
            | (True, d) \<Rightarrow>
                let r = registered_entry now c model_id display rel;
                    m = manifest_touch now (m\<lparr>mm_models := mm_models m @ [registered_to_dict r]\<rparr>) in
                case write_manifest E ok base m d of
                  (None, d) \<Rightarrow> (None, d)
                | (Some _, d) \<Rightarrow>
                    (Some \<lparr>gr_registered_model = r, gr_managed_path = path_str rel, gr_manifest_updated = True,
                           gr_problem = None\<rparr>, d))"

definition register_model_candidate ::
  "store_env \<Rightarrow> string \<Rightarrow> copy_outcome \<Rightarrow> bool \<Rightarrow> path \<Rightarrow> string \<Rightarrow> string option \<Rightarrow> string option \<Rightarrow> disk
   \<Rightarrow> ModelRegistrationResult option \<times> disk" where
  "register_model_candidate E now outcome ok base candidate_id model_id display_name d =
     (let fallback = (case model_id of Some s \<Rightarrow> if s = [] then candidate_id else s | None \<Rightarrow> candidate_id);
          record_path = registry_dir base @ [''candidates'', safe_filename candidate_id @ ''.json''] in
      if \<not> dk_exists d (registry_dir base) then (Some (reg_fail fallback ''store_not_bootstrapped''), d)
      else
        case load_manifest E base d of
          None \<Rightarrow> (None, d)
        | Some (Inl problem) \<Rightarrow> (Some (reg_fail [] problem), d)
        | Some (Inr m) \<Rightarrow>
            if \<not> dk_exists d record_path then (Some (reg_fail fallback ''candidate_missing''), d)
            else
              case Option.bind (dk_read d record_path) (sv_loads E) of
                None \<Rightarrow> (Some (reg_fail fallback ''candidate_missing''), d)
              | Some data \<Rightarrow>
                  (case candidate_from_dict E data of
                     None \<Rightarrow> (None, d)
                   | Some c \<Rightarrow>
                       if mc_status c \<noteq> ''candidate'' then (Some (reg_fail fallback ''candidate_not_registrable''), d)
                       else if mc_detected_format c = ''unknown'' then (Some (reg_fail fallback ''unsupported_format''), d)
                       else
                         case model_id of
                           Some s \<Rightarrow>
                             if py_strip s = [] then (Some (reg_fail s ''unsafe_model_id''), d)
                             else if \<not> valid_model_id (py_strip s) then (Some (reg_fail (py_strip s) ''unsafe_model_id''), d)
                             else register_resolved E now outcome ok base m c (py_strip s)
                                    (case display_name of Some n \<Rightarrow> if n = [] then last_segment (mc_source_path c) else n
                                     | None \<Rightarrow> last_segment (mc_source_path c)) d
                         | None \<Rightarrow>
                             let s = derive_model_id c in
                             if \<not> valid_model_id s then (Some (reg_fail s ''unsafe_model_id''), d)
                             else register_resolved E now outcome ok base m c s
                                    (case display_name of Some n \<Rightarrow> if n = [] then last_segment (mc_source_path c) else n
                                     | None \<Rightarrow> last_segment (mc_source_path c)) d))"

section \<open>Compatibility and inventory (compatibility.py, inventory.py)\<close>

record RegisteredModelCompatibilityResult =
  cr_model_id :: string
  cr_status :: string
  cr_adapter_kind :: string
  cr_advertisable :: bool
  cr_registered :: bool
  cr_managed_path :: string
  cr_absolute_managed_path :: string
  cr_detected_format :: string
  cr_detected_family :: string
  cr_modalities :: "pyval list"
  cr_evidence :: "pyval list"
  cr_problems :: "string list"
  cr_checked_at :: string

definition compat_result :: "string \<Rightarrow> string \<Rightarrow> pyval list \<Rightarrow> string list \<Rightarrow> RegisteredModelCompatibilityResult" where
  "compat_result model_id now evidence problems =
     \<lparr>cr_model_id = model_id, cr_status = ''indeterminate'', cr_adapter_kind = ''unknown'', cr_advertisable = False,
      cr_registered = False, cr_managed_path = [], cr_absolute_managed_path = [], cr_detected_format = ''unknown'',
      cr_detected_family = ''unknown'', cr_modalities = [], cr_evidence = evidence, cr_problems = problems,
      cr_checked_at = now\<rparr>"

text \<open>\<open>_check_managed_files\<close>: whether the model is advertisable, the evidence and the problems it adds.\<close>

definition check_managed_files :: "disk \<Rightarrow> path \<Rightarrow> string \<Rightarrow> bool \<times> string list \<times> string list" where
  "check_managed_files d p fmt =
     (if fmt = ''mlx'' then
        (if dk_is_dir d p then
           let has_config = dk_is_file d (p @ [''config.json'']);
               evidence = (if has_config then [''found_config_json''] else []) @ (if found_tokenizer d p then [''found_tokenizer''] else [])
                          @ (if found_safetensors d p then [''found_safetensors''] else []) in
           if has_config \<and> (found_tokenizer d p \<or> found_safetensors d p) then (True, evidence, [])
           else (False, evidence, [''insufficient_adapter_evidence''])
         else (False, [], [''managed_path_missing'']))
      else if fmt = ''gguf'' then
        (if dk_is_file d p \<and> has_suffix (path_name p) ''.gguf'' then (True, [''found_gguf_file''], [])
         else (False, [], [''insufficient_adapter_evidence'']))
      else (False, [], [''unsupported_format'']))"

text \<open>The adapter of a format and the evidence for it; \<open>None\<close> for a format without one.\<close>

definition adapter_for :: "string \<Rightarrow> pyval list \<Rightarrow> (string \<times> string list) option" where
  "adapter_for fmt modalities =
     (if fmt = ''mlx'' then
        Some (if PStr ''vision'' \<in> set modalities
              then (''mlx_vlm'', [''format_mlx'', ''adapter_mlx_vlm'', ''modalities_vision'', ''modalities_text''])
              else (''mlx_lm_server'', [''format_mlx'', ''adapter_mlx_lm_server'', ''modalities_text'']))
      else if fmt = ''gguf'' then
        Some (''llama_cpp'', [''format_gguf'', ''adapter_llama_cpp'']
               @ (if PStr ''text'' \<in> set modalities then [''modalities_text''] else []))
      else None)"

text \<open>\<open>base / text\<close>: an absolute text replaces the base.\<close>

definition path_join_text :: "path \<Rightarrow> string \<Rightarrow> path" where
  "path_join_text base t = (if startswith t ''/'' then path_of t else base @ path_of t)"

text \<open>The checks of a model found in the manifest.\<close>

definition check_registered ::
  "store_env \<Rightarrow> string \<Rightarrow> path \<Rightarrow> string \<Rightarrow> RegisteredModel \<Rightarrow> disk \<Rightarrow> RegisteredModelCompatibilityResult" where
  "check_registered E now base model_id rm d =
     (let found = [PStr ''registered_model_found''];
          res = (\<lambda>ev ps. (compat_result model_id now ev ps)\<lparr>cr_registered := True, cr_detected_format := rm_detected_format rm\<rparr>);
          p = sv_resolve E (path_join_text base (rm_managed_path rm)) in
      if rm_status rm \<noteq> ''registered''
      then (res found [''model_status_not_registered''])\<lparr>cr_status := ''incompatible''\<rparr>
      else if rm_storage_mode rm \<noteq> ''managed'' then res found [''unsupported_storage_mode'']
      else if rm_managed_path rm = [] then res found [''managed_path_missing'']
      else if \<not> startswith (path_str p) (path_str (sv_resolve E base))
      then (res found [''managed_path_escapes_store''])\<lparr>cr_managed_path := rm_managed_path rm\<rparr>
      else if \<not> dk_exists d p
      then (res found [''managed_path_missing''])\<lparr>cr_managed_path := rm_managed_path rm, cr_absolute_managed_path := path_str p\<rparr>
      else
        let evidence = found @ map PStr [''managed_path_exists'', ''managed_path_under_store_root''] in
        case adapter_for (rm_detected_format rm) (rm_modalities rm) of
          None \<Rightarrow>
            (res evidence [''unsupported_format''])\<lparr>cr_managed_path := rm_managed_path rm,
               cr_absolute_managed_path := path_str p, cr_modalities := rm_modalities rm, cr_status := ''incompatible''\<rparr>
        | Some (kind, ev) \<Rightarrow>
            (case check_managed_files d p (rm_detected_format rm) of
               (advertisable, ev', problems) \<Rightarrow>
                 let evidence = evidence @ map PStr (ev @ ev');
                     evidence = fold (\<lambda>e es. if e \<in> set es then es else es @ [e]) (rm_evidence rm) evidence in
                 (res evidence problems)\<lparr>
                    cr_status := (if advertisable \<and> problems = [] then ''compatible''
                                  else if problems \<noteq> [] then ''incompatible'' else ''indeterminate''),
                    cr_adapter_kind := kind, cr_advertisable := advertisable, cr_managed_path := rm_managed_path rm,
                    cr_absolute_managed_path := path_str p, cr_detected_family := rm_detected_family rm,
                    cr_modalities := rm_modalities rm\<rparr>))"

definition validate_registered_model_compatibility ::
  "store_env \<Rightarrow> string \<Rightarrow> path \<Rightarrow> string \<Rightarrow> disk \<Rightarrow> RegisteredModelCompatibilityResult option" where
  "validate_registered_model_compatibility E now base model_id d =
     (let res = (\<lambda>problem. Some (compat_result model_id now [] [problem])) in
      if \<not> dk_exists d (registry_dir base) then res ''store_not_bootstrapped''
      else if \<not> dk_exists d (manifest_path base) then res ''manifest_missing''
      else
        case load_manifest E base d of
          None \<Rightarrow> None
        | Some (Inl problem) \<Rightarrow> res problem
        | Some (Inr m) \<Rightarrow>
            (case find_existing (mm_models m) model_id of
               None \<Rightarrow> None
             | Some None \<Rightarrow> res ''model_missing''
             | Some (Some e) \<Rightarrow>
                 map_option (\<lambda>rm. check_registered E now base model_id rm d) (registered_from_dict E (PDict e))))"

fun collect_models ::
  "store_env \<Rightarrow> string \<Rightarrow> path \<Rightarrow> disk \<Rightarrow> pyval list \<Rightarrow> string list \<Rightarrow> RegisteredModel list \<Rightarrow> RegisteredModel list option" where
  "collect_models E now base d [] seen_ids acc = Some acc"
| "collect_models E now base d (PDict e # es) seen_ids acc =
     (let model_id = py_str E (dget_or e ''model_id'' (PStr [])) in
      if model_id = [] \<or> model_id \<in> set seen_ids then collect_models E now base d es seen_ids acc
      else
        case registered_from_dict E (PDict e) of
          None \<Rightarrow> None
        | Some rm \<Rightarrow>
            if rm_status rm \<noteq> ''registered'' \<or> rm_storage_mode rm \<noteq> ''managed''
            then collect_models E now base d es (seen_ids @ [model_id]) acc
            else
              case validate_registered_model_compatibility E now base model_id d of
                None \<Rightarrow> None
              | Some res \<Rightarrow>
                  collect_models E now base d es (seen_ids @ [model_id]) (if cr_advertisable res then acc @ [rm] else acc))"
| "collect_models E now base d (_ # es) seen_ids acc = None"

definition collect_advertisable_registered_models ::
  "store_env \<Rightarrow> string \<Rightarrow> path \<Rightarrow> disk \<Rightarrow> RegisteredModel list option" where
  "collect_advertisable_registered_models E now base d =
     (if \<not> dk_exists d (registry_dir base) \<or> \<not> dk_exists d (manifest_path base) then Some []
      else
        case load_manifest E base d of
          None \<Rightarrow> None
        | Some (Inl _) \<Rightarrow> Some []
        | Some (Inr m) \<Rightarrow> map_option (sort_key rm_model_id) (collect_models E now base d (mm_models m) [] []))"

section \<open>Round trips\<close>

lemma manifest_roundtrip: "manifest_from_dict E (manifest_to_dict m) = Some m"
  by (simp add: manifest_from_dict_def manifest_to_dict_def dget_or_def py_str_def)

lemma candidate_roundtrip: "candidate_from_dict E (candidate_to_dict c) = Some c"
  by (simp add: candidate_from_dict_def candidate_to_dict_def dget_or_def py_str_def)

lemma registered_roundtrip: "registered_from_dict E (registered_to_dict r) = Some r"
  by (simp add: registered_from_dict_def registered_to_dict_def dget_or_def py_str_def)

section \<open>How operations change the disk\<close>

lemma set_dirs_to: "set (dirs_to p) = {q. q \<noteq> [] \<and> prefix q p}"
proof (intro equalityI subsetI)
  fix q assume "q \<in> set (dirs_to p)"
  then obtain k where "q = take k p" "k \<in> {1..<Suc (length p)}" unfolding dirs_to_def by (metis imageE set_map set_upt)
  then show "q \<in> {q. q \<noteq> [] \<and> prefix q p}" by (auto simp: take_is_prefix)
next
  fix q assume "q \<in> {q. q \<noteq> [] \<and> prefix q p}"
  then obtain r where q: "q \<noteq> []" "p = q @ r" by (auto simp: prefix_def)
  then have "q = take (length q) p" "length q \<in> {1..<Suc (length p)}" by (cases q; simp)+
  then show "q \<in> set (dirs_to p)" unfolding dirs_to_def by (metis image_eqI set_map set_upt)
qed

lemma dget_add_dirs:
  "dget (fold dk_add_dir ps d) q = (if q \<in> set ps \<and> dget d q = None then Some DIR else dget d q)"
  by (induction ps arbitrary: d) (auto simp: dk_add_dir_def dk_exists_def dict_simps)

lemma dget_mkdir:
  assumes "dk_mkdir p d = Some d'"
  shows "dget d' q = (if q \<noteq> [] \<and> prefix q p \<and> dget d q = None then Some DIR else dget d q)"
  using assms by (auto simp: dk_mkdir_def dget_add_dirs set_dirs_to split: if_splits)

text \<open>
  What an operation on a store may do to the disk: change nodes in the store or create directories
  above it, and remove nothing.
\<close>

definition store_change :: "path \<Rightarrow> disk \<Rightarrow> disk \<Rightarrow> bool" where
  "store_change base d d' \<longleftrightarrow>
     (\<forall>q. dget d' q \<noteq> dget d q \<longrightarrow> prefix base q \<or> prefix q base \<and> dget d q = None \<and> dget d' q = Some DIR)
   \<and> (\<forall>q. dget d q \<noteq> None \<longrightarrow> dget d' q \<noteq> None)"

lemma store_change_refl [simp]: "store_change base d d"
  by (simp add: store_change_def)

lemma store_change_trans: "store_change base d d' \<Longrightarrow> store_change base d' d'' \<Longrightarrow> store_change base d d''"
  unfolding store_change_def by metis

lemma store_change_mkdir: "dk_mkdir (base @ rel) d = Some d' \<Longrightarrow> store_change base d d'"
  by (auto simp: store_change_def dget_mkdir prefix_append)

lemma store_change_set: "prefix base q \<Longrightarrow> store_change base d (dset q n d)"
  by (simp add: store_change_def dict_simps)

lemma store_change_sets: "list_all (prefix base \<circ> fst) qs \<Longrightarrow> store_change base d (fold (\<lambda>(q, n). dset q n) qs d)"
proof (induction qs arbitrary: d)
  case (Cons x qs)
  obtain q n where x: "x = (q, n)" by fastforce
  show ?case using Cons store_change_trans[OF store_change_set[of base q d n]] by (simp add: x)
qed simp

lemma store_change_write:
  "write_atomic ok base (base @ rel) payload d = (res, d') \<Longrightarrow> store_change base d d'"
  by (auto simp: write_atomic_def intro: store_change_mkdir store_change_trans[OF store_change_mkdir store_change_set]
      split: option.splits if_splits)

lemma manifest_path_under: "manifest_path base = base @ [''registry'', ''models.json'']"
  by (simp add: manifest_path_def registry_dir_def)

lemma store_change_manifest: "write_manifest E ok base m d = (res, d') \<Longrightarrow> store_change base d d'"
  unfolding write_manifest_def manifest_path_under by (rule store_change_write)

lemma copied_under: "list_all (prefix base \<circ> fst) (copied_nodes src (base @ rel) d)"
  by (auto simp: copied_nodes_def list_all_iff)

lemma list_all_filter_mono: "list_all P xs \<Longrightarrow> list_all P (filter Q xs)"
  by (auto simp: list_all_iff)

lemma store_change_copy:
  "copy_artifact outcome src (base @ dir) (base @ rel) d = (res, d') \<Longrightarrow> store_change base d d'"
  using copied_under[of base src rel d]
  by (auto simp: copy_artifact_def intro: store_change_trans[OF store_change_mkdir store_change_sets] list_all_filter_mono
      split: option.splits copy_outcome.splits)

lemma store_change_resolved:
  "register_resolved E now outcome ok base m c model_id display d = (res, d') \<Longrightarrow> store_change base d d'"
  by (auto simp: register_resolved_def Let_def
      intro: store_change_copy store_change_trans[OF store_change_copy store_change_manifest]
      split: option.splits if_splits prod.splits bool.splits)

lemma store_change_register:
  "store_change base d (snd (register_model_candidate E now outcome ok base cid mid dn d))"
proof -
  have "store_change base d (snd (register_resolved E now outcome ok base m c i n d))" for m c i n
    by (metis prod.collapse store_change_resolved)
  then show ?thesis
    by (auto simp: register_model_candidate_def Let_def split: option.splits sum.splits)
qed

section \<open>The store invariant\<close>

text \<open>
  The laws of the parameters: what \<open>json.dumps\<close> writes of a value without floats, \<open>json.loads\<close> reads
  back, and names appended to a resolved path leave it resolved, as the disk has no links.
\<close>

definition store_laws :: "store_env \<Rightarrow> bool" where
  "store_laws E \<longleftrightarrow>
     (\<forall>v. floats_in {} v \<longrightarrow> sv_loads E (sv_dumps E v) = Some v)
   \<and> (\<forall>p ns. list_all proper_name ns \<longrightarrow> sv_resolve E (sv_resolve E p @ ns) = sv_resolve E p @ ns)"

definition str_list :: "pyval list \<Rightarrow> bool" where
  "str_list vs = list_all (\<lambda>v. case v of PStr _ \<Rightarrow> True | _ \<Rightarrow> False) vs"

definition plain_candidate :: "ModelCandidate \<Rightarrow> bool" where
  "plain_candidate c = (str_list (mc_modalities c) \<and> str_list (mc_evidence c) \<and> str_list (mc_problems c))"

definition model_stored :: "path \<Rightarrow> disk \<Rightarrow> RegisteredModel \<Rightarrow> bool" where
  "model_stored base d r \<longleftrightarrow>
     valid_model_id (rm_model_id r) \<and> str_list (rm_modalities r) \<and> str_list (rm_evidence r)
   \<and> (\<exists>rel. rm_managed_path r = path_str (''models'' # rel) \<and> dk_exists d (base @ ''models'' # rel))"

definition manifest_good :: "path \<Rightarrow> disk \<Rightarrow> ModelRegistryManifest \<Rightarrow> bool" where
  "manifest_good base d m \<longleftrightarrow>
     mm_schema_version m = 1
   \<and> (\<exists>rms. mm_models m = map registered_to_dict rms \<and> distinct (map rm_model_id rms) \<and> list_all (model_stored base d) rms)"

definition candidate_path :: "path \<Rightarrow> string \<Rightarrow> path" where
  "candidate_path base name = registry_dir base @ [''candidates'', name]"

definition store_ok :: "store_env \<Rightarrow> path \<Rightarrow> disk \<Rightarrow> bool" where
  "store_ok E base d \<longleftrightarrow>
     (case dget d (manifest_path base) of
        None \<Rightarrow> True
      | Some DIR \<Rightarrow> False
      | Some (FILE t) \<Rightarrow> (\<exists>m. manifest_good base d m \<and> t = sv_dumps E (manifest_to_dict m)))
   \<and> (\<forall>n t. dget d (candidate_path base n) = Some (FILE t) \<longrightarrow>
        (\<exists>c. plain_candidate c \<and> t = sv_dumps E (candidate_to_dict c)))"

lemma str_list_floats: "str_list vs \<Longrightarrow> list_all (floats_in {}) vs"
proof (induction vs)
  case (Cons v vs)
  then show ?case by (cases v) (auto simp: str_list_def)
qed simp

lemma str_list_map [simp]: "str_list (map PStr xs)"
  by (simp add: str_list_def list_all_iff)

lemma good_floats: "manifest_good base d m \<Longrightarrow> floats_in {} (manifest_to_dict m)"
proof -
  have "floats_in {} (registered_to_dict r)" if "model_stored base d r" for r
    using that by (auto simp: registered_to_dict_def model_stored_def dest!: str_list_floats)
  then show "manifest_good base d m \<Longrightarrow> floats_in {} (manifest_to_dict m)"
    by (auto simp: manifest_good_def manifest_to_dict_def list_all_iff)
qed

lemma candidate_floats: "plain_candidate c \<Longrightarrow> floats_in {} (candidate_to_dict c)"
  by (auto simp: plain_candidate_def candidate_to_dict_def dest!: str_list_floats)

lemma good_mono: "manifest_good base d m \<Longrightarrow> (\<And>q. dget d q \<noteq> None \<Longrightarrow> dget d' q \<noteq> None) \<Longrightarrow> manifest_good base d' m"
  unfolding manifest_good_def model_stored_def dk_exists_def list_all_iff by blast

lemma good_touch: "manifest_good base d m \<Longrightarrow> manifest_good base d (manifest_touch now m)"
  by (simp add: manifest_good_def manifest_touch_def)

text \<open>Whatever leaves the manifest and the candidate records alone keeps the invariant.\<close>

lemma store_ok_frame:
  assumes "store_ok E base d" "\<And>q. dget d q \<noteq> None \<Longrightarrow> dget d' q \<noteq> None"
    and "dget d' (manifest_path base) = dget d (manifest_path base)"
    and "\<And>n. dget d' (candidate_path base n) = dget d (candidate_path base n) \<or> dget d' (candidate_path base n) = Some DIR"
  shows "store_ok E base d'"
proof -
  have "\<exists>c. plain_candidate c \<and> t = sv_dumps E (candidate_to_dict c)"
    if "dget d' (candidate_path base n) = Some (FILE t)" for n t
    using that assms(1) assms(4)[of n] unfolding store_ok_def by auto
  moreover have "\<exists>m. manifest_good base d' m \<and> t = sv_dumps E (manifest_to_dict m)"
    if "dget d (manifest_path base) = Some (FILE t)" for t
    using that assms(1) good_mono[OF _ assms(2)] unfolding store_ok_def by auto
  moreover have "dget d (manifest_path base) \<noteq> Some DIR" using assms(1) by (auto simp: store_ok_def)
  ultimately show ?thesis unfolding store_ok_def assms(3) by (auto split: option.splits node.splits)
qed

lemma store_ok_mkdir:
  assumes "store_ok E base d" "dk_mkdir (base @ rel) d = Some d'" "\<not> prefix [''registry'', ''models.json''] rel"
  shows "store_ok E base d'"
proof (rule store_ok_frame[OF assms(1)])
  show "dget d' (manifest_path base) = dget d (manifest_path base)"
    using assms(3) by (simp add: dget_mkdir[OF assms(2)] manifest_path_under)
qed (auto simp: dget_mkdir[OF assms(2)])

lemma store_ok_sets:
  "store_ok E base d \<Longrightarrow> list_all (\<lambda>(q, n). \<exists>rel. q = base @ ''models'' # rel) qs \<Longrightarrow>
   store_ok E base (fold (\<lambda>(q, n). dset q n) qs d)"
proof (induction qs arbitrary: d)
  case (Cons x qs)
  obtain q n rel where x: "x = (q, n)" "q = base @ ''models'' # rel" using Cons.prems(2) by (cases x) auto
  have "store_ok E base (dset q n d)"
    by (rule store_ok_frame[OF Cons.prems(1)])
      (auto simp: x dict_simps manifest_path_under candidate_path_def registry_dir_def)
  then show ?case using Cons by (simp add: x)
qed simp

lemma store_ok_write_manifest:
  assumes "store_ok E base d" "manifest_good base d m"
  shows "store_ok E base (snd (write_manifest E ok base m d))"
proof (cases "dk_mkdir (base @ [''tmp'']) d")
  case (Some d1)
  have ok1: "store_ok E base d1" using store_ok_mkdir[OF assms(1) Some] by simp
  have good1: "manifest_good base d1 m" by (rule good_mono[OF assms(2)]) (simp add: dget_mkdir[OF Some])
  let ?d2 = "dset (manifest_path base) (FILE (sv_dumps E (manifest_to_dict m))) d1"
  have "manifest_good base ?d2 m" by (rule good_mono[OF good1]) (simp add: dict_simps)
  then have "store_ok E base ?d2"
    using ok1 by (auto simp: store_ok_def dict_simps manifest_path_under candidate_path_def registry_dir_def)
  then show ?thesis using Some ok1 by (simp add: write_manifest_def write_atomic_def)
qed (use assms in \<open>simp add: write_manifest_def write_atomic_def\<close>)

lemma make_directories_ok:
  "make_directories ps d made = (res, d') \<Longrightarrow> store_ok E base d \<Longrightarrow>
   list_all (\<lambda>p. \<exists>rel. p = base @ rel \<and> \<not> prefix [''registry'', ''models.json''] rel) ps \<Longrightarrow> store_ok E base d'"
  by (induction ps arbitrary: d made) (auto split: if_splits option.splits dest: store_ok_mkdir)

lemma load_manifest_good:
  assumes "store_laws E" "store_ok E base d" "load_manifest E base d = Some (Inr m)"
  shows "manifest_good base d m"
proof -
  obtain t where t: "dget d (manifest_path base) = Some (FILE t)"
    using assms(2,3) by (auto simp: load_manifest_def store_ok_def dk_exists_def split: option.splits node.splits if_splits)
  then obtain m0 where m0: "manifest_good base d m0" "t = sv_dumps E (manifest_to_dict m0)"
    using assms(2) by (auto simp: store_ok_def)
  then have "sv_loads E t = Some (manifest_to_dict m0)"
    using assms(1) good_floats[OF m0(1)] by (simp add: store_laws_def)
  then show ?thesis
    using assms(3) t m0(1) by (auto simp: load_manifest_def dk_exists_def dk_read_def manifest_roundtrip split: if_splits)
qed

lemma load_candidate_plain:
  assumes "store_laws E" "store_ok E base d"
    and "Option.bind (dk_read d (candidate_path base n)) (sv_loads E) = Some data" "candidate_from_dict E data = Some c"
  shows "plain_candidate c"
proof -
  obtain t where t: "dget d (candidate_path base n) = Some (FILE t)" "sv_loads E t = Some data"
    using assms(3) by (auto simp: dk_read_def bind_eq_Some_conv split: option.splits node.splits)
  then obtain c0 where "plain_candidate c0" "t = sv_dumps E (candidate_to_dict c0)" using assms(2) by (auto simp: store_ok_def)
  then show ?thesis
    using t(2) assms(1,4) candidate_floats[of c0] by (auto simp: store_laws_def candidate_roundtrip)
qed

definition entry_fields :: "RegisteredModel \<Rightarrow> (string, pyval) dict" where
  "entry_fields r = (case registered_to_dict r of PDict e \<Rightarrow> e | _ \<Rightarrow> [])"

lemma registered_fields: "registered_to_dict r = PDict (entry_fields r)" "dget (entry_fields r) ''model_id'' = Some (PStr (rm_model_id r))"
  "dget (entry_fields r) ''source_candidate_id'' = Some (PStr (rm_source_candidate_id r))"
  "dget (entry_fields r) ''detected_format'' = Some (PStr (rm_detected_format r))"
  by (simp_all add: entry_fields_def registered_to_dict_def)

lemma find_existing_registered:
  "find_existing (map registered_to_dict rms) model_id = Some (map_option entry_fields (find (\<lambda>r. rm_model_id r = model_id) rms))"
  by (induction rms) (auto simp: registered_fields)

lemma managed_destination_models:
  "managed_destination c model_id = (dir, rel) \<Longrightarrow> \<exists>dir' rel'. dir = ''models'' # dir' \<and> rel = ''models'' # rel'"
  by (auto simp: managed_destination_def path_child_def Let_def split: if_splits)

lemma dget_sets_new: "dget (fold (\<lambda>(q, n). dset q n) qs d) q = None \<Longrightarrow> dget d q = None \<and> q \<notin> fst ` set qs"
proof (induction qs arbitrary: d)
  case (Cons x qs)
  obtain p n where x: "x = (p, n)" by fastforce
  from Cons.IH[of "dset p n d"] Cons.prems show ?case by (simp add: x dict_simps split: if_splits)
qed simp

lemma dget_sets_other: "list_all (\<lambda>(q, n). q \<noteq> p) qs \<Longrightarrow> dget (fold (\<lambda>(q, n). dset q n) qs d) p = dget d p"
  by (induction qs arbitrary: d) (auto simp: dict_simps)

lemma copy_artifact_ok:
  assumes "copy_artifact outcome src (base @ ''models'' # dir) (base @ ''models'' # rel) d = (res, d')" "store_ok E base d"
  shows "store_ok E base d'"
proof (cases "dk_mkdir (base @ ''models'' # dir) d")
  case (Some d1)
  have "store_ok E base d1" using store_ok_mkdir[OF assms(2) Some] by simp
  moreover have "list_all (\<lambda>(q, n). \<exists>rel. q = base @ ''models'' # rel) (copied_nodes src (base @ ''models'' # rel) d)"
    by (auto simp: copied_nodes_def list_all_iff)
  ultimately show ?thesis
    using assms(1) Some
    by (auto simp: copy_artifact_def intro!: store_ok_sets list_all_filter_mono split: copy_outcome.splits)
qed (use assms in \<open>simp add: copy_artifact_def\<close>)

lemma copy_creates:
  assumes "copy_artifact outcome src dir dest d = (True, d')" "dk_exists d src"
  shows "dk_exists d' dest"
proof -
  obtain d1 where d': "d' = fold (\<lambda>(q, n). dset q n) (copied_nodes src dest d) d1"
    using assms(1) by (auto simp: copy_artifact_def split: option.splits copy_outcome.splits)
  obtain n where "(src, n) \<in> set d" using assms(2) by (auto simp: dk_exists_def dest: map_of_SomeD)
  then have "(dest, n) \<in> set (copied_nodes src dest d)" by (force simp: copied_nodes_def)
  then show ?thesis using dget_sets_new[of "copied_nodes src dest d" d1 dest] unfolding d' dk_exists_def by force
qed

lemma register_resolved_ok:
  assumes "store_laws E" "store_ok E base d" "manifest_good base d m" "plain_candidate c" "valid_model_id i"
  shows "store_ok E base (snd (register_resolved E now outcome ok base m c i display d))"
proof -
  obtain rms where rms: "mm_models m = map registered_to_dict rms" "distinct (map rm_model_id rms)"
    "list_all (model_stored base d) rms" "mm_schema_version m = 1"
    using assms(3) by (auto simp: manifest_good_def)
  obtain dir rel where dest: "managed_destination c i = (''models'' # dir, ''models'' # rel)"
    using managed_destination_models[of c i] by (metis prod.collapse)
  let ?src = "path_of (mc_source_path c)"
  show ?thesis
  proof (cases "find (\<lambda>r. rm_model_id r = i) rms = None \<and> dk_exists d ?src \<and> \<not> dk_exists d (base @ ''models'' # rel)")
    case False
    then show ?thesis
      using assms(2) by (auto simp: register_resolved_def dest rms(1) find_existing_registered Let_def split: option.splits)
  next
    case True
    obtain ended d1 where copy: "copy_artifact outcome ?src (base @ ''models'' # dir) (base @ ''models'' # rel) d = (ended, d1)"
      by fastforce
    note ok1 = copy_artifact_ok[OF copy assms(2)]
    show ?thesis
    proof (cases ended)
      case False
      then show ?thesis using True copy ok1 by (simp add: register_resolved_def dest rms(1) find_existing_registered)
    next
      case ended: True
      let ?r = "registered_entry now c i display (''models'' # rel)"
      have grow: "dget d q \<noteq> None \<Longrightarrow> dget d1 q \<noteq> None" for q
        using store_change_copy[OF copy] unfolding store_change_def by blast
      have copied: "copy_artifact outcome ?src (base @ ''models'' # dir) (base @ ''models'' # rel) d = (True, d1)"
        using copy ended by simp
      have "model_stored base d1 ?r"
        using copy_creates[OF copied] True assms(4,5)
        by (auto simp: model_stored_def registered_entry_def plain_candidate_def)
      moreover have "list_all (model_stored base d1) rms"
        using rms(3) grow unfolding list_all_iff model_stored_def dk_exists_def by blast
      moreover have "i \<notin> rm_model_id ` set rms" using True by (auto simp: find_None_iff)
      ultimately have "manifest_good base d1 (m\<lparr>mm_models := mm_models m @ [registered_to_dict ?r]\<rparr>)"
        using rms unfolding manifest_good_def
        by (intro conjI exI[of _ "rms @ [?r]"]) (auto simp: registered_entry_def)
      from store_ok_write_manifest[OF ok1 good_touch[OF this, of now], of ok] show ?thesis
        using True copied
        by (auto simp: register_resolved_def dest rms(1) find_existing_registered Let_def split: prod.split option.split)
    qed
  qed
qed

lemma register_ok:
  assumes "store_laws E" "store_ok E base d"
  shows "store_ok E base (snd (register_model_candidate E now outcome ok base cid mid dn d))"
proof -
  have "store_ok E base (snd (register_resolved E now outcome ok base m c i n d))"
    if "load_manifest E base d = Some (Inr m)"
      "Option.bind (dk_read d (registry_dir base @ [''candidates'', nm])) (sv_loads E) = Some data"
      "candidate_from_dict E data = Some c" "valid_model_id i" for m c i n data nm
    using register_resolved_ok[OF assms load_manifest_good[OF assms that(1)]
        load_candidate_plain[OF assms that(2)[folded candidate_path_def] that(3)] that(4)] .
  then show ?thesis
    using assms(2) by (auto simp: register_model_candidate_def Let_def split: option.splits sum.splits)
qed

lemma safe_filename_proper: "proper_name (safe_filename cid @ ''.json'')"
proof -
  have "CHR ''/'' \<notin> set (safe_filename cid)"
    by (auto simp: safe_filename_def py_isalnum_def is_alnum_def is_alpha_def is_lower_def is_upper_def is_digit_def dest!: in_set_takeD)
  then show ?thesis by (auto simp: proper_name_def append_eq_Cons_conv)
qed

lemma mk_candidate_plain [simp]: "plain_candidate (mk_candidate cid status source fmt family modalities evidence problems now)"
  by (simp add: mk_candidate_def plain_candidate_def)

lemma inspect_directory_plain: "inspect_directory E artifacts now d dir = Some c \<Longrightarrow> plain_candidate c"
  by (auto simp: inspect_directory_def Let_def split: if_splits)

lemma inspected_plain:
  assumes "inspect_model_candidate E artifacts now d source = Some (c, e)"
  shows "plain_candidate c"
  using assms inspect_directory_plain[of E artifacts now d "sv_resolve E (path_of (py_strip source))" c]
  by (auto simp: inspect_model_candidate_def Let_def split: if_split_asm)

lemma write_candidate_ok:
  assumes "store_laws E" "store_ok E base d" "base = sv_resolve E p" "plain_candidate c"
  shows "store_ok E base (snd (write_candidate_record E ok base c d))"
proof (cases "dk_exists d (registry_dir base)")
  case True
  let ?target = "candidate_path base (safe_filename (mc_candidate_id c) @ ''.json'')"
  have "list_all proper_name [''registry'', ''candidates'', safe_filename (mc_candidate_id c) @ ''.json'']"
    using safe_filename_proper by (simp add: proper_name_def)
  then have target: "sv_resolve E (registry_dir base @ [''candidates'', safe_filename (mc_candidate_id c) @ ''.json'']) = ?target"
    using assms(1) unfolding store_laws_def candidate_path_def registry_dir_def assms(3) by simp
  show ?thesis
  proof (cases "dk_mkdir (registry_dir base @ [''candidates'']) d")
    case (Some d1)
    have ok1: "store_ok E base d1"
      using store_ok_mkdir[OF assms(2), of "[''registry'', ''candidates'']"] Some by (simp add: registry_dir_def)
    have written: "store_ok E base (snd (write_atomic ok base ?target (sv_dumps E (candidate_to_dict c)) d1))"
    proof (cases "dk_mkdir (base @ [''tmp'']) d1")
      case tmp: (Some d2)
      have ok2: "store_ok E base d2" using store_ok_mkdir[OF ok1 tmp] by simp
      let ?d3 = "dset ?target (FILE (sv_dumps E (candidate_to_dict c))) d2"
      have "manifest_good base ?d3 m" if "manifest_good base d2 m" for m
        by (rule good_mono[OF that]) (simp add: dict_simps)
      then have "store_ok E base ?d3"
        using ok2 assms(4)
        by (auto simp: store_ok_def dict_simps manifest_path_under candidate_path_def registry_dir_def
            split: option.splits node.splits)
      then show ?thesis using ok2 tmp by (simp add: write_atomic_def)
    qed (use ok1 in \<open>simp add: write_atomic_def\<close>)
    then show ?thesis
      using True Some ok1
      by (auto simp: write_candidate_record_def Let_def target split: prod.splits option.splits)
  qed (use assms True in \<open>simp add: write_candidate_record_def\<close>)
qed (use assms in \<open>simp add: write_candidate_record_def\<close>)

lemma bootstrap_ok:
  assumes "store_laws E" "base = sv_resolve E (path_of (py_strip store_root))" "store_ok E base d"
  shows "store_ok E base (snd (bootstrap_model_store E now ok store_root d))"
proof (cases "py_strip store_root = [] \<or> base = [''/'']")
  case False
  obtain made d1 where dirs: "make_directories (all_directories base) d [] = (made, d1)" by fastforce
  have ok1: "store_ok E base d1"
    by (rule make_directories_ok[OF dirs assms(3)]) (auto simp: all_directories_def registry_dir_def)
  have written: "store_ok E base d2" if "write_manifest E ok base m d1 = (res, d2)" "manifest_good base d1 m" for m res d2
    using store_ok_write_manifest[OF ok1 that(2), of ok] that(1) by simp
  have fresh: "manifest_good base d1 (manifest_create base now)"
    by (simp add: manifest_good_def manifest_create_def)
  have reused: "manifest_good base d1 (manifest_touch now m)"
    if "dk_exists d1 (manifest_path base)" "Option.bind (dk_read d1 (manifest_path base)) (sv_loads E) = Some data"
      "manifest_from_dict E data = Some m" "mm_schema_version m = 1" for data m
    using load_manifest_good[OF assms(1) ok1, of m] that by (simp add: load_manifest_def good_touch)
  show ?thesis
    using False ok1 dirs written[OF _ fresh] written[OF _ reused]
    by (auto simp: bootstrap_model_store_def Let_def assms(2)[symmetric] split: option.splits prod.splits)
qed (use assms in \<open>auto simp: bootstrap_model_store_def Let_def\<close>)

section \<open>Any sequence of store operations\<close>

text \<open>
  The operations on one store, and what users do elsewhere on the disk: \<open>OP_INSPECT\<close> inspects an
  artifact and records the candidate.
\<close>

datatype store_op =
    OP_BOOTSTRAP string bool
  | OP_INSPECT string bool string
  | OP_REGISTER string copy_outcome bool string "string option" "string option"
  | OP_USER path node

definition store_base :: "store_env \<Rightarrow> string \<Rightarrow> path" where
  "store_base E store_root = sv_resolve E (path_of (py_strip store_root))"

fun store_step :: "store_env \<Rightarrow> string list \<Rightarrow> string \<Rightarrow> store_op \<Rightarrow> disk \<Rightarrow> disk" where
  "store_step E artifacts store_root (OP_BOOTSTRAP now ok) d = snd (bootstrap_model_store E now ok store_root d)"
| "store_step E artifacts store_root (OP_INSPECT now ok source) d =
     (case inspect_model_candidate E artifacts now d source of
        None \<Rightarrow> d
      | Some (c, _) \<Rightarrow> snd (write_candidate_record E ok (store_base E store_root) c d))"
| "store_step E artifacts store_root (OP_REGISTER now outcome ok cid mid dn) d =
     snd (register_model_candidate E now outcome ok (store_base E store_root) cid mid dn d)"
| "store_step E artifacts store_root (OP_USER p n) d = (if prefix (store_base E store_root) p then d else dset p n d)"

lemma store_step_ok:
  assumes "store_laws E" "store_ok E (store_base E store_root) d"
  shows "store_ok E (store_base E store_root) (store_step E artifacts store_root op d)"
proof (cases op)
  case (OP_BOOTSTRAP now ok)
  then show ?thesis using bootstrap_ok[OF assms(1) _ assms(2)] by (simp add: store_base_def)
next
  case (OP_INSPECT now ok source)
  then show ?thesis using write_candidate_ok[OF assms store_base_def] inspected_plain assms(2) by (auto split: option.splits)
next
  case OP_REGISTER
  then show ?thesis using register_ok[OF assms] by simp
next
  case (OP_USER p n)
  then show ?thesis
    using assms(2)
    by (auto intro!: store_ok_frame[OF assms(2)] simp: dict_simps manifest_path_under candidate_path_def registry_dir_def)
qed

interpretation store_ops: op_machine "store_step E artifacts store_root" "\<lambda>d. store_laws E \<longrightarrow> store_ok E (store_base E store_root) d"
  for E artifacts store_root
  by unfold_locales (simp add: store_step_ok)

section \<open>The checks of a registration\<close>

definition resolved_model_id :: "string option \<Rightarrow> ModelCandidate \<Rightarrow> string" where
  "resolved_model_id mid c = (case mid of Some s \<Rightarrow> py_strip s | None \<Rightarrow> derive_model_id c)"

definition display_of :: "string option \<Rightarrow> ModelCandidate \<Rightarrow> string" where
  "display_of dn c = (if str_true dn then the dn else last_segment (mc_source_path c))"

text \<open>A call reaches the copying stage exactly when all checks before it pass.\<close>

definition registrable ::
  "store_env \<Rightarrow> path \<Rightarrow> string \<Rightarrow> string option \<Rightarrow> disk \<Rightarrow> ModelRegistryManifest \<Rightarrow> ModelCandidate \<Rightarrow> bool" where
  "registrable E base cid mid d m c \<longleftrightarrow>
     dk_exists d (registry_dir base) \<and> load_manifest E base d = Some (Inr m)
   \<and> dk_exists d (candidate_path base (safe_filename cid @ ''.json''))
   \<and> (\<exists>data. Option.bind (dk_read d (candidate_path base (safe_filename cid @ ''.json''))) (sv_loads E) = Some data
        \<and> candidate_from_dict E data = Some c)
   \<and> mc_status c = ''candidate'' \<and> mc_detected_format c \<noteq> ''unknown'' \<and> valid_model_id (resolved_model_id mid c)"

lemma register_registrable:
  assumes "registrable E base cid mid d m c"
  shows "register_model_candidate E now outcome ok base cid mid dn d
       = register_resolved E now outcome ok base m c (resolved_model_id mid c) (display_of dn c) d"
proof -
  have "py_strip s \<noteq> []" if "mid = Some s" for s
    using assms that by (auto simp: registrable_def resolved_model_id_def valid_model_id_def)
  moreover have "(case dn of None \<Rightarrow> last_segment (mc_source_path c) | Some n \<Rightarrow> if n = [] then last_segment (mc_source_path c) else n)
      = display_of dn c"
    by (cases dn) (auto simp: display_of_def)
  ultimately show ?thesis
    using assms unfolding registrable_def register_model_candidate_def candidate_path_def
    by (cases mid) (auto simp: Let_def resolved_model_id_def)
qed

lemma find_snoc: "find P (xs @ [x]) = (case find P xs of None \<Rightarrow> if P x then Some x else None | Some y \<Rightarrow> Some y)"
  by (induction xs) auto

lemma not_registrable:
  assumes "\<nexists>m c. registrable E base cid mid d m c"
  shows "snd (register_model_candidate E now outcome ok base cid mid dn d) = d"
  using assms
  by (auto simp: register_model_candidate_def registrable_def candidate_path_def resolved_model_id_def Let_def
      split: option.split sum.split)

lemma updated_registrable:
  assumes "register_model_candidate E now outcome ok base cid mid dn d = (Some r, d')" "gr_manifest_updated r"
  shows "\<exists>m c. registrable E base cid mid d m c"
  using assms
  by (auto simp: register_model_candidate_def registrable_def candidate_path_def resolved_model_id_def reg_fail_def Let_def
      split: option.splits sum.splits if_split_asm)

section \<open>Properties of the store\<close>

text \<open>C29. The manifest stays consistent: on a disk where the store does not exist yet, after any sequence
  of bootstraps, inspections and registrations, failing writes and copies included, and of changes
  elsewhere on the disk, the manifest is absent or is the text of a version 1 manifest whose models
  have distinct, safe ids and whose artifacts all lie on the disk below the models directory.\<close>

theorem store_manifest_consistent:
  assumes "store_laws E" "\<And>q. prefix (store_base E store_root) q \<Longrightarrow> dget d q = None"
  shows "let d' = fold (store_step E artifacts store_root) ops d; base = store_base E store_root in
     (case dget d' (manifest_path base) of
        None \<Rightarrow> True
      | Some DIR \<Rightarrow> False
      | Some (FILE t) \<Rightarrow>
          \<exists>m rms. t = sv_dumps E (manifest_to_dict m) \<and> mm_schema_version m = 1 \<and> mm_models m = map registered_to_dict rms
           \<and> distinct (map rm_model_id rms)
           \<and> list_all (\<lambda>r. valid_model_id (rm_model_id r)
                \<and> (\<exists>rel. rm_managed_path r = path_str (''models'' # rel) \<and> dk_exists d' (base @ ''models'' # rel))) rms)"
proof -
  have "store_ok E (store_base E store_root) d"
    using assms(2) by (simp add: store_ok_def manifest_path_def registry_dir_def candidate_path_def)
  then have "store_ok E (store_base E store_root) (fold (store_step E artifacts store_root) ops d)"
    using store_ops.run_inv[where E = E and artifacts = artifacts and store_root = store_root] assms(1) by blast
  then show ?thesis
    by (fastforce simp: store_ok_def manifest_good_def model_stored_def list_all_iff Let_def split: option.splits node.splits)
qed

text \<open>Registration stays inside the store: whatever it answers, and even when it raises, it changes no
  node outside the store except that missing directories on the way to it may appear, it removes
  nothing, and it changes the manifest only when it reports a successful update.\<close>

theorem registration_confined:
  "let (res, d') = register_model_candidate E now outcome ok base cid mid dn d in
     {q. dget d' q \<noteq> dget d q} \<subseteq> {q. prefix base q} \<union> {q. prefix q base \<and> dget d q = None \<and> dget d' q = Some DIR}
   \<and> {q. dget d q \<noteq> None} \<subseteq> {q. dget d' q \<noteq> None}
   \<and> (dget d' (manifest_path base) = dget d (manifest_path base)
      \<or> (\<exists>r. res = Some r \<and> gr_manifest_updated r \<and> gr_problem r = None))"
proof -
  let ?mp = "manifest_path base"
  have mkdir: "dget d2 ?mp = dget d1 ?mp" if "dk_mkdir (base @ x # rel) d1 = Some d2" "x \<noteq> ''registry''" for x rel d1 d2
    using that by (simp add: dget_mkdir[OF that(1)] manifest_path_under)
  have sets: "dget (fold (\<lambda>(q, n). dset q n) qs d1) ?mp = dget d1 ?mp"
    if "list_all (\<lambda>(q, n). \<exists>rel. q = base @ ''models'' # rel) qs" for qs d1
    by (rule dget_sets_other) (use that in \<open>auto simp: list_all_iff manifest_path_under\<close>)
  have copied: "list_all (\<lambda>(q, n). \<exists>rel. q = base @ ''models'' # rel) (copied_nodes src (base @ ''models'' # rel) d1)" for src rel d1
    by (auto simp: copied_nodes_def list_all_iff)
  have copy: "dget d2 ?mp = dget d1 ?mp"
    if "copy_artifact outcome src (base @ ''models'' # dir) (base @ ''models'' # rel) d1 = (b, d2)" for src dir rel d1 d2 b
    using that mkdir[of "''models''" dir d1] sets[OF copied] sets[OF list_all_filter_mono[OF copied]]
    by (auto simp: copy_artifact_def split: option.splits copy_outcome.splits)
  have wm: "dget d2 ?mp = dget d1 ?mp" if "write_manifest E ok base m d1 = (None, d2)" for m d1 d2
    using that mkdir[of "''tmp''" "[]" d1] by (auto simp: write_manifest_def write_atomic_def split: option.splits if_splits)
  have "dget d2 ?mp = dget d ?mp \<or> (\<exists>r. res = Some r \<and> gr_manifest_updated r \<and> gr_problem r = None)"
    if run: "register_resolved E now outcome ok base m c i n d = (res, d2)" for m c i n res d2
  proof -
    obtain dir rel where dest: "managed_destination c i = (''models'' # dir, ''models'' # rel)"
      using managed_destination_models[of c i] by (metis prod.collapse)
    show ?thesis using run copy wm
      by (auto simp: register_resolved_def dest Let_def split: option.splits prod.splits if_splits bool.splits)
  qed
  then have "dget (snd (register_model_candidate E now outcome ok base cid mid dn d)) ?mp = dget d ?mp
      \<or> (\<exists>r. fst (register_model_candidate E now outcome ok base cid mid dn d) = Some r \<and> gr_manifest_updated r \<and> gr_problem r = None)"
    using not_registrable register_registrable by (metis prod.collapse)
  with store_change_register[of base d E now outcome ok cid mid dn] show ?thesis
    unfolding store_change_def Let_def by (auto split: prod.split)
qed

section \<open>Registering again\<close>

text \<open>What a successful registration leaves behind.\<close>

lemma register_resolved_updated:
  assumes "register_resolved E now outcome ok base m c i display d = (Some r, d')" "gr_manifest_updated r"
  shows "find_existing (mm_models m) i = Some None
     \<and> gr_registered_model r = registered_entry now c i display (snd (managed_destination c i))
     \<and> gr_managed_path r = path_str (snd (managed_destination c i)) \<and> gr_problem r = None
     \<and> dget d' (manifest_path base) = Some (FILE (sv_dumps E (manifest_to_dict
          (manifest_touch now (m\<lparr>mm_models := mm_models m @ [registered_to_dict (gr_registered_model r)]\<rparr>)))))
     \<and> (\<forall>n. dget d (candidate_path base n) \<noteq> None \<longrightarrow> dget d' (candidate_path base n) = dget d (candidate_path base n))"
proof -
  obtain dir rel where dest: "managed_destination c i = (''models'' # dir, ''models'' # rel)"
    using managed_destination_models[of c i] by (metis prod.collapse)
  have found: "find_existing (mm_models m) i = Some None"
    using assms by (auto simp: register_resolved_def dest reg_fail_def Let_def split: option.splits if_splits)
  obtain d1 where copy: "copy_artifact outcome (path_of (mc_source_path c)) (base @ ''models'' # dir) (base @ ''models'' # rel) d = (True, d1)"
    and written: "write_manifest E ok base (manifest_touch now (m\<lparr>mm_models := mm_models m
         @ [registered_to_dict (registered_entry now c i display (''models'' # rel))]\<rparr>)) d1 = (Some (), d')"
    and r: "r = \<lparr>gr_registered_model = registered_entry now c i display (''models'' # rel),
         gr_managed_path = path_str (''models'' # rel), gr_manifest_updated = True, gr_problem = None\<rparr>"
    using assms by (auto simp: register_resolved_def dest found reg_fail_def Let_def split: if_splits prod.splits bool.splits option.splits)
  have sets: "dget (fold (\<lambda>(q, n). dset q n) (copied_nodes src (base @ ''models'' # rel) d) d2) (candidate_path base n)
      = dget d2 (candidate_path base n)" for src d2 n
  proof -
    have "list_all (\<lambda>(q, x). q \<noteq> candidate_path base n) (copied_nodes src (base @ ''models'' # rel) d)"
      by (auto simp: copied_nodes_def list_all_iff candidate_path_def registry_dir_def)
    then show ?thesis by (rule dget_sets_other)
  qed
  have "dget d' (candidate_path base n) = dget d (candidate_path base n)" if "dget d (candidate_path base n) \<noteq> None" for n
  proof -
    have "dget d1 (candidate_path base n) = dget d (candidate_path base n)"
      using copy that sets by (auto simp: copy_artifact_def dget_mkdir split: option.splits copy_outcome.splits)
    then show ?thesis
      using written that
      by (auto simp: write_manifest_def write_atomic_def dict_simps dget_mkdir manifest_path_under candidate_path_def registry_dir_def
          split: option.splits if_splits)
  qed
  moreover have "dget d' (manifest_path base) = Some (FILE (sv_dumps E (manifest_to_dict (manifest_touch now (m\<lparr>mm_models := mm_models m
         @ [registered_to_dict (registered_entry now c i display (''models'' # rel))]\<rparr>)))))"
    using written by (auto simp: write_manifest_def write_atomic_def dict_simps split: option.splits if_splits)
  ultimately show ?thesis using found r dest by simp
qed

text \<open>The manifest a successful registration writes is the one the next load reads.\<close>

lemma registered_manifest_reloads:
  assumes "store_laws E" "store_ok E base d"
    and "register_model_candidate E now outcome ok base cid mid dn d = (Some r, d')" "gr_manifest_updated r"
  obtains m c where "registrable E base cid mid d m c" "load_manifest E base d = Some (Inr m)" "manifest_good base d m"
    "load_manifest E base d' =
       Some (Inr (manifest_touch now (m\<lparr>mm_models := mm_models m @ [registered_to_dict (gr_registered_model r)]\<rparr>)))"
proof -
  obtain m c where reg: "registrable E base cid mid d m c" using updated_registrable[OF assms(3,4)] by blast
  let ?m' = "manifest_touch now (m\<lparr>mm_models := mm_models m @ [registered_to_dict (gr_registered_model r)]\<rparr>)"
  note res = register_resolved_updated[OF assms(3)[unfolded register_registrable[OF reg]] assms(4)]
  have load: "load_manifest E base d = Some (Inr m)" using reg by (simp add: registrable_def)
  have good: "manifest_good base d m" by (rule load_manifest_good[OF assms(1,2) load])
  have plain: "plain_candidate c"
    using reg load_candidate_plain[OF assms(1,2)] by (auto simp: registrable_def)
  have "floats_in {} (manifest_to_dict ?m')"
    using good_floats[OF good] res plain
    by (auto simp: manifest_to_dict_def manifest_touch_def registered_to_dict_def registered_entry_def plain_candidate_def
        dest!: str_list_floats)
  then have "sv_loads E (sv_dumps E (manifest_to_dict ?m')) = Some (manifest_to_dict ?m')"
    using assms(1) by (simp add: store_laws_def)
  then have "load_manifest E base d' = Some (Inr ?m')"
    using res good by (simp add: load_manifest_def dk_exists_def dk_read_def manifest_roundtrip manifest_touch_def manifest_good_def)
  with reg load good that show thesis by blast
qed

text \<open>C40. What registration writes is read back: in a consistent store, after a successful registration the
  manifest on the disk loads to the manifest that was there before with one more model at its end,
  and reading that entry gives exactly the model the registration returned.\<close>

theorem registration_reads_back:
  assumes "store_laws E" "store_ok E base d"
    and "register_model_candidate E now outcome ok base cid mid dn d = (Some r, d')" "gr_manifest_updated r"
  shows "\<exists>m m' e. load_manifest E base d = Some (Inr m) \<and> load_manifest E base d' = Some (Inr m')
     \<and> mm_models m' = mm_models m @ [e] \<and> registered_from_dict E e = Some (gr_registered_model r)
     \<and> mm_store_root m' = mm_store_root m \<and> mm_created_at m' = mm_created_at m"
proof -
  obtain m c where "load_manifest E base d = Some (Inr m)" "load_manifest E base d' =
       Some (Inr (manifest_touch now (m\<lparr>mm_models := mm_models m @ [registered_to_dict (gr_registered_model r)]\<rparr>)))"
    using registered_manifest_reloads[OF assms] by blast
  then show ?thesis by (simp add: manifest_touch_def registered_roundtrip)
qed

text \<open>Registration is idempotent: in a consistent store, calling it again for the same candidate and
  id, whatever the clock, the file system or the display name then are, returns the model of the first
  successful call without a problem and leaves the disk as it is.\<close>

theorem registration_idempotent:
  assumes "store_laws E" "store_ok E base d"
    and "register_model_candidate E now outcome ok base cid mid dn d = (Some r, d')" "gr_manifest_updated r"
  shows "register_model_candidate E now' outcome' ok' base cid mid dn' d' = (Some (r\<lparr>gr_manifest_updated := False\<rparr>), d')"
proof -
  obtain m c where reg: "registrable E base cid mid d m c" and good: "manifest_good base d m" and load': "load_manifest E base d' =
       Some (Inr (manifest_touch now (m\<lparr>mm_models := mm_models m @ [registered_to_dict (gr_registered_model r)]\<rparr>)))"
    using registered_manifest_reloads[OF assms] by blast
  let ?i = "resolved_model_id mid c"
  let ?m' = "manifest_touch now (m\<lparr>mm_models := mm_models m @ [registered_to_dict (gr_registered_model r)]\<rparr>)"
  note run = assms(3)[unfolded register_registrable[OF reg]]
  note res = register_resolved_updated[OF run assms(4)]
  obtain rms where rms: "mm_models m = map registered_to_dict rms" using good by (auto simp: manifest_good_def)
  have kept: "dget d q \<noteq> None \<Longrightarrow> dget d' q \<noteq> None" for q
    using store_change_resolved[OF run] by (auto simp: store_change_def)
  have "dget d' (candidate_path base (safe_filename cid @ ''.json'')) = dget d (candidate_path base (safe_filename cid @ ''.json''))"
    using reg res by (simp add: registrable_def dk_exists_def)
  then have reg': "registrable E base cid mid d' ?m' c"
    using reg load' kept[of "registry_dir base"] by (auto simp: registrable_def dk_exists_def dk_read_def)
  have "find (\<lambda>r. rm_model_id r = ?i) rms = None" using res by (simp add: rms find_existing_registered)
  then have "find_existing (mm_models ?m') ?i = Some (Some (entry_fields (gr_registered_model r)))"
    using find_existing_registered[of "rms @ [gr_registered_model r]" ?i] res
    by (simp add: rms manifest_touch_def find_snoc registered_entry_def)
  moreover have "models_match (entry_fields (gr_registered_model r)) c ?i"
    using res by (simp add: models_match_def registered_fields registered_entry_def)
  moreover have "registered_from_dict E (PDict (entry_fields (gr_registered_model r))) = Some (gr_registered_model r)"
    using registered_roundtrip[of E "gr_registered_model r"] by (simp add: registered_fields)
  ultimately show ?thesis
    using res unfolding register_registrable[OF reg'] register_resolved_def
    by (auto simp: Let_def split: prod.split)
qed

section \<open>A concrete store\<close>

definition demo_dumps :: "pyval \<Rightarrow> string" where
  "demo_dumps = json_dumps plain_escape (\<lambda>_. [])"

definition demo_store_env :: store_env where
  "demo_store_env =
     \<lparr>sv_loads = (\<lambda>t. if t \<in> demo_dumps ` {v. floats_in {} v} then Some (inv_into {v. floats_in {} v} demo_dumps t) else None),
      sv_dumps = demo_dumps, sv_str = (\<lambda>_. []), sv_resolve = id, sv_sha = id\<rparr>"

lemma demo_store_laws: "store_laws demo_store_env"
proof -
  have "inj_on demo_dumps {v. floats_in {} v}"
    by (rule inj_onI) (auto simp: demo_dumps_def intro: json_dumps_inj[OF plain.escape_code_axioms, of "{}"] simp: float_texts_def)
  then show ?thesis by (simp add: store_laws_def demo_store_env_def inv_into_f_f)
qed

definition demo_store_candidate :: ModelCandidate where
  "demo_store_candidate = mk_candidate ''c'' ''candidate'' ''/a.gguf'' ''gguf'' ''unknown'' [''text''] [''found_gguf_file''] [] ''t''"

definition demo_disk :: disk where
  "demo_disk =
     [([''/'', ''s''], DIR), ([''/'', ''s'', ''registry''], DIR),
      ([''/'', ''s'', ''registry'', ''models.json''], FILE (demo_dumps (manifest_to_dict (manifest_create [''/'', ''s''] ''t'')))),
      ([''/'', ''s'', ''registry'', ''candidates''], DIR),
      ([''/'', ''s'', ''registry'', ''candidates'', ''c.json''], FILE (demo_dumps (candidate_to_dict demo_store_candidate))),
      ([''/'', ''a.gguf''], FILE ''weights'')]"

lemma demo_disk_ok: "store_ok demo_store_env [''/'', ''s''] demo_disk"
proof -
  have "manifest_good b d (manifest_create b now)" for b d now
    by (simp add: manifest_good_def manifest_create_def)
  moreover have "plain_candidate demo_store_candidate" by (simp add: demo_store_candidate_def)
  ultimately show ?thesis
    by (auto simp: store_ok_def demo_disk_def manifest_path_under candidate_path_def registry_dir_def demo_store_env_def split: if_splits)
qed

lemma demo_loads: "floats_in {} v \<Longrightarrow> sv_loads demo_store_env (demo_dumps v) = Some v"
  using demo_store_laws by (simp add: store_laws_def demo_store_env_def)

lemma demo_registrable:
  "registrable demo_store_env [''/'', ''s''] ''c'' None demo_disk (manifest_create [''/'', ''s''] ''t'') demo_store_candidate"
proof -
  have names: "safe_filename ''c'' = ''c''" "valid_model_id (derive_model_id demo_store_candidate)" by code_simp+
  have "floats_in {} (candidate_to_dict demo_store_candidate)" "floats_in {} (manifest_to_dict (manifest_create [''/'', ''s''] ''t''))"
    by (simp_all add: candidate_to_dict_def demo_store_candidate_def mk_candidate_def manifest_to_dict_def manifest_create_def)
  note loads = this[THEN demo_loads]
  show ?thesis
    unfolding registrable_def load_manifest_def candidate_path_def registry_dir_def manifest_path_def resolved_model_id_def names
    by (simp add: demo_disk_def dk_exists_def dk_read_def loads names manifest_roundtrip candidate_roundtrip)
      (simp add: manifest_create_def demo_store_candidate_def mk_candidate_def)
qed

lemma demo_registers:
  "\<exists>r d'. register_model_candidate demo_store_env ''u'' COPY_OK True [''/'', ''s''] ''c'' None None demo_disk = (Some r, d') \<and> gr_manifest_updated r"
proof -
  have dest: "managed_destination demo_store_candidate (derive_model_id demo_store_candidate)
      = ([''models'', ''gguf'', ''a''], [''models'', ''gguf'', ''a'', ''a.gguf''])" by code_simp
  have src: "path_of (mc_source_path demo_store_candidate) = [''/'', ''a.gguf'']" by code_simp
  show ?thesis
    unfolding register_registrable[OF demo_registrable] register_resolved_def resolved_model_id_def option.case dest src
    by (simp add: manifest_create_def demo_disk_def dk_exists_def copy_artifact_def dk_mkdir_def dirs_to_def upt_rec dk_is_file_def
        dk_add_dir_def copied_nodes_def write_manifest_def write_atomic_def manifest_path_under dk_is_dir_def Let_def)
qed

theorem registration_reads_back_witness:
  "\<exists>r d' m' e. register_model_candidate demo_store_env ''u'' COPY_OK True [''/'', ''s''] ''c'' None None demo_disk = (Some r, d')
     \<and> load_manifest demo_store_env [''/'', ''s''] d' = Some (Inr m') \<and> mm_models m' = [e]
     \<and> registered_from_dict demo_store_env e = Some (gr_registered_model r)"
proof -
  obtain r d' where r: "register_model_candidate demo_store_env ''u'' COPY_OK True [''/'', ''s''] ''c'' None None demo_disk = (Some r, d')"
    "gr_manifest_updated r"
    using demo_registers by blast
  have "load_manifest demo_store_env [''/'', ''s''] demo_disk = Some (Inr (manifest_create [''/'', ''s''] ''t''))"
    using demo_registrable by (simp add: registrable_def)
  with registration_reads_back[OF demo_store_laws demo_disk_ok r] r show ?thesis by (auto simp: manifest_create_def)
qed

theorem registration_idempotent_witness:
  "\<exists>r d'. gr_manifest_updated r \<and>
     register_model_candidate demo_store_env ''u'' COPY_OK True [''/'', ''s''] ''c'' None None demo_disk = (Some r, d') \<and>
     register_model_candidate demo_store_env ''v'' (COPY_FAILS (\<lambda>_. False)) False [''/'', ''s''] ''c'' None (Some ''n'') d'
       = (Some (r\<lparr>gr_manifest_updated := False\<rparr>), d')"
proof -
  obtain r d' where r: "register_model_candidate demo_store_env ''u'' COPY_OK True [''/'', ''s''] ''c'' None None demo_disk = (Some r, d')"
    "gr_manifest_updated r"
    using demo_registers by blast
  from registration_idempotent[OF demo_store_laws demo_disk_ok this] r show ?thesis by blast
qed

theorem store_manifest_consistent_witness:
  "let d' = fold (store_step demo_store_env VLM_ARTIFACT_NAMES ''/s'')
       [OP_BOOTSTRAP ''t'' True, OP_USER [''/'', ''a.gguf''] (FILE ''w''), OP_INSPECT ''t'' True ''/a.gguf'',
        OP_REGISTER ''u'' COPY_OK True ''c'' None None] [];
       base = store_base demo_store_env ''/s'' in
     (case dget d' (manifest_path base) of
        None \<Rightarrow> True
      | Some DIR \<Rightarrow> False
      | Some (FILE t) \<Rightarrow>
          \<exists>m rms. t = demo_dumps (manifest_to_dict m) \<and> mm_schema_version m = 1 \<and> mm_models m = map registered_to_dict rms
           \<and> distinct (map rm_model_id rms)
           \<and> list_all (\<lambda>r. valid_model_id (rm_model_id r)
                \<and> (\<exists>rel. rm_managed_path r = path_str (''models'' # rel) \<and> dk_exists d' (base @ ''models'' # rel))) rms)"
proof -
  have dumps: "sv_dumps demo_store_env = demo_dumps" by (simp add: demo_store_env_def)
  show ?thesis
    unfolding dumps[symmetric] by (rule store_manifest_consistent[OF demo_store_laws]) simp
qed

section \<open>Vision needs evidence\<close>

lemma vision_architecture_evidence:
  "vision_architecture E False archs = Some ev \<Longrightarrow> has_explicit_vision_evidence ev"
  by (induction archs)
    (auto simp: Let_def VLM_ARCHITECTURES_def has_explicit_vision_evidence_def EXPLICIT_VISION_EVIDENCE_def split: if_splits)

text \<open>
  The detection only claims vision with explicit evidence, so the normalization after it, which would
  strip an unfounded claim, never changes anything.
\<close>

lemma modalities_need_no_normalization:
  assumes "detect_modalities E artifacts d dir config evidence = Some (ms, ev)" "set artifacts \<subseteq> set VLM_ARTIFACT_NAMES"
  shows "normalize_modalities ms ev = ms"
proof -
  have more: "has_explicit_vision_evidence (xs @ ys)" if "has_explicit_vision_evidence ys" for xs ys
    using that by (auto simp: has_explicit_vision_evidence_def list_ex_iff)
  have types: "has_explicit_vision_evidence [''model_type_'' @ dashes_to_underscores t]" if "t \<in> set VLM_MODEL_TYPES" for t
    using that by (auto simp: VLM_MODEL_TYPES_def has_explicit_vision_evidence_def EXPLICIT_VISION_EVIDENCE_def dashes_to_underscores_def)
  have found: "has_explicit_vision_evidence [''found_'' @ a]" if "a \<in> set artifacts" for a
    using that assms(2) by (auto simp: VLM_ARTIFACT_NAMES_def has_explicit_vision_evidence_def EXPLICIT_VISION_EVIDENCE_def)
  have config: "has_explicit_vision_evidence (''found_vision_config'' # xs)" for xs
    by (simp add: has_explicit_vision_evidence_def EXPLICIT_VISION_EVIDENCE_def)
  have "ms = [''text''] \<or> ms = [''text'', ''vision''] \<and> has_explicit_vision_evidence ev"
    using assms(1) more[OF types] more[OF found] more[OF config] more[OF vision_architecture_evidence]
    by (auto simp: detect_modalities_def Let_def find_Some_iff split: if_split_asm option.splits)
  then show ?thesis by (auto simp: normalize_modalities_def)
qed

section \<open>What the checks let through\<close>

text \<open>The containment check compares texts, so a sibling directory whose name extends the store's passes.\<close>

lemma sibling_directory_passes:
  assumes "base \<noteq> []"
  shows "startswith (path_str (base @ [n @ m])) (path_str (base @ [n]))"
proof -
  have join: "py_join sep (xs @ [n @ m]) = py_join sep (xs @ [n]) @ m" for sep xs
    by (induction xs rule: py_join.induct[of _ sep]) auto
  obtain c cs where "base = c # cs" using assms by (cases base) auto
  then show ?thesis using join[of "''/''" cs] join[of "''/''" base] by (auto simp: path_str_def startswith_prefix)
qed

text \<open>A copy that fails half way blocks the id for good.\<close>

lemma failed_copy_blocks:
  assumes "managed_destination c i = (dir, rel)" "dk_exists d (base @ rel)" "find_existing (mm_models m) i = Some None"
    "dk_exists d (path_of (mc_source_path c))"
  shows "register_resolved E now outcome ok base m c i display d = (Some (reg_fail i ''managed_destination_exists''), d)"
  using assms by (simp add: register_resolved_def)

text \<open>Two ids that agree on their first 64 characters share a destination.\<close>

lemma long_ids_share_destination:
  "length (filter (\<lambda>c. py_isalnum c \<or> c \<in> set ''_-.'') p) = 64 \<Longrightarrow> managed_destination c (p @ x) = managed_destination c (p @ y)"
  by (simp add: managed_destination_def safe_filename_def)

text \<open>A config whose architectures are null makes the inspection raise.\<close>

lemma null_architectures_raise:
  assumes "dget config ''architectures'' = Some PNone" "dget config ''model_type'' = None"
  shows "detect_family_from_config E config = None"
  using assms by (simp add: detect_family_from_config_def dget_or_def py_str_def family_in_def py_lower_def)

end
