(* ===== verification/Log_Safety.thy ===== *)
theory Log_Safety
  imports Routing
begin

text \<open>
  \<open>whooshd/log_safety.py\<close>: the boundary through which every log record passes. A record's arguments
  are matched with the field names that precede their placeholders; values of fields that are not
  known to be safe are replaced by their size, free text by its length unless it is a plain event
  name, and exceptions by their type and a failure class.

  A logged value is a Python value, an exception (its type name and text), a byte string
  or another object (its \<open>str()\<close>). \<open>str()\<close> of the other values, and \<open>urlsplit\<close>, which the code uses
  to take a URL apart, are parameters. The regular expressions are written out as the matchers they
  are; none of them needs more backtracking than the functions below do. Installing the factory and
  the filters in the \<open>logging\<close> module is not modelled, the order in which they run is.
\<close>

section \<open>Values\<close>

datatype logval = LPy pyval | LExc string string | LBytes string | LOther string

record url_parts =
  up_scheme :: string
  up_hostname :: string
  up_port :: "int option"
  up_path :: string

text \<open>\<open>urlsplit\<close> and its \<open>port\<close> raise \<open>ValueError\<close> on some texts: \<open>None\<close>.\<close>

record log_env =
  le_str :: "logval \<Rightarrow> string"
  le_urlsplit :: "string \<Rightarrow> url_parts option"

definition log_str :: "log_env \<Rightarrow> logval \<Rightarrow> string" where
  "log_str L v = (case v of LPy (PStr s) \<Rightarrow> s | LExc _ t \<Rightarrow> t | LOther t \<Rightarrow> t | _ \<Rightarrow> le_str L v)"

abbreviation log_text :: "string \<Rightarrow> logval" where
  "log_text s \<equiv> LPy (PStr s)"

definition SAFE_FIELDS :: "string list" where
  "SAFE_FIELDS =
     [''active_jobs'', ''adapter'', ''adapter_type'', ''adapter_kind'', ''actual_request_id'', ''backend'',
      ''binary_path_present'', ''body_bytes'', ''body_present'', ''cache_key'', ''cache_scope'', ''chain_hash'', ''bytes'',
      ''content_type'', ''duration_ms'', ''dynamic_tokens'', ''eligible'', ''endpoint_kind'', ''expected_request_id'',
      ''exception_type'', ''error_code'', ''event'', ''failure_class'', ''failure_kind'', ''forwarded_field_names'',
      ''frame_bytes'', ''frame_count'', ''host'', ''http_status'', ''item_count'', ''kind'', ''lifecycle'', ''mode'',
      ''model'', ''model_alias'', ''model_id'', ''model_path_present'', ''output_begun'', ''output_started'',
      ''prev_segments'', ''new_segments'', ''parser_failure_class'', ''pid'', ''port'', ''queue_depth'', ''request_id'',
      ''request_count'', ''policy_version'', ''rejected_field_names'', ''runtime'', ''runtime_kind'', ''reason'', ''scope'',
      ''status'', ''status_code'', ''stripped_field_names'', ''timeout_class'', ''timeout_seconds'', ''token_count'',
      ''transport'', ''transport_class'', ''stable_prefix_hash'', ''stable_prefix_tokens'',
      ''estimated_prefill_reuse_tokens'', ''appended_tokens'', ''thread'', ''thread_id'', ''task_id'', ''turn_id'',
      ''diagnostic'', ''type'', ''name'']"

definition URL_FIELDS :: "string list" where
  "URL_FIELDS = [''url'', ''endpoint'', ''server_url'', ''base_url'']"

text \<open>\<open>_UNSAFE_FIELD_RE\<close>, searched in a lower-case name.\<close>

definition UNSAFE_WORDS :: "string list" where
  "UNSAFE_WORDS =
     [''prompt'', ''message'', ''content'', ''completion'', ''response'', ''request'', ''body'', ''payload'', ''output'',
      ''generated'', ''assistant'', ''text'', ''media'', ''image'', ''base64'', ''stream'', ''frame'', ''line'', ''token'',
      ''cookie'', ''authorization'', ''bearer'', ''apikey'', ''api_key'', ''api-key'', ''secret'', ''password'', ''header'',
      ''tool'', ''argument'', ''args'', ''result'', ''stderr'', ''stdout'', ''exception'', ''error'', ''detail'', ''path'',
      ''cwd'', ''argv'', ''command'', ''url'', ''query'']"

definition unsafe_field :: "string \<Rightarrow> bool" where
  "unsafe_field name = list_ex (py_contains (py_lower name)) UNSAFE_WORDS"

section \<open>Exceptions\<close>

definition failure_class :: "(string \<times> string) option \<Rightarrow> string" where
  "failure_class e =
     (case e of
        None \<Rightarrow> ''unknown''
      | Some (type_name, txt) \<Rightarrow>
          let name = py_lower type_name; t = py_lower txt in
          if py_contains name ''timeout'' \<or> py_contains t ''timeout'' then ''timeout''
          else if py_contains name ''connect'' \<or> py_contains t ''connection'' then ''connection''
          else if py_contains name ''json'' \<or> py_contains name ''parse'' \<or> py_contains t ''decode'' then ''parse''
          else if py_contains name ''permission'' \<or> py_contains name ''auth'' then ''authorization''
          else if py_contains name ''validation'' \<or> py_contains name ''value'' then ''validation''
          else if py_contains name ''http'' \<or> py_contains name ''status'' then ''http''
          else ''runtime'')"

definition exception_metadata :: "(string \<times> string) option \<Rightarrow> string" where
  "exception_metadata e =
     (case e of
        None \<Rightarrow> ''exception_type=unknown failure_class=unknown''
      | Some (type_name, txt) \<Rightarrow> ''exception_type='' @ take 80 type_name @ '' failure_class='' @ failure_class e)"

definition safe_exception_message :: "(string \<times> string) option \<Rightarrow> string \<Rightarrow> string" where
  "safe_exception_message e default_text =
     (case e of None \<Rightarrow> default_text | Some (type_name, txt) \<Rightarrow> type_name @ '' failure ('' @ failure_class e @ '')'')"

section \<open>Summaries and single values\<close>

definition url_path_char :: "char \<Rightarrow> bool" where
  "url_path_char c = (is_alnum c \<or> c \<in> set ''/._~-'')"

definition safe_url :: "log_env \<Rightarrow> string \<Rightarrow> string" where
  "safe_url L value =
     (case le_urlsplit L value of
        None \<Rightarrow> REDACTED
      | Some p \<Rightarrow>
          if up_scheme p = [] \<or> up_hostname p = [] then REDACTED
          else
            let port = (case up_port p of None \<Rightarrow> [] | Some n \<Rightarrow> CHR '':'' # py_str_int n);
                path = (if 128 < length (up_path p) \<or> \<not> list_all url_path_char (up_path p) then [] else up_path p);
                path = (if path \<noteq> [] \<and> \<not> startswith path ''/'' then CHR ''/'' # path else path) in
            take 256 (up_scheme p @ ''://'' @ up_hostname p @ port @ path))"

definition looks_like_private_path :: "string \<Rightarrow> bool" where
  "looks_like_private_path v =
     (startswith_any v [''/'', ''~/'', ''./'', ''../''] \<or> CHR ''/'' \<in> set v \<or> windows_path v)"

definition sized :: "string \<Rightarrow> nat \<Rightarrow> string" where
  "sized unit_name n = REDACTED @ '' '' @ unit_name @ ''='' @ show_nat n"

definition log_summary :: "logval \<Rightarrow> string" where
  "log_summary v =
     (case v of
        LBytes b \<Rightarrow> sized ''bytes'' (length b)
      | LPy (PStr s) \<Rightarrow> sized ''chars'' (length s)
      | LPy (PDict d) \<Rightarrow> sized ''items'' (length d)
      | LPy (PList xs) \<Rightarrow> sized ''items'' (length xs)
      | _ \<Rightarrow> REDACTED)"

text \<open>\<open>_SAFE_DIAGNOSTIC_RE\<close> and \<open>_FIELD_NAMES_VALUE_RE\<close>, both matched in full.\<close>

definition name_char :: "char \<Rightarrow> bool" where
  "name_char c = (is_alnum c \<or> c \<in> set ''_.-'')"

definition safe_diagnostic :: "string \<Rightarrow> bool" where
  "safe_diagnostic s =
     (startswith s ''exception_type='' \<and>
      (let rest = drop (length ''exception_type='') s; name = takeWhile name_char rest; after = dropWhile name_char rest in
       class_match name_char 1 80 name \<and> startswith after '' failure_class=''
       \<and> class_match (\<lambda>c. is_lower c \<or> c = CHR ''_'') 1 40 (drop (length '' failure_class='') after)))"

fun split_commas :: "string \<Rightarrow> string list" where
  "split_commas [] = [[]]"
| "split_commas (c # cs) =
     (if c = CHR '','' then [] # split_commas cs
      else case split_commas cs of [] \<Rightarrow> [[c]] | p # ps \<Rightarrow> (c # p) # ps)"

definition field_names_value :: "string \<Rightarrow> bool" where
  "field_names_value s =
     list_all (\<lambda>p. p \<noteq> [] \<and> is_alpha (hd p) \<and> list_all name_char (tl p)) (split_commas s)"

definition one_line :: "string \<Rightarrow> string" where
  "one_line s = map (\<lambda>c. if c = CHR 0x0A \<or> c = CHR 0x0D then CHR '' '' else c) s"

definition sanitize_safe_text :: "string \<Rightarrow> string \<Rightarrow> string" where
  "sanitize_safe_text field s =
     (if field = ''diagnostic'' \<and> \<not> safe_diagnostic s then log_summary (log_text s)
      else if field \<in> {''forwarded_field_names'', ''rejected_field_names'', ''stripped_field_names''} then
        (if s = [] then []
         else if \<not> field_names_value s then log_summary (log_text s)
         else take 256 (py_join '','' (take 32 (split_commas s))))
      else if field \<in> {''model'', ''model_id'', ''model_alias''} then safe_model_alias s
      else if looks_like_private_path s then REDACTED @ '' path_present=True''
      else take 160 (one_line s))"

definition items_dict :: "nat \<Rightarrow> logval" where
  "items_dict n = LPy (PDict [(''items'', PInt (int n))])"

definition sanitize_value :: "log_env \<Rightarrow> logval \<Rightarrow> string option \<Rightarrow> logval" where
  "sanitize_value L v field =
     (let normalized = (if str_true field then Some (py_lower (the field)) else None) in
      case v of
        LExc type_name txt \<Rightarrow> log_text (exception_metadata (Some (type_name, txt)))
      | _ \<Rightarrow>
          (case normalized of
             Some f \<Rightarrow>
               if f \<in> set URL_FIELDS then log_text (safe_url L (log_str L v))
               else if f \<in> set SAFE_FIELDS then
                 (case v of
                    LPy PNone \<Rightarrow> v | LPy (PBool _) \<Rightarrow> v | LPy (PInt _) \<Rightarrow> v | LPy (PFloat _) \<Rightarrow> v
                  | LPy (PStr s) \<Rightarrow> log_text (sanitize_safe_text f s)
                  | LPy (PDict d) \<Rightarrow> items_dict (length d)
                  | LPy (PList xs) \<Rightarrow> items_dict (length xs)
                  | _ \<Rightarrow> log_text (take 80 (log_str L v)))
               else if unsafe_field f then log_text (log_summary v)
               else (case v of LPy (PStr _) \<Rightarrow> log_text (log_summary v) | LBytes _ \<Rightarrow> log_text (log_summary v)
                     | LPy (PDict _) \<Rightarrow> log_text (log_summary v) | LPy (PList _) \<Rightarrow> log_text (log_summary v) | _ \<Rightarrow> v)
           | None \<Rightarrow>
               (case v of LPy (PStr _) \<Rightarrow> log_text (log_summary v) | LBytes _ \<Rightarrow> log_text (log_summary v)
                | LPy (PDict _) \<Rightarrow> log_text (log_summary v) | LPy (PList _) \<Rightarrow> log_text (log_summary v) | _ \<Rightarrow> v)))"

section \<open>Placeholders\<close>

text \<open>
  \<open>_PLACEHOLDER_RE\<close> at the start of a text: the length of the placeholder. Every part is taken as far
  as it goes; taking less never helps, since what follows could not match.
\<close>

definition drop_one :: "(char \<Rightarrow> bool) \<Rightarrow> string \<Rightarrow> string" where
  "drop_one p s = (case s of c # cs \<Rightarrow> if p c then cs else s | [] \<Rightarrow> [])"

definition placeholder_at :: "string \<Rightarrow> nat option" where
  "placeholder_at s =
     (case s of
        c # s1 \<Rightarrow>
          if c \<noteq> CHR ''%'' then None
          else
            let inner = takeWhile (\<lambda>c. c \<noteq> CHR '')'') (tl s1); rest = dropWhile (\<lambda>c. c \<noteq> CHR '')'') (tl s1);
                s2 = (if s1 \<noteq> [] \<and> hd s1 = CHR ''('' \<and> inner \<noteq> [] \<and> rest \<noteq> [] then tl rest else s1);
                s3 = dropWhile is_digit (drop_one (\<lambda>c. c \<in> set ''#0- +'') s2);
                s4 = (case s3 of d # e # t \<Rightarrow> if d = CHR ''.'' \<and> is_digit e then dropWhile is_digit t else s3 | _ \<Rightarrow> s3) in
            (case s4 of
               k # t \<Rightarrow> if k \<in> set ''diouxXeEfFgGcrsa%'' then Some (length s - length t) else None
             | [] \<Rightarrow> None)
      | [] \<Rightarrow> None)"

text \<open>\<open>finditer\<close>: the text before each placeholder with the placeholder, and the text after the last.\<close>

fun placeholders :: "nat \<Rightarrow> string \<Rightarrow> string \<Rightarrow> (string \<times> string) list \<times> string" where
  "placeholders 0 before s = ([], before @ s)"
| "placeholders (Suc n) before [] = ([], before)"
| "placeholders (Suc n) before (c # cs) =
     (case placeholder_at (c # cs) of
        Some k \<Rightarrow> (case placeholders n [] (drop k (c # cs)) of (ps, rest) \<Rightarrow> ((before, take k (c # cs)) # ps, rest))
      | None \<Rightarrow> placeholders n (before @ [c]) cs)"

definition find_placeholders :: "string \<Rightarrow> (string \<times> string) list \<times> string" where
  "find_placeholders template = placeholders (Suc (length template)) [] template"

text \<open>\<open>_FIELD_RE\<close> searched in the text before a placeholder: the name in front of the last \<open>=\<close> or \<open>:\<close>.\<close>

definition field_before :: "string \<Rightarrow> string option" where
  "field_before prefix_text =
     (case dropWhile py_is_space (rev prefix_text) of
        c # r \<Rightarrow>
          if c = CHR ''='' \<or> c = CHR '':'' then
            (let name = dropWhile (\<lambda>c. \<not> is_alpha c) (rev (takeWhile name_char (dropWhile py_is_space r))) in
             if name = [] then None else Some (py_lower name))
          else None
      | [] \<Rightarrow> None)"

definition placeholder_fields :: "string \<Rightarrow> string option list" where
  "placeholder_fields template = map (field_before \<circ> fst) (fst (find_placeholders template))"

section \<open>Free text\<close>

text \<open>
  \<open>re.sub\<close>: \<open>m prev s\<close> is the replacement and the length of a match at the start of \<open>s\<close> behind the
  character \<open>prev\<close>; every match here is at least one character long.
\<close>

fun re_sub :: "(char option \<Rightarrow> string \<Rightarrow> (string \<times> nat) option) \<Rightarrow> nat \<Rightarrow> char option \<Rightarrow> string \<Rightarrow> string" where
  "re_sub m 0 prev s = s"
| "re_sub m (Suc n) prev [] = []"
| "re_sub m (Suc n) prev (c # cs) =
     (case m prev (c # cs) of
        Some (new_text, k) \<Rightarrow> new_text @ re_sub m n (Some (last (take k (c # cs)))) (drop k (c # cs))
      | None \<Rightarrow> c # re_sub m n (Some c) cs)"

definition word_boundary :: "char option \<Rightarrow> bool" where
  "word_boundary prev = (case prev of None \<Rightarrow> True | Some c \<Rightarrow> \<not> (py_isalnum c \<or> c = CHR ''_''))"

text \<open>A word without regard to case, then optional space; the rest, if it matches.\<close>

definition skip_word :: "string \<Rightarrow> string \<Rightarrow> string option" where
  "skip_word w s = (if startswith (py_lower s) w then Some (drop (length w) s) else None)"

definition skip_space :: "string \<Rightarrow> string" where
  "skip_space s = dropWhile py_is_space s"

definition value_char :: "char \<Rightarrow> bool" where
  "value_char c = (\<not> py_is_space c \<and> c \<noteq> CHR '','' \<and> c \<noteq> CHR '';'')"

text \<open>Replaces the value at \<open>rest\<close>, a tail of \<open>s\<close>, and keeps what comes before it.\<close>

definition redact_value :: "(char \<Rightarrow> bool) \<Rightarrow> string \<Rightarrow> string \<Rightarrow> (string \<times> nat) option" where
  "redact_value p s rest =
     (let v = takeWhile p rest in
      if v = [] then None
      else Some (take (length s - length rest) s @ REDACTED, length s - length rest + length v))"

definition auth_match :: "char option \<Rightarrow> string \<Rightarrow> (string \<times> nat) option" where
  "auth_match prev s =
     (let spaced = (\<lambda>t. if t \<noteq> [] \<and> py_is_space (hd t) then redact_value value_char s (skip_space t) else None);
          scheme = (\<lambda>t. case skip_word ''bearer'' t of Some r \<Rightarrow> Some r | None \<Rightarrow> skip_word ''basic'' t) in
      if \<not> word_boundary prev then None
      else
        case Option.bind (skip_word ''authorization'' s) (\<lambda>t. case skip_space t of
               c # r \<Rightarrow> if c = CHR '':'' then Option.bind (scheme (skip_space r)) spaced else None | [] \<Rightarrow> None) of
          Some res \<Rightarrow> Some res
        | None \<Rightarrow> Option.bind (skip_word ''bearer'' s) spaced)"

text \<open>
  The value of a cookie is the rest of the line. When only white space follows the colon, the
  optional space gives back its last character that is not a line end.
\<close>

definition cookie_match :: "char option \<Rightarrow> string \<Rightarrow> (string \<times> nat) option" where
  "cookie_match prev s =
     (let in_line = (\<lambda>c. c \<noteq> CHR 0x0A \<and> c \<noteq> CHR 0x0D) in
      if \<not> word_boundary prev then None
      else
        case skip_word ''cookie'' s of
          None \<Rightarrow> None
        | Some t \<Rightarrow>
            (case skip_space t of
               c # r \<Rightarrow>
                 if c \<noteq> CHR '':'' then None
                 else if skip_space r \<noteq> [] then redact_value in_line s (skip_space r)
                 else
                   (let ends = takeWhile (\<lambda>c. \<not> in_line c) (rev r) in
                    if length ends = length r then None
                    else redact_value in_line s (drop (length r - Suc (length ends)) r))
             | [] \<Rightarrow> None))"

definition QUERY_KEYS :: "string list" where
  "QUERY_KEYS = [''apikey'', ''api_key'', ''api-key'', ''token'', ''secret'', ''code'', ''auth'', ''signature'', ''session'']"

definition query_match :: "char option \<Rightarrow> string \<Rightarrow> (string \<times> nat) option" where
  "query_match prev s =
     (case s of
        c # t \<Rightarrow>
          if c \<noteq> CHR ''?'' \<and> c \<noteq> CHR ''&'' then None
          else
            (case find (\<lambda>k. startswith (py_lower t) (k @ ''='')) QUERY_KEYS of
               None \<Rightarrow> None
             | Some k \<Rightarrow>
                 (let v = takeWhile (\<lambda>c. \<not> py_is_space c \<and> c \<noteq> CHR ''&'' \<and> c \<noteq> CHR ''#'') (drop (Suc (length k)) t) in
                  if v = [] then None else Some (''<redacted-query>'', length k + 2 + length v)))
      | [] \<Rightarrow> None)"

definition SECRET_KEYS :: "string list" where
  "SECRET_KEYS =
     [''apikey'', ''api_key'', ''api-key'', ''accesstoken'', ''access_token'', ''access-token'', ''refreshtoken'', ''refresh_token'',
      ''refresh-token'', ''sessionsecret'', ''session_secret'', ''session-secret'', ''password'', ''clientsecret'', ''client_secret'',
      ''client-secret'']"

definition secret_match :: "char option \<Rightarrow> string \<Rightarrow> (string \<times> nat) option" where
  "secret_match prev s =
     (if \<not> word_boundary prev then None
      else
        case find (startswith (py_lower s)) SECRET_KEYS of
          None \<Rightarrow> None
        | Some k \<Rightarrow>
            (case skip_space (drop (length k) s) of
               c # r \<Rightarrow> if c = CHR ''='' \<or> c = CHR '':'' then redact_value value_char s (skip_space r) else None
             | [] \<Rightarrow> None))"

definition substitute :: "(char option \<Rightarrow> string \<Rightarrow> (string \<times> nat) option) \<Rightarrow> string \<Rightarrow> string" where
  "substitute m s = re_sub m (Suc (length s)) None s"

definition sanitize_log_text :: "string \<Rightarrow> string" where
  "sanitize_log_text s = substitute secret_match (substitute query_match (substitute cookie_match (substitute auth_match s)))"

definition FREEFORM_MARKERS :: "string list" where
  "FREEFORM_MARKERS =
     [''prompt'', ''message'', ''content'', ''completion'', ''response'', ''payload'', ''output'', ''generated'', ''assistant'',
      ''media'', ''tool'', ''image'', ''base64'', ''stderr'', ''stdout'', ''raw'']"

definition event_char :: "char \<Rightarrow> bool" where
  "event_char c = (is_alnum c \<or> c \<in> set ''_.:-'')"

definition EVENT_STATES :: "string list" where
  "EVENT_STATES = [''started'', ''stopped'', ''failed'', ''ready'', ''available'', ''disabled'', ''enabled'', ''cancelled'']"

text \<open>\<open>[component] state\<close>.\<close>

definition bracketed_event :: "string \<Rightarrow> bool" where
  "bracketed_event s =
     (case s of
        c # t \<Rightarrow>
          c = CHR ''['' \<and> takeWhile event_char t \<noteq> [] \<and>
          (case dropWhile event_char t of
             e # r \<Rightarrow> e = CHR '']'' \<and> r \<noteq> [] \<and> py_is_space (hd r) \<and> py_lower (skip_space r) \<in> set EVENT_STATES
           | [] \<Rightarrow> False)
      | [] \<Rightarrow> False)"

definition redacted_event :: "nat \<Rightarrow> string" where
  "redacted_event n = ''log_event='' @ sized ''chars'' n"

definition sanitize_freeform :: "logval \<Rightarrow> string" where
  "sanitize_freeform message =
     (case message of
        LPy (PStr s) \<Rightarrow>
          (let scrubbed = sanitize_log_text s; lowered = py_lower scrubbed in
           if 200 < length scrubbed \<or> list_ex (py_contains lowered) FREEFORM_MARKERS then redacted_event (length s)
           else if scrubbed \<noteq> [] \<and> list_all event_char scrubbed \<or> bracketed_event scrubbed then scrubbed
           else redacted_event (length s))
      | _ \<Rightarrow> log_summary message)"

definition sanitize_format_template :: "string \<Rightarrow> string" where
  "sanitize_format_template message =
     (case find_placeholders message of
        ([], _) \<Rightarrow> sanitize_freeform (log_text message)
      | (ps, rest) \<Rightarrow>
          concat (map (\<lambda>(before, ph). sanitize_freeform (log_text before) @ ph) ps) @ sanitize_freeform (log_text rest))"

section \<open>Records\<close>

datatype log_args = NO_ARGS | MAPPING_ARGS "(string, logval) dict" | TUPLE_ARGS "logval list"

text \<open>
  The fields the boundary touches. \<open>rec_exc_info\<close> is \<open>None\<close> without exception information and otherwise
  the exception, if there is one; \<open>rec_extra\<close> are the attributes beyond the standard ones.
\<close>

record LogRecord =
  rec_msg :: logval
  rec_args :: log_args
  rec_exc_info :: "(string \<times> string) option option"
  rec_has_stack :: bool
  rec_extra :: "(string, logval) dict"
  rec_sanitized :: bool

definition sanitize_args :: "log_env \<Rightarrow> LogRecord \<Rightarrow> LogRecord" where
  "sanitize_args L r =
     (case rec_args r of
        MAPPING_ARGS d \<Rightarrow> r\<lparr>rec_args := MAPPING_ARGS (map (\<lambda>(k, v). (k, sanitize_value L v (Some k))) d)\<rparr>
      | TUPLE_ARGS (v # vs) \<Rightarrow>
          (let fields = placeholder_fields (log_str L (rec_msg r)); args = v # vs in
           r\<lparr>rec_args := TUPLE_ARGS (map (\<lambda>i. sanitize_value L (args ! i) (if i < length fields then fields ! i else None))
                                       [0..<length args])\<rparr>)
      | _ \<Rightarrow> r\<lparr>rec_msg := log_text (sanitize_freeform (rec_msg r))\<rparr>)"

definition sanitize_exc :: "log_env \<Rightarrow> LogRecord \<Rightarrow> LogRecord" where
  "sanitize_exc L r =
     (case rec_exc_info r of
        None \<Rightarrow> r
      | Some e \<Rightarrow> r\<lparr>rec_msg := log_text (log_str L (rec_msg r) @ '' '' @ exception_metadata e), rec_args := NO_ARGS,
                    rec_exc_info := None, rec_has_stack := False\<rparr>)"

definition sanitize_extra :: "log_env \<Rightarrow> string \<Rightarrow> logval \<Rightarrow> logval" where
  "sanitize_extra L key v =
     (if startswith key ''_'' then v
      else case v of
        LPy (PStr s) \<Rightarrow> if key = ''color_message'' then log_text (sanitize_format_template s) else sanitize_value L v (Some key)
      | _ \<Rightarrow> sanitize_value L v (Some key))"

definition sanitize_record :: "log_env \<Rightarrow> bool \<Rightarrow> LogRecord \<Rightarrow> LogRecord" where
  "sanitize_record L force r =
     (if rec_sanitized r \<and> \<not> force then r
      else
        let r = sanitize_exc L (sanitize_args L r) in
        r\<lparr>rec_extra := map (\<lambda>(k, v). (k, sanitize_extra L k v)) (rec_extra r), rec_sanitized := True\<rparr>)"

text \<open>
  The way of a record: the record factory, then \<open>Logger.makeRecord\<close>, which calls the factory and then
  sets the extra fields and sanitizes again, then the filter of each handler.
\<close>

definition record_factory :: "log_env \<Rightarrow> LogRecord \<Rightarrow> LogRecord" where
  "record_factory L r = sanitize_record L False r"

definition make_record :: "log_env \<Rightarrow> LogRecord \<Rightarrow> (string, logval) dict \<Rightarrow> LogRecord" where
  "make_record L r extra = sanitize_record L True ((record_factory L r)\<lparr>rec_extra := rec_extra (record_factory L r) @ extra\<rparr>)"

definition SafeLogFilter_filter :: "log_env \<Rightarrow> LogRecord \<Rightarrow> LogRecord" where
  "SafeLogFilter_filter L r = sanitize_record L True r"

section \<open>What a log line may depend on\<close>

text \<open>A field whose values are never shown: no name, or one that is neither safe nor a URL.\<close>

definition guarded_field :: "string option \<Rightarrow> bool" where
  "guarded_field field \<longleftrightarrow>
     \<not> str_true field \<or> py_lower (the field) \<notin> set URL_FIELDS \<and> py_lower (the field) \<notin> set SAFE_FIELDS"

text \<open>Two values of the same kind and size.\<close>

fun same_size :: "logval \<Rightarrow> logval \<Rightarrow> bool" where
  "same_size (LPy (PStr s)) (LPy (PStr t)) = (length s = length t)"
| "same_size (LPy (PList xs)) (LPy (PList ys)) = (length xs = length ys)"
| "same_size (LPy (PDict d)) (LPy (PDict e)) = (length d = length e)"
| "same_size (LBytes a) (LBytes b) = (length a = length b)"
| "same_size (LExc n s) (LExc m t) = (n = m \<and> failure_class (Some (n, s)) = failure_class (Some (n, t)))"
| "same_size v w = (v = w)"

definition hidden_eq :: "string option \<Rightarrow> logval \<Rightarrow> logval \<Rightarrow> bool" where
  "hidden_eq field v w \<longleftrightarrow> v = w \<or> guarded_field field \<and> same_size v w"

lemma same_size_sanitized:
  assumes "guarded_field field" "same_size v w"
  shows "sanitize_value L v field = sanitize_value L w field"
  using assms(2)
  by (cases "(v, w)" rule: same_size.cases)
    (use assms(1) in \<open>auto simp: sanitize_value_def guarded_field_def log_summary_def exception_metadata_def Let_def split: option.splits\<close>)

lemma hidden_eq_sanitized: "hidden_eq field v w \<Longrightarrow> sanitize_value L v field = sanitize_value L w field"
  using same_size_sanitized by (auto simp: hidden_eq_def)

text \<open>Free text that passes the boundary as it is: a plain event.\<close>

definition plain_event :: "string \<Rightarrow> bool" where
  "plain_event s \<longleftrightarrow>
     (let scrubbed = sanitize_log_text s in
      length scrubbed \<le> 200 \<and> \<not> list_ex (py_contains (py_lower scrubbed)) FREEFORM_MARKERS
    \<and> (scrubbed \<noteq> [] \<and> list_all event_char scrubbed \<or> bracketed_event scrubbed))"

definition hidden_msg :: "logval \<Rightarrow> logval \<Rightarrow> bool" where
  "hidden_msg v w \<longleftrightarrow> v = w \<or>
     (\<exists>s t. v = log_text s \<and> w = log_text t \<and> length s = length t \<and> \<not> plain_event s \<and> \<not> plain_event t)"

lemma hidden_msg_sanitized: "hidden_msg v w \<Longrightarrow> sanitize_freeform v = sanitize_freeform w"
  by (auto simp: hidden_msg_def sanitize_freeform_def plain_event_def Let_def)

definition hidden_exc :: "(string \<times> string) option option \<Rightarrow> (string \<times> string) option option \<Rightarrow> bool" where
  "hidden_exc e e' \<longleftrightarrow> e = e' \<or>
     (\<exists>n s t. e = Some (Some (n, s)) \<and> e' = Some (Some (n, t)) \<and> failure_class (Some (n, s)) = failure_class (Some (n, t)))"

lemma hidden_exc_metadata: "hidden_exc (Some e) (Some e') \<Longrightarrow> exception_metadata e = exception_metadata e'"
  by (auto simp: hidden_exc_def exception_metadata_def)

definition hidden_extra :: "(string, logval) dict \<Rightarrow> (string, logval) dict \<Rightarrow> bool" where
  "hidden_extra d e \<longleftrightarrow>
     list_all2 (\<lambda>(k, v) (k', w). k = k' \<and> (v = w \<or> \<not> startswith k ''_'' \<and> k \<noteq> ''color_message'' \<and> hidden_eq (Some k) v w)) d e"

definition hidden_args :: "log_env \<Rightarrow> LogRecord \<Rightarrow> LogRecord \<Rightarrow> bool" where
  "hidden_args L r r' \<longleftrightarrow>
     (case (rec_args r, rec_args r') of
        (MAPPING_ARGS d, MAPPING_ARGS e) \<Rightarrow>
          rec_msg r = rec_msg r' \<and> list_all2 (\<lambda>(k, v) (k', w). k = k' \<and> hidden_eq (Some k) v w) d e
      | (TUPLE_ARGS (v # vs), TUPLE_ARGS (w # ws)) \<Rightarrow>
          rec_msg r = rec_msg r' \<and> length vs = length ws
        \<and> (\<forall>i<length (v # vs). hidden_eq (let fs = placeholder_fields (log_str L (rec_msg r)) in if i < length fs then fs ! i else None)
              ((v # vs) ! i) ((w # ws) ! i))
      | (a, b) \<Rightarrow> a = b \<and> hidden_msg (rec_msg r) (rec_msg r'))"

text \<open>
  Two records that an observer of the log must not be able to tell apart: the same template, and
  arguments, extra fields, free text and exceptions that differ only in guarded content of equal size.
\<close>

definition low_equal :: "log_env \<Rightarrow> LogRecord \<Rightarrow> LogRecord \<Rightarrow> bool" where
  "low_equal L r r' \<longleftrightarrow>
     hidden_args L r r' \<and> hidden_exc (rec_exc_info r) (rec_exc_info r') \<and> rec_has_stack r = rec_has_stack r'
   \<and> hidden_extra (rec_extra r) (rec_extra r') \<and> rec_sanitized r = rec_sanitized r'"

lemma low_equal_refl: "low_equal L r r"
  by (auto simp: low_equal_def hidden_args_def hidden_exc_def hidden_extra_def hidden_eq_def hidden_msg_def Let_def list_all2_same
      split: log_args.split list.split)

lemma sanitize_args_low:
  assumes "hidden_args L r r'"
  shows "rec_msg (sanitize_args L r) = rec_msg (sanitize_args L r') \<and> rec_args (sanitize_args L r) = rec_args (sanitize_args L r')"
proof (cases "\<exists>v vs w ws. rec_args r = TUPLE_ARGS (v # vs) \<and> rec_args r' = TUPLE_ARGS (w # ws)")
  case True
  then obtain v vs w ws where a: "rec_args r = TUPLE_ARGS (v # vs)" "rec_args r' = TUPLE_ARGS (w # ws)" by blast
  let ?F = "\<lambda>i. let fs = placeholder_fields (log_str L (rec_msg r)) in if i < length fs then fs ! i else None"
  have msg: "rec_msg r' = rec_msg r" and len: "length (w # ws) = length (v # vs)"
    using assms by (auto simp: hidden_args_def a)
  have eq: "hidden_eq (?F i) ((v # vs) ! i) ((w # ws) ! i)" if "i < length (v # vs)" for i
    using assms that by (auto simp: hidden_args_def a)
  have "map (\<lambda>i. sanitize_value L ((v # vs) ! i) (?F i)) [0..<length (v # vs)] =
        map (\<lambda>i. sanitize_value L ((w # ws) ! i) (?F i)) [0..<length (w # ws)]"
    unfolding len by (intro map_cong refl hidden_eq_sanitized eq) auto
  then show ?thesis using msg by (simp only: sanitize_args_def a log_args.case list.case Let_def) simp
next
  case False
  have maps: "map (\<lambda>(k, v). (k, sanitize_value L v (Some k))) d = map (\<lambda>(k, v). (k, sanitize_value L v (Some k))) e"
    if "list_all2 (\<lambda>(k, v) (k', w). k = k' \<and> hidden_eq (Some k) v w) d e" for d e
    using that by (induction rule: list_all2_induct) (auto simp: hidden_eq_sanitized)
  from False show ?thesis
    using assms hidden_msg_sanitized maps
    by (auto simp: hidden_args_def sanitize_args_def Let_def split: log_args.splits list.splits)
qed

lemma sanitize_args_frame:
  "rec_exc_info (sanitize_args L r) = rec_exc_info r" "rec_has_stack (sanitize_args L r) = rec_has_stack r"
  "rec_extra (sanitize_args L r) = rec_extra r" "rec_sanitized (sanitize_args L r) = rec_sanitized r"
  by (simp_all add: sanitize_args_def Let_def split: log_args.split list.split)

lemma sanitize_extra_low:
  "hidden_extra d e \<Longrightarrow> map (\<lambda>(k, v). (k, sanitize_extra L k v)) d = map (\<lambda>(k, v). (k, sanitize_extra L k v)) e"
  unfolding hidden_extra_def
proof (induction rule: list_all2_induct)
  case (Cons x xs y ys)
  then show ?case
    using hidden_eq_sanitized by (cases x; cases y) (fastforce simp: sanitize_extra_def split: logval.splits pyval.splits)
qed simp

lemma sanitize_record_low:
  assumes "low_equal L r r'" "\<not> rec_sanitized r \<or> force"
  shows "sanitize_record L force r = sanitize_record L force r'"
proof -
  have args: "rec_msg (sanitize_args L r) = rec_msg (sanitize_args L r')" "rec_args (sanitize_args L r) = rec_args (sanitize_args L r')"
    using assms(1) sanitize_args_low by (auto simp: low_equal_def)
  have low: "hidden_exc (rec_exc_info r) (rec_exc_info r')" "rec_has_stack r = rec_has_stack r'"
    "hidden_extra (rec_extra r) (rec_extra r')" "rec_sanitized r = rec_sanitized r'"
    using assms(1) by (auto simp: low_equal_def)
  have "rec_exc_info r = None \<longleftrightarrow> rec_exc_info r' = None" using low(1) by (auto simp: hidden_exc_def)
  then show ?thesis
    using args low assms(2) sanitize_extra_low[OF low(3), of L] hidden_exc_metadata
    by (auto simp: sanitize_record_def sanitize_exc_def sanitize_args_frame Let_def intro!: LogRecord.equality split: option.splits)
qed

section \<open>Properties of the boundary\<close>

text \<open>C19. Log records do not reveal guarded content: two records that agree on the template, on the shape
  and sizes of their arguments, extra fields, free text and exceptions and on the values of the
  fields known to be safe, and differ only in the content of guarded strings, byte strings,
  containers and exceptions, leave the logging boundary as one and the same record, through the
  record factory, through \<open>Logger.makeRecord\<close> with its extra fields and through the filter of a handler.\<close>

theorem log_noninterference:
  assumes "low_equal L r r'" "\<not> rec_sanitized r" "hidden_extra x x'"
  shows "SafeLogFilter_filter L (make_record L r x) = SafeLogFilter_filter L (make_record L r' x')
    \<and> make_record L r x = make_record L r' x' \<and> record_factory L r = record_factory L r'"
proof -
  have fac: "record_factory L r = record_factory L r'"
    unfolding record_factory_def by (rule sanitize_record_low) (use assms in auto)
  have "make_record L r x = make_record L r' x'"
    using sanitize_extra_low[OF assms(3), of L]
    by (simp add: make_record_def fac sanitize_record_def sanitize_exc_def sanitize_args_def Let_def
        split: option.split log_args.split list.split)
  with fac show ?thesis by simp
qed

definition demo_log_env :: log_env where
  "demo_log_env = \<lparr>le_str = (\<lambda>_. ''object''), le_urlsplit = (\<lambda>_. None)\<rparr>"

definition demo_record :: "string \<Rightarrow> LogRecord" where
  "demo_record s =
     \<lparr>rec_msg = log_text ''request_id=%s prompt=%s'', rec_args = TUPLE_ARGS [log_text ''r1'', log_text s], rec_exc_info = None,
      rec_has_stack = False, rec_extra = [], rec_sanitized = False\<rparr>"

lemma demo_log_fields: "placeholder_fields ''request_id=%s prompt=%s'' = [Some ''request_id'', Some ''prompt'']"
  by code_simp

lemma demo_log_low: "length s = length t \<Longrightarrow> low_equal L (demo_record s) (demo_record t)"
  by (auto simp: low_equal_def hidden_args_def demo_record_def log_str_def demo_log_fields hidden_eq_def hidden_exc_def hidden_extra_def
      guarded_field_def URL_FIELDS_def SAFE_FIELDS_def py_lower_def char_lower_def is_upper_def less_Suc_eq)

theorem log_noninterference_witness:
  "make_record demo_log_env (demo_record ''my secret'') [(''body'', log_text ''abc'')]
   = make_record demo_log_env (demo_record ''another!!'') [(''body'', log_text ''xyz'')]"
proof -
  have "hidden_extra [(''body'', log_text ''abc'')] [(''body'', log_text ''xyz'')]"
    by (simp add: hidden_extra_def hidden_eq_def guarded_field_def URL_FIELDS_def SAFE_FIELDS_def startswith.simps
        py_lower_def char_lower_def is_upper_def)
  then show ?thesis
    using log_noninterference[OF demo_log_low[of "''my secret''" "''another!!''" demo_log_env]] by (simp add: demo_record_def)
qed

text \<open>
  The sizes that reach a handler are not those of the content. Every pass redacts what the pass before
  it left, so after \<open>makeRecord\<close> a redacted argument carries the length of the first redaction.
\<close>

lemma sizes_of_redactions:
  "rec_args (record_factory demo_log_env (demo_record ''secret'')) = TUPLE_ARGS [log_text ''r1'', log_text ''<redacted> chars=6'']
 \<and> rec_args (make_record demo_log_env (demo_record ''secret'') []) = TUPLE_ARGS [log_text ''r1'', log_text ''<redacted> chars=18'']"
  by code_simp

end
