(* ===== verification/ThreadWake_Prompt.thy ===== *)
theory ThreadWake_Prompt
  imports Contracts Json_Text
begin

text \<open>
  The prompt analysis of ThreadWake: \<open>runtime/threadwake/types.py\<close>, \<open>keys.py\<close>, \<open>metadata.py\<close>,
  \<open>compiler.py\<close> and the eligibility policy of \<open>policy.py\<close>. A chat request is split into hashed
  segments, the leading segments that are not dynamic form the stable prefix, and a cache key is
  derived from the hash of that prefix.

  What lies outside the repository is an argument: the digest, the text of a float and pydantic's two
  validators are collected in the record \<open>prompt_env\<close>. Messages are the \<open>ChatMessage\<close> objects that the
  endpoint passes.
\<close>

section \<open>Data contracts (types.py)\<close>

datatype ThreadWakeMode = TW_OFF | TW_OBSERVE | TW_EPHEMERAL | TW_SESSION | TW_ADVANCED

fun ThreadWakeMode_value :: "ThreadWakeMode \<Rightarrow> string" where
  "ThreadWakeMode_value TW_OFF = ''off''"
| "ThreadWakeMode_value TW_OBSERVE = ''observe''"
| "ThreadWakeMode_value TW_EPHEMERAL = ''ephemeral''"
| "ThreadWakeMode_value TW_SESSION = ''session''"
| "ThreadWakeMode_value TW_ADVANCED = ''advanced''"

datatype Stability = STABLE | SEMI_STABLE | DYNAMIC

fun Stability_value :: "Stability \<Rightarrow> string" where
  "Stability_value STABLE = ''stable''"
| "Stability_value SEMI_STABLE = ''semi_stable''"
| "Stability_value DYNAMIC = ''dynamic''"

record CodexifySegmentMeta =
  cm_name :: string
  cm_message_index :: int
  cm_content_path :: "string option"
  cm_segment_type :: string
  cm_stability :: "Stability option"
  cm_scope :: string
  cm_content_hash :: "string option"
  cm_cacheable :: "bool option"

record PromptSegment =
  seg_name :: string
  seg_role :: string
  seg_content_hash :: string
  seg_segment_type :: string
  seg_stability :: Stability
  seg_token_count :: nat
  seg_scope :: string
  seg_multimodal :: bool
  seg_in_stable_prefix :: bool

record PromptGraph =
  pg_model_id :: "string option"
  pg_backend :: "string option"
  pg_chat_template_hash :: "string option"
  pg_tokenizer_hash :: "string option"
  pg_segments :: "PromptSegment list"
  pg_stable_prefix_hash :: string
  pg_full_prompt_hash :: string
  pg_stable_prefix_tokens :: nat
  pg_dynamic_tokens :: nat
  pg_ordered_segment_hashes :: "string list"
  pg_full_prefix_chain_hash :: string
  pg_previous_chain_hash :: "string option"
  pg_latest_append_hash :: "string option"
  pg_continuation_candidate :: bool

record ThreadWakeRequestConfig =
  tc_enabled :: "bool option"
  tc_mode :: "ThreadWakeMode option"
  tc_scope :: "string option"
  tc_metadata :: "(string, pyval) dict"
  tc_min_stable_prefix_tokens :: "int option"

record ThreadWakeObservation =
  to_enabled :: bool
  to_mode :: ThreadWakeMode
  to_eligible :: bool
  to_reason :: "string option"
  to_stable_prefix_hash :: "string option"
  to_stable_prefix_tokens :: nat
  to_dynamic_tokens :: nat
  to_estimated_prefill_reuse_tokens :: nat
  to_cache_hit :: bool
  to_cache_scope :: string
  to_backend_kv_capability :: "string option"
  to_can_reuse_kv :: bool
  to_kv_reuse_reason :: "string option"
  to_tokenizer_capability :: "string option"
  to_real_tokenization_available :: bool
  to_tokenization_reason :: "string option"
  to_stable_prefix_token_count_real :: "nat option"
  to_dynamic_tail_token_count_real :: "nat option"

record prompt_env =
  pe_sha :: "string \<Rightarrow> string"
  pe_frepr :: "real \<Rightarrow> string"
  pe_validate_metadata :: "pyval \<Rightarrow> CodexifySegmentMeta list option"
  pe_validate_segment :: "pyval \<Rightarrow> CodexifySegmentMeta option"

section \<open>Canonical texts and keys (keys.py)\<close>

definition CR :: char where "CR = char_of (13::nat)"
definition LF :: char where "LF = char_of (10::nat)"

fun replace_crlf :: "string \<Rightarrow> string" where
  "replace_crlf (a # b # s) = (if a = CR \<and> b = LF then LF # replace_crlf s else a # replace_crlf (b # s))"
| "replace_crlf s = s"

definition normalize_text :: "string \<Rightarrow> string" where
  "normalize_text s = map (\<lambda>c. if c = CR then LF else c) (replace_crlf s)"

fun normalize_value :: "pyval \<Rightarrow> pyval" where
  "normalize_value (PStr s) = PStr (normalize_text s)"
| "normalize_value (PList xs) = PList (map normalize_value xs)"
| "normalize_value (PDict d) = PDict (sort_key fst (map (map_prod id normalize_value) d))"
| "normalize_value v = v"

definition canonical_json :: "prompt_env \<Rightarrow> pyval \<Rightarrow> string" where
  "canonical_json E v = json_dumps plain_escape (pe_frepr E) (json_sort v)"

definition canonicalize_content :: "prompt_env \<Rightarrow> pyval \<Rightarrow> string" where
  "canonicalize_content E content =
     (case normalize_value content of PStr s \<Rightarrow> s | v \<Rightarrow> canonical_json E v)"

definition hash_json :: "prompt_env \<Rightarrow> pyval \<Rightarrow> string" where
  "hash_json E v = pe_sha E (canonical_json E v)"

definition THREADWAKE_KEY_VERSION :: string where
  "THREADWAKE_KEY_VERSION = ''threadwake-v0-phase-a''"

definition cache_key_payload ::
  "PromptGraph \<Rightarrow> string \<Rightarrow> string option \<Rightarrow> string option \<Rightarrow> pyval" where
  "cache_key_payload g scope model_revision quantization =
     PDict [(''version'', PStr THREADWAKE_KEY_VERSION), (''backend'', opt_str (pg_backend g)),
            (''model_id'', opt_str (pg_model_id g)), (''model_revision'', opt_str model_revision),
            (''quantization'', opt_str quantization), (''tokenizer_hash'', opt_str (pg_tokenizer_hash g)),
            (''chat_template_hash'', opt_str (pg_chat_template_hash g)),
            (''stable_prefix_hash'', PStr (pg_stable_prefix_hash g)), (''scope'', PStr scope)]"

definition build_threadwake_cache_key ::
  "prompt_env \<Rightarrow> PromptGraph \<Rightarrow> string \<Rightarrow> string option \<Rightarrow> string option \<Rightarrow> string" where
  "build_threadwake_cache_key E g scope model_revision quantization =
     hash_json E (cache_key_payload g scope model_revision quantization)"

section \<open>Segment metadata (metadata.py)\<close>

text \<open>\<open>_CODEXIFY_TYPE_DEFAULTS\<close>: the stability and the segment type of each Codexify type.\<close>

definition CODEXIFY_TYPE_DEFAULTS :: "(string, Stability \<times> string) dict" where
  "CODEXIFY_TYPE_DEFAULTS =
     [(''system'', (STABLE, ''system'')), (''persona'', (STABLE, ''persona'')),
      (''tools'', (STABLE, ''tool_schema'')), (''project'', (STABLE, ''project_context'')),
      (''retrieval'', (SEMI_STABLE, ''retrieval'')), (''thread'', (SEMI_STABLE, ''thread_history'')),
      (''user'', (DYNAMIC, ''user_message'')), (''tool_output'', (DYNAMIC, ''tool_output'')),
      (''unknown'', (DYNAMIC, ''unknown''))]"

definition content_value :: "content \<Rightarrow> pyval" where
  "content_value c = (case c of CText t \<Rightarrow> PStr t | CParts ps \<Rightarrow> PList ps)"

text \<open>The message list is only indexed below its length.\<close>

definition validate_single_meta ::
  "prompt_env \<Rightarrow> CodexifySegmentMeta \<Rightarrow> ChatMessage list \<Rightarrow> bool \<Rightarrow> string option" where
  "validate_single_meta E meta messages allow_global =
     (let n = int (length messages);
          computed = pe_sha E (canonicalize_content E
                       (content_value (msg_content (messages ! nat (cm_message_index meta))))) in
      if cm_message_index meta < 0 then Some ''invalid_message_index: negative''
      else if n \<le> cm_message_index meta then
        Some (''message_index_out_of_range: '' @ py_str_int (cm_message_index meta) @ '' >= '' @ py_str_int n)
      else if str_true (cm_content_hash meta) \<and> Some computed \<noteq> cm_content_hash meta then
        Some (''content_hash_mismatch: provided='' @ take 12 (the (cm_content_hash meta)) @ ''... computed=''
              @ take 12 computed @ ''...'')
      else if cm_scope meta = ''global'' \<and> \<not> allow_global then Some ''global_scope_not_allowed''
      else None)"

definition meta_stability :: "CodexifySegmentMeta \<Rightarrow> Stability \<Rightarrow> Stability" where
  "meta_stability meta inferred =
     (let s = (case cm_stability meta of
                 Some s \<Rightarrow> s
               | None \<Rightarrow> (case dget CODEXIFY_TYPE_DEFAULTS (cm_segment_type meta) of
                            Some (s, _) \<Rightarrow> s
                          | None \<Rightarrow> inferred));
          s = (if cm_segment_type meta = ''user'' then DYNAMIC
               else if cm_segment_type meta = ''tool_output'' then DYNAMIC
               else if cm_segment_type meta = ''retrieval'' \<and> s = STABLE \<and> \<not> str_true (cm_content_hash meta)
               then SEMI_STABLE else s)
      in if cm_cacheable meta = Some False then DYNAMIC else s)"

definition meta_segment_type :: "CodexifySegmentMeta \<Rightarrow> string \<Rightarrow> string" where
  "meta_segment_type meta inferred =
     (if cm_segment_type meta = ''user'' then ''user_message''
      else if cm_segment_type meta = ''tool_output'' then ''tool_output''
      else case dget CODEXIFY_TYPE_DEFAULTS (cm_segment_type meta) of
             Some (_, t) \<Rightarrow> t
           | None \<Rightarrow> inferred)"

definition apply_meta :: "CodexifySegmentMeta \<Rightarrow> PromptSegment \<Rightarrow> string \<Rightarrow> PromptSegment" where
  "apply_meta meta seg default_scope =
     \<lparr>seg_name = (if cm_name meta = [] then seg_name seg else cm_name meta), seg_role = seg_role seg,
      seg_content_hash = seg_content_hash seg,
      seg_segment_type = meta_segment_type meta (seg_segment_type seg),
      seg_stability = meta_stability meta (seg_stability seg), seg_token_count = seg_token_count seg,
      seg_scope = (if cm_scope meta = [] then default_scope else cm_scope meta),
      seg_multimodal = seg_multimodal seg, seg_in_stable_prefix = False\<rparr>"

text \<open>The first entry for an index is kept, every further one is an error.\<close>

fun index_metas ::
  "CodexifySegmentMeta list \<Rightarrow> (int, CodexifySegmentMeta) dict \<Rightarrow> string list
   \<Rightarrow> (int, CodexifySegmentMeta) dict \<times> string list" where
  "index_metas [] d errors = (d, errors)"
| "index_metas (m # ms) d errors =
     (if dget d (cm_message_index m) \<noteq> None
      then index_metas ms d (errors @ [''duplicate_message_index: '' @ py_str_int (cm_message_index m)])
      else index_metas ms (dset (cm_message_index m) m d) errors)"

fun merge_segments ::
  "prompt_env \<Rightarrow> (int, CodexifySegmentMeta) dict \<Rightarrow> ChatMessage list \<Rightarrow> string \<Rightarrow> bool \<Rightarrow> nat
   \<Rightarrow> PromptSegment list \<Rightarrow> PromptSegment list \<times> string list" where
  "merge_segments E metas messages default_scope allow_global i [] = ([], [])"
| "merge_segments E metas messages default_scope allow_global i (seg # segs) =
     (case merge_segments E metas messages default_scope allow_global (Suc i) segs of (rest, errors) \<Rightarrow>
      case dget metas (int i) of
        None \<Rightarrow> (seg # rest, errors)
      | Some meta \<Rightarrow>
          (case validate_single_meta E meta messages allow_global of
             Some e \<Rightarrow> (seg # rest, (''segment['' @ show_nat i @ '']: '' @ e) # errors)
           | None \<Rightarrow> (apply_meta meta seg default_scope # rest, errors)))"

definition validate_and_merge_segments ::
  "prompt_env \<Rightarrow> PromptSegment list \<Rightarrow> CodexifySegmentMeta list option \<Rightarrow> ChatMessage list \<Rightarrow> string \<Rightarrow> bool
   \<Rightarrow> PromptSegment list \<times> string list" where
  "validate_and_merge_segments E inferred metadata messages default_scope allow_global =
     (case metadata of
        None \<Rightarrow> (inferred, [])
      | Some metas \<Rightarrow>
          if metas = [] then (inferred, [])
          else
            case index_metas metas [] [] of (by_index, dup_errors) \<Rightarrow>
            case merge_segments E by_index messages default_scope allow_global 0 inferred of (merged, errors) \<Rightarrow>
              (merged, dup_errors @ errors))"

text \<open>The raw field: absent, already parsed, or a JSON value.\<close>

datatype raw_segments = RawNone | RawParsed "CodexifySegmentMeta list" | RawValue pyval

fun validate_all :: "('a \<Rightarrow> 'b option) \<Rightarrow> 'a list \<Rightarrow> 'b list option" where
  "validate_all f [] = Some []"
| "validate_all f (x # xs) =
     (case f x of
        None \<Rightarrow> None
      | Some y \<Rightarrow> (case validate_all f xs of None \<Rightarrow> None | Some ys \<Rightarrow> Some (y # ys)))"

definition parse_codexify_segments :: "prompt_env \<Rightarrow> raw_segments \<Rightarrow> CodexifySegmentMeta list option" where
  "parse_codexify_segments E raw =
     (case raw of
        RawNone \<Rightarrow> None
      | RawParsed metas \<Rightarrow> Some metas
      | RawValue v \<Rightarrow>
          (case v of
             PDict _ \<Rightarrow> pe_validate_metadata E v
           | PList xs \<Rightarrow> validate_all (pe_validate_segment E) xs
           | _ \<Rightarrow> None))"

section \<open>The prompt graph (compiler.py)\<close>

definition DEFAULT_CHAT_TEMPLATE_HASH :: "prompt_env \<Rightarrow> string" where
  "DEFAULT_CHAT_TEMPLATE_HASH E = pe_sha E ''openai-chat-completions-v1''"

text \<open>\<open>part_type and part_type != "text"\<close>, or an \<open>image_url\<close> key.\<close>

definition multimodal_part :: "pyval \<Rightarrow> bool" where
  "multimodal_part part =
     (case part of
        PDict d \<Rightarrow>
          (case dget d ''type'' of
             Some t \<Rightarrow> truthy t \<and> t \<noteq> PStr ''text''
           | None \<Rightarrow> False) \<or> dget d ''image_url'' \<noteq> None
      | _ \<Rightarrow> False)"

definition contains_multimodal_content :: "content \<Rightarrow> bool" where
  "contains_multimodal_content c = (case c of CText _ \<Rightarrow> False | CParts ps \<Rightarrow> list_ex multimodal_part ps)"

text \<open>The number of maximal runs of characters that are not white space.\<close>

definition estimate_token_count :: "string \<Rightarrow> nat" where
  "estimate_token_count s = length (py_words (\<lambda>c. \<not> py_is_space c) s)"

definition opt_field :: "string \<Rightarrow> pyval option \<Rightarrow> (string \<times> pyval) list" where
  "opt_field k v = (case v of None \<Rightarrow> [] | Some x \<Rightarrow> [(k, x)])"

definition message_payload :: "ChatMessage \<Rightarrow> pyval" where
  "message_payload m =
     PDict ([(''role'', PStr (msg_role m)), (''content'', content_value (msg_content m))]
            @ opt_field ''name'' (map_option PStr (msg_name m))
            @ opt_field ''tool_calls'' (map_option PList (msg_tool_calls m))
            @ opt_field ''tool_call_id'' (map_option PStr (msg_tool_call_id m)))"

fun latest_user_from :: "nat \<Rightarrow> ChatMessage list \<Rightarrow> nat option \<Rightarrow> nat option" where
  "latest_user_from i [] latest = latest"
| "latest_user_from i (m # ms) latest =
     latest_user_from (Suc i) ms (if msg_role m = ''user'' then Some i else latest)"

definition latest_user_index :: "ChatMessage list \<Rightarrow> nat option" where
  "latest_user_index ms = latest_user_from 0 ms None"

definition message_stability :: "ChatMessage \<Rightarrow> nat \<Rightarrow> nat option \<Rightarrow> Stability" where
  "message_stability m idx latest_user_idx =
     (if msg_role m = ''system'' \<or> msg_role m = ''developer'' then STABLE
      else if msg_role m = ''tool'' then DYNAMIC
      else if msg_role m = ''user'' \<and> Some idx = latest_user_idx then DYNAMIC
      else if msg_role m = ''user'' \<or> msg_role m = ''assistant'' then SEMI_STABLE
      else DYNAMIC)"

definition segment_hash_payload :: "PromptSegment \<Rightarrow> pyval" where
  "segment_hash_payload s =
     PDict [(''name'', PStr (seg_name s)), (''role'', PStr (seg_role s)),
            (''content_hash'', PStr (seg_content_hash s)), (''segment_type'', PStr (seg_segment_type s)),
            (''stability'', PStr (Stability_value (seg_stability s))),
            (''token_count'', PInt (int (seg_token_count s))), (''scope'', PStr (seg_scope s)),
            (''multimodal'', PBool (seg_multimodal s))]"

definition new_segment ::
  "prompt_env \<Rightarrow> string \<Rightarrow> string \<Rightarrow> string \<Rightarrow> string \<Rightarrow> Stability \<Rightarrow> string \<Rightarrow> bool \<Rightarrow> PromptSegment" where
  "new_segment E name role canonical segment_type stability scope multimodal =
     \<lparr>seg_name = name, seg_role = role, seg_content_hash = pe_sha E canonical, seg_segment_type = segment_type,
      seg_stability = stability, seg_token_count = estimate_token_count canonical, seg_scope = scope,
      seg_multimodal = multimodal, seg_in_stable_prefix = False\<rparr>"

record compile_request =
  cr_messages :: "ChatMessage list"
  cr_model_id :: "string option"
  cr_backend :: "string option"
  cr_tools :: "pyval list option"
  cr_tool_choice :: "pyval option"
  cr_tokenizer_hash :: "string option"
  cr_chat_template_hash :: "string option"
  cr_scope :: string
  cr_codexify_segments :: raw_segments
  cr_allow_global :: bool

definition tools_value :: "pyval list \<Rightarrow> pyval" where
  "tools_value ts = PDict [(''tools'', PList ts)]"

definition tool_choice_value :: "pyval \<Rightarrow> pyval" where
  "tool_choice_value tc = PDict [(''tool_choice'', tc)]"

definition tool_segments :: "prompt_env \<Rightarrow> compile_request \<Rightarrow> PromptSegment list" where
  "tool_segments E r =
     (case cr_tools r of
        None \<Rightarrow> []
      | Some ts \<Rightarrow> [new_segment E ''tools'' ''tool_schema'' (canonicalize_content E (tools_value ts))
                       ''tool_schema'' STABLE (cr_scope r) False])
     @ (case cr_tool_choice r of
          None \<Rightarrow> []
        | Some tc \<Rightarrow> [new_segment E ''tool_choice'' ''tool_instruction''
                         (canonicalize_content E (tool_choice_value tc)) ''tool_instruction'' STABLE (cr_scope r) False])"

definition message_segment :: "prompt_env \<Rightarrow> string \<Rightarrow> nat option \<Rightarrow> nat \<Rightarrow> ChatMessage \<Rightarrow> PromptSegment" where
  "message_segment E scope latest idx m =
     (let multimodal = contains_multimodal_content (msg_content m) in
      new_segment E (''message:'' @ show_nat idx @ '':'' @ msg_role m) (msg_role m)
        (canonicalize_content E (message_payload m))
        (if multimodal then ''multimodal_message'' else ''message'')
        (message_stability m idx latest) scope multimodal)"

definition inferred_segments :: "prompt_env \<Rightarrow> compile_request \<Rightarrow> PromptSegment list" where
  "inferred_segments E r =
     tool_segments E r
     @ map (\<lambda>(idx, m). message_segment E (cr_scope r) (latest_user_index (cr_messages r)) idx m)
         (enumerate 0 (cr_messages r))"

text \<open>The loop that closes the prefix at the first dynamic segment: the segments, the tokens of the
  prefix and its hash payload.\<close>

fun mark_prefix :: "bool \<Rightarrow> PromptSegment list \<Rightarrow> PromptSegment list \<times> nat \<times> pyval list" where
  "mark_prefix prefix_open [] = ([], 0, [])"
| "mark_prefix prefix_open (s # ss) =
     (if prefix_open \<and> (seg_stability s = STABLE \<or> seg_stability s = SEMI_STABLE)
      then (case mark_prefix True ss of (rest, tokens, payload) \<Rightarrow>
              (s\<lparr>seg_in_stable_prefix := True\<rparr> # rest, seg_token_count s + tokens, segment_hash_payload s # payload))
      else (case mark_prefix False ss of (rest, tokens, payload) \<Rightarrow> (s # rest, tokens, payload)))"

definition chain_hash :: "prompt_env \<Rightarrow> string list \<Rightarrow> string" where
  "chain_hash E hashes = foldl (\<lambda>chain h. pe_sha E (chain @ h)) [] hashes"

definition merged_segments :: "prompt_env \<Rightarrow> compile_request \<Rightarrow> PromptSegment list" where
  "merged_segments E r =
     (case parse_codexify_segments E (cr_codexify_segments r) of
        None \<Rightarrow> inferred_segments E r
      | Some metas \<Rightarrow>
          if metas = [] then inferred_segments E r
          else fst (validate_and_merge_segments E (inferred_segments E r) (Some metas) (cr_messages r)
                     (cr_scope r) (cr_allow_global r)))"

definition compile_prompt_graph :: "prompt_env \<Rightarrow> compile_request \<Rightarrow> PromptGraph" where
  "compile_prompt_graph E r =
     (case mark_prefix True (merged_segments E r) of (segments, stable_prefix_tokens, stable_payload) \<Rightarrow>
        let total_tokens = sum_list (map seg_token_count segments);
            ordered_hashes = map seg_content_hash segments in
        \<lparr>pg_model_id = cr_model_id r, pg_backend = cr_backend r,
         pg_chat_template_hash =
           Some (if str_true (cr_chat_template_hash r) then the (cr_chat_template_hash r)
                 else DEFAULT_CHAT_TEMPLATE_HASH E),
         pg_tokenizer_hash = cr_tokenizer_hash r, pg_segments = segments,
         pg_stable_prefix_hash = hash_json E (PList stable_payload),
         pg_full_prompt_hash = hash_json E (PList (map segment_hash_payload segments)),
         pg_stable_prefix_tokens = stable_prefix_tokens,
         pg_dynamic_tokens = total_tokens - stable_prefix_tokens,
         pg_ordered_segment_hashes = ordered_hashes, pg_full_prefix_chain_hash = chain_hash E ordered_hashes,
         pg_previous_chain_hash = None, pg_latest_append_hash = None,
         pg_continuation_candidate = (segments \<noteq> [])\<rparr>)"

section \<open>Eligibility (policy.py)\<close>

definition DEFAULT_MIN_STABLE_PREFIX_TOKENS :: int where
  "DEFAULT_MIN_STABLE_PREFIX_TOKENS = 1024"

text \<open>A \<open>ThreadWakeObservation\<close> with the model's field defaults.\<close>

definition new_observation :: "bool \<Rightarrow> ThreadWakeMode \<Rightarrow> bool \<Rightarrow> string option \<Rightarrow> string \<Rightarrow> ThreadWakeObservation" where
  "new_observation enabled mode eligible reason scope =
     \<lparr>to_enabled = enabled, to_mode = mode, to_eligible = eligible, to_reason = reason,
      to_stable_prefix_hash = None, to_stable_prefix_tokens = 0, to_dynamic_tokens = 0,
      to_estimated_prefill_reuse_tokens = 0, to_cache_hit = False, to_cache_scope = scope,
      to_backend_kv_capability = None, to_can_reuse_kv = False, to_kv_reuse_reason = None,
      to_tokenizer_capability = None, to_real_tokenization_available = False, to_tokenization_reason = None,
      to_stable_prefix_token_count_real = None, to_dynamic_tail_token_count_real = None\<rparr>"

definition evaluate_threadwake_policy ::
  "PromptGraph option \<Rightarrow> ThreadWakeRequestConfig \<Rightarrow> ThreadWakeObservation" where
  "evaluate_threadwake_policy graph config =
     (let mode = (case tc_mode config of None \<Rightarrow> TW_OFF | Some m \<Rightarrow> m);
          scope = (if str_true (tc_scope config) then the (tc_scope config) else ''thread'');
          enabled = (tc_enabled config = Some True \<and> mode \<noteq> TW_OFF);
          min_tokens = (case tc_min_stable_prefix_tokens config of
                          Some n \<Rightarrow> n | None \<Rightarrow> DEFAULT_MIN_STABLE_PREFIX_TOKENS) in
      if \<not> enabled then new_observation False TW_OFF False (Some ''threadwake_disabled'') scope
      else
        case graph of
          None \<Rightarrow> new_observation True mode False (Some ''prompt_graph_missing'') scope
        | Some g \<Rightarrow>
            let base = (\<lambda>eligible reason.
                  (new_observation True mode eligible reason scope)
                    \<lparr>to_stable_prefix_hash := Some (pg_stable_prefix_hash g),
                     to_stable_prefix_tokens := pg_stable_prefix_tokens g,
                     to_dynamic_tokens := pg_dynamic_tokens g\<rparr>) in
            if \<not> str_true (pg_model_id g) then base False (Some ''model_id_missing'')
            else if \<not> str_true (pg_backend g) then base False (Some ''backend_missing'')
            else if mode \<noteq> TW_OBSERVE \<and> mode \<noteq> TW_EPHEMERAL \<and> mode \<noteq> TW_SESSION then
              base False (Some (''mode_not_supported: '' @ ThreadWakeMode_value mode))
            else if list_ex (\<lambda>s. seg_in_stable_prefix s \<and> seg_multimodal s) (pg_segments g) then
              base False (Some ''stable_prefix_contains_multimodal'')
            else if int (pg_stable_prefix_tokens g) < min_tokens then
              base False (Some ''stable_prefix_below_min_tokens'')
            else (base True None)\<lparr>to_estimated_prefill_reuse_tokens := pg_stable_prefix_tokens g\<rparr>)"

section \<open>The stable prefix\<close>

abbreviation prefixable :: "PromptSegment \<Rightarrow> bool" where
  "prefixable s \<equiv> seg_stability s \<noteq> DYNAMIC"

lemma prefixable_iff: "seg_stability s = STABLE \<or> seg_stability s = SEMI_STABLE \<longleftrightarrow> prefixable s"
  by (cases "seg_stability s") auto

lemma mark_prefix_closed [simp]: "mark_prefix False ss = (ss, 0, [])"
  by (induction ss) simp_all

lemma mark_prefix_open:
  "mark_prefix True ss =
     (map (\<lambda>s. s\<lparr>seg_in_stable_prefix := True\<rparr>) (takeWhile prefixable ss) @ dropWhile prefixable ss,
      sum_list (map seg_token_count (takeWhile prefixable ss)),
      map segment_hash_payload (takeWhile prefixable ss))"
  by (induction ss) (auto simp: prefixable_iff split: prod.split)

lemma payload_ignores_flag [simp]:
  "segment_hash_payload (s\<lparr>seg_in_stable_prefix := b\<rparr>) = segment_hash_payload s"
  by (simp add: segment_hash_payload_def)

definition merged_segment ::
  "prompt_env \<Rightarrow> (int, CodexifySegmentMeta) dict \<Rightarrow> ChatMessage list \<Rightarrow> string \<Rightarrow> bool \<Rightarrow> nat \<Rightarrow> PromptSegment
   \<Rightarrow> PromptSegment" where
  "merged_segment E metas messages scope g j seg =
     (case dget metas (int j) of
        None \<Rightarrow> seg
      | Some meta \<Rightarrow> (case validate_single_meta E meta messages g of
                         Some _ \<Rightarrow> seg | None \<Rightarrow> apply_meta meta seg scope))"

lemma merge_segments_fst:
  "fst (merge_segments E metas messages scope g i segs) =
     map (\<lambda>(j, seg). merged_segment E metas messages scope g j seg) (enumerate i segs)"
  by (induction segs arbitrary: i) (simp_all add: case_prod_unfold merged_segment_def split: option.split)

lemma map_enumerate_fixed:
  assumes "\<And>j x. f (h j x) = f x"
  shows "map f (map (\<lambda>(j, x). h j x) (enumerate i xs)) = map f xs"
  using assms by (induction xs arbitrary: i) simp_all

lemma merged_segment_content:
  "seg_role (merged_segment E metas messages scope g j seg) = seg_role seg"
  "seg_content_hash (merged_segment E metas messages scope g j seg) = seg_content_hash seg"
  "seg_token_count (merged_segment E metas messages scope g j seg) = seg_token_count seg"
  "seg_multimodal (merged_segment E metas messages scope g j seg) = seg_multimodal seg"
  by (simp_all add: merged_segment_def apply_meta_def split: option.split)

lemma merged_segment_unmarked:
  "\<not> seg_in_stable_prefix seg \<Longrightarrow> \<not> seg_in_stable_prefix (merged_segment E metas messages scope g j seg)"
  by (simp add: merged_segment_def apply_meta_def split: option.split)

lemma merged_segments_cases:
  obtains "merged_segments E r = inferred_segments E r"
  | metas where "merged_segments E r =
       fst (merge_segments E metas (cr_messages r) (cr_scope r) (cr_allow_global r) 0 (inferred_segments E r))"
proof (cases "parse_codexify_segments E (cr_codexify_segments r)")
  case None
  then show thesis by (intro that(1)) (simp add: merged_segments_def)
next
  case (Some metas)
  then show thesis
    by (cases "metas = []")
      (auto simp: merged_segments_def validate_and_merge_segments_def case_prod_unfold intro: that)
qed

text \<open>Metadata changes names, types, stabilities and scopes, never what a segment stands for.\<close>

lemma merged_segments_content:
  "map (\<lambda>s. (seg_role s, seg_content_hash s, seg_token_count s, seg_multimodal s)) (merged_segments E r) =
   map (\<lambda>s. (seg_role s, seg_content_hash s, seg_token_count s, seg_multimodal s)) (inferred_segments E r)"
proof (cases rule: merged_segments_cases[of E r])
  case (2 metas)
  show ?thesis
    unfolding 2 merge_segments_fst by (rule map_enumerate_fixed) (simp add: merged_segment_content)
qed simp

lemma inferred_unmarked: "s \<in> set (inferred_segments E r) \<Longrightarrow> \<not> seg_in_stable_prefix s"
  by (auto simp: inferred_segments_def tool_segments_def message_segment_def new_segment_def Let_def
      split: option.splits)

lemma merged_unmarked: "list_all (\<lambda>s. \<not> seg_in_stable_prefix s) (merged_segments E r)"
proof -
  have inferred: "list_all (\<lambda>s. \<not> seg_in_stable_prefix s) (inferred_segments E r)"
    using inferred_unmarked by (auto simp: list_all_iff)
  have mapped: "list_all (\<lambda>s. \<not> seg_in_stable_prefix s) (map (\<lambda>(j, s). h j s) (enumerate i xs))"
    if "list_all (\<lambda>s. \<not> seg_in_stable_prefix s) xs"
      and "\<And>j s. \<not> seg_in_stable_prefix s \<Longrightarrow> \<not> seg_in_stable_prefix (h j s)" for h i xs
    using that by (induction xs arbitrary: i) simp_all
  show ?thesis
    by (cases rule: merged_segments_cases[of E r])
      (simp_all add: inferred merge_segments_fst mapped merged_segment_unmarked)
qed

definition stable_segments :: "prompt_env \<Rightarrow> compile_request \<Rightarrow> PromptSegment list" where
  "stable_segments E r = takeWhile prefixable (merged_segments E r)"

lemma graph_fields:
  "pg_backend (compile_prompt_graph E r) = cr_backend r"
  "pg_model_id (compile_prompt_graph E r) = cr_model_id r"
  "pg_tokenizer_hash (compile_prompt_graph E r) = cr_tokenizer_hash r"
  "pg_stable_prefix_hash (compile_prompt_graph E r) =
     hash_json E (PList (map segment_hash_payload (stable_segments E r)))"
  "pg_segments (compile_prompt_graph E r) =
     map (\<lambda>s. s\<lparr>seg_in_stable_prefix := True\<rparr>) (stable_segments E r) @ dropWhile prefixable (merged_segments E r)"
  "pg_stable_prefix_tokens (compile_prompt_graph E r) = sum_list (map seg_token_count (stable_segments E r))"
  by (simp_all add: compile_prompt_graph_def mark_prefix_open stable_segments_def Let_def)

lemma takeWhile_marked:
  assumes "\<And>s. P (f s) = P s"
  shows "takeWhile P (map f (takeWhile P xs) @ dropWhile P xs) = map f (takeWhile P xs)"
    and "dropWhile P (map f (takeWhile P xs) @ dropWhile P xs) = dropWhile P xs"
  using assms by (induction xs) auto

lemma graph_prefix:
  defines "prefixed \<equiv> \<lambda>E r. takeWhile prefixable (pg_segments (compile_prompt_graph E r))"
  shows "prefixed E r = map (\<lambda>s. s\<lparr>seg_in_stable_prefix := True\<rparr>) (stable_segments E r)"
    and "dropWhile prefixable (pg_segments (compile_prompt_graph E r)) = dropWhile prefixable (merged_segments E r)"
  using takeWhile_marked[where P = prefixable and f = "\<lambda>s. s\<lparr>seg_in_stable_prefix := True\<rparr>" and xs = "merged_segments E r"]
  by (simp_all add: prefixed_def graph_fields stable_segments_def)

text \<open>C23. The stable prefix is the longest leading run of segments that are not dynamic: exactly those
  segments carry the flag, the two token counts are those of the two parts, and the prefix hash is
  the hash of exactly those segments.\<close>

theorem graph_splits_at_first_dynamic:
  "let g = compile_prompt_graph E r;
       stable = takeWhile prefixable (pg_segments g);
       tail = dropWhile prefixable (pg_segments g)
   in filter seg_in_stable_prefix (pg_segments g) = stable
    \<and> list_all (\<lambda>s. \<not> seg_in_stable_prefix s) tail
    \<and> pg_stable_prefix_tokens g = sum_list (map seg_token_count stable)
    \<and> pg_dynamic_tokens g = sum_list (map seg_token_count tail)
    \<and> pg_stable_prefix_hash g = hash_json E (PList (map segment_hash_payload stable))"
proof -
  have unmarked: "filter seg_in_stable_prefix (dropWhile prefixable (merged_segments E r)) = []"
    "list_all (\<lambda>s. \<not> seg_in_stable_prefix s) (dropWhile prefixable (merged_segments E r))"
    using merged_unmarked[of E r] by (auto simp: filter_empty_conv list_all_iff dest: set_dropWhileD)
  have "pg_dynamic_tokens (compile_prompt_graph E r)
        = sum_list (map seg_token_count (dropWhile prefixable (merged_segments E r)))"
    by (simp add: compile_prompt_graph_def mark_prefix_open Let_def comp_def)
  then show ?thesis
    unfolding Let_def graph_prefix graph_fields(6) graph_fields(4)
    using unmarked by (simp add: graph_fields(5) comp_def)
qed

section \<open>What a cache key stands for\<close>

lemma sort_key_sorted_again: "sort_key f (sort_key f xs) = sort_key f xs"
  by (rule sort_key_id_if_sorted) simp

lemma json_sort_normalize [simp]: "json_sort (normalize_value v) = normalize_value v"
proof (induction v rule: normalize_value.induct)
  case (2 xs)
  then show ?case by (simp add: map_idI)
next
  case (3 d)
  have "map (map_prod id json_sort) (sort_key fst (map (map_prod id normalize_value) d))
        = sort_key fst (map (map_prod id normalize_value) d)"
    using 3 by (intro map_idI) auto
  then show ?case by (simp add: sort_key_sorted_again)
qed simp_all

lemma floats_in_normalize: "floats_in F v \<Longrightarrow> floats_in F (normalize_value v)"
  by (induction v rule: normalize_value.induct) (auto simp: list_all_iff)

lemma canonical_json_inj:
  assumes "float_texts F (pe_frepr E)" and "floats_in F v" and "floats_in F w"
    and "canonical_json E v = canonical_json E w"
  shows "json_sort v = json_sort w"
  using assms(4) unfolding canonical_json_def
  by (rule json_dumps_inj[OF plain.escape_code_axioms assms(1)
        floats_in_json_sort[OF assms(2)] floats_in_json_sort[OF assms(3)]])

lemma json_sort_items:
  assumes "json_sort (PDict d) = json_sort (PDict e)"
  shows "set (map (map_prod id json_sort) d) = set (map (map_prod id json_sort) e)"
proof -
  have "set (sort_key fst (map (map_prod id json_sort) d)) = set (sort_key fst (map (map_prod id json_sort) e))"
    using assms by simp
  then show ?thesis by (simp only: set_sort)
qed

lemma json_sort_field:
  assumes "json_sort (PDict d) = json_sort (PDict e)" and "dict_ok d" and "dict_ok e"
  shows "map_option json_sort (dget d k) = map_option json_sort (dget e k)"
proof -
  have lookup: "map_of (map (map_prod id json_sort) c) k = map_option json_sort (dget c k)" for c
    by (induction c) auto
  have keys: "dkeys (map (map_prod id json_sort) c) = dkeys c" for c
    by (simp add: comp_def)
  have "map_of (map (map_prod id json_sort) d) = map_of (map (map_prod id json_sort) e)"
    using assms json_sort_items[OF assms(1)] by (subst map_of_inject_set) (simp_all only: keys)
  then show ?thesis by (metis lookup)
qed

text \<open>The values a request puts into its segments, in the order of the segments.\<close>

definition segment_sources :: "compile_request \<Rightarrow> pyval list" where
  "segment_sources r =
     (case cr_tools r of None \<Rightarrow> [] | Some ts \<Rightarrow> [tools_value ts])
     @ (case cr_tool_choice r of None \<Rightarrow> [] | Some tc \<Rightarrow> [tool_choice_value tc])
     @ map message_payload (cr_messages r)"

lemma sources_hashed:
  "map seg_content_hash (merged_segments E r) = map (\<lambda>v. pe_sha E (canonicalize_content E v)) (segment_sources r)"
proof -
  have "map seg_content_hash (map (\<lambda>(idx, m). message_segment E s l idx m) (enumerate i ms))
        = map (\<lambda>m. pe_sha E (canonicalize_content E (message_payload m))) ms" for s l i ms
    by (induction ms arbitrary: i) (simp_all add: message_segment_def new_segment_def Let_def)
  then have "map seg_content_hash (inferred_segments E r)
             = map (\<lambda>v. pe_sha E (canonicalize_content E v)) (segment_sources r)"
    by (auto simp: inferred_segments_def tool_segments_def segment_sources_def new_segment_def comp_def split: option.split)
  moreover have "map seg_content_hash (merged_segments E r) = map seg_content_hash (inferred_segments E r)"
    using arg_cong[OF merged_segments_content, of "map (\<lambda>(a, b, c, d). b)"] by (simp add: comp_def)
  ultimately show ?thesis by simp
qed

lemma source_is_dict: "v \<in> set (segment_sources r) \<Longrightarrow> \<exists>d. v = PDict d"
  by (auto simp: segment_sources_def tools_value_def tool_choice_value_def message_payload_def split: option.splits)

lemma canonicalize_dict: "canonicalize_content E (PDict d) = canonical_json E (normalize_value (PDict d))"
  by (simp add: canonicalize_content_def)

lemma canonicalize_source_inj:
  assumes "float_texts F (pe_frepr E)" and "v \<in> set (segment_sources r)" and "w \<in> set (segment_sources q)"
    and "floats_in F v" and "floats_in F w" and "canonicalize_content E v = canonicalize_content E w"
  shows "normalize_value v = normalize_value w"
proof -
  obtain d e where "v = PDict d" "w = PDict e" using source_is_dict assms(2,3) by blast
  then have "json_sort (normalize_value v) = json_sort (normalize_value w)"
    using assms(4-6) by (intro canonical_json_inj[OF assms(1)])
      (auto simp: floats_in_normalize canonicalize_dict simp del: normalize_value.simps)
  then show ?thesis by simp
qed

lemma Stability_value_inj: "Stability_value a = Stability_value b \<Longrightarrow> a = b"
  by (cases a; cases b) simp_all

lemma segment_payload_inj:
  assumes "json_sort (segment_hash_payload s) = json_sort (segment_hash_payload t)"
    and "seg_in_stable_prefix s = seg_in_stable_prefix t"
  shows "s = t"
proof -
  note field = json_sort_field[OF assms(1)[unfolded segment_hash_payload_def]]
  show ?thesis
    using field[of "''name''"] field[of "''role''"] field[of "''content_hash''"] field[of "''segment_type''"]
      field[of "''stability''"] field[of "''token_count''"] field[of "''scope''"] field[of "''multimodal''"] assms(2)
    by (intro PromptSegment.equality) (simp_all add: Stability_value_inj)
qed

lemma opt_str_inj: "json_sort (opt_str a) = json_sort (opt_str b) \<Longrightarrow> a = b"
  by (auto simp: opt_str_def split: option.splits)

lemma cache_key_payload_inj:
  assumes "json_sort (cache_key_payload g s v q) = json_sort (cache_key_payload g' s' v' q')"
  shows "pg_backend g = pg_backend g' \<and> pg_model_id g = pg_model_id g' \<and> pg_tokenizer_hash g = pg_tokenizer_hash g'
       \<and> pg_chat_template_hash g = pg_chat_template_hash g' \<and> pg_stable_prefix_hash g = pg_stable_prefix_hash g'
       \<and> s = s' \<and> v = v' \<and> q = q'"
proof -
  note field = json_sort_field[OF assms[unfolded cache_key_payload_def]]
  show ?thesis
    using field[of "''backend''"] field[of "''model_id''"] field[of "''tokenizer_hash''"]
      field[of "''chat_template_hash''"] field[of "''stable_prefix_hash''"] field[of "''scope''"]
      field[of "''model_revision''"] field[of "''quantization''"]
    by (simp add: opt_str_inj)
qed

text \<open>The texts that are hashed on the way to a key.\<close>

definition key_payload :: "prompt_env \<Rightarrow> compile_request \<Rightarrow> string \<Rightarrow> string option \<Rightarrow> string option \<Rightarrow> pyval" where
  "key_payload E r scope revision quantization =
     cache_key_payload (compile_prompt_graph E r) scope revision quantization"

definition hashed_texts :: "prompt_env \<Rightarrow> compile_request \<Rightarrow> string \<Rightarrow> string option \<Rightarrow> string option \<Rightarrow> string set" where
  "hashed_texts E r scope revision quantization =
     set (map (canonicalize_content E) (segment_sources r))
     \<union> {canonical_json E (PList (map segment_hash_payload (stable_segments E r))),
        canonical_json E (key_payload E r scope revision quantization)}"

lemma floats_in_payloads [simp]:
  "floats_in F (segment_hash_payload s)"
  "floats_in F (key_payload E r scope revision quantization)"
  by (simp_all add: segment_hash_payload_def key_payload_def cache_key_payload_def opt_str_def split: option.split)

lemma stable_unmarked: "s \<in> set (stable_segments E r) \<Longrightarrow> \<not> seg_in_stable_prefix s"
  using merged_unmarked[of E r] by (auto simp: stable_segments_def list_all_iff dest: set_takeWhileD)

lemma payloads_determine_segments:
  assumes "map json_sort (map segment_hash_payload ss) = map json_sort (map segment_hash_payload ts)"
    and "\<And>s. s \<in> set ss \<union> set ts \<Longrightarrow> \<not> seg_in_stable_prefix s"
  shows "ss = ts"
  using assms
proof (induction ss arbitrary: ts)
  case (Cons s ss)
  then obtain t ts' where ts: "ts = t # ts'" by (cases ts) auto
  with Cons.prems have "s = t" by (intro segment_payload_inj) auto
  moreover have "ss = ts'" using Cons.prems ts by (intro Cons.IH) auto
  ultimately show ?case using ts by simp
qed simp

lemma graph_marked: "filter seg_in_stable_prefix (pg_segments (compile_prompt_graph E r)) =
     map (\<lambda>s. s\<lparr>seg_in_stable_prefix := True\<rparr>) (stable_segments E r)"
  using merged_unmarked[of E r]
  by (auto simp: graph_fields(5) filter_empty_conv list_all_iff comp_def dest: set_dropWhileD)

lemma stable_sources:
  "map seg_content_hash (stable_segments E r) =
     map (\<lambda>v. pe_sha E (canonicalize_content E v)) (take (length (stable_segments E r)) (segment_sources r))"
proof -
  have *: "map f (takeWhile P xs) = take (length (takeWhile P xs)) (map f xs)" for f P and xs :: "PromptSegment list"
    by (induction xs) simp_all
  show ?thesis unfolding stable_segments_def take_map[symmetric] sources_hashed[symmetric] by (rule *)
qed

lemma map_eq_take:
  assumes "map f (take n xs) = map f (take n ys)"
    and "\<And>x y. x \<in> set xs \<Longrightarrow> y \<in> set ys \<Longrightarrow> f x = f y \<Longrightarrow> g x = g y"
  shows "map g (take n xs) = map g (take n ys)"
proof -
  have "list_all2 (\<lambda>x y. f x = f y) (take n xs) (take n ys)"
    using assms(1) unfolding list.rel_eq[symmetric] list.rel_map .
  then have "list_all2 (\<lambda>x y. g x = g y) (take n xs) (take n ys)"
    by (rule list.rel_mono_strong) (use assms(2) in \<open>blast dest: in_set_takeD\<close>)
  then show ?thesis unfolding list.rel_eq[symmetric] list.rel_map .
qed

lemma hashed_texts_members:
  "v \<in> set (segment_sources r) \<Longrightarrow> canonicalize_content E v \<in> hashed_texts E r scope u q"
  "canonical_json E (PList (map segment_hash_payload (stable_segments E r))) \<in> hashed_texts E r scope u q"
  "canonical_json E (key_payload E r scope u q) \<in> hashed_texts E r scope u q"
  by (simp_all only: hashed_texts_def set_map) blast+

lemma cache_keys_determine_prefix:
  assumes key: "build_threadwake_cache_key E (compile_prompt_graph E r) s v q =
                build_threadwake_cache_key E (compile_prompt_graph E r') s' v' q'"
    and sha: "inj_on (pe_sha E) (hashed_texts E r s v q \<union> hashed_texts E r' s' v' q')"
    and fl: "float_texts F (pe_frepr E)" "list_all (floats_in F) (segment_sources r @ segment_sources r')"
  defines "g \<equiv> compile_prompt_graph E r" and "g' \<equiv> compile_prompt_graph E r'"
    and "n \<equiv> length (filter seg_in_stable_prefix (pg_segments (compile_prompt_graph E r)))"
  shows "cr_backend r = cr_backend r' \<and> cr_model_id r = cr_model_id r' \<and> v = v' \<and> q = q'
       \<and> cr_tokenizer_hash r = cr_tokenizer_hash r' \<and> pg_chat_template_hash g = pg_chat_template_hash g' \<and> s = s'
       \<and> filter seg_in_stable_prefix (pg_segments g) = filter seg_in_stable_prefix (pg_segments g')
       \<and> map normalize_value (take n (segment_sources r)) = map normalize_value (take n (segment_sources r'))"
proof -
  have "canonical_json E (key_payload E r s v q) = canonical_json E (key_payload E r' s' v' q')"
    using key unfolding build_threadwake_cache_key_def hash_json_def key_payload_def[symmetric]
    by (rule inj_onD[OF sha]) (blast intro: hashed_texts_members)+
  then have "json_sort (key_payload E r s v q) = json_sort (key_payload E r' s' v' q')"
    by (rule canonical_json_inj[OF fl(1) floats_in_payloads(2) floats_in_payloads(2)])
  note same = cache_key_payload_inj[OF this[unfolded key_payload_def]]
  let ?p = "\<lambda>r. PList (map segment_hash_payload (stable_segments E r))"
  have "canonical_json E (?p r) = canonical_json E (?p r')"
    using same[THEN conjunct2, THEN conjunct2, THEN conjunct2, THEN conjunct2, THEN conjunct1]
    unfolding graph_fields(4) hash_json_def by (rule inj_onD[OF sha]) (blast intro: hashed_texts_members)+
  then have "json_sort (?p r) = json_sort (?p r')"
    by (rule canonical_json_inj[OF fl(1), rotated 2]) (simp_all add: list_all_iff)
  then have segs: "stable_segments E r = stable_segments E r'"
    by (intro payloads_determine_segments) (auto dest: stable_unmarked)
  have n: "n = length (stable_segments E r)" by (simp add: n_def graph_marked)
  have hashes: "map (\<lambda>v. pe_sha E (canonicalize_content E v)) (take n (segment_sources r)) =
        map (\<lambda>v. pe_sha E (canonicalize_content E v)) (take n (segment_sources r'))"
    unfolding n using stable_sources[of E r] stable_sources[of E r'] segs by simp
  have "map normalize_value (take n (segment_sources r)) = map normalize_value (take n (segment_sources r'))"
  proof (rule map_eq_take[OF hashes])
    fix x y assume xy: "x \<in> set (segment_sources r)" "y \<in> set (segment_sources r')"
      and "pe_sha E (canonicalize_content E x) = pe_sha E (canonicalize_content E y)"
    then have "canonicalize_content E x = canonicalize_content E y"
      by (elim inj_onD[OF sha]) (blast intro: hashed_texts_members)+
    then show "normalize_value x = normalize_value y"
      using canonicalize_source_inj[OF fl(1) xy] fl(2) xy by (auto simp: list_all_iff)
  qed
  with same segs show ?thesis by (simp add: g_def g'_def graph_marked graph_fields(1-3))
qed

text \<open>C22. Two requests with the same cache key have the same reusable prefix: when the digest does not
  collide on the texts hashed for the two requests and float texts are decimal and tell floats
  apart, equal keys mean the same backend, model, revision, quantization, tokenizer, template and
  scope, the same stable segments, and the same tools and messages behind them up to line endings
  and the order of dictionary keys.\<close>

theorem equal_cache_keys_same_prefix:
  assumes key: "build_threadwake_cache_key E (compile_prompt_graph E r) s v q =
                build_threadwake_cache_key E (compile_prompt_graph E r') s' v' q'"
    and sha: "inj_on (pe_sha E) (hashed_texts E r s v q \<union> hashed_texts E r' s' v' q')"
    and fl: "float_texts F (pe_frepr E)" "list_all (floats_in F) (segment_sources r @ segment_sources r')"
  defines "g \<equiv> compile_prompt_graph E r" and "g' \<equiv> compile_prompt_graph E r'"
    and "n \<equiv> length (filter seg_in_stable_prefix (pg_segments (compile_prompt_graph E r)))"
  shows "cr_backend r = cr_backend r' \<and> cr_model_id r = cr_model_id r' \<and> v = v' \<and> q = q'
       \<and> cr_tokenizer_hash r = cr_tokenizer_hash r' \<and> pg_chat_template_hash g = pg_chat_template_hash g' \<and> s = s'
       \<and> filter seg_in_stable_prefix (pg_segments g) = filter seg_in_stable_prefix (pg_segments g')
       \<and> map normalize_value (take n (segment_sources r)) = map normalize_value (take n (segment_sources r'))"
  using cache_keys_determine_prefix[OF key sha fl] unfolding g_def g'_def n_def .

definition demo_prompt_env :: prompt_env where
  "demo_prompt_env =
     \<lparr>pe_sha = (\<lambda>s. s), pe_frepr = (\<lambda>_. ''0.5''), pe_validate_metadata = (\<lambda>_. None), pe_validate_segment = (\<lambda>_. None)\<rparr>"

definition demo_prompt :: "string \<Rightarrow> compile_request" where
  "demo_prompt t =
     \<lparr>cr_messages = [text_message ''system'' ''Be brief.'', text_message ''user'' t], cr_model_id = Some ''m'',
      cr_backend = Some ''mlx'', cr_tools = None, cr_tool_choice = None, cr_tokenizer_hash = None,
      cr_chat_template_hash = None, cr_scope = ''thread'', cr_codexify_segments = RawNone, cr_allow_global = False\<rparr>"

lemma demo_prompt_stable:
  "stable_segments demo_prompt_env (demo_prompt t) =
     [message_segment demo_prompt_env ''thread'' (Some 1) 0 (text_message ''system'' ''Be brief.'')]"
  by (simp add: stable_segments_def merged_segments_def inferred_segments_def tool_segments_def demo_prompt_def
      parse_codexify_segments_def latest_user_index_def message_segment_def new_segment_def message_stability_def
      text_message_def Let_def)

lemma stable_prefix_determines_key:
  assumes "stable_segments E r = stable_segments E r'" and "cr_backend r = cr_backend r'"
    and "cr_model_id r = cr_model_id r'" and "cr_tokenizer_hash r = cr_tokenizer_hash r'"
    and "cr_chat_template_hash r = cr_chat_template_hash r'"
  shows "build_threadwake_cache_key E (compile_prompt_graph E r) s v q =
         build_threadwake_cache_key E (compile_prompt_graph E r') s v q"
proof -
  have "pg_chat_template_hash (compile_prompt_graph E r) = pg_chat_template_hash (compile_prompt_graph E r')"
    using assms(5) by (simp add: compile_prompt_graph_def Let_def split: prod.split)
  then show ?thesis
    using assms by (simp add: build_threadwake_cache_key_def cache_key_payload_def graph_fields)
qed

theorem equal_cache_keys_same_prefix_witness:
  "filter seg_in_stable_prefix (pg_segments (compile_prompt_graph demo_prompt_env (demo_prompt ''one''))) =
   filter seg_in_stable_prefix (pg_segments (compile_prompt_graph demo_prompt_env (demo_prompt ''two'')))
   \<and> filter seg_in_stable_prefix (pg_segments (compile_prompt_graph demo_prompt_env (demo_prompt ''one''))) \<noteq> []"
proof -
  have key: "build_threadwake_cache_key demo_prompt_env (compile_prompt_graph demo_prompt_env (demo_prompt ''one''))
               ''thread'' None None =
             build_threadwake_cache_key demo_prompt_env (compile_prompt_graph demo_prompt_env (demo_prompt ''two''))
               ''thread'' None None"
    by (rule stable_prefix_determines_key) (simp_all add: demo_prompt_stable, simp_all add: demo_prompt_def)
  have sha: "inj_on (pe_sha demo_prompt_env) A" for A
    by (simp add: demo_prompt_env_def)
  have texts: "float_texts {} (pe_frepr demo_prompt_env)" by (simp add: float_texts_def)
  have floats: "list_all (floats_in {}) (segment_sources (demo_prompt ''one'') @ segment_sources (demo_prompt ''two''))"
    by (simp add: segment_sources_def demo_prompt_def message_payload_def text_message_def content_value_def opt_field_def)
  show ?thesis
    using equal_cache_keys_same_prefix[OF key sha texts floats] by (simp add: graph_marked demo_prompt_stable)
qed

section \<open>Metadata and eligibility\<close>

lemma graph_content:
  "map (\<lambda>s. (seg_role s, seg_content_hash s, seg_token_count s, seg_multimodal s)) (pg_segments (compile_prompt_graph E r)) =
   map (\<lambda>s. (seg_role s, seg_content_hash s, seg_token_count s, seg_multimodal s)) (inferred_segments E r)"
proof -
  have "map f (map (\<lambda>s. s\<lparr>seg_in_stable_prefix := True\<rparr>) (takeWhile P xs) @ dropWhile P xs) = map f xs"
    if "\<And>s. f (s\<lparr>seg_in_stable_prefix := True\<rparr>) = f s" for f :: "PromptSegment \<Rightarrow> 'b" and P xs
    using that by (induction xs) simp_all
  from this[of "\<lambda>s. (seg_role s, seg_content_hash s, seg_token_count s, seg_multimodal s)" prefixable "merged_segments E r"]
  show ?thesis by (simp only: graph_fields(5) stable_segments_def merged_segments_content) simp
qed

lemma graph_totals:
  "pg_ordered_segment_hashes (compile_prompt_graph E q) = map seg_content_hash (inferred_segments E q)"
  "pg_full_prefix_chain_hash (compile_prompt_graph E q) = chain_hash E (map seg_content_hash (inferred_segments E q))"
  "pg_stable_prefix_tokens (compile_prompt_graph E q) + pg_dynamic_tokens (compile_prompt_graph E q)
     = sum_list (map seg_token_count (inferred_segments E q))"
proof -
  let ?segs = "pg_segments (compile_prompt_graph E q)"
  have c: "map seg_content_hash ?segs = map seg_content_hash (inferred_segments E q)"
    and t: "map seg_token_count ?segs = map seg_token_count (inferred_segments E q)"
    using arg_cong[OF graph_content[of E q], of "map (\<lambda>(a, b, c, d). b)"]
      arg_cong[OF graph_content[of E q], of "map (\<lambda>(a, b, c, d). c)"] by (simp_all add: comp_def)
  have fields: "pg_ordered_segment_hashes (compile_prompt_graph E q) = map seg_content_hash ?segs"
    "pg_full_prefix_chain_hash (compile_prompt_graph E q) = chain_hash E (map seg_content_hash ?segs)"
    "pg_dynamic_tokens (compile_prompt_graph E q) = sum_list (map seg_token_count ?segs)
        - pg_stable_prefix_tokens (compile_prompt_graph E q)"
    by (simp_all add: compile_prompt_graph_def Let_def split: prod.split)
  show "pg_ordered_segment_hashes (compile_prompt_graph E q) = map seg_content_hash (inferred_segments E q)"
    "pg_full_prefix_chain_hash (compile_prompt_graph E q) = chain_hash E (map seg_content_hash (inferred_segments E q))"
    using fields c by simp_all
  have "pg_stable_prefix_tokens (compile_prompt_graph E q) \<le> sum_list (map seg_token_count ?segs)"
    by (simp add: graph_fields comp_def)
  then show "pg_stable_prefix_tokens (compile_prompt_graph E q) + pg_dynamic_tokens (compile_prompt_graph E q)
     = sum_list (map seg_token_count (inferred_segments E q))" using t fields(3) by simp
qed

text \<open>Client-supplied segment metadata cannot forge content: with any metadata at all the compiled
  graph has the roles, content hashes, token counts and multimodal flags of the graph compiled
  without metadata, hence the same session chain and the same total number of tokens.\<close>

theorem metadata_keeps_content:
  "let g = compile_prompt_graph E r; g' = compile_prompt_graph E (r\<lparr>cr_codexify_segments := RawNone\<rparr>);
       view = map (\<lambda>s. (seg_role s, seg_content_hash s, seg_token_count s, seg_multimodal s))
   in view (pg_segments g) = view (pg_segments g')
    \<and> pg_ordered_segment_hashes g = pg_ordered_segment_hashes g'
    \<and> pg_full_prefix_chain_hash g = pg_full_prefix_chain_hash g'
    \<and> pg_stable_prefix_tokens g + pg_dynamic_tokens g = pg_stable_prefix_tokens g' + pg_dynamic_tokens g'"
proof -
  have inferred: "inferred_segments E (r\<lparr>cr_codexify_segments := RawNone\<rparr>) = inferred_segments E r"
    by (simp add: inferred_segments_def tool_segments_def split: option.split)
  show ?thesis unfolding Let_def graph_content graph_totals inferred by simp
qed

text \<open>A request is eligible for prefix reuse exactly when ThreadWake is enabled in a supported
  mode, model and backend are known, no multimodal segment is in the stable prefix and the prefix
  has the minimum number of tokens; only then is the prefix reported as reusable.\<close>

theorem eligible_iff:
  "let o1 = evaluate_threadwake_policy graph config in
     (to_eligible o1 \<longleftrightarrow>
        tc_enabled config = Some True
      \<and> tc_mode config \<in> {Some TW_OBSERVE, Some TW_EPHEMERAL, Some TW_SESSION}
      \<and> (case graph of
           None \<Rightarrow> False
         | Some g \<Rightarrow> str_true (pg_model_id g) \<and> str_true (pg_backend g)
             \<and> \<not> list_ex (\<lambda>s. seg_in_stable_prefix s \<and> seg_multimodal s) (pg_segments g)
             \<and> (case tc_min_stable_prefix_tokens config of None \<Rightarrow> 1024 | Some n \<Rightarrow> n) \<le> int (pg_stable_prefix_tokens g)))
   \<and> to_estimated_prefill_reuse_tokens o1 = (if to_eligible o1 then pg_stable_prefix_tokens (the graph) else 0)
   \<and> to_cache_hit o1 = False \<and> to_can_reuse_kv o1 = False"
  by (cases graph)
    (auto simp: evaluate_threadwake_policy_def new_observation_def Let_def DEFAULT_MIN_STABLE_PREFIX_TOKENS_def
      split: option.splits if_splits ThreadWakeMode.splits)

text \<open>Metadata is indexed by message but applied by segment: with a \<open>tools\<close> segment in front, an entry
  validated against the latest user message (index 1) is applied to the system message.\<close>

definition demo_meta :: CodexifySegmentMeta where
  "demo_meta =
     \<lparr>cm_name = ''latest'', cm_message_index = 1, cm_content_path = None, cm_segment_type = ''user'',
      cm_stability = None, cm_scope = ''thread'', cm_content_hash = None, cm_cacheable = None\<rparr>"

lemma metadata_applied_to_other_segment:
  "map (\<lambda>s. (seg_name s, seg_role s, seg_stability s))
     (merged_segments demo_prompt_env
        ((demo_prompt t)\<lparr>cr_tools := Some [], cr_codexify_segments := RawParsed [demo_meta]\<rparr>)) =
   [(''tools'', ''tool_schema'', STABLE), (''latest'', ''system'', DYNAMIC), (''message:1:user'', ''user'', DYNAMIC)]"
proof -
  have "show_nat 1 = ''1''" by code_simp
  then show ?thesis
    by (simp add: merged_segments_def parse_codexify_segments_def validate_and_merge_segments_def demo_meta_def
        inferred_segments_def tool_segments_def demo_prompt_def latest_user_index_def message_segment_def
        new_segment_def message_stability_def text_message_def validate_single_meta_def apply_meta_def
        meta_stability_def meta_segment_type_def CODEXIFY_TYPE_DEFAULTS_def Let_def)
qed

end
