(* ===== verification/ThreadWake_KV.thy ===== *)
theory ThreadWake_KV
  imports ThreadWake_Prompt
begin

text \<open>
  What the ThreadWake manager works with: KV handles (\<open>handles.py\<close>), the adapters of backends that
  keep KV state and their registry (\<open>backend.py\<close>, \<open>mlx_kv.py\<close>), the tokenizer adapters
  (\<open>tokenization.py\<close>, \<open>mlx_tokenizer.py\<close>), the lifecycle observer with its ring buffer
  (\<open>kv_lifecycle.py\<close>) and the metrics (\<open>metrics.py\<close>).

  An adapter is a record of operations over a backend state of any type \<open>'s\<close>; an operation that raises
  returns \<open>Inl\<close>. Identifiers that the code draws from \<open>uuid4\<close> and readings of the clock are
  arguments. The MLX library (prompt cache, generation, tokenizer, template rendering) is outside the
  repository and enters as functions.
\<close>

section \<open>Handles\<close>

datatype KVCapability = KV_UNSUPPORTED | KV_EXPERIMENTAL | KV_PREFILL_ONLY | KV_RESUMABLE | KV_CLONEABLE | KV_SERIALIZABLE

fun KVCapability_value :: "KVCapability \<Rightarrow> string" where
  "KVCapability_value KV_UNSUPPORTED = ''unsupported''"
| "KVCapability_value KV_EXPERIMENTAL = ''experimental''"
| "KVCapability_value KV_PREFILL_ONLY = ''prefill_only''"
| "KVCapability_value KV_RESUMABLE = ''resumable''"
| "KVCapability_value KV_CLONEABLE = ''cloneable''"
| "KVCapability_value KV_SERIALIZABLE = ''serializable''"

record KVHandle =
  kv_id :: string
  kv_backend :: string
  kv_model_id :: string
  kv_token_count :: nat
  kv_created_at :: real
  kv_last_used_at :: real
  kv_scope :: string
  kv_metadata :: "(string, pyval) dict"
  kv_opaque_ref :: "pyval option"

text \<open>A handle with the field defaults of the model.\<close>

definition new_handle :: "string \<Rightarrow> real \<Rightarrow> string \<Rightarrow> string \<Rightarrow> nat \<Rightarrow> pyval option \<Rightarrow> KVHandle" where
  "new_handle hid now backend model_id token_count opaque =
     \<lparr>kv_id = hid, kv_backend = backend, kv_model_id = model_id, kv_token_count = token_count,
      kv_created_at = now, kv_last_used_at = now, kv_scope = ''thread'', kv_metadata = [], kv_opaque_ref = opaque\<rparr>"

definition kv_touch :: "real \<Rightarrow> KVHandle \<Rightarrow> KVHandle" where
  "kv_touch now h = h\<lparr>kv_last_used_at := now\<rparr>"

text \<open>The public part of a handle: every field but the opaque reference.\<close>

definition kv_public_snapshot ::
  "KVHandle \<Rightarrow> string \<times> string \<times> string \<times> nat \<times> real \<times> real \<times> string \<times> (string, pyval) dict" where
  "kv_public_snapshot h =
     (kv_id h, kv_backend h, kv_model_id h, kv_token_count h, kv_created_at h, kv_last_used_at h, kv_scope h,
      kv_metadata h)"

section \<open>KV adapters\<close>

datatype kv_exn = KVRuntimeError string | KVTypeError | KVValueError

type_synonym gen_params = "(string, pyval) dict"

record 's kv_adapter =
  ka_supports :: KVCapability
  ka_prefill :: "string \<Rightarrow> real \<Rightarrow> string list \<Rightarrow> string \<Rightarrow> 's \<Rightarrow> (kv_exn + KVHandle) \<times> 's"
  ka_generate :: "KVHandle \<Rightarrow> string list \<Rightarrow> gen_params \<Rightarrow> 's \<Rightarrow> (kv_exn + string list) \<times> 's"
  ka_clone :: "string \<Rightarrow> real \<Rightarrow> KVHandle \<Rightarrow> 's \<Rightarrow> (kv_exn + KVHandle) \<times> 's"
  ka_release :: "KVHandle \<Rightarrow> 's \<Rightarrow> KVHandle \<times> 's"

definition NoOpKVBackendAdapter :: "'s kv_adapter" where
  "NoOpKVBackendAdapter =
     \<lparr>ka_supports = KV_UNSUPPORTED,
      ka_prefill = (\<lambda>_ _ _ _ s. (Inl (KVRuntimeError ''prefill_to_kv is not supported by this backend; use the standard full-prefill generation path''), s)),
      ka_generate = (\<lambda>_ _ _ s. (Inl (KVRuntimeError ''generate_from_kv is not supported by this backend; use the standard generation path''), s)),
      ka_clone = (\<lambda>_ _ _ s. (Inl (KVRuntimeError ''clone_kv is not supported by this backend; use the standard full-prefill generation path''), s)),
      ka_release = (\<lambda>h s. (h, s))\<rparr>"

subsection \<open>The in-memory backend\<close>

record FakeKVBackend =
  fk_store :: "(string, string list) dict"
  fk_prefill_calls :: "(nat \<times> string) list"
  fk_generate_from_kv_calls :: "(nat \<times> nat \<times> gen_params) list"
  fk_clone_calls :: nat
  fk_release_calls :: nat

definition fk_init :: FakeKVBackend where
  "fk_init = \<lparr>fk_store = [], fk_prefill_calls = [], fk_generate_from_kv_calls = [], fk_clone_calls = 0,
              fk_release_calls = 0\<rparr>"

definition fk_prefill_to_kv ::
  "string \<Rightarrow> real \<Rightarrow> string list \<Rightarrow> string \<Rightarrow> FakeKVBackend \<Rightarrow> (kv_exn + KVHandle) \<times> FakeKVBackend" where
  "fk_prefill_to_kv hid now tokens model_id b =
     (let store_key = model_id @ '':prefill'' in
      (Inr (new_handle hid now ''fake'' model_id (length tokens)
              (Some (PDict [(''store_key'', PStr store_key), (''model_id'', PStr model_id)]))),
       b\<lparr>fk_store := dset store_key tokens (fk_store b),
         fk_prefill_calls := fk_prefill_calls b @ [(length tokens, model_id)]\<rparr>))"

text \<open>\<open>opaque.get("store_key", "")\<close> of \<open>kv_handle.opaque_ref or {}\<close>.\<close>

definition fk_store_key :: "KVHandle \<Rightarrow> string" where
  "fk_store_key h =
     (case kv_opaque_ref h of
        Some (PDict d) \<Rightarrow> (case dget d ''store_key'' of Some (PStr k) \<Rightarrow> k | _ \<Rightarrow> [])
      | _ \<Rightarrow> [])"

definition fk_generate_from_kv ::
  "KVHandle \<Rightarrow> string list \<Rightarrow> gen_params \<Rightarrow> FakeKVBackend \<Rightarrow> (kv_exn + string list) \<times> FakeKVBackend" where
  "fk_generate_from_kv h new_tokens params b =
     (let prefix_len = (case dget (fk_store b) (fk_store_key h) of None \<Rightarrow> 0 | Some ts \<Rightarrow> length ts);
          b' = b\<lparr>fk_generate_from_kv_calls := fk_generate_from_kv_calls b @ [(prefix_len, length new_tokens, params)]\<rparr> in
      case (case dget params ''max_tokens'' of None \<Rightarrow> PInt 16 | Some v \<Rightarrow> v) of
        PInt n \<Rightarrow> (Inr (map (\<lambda>i. ''tk_'' @ show_nat i) [0..<nat (min n 256)]), b')
      | PBool t \<Rightarrow> (Inr (map (\<lambda>i. ''tk_'' @ show_nat i) [0..<(if t then 1 else 0)]), b')
      | _ \<Rightarrow> (Inl KVTypeError, b'))"

definition fk_clone_kv ::
  "string \<Rightarrow> real \<Rightarrow> KVHandle \<Rightarrow> FakeKVBackend \<Rightarrow> (kv_exn + KVHandle) \<times> FakeKVBackend" where
  "fk_clone_kv cid now h b =
     (Inr (h\<lparr>kv_id := cid, kv_created_at := now, kv_last_used_at := now\<rparr>), b\<lparr>fk_clone_calls := fk_clone_calls b + 1\<rparr>)"

definition fk_release_kv :: "KVHandle \<Rightarrow> FakeKVBackend \<Rightarrow> FakeKVBackend" where
  "fk_release_kv h b =
     b\<lparr>fk_release_calls := fk_release_calls b + 1, fk_store := dpop (fk_store_key h) (fk_store b)\<rparr>"

definition fk_reset :: "FakeKVBackend \<Rightarrow> FakeKVBackend" where
  "fk_reset b =
     b\<lparr>fk_store := [], fk_prefill_calls := [], fk_generate_from_kv_calls := [], fk_clone_calls := 0,
       fk_release_calls := 0\<rparr>"

definition FakeKVBackend_adapter :: "FakeKVBackend kv_adapter" where
  "FakeKVBackend_adapter =
     \<lparr>ka_supports = KV_RESUMABLE, ka_prefill = fk_prefill_to_kv, ka_generate = fk_generate_from_kv,
      ka_clone = fk_clone_kv, ka_release = (\<lambda>h s. (h, fk_release_kv h s))\<rparr>"

subsection \<open>The MLX backend\<close>

text \<open>What the MLX library does: fill a prompt cache from tokens, and generate from a cache.\<close>

record mlx_lib =
  ml_experimental :: bool
  ml_feasible :: bool
  ml_model_loaded :: bool
  ml_tokenizer_loaded :: bool
  ml_make_cache :: "string list \<Rightarrow> pyval option"
  ml_stream_generate :: "pyval \<Rightarrow> string list \<Rightarrow> pyval \<Rightarrow> string list option"

definition mlx_supports_kv_cache :: "mlx_lib \<Rightarrow> KVCapability" where
  "mlx_supports_kv_cache L = (if ml_experimental L \<and> ml_feasible L then KV_EXPERIMENTAL else KV_UNSUPPORTED)"

definition mlx_prefill_to_kv ::
  "mlx_lib \<Rightarrow> string \<Rightarrow> real \<Rightarrow> string list \<Rightarrow> string \<Rightarrow> 's \<Rightarrow> (kv_exn + KVHandle) \<times> 's" where
  "mlx_prefill_to_kv L hid now tokens model_id s =
     (if \<not> ml_model_loaded L then
        (Inl (KVRuntimeError ''MLX KV prefill: model not loaded''), s)
      else if tokens = [] then (Inl (KVRuntimeError ''MLX KV prefill failed''), s)
      else
        case ml_make_cache L tokens of
          None \<Rightarrow> (Inl (KVRuntimeError ''MLX KV prefill failed''), s)
        | Some cache \<Rightarrow>
            (Inr (new_handle hid now ''mlx'' model_id (length tokens) (Some (PDict [(''prompt_cache'', cache)]))), s))"

definition mlx_generate_from_kv ::
  "mlx_lib \<Rightarrow> KVHandle \<Rightarrow> string list \<Rightarrow> gen_params \<Rightarrow> 's \<Rightarrow> (kv_exn + string list) \<times> 's" where
  "mlx_generate_from_kv L h new_tokens params s =
     (if \<not> ml_model_loaded L \<or> \<not> ml_tokenizer_loaded L then
        (Inl (KVRuntimeError ''MLX KV generate: model or tokenizer not loaded''), s)
      else
        case kv_opaque_ref h of
          Some (PDict d) \<Rightarrow>
            (case dget d ''prompt_cache'' of
               None \<Rightarrow> (Inl (KVRuntimeError ''MLX KV generate: KV handle has no prompt_cache''), s)
             | Some cache \<Rightarrow>
                 (case ml_stream_generate L cache new_tokens
                         (case dget params ''max_tokens'' of None \<Rightarrow> PInt 256 | Some v \<Rightarrow> v) of
                    None \<Rightarrow> (Inl (KVRuntimeError ''generation failed''), s)
                  | Some texts \<Rightarrow> (Inr (filter (\<lambda>t. t \<noteq> []) texts), s)))
        | _ \<Rightarrow> (Inl (KVRuntimeError ''MLX KV generate: KV handle has no prompt_cache''), s))"

definition mlx_clone_kv :: "string \<Rightarrow> real \<Rightarrow> KVHandle \<Rightarrow> 's \<Rightarrow> (kv_exn + KVHandle) \<times> 's" where
  "mlx_clone_kv cid now h s =
     (Inl (KVRuntimeError ''MLX KV clone is not implemented yet; use the standard full-prefill path''), s)"

text \<open>Releasing drops the cache from the handle's dictionary; the backend state is unchanged.\<close>

definition mlx_release_kv :: "KVHandle \<Rightarrow> KVHandle" where
  "mlx_release_kv h =
     (case kv_opaque_ref h of
        Some (PDict d) \<Rightarrow> h\<lparr>kv_opaque_ref := Some (PDict (dpop ''prompt_cache'' d))\<rparr>
      | _ \<Rightarrow> h)"

definition MLXKVBackendAdapter :: "mlx_lib \<Rightarrow> 's kv_adapter" where
  "MLXKVBackendAdapter L =
     \<lparr>ka_supports = mlx_supports_kv_cache L, ka_prefill = mlx_prefill_to_kv L, ka_generate = mlx_generate_from_kv L,
      ka_clone = mlx_clone_kv, ka_release = (\<lambda>h s. (mlx_release_kv h, s))\<rparr>"

subsection \<open>The registry\<close>

type_synonym 's kv_registry = "(string, 's kv_adapter) dict"

definition kv_register :: "string \<Rightarrow> 's kv_adapter \<Rightarrow> 's kv_registry \<Rightarrow> 's kv_registry" where
  "kv_register backend adapter reg = dset backend adapter reg"

definition kv_get :: "'s kv_registry \<Rightarrow> string \<Rightarrow> 's kv_adapter" where
  "kv_get reg backend = (case dget reg backend of None \<Rightarrow> NoOpKVBackendAdapter | Some a \<Rightarrow> a)"

definition kv_capability :: "'s kv_registry \<Rightarrow> string \<Rightarrow> KVCapability" where
  "kv_capability reg backend = ka_supports (kv_get reg backend)"

definition is_kv_capable :: "'s kv_registry \<Rightarrow> string \<Rightarrow> bool" where
  "is_kv_capable reg backend \<longleftrightarrow> kv_capability reg backend \<noteq> KV_UNSUPPORTED"

definition kv_registered_backends :: "'s kv_registry \<Rightarrow> string list" where
  "kv_registered_backends reg = sort (dkeys reg)"

definition kv_clear :: "'s kv_registry \<Rightarrow> 's kv_registry" where
  "kv_clear reg = []"

section \<open>Tokenizers\<close>

datatype TokenizerCapability = TK_UNSUPPORTED | TK_ESTIMATES_ONLY | TK_TOKEN_IDS | TK_TOKEN_IDS_WITH_SPANS

fun TokenizerCapability_value :: "TokenizerCapability \<Rightarrow> string" where
  "TokenizerCapability_value TK_UNSUPPORTED = ''unsupported''"
| "TokenizerCapability_value TK_ESTIMATES_ONLY = ''estimates_only''"
| "TokenizerCapability_value TK_TOKEN_IDS = ''token_ids''"
| "TokenizerCapability_value TK_TOKEN_IDS_WITH_SPANS = ''token_ids_with_spans''"

record TokenSpan =
  ts_segment_name :: string
  ts_segment_index :: nat
  ts_start :: nat
  ts_end :: nat
  ts_token_count :: nat
  ts_segment_type :: string
  ts_stability :: string
  ts_scope :: string
  ts_content_hash :: string

record TokenizedPrompt =
  tp_model_id :: string
  tp_backend :: string
  tp_tokenizer_hash :: "string option"
  tp_chat_template_hash :: "string option"
  tp_token_ids :: "int list"
  tp_stable_prefix_token_ids :: "int list"
  tp_dynamic_tail_token_ids :: "int list"
  tp_spans :: "TokenSpan list"
  tp_stable_prefix_token_count :: nat
  tp_dynamic_tail_token_count :: nat
  tp_real_tokenization :: bool
  tp_unavailable_reason :: "string option"

definition unavailable_prompt :: "string \<Rightarrow> string \<Rightarrow> TokenizedPrompt" where
  "unavailable_prompt model_id reason =
     \<lparr>tp_model_id = model_id, tp_backend = [], tp_tokenizer_hash = None, tp_chat_template_hash = None, tp_token_ids = [],
      tp_stable_prefix_token_ids = [], tp_dynamic_tail_token_ids = [], tp_spans = [], tp_stable_prefix_token_count = 0,
      tp_dynamic_tail_token_count = 0, tp_real_tokenization = False, tp_unavailable_reason = Some reason\<rparr>"

record tokenizer_adapter =
  ta_supports :: TokenizerCapability
  ta_tokenize :: "PromptGraph \<Rightarrow> ChatMessage list \<Rightarrow> string \<Rightarrow> kv_exn + TokenizedPrompt option"

definition tokenizer_stub :: "TokenizerCapability \<Rightarrow> string \<Rightarrow> tokenizer_adapter" where
  "tokenizer_stub cap reason =
     \<lparr>ta_supports = cap, ta_tokenize = (\<lambda>_ _ model_id. Inr (Some (unavailable_prompt model_id reason)))\<rparr>"

definition NoOpTokenizerAdapter :: tokenizer_adapter where
  "NoOpTokenizerAdapter = tokenizer_stub TK_UNSUPPORTED ''backend_tokenizer_unsupported''"

definition MLXTokenizerAdapterStub :: tokenizer_adapter where
  "MLXTokenizerAdapterStub = tokenizer_stub TK_ESTIMATES_ONLY ''mlx_real_tokenization_not_implemented''"

definition LlamaCppTokenizerAdapterStub :: tokenizer_adapter where
  "LlamaCppTokenizerAdapterStub = tokenizer_stub TK_UNSUPPORTED ''llama_cpp_no_local_tokenizer''"

definition MlxLmServerTokenizerAdapterStub :: tokenizer_adapter where
  "MlxLmServerTokenizerAdapterStub = tokenizer_stub TK_UNSUPPORTED ''mlx_lm_server_no_local_tokenizer''"

definition MlxVlmTokenizerAdapterStub :: tokenizer_adapter where
  "MlxVlmTokenizerAdapterStub = tokenizer_stub TK_UNSUPPORTED ''mlx_vlm_no_local_tokenizer''"

definition ForwardingTokenizerAdapterStub :: tokenizer_adapter where
  "ForwardingTokenizerAdapterStub = tokenizer_stub TK_UNSUPPORTED ''forwarding_no_tokenizer_access''"

subsection \<open>The deterministic tokenizer\<close>

text \<open>\<open>int(chunk, 16)\<close> on the digits of a digest; \<open>None\<close> is \<open>ValueError\<close>.\<close>

definition hex_digit_val :: "char \<Rightarrow> int option" where
  "hex_digit_val c =
     (if is_digit c then Some (int (cp c) - 48)
      else if 97 \<le> cp c \<and> cp c \<le> 102 then Some (int (cp c) - 87)
      else if 65 \<le> cp c \<and> cp c \<le> 70 then Some (int (cp c) - 55)
      else None)"

fun hex_int_from :: "int \<Rightarrow> string \<Rightarrow> int option" where
  "hex_int_from acc [] = Some acc"
| "hex_int_from acc (c # cs) =
     (case hex_digit_val c of None \<Rightarrow> None | Some d \<Rightarrow> hex_int_from (16 * acc + d) cs)"

definition hex_int :: "string \<Rightarrow> int option" where
  "hex_int s = (if s = [] then None else hex_int_from 0 s)"

text \<open>The identifiers of one segment; \<open>None\<close> when the digest is empty or not hexadecimal.\<close>

definition fake_chunk :: "string \<Rightarrow> nat \<Rightarrow> int option" where
  "fake_chunk h j =
     (if h = [] then None
      else
        let offset = (j * 4) mod length h; chunk = take 4 (drop offset h) in
        map_option (\<lambda>n. n mod 65536) (hex_int (if chunk = [] then ''0000'' else chunk)))"

definition fake_segment_ids :: "PromptSegment \<Rightarrow> int list option" where
  "fake_segment_ids seg =
     (case validate_all (fake_chunk (seg_content_hash seg)) [0..<min (seg_token_count seg) 64] of
        None \<Rightarrow> None
      | Some ids \<Rightarrow> Some (if ids = [] then [0] else ids))"

fun fake_spans :: "nat \<Rightarrow> nat \<Rightarrow> (PromptSegment \<times> int list) list \<Rightarrow> TokenSpan list" where
  "fake_spans i cursor [] = []"
| "fake_spans i cursor ((seg, ids) # rest) =
     \<lparr>ts_segment_name = seg_name seg, ts_segment_index = i, ts_start = cursor, ts_end = cursor + length ids,
      ts_token_count = length ids, ts_segment_type = seg_segment_type seg,
      ts_stability = Stability_value (seg_stability seg), ts_scope = seg_scope seg,
      ts_content_hash = seg_content_hash seg\<rparr> # fake_spans (Suc i) (cursor + length ids) rest"

text \<open>\<open>all_ids[span.start:span.end]\<close> of each segment, collected for the segments that satisfy \<open>P\<close>.\<close>

fun span_ids :: "int list \<Rightarrow> (PromptSegment \<Rightarrow> bool) \<Rightarrow> PromptSegment list \<Rightarrow> TokenSpan list \<Rightarrow> int list" where
  "span_ids ids P (seg # segs) (sp # sps) =
     (if P seg then take (ts_end sp - ts_start sp) (drop (ts_start sp) ids) else [])
     @ span_ids ids P segs sps"
| "span_ids ids P _ _ = []"

definition fake_tokenize_prompt :: "PromptGraph \<Rightarrow> ChatMessage list \<Rightarrow> string \<Rightarrow> kv_exn + TokenizedPrompt option" where
  "fake_tokenize_prompt g messages model_id =
     (case validate_all fake_segment_ids (pg_segments g) of
        None \<Rightarrow> Inl KVValueError
      | Some idss \<Rightarrow>
          let all_ids = concat idss;
              spans = fake_spans 0 0 (zip (pg_segments g) idss);
              stable_ids = span_ids all_ids seg_in_stable_prefix (pg_segments g) spans;
              dynamic_ids = span_ids all_ids (\<lambda>s. \<not> seg_in_stable_prefix s) (pg_segments g) spans in
          Inr (Some \<lparr>tp_model_id = model_id, tp_backend = case_option [] id (pg_backend g), tp_tokenizer_hash = None,
                tp_chat_template_hash = None, tp_token_ids = all_ids, tp_stable_prefix_token_ids = stable_ids,
                tp_dynamic_tail_token_ids = dynamic_ids, tp_spans = spans,
                tp_stable_prefix_token_count = length stable_ids, tp_dynamic_tail_token_count = length dynamic_ids,
                tp_real_tokenization = True, tp_unavailable_reason = None\<rparr>))"

definition FakeTokenizerAdapter :: tokenizer_adapter where
  "FakeTokenizerAdapter = \<lparr>ta_supports = TK_TOKEN_IDS_WITH_SPANS, ta_tokenize = fake_tokenize_prompt\<rparr>"

subsection \<open>The MLX tokenizer\<close>

text \<open>The tokenizer object: its name and vocabulary size, its template text, \<open>apply_chat_template\<close> (if it
  has one; it may raise), \<open>encode\<close>, and the texts that Python and the logging helper produce.\<close>

record mlx_tokenizer =
  mt_name_or_path :: string
  mt_vocab_size :: int
  mt_chat_template :: "string option"
  mt_apply_chat_template :: "((string \<times> string) list \<Rightarrow> string option) option"
  mt_encode :: "string \<Rightarrow> int list option"
  mt_str_parts :: "pyval list \<Rightarrow> string"
  mt_error :: string

definition extract_chat_messages :: "mlx_tokenizer \<Rightarrow> ChatMessage list \<Rightarrow> (string \<times> string) list" where
  "extract_chat_messages T ms =
     map (\<lambda>m. (msg_role m, case msg_content m of CText t \<Rightarrow> t | CParts ps \<Rightarrow> mt_str_parts T ps)) ms"

definition transcript_line :: "string \<times> string \<Rightarrow> string" where
  "transcript_line m =
     (case m of (role, content) \<Rightarrow>
        if role = ''system'' then ''System: '' @ content
        else if role = ''assistant'' then ''Assistant: '' @ content
        else ''User: '' @ content)"

definition render_mlx_chat_prompt :: "mlx_tokenizer \<Rightarrow> (string \<times> string) list \<Rightarrow> string option" where
  "render_mlx_chat_prompt T ms =
     (case mt_apply_chat_template T of
        Some apply_template \<Rightarrow> apply_template ms
      | None \<Rightarrow> Some (py_join [LF] (map transcript_line ms @ [''Assistant: ''])))"

definition tokenizer_hash :: "(string \<Rightarrow> string) \<Rightarrow> mlx_tokenizer \<Rightarrow> string" where
  "tokenizer_hash sha T = sha (mt_name_or_path T @ '':'' @ py_str_int (mt_vocab_size T))"

definition chat_template_hash :: "(string \<Rightarrow> string) \<Rightarrow> mlx_tokenizer \<Rightarrow> string option" where
  "chat_template_hash sha T = map_option sha (mt_chat_template T)"

definition mlx_stable_messages :: "PromptGraph \<Rightarrow> (string \<times> string) list \<Rightarrow> (string \<times> string) list" where
  "mlx_stable_messages g messages =
     map (\<lambda>(i, seg). messages ! i)
       (filter (\<lambda>(i, seg). seg_in_stable_prefix seg \<and> i < length messages) (enumerate 0 (pg_segments g)))"

text \<open>The split of the full identifiers; \<open>None\<close> is an exception of the renderer.\<close>

definition mlx_split ::
  "mlx_tokenizer \<Rightarrow> PromptGraph \<Rightarrow> (string \<times> string) list \<Rightarrow> int list \<Rightarrow> (int list \<times> int list) option" where
  "mlx_split T g messages all_ids =
     (let stable_messages = mlx_stable_messages g messages in
      if stable_messages \<noteq> [] \<and> length stable_messages < length messages then
        (case render_mlx_chat_prompt T stable_messages of
           None \<Rightarrow> None
         | Some stable_prompt \<Rightarrow>
             (case mt_encode T stable_prompt of
                None \<Rightarrow> Some ([], all_ids)
              | Some stable_ids \<Rightarrow>
                  if length stable_ids \<le> length all_ids \<and> take (length stable_ids) all_ids = stable_ids
                  then Some (stable_ids, drop (length stable_ids) all_ids)
                  else Some ([], all_ids)))
      else Some ([], all_ids))"

definition mlx_spans :: "PromptGraph \<Rightarrow> TokenSpan list" where
  "mlx_spans g =
     map (\<lambda>(i, seg). \<lparr>ts_segment_name = seg_name seg, ts_segment_index = i, ts_start = 0, ts_end = 0,
            ts_token_count = seg_token_count seg, ts_segment_type = seg_segment_type seg,
            ts_stability = Stability_value (seg_stability seg), ts_scope = seg_scope seg,
            ts_content_hash = seg_content_hash seg\<rparr>) (enumerate 0 (pg_segments g))"

definition mlx_tokenize_prompt ::
  "(string \<Rightarrow> string) \<Rightarrow> mlx_tokenizer option \<Rightarrow> PromptGraph \<Rightarrow> ChatMessage list \<Rightarrow> string \<Rightarrow> TokenizedPrompt" where
  "mlx_tokenize_prompt sha tokenizer g request_messages model_id =
     (case tokenizer of
        None \<Rightarrow> unavailable_prompt model_id ''mlx_tokenizer_not_available''
      | Some T \<Rightarrow>
          let failed = (\<lambda>reason. (unavailable_prompt model_id reason)
                 \<lparr>tp_backend := ''mlx'', tp_tokenizer_hash := Some (tokenizer_hash sha T),
                  tp_chat_template_hash := chat_template_hash sha T\<rparr>);
              messages = extract_chat_messages T request_messages in
          if messages = [] then failed ''no_messages_to_tokenize''
          else
            case render_mlx_chat_prompt T messages of
              None \<Rightarrow> failed (''mlx_tokenizer_error: '' @ mt_error T)
            | Some full_prompt \<Rightarrow>
                (case mt_encode T full_prompt of
                   None \<Rightarrow> failed ''tokenization_failed''
                 | Some all_ids \<Rightarrow>
                     (case mlx_split T g messages all_ids of
                        None \<Rightarrow> failed (''mlx_tokenizer_error: '' @ mt_error T)
                      | Some (stable_ids, dynamic_ids) \<Rightarrow>
                          \<lparr>tp_model_id = model_id, tp_backend = ''mlx'',
                                tp_tokenizer_hash = Some (tokenizer_hash sha T),
                                tp_chat_template_hash = chat_template_hash sha T, tp_token_ids = all_ids,
                                tp_stable_prefix_token_ids = stable_ids, tp_dynamic_tail_token_ids = dynamic_ids,
                                tp_spans = mlx_spans g, tp_stable_prefix_token_count = length stable_ids,
                                tp_dynamic_tail_token_count = length dynamic_ids, tp_real_tokenization = True,
                                tp_unavailable_reason = None\<rparr>)))"

definition MLXInProcessTokenizerAdapter :: "(string \<Rightarrow> string) \<Rightarrow> mlx_tokenizer option \<Rightarrow> tokenizer_adapter" where
  "MLXInProcessTokenizerAdapter sha tokenizer =
     \<lparr>ta_supports = (if tokenizer = None then TK_ESTIMATES_ONLY else TK_TOKEN_IDS),
      ta_tokenize = (\<lambda>g ms model_id. Inr (Some (mlx_tokenize_prompt sha tokenizer g ms model_id)))\<rparr>"

subsection \<open>The registry\<close>

type_synonym tokenizer_registry = "(string, tokenizer_adapter) dict"

definition tok_register :: "string \<Rightarrow> tokenizer_adapter \<Rightarrow> tokenizer_registry \<Rightarrow> tokenizer_registry" where
  "tok_register backend adapter reg = dset backend adapter reg"

definition tok_unregister :: "string \<Rightarrow> tokenizer_registry \<Rightarrow> tokenizer_registry" where
  "tok_unregister backend reg = dpop backend reg"

definition tok_get :: "tokenizer_registry \<Rightarrow> string \<Rightarrow> tokenizer_adapter" where
  "tok_get reg backend = (case dget reg backend of None \<Rightarrow> NoOpTokenizerAdapter | Some a \<Rightarrow> a)"

definition tok_capability :: "tokenizer_registry \<Rightarrow> string \<Rightarrow> TokenizerCapability" where
  "tok_capability reg backend = ta_supports (tok_get reg backend)"

definition has_real_tokenization :: "tokenizer_registry \<Rightarrow> string \<Rightarrow> bool" where
  "has_real_tokenization reg backend \<longleftrightarrow>
     tok_capability reg backend = TK_TOKEN_IDS \<or> tok_capability reg backend = TK_TOKEN_IDS_WITH_SPANS"

definition tok_registered_backends :: "tokenizer_registry \<Rightarrow> string list" where
  "tok_registered_backends reg = sort (dkeys reg)"

definition tok_clear :: "tokenizer_registry \<Rightarrow> tokenizer_registry" where
  "tok_clear reg = []"

section \<open>Lifecycle events\<close>

datatype KVEventType =
    capability_reported | kv_created | kv_reused | kv_cloned | kv_released | kv_invalidated | kv_evicted | kv_error
  | generation_started | generation_completed | generation_cancelled

record KVEvent =
  ev_event_id :: string
  ev_event_type :: KVEventType
  ev_backend :: "string option"
  ev_model_id :: "string option"
  ev_capability :: "string option"
  ev_request_id_hash :: "string option"
  ev_thread_id_hash :: "string option"
  ev_cache_key_hash :: "string option"
  ev_kv_handle_id_hash :: "string option"
  ev_token_start :: "int option"
  ev_token_end :: "int option"
  ev_token_count :: "nat option"
  ev_reason :: "string option"
  ev_timestamp :: real

definition hash_id :: "(string \<Rightarrow> string) \<Rightarrow> string option \<Rightarrow> string option" where
  "hash_id sha v = map_option (\<lambda>x. take 16 (sha x)) v"

text \<open>\<open>KVEvent.create\<close> with the arguments the recorders pass; the others default to \<open>None\<close>.\<close>

definition event_create ::
  "(string \<Rightarrow> string) \<Rightarrow> string \<Rightarrow> real \<Rightarrow> KVEventType \<Rightarrow> string option \<Rightarrow> string option \<Rightarrow> string option \<Rightarrow> string option
   \<Rightarrow> string option \<Rightarrow> nat option \<Rightarrow> string option \<Rightarrow> KVEvent" where
  "event_create sha eid now etype backend model_id capability cache_key kv_handle_id token_count reason =
     \<lparr>ev_event_id = eid, ev_event_type = etype, ev_backend = backend, ev_model_id = model_id, ev_capability = capability,
      ev_request_id_hash = None, ev_thread_id_hash = None, ev_cache_key_hash = hash_id sha cache_key,
      ev_kv_handle_id_hash = hash_id sha kv_handle_id, ev_token_start = None, ev_token_end = None,
      ev_token_count = token_count, ev_reason = reason, ev_timestamp = now\<rparr>"

record KVLifecycleStats =
  ls_events_total :: nat
  ls_events_by_type :: "(KVEventType, nat) dict"
  ls_events_by_backend :: "(string, nat) dict"
  ls_active_handles_estimate :: nat
  ls_created_total :: nat
  ls_cloned_total :: nat
  ls_reused_total :: nat
  ls_released_total :: nat
  ls_invalidated_total :: nat
  ls_evicted_total :: nat
  ls_errors_total :: nat
  ls_last_event_at :: "real option"

definition new_lifecycle_stats :: KVLifecycleStats where
  "new_lifecycle_stats =
     \<lparr>ls_events_total = 0, ls_events_by_type = [], ls_events_by_backend = [], ls_active_handles_estimate = 0,
      ls_created_total = 0, ls_cloned_total = 0, ls_reused_total = 0, ls_released_total = 0, ls_invalidated_total = 0,
      ls_evicted_total = 0, ls_errors_total = 0, ls_last_event_at = None\<rparr>"

record KVLifecycleObserver =
  ko_enabled :: bool
  ko_max_events :: nat
  ko_events :: "KVEvent list"
  ko_cursor :: nat
  ko_active_handles :: nat
  ko_stats :: KVLifecycleStats

definition new_observer :: "bool \<Rightarrow> int \<Rightarrow> KVLifecycleObserver" where
  "new_observer enabled max_events =
     \<lparr>ko_enabled = enabled, ko_max_events = nat (max max_events 1), ko_events = [], ko_cursor = 0,
      ko_active_handles = 0, ko_stats = new_lifecycle_stats\<rparr>"

definition bump :: "'k \<Rightarrow> ('k, nat) dict \<Rightarrow> ('k, nat) dict" where
  "bump k d = dset k (Suc (case dget d k of None \<Rightarrow> 0 | Some n \<Rightarrow> n)) d"

definition update_stats :: "KVEvent \<Rightarrow> KVLifecycleObserver \<Rightarrow> KVLifecycleObserver" where
  "update_stats e ko =
     (let etype = ev_event_type e; s = ko_stats ko; active = ko_active_handles ko;
          s = s\<lparr>ls_events_total := ls_events_total s + 1, ls_events_by_type := bump etype (ls_events_by_type s),
                ls_events_by_backend := (if str_true (ev_backend e) then bump (the (ev_backend e)) (ls_events_by_backend s)
                                         else ls_events_by_backend s),
                ls_last_event_at := Some (ev_timestamp e)\<rparr>;
          (s, active) =
            (case etype of
               kv_created \<Rightarrow> (s\<lparr>ls_created_total := ls_created_total s + 1\<rparr>, active + 1)
             | kv_cloned \<Rightarrow> (s\<lparr>ls_cloned_total := ls_cloned_total s + 1\<rparr>, active + 1)
             | kv_reused \<Rightarrow> (s\<lparr>ls_reused_total := ls_reused_total s + 1\<rparr>, active)
             | kv_released \<Rightarrow> (s\<lparr>ls_released_total := ls_released_total s + 1\<rparr>, active - 1)
             | kv_invalidated \<Rightarrow> (s\<lparr>ls_invalidated_total := ls_invalidated_total s + 1\<rparr>, active)
             | kv_evicted \<Rightarrow> (s\<lparr>ls_evicted_total := ls_evicted_total s + 1\<rparr>, active - 1)
             | kv_error \<Rightarrow> (s\<lparr>ls_errors_total := ls_errors_total s + 1\<rparr>, active)
             | _ \<Rightarrow> (s, active))
      in ko\<lparr>ko_active_handles := active, ko_stats := s\<lparr>ls_active_handles_estimate := active\<rparr>\<rparr>)"

definition observer_record :: "KVEvent \<Rightarrow> KVLifecycleObserver \<Rightarrow> KVLifecycleObserver" where
  "observer_record e ko =
     (if \<not> ko_enabled ko then ko
      else
        let events = (if length (ko_events ko) < ko_max_events ko then ko_events ko @ [e]
                      else (ko_events ko)[ko_cursor ko mod ko_max_events ko := e])
        in update_stats e (ko\<lparr>ko_events := events, ko_cursor := ko_cursor ko + 1\<rparr>))"

definition list_events :: "int \<Rightarrow> KVEventType option \<Rightarrow> string option \<Rightarrow> KVLifecycleObserver \<Rightarrow> KVEvent list" where
  "list_events limit etype backend ko =
     (let events = ko_events ko;
          events = (case etype of None \<Rightarrow> events | Some t \<Rightarrow> filter (\<lambda>e. ev_event_type e = t) events);
          events = (if str_true backend then filter (\<lambda>e. ev_backend e = backend) events else events);
          sorted = sort_key (\<lambda>e. - ev_timestamp e) events
      in take (nat (if limit < 0 then int (length sorted) + limit else limit)) sorted)"

definition observer_clear :: "KVLifecycleObserver \<Rightarrow> nat \<times> KVLifecycleObserver" where
  "observer_clear ko =
     (length (ko_events ko),
      ko\<lparr>ko_events := [], ko_cursor := 0, ko_active_handles := 0, ko_stats := new_lifecycle_stats\<rparr>)"

section \<open>Metrics\<close>

type_synonym metric_label = "string \<times> string \<times> string \<times> string \<times> string"

record ThreadWakeMetrics =
  tm_counters :: "(string, int) dict"
  tm_labeled :: "(metric_label, nat) dict"

definition METRIC_COUNTERS :: "string list" where
  "METRIC_COUNTERS =
     [''threadwake_observations_total'', ''threadwake_eligible_total'', ''threadwake_ineligible_total'',
      ''threadwake_estimated_reuse_tokens_total'', ''threadwake_cache_hits_total'', ''threadwake_cache_misses_total'',
      ''threadwake_cache_evictions_total'', ''threadwake_prefix_tokens_matched_total'', ''threadwake_kv_events_total'',
      ''threadwake_kv_errors_total'', ''threadwake_kv_active_handles_estimate'', ''threadwake_candidate_selections_total'',
      ''threadwake_candidate_high_confidence_total'', ''threadwake_candidate_medium_confidence_total'',
      ''threadwake_candidate_low_confidence_total'', ''threadwake_candidate_potential_saved_tokens_total'']"

definition new_metrics :: ThreadWakeMetrics where
  "new_metrics = \<lparr>tm_counters = map (\<lambda>k. (k, 0)) METRIC_COUNTERS, tm_labeled = []\<rparr>"

text \<open>\<open>self.counters[k] += n\<close>; the counters are created with every key.\<close>

definition inc :: "string \<Rightarrow> int \<Rightarrow> (string, int) dict \<Rightarrow> (string, int) dict" where
  "inc k n d = dset k ((case dget d k of None \<Rightarrow> 0 | Some m \<Rightarrow> m) + n) d"

definition REASON_MAP :: "(string, string) dict" where
  "REASON_MAP =
     [(''threadwake_disabled'', ''threadwake_disabled''), (''prompt_graph_missing'', ''prompt_graph_missing''),
      (''model_id_missing'', ''model_id_missing''), (''backend_missing'', ''backend_missing''),
      (''backend_capable_but_ineligible'', ''backend_missing''), (''mode_not_supported'', ''mode_not_supported''),
      (''stable_prefix_contains_multimodal'', ''stable_prefix_contains_multimodal''),
      (''stable_prefix_below_min_tokens'', ''stable_prefix_below_min_tokens''),
      (''backend_unsupported'', ''backend_unsupported''), (''backend_unknown'', ''backend_unknown''),
      (''observe_mode_not_reusing'', ''mode_not_supported''), (''scope_not_compatible'', ''scope_not_compatible''),
      (''backend_failure'', ''backend_failure'')]"

definition coerce_reason :: "string option \<Rightarrow> string" where
  "coerce_reason raw_reason =
     (case raw_reason of
        None \<Rightarrow> ''eligible''
      | Some r \<Rightarrow>
          (case dget REASON_MAP r of
             Some m \<Rightarrow> m
           | None \<Rightarrow> (case find (\<lambda>kv. startswith r (fst kv)) REASON_MAP of
                        Some kv \<Rightarrow> snd kv
                      | None \<Rightarrow> ''other'')))"

definition inc_labeled :: "string \<Rightarrow> ThreadWakeObservation \<Rightarrow> string \<Rightarrow> ThreadWakeMetrics \<Rightarrow> ThreadWakeMetrics" where
  "inc_labeled outcome ob reason m =
     m\<lparr>tm_labeled :=
        bump (''threadwake_'' @ outcome @ ''_total'', ThreadWakeMode_value (to_mode ob), to_cache_scope ob,
              (if str_true (to_backend_kv_capability ob) then the (to_backend_kv_capability ob) else ''unknown''), reason)
          (tm_labeled m)\<rparr>"

definition metrics_record :: "ThreadWakeObservation \<Rightarrow> ThreadWakeMetrics \<Rightarrow> ThreadWakeMetrics" where
  "metrics_record ob m =
     (let c = inc ''threadwake_observations_total'' 1 (tm_counters m);
          reuse = int (to_estimated_prefill_reuse_tokens ob) in
      if to_eligible ob then
        let c = inc ''threadwake_estimated_reuse_tokens_total'' reuse (inc ''threadwake_eligible_total'' 1 c);
            c = (if to_cache_hit ob
                 then inc ''threadwake_prefix_tokens_matched_total'' reuse (inc ''threadwake_cache_hits_total'' 1 c)
                 else inc ''threadwake_cache_misses_total'' 1 c)
        in inc_labeled ''hits'' ob ''eligible'' (m\<lparr>tm_counters := c\<rparr>)
      else
        inc_labeled ''misses'' ob (coerce_reason (to_reason ob))
          (m\<lparr>tm_counters := inc ''threadwake_ineligible_total'' 1 c\<rparr>))"

definition record_eviction :: "int \<Rightarrow> ThreadWakeMetrics \<Rightarrow> ThreadWakeMetrics" where
  "record_eviction n m = m\<lparr>tm_counters := inc ''threadwake_cache_evictions_total'' n (tm_counters m)\<rparr>"

definition metrics_reset :: "ThreadWakeMetrics \<Rightarrow> ThreadWakeMetrics" where
  "metrics_reset m = m\<lparr>tm_counters := map (\<lambda>kv. (fst kv, 0)) (tm_counters m), tm_labeled := []\<rparr>"

abbreviation counter :: "ThreadWakeMetrics \<Rightarrow> string \<Rightarrow> int" where
  "counter m k \<equiv> case_option 0 id (dget (tm_counters m) k)"

section \<open>The ring buffer\<close>

lemma observer_record_events:
  "ko_enabled ko \<Longrightarrow> ko_events (observer_record e ko) =
     (if length (ko_events ko) < ko_max_events ko then ko_events ko @ [e]
      else (ko_events ko)[ko_cursor ko mod ko_max_events ko := e])"
  "ko_enabled ko \<Longrightarrow> ko_cursor (observer_record e ko) = Suc (ko_cursor ko)"
  "ko_enabled (observer_record e ko) = ko_enabled ko"
  "ko_max_events (observer_record e ko) = ko_max_events ko"
  by (simp_all add: observer_record_def update_stats_def Let_def split: KVEventType.split)

lemma ring_step:
  assumes "0 < k" and "length ev = k" and "rotate (n mod k) ev = l"
  shows "rotate (Suc n mod k) (ev[n mod k := e]) = tl l @ [e]"
proof -
  let ?c = "n mod k"
  have c: "?c < k" using assms(1) by simp
  have l: "l = drop ?c ev @ take ?c ev" using assms(2,3) by (simp add: rotate_drop_take)
  have ev': "ev[?c := e] = take ?c ev @ e # drop (Suc ?c) ev" using c assms(2) by (simp add: upd_conv_take_nth_drop)
  show ?thesis
  proof (cases "Suc ?c = k")
    case True
    then have "Suc n mod k = 0" by (simp add: mod_Suc)
    moreover have "drop (Suc ?c) ev = []" "tl (drop ?c ev) = []"
      using True assms(2) by (simp_all add: tl_drop drop_Suc[symmetric])
    moreover have "drop ?c ev \<noteq> []" using c assms(2) by simp
    ultimately show ?thesis by (simp add: ev' l)
  next
    case False
    then have "Suc n mod k = Suc ?c" by (simp add: mod_Suc)
    moreover have "Suc ?c < k" using False c by simp
    moreover have "tl l = drop (Suc ?c) ev @ take ?c ev"
      using c assms(2) by (simp add: l drop_Suc tl_drop[symmetric])
    ultimately show ?thesis
      using assms(2) by (simp add: rotate_drop_take ev' l)
  qed
qed

lemma ring_run:
  assumes "0 < m"
  defines "k \<equiv> nat m"
  shows "let ko = fold observer_record es (new_observer True m) in
           ko_enabled ko \<and> ko_max_events ko = k \<and> ko_cursor ko = length es
         \<and> (if length es < k then ko_events ko = es
            else length (ko_events ko) = k \<and> rotate (length es mod k) (ko_events ko) = drop (length es - k) es)"
proof (induction es rule: rev_induct)
  case Nil
  then show ?case using assms by (auto simp: new_observer_def max_def)
next
  case (snoc e es)
  let ?ko = "fold observer_record es (new_observer True m)"
  from snoc have ko: "ko_enabled ?ko" "ko_max_events ?ko = k" "ko_cursor ?ko = length es" by (simp_all add: Let_def)
  have k: "0 < k" using assms by simp
  show ?case
  proof (cases "length es < k")
    case True
    with snoc have "ko_events ?ko = es" by (simp add: Let_def)
    moreover have "rotate (Suc (length es) mod k) xs = xs" if "Suc (length es) = k" for xs :: "KVEvent list"
      using that by simp
    ultimately show ?thesis
      using True ko k by (cases "Suc (length es) = k") (simp_all add: Let_def observer_record_events)
  next
    case False
    with snoc have ring: "length (ko_events ?ko) = k" "rotate (length es mod k) (ko_events ?ko) = drop (length es - k) es"
      by (simp_all add: Let_def)
    have "tl (drop (length es - k) es) @ [e] = drop (Suc (length es) - k) (es @ [e])"
      using False k by (simp add: tl_drop drop_Suc[symmetric] Suc_diff_le)
    with ring_step[OF k ring, of e] False ko ring show ?thesis
      by (simp add: Let_def observer_record_events)
  qed
qed

text \<open>C25. The lifecycle observer's buffer always holds exactly the most recent events: up to its size it
  holds all of them in order, and beyond that it is the last \<open>max_events\<close> events, stored as a ring whose
  oldest element stands at the write cursor.\<close>

theorem ring_buffer_keeps_latest:
  "let ko = fold observer_record es (new_observer True m); k = nat (max m 1); n = length es in
     if n < k then ko_events ko = es
     else rotate (n mod k) (ko_events ko) = drop (n - k) es \<and> mset (ko_events ko) = mset (drop (n - k) es)"
proof -
  have new: "new_observer True m = new_observer True (max m 1)" by (simp add: new_observer_def)
  have rot: "mset (rotate j xs) = mset xs" for j and xs :: "KVEvent list"
    unfolding rotate_drop_take by (metis append_take_drop_id mset_append union_commute)
  have "0 < max m 1" by simp
  then show ?thesis
    using ring_run[of "max m 1" es] rot[of "length es mod nat (max m 1)" "ko_events (fold observer_record es (new_observer True (max m 1)))"]
    unfolding new[symmetric] by (cases "length es < nat (max m 1)") (simp_all add: Let_def)
qed

section \<open>The split of the token identifiers\<close>

text \<open>In a compiled graph the flagged segments come first.\<close>

definition flags_lead :: "PromptGraph \<Rightarrow> bool" where
  "flags_lead g \<longleftrightarrow>
     pg_segments g = filter seg_in_stable_prefix (pg_segments g) @ filter (\<lambda>s. \<not> seg_in_stable_prefix s) (pg_segments g)"

lemma compiled_flags_lead: "flags_lead (compile_prompt_graph E r)"
proof -
  have "filter (\<lambda>s. \<not> seg_in_stable_prefix s) (dropWhile prefixable (merged_segments E r)) = dropWhile prefixable (merged_segments E r)"
    using merged_unmarked[of E r] by (intro filter_True) (auto simp: list_all_iff dest: set_dropWhileD)
  then show ?thesis
    unfolding flags_lead_def graph_marked by (simp add: graph_fields(5) filter_empty_conv)
qed

text \<open>What the manager relies on of a tokenizer: the two parts of a real tokenization make up the whole.\<close>

locale prompt_splitter =
  fixes tokenize :: "PromptGraph \<Rightarrow> ChatMessage list \<Rightarrow> string \<Rightarrow> kv_exn + TokenizedPrompt option"
  assumes splits:
    "\<lbrakk>flags_lead g; tokenize g ms mid = Inr (Some tp); tp_real_tokenization tp\<rbrakk>
     \<Longrightarrow> tp_stable_prefix_token_ids tp @ tp_dynamic_tail_token_ids tp = tp_token_ids tp"
begin

lemma tail_follows_prefix:
  assumes "tokenize (compile_prompt_graph E r) ms mid = Inr (Some tp)" and "tp_real_tokenization tp"
  shows "tp_dynamic_tail_token_ids tp = drop (length (tp_stable_prefix_token_ids tp)) (tp_token_ids tp)"
  using splits[OF compiled_flags_lead assms] by (metis append_eq_conv_conj)

end

interpretation stub: prompt_splitter "ta_tokenize (tokenizer_stub cap reason)" for cap reason
  by unfold_locales (auto simp: tokenizer_stub_def unavailable_prompt_def)

lemma mlx_split_append: "mlx_split T g ms ids = Some (a, b) \<Longrightarrow> a @ b = ids"
  by (auto simp: mlx_split_def Let_def split: if_splits option.splits) (metis append_take_drop_id)

interpretation mlx_tok: prompt_splitter "ta_tokenize (MLXInProcessTokenizerAdapter sha T)" for sha T
  by unfold_locales
    (auto simp: MLXInProcessTokenizerAdapter_def mlx_tokenize_prompt_def unavailable_prompt_def Let_def
      dest: mlx_split_append split: option.splits prod.splits if_splits)

lemma span_ids_parts:
  assumes "length segs = length idss"
  shows "span_ids (pre @ concat idss) P segs (fake_spans i (length pre) (zip segs idss)) =
         concat (map snd (filter (\<lambda>(s, ids). P s) (zip segs idss)))"
  using assms
proof (induction segs idss arbitrary: pre i rule: list_induct2)
  case (Cons s segs ids idss)
  from Cons.IH[of "pre @ ids" "Suc i"] show ?case by simp
qed simp

lemma filter_zip_append:
  assumes "xs = filter P xs @ filter (\<lambda>x. \<not> P x) xs" and "length xs = length ys"
  shows "filter (\<lambda>(x, y). P x) (zip xs ys) @ filter (\<lambda>(x, y). \<not> P x) (zip xs ys) = zip xs ys"
  using assms(2,1)
proof (induction xs ys rule: list_induct2)
  case (Cons x xs y ys)
  show ?case
  proof (cases "P x")
    case True
    with Cons show ?thesis by simp
  next
    case False
    have none: "filter P xs = []"
    proof (rule ccontr)
      assume "filter P xs \<noteq> []"
      then obtain p ps where p: "filter P xs = p # ps" by (cases "filter P xs") auto
      then have "p \<in> set (filter P xs)" by (metis list.set_intros(1))
      moreover have "x = p" using Cons.prems False p by simp
      ultimately show False using False by simp
    qed
    then have "filter (\<lambda>(x, y). P x) (zip xs ys) = []"
      by (auto simp: filter_empty_conv dest: set_zip_leftD)
    moreover from none have "filter (\<lambda>(x, y). \<not> P x) (zip xs ys) = zip xs ys"
      by (intro filter_True) (auto simp: filter_empty_conv dest: set_zip_leftD)
    ultimately show ?thesis using False by simp
  qed
qed simp

lemma validate_all_length: "validate_all f xs = Some ys \<Longrightarrow> length ys = length xs"
  by (induction xs arbitrary: ys) (auto split: option.splits)

interpretation fake_tok: prompt_splitter "ta_tokenize FakeTokenizerAdapter"
proof
  fix g ms mid tp
  assume lead: "flags_lead g" and tp: "ta_tokenize FakeTokenizerAdapter g ms mid = Inr (Some tp)"
  then obtain idss where idss: "validate_all fake_segment_ids (pg_segments g) = Some idss"
    by (auto simp: FakeTokenizerAdapter_def fake_tokenize_prompt_def split: option.splits)
  have len: "length (pg_segments g) = length idss" using validate_all_length[OF idss] by simp
  note parts = span_ids_parts[OF len, of "[]" _ 0, simplified]
  from filter_zip_append[OF lead[unfolded flags_lead_def] len]
  have "concat (map snd (filter (\<lambda>(s, ids). seg_in_stable_prefix s) (zip (pg_segments g) idss)))
        @ concat (map snd (filter (\<lambda>(s, ids). \<not> seg_in_stable_prefix s) (zip (pg_segments g) idss))) = concat idss"
    by (metis concat_append len map_append map_snd_zip)
  then show "tp_stable_prefix_token_ids tp @ tp_dynamic_tail_token_ids tp = tp_token_ids tp"
    using tp idss by (auto simp: FakeTokenizerAdapter_def fake_tokenize_prompt_def Let_def parts)
qed

text \<open>What prefix reuse needs on top: the identifiers of the prefix depend on the stable segments alone.\<close>

locale prefix_tokenizer = prompt_splitter +
  assumes prefix_only:
    "\<lbrakk>tokenize g ms mid = Inr (Some tp); tokenize g' ms' mid' = Inr (Some tp');
      filter seg_in_stable_prefix (pg_segments g) = filter seg_in_stable_prefix (pg_segments g')\<rbrakk>
     \<Longrightarrow> tp_stable_prefix_token_ids tp = tp_stable_prefix_token_ids tp'"
begin

lemma prefix_of_other_continues:
  assumes "tokenize (compile_prompt_graph E r) ms mid = Inr (Some tp)" and "tp_real_tokenization tp"
    and "tokenize g' ms' mid' = Inr (Some tp')"
    and "filter seg_in_stable_prefix (pg_segments g') = filter seg_in_stable_prefix (pg_segments (compile_prompt_graph E r))"
  shows "tp_stable_prefix_token_ids tp' @ tp_dynamic_tail_token_ids tp = tp_token_ids tp"
  using splits[OF compiled_flags_lead assms(1,2)] prefix_only[OF assms(3,1,4)] by simp

end

lemma validate_all_filter:
  assumes "validate_all f xs = Some ys"
  shows "map snd (filter (\<lambda>(x, y). P x) (zip xs ys)) = map (\<lambda>x. the (f x)) (filter P xs)"
  using assms by (induction xs arbitrary: ys) (auto split: option.splits)

lemma fake_stable_ids:
  assumes t: "ta_tokenize FakeTokenizerAdapter g ms mid = Inr (Some tp)"
  shows "tp_stable_prefix_token_ids tp = concat (map (\<lambda>x. the (fake_segment_ids x)) (filter seg_in_stable_prefix (pg_segments g)))"
proof -
  from t obtain idss where idss: "validate_all fake_segment_ids (pg_segments g) = Some idss"
    by (auto simp: FakeTokenizerAdapter_def fake_tokenize_prompt_def split: option.splits)
  have len: "length (pg_segments g) = length idss" using validate_all_length[OF idss] by simp
  show ?thesis
    using t idss span_ids_parts[OF len, of "[]" _ 0, simplified] validate_all_filter[OF idss, of seg_in_stable_prefix]
    by (auto simp: FakeTokenizerAdapter_def fake_tokenize_prompt_def Let_def)
qed

interpretation fake_tok: prefix_tokenizer "ta_tokenize FakeTokenizerAdapter"
  by unfold_locales (simp add: fake_stable_ids)

text \<open>On hexadecimal digests the deterministic tokenizer never fails, and a stable segment has tokens.\<close>

definition hex_text :: "string \<Rightarrow> bool" where
  "hex_text s \<longleftrightarrow> s \<noteq> [] \<and> list_all (\<lambda>c. hex_digit_val c \<noteq> None) s"

lemma hex_int_total: "list_all (\<lambda>c. hex_digit_val c \<noteq> None) s \<Longrightarrow> hex_int_from acc s \<noteq> None"
  by (induction s arbitrary: acc) auto

lemma validate_all_total: "(\<And>x. x \<in> set xs \<Longrightarrow> f x \<noteq> None) \<Longrightarrow> validate_all f xs \<noteq> None"
  by (induction xs) (auto split: option.split)

lemma fake_segment_ids_total:
  assumes "hex_text (seg_content_hash s)"
  shows "\<exists>ids. fake_segment_ids s = Some ids \<and> ids \<noteq> []"
proof -
  have "fake_chunk (seg_content_hash s) j \<noteq> None" for j
  proof -
    let ?chunk = "take 4 (drop ((j * 4) mod length (seg_content_hash s)) (seg_content_hash s))"
    have "list_all (\<lambda>c. hex_digit_val c \<noteq> None) ?chunk"
      using assms by (auto simp: hex_text_def list_all_iff dest: in_set_takeD in_set_dropD)
    then show ?thesis
      using assms hex_int_total[of ?chunk 0] mod_less_divisor[of "length (seg_content_hash s)" "j * 4"]
      by (auto simp: fake_chunk_def hex_text_def hex_int_def Let_def simp del: mod_less_divisor)
  qed
  then obtain ids where "validate_all (fake_chunk (seg_content_hash s)) [0..<min (seg_token_count s) 64] = Some ids"
    using validate_all_total[of "[0..<min (seg_token_count s) 64]" "fake_chunk (seg_content_hash s)"] by auto
  then show ?thesis by (simp add: fake_segment_ids_def)
qed

lemma fake_tokenizes:
  assumes "\<And>s. s \<in> set (pg_segments g) \<Longrightarrow> hex_text (seg_content_hash s)"
  obtains tp where "ta_tokenize FakeTokenizerAdapter g ms mid = Inr (Some tp)" "tp_real_tokenization tp"
    "filter seg_in_stable_prefix (pg_segments g) \<noteq> [] \<Longrightarrow> tp_stable_prefix_token_ids tp \<noteq> []"
proof -
  have "fake_segment_ids s \<noteq> None" if "s \<in> set (pg_segments g)" for s
    using fake_segment_ids_total[OF assms[OF that]] by auto
  then obtain idss where idss: "validate_all fake_segment_ids (pg_segments g) = Some idss"
    using validate_all_total[of "pg_segments g" fake_segment_ids] by auto
  then obtain tp where tp: "ta_tokenize FakeTokenizerAdapter g ms mid = Inr (Some tp)" "tp_real_tokenization tp"
    by (simp add: FakeTokenizerAdapter_def fake_tokenize_prompt_def Let_def)
  moreover have "tp_stable_prefix_token_ids tp \<noteq> []" if "filter seg_in_stable_prefix (pg_segments g) \<noteq> []"
  proof -
    obtain s where s: "s \<in> set (filter seg_in_stable_prefix (pg_segments g))"
      using \<open>filter seg_in_stable_prefix (pg_segments g) \<noteq> []\<close> by (meson list.set_sel(1))
    then have "the (fake_segment_ids s) \<noteq> []" using fake_segment_ids_total[OF assms, of s] by auto
    with s show ?thesis unfolding fake_stable_ids[OF tp(1)] by auto
  qed
  ultimately show thesis using that by blast
qed

end
