(* ===== verification/ThreadWake_Index.thy ===== *)
theory ThreadWake_Index
  imports Whoosh_Prelude
begin

text \<open>
  \<open>whooshd/runtime/threadwake/index.py\<close>: the metadata index of the prefix cache. Entries live in a
  dictionary with a list of their keys from least to most recently used; lookups are checked
  against a scope; a store evicts from the front of the list until both limits hold. Beside the
  entries the index keeps the tip of each session.

  \<open>sha\<close> stands for \<open>sha256_hex\<close>; that two identifiers have different digests is a hypothesis where
  it is used. Every method holds the index's lock from its first read to its last write, so each is
  one function. A clock reading is the argument \<open>now\<close>.

  The entry's candidate metadata (score, confidence and the rest) is kept in full by
  \<open>mark_candidate_selected\<close>; scores and ratios are \<open>real\<close>.
\<close>

section \<open>Data\<close>

datatype EntryStatus = E_OBSERVED | E_WARMING | E_READY | E_STALE | E_EVICTED

record ScopeContext =
  sc_thread_id :: "string option"
  sc_user_id :: "string option"
  sc_project_id :: "string option"

record ThreadWakeIndexEntry =
  ie_cache_key :: string
  ie_model_id :: string
  ie_backend :: string
  ie_prompt_prefix_hash :: string
  ie_token_count :: int
  ie_status :: EntryStatus
  ie_scope :: string
  ie_scope_id :: "string option"
  ie_kv_handle_id :: "string option"
  ie_created_at :: real
  ie_last_used_at :: real
  ie_hit_count :: int
  ie_estimated_memory_bytes :: int
  ie_candidate_score :: "real option"
  ie_candidate_confidence :: "string option"
  ie_candidate_selected_at :: "real option"
  ie_selection_reason :: "string option"
  ie_potential_saved_tokens :: "int option"
  ie_potential_saved_ratio :: "real option"
  ie_candidate_seen_count :: int
  ie_candidate_last_seen_at :: "real option"
  ie_tokenizer_hash :: "string option"
  ie_chat_template_hash :: "string option"

record ThreadTip =
  tip_thread_id_hash :: string
  tip_model_id :: string
  tip_backend :: string
  tip_chain_hash :: string
  tip_segment_count :: nat
  tip_ordered_segment_hashes :: "string list"
  tip_kv_handle_id :: "string option"
  tip_created_at :: real
  tip_updated_at :: real

record ThreadWakeIndex =
  ix_entries :: "(string, ThreadWakeIndexEntry) dict"
  ix_lru :: "string list"
  ix_max_entries :: int
  ix_max_memory_bytes :: int
  ix_bytes_per_token :: int
  ix_allow_global :: bool
  ix_hit_count :: int
  ix_miss_count :: int
  ix_evictions :: int
  ix_thread_tips :: "(string, ThreadTip) dict"

definition new_index :: "int \<Rightarrow> int \<Rightarrow> int \<Rightarrow> bool \<Rightarrow> ThreadWakeIndex" where
  "new_index max_entries max_memory bytes_per_token allow_global =
     \<lparr>ix_entries = [], ix_lru = [], ix_max_entries = max_entries, ix_max_memory_bytes = max_memory,
      ix_bytes_per_token = bytes_per_token, ix_allow_global = allow_global, ix_hit_count = 0,
      ix_miss_count = 0, ix_evictions = 0, ix_thread_tips = []\<rparr>"

section \<open>Internal operations\<close>

definition touch :: "real \<Rightarrow> ThreadWakeIndexEntry \<Rightarrow> ThreadWakeIndexEntry" where
  "touch now e = e\<lparr>ie_last_used_at := now, ie_hit_count := ie_hit_count e + 1\<rparr>"

definition promote_lru :: "string \<Rightarrow> string list \<Rightarrow> string list" where
  "promote_lru k l = (if k \<in> set l then remove1 k l else l) @ [k]"

definition estimate_memory :: "ThreadWakeIndex \<Rightarrow> int \<Rightarrow> int" where
  "estimate_memory ix token_count =
     (if ix_bytes_per_token ix \<le> 0 then 0 else token_count * ix_bytes_per_token ix)"

definition total_memory :: "ThreadWakeIndex \<Rightarrow> int" where
  "total_memory ix = sum_list (map ie_estimated_memory_bytes (dvals (ix_entries ix)))"

definition over_limits :: "ThreadWakeIndex \<Rightarrow> bool" where
  "over_limits ix \<longleftrightarrow>
     int (length (ix_entries ix)) > ix_max_entries ix
   \<or> (ix_max_memory_bytes ix > 0 \<and> total_memory ix > ix_max_memory_bytes ix)"

text \<open>\<open>_evict_if_needed\<close>, on the keys still in the list; \<open>None\<close> is the \<open>KeyError\<close> of a listed key
  that has no entry.\<close>

fun evict_loop :: "string list \<Rightarrow> ThreadWakeIndex \<Rightarrow> ThreadWakeIndex option" where
  "evict_loop [] ix = Some ix"
| "evict_loop (k # ks) ix =
     (if \<not> over_limits ix then Some ix
      else
        case dget (ix_entries ix) k of
          None \<Rightarrow> None
        | Some _ \<Rightarrow>
            evict_loop ks
              (ix\<lparr>ix_entries := dpop k (ix_entries ix), ix_lru := ks, ix_evictions := ix_evictions ix + 1\<rparr>))"

definition evict_if_needed :: "ThreadWakeIndex \<Rightarrow> ThreadWakeIndex option" where
  "evict_if_needed ix = evict_loop (ix_lru ix) ix"

definition scope_id_for :: "(string \<Rightarrow> string) \<Rightarrow> string \<Rightarrow> ScopeContext \<Rightarrow> string option" where
  "scope_id_for sha scope ctx =
     (if scope = ''request'' then None
      else if scope = ''thread'' then map_option sha (sc_thread_id ctx)
      else if scope = ''user'' then map_option sha (sc_user_id ctx)
      else if scope = ''project'' then map_option sha (sc_project_id ctx)
      else if scope = ''global'' then Some (sha ''global'')
      else None)"

definition ids_match :: "string option \<Rightarrow> string option \<Rightarrow> bool" where
  "ids_match lookup_id entry_scope_id =
     (case (lookup_id, entry_scope_id) of
        (None, None) \<Rightarrow> False
      | (Some a, Some b) \<Rightarrow> a = b
      | _ \<Rightarrow> False)"

text \<open>\<open>sha256_hex(x) if x else None\<close>.\<close>

definition lookup_id :: "(string \<Rightarrow> string) \<Rightarrow> string option \<Rightarrow> string option" where
  "lookup_id sha x = (if str_true x then map_option sha x else None)"

definition scope_matches :: "(string \<Rightarrow> string) \<Rightarrow> bool \<Rightarrow> ThreadWakeIndexEntry \<Rightarrow> ScopeContext \<Rightarrow> bool" where
  "scope_matches sha allow_global e ctx =
     (if ie_scope e = ''request'' then True
      else if ie_scope e = ''global'' then allow_global
      else if ie_scope e = ''thread'' then ids_match (lookup_id sha (sc_thread_id ctx)) (ie_scope_id e)
      else if ie_scope e = ''project'' then ids_match (lookup_id sha (sc_project_id ctx)) (ie_scope_id e)
      else if ie_scope e = ''user'' then ids_match (lookup_id sha (sc_user_id ctx)) (ie_scope_id e)
      else False)"

section \<open>Public operations\<close>

record observation =
  ob_cache_key :: string
  ob_model_id :: string
  ob_backend :: string
  ob_prompt_prefix_hash :: string
  ob_token_count :: int
  ob_scope :: string
  ob_context :: ScopeContext
  ob_kv_handle_id :: "string option"

datatype index_exn = GlobalScopeNotAllowed | IndexKeyError

definition new_index_entry :: "(string \<Rightarrow> string) \<Rightarrow> real \<Rightarrow> int \<Rightarrow> observation \<Rightarrow> ThreadWakeIndexEntry" where
  "new_index_entry sha now memory ob =
     \<lparr>ie_cache_key = ob_cache_key ob, ie_model_id = ob_model_id ob, ie_backend = ob_backend ob,
      ie_prompt_prefix_hash = ob_prompt_prefix_hash ob, ie_token_count = ob_token_count ob,
      ie_status = E_OBSERVED, ie_scope = ob_scope ob, ie_scope_id = scope_id_for sha (ob_scope ob) (ob_context ob),
      ie_kv_handle_id = ob_kv_handle_id ob, ie_created_at = now, ie_last_used_at = now, ie_hit_count = 0,
      ie_estimated_memory_bytes = memory, ie_candidate_score = None, ie_candidate_confidence = None,
      ie_candidate_selected_at = None, ie_selection_reason = None, ie_potential_saved_tokens = None,
      ie_potential_saved_ratio = None, ie_candidate_seen_count = 0, ie_candidate_last_seen_at = None,
      ie_tokenizer_hash = None, ie_chat_template_hash = None\<rparr>"

definition refresh_entry ::
  "(string \<Rightarrow> string) \<Rightarrow> real \<Rightarrow> int \<Rightarrow> observation \<Rightarrow> ThreadWakeIndexEntry \<Rightarrow> ThreadWakeIndexEntry" where
  "refresh_entry sha now memory ob e =
     (touch now e)
       \<lparr>ie_token_count := ob_token_count ob, ie_estimated_memory_bytes := memory,
        ie_kv_handle_id := (case ob_kv_handle_id ob of None \<Rightarrow> ie_kv_handle_id e | Some h \<Rightarrow> Some h),
        ie_scope := ob_scope ob, ie_scope_id := scope_id_for sha (ob_scope ob) (ob_context ob)\<rparr>"

text \<open>The entry a store hands back is the object it put in the index: a store that evicts its own
  entry at once hands it back marked evicted.\<close>

definition stored_entry :: "ThreadWakeIndexEntry \<Rightarrow> ThreadWakeIndex \<Rightarrow> ThreadWakeIndexEntry" where
  "stored_entry e ix =
     (if dget (ix_entries ix) (ie_cache_key e) = None then e\<lparr>ie_status := E_EVICTED\<rparr> else e)"

definition put_observation ::
  "(string \<Rightarrow> string) \<Rightarrow> real \<Rightarrow> observation \<Rightarrow> ThreadWakeIndex
   \<Rightarrow> index_exn + (ThreadWakeIndexEntry \<times> ThreadWakeIndex)" where
  "put_observation sha now ob ix =
     (if ob_scope ob = ''global'' \<and> \<not> ix_allow_global ix then Inl GlobalScopeNotAllowed
      else
        let k = ob_cache_key ob; memory = estimate_memory ix (ob_token_count ob) in
        case dget (ix_entries ix) k of
          Some existing \<Rightarrow>
            (let e = refresh_entry sha now memory ob existing in
             Inr (e, ix\<lparr>ix_entries := dset k e (ix_entries ix), ix_lru := promote_lru k (ix_lru ix)\<rparr>))
        | None \<Rightarrow>
            (let e = new_index_entry sha now memory ob in
             case evict_if_needed (ix\<lparr>ix_entries := dset k e (ix_entries ix), ix_lru := ix_lru ix @ [k]\<rparr>) of
               None \<Rightarrow> Inl IndexKeyError
             | Some ix' \<Rightarrow> Inr (stored_entry e ix', ix')))"

definition index_get ::
  "(string \<Rightarrow> string) \<Rightarrow> real \<Rightarrow> string \<Rightarrow> ScopeContext \<Rightarrow> ThreadWakeIndex
   \<Rightarrow> ThreadWakeIndexEntry option \<times> ThreadWakeIndex" where
  "index_get sha now k ctx ix =
     (let miss = (None, ix\<lparr>ix_miss_count := ix_miss_count ix + 1\<rparr>) in
      case dget (ix_entries ix) k of
        None \<Rightarrow> miss
      | Some e \<Rightarrow>
          if ie_status e = E_EVICTED then miss
          else if \<not> scope_matches sha (ix_allow_global ix) e ctx then miss
          else if ie_status e = E_STALE then miss
          else
            (Some (touch now e),
             ix\<lparr>ix_entries := dset k (touch now e) (ix_entries ix), ix_lru := promote_lru k (ix_lru ix),
                ix_hit_count := ix_hit_count ix + 1\<rparr>))"

definition mark_ready :: "string \<Rightarrow> ThreadWakeIndex \<Rightarrow> ThreadWakeIndex" where
  "mark_ready k ix =
     (case dget (ix_entries ix) k of
        None \<Rightarrow> ix
      | Some e \<Rightarrow> ix\<lparr>ix_entries := dset k (e\<lparr>ie_status := E_READY\<rparr>) (ix_entries ix),
                     ix_lru := promote_lru k (ix_lru ix)\<rparr>)"

definition mark_stale :: "string \<Rightarrow> ThreadWakeIndex \<Rightarrow> ThreadWakeIndex" where
  "mark_stale k ix =
     (case dget (ix_entries ix) k of
        None \<Rightarrow> ix
      | Some e \<Rightarrow> ix\<lparr>ix_entries := dset k (e\<lparr>ie_status := E_STALE\<rparr>) (ix_entries ix)\<rparr>)"

definition evict :: "string \<Rightarrow> ThreadWakeIndex \<Rightarrow> ThreadWakeIndex" where
  "evict k ix =
     (case dget (ix_entries ix) k of
        None \<Rightarrow> ix
      | Some e \<Rightarrow> ix\<lparr>ix_entries := dpop k (ix_entries ix), ix_lru := remove1 k (ix_lru ix),
                     ix_evictions := ix_evictions ix + 1\<rparr>)"

definition flush_match ::
  "string option \<Rightarrow> string option \<Rightarrow> string option \<Rightarrow> ThreadWakeIndexEntry \<Rightarrow> bool" where
  "flush_match scope model_id scope_id e \<longleftrightarrow>
     (scope = None \<or> scope = Some (ie_scope e))
   \<and> (model_id = None \<or> model_id = Some (ie_model_id e))
   \<and> (scope_id = None \<or> scope_id = ie_scope_id e)"

definition remove_key :: "string \<Rightarrow> ThreadWakeIndex \<Rightarrow> ThreadWakeIndex" where
  "remove_key k ix =
     ix\<lparr>ix_entries := dpop k (ix_entries ix),
        ix_lru := (if k \<in> set (ix_lru ix) then remove1 k (ix_lru ix) else ix_lru ix)\<rparr>"

definition flush ::
  "string option \<Rightarrow> string option \<Rightarrow> string option \<Rightarrow> ThreadWakeIndex \<Rightarrow> nat \<times> ThreadWakeIndex" where
  "flush scope model_id scope_id ix =
     (if scope = None \<and> model_id = None \<and> scope_id = None then
        (let count = length (ix_entries ix) in
         (count, ix\<lparr>ix_entries := [], ix_lru := [], ix_evictions := ix_evictions ix + int count\<rparr>))
      else
        let to_remove = map fst (filter (\<lambda>(k, e). flush_match scope model_id scope_id e) (ix_entries ix));
            ix' = fold remove_key to_remove ix
        in (length to_remove, ix'\<lparr>ix_evictions := ix_evictions ix + int (length to_remove)\<rparr>))"

fun EntryStatus_value :: "EntryStatus \<Rightarrow> string" where
  "EntryStatus_value E_OBSERVED = ''observed''"
| "EntryStatus_value E_WARMING = ''warming''"
| "EntryStatus_value E_READY = ''ready''"
| "EntryStatus_value E_STALE = ''stale''"
| "EntryStatus_value E_EVICTED = ''evicted''"

record ThreadWakeStats =
  st_entry_count :: nat
  st_max_entries :: int
  st_estimated_memory_bytes :: int
  st_max_memory_bytes :: int
  st_hit_count :: int
  st_miss_count :: int
  st_evictions :: int
  st_global_allowed :: bool
  st_entries_by_status :: "(string, int) dict"
  st_entries_by_scope :: "(string, int) dict"

definition count_key :: "string \<Rightarrow> (string, int) dict \<Rightarrow> (string, int) dict" where
  "count_key k d = dset k ((case dget d k of None \<Rightarrow> 0 | Some n \<Rightarrow> n) + 1) d"

definition live_entries :: "ThreadWakeIndex \<Rightarrow> ThreadWakeIndexEntry list" where
  "live_entries ix = filter (\<lambda>e. ie_status e \<noteq> E_EVICTED) (dvals (ix_entries ix))"

definition stats :: "ThreadWakeIndex \<Rightarrow> ThreadWakeStats" where
  "stats ix =
     \<lparr>st_entry_count = length (ix_entries ix), st_max_entries = ix_max_entries ix,
      st_estimated_memory_bytes = sum_list (map ie_estimated_memory_bytes (live_entries ix)),
      st_max_memory_bytes = ix_max_memory_bytes ix, st_hit_count = ix_hit_count ix,
      st_miss_count = ix_miss_count ix, st_evictions = ix_evictions ix, st_global_allowed = ix_allow_global ix,
      st_entries_by_status = fold count_key (map (\<lambda>e. EntryStatus_value (ie_status e)) (live_entries ix)) [],
      st_entries_by_scope = fold count_key (map ie_scope (live_entries ix)) []\<rparr>"

text \<open>\<open>public_snapshot\<close> drops the scope id and the fields that only the index uses; time stamps stay
  readings of the clock.\<close>

record entry_snapshot =
  sn_cache_key :: string
  sn_model_id :: string
  sn_backend :: string
  sn_prompt_prefix_hash :: string
  sn_token_count :: int
  sn_status :: string
  sn_scope :: string
  sn_kv_handle_id :: "string option"
  sn_created_at :: real
  sn_last_used_at :: real
  sn_hit_count :: int
  sn_estimated_memory_bytes :: int
  sn_candidate_score :: "real option"
  sn_candidate_confidence :: "string option"
  sn_selection_reason :: "string option"
  sn_potential_saved_tokens :: "int option"
  sn_potential_saved_ratio :: "real option"
  sn_candidate_seen_count :: int
  sn_candidate_last_seen_at :: "real option"

definition public_snapshot :: "ThreadWakeIndexEntry \<Rightarrow> entry_snapshot" where
  "public_snapshot e =
     \<lparr>sn_cache_key = ie_cache_key e, sn_model_id = ie_model_id e, sn_backend = ie_backend e,
      sn_prompt_prefix_hash = ie_prompt_prefix_hash e, sn_token_count = ie_token_count e,
      sn_status = EntryStatus_value (ie_status e), sn_scope = ie_scope e, sn_kv_handle_id = ie_kv_handle_id e,
      sn_created_at = ie_created_at e, sn_last_used_at = ie_last_used_at e, sn_hit_count = ie_hit_count e,
      sn_estimated_memory_bytes = ie_estimated_memory_bytes e, sn_candidate_score = ie_candidate_score e,
      sn_candidate_confidence = ie_candidate_confidence e, sn_selection_reason = ie_selection_reason e,
      sn_potential_saved_tokens = ie_potential_saved_tokens e, sn_potential_saved_ratio = ie_potential_saved_ratio e,
      sn_candidate_seen_count = ie_candidate_seen_count e, sn_candidate_last_seen_at = ie_candidate_last_seen_at e\<rparr>"

text \<open>\<open>xs[:limit]\<close>, a negative limit counting from the end.\<close>

definition slice_to :: "int \<Rightarrow> 'a list \<Rightarrow> 'a list" where
  "slice_to limit xs = take (nat (if limit < 0 then int (length xs) + limit else limit)) xs"

definition list_entries :: "int \<Rightarrow> ThreadWakeIndex \<Rightarrow> entry_snapshot list" where
  "list_entries limit ix =
     map public_snapshot (slice_to limit (sort_key (\<lambda>e. - ie_last_used_at e) (live_entries ix)))"

section \<open>Sessions\<close>

definition tip_key :: "(string \<Rightarrow> string) \<Rightarrow> string \<Rightarrow> string \<Rightarrow> string \<Rightarrow> string" where
  "tip_key sha thread_id model_id backend = sha thread_id @ '':'' @ model_id @ '':'' @ backend"

definition get_latest_for_thread ::
  "(string \<Rightarrow> string) \<Rightarrow> string \<Rightarrow> string \<Rightarrow> string \<Rightarrow> ThreadWakeIndex \<Rightarrow> ThreadTip option" where
  "get_latest_for_thread sha thread_id model_id backend ix =
     dget (ix_thread_tips ix) (tip_key sha thread_id model_id backend)"

definition store_thread_tip ::
  "(string \<Rightarrow> string) \<Rightarrow> real \<Rightarrow> string \<Rightarrow> string \<Rightarrow> string \<Rightarrow> string \<Rightarrow> string list \<Rightarrow> string option
   \<Rightarrow> ThreadWakeIndex \<Rightarrow> ThreadTip \<times> ThreadWakeIndex" where
  "store_thread_tip sha now thread_id model_id backend chain_hash hashes handle ix =
     (let k = tip_key sha thread_id model_id backend;
          tip = (case dget (ix_thread_tips ix) k of
                   Some t \<Rightarrow>
                     t\<lparr>tip_chain_hash := chain_hash, tip_ordered_segment_hashes := hashes,
                       tip_segment_count := length hashes, tip_kv_handle_id := handle, tip_updated_at := now\<rparr>
                 | None \<Rightarrow>
                     \<lparr>tip_thread_id_hash = sha thread_id, tip_model_id = model_id, tip_backend = backend,
                      tip_chain_hash = chain_hash, tip_segment_count = length hashes,
                      tip_ordered_segment_hashes = hashes, tip_kv_handle_id = handle,
                      tip_created_at = now, tip_updated_at = now\<rparr>)
      in (tip, ix\<lparr>ix_thread_tips := dset k tip (ix_thread_tips ix)\<rparr>))"

definition validate_monotonic_append :: "string list \<Rightarrow> string list \<Rightarrow> bool" where
  "validate_monotonic_append previous_hashes new_ordered_hashes =
     (let prev_count = length previous_hashes in
      if prev_count = 0 then True
      else if length new_ordered_hashes < prev_count then False
      else take prev_count new_ordered_hashes = previous_hashes)"

definition clear_thread_tip ::
  "(string \<Rightarrow> string) \<Rightarrow> string \<Rightarrow> string \<Rightarrow> string \<Rightarrow> ThreadWakeIndex \<Rightarrow> ThreadWakeIndex" where
  "clear_thread_tip sha thread_id model_id backend ix =
     ix\<lparr>ix_thread_tips := dpop (tip_key sha thread_id model_id backend) (ix_thread_tips ix)\<rparr>"

section \<open>Candidates\<close>

definition mark_candidate_selected ::
  "real \<Rightarrow> string \<Rightarrow> real \<Rightarrow> string \<Rightarrow> string \<Rightarrow> int \<Rightarrow> real \<Rightarrow> real option \<Rightarrow> ThreadWakeIndex
   \<Rightarrow> bool \<times> ThreadWakeIndex" where
  "mark_candidate_selected now k score confidence reason saved_tokens saved_ratio selected_at ix =
     (case dget (ix_entries ix) k of
        None \<Rightarrow> (False, ix)
      | Some e \<Rightarrow>
          (let e' = e\<lparr>ie_candidate_score := Some score, ie_candidate_confidence := Some confidence,
                      ie_candidate_selected_at := Some (case selected_at of None \<Rightarrow> now | Some t \<Rightarrow> t),
                      ie_selection_reason := Some reason, ie_potential_saved_tokens := Some saved_tokens,
                      ie_potential_saved_ratio := Some saved_ratio,
                      ie_candidate_seen_count := ie_candidate_seen_count e + 1,
                      ie_candidate_last_seen_at := Some now\<rparr>
           in (True, ix\<lparr>ix_entries := dset k e' (ix_entries ix), ix_lru := promote_lru k (ix_lru ix)\<rparr>)))"

text \<open>The sort by three keys, as three stable passes with the least significant key first.\<close>

definition list_candidates ::
  "int \<Rightarrow> string option \<Rightarrow> string option \<Rightarrow> ThreadWakeIndex \<Rightarrow> entry_snapshot list" where
  "list_candidates limit min_confidence backend ix =
     (let candidates = filter (\<lambda>e. ie_candidate_score e \<noteq> None) (live_entries ix);
          candidates = (if str_true min_confidence
                        then filter (\<lambda>e. ie_candidate_confidence e = min_confidence) candidates else candidates);
          candidates = (if str_true backend
                        then filter (\<lambda>e. Some (ie_backend e) = backend) candidates else candidates);
          sorted = sort_key (\<lambda>e. - case_option 0 id (ie_candidate_score e))
                     (sort_key (\<lambda>e. - ie_candidate_seen_count e)
                       (sort_key (\<lambda>e. - case_option 0 id (ie_candidate_last_seen_at e)) candidates))
      in map public_snapshot (take (nat (max 1 (min limit 500))) sorted))"

section \<open>Invariant\<close>

definition ix_ok :: "ThreadWakeIndex \<Rightarrow> bool" where
  "ix_ok ix \<longleftrightarrow>
     dict_ok (ix_entries ix) \<and> distinct (ix_lru ix) \<and> set (ix_lru ix) = set (dkeys (ix_entries ix))
   \<and> (\<forall>k e. dget (ix_entries ix) k = Some e \<longrightarrow> ie_cache_key e = k \<and> ie_status e \<noteq> E_EVICTED)
   \<and> int (length (ix_entries ix)) \<le> max 0 (ix_max_entries ix)"

lemma promote_lru_simps [simp]:
  "distinct l \<Longrightarrow> distinct (promote_lru k l)"
  "distinct l \<Longrightarrow> set (promote_lru k l) = insert k (set l)"
  by (auto simp: promote_lru_def)

lemma length_dset_in: "k \<in> set (dkeys d) \<Longrightarrow> length (dset k v d) = length d"
  using dkeys_dset_in[of k d v] by (metis length_map)

lemma length_dpop_le: "length (dpop k d) \<le> length d"
  by (simp add: AList.delete_eq)

text \<open>Rewriting an entry in place, with or without promoting it.\<close>

lemma ix_ok_update:
  assumes "ix_ok ix" "dget (ix_entries ix) k = Some e" "ie_cache_key e' = k" "ie_status e' \<noteq> E_EVICTED"
    and "ix_entries ix' = dset k e' (ix_entries ix)" "ix_max_entries ix' = ix_max_entries ix"
    and "ix_lru ix' = promote_lru k (ix_lru ix) \<or> ix_lru ix' = ix_lru ix"
  shows "ix_ok ix'"
proof -
  have k: "k \<in> set (dkeys (ix_entries ix))" using assms(2) by (rule dget_key)
  have "set (ix_lru ix') = set (dkeys (ix_entries ix'))" "distinct (ix_lru ix')"
    using assms(1,5,7) k by (auto simp: ix_ok_def dkeys_dset_in simp del: set_map)
  then show ?thesis
    using assms k by (auto simp: ix_ok_def dict_simps length_dset_in simp del: set_map)
qed

lemma ix_ok_rewrite:
  assumes "ix_ok ix" "dget (ix_entries ix) k = Some e" "ie_cache_key e' = ie_cache_key e" "ie_status e' \<noteq> E_EVICTED"
  shows "ix_ok (ix\<lparr>ix_entries := dset k e' (ix_entries ix)\<rparr>)"
    and "ix_ok (ix\<lparr>ix_entries := dset k e' (ix_entries ix), ix_lru := promote_lru k (ix_lru ix)\<rparr>)"
proof -
  have "ie_cache_key e' = k" using assms(1-3) by (simp add: ix_ok_def)
  note upd = ix_ok_update[OF assms(1,2) this assms(4)]
  show "ix_ok (ix\<lparr>ix_entries := dset k e' (ix_entries ix)\<rparr>)" by (rule upd) simp_all
  show "ix_ok (ix\<lparr>ix_entries := dset k e' (ix_entries ix), ix_lru := promote_lru k (ix_lru ix)\<rparr>)"
    by (rule upd) simp_all
qed

lemma ix_ok_status: "ix_ok ix \<Longrightarrow> dget (ix_entries ix) k = Some e \<Longrightarrow> ie_status e \<noteq> E_EVICTED"
  by (simp add: ix_ok_def)

text \<open>Removing keys.\<close>

lemma ix_ok_remove:
  assumes "ix_ok ix" "ix_entries ix' = dpop k (ix_entries ix)" "ix_lru ix' = remove1 k (ix_lru ix)"
    "ix_max_entries ix' = ix_max_entries ix"
  shows "ix_ok ix'"
proof -
  have "set (ix_lru ix') = set (ix_lru ix) - {k}" using assms by (simp add: ix_ok_def)
  then show ?thesis
    using assms length_dpop_le[of k "ix_entries ix"] by (auto simp: ix_ok_def dict_simps)
qed

lemma remove_key_alt: "ix_lru (remove_key k ix) = remove1 k (ix_lru ix)"
  by (simp add: remove_key_def remove1_idem)

lemma ix_ok_remove_key: "ix_ok ix \<Longrightarrow> ix_ok (remove_key k ix)"
  by (rule ix_ok_remove[OF _ _ remove_key_alt]) (simp_all add: remove_key_def)

lemma ix_ok_remove_keys: "ix_ok ix \<Longrightarrow> ix_ok (fold remove_key ks ix)"
  by (induction ks arbitrary: ix) (simp_all add: ix_ok_remove_key)

lemma ix_ok_frame:
  "ix_ok ix \<Longrightarrow> ix_entries ix' = ix_entries ix \<Longrightarrow> ix_lru ix' = ix_lru ix \<Longrightarrow>
   ix_max_entries ix' = ix_max_entries ix \<Longrightarrow> ix_ok ix'"
  by (simp add: ix_ok_def)

section \<open>Eviction\<close>

text \<open>The index after the first \<open>n\<close> keys of the list have been evicted.\<close>

definition evicted :: "nat \<Rightarrow> ThreadWakeIndex \<Rightarrow> ThreadWakeIndex" where
  "evicted n ix =
     ix\<lparr>ix_entries := filter (\<lambda>(k, e). k \<notin> set (take n (ix_lru ix))) (ix_entries ix),
        ix_lru := drop n (ix_lru ix), ix_evictions := ix_evictions ix + int n\<rparr>"

lemma evicted_0 [simp]: "evicted 0 ix = ix"
  by (cases ix) (simp add: evicted_def case_prod_beta')

lemma evicted_Suc:
  assumes "ix_lru ix = k # ks"
  shows "evicted (Suc n) ix =
    evicted n (ix\<lparr>ix_entries := dpop k (ix_entries ix), ix_lru := ks, ix_evictions := ix_evictions ix + 1\<rparr>)"
  using assms
  by (cases ix) (auto simp: evicted_def AList.delete_eq intro!: filter_cong)

lemma evict_loop_spec:
  assumes "ix_lru ix = ks" "distinct ks" "set ks = set (dkeys (ix_entries ix))"
  shows "\<exists>n \<le> length ks. evict_loop ks ix = Some (evicted n ix) \<and> (\<forall>m < n. over_limits (evicted m ix))
           \<and> (n < length ks \<longrightarrow> \<not> over_limits (evicted n ix))"
  using assms
proof (induction ks arbitrary: ix)
  case Nil
  then show ?case by (intro exI[of _ 0]) simp
next
  case (Cons k ks)
  let ?ix1 = "ix\<lparr>ix_entries := dpop k (ix_entries ix), ix_lru := ks, ix_evictions := ix_evictions ix + 1\<rparr>"
  show ?case
  proof (cases "over_limits ix")
    case False
    then show ?thesis by (intro exI[of _ 0]) simp
  next
    case True
    obtain e where e: "dget (ix_entries ix) k = Some e" using Cons.prems(3) key_dget[of k "ix_entries ix"] by auto
    have "set ks = set (dkeys (ix_entries ?ix1))" using Cons.prems(2,3) by auto
    then obtain n where n: "n \<le> length ks" "evict_loop ks ?ix1 = Some (evicted n ?ix1)"
      "\<forall>m < n. over_limits (evicted m ?ix1)" "n < length ks \<longrightarrow> \<not> over_limits (evicted n ?ix1)"
      using Cons.IH[of ?ix1] Cons.prems(2) by auto
    note suc = evicted_Suc[OF Cons.prems(1)]
    have "over_limits (evicted m ix)" if "m < Suc n" for m
      using that n(3) True suc by (cases m) auto
    then show ?thesis using n True e suc[of n] by (intro exI[of _ "Suc n"]) auto
  qed
qed

text \<open>Eviction keeps the invariant and ends within both limits, or with nothing left.\<close>

lemma evicted_keys:
  assumes "distinct (ix_lru ix)" "set (ix_lru ix) = set (dkeys (ix_entries ix))"
  shows "set (ix_lru (evicted n ix)) = set (dkeys (ix_entries (evicted n ix)))"
proof -
  have "set (drop n (ix_lru ix)) = set (ix_lru ix) - set (take n (ix_lru ix))"
  proof -
    have "set (take n (ix_lru ix)) \<inter> set (drop n (ix_lru ix)) = {}"
      by (rule set_take_disj_set_drop_if_distinct[OF assms(1)]) simp
    moreover have "set (ix_lru ix) = set (take n (ix_lru ix)) \<union> set (drop n (ix_lru ix))"
      by (simp only: append_take_drop_id flip: set_append)
    ultimately show ?thesis by auto
  qed
  then show ?thesis using assms(2) by (force simp: evicted_def)
qed

lemma over_limits_nonempty:
  "over_limits ix \<Longrightarrow> ix_entries ix = [] \<Longrightarrow> ix_max_entries ix < 0"
  by (auto simp: over_limits_def total_memory_def split: if_splits)

lemma evict_if_needed_spec:
  assumes "dict_ok (ix_entries ix)" "distinct (ix_lru ix)" "set (ix_lru ix) = set (dkeys (ix_entries ix))"
  obtains n where "evict_if_needed ix = Some (evicted n ix)" "n \<le> length (ix_lru ix)"
    "\<And>m. m < n \<Longrightarrow> over_limits (evicted m ix)"
    "\<not> over_limits (evicted n ix) \<or> ix_entries (evicted n ix) = []"
proof -
  obtain n where n: "n \<le> length (ix_lru ix)" "evict_loop (ix_lru ix) ix = Some (evicted n ix)"
    "\<forall>m < n. over_limits (evicted m ix)" "n < length (ix_lru ix) \<longrightarrow> \<not> over_limits (evicted n ix)"
    using evict_loop_spec[OF refl assms(2,3)] by blast
  have "ix_entries (evicted n ix) = []" if "n = length (ix_lru ix)"
    using evicted_keys[OF assms(2,3), of n] that by (auto simp: evicted_def filter_empty_conv)
  with n that show thesis by (metis evict_if_needed_def nat_less_le)
qed

lemma ix_ok_evicted:
  assumes "dict_ok (ix_entries ix)" "distinct (ix_lru ix)" "set (ix_lru ix) = set (dkeys (ix_entries ix))"
    and "\<forall>k e. dget (ix_entries ix) k = Some e \<longrightarrow> ie_cache_key e = k \<and> ie_status e \<noteq> E_EVICTED"
    and "\<not> over_limits (evicted n ix) \<or> ix_entries (evicted n ix) = []"
  shows "ix_ok (evicted n ix)"
proof -
  let ?P = "\<lambda>(k, e). k \<notin> set (take n (ix_lru ix))"
  have "dict_ok (filter ?P (ix_entries ix))" using assms(1) by (simp add: distinct_map_filter)
  moreover have "dget (filter ?P (ix_entries ix)) k = Some e \<Longrightarrow> dget (ix_entries ix) k = Some e" for k e
    using assms(1) by (auto simp: map_of_eq_Some_iff distinct_map_filter)
  moreover have "int (length (ix_entries (evicted n ix))) \<le> max 0 (ix_max_entries ix)"
    using assms(5) by (auto simp: over_limits_def evicted_def)
  ultimately show ?thesis
    using assms(2,4) evicted_keys[OF assms(2,3), of n] unfolding ix_ok_def by (auto simp: evicted_def)
qed

text \<open>Storing a new key never raises \<open>KeyError\<close>, and evicts a shortest prefix of the list.\<close>

definition stored :: "(string \<Rightarrow> string) \<Rightarrow> real \<Rightarrow> observation \<Rightarrow> ThreadWakeIndex \<Rightarrow> ThreadWakeIndex" where
  "stored sha now ob ix =
     ix\<lparr>ix_entries := ix_entries ix @ [(ob_cache_key ob, new_index_entry sha now (estimate_memory ix (ob_token_count ob)) ob)],
        ix_lru := ix_lru ix @ [ob_cache_key ob]\<rparr>"

lemma stored_facts:
  assumes "ix_ok ix" "dget (ix_entries ix) (ob_cache_key ob) = None"
  shows "dict_ok (ix_entries (stored sha now ob ix))" "distinct (ix_lru (stored sha now ob ix))"
    "set (ix_lru (stored sha now ob ix)) = set (dkeys (ix_entries (stored sha now ob ix)))"
    "\<forall>k e. dget (ix_entries (stored sha now ob ix)) k = Some e \<longrightarrow> ie_cache_key e = k \<and> ie_status e \<noteq> E_EVICTED"
proof -
  have new: "ob_cache_key ob \<notin> set (dkeys (ix_entries ix))" using assms(2) by (simp add: map_of_eq_None_iff)
  then show "dict_ok (ix_entries (stored sha now ob ix))" "distinct (ix_lru (stored sha now ob ix))"
    "set (ix_lru (stored sha now ob ix)) = set (dkeys (ix_entries (stored sha now ob ix)))"
    using assms(1) by (auto simp: ix_ok_def stored_def)
  show "\<forall>k e. dget (ix_entries (stored sha now ob ix)) k = Some e \<longrightarrow> ie_cache_key e = k \<and> ie_status e \<noteq> E_EVICTED"
    using assms by (auto simp: ix_ok_def stored_def map_add_def new_index_entry_def split: option.splits if_splits)
qed

lemma put_fresh:
  assumes ok: "ix_ok ix" and new: "dget (ix_entries ix) (ob_cache_key ob) = None"
    and allowed: "ob_scope ob = ''global'' \<Longrightarrow> ix_allow_global ix"
  obtains n where
    "put_observation sha now ob ix =
       Inr (stored_entry (new_index_entry sha now (estimate_memory ix (ob_token_count ob)) ob)
              (evicted n (stored sha now ob ix)), evicted n (stored sha now ob ix))"
    "n \<le> length (ix_lru ix) + 1" "\<And>m. m < n \<Longrightarrow> over_limits (evicted m (stored sha now ob ix))"
    "\<not> over_limits (evicted n (stored sha now ob ix)) \<or> ix_entries (evicted n (stored sha now ob ix)) = []"
    "ix_ok (evicted n (stored sha now ob ix))"
proof -
  note f = stored_facts[OF ok new, of sha now]
  have key: "ob_cache_key ob \<notin> set (dkeys (ix_entries ix))" using new by (simp add: map_of_eq_None_iff)
  obtain n where n: "evict_if_needed (stored sha now ob ix) = Some (evicted n (stored sha now ob ix))"
    "n \<le> length (ix_lru (stored sha now ob ix))" "\<And>m. m < n \<Longrightarrow> over_limits (evicted m (stored sha now ob ix))"
    "\<not> over_limits (evicted n (stored sha now ob ix)) \<or> ix_entries (evicted n (stored sha now ob ix)) = []"
    by (rule evict_if_needed_spec[OF f(1-3)]) blast
  have "put_observation sha now ob ix =
      Inr (stored_entry (new_index_entry sha now (estimate_memory ix (ob_token_count ob)) ob)
             (evicted n (stored sha now ob ix)), evicted n (stored sha now ob ix))"
    using n(1) new allowed key by (auto simp: put_observation_def Let_def stored_def dset_fresh)
  then show thesis
    using that n ix_ok_evicted[OF f, of n] by (simp add: stored_def)
qed

lemma put_ok:
  assumes "ix_ok ix" "put_observation sha now ob ix = Inr (e, ix')" shows "ix_ok ix'"
proof (cases "dget (ix_entries ix) (ob_cache_key ob)")
  case None
  moreover have "ob_scope ob = ''global'' \<Longrightarrow> ix_allow_global ix"
    using assms(2) by (auto simp: put_observation_def split: if_splits)
  ultimately show ?thesis using assms put_fresh[of ix ob sha now ?thesis] by auto
next
  case (Some old)
  let ?e = "refresh_entry sha now (estimate_memory ix (ob_token_count ob)) ob old"
  have "ix' = ix\<lparr>ix_entries := dset (ob_cache_key ob) ?e (ix_entries ix), ix_lru := promote_lru (ob_cache_key ob) (ix_lru ix)\<rparr>"
    using assms(2) Some by (auto simp: put_observation_def Let_def split: if_splits)
  then show ?thesis
    by (simp add: ix_ok_rewrite(2)[OF assms(1) Some] refresh_entry_def touch_def ix_ok_status[OF assms(1) Some])
qed

lemma put_no_key_error: "ix_ok ix \<Longrightarrow> put_observation sha now ob ix \<noteq> Inl IndexKeyError"
  by (cases "dget (ix_entries ix) (ob_cache_key ob)"; cases "ob_scope ob = ''global'' \<and> \<not> ix_allow_global ix")
    (auto simp: put_observation_def Let_def elim!: put_fresh[of ix ob sha now])

section \<open>The index as a machine\<close>

datatype index_op =
    Put real observation
  | Get real string ScopeContext
  | MarkReady string
  | MarkStale string
  | Evict string
  | Flush "string option" "string option" "string option"
  | StoreTip real string string string string "string list" "string option"
  | ClearTip string string string
  | SelectCandidate real string real string string int real "real option"

fun index_step :: "(string \<Rightarrow> string) \<Rightarrow> index_op \<Rightarrow> ThreadWakeIndex \<Rightarrow> ThreadWakeIndex" where
  "index_step sha (Put now ob) ix =
     (case put_observation sha now ob ix of Inl _ \<Rightarrow> ix | Inr (_, ix') \<Rightarrow> ix')"
| "index_step sha (Get now k ctx) ix = snd (index_get sha now k ctx ix)"
| "index_step sha (MarkReady k) ix = mark_ready k ix"
| "index_step sha (MarkStale k) ix = mark_stale k ix"
| "index_step sha (Evict k) ix = evict k ix"
| "index_step sha (Flush s m i) ix = snd (flush s m i ix)"
| "index_step sha (StoreTip now t m b c hs h) ix = snd (store_thread_tip sha now t m b c hs h ix)"
| "index_step sha (ClearTip t m b) ix = clear_thread_tip sha t m b ix"
| "index_step sha (SelectCandidate now k sc cf r st sr sel) ix =
     snd (mark_candidate_selected now k sc cf r st sr sel ix)"

lemma index_get_ok:
  assumes "ix_ok ix" shows "ix_ok (snd (index_get sha now k ctx ix))"
proof (cases "dget (ix_entries ix) k")
  case None
  then show ?thesis using assms by (simp add: index_get_def ix_ok_frame[of ix])
next
  case (Some e)
  let ?ix = "ix\<lparr>ix_entries := dset k (touch now e) (ix_entries ix), ix_lru := promote_lru k (ix_lru ix)\<rparr>"
  have "ix_ok ?ix"
    by (rule ix_ok_rewrite(2)[OF assms Some]) (simp_all add: touch_def ix_ok_status[OF assms Some])
  then have "ix_ok (?ix\<lparr>ix_hit_count := ix_hit_count ix + 1\<rparr>)" by (rule ix_ok_frame) simp_all
  moreover have "ix_ok (ix\<lparr>ix_miss_count := ix_miss_count ix + 1\<rparr>)" by (rule ix_ok_frame[OF assms]) simp_all
  ultimately show ?thesis using Some by (simp add: index_get_def Let_def)
qed

lemma mark_ready_ok: "ix_ok ix \<Longrightarrow> ix_ok (mark_ready k ix)"
  by (simp add: mark_ready_def ix_ok_rewrite split: option.split)

lemma mark_stale_ok: "ix_ok ix \<Longrightarrow> ix_ok (mark_stale k ix)"
  by (simp add: mark_stale_def ix_ok_rewrite split: option.split)

lemma evict_ok: "ix_ok ix \<Longrightarrow> ix_ok (evict k ix)"
  by (simp add: evict_def ix_ok_remove[of ix _ k] split: option.split)

lemma flush_ok: "ix_ok ix \<Longrightarrow> ix_ok (snd (flush s m i ix))"
  using ix_ok_frame[OF ix_ok_remove_keys, of ix] by (simp add: flush_def Let_def) (simp add: ix_ok_def)

lemma select_candidate_ok: "ix_ok ix \<Longrightarrow> ix_ok (snd (mark_candidate_selected now k sc cf r st sr sel ix))"
  by (simp add: mark_candidate_selected_def Let_def ix_ok_rewrite ix_ok_status split: option.split)

lemma tips_ok:
  "ix_ok ix \<Longrightarrow> ix_ok (snd (store_thread_tip sha now t m b c hs h ix))"
  "ix_ok ix \<Longrightarrow> ix_ok (clear_thread_tip sha t m b ix)"
  by (simp_all add: store_thread_tip_def clear_thread_tip_def Let_def ix_ok_def)

lemma index_step_ok: "ix_ok ix \<Longrightarrow> ix_ok (index_step sha op ix)"
  by (cases op)
    (simp_all add: index_get_ok mark_ready_ok mark_stale_ok evict_ok flush_ok select_candidate_ok tips_ok put_ok
      split: sum.split prod.split)

interpretation ixm: op_machine "index_step sha" ix_ok for sha
  by unfold_locales (rule index_step_ok)

text \<open>The limits are fixed when the index is made.\<close>

lemma evict_loop_limits:
  "evict_loop ks ix = Some ix' \<Longrightarrow> ix_max_entries ix' = ix_max_entries ix \<and> ix_allow_global ix' = ix_allow_global ix"
  by (induction ks ix rule: evict_loop.induct) (auto split: if_splits option.splits)

lemma remove_keys_limits:
  "ix_max_entries (fold remove_key ks ix) = ix_max_entries ix \<and> ix_allow_global (fold remove_key ks ix) = ix_allow_global ix"
  by (induction ks arbitrary: ix) (auto simp: remove_key_def)

lemma index_step_limits:
  "ix_max_entries (index_step sha op ix) = ix_max_entries ix \<and> ix_allow_global (index_step sha op ix) = ix_allow_global ix"
proof (cases op)
  case (Put now ob)
  then show ?thesis
    by (auto simp: put_observation_def Let_def evict_if_needed_def dest!: evict_loop_limits split: sum.splits option.splits if_splits)
next
  case (Flush a b c)
  then show ?thesis using remove_keys_limits by (simp add: flush_def Let_def)
qed (simp_all add: index_get_def mark_ready_def mark_stale_def evict_def store_thread_tip_def clear_thread_tip_def
      mark_candidate_selected_def Let_def split: option.split)

section \<open>Scopes\<close>

definition scope_identity :: "string \<Rightarrow> ScopeContext \<Rightarrow> string option" where
  "scope_identity scope ctx =
     (if scope = ''thread'' then sc_thread_id ctx
      else if scope = ''user'' then sc_user_id ctx
      else if scope = ''project'' then sc_project_id ctx
      else None)"

abbreviation private_scopes :: "string set" where
  "private_scopes \<equiv> {''thread'', ''user'', ''project''}"

lemma scope_matches_private:
  assumes "ie_scope e \<in> private_scopes"
  shows "scope_matches sha g e ctx \<longleftrightarrow>
    (\<exists>x. scope_identity (ie_scope e) ctx = Some x \<and> x \<noteq> [] \<and> ie_scope_id e = Some (sha x))"
proof -
  have "scope_matches sha g e ctx = ids_match (lookup_id sha (scope_identity (ie_scope e) ctx)) (ie_scope_id e)"
    using assms by (elim insertE emptyE) (simp_all add: scope_matches_def scope_identity_def)
  then show ?thesis by (auto simp: ids_match_def lookup_id_def split: option.splits)
qed

lemma scope_id_for_private:
  "scope \<in> private_scopes \<Longrightarrow> scope_id_for sha scope ctx = map_option sha (scope_identity scope ctx)"
  by (auto simp: scope_id_for_def scope_identity_def)

text \<open>What binds an entry to a scope survives every operation but a store under the same key.\<close>

definition bound_to :: "string \<Rightarrow> string \<Rightarrow> string option \<Rightarrow> ThreadWakeIndex \<Rightarrow> bool" where
  "bound_to k scope sid ix \<longleftrightarrow>
     (\<forall>e. dget (ix_entries ix) k = Some e \<longrightarrow> ie_scope e = scope \<and> ie_scope_id e = sid)"

fun stores_key :: "string \<Rightarrow> index_op \<Rightarrow> bool" where
  "stores_key k (Put now ob) = (ob_cache_key ob = k)"
| "stores_key k _ = False"

lemma dget_filter: "dict_ok d \<Longrightarrow> dget (filter P d) k = Some e \<Longrightarrow> dget d k = Some e"
  by (auto simp: map_of_eq_Some_iff distinct_map_filter)

lemma dget_remove_key: "dget (ix_entries (remove_key j ix)) k = Some e \<Longrightarrow> dget (ix_entries ix) k = Some e"
  by (simp add: remove_key_def dict_simps split: if_splits)

lemma dget_remove_keys: "dget (ix_entries (fold remove_key ks ix)) k = Some e \<Longrightarrow> dget (ix_entries ix) k = Some e"
  by (induction ks arbitrary: ix) (auto dest: dget_remove_key)

lemma put_other_key:
  assumes "ix_ok ix" "put_observation sha now ob ix = Inr (e', ix')" "ob_cache_key ob \<noteq> k"
    "dget (ix_entries ix') k = Some e"
  shows "dget (ix_entries ix) k = Some e"
proof (cases "dget (ix_entries ix) (ob_cache_key ob)")
  case None
  have "ob_scope ob = ''global'' \<Longrightarrow> ix_allow_global ix"
    using assms(2) by (auto simp: put_observation_def split: if_splits)
  then obtain n where "ix' = evicted n (stored sha now ob ix)"
    using put_fresh[OF assms(1) None, of sha now] assms(2) by (metis Inr_inject prod.inject)
  then have "dget (ix_entries (stored sha now ob ix)) k = Some e"
    using assms(4) dget_filter[OF stored_facts(1)[OF assms(1) None]] by (auto simp: evicted_def)
  then show ?thesis using assms(3) by (auto simp: stored_def map_add_def split: option.splits if_splits)
next
  case (Some old)
  then show ?thesis
    using assms by (auto simp: put_observation_def Let_def dict_simps split: if_splits)
qed

lemma bound_to_mono:
  "bound_to k scope sid ix \<Longrightarrow> (\<And>e. dget (ix_entries ix') k = Some e \<Longrightarrow>
     \<exists>f. dget (ix_entries ix) k = Some f \<and> ie_scope e = ie_scope f \<and> ie_scope_id e = ie_scope_id f) \<Longrightarrow>
   bound_to k scope sid ix'"
  unfolding bound_to_def by fastforce

lemma entries_step:
  assumes "dget (ix_entries (index_step sha op ix)) k = Some e" "ix_ok ix" "\<not> stores_key k op"
  shows "\<exists>f. dget (ix_entries ix) k = Some f \<and> ie_scope e = ie_scope f \<and> ie_scope_id e = ie_scope_id f"
proof (cases op)
  case (Put now ob)
  then show ?thesis
    using assms put_other_key[OF assms(2), of sha now ob] by (cases "put_observation sha now ob ix") auto
next
  case (Get now j ctx)
  then show ?thesis using assms(1)
    by (cases "dget (ix_entries ix) j") (auto simp: index_get_def Let_def dict_simps touch_def split: if_splits)
next
  case (Flush a b c)
  have "dget (ix_entries ix) k = Some e"
    using assms(1) unfolding Flush index_step.simps flush_def Let_def
    by (simp split: if_splits) (erule dget_remove_keys)+
  then show ?thesis by blast
next
  case (SelectCandidate now j sc cf r st sr sel)
  then show ?thesis using assms(1)
    by (cases "dget (ix_entries ix) j") (auto simp: mark_candidate_selected_def Let_def dict_simps split: if_splits)
qed (use assms(1) in \<open>auto simp: mark_ready_def mark_stale_def evict_def store_thread_tip_def
      clear_thread_tip_def Let_def dict_simps split: option.splits if_splits\<close>)

lemma bound_to_step:
  "ix_ok ix \<Longrightarrow> bound_to k scope sid ix \<Longrightarrow> \<not> stores_key k op \<Longrightarrow> bound_to k scope sid (index_step sha op ix)"
  by (erule bound_to_mono) (rule entries_step)

lemma bound_to_run:
  "ix_ok ix \<Longrightarrow> bound_to k scope sid ix \<Longrightarrow> list_all (\<lambda>op. \<not> stores_key k op) ops \<Longrightarrow>
   bound_to k scope sid (fold (index_step sha) ops ix)"
  by (induction ops arbitrary: ix) (simp_all add: bound_to_step ixm.step_inv)

lemma put_binds:
  assumes "ix_ok ix" "put_observation sha now ob ix = Inr (e, ix')"
  shows "bound_to (ob_cache_key ob) (ob_scope ob) (scope_id_for sha (ob_scope ob) (ob_context ob)) ix'"
proof (cases "dget (ix_entries ix) (ob_cache_key ob)")
  case None
  have "ob_scope ob = ''global'' \<Longrightarrow> ix_allow_global ix"
    using assms(2) by (auto simp: put_observation_def split: if_splits)
  then obtain n where ix': "ix' = evicted n (stored sha now ob ix)"
    using put_fresh[OF assms(1) None, of sha now] assms(2) by (metis Inr_inject prod.inject)
  have "dget (ix_entries (stored sha now ob ix)) (ob_cache_key ob) =
      Some (new_index_entry sha now (estimate_memory ix (ob_token_count ob)) ob)"
    using None by (simp add: stored_def map_add_def)
  then show ?thesis
    using dget_filter[OF stored_facts(1)[OF assms(1) None]]
    by (fastforce simp: bound_to_def ix' evicted_def new_index_entry_def)
next
  case (Some old)
  then show ?thesis
    using assms(2) by (auto simp: bound_to_def put_observation_def Let_def refresh_entry_def dict_simps split: if_splits)
qed

section \<open>Properties\<close>

text \<open>
  C33. The index stays well formed and bounded. After any sequence of calls on a new index, the
  recency list and the entries have the same keys, each once, every entry is stored under its own
  key and none is marked evicted, the number of entries is within the configured maximum, and a
  further store never meets a listed key without an entry.
\<close>

theorem index_stays_bounded:
  "let ix = fold (index_step sha) ops (new_index max_entries max_memory bytes_per_token allow_global) in
     ix_ok ix \<and> int (length (ix_entries ix)) \<le> max 0 max_entries
   \<and> put_observation sha now ob ix \<noteq> Inl IndexKeyError"
proof -
  let ?new = "new_index max_entries max_memory bytes_per_token allow_global"
  have new: "ix_ok ?new" by (simp add: ix_ok_def new_index_def)
  have ok: "ix_ok (fold (index_step sha) ops ?new)" by (rule ixm.run_inv[OF new])
  have "ix_max_entries (fold (index_step sha) ops ?new) = max_entries"
    by (rule ixm.run_stable[OF _ new]) (simp_all add: index_step_limits new_index_def)
  then show ?thesis using ok put_no_key_error[OF ok] by (simp add: ix_ok_def Let_def)
qed

text \<open>A store under a key the index already holds.\<close>

lemma put_existing:
  assumes "dget (ix_entries ix) (ob_cache_key ob) = Some old"
    and "ob_scope ob = ''global'' \<Longrightarrow> ix_allow_global ix"
  shows "\<exists>e ix'. put_observation sha now ob ix = Inr (e, ix')
     \<and> dget (ix_entries ix') = (dget (ix_entries ix))(ob_cache_key ob \<mapsto> e)
     \<and> ix_lru ix' = promote_lru (ob_cache_key ob) (ix_lru ix) \<and> ix_evictions ix' = ix_evictions ix"
  using assms by (auto simp: put_observation_def Let_def dget_dset fun_eq_iff)

text \<open>
  C32. What a store evicts. Under a new key the least recently used entries go and no more than must:
  the entries given up are a prefix of the recency list with the new key appended, every shorter
  prefix would leave the index over one of its limits, and afterwards both limits hold or nothing is
  left. Under a key the index already holds nothing is evicted, whatever the limits: only that
  key's entry is replaced and the key becomes the most recent one.
\<close>

theorem store_evicts_shortest_lru_prefix:
  assumes "ix_ok ix" and "ob_scope ob = ''global'' \<Longrightarrow> ix_allow_global ix"
  shows "case dget (ix_entries ix) (ob_cache_key ob) of
     None \<Rightarrow>
       \<exists>n e. put_observation sha now ob ix = Inr (e, evicted n (stored sha now ob ix))
         \<and> n \<le> length (ix_lru ix) + 1
         \<and> (\<forall>m < n. over_limits (evicted m (stored sha now ob ix)))
         \<and> (\<not> over_limits (evicted n (stored sha now ob ix)) \<or> ix_entries (evicted n (stored sha now ob ix)) = [])
   | Some old \<Rightarrow>
       \<exists>e ix'. put_observation sha now ob ix = Inr (e, ix')
         \<and> dget (ix_entries ix') = (dget (ix_entries ix))(ob_cache_key ob \<mapsto> e)
         \<and> ix_lru ix' = promote_lru (ob_cache_key ob) (ix_lru ix) \<and> ix_evictions ix' = ix_evictions ix"
proof (cases "dget (ix_entries ix) (ob_cache_key ob)")
  case None
  show ?thesis unfolding None option.case
    by (rule put_fresh[OF assms(1) None assms(2), of sha now]) blast+
next
  case (Some old)
  then show ?thesis using put_existing[OF Some assms(2)] by simp
qed

definition demo_observation :: "string \<Rightarrow> string \<Rightarrow> int \<Rightarrow> string option \<Rightarrow> observation" where
  "demo_observation k thread tokens handle =
     \<lparr>ob_cache_key = k, ob_model_id = ''m'', ob_backend = ''mlx'', ob_prompt_prefix_hash = ''p'',
      ob_token_count = tokens, ob_scope = ''thread'',
      ob_context = \<lparr>sc_thread_id = Some thread, sc_user_id = None, sc_project_id = None\<rparr>,
      ob_kv_handle_id = handle\<rparr>"

definition demo_index :: "int \<Rightarrow> ThreadWakeIndex" where
  "demo_index m = index_step id (Put 0 (demo_observation ''k'' ''a'' 10 (Some ''h''))) (new_index m 100 1 False)"

lemma demo_index_ok: "ix_ok (demo_index m)"
  unfolding demo_index_def by (rule index_step_ok) (simp add: ix_ok_def new_index_def)

theorem store_evicts_shortest_lru_prefix_witness:
  "\<exists>n e. put_observation id 1 (demo_observation ''j'' ''b'' 10 None) (demo_index 1)
       = Inr (e, evicted n (stored id 1 (demo_observation ''j'' ''b'' 10 None) (demo_index 1)))"
proof -
  have "dget (ix_entries (demo_index 1)) ''j'' = None" by code_simp
  then show ?thesis
    using store_evicts_shortest_lru_prefix[OF demo_index_ok, of "demo_observation ''j'' ''b'' 10 None" 1 id 1]
    by (auto simp: demo_observation_def)
qed

text \<open>
  C31. Scopes are enforced. After an entry has been stored for one thread, user or project, no lookup
  from a context whose identity for that scope is missing, empty or has another digest hits it, whatever
  other calls happen in between, as long as none stores under the same key.
\<close>

theorem no_cross_scope_hit:
  assumes "ix_ok ix" "put_observation sha now ob ix = Inr (e, ix1)" "ob_scope ob \<in> private_scopes"
    and "list_all (\<lambda>op. \<not> stores_key (ob_cache_key ob) op) ops"
    and "\<And>a b. scope_identity (ob_scope ob) (ob_context ob) = Some a \<Longrightarrow> scope_identity (ob_scope ob) ctx = Some b \<Longrightarrow>
           b = [] \<or> sha a \<noteq> sha b"
  shows "fst (index_get sha t (ob_cache_key ob) ctx (fold (index_step sha) ops ix1)) = None"
proof -
  let ?ix = "fold (index_step sha) ops ix1"
  have bound: "bound_to (ob_cache_key ob) (ob_scope ob) (map_option sha (scope_identity (ob_scope ob) (ob_context ob))) ?ix"
    using bound_to_run[OF put_ok[OF assms(1,2)] put_binds[OF assms(1,2)] assms(4)] assms(3)
    by (simp only: scope_id_for_private)
  have "\<not> scope_matches sha (ix_allow_global ?ix) f ctx" if "dget (ix_entries ?ix) (ob_cache_key ob) = Some f" for f
  proof -
    have f: "ie_scope f = ob_scope ob" "ie_scope_id f = map_option sha (scope_identity (ob_scope ob) (ob_context ob))"
      using bound that by (auto simp: bound_to_def)
    then have "ie_scope f \<in> private_scopes" using assms(3) by simp
    then show ?thesis using assms(5) f by (auto simp: scope_matches_private)
  qed
  then show ?thesis by (simp add: index_get_def Let_def split: option.split)
qed

theorem no_cross_scope_hit_witness:
  "fst (index_get id 2 ''k'' \<lparr>sc_thread_id = Some ''b'', sc_user_id = None, sc_project_id = None\<rparr>
          (mark_ready ''k'' (demo_index 4))) = None"
proof -
  let ?ob = "demo_observation ''k'' ''a'' 10 (Some ''h'')" and ?new = "new_index 4 100 1 False"
  let ?ctx = "\<lparr>sc_thread_id = Some ''b'', sc_user_id = None, sc_project_id = None\<rparr>"
  have new: "ix_ok ?new" by (simp add: ix_ok_def new_index_def)
  have "isl (put_observation id 0 ?ob ?new) = False" by code_simp
  then obtain e where "put_observation id 0 ?ob ?new = Inr (e, demo_index 4)"
    by (cases "put_observation id 0 ?ob ?new") (auto simp: demo_index_def)
  from no_cross_scope_hit[OF new this, of "[MarkReady ''k'']" ?ctx 2]
  show ?thesis by (auto simp: demo_observation_def scope_identity_def)
qed

text \<open>
  A store under the same key moves an entry to another scope, handle included. A second thread
  whose prompt has the same cache key rebinds the entry to itself and keeps the cache handle that
  the first thread stored, so that its next lookup hits a handle it could not reach before.
\<close>

lemma shared_key_takes_over_handle:
  "let b = \<lparr>sc_thread_id = Some ''b'', sc_user_id = None, sc_project_id = None\<rparr>;
       ix1 = demo_index 4;
       ix2 = index_step id (Put 1 (demo_observation ''k'' ''b'' 10 None)) ix1
   in fst (index_get id 2 ''k'' b ix1) = None
    \<and> map_option ie_kv_handle_id (fst (index_get id 2 ''k'' b ix2)) = Some (Some ''h'')"
  unfolding Let_def by code_simp

text \<open>Refreshing an entry does not evict: the memory limit can be exceeded.\<close>

lemma refresh_exceeds_memory_limit:
  "let ix = index_step id (Put 1 (demo_observation ''k'' ''a'' 500 None)) (demo_index 4)
   in total_memory ix = 500 \<and> ix_max_memory_bytes ix = 100 \<and> over_limits ix"
  unfolding Let_def by code_simp

end
