(* ===== verification/ThreadWake_Manager.thy ===== *)
theory ThreadWake_Manager
  imports ThreadWake_KV ThreadWake_Index Config
begin

text \<open>
  \<open>runtime/threadwake/manager.py\<close>: the facade that compiles the prompt graph, applies the policy,
  keeps the metadata index and executes prefix reuse. The manager's collaborators are the parts of
  its state: metrics, the two adapter registries, the lifecycle observer, the index, and the state
  of the KV backends (of any type \<open>'s\<close>). Every method is one function from the state to a result
  and the new state; an exception that leaves the method is \<open>Inl\<close>.

  Arguments: \<open>E\<close> collects what is outside the repository and the process environment, \<open>c\<close> the clock
  reading of the call and its supply of fresh identifiers. The full generation that a caller passes
  in is a function that may raise.
\<close>

section \<open>State\<close>

record manager_env =
  me_prompt :: prompt_env
  me_validate_config :: "pyval \<Rightarrow> ThreadWakeRequestConfig option"
  me_environ :: environ

record call_ctx =
  cc_now :: real
  cc_id :: "nat \<Rightarrow> string"

datatype raw_config = CfgNone | CfgParsed ThreadWakeRequestConfig | CfgRaw pyval

record tw_request =
  tr_model :: "string option"
  tr_messages :: "ChatMessage list"
  tr_tools :: "pyval list option"
  tr_tool_choice :: "pyval option"
  tr_threadwake :: raw_config
  tr_threadwake_segments :: raw_segments
  tr_thread_id :: "string option"
  tr_user_id :: "string option"
  tr_project_id :: "string option"

datatype manager_exn = ConfigValidationError | TokenizerError kv_exn | GenerationError kv_exn | ManagerKeyError

record 's ThreadWakeManager =
  mg_metrics :: ThreadWakeMetrics
  mg_backend_registry :: "'s kv_registry"
  mg_tokenizer_registry :: tokenizer_registry
  mg_kv_observer :: KVLifecycleObserver
  mg_index :: ThreadWakeIndex
  mg_backend_state :: 's

definition build_default_index :: "environ \<Rightarrow> ThreadWakeIndex" where
  "build_default_index env =
     new_index (get_threadwake_max_entries env) (get_threadwake_max_memory_mb env * 1024 * 1024)
       (get_threadwake_bytes_per_token env) (get_threadwake_allow_global env)"

definition new_manager :: "environ \<Rightarrow> 's kv_registry \<Rightarrow> tokenizer_registry \<Rightarrow> 's \<Rightarrow> 's ThreadWakeManager" where
  "new_manager env backends tokenizers s =
     \<lparr>mg_metrics = new_metrics, mg_backend_registry = backends, mg_tokenizer_registry = tokenizers,
      mg_kv_observer = new_observer False 512, mg_index = build_default_index env, mg_backend_state = s\<rparr>"

section \<open>Request configuration\<close>

text \<open>\<open>_coerce_mode\<close>: \<open>ThreadWakeMode(value or "off")\<close>, and off for any other text.\<close>

definition coerce_mode :: "string \<Rightarrow> ThreadWakeMode" where
  "coerce_mode v =
     (if v = ''observe'' then TW_OBSERVE else if v = ''ephemeral'' then TW_EPHEMERAL
      else if v = ''session'' then TW_SESSION else if v = ''advanced'' then TW_ADVANCED else TW_OFF)"

definition merge_config :: "environ \<Rightarrow> ThreadWakeRequestConfig \<Rightarrow> ThreadWakeRequestConfig" where
  "merge_config env provided =
     (let env_mode = coerce_mode (get_threadwake_mode env);
          requested_mode = (case tc_mode provided of
                              Some m \<Rightarrow> m
                            | None \<Rightarrow> if tc_enabled provided = Some True then TW_OBSERVE else env_mode);
          enabled = (case tc_enabled provided of
                       Some b \<Rightarrow> b
                     | None \<Rightarrow> (case tc_mode provided of
                                  None \<Rightarrow> get_threadwake_enabled env
                                | Some m \<Rightarrow> m \<noteq> TW_OFF))
      in \<lparr>tc_enabled = Some enabled, tc_mode = Some requested_mode,
          tc_scope = (if str_true (tc_scope provided) then tc_scope provided
                      else Some (get_threadwake_default_scope env)),
          tc_metadata = tc_metadata provided,
          tc_min_stable_prefix_tokens = (case tc_min_stable_prefix_tokens provided of
                                           Some n \<Rightarrow> Some n
                                         | None \<Rightarrow> Some (get_threadwake_min_prefix_tokens env))\<rparr>)"

text \<open>Building a \<open>ThreadWakeRequestConfig\<close> checks \<open>min_stable_prefix_tokens \<ge> 0\<close>; the environment's value is
  not clamped, so it can fail the check.\<close>

definition checked_config :: "ThreadWakeRequestConfig \<Rightarrow> manager_exn + ThreadWakeRequestConfig" where
  "checked_config config =
     (case tc_min_stable_prefix_tokens config of
        Some n \<Rightarrow> if n < 0 then Inl ConfigValidationError else Inr config
      | None \<Rightarrow> Inr config)"

definition resolve_config :: "manager_env \<Rightarrow> raw_config \<Rightarrow> manager_exn + ThreadWakeRequestConfig" where
  "resolve_config E raw =
     (let env = me_environ E in
      case raw of
        CfgNone \<Rightarrow>
          checked_config
            \<lparr>tc_enabled = Some (get_threadwake_enabled env), tc_mode = Some (coerce_mode (get_threadwake_mode env)),
             tc_scope = Some (get_threadwake_default_scope env), tc_metadata = [],
             tc_min_stable_prefix_tokens = Some (get_threadwake_min_prefix_tokens env)\<rparr>
      | CfgParsed provided \<Rightarrow> checked_config (merge_config env provided)
      | CfgRaw v \<Rightarrow> (case me_validate_config E v of
                       None \<Rightarrow> Inl ConfigValidationError
                     | Some provided \<Rightarrow> checked_config (merge_config env provided)))"

definition extract_scope_context :: "tw_request \<Rightarrow> ScopeContext" where
  "extract_scope_context r =
     \<lparr>sc_thread_id = tr_thread_id r, sc_user_id = tr_user_id r, sc_project_id = tr_project_id r\<rparr>"

definition manager_compile ::
  "manager_env \<Rightarrow> tw_request \<Rightarrow> string option \<Rightarrow> string option \<Rightarrow> string option \<Rightarrow> string \<Rightarrow> bool \<Rightarrow> PromptGraph" where
  "manager_compile E r backend tok_hash template_hash scope allow_global =
     compile_prompt_graph (me_prompt E)
       \<lparr>cr_messages = tr_messages r, cr_model_id = tr_model r, cr_backend = backend, cr_tools = tr_tools r,
        cr_tool_choice = tr_tool_choice r, cr_tokenizer_hash = tok_hash, cr_chat_template_hash = template_hash,
        cr_scope = scope, cr_codexify_segments = tr_threadwake_segments r, cr_allow_global = allow_global\<rparr>"

definition config_scope :: "ThreadWakeRequestConfig \<Rightarrow> string" where
  "config_scope config = (if str_true (tc_scope config) then the (tc_scope config) else ''thread'')"

section \<open>Observation\<close>

definition attach_tokenizer_status ::
  "tokenizer_registry \<Rightarrow> string option \<Rightarrow> TokenizedPrompt option \<Rightarrow> ThreadWakeObservation \<Rightarrow> ThreadWakeObservation" where
  "attach_tokenizer_status reg backend tokenized ob =
     (case backend of
        None \<Rightarrow> ob\<lparr>to_tokenizer_capability := None, to_real_tokenization_available := False,
                  to_tokenization_reason := Some ''backend_unknown''\<rparr>
      | Some b \<Rightarrow>
          let cap = tok_capability reg b;
              ob = ob\<lparr>to_tokenizer_capability := Some (TokenizerCapability_value cap)\<rparr> in
          if cap = TK_UNSUPPORTED then
            ob\<lparr>to_real_tokenization_available := False, to_tokenization_reason := Some ''tokenizer_unsupported''\<rparr>
          else if cap = TK_ESTIMATES_ONLY then
            ob\<lparr>to_real_tokenization_available := False, to_tokenization_reason := Some ''tokenizer_estimates_only''\<rparr>
          else
            case tokenized of
              Some tp \<Rightarrow>
                if tp_real_tokenization tp then
                  ob\<lparr>to_real_tokenization_available := True, to_tokenization_reason := None,
                     to_stable_prefix_token_count_real :=
                       (if tp_stable_prefix_token_count tp \<noteq> 0 then Some (tp_stable_prefix_token_count tp)
                        else to_stable_prefix_token_count_real ob),
                     to_dynamic_tail_token_count_real :=
                       (if tp_dynamic_tail_token_count tp \<noteq> 0 then Some (tp_dynamic_tail_token_count tp)
                        else to_dynamic_tail_token_count_real ob)\<rparr>
                else ob\<lparr>to_real_tokenization_available := True, to_tokenization_reason := None\<rparr>
            | None \<Rightarrow> ob\<lparr>to_real_tokenization_available := True, to_tokenization_reason := None\<rparr>)"

text \<open>The KV part of the annotation for a known backend.\<close>

definition kv_status :: "KVCapability \<Rightarrow> TokenizedPrompt option \<Rightarrow> ThreadWakeObservation \<Rightarrow> ThreadWakeObservation" where
  "kv_status capability tokenized ob =
     (let ob = ob\<lparr>to_backend_kv_capability := Some (KVCapability_value capability)\<rparr> in
      if capability = KV_UNSUPPORTED then
        ob\<lparr>to_can_reuse_kv := False, to_kv_reuse_reason := Some ''backend_unsupported''\<rparr>
      else if \<not> to_eligible ob then
        ob\<lparr>to_can_reuse_kv := False,
           to_kv_reuse_reason := Some (''backend_capable_but_ineligible: ''
             @ (case to_reason ob of None \<Rightarrow> ''None'' | Some s \<Rightarrow> s))\<rparr>
      else if to_mode ob = TW_EPHEMERAL \<or> to_mode ob = TW_SESSION then
        (case tokenized of
           Some tp \<Rightarrow>
             if tp_real_tokenization tp then
               ob\<lparr>to_can_reuse_kv := True, to_kv_reuse_reason := None,
                  to_stable_prefix_token_count_real := Some (tp_stable_prefix_token_count tp),
                  to_dynamic_tail_token_count_real := Some (tp_dynamic_tail_token_count tp)\<rparr>
             else ob\<lparr>to_can_reuse_kv := False, to_kv_reuse_reason := Some ''real_tokenization_unavailable''\<rparr>
         | None \<Rightarrow> ob\<lparr>to_can_reuse_kv := False, to_kv_reuse_reason := Some ''real_tokenization_unavailable''\<rparr>)
      else ob\<lparr>to_can_reuse_kv := False, to_kv_reuse_reason := Some ''observe_mode_not_reusing''\<rparr>)"

definition attach_backend_kv_status ::
  "manager_env \<Rightarrow> call_ctx \<Rightarrow> string option \<Rightarrow> TokenizedPrompt option \<Rightarrow> ThreadWakeObservation \<Rightarrow> 's ThreadWakeManager
   \<Rightarrow> ThreadWakeObservation \<times> 's ThreadWakeManager" where
  "attach_backend_kv_status E c backend tokenized ob mg =
     (case backend of
        None \<Rightarrow>
          (attach_tokenizer_status (mg_tokenizer_registry mg) None None
             (ob\<lparr>to_backend_kv_capability := None, to_can_reuse_kv := False,
                 to_kv_reuse_reason := Some ''backend_unknown''\<rparr>), mg)
      | Some b \<Rightarrow>
          let capability = kv_capability (mg_backend_registry mg) b;
              event = event_create (pe_sha (me_prompt E)) (cc_id c 0) (cc_now c) capability_reported (Some b) None
                        (Some (KVCapability_value capability)) None None None None
          in (attach_tokenizer_status (mg_tokenizer_registry mg) (Some b) tokenized (kv_status capability tokenized ob),
              mg\<lparr>mg_kv_observer := observer_record event (mg_kv_observer mg)\<rparr>))"

definition record_index_observation ::
  "manager_env \<Rightarrow> call_ctx \<Rightarrow> PromptGraph \<Rightarrow> ThreadWakeObservation \<Rightarrow> string option \<Rightarrow> string option \<Rightarrow> string option
   \<Rightarrow> ScopeContext \<Rightarrow> 's ThreadWakeManager \<Rightarrow> (manager_exn + unit) \<times> 's ThreadWakeManager" where
  "record_index_observation E c g ob backend model_revision quantization ctx mg =
     (case backend of
        None \<Rightarrow> (Inr (), mg)
      | Some b \<Rightarrow>
          if \<not> to_eligible ob then (Inr (), mg)
          else
            let scope = to_cache_scope ob;
                key = build_threadwake_cache_key (me_prompt E) g scope model_revision quantization in
            case put_observation (pe_sha (me_prompt E)) (cc_now c)
                   \<lparr>ob_cache_key = key, ob_model_id = case_option [] id (pg_model_id g), ob_backend = b,
                    ob_prompt_prefix_hash = pg_stable_prefix_hash g, ob_token_count = int (pg_stable_prefix_tokens g),
                    ob_scope = scope, ob_context = ctx, ob_kv_handle_id = None\<rparr> (mg_index mg) of
              Inr (_, ix) \<Rightarrow> (Inr (), mg\<lparr>mg_index := ix\<rparr>)
            | Inl GlobalScopeNotAllowed \<Rightarrow> (Inr (), mg)
            | Inl IndexKeyError \<Rightarrow> (Inl ManagerKeyError, mg))"

abbreviation record_metrics :: "ThreadWakeObservation \<Rightarrow> 's ThreadWakeManager \<Rightarrow> 's ThreadWakeManager" where
  "record_metrics ob mg \<equiv> mg\<lparr>mg_metrics := metrics_record ob (mg_metrics mg)\<rparr>"

definition observe_request ::
  "manager_env \<Rightarrow> call_ctx \<Rightarrow> tw_request \<Rightarrow> string option \<Rightarrow> string option \<Rightarrow> string option \<Rightarrow> string option \<Rightarrow> string option
   \<Rightarrow> 's ThreadWakeManager \<Rightarrow> (manager_exn + ThreadWakeObservation) \<times> 's ThreadWakeManager" where
  "observe_request E c r backend model_revision quantization tok_hash template_hash mg =
     (case resolve_config E (tr_threadwake r) of
        Inl e \<Rightarrow> (Inl e, mg)
      | Inr config \<Rightarrow>
          if tc_enabled config \<noteq> Some True \<or> tc_mode config = Some TW_OFF then
            (case attach_backend_kv_status E c backend None (evaluate_threadwake_policy None config) mg of (ob, mg) \<Rightarrow>
               (Inr ob, record_metrics ob mg))
          else
            let g = manager_compile E r backend tok_hash template_hash (config_scope config) (ix_allow_global (mg_index mg)) in
            case attach_backend_kv_status E c backend None (evaluate_threadwake_policy (Some g) config) mg of (ob, mg) \<Rightarrow>
            case record_index_observation E c g ob backend model_revision quantization (extract_scope_context r) mg of
              (Inl e, mg) \<Rightarrow> (Inl e, mg)
            | (Inr _, mg) \<Rightarrow> (Inr ob, record_metrics ob mg))"

section \<open>Execution with prefix reuse\<close>

record ThreadWakeMetadata =
  tmd_cache_hit :: bool
  tmd_matched_tokens :: nat
  tmd_mode :: "string option"
  tmd_scope :: "string option"
  tmd_backend_kv_capability :: "string option"

record EphemeralResult =
  er_output_tokens :: "string list"
  er_cache_hit :: bool
  er_matched_tokens :: nat
  er_observation :: ThreadWakeObservation
  er_metadata :: ThreadWakeMetadata

definition execution_result :: "string list \<Rightarrow> bool \<Rightarrow> nat \<Rightarrow> string \<Rightarrow> ThreadWakeObservation \<Rightarrow> EphemeralResult" where
  "execution_result output hit matched mode ob =
     \<lparr>er_output_tokens = output, er_cache_hit = hit, er_matched_tokens = matched, er_observation = ob,
      er_metadata = \<lparr>tmd_cache_hit = hit, tmd_matched_tokens = matched, tmd_mode = Some mode,
                     tmd_scope = Some (to_cache_scope ob), tmd_backend_kv_capability = to_backend_kv_capability ob\<rparr>\<rparr>"

type_synonym generate_fn = "gen_params \<Rightarrow> kv_exn + string list"

definition full_generation_result ::
  "generate_fn \<Rightarrow> gen_params \<Rightarrow> ThreadWakeObservation \<Rightarrow> 's ThreadWakeManager
   \<Rightarrow> (manager_exn + EphemeralResult) \<times> 's ThreadWakeManager" where
  "full_generation_result gen params ob mg =
     (case gen params of
        Inl e \<Rightarrow> (Inl (GenerationError e), mg)
      | Inr output \<Rightarrow>
          (Inr (execution_result output False 0 (ThreadWakeMode_value (to_mode ob)) ob), record_metrics ob mg))"

definition id_texts :: "int list \<Rightarrow> string list" where
  "id_texts ids = map py_str_int ids"

text \<open>Cloning a handle and generating from the clone; the state of the backends moves with both calls.\<close>

definition generate_from_clone ::
  "'s kv_adapter \<Rightarrow> call_ctx \<Rightarrow> KVHandle \<Rightarrow> string list \<Rightarrow> gen_params \<Rightarrow> 's \<Rightarrow> (kv_exn + string list) \<times> 's" where
  "generate_from_clone adapter c h new_tokens params s =
     (case ka_clone adapter (cc_id c 1) (cc_now c) h s of
        (Inl e, s) \<Rightarrow> (Inl e, s)
      | (Inr cloned, s) \<Rightarrow> ka_generate adapter cloned new_tokens params s)"

definition hit_handle :: "call_ctx \<Rightarrow> string \<Rightarrow> ThreadWakeIndexEntry \<Rightarrow> KVHandle" where
  "hit_handle c key e =
     new_handle (cc_id c 2) (cc_now c) (ie_backend e) (ie_model_id e) (nat (ie_token_count e))
       (Some (PDict [(''index_key'', PStr key), (''handle_id'', opt_str (ie_kv_handle_id e))]))"

definition kv_event ::
  "manager_env \<Rightarrow> call_ctx \<Rightarrow> nat \<Rightarrow> KVEventType \<Rightarrow> string \<Rightarrow> string \<Rightarrow> string option \<Rightarrow> string option \<Rightarrow> nat option \<Rightarrow> KVEvent" where
  "kv_event E c i etype backend model_id key handle_id tokens =
     event_create (pe_sha (me_prompt E)) (cc_id c i) (cc_now c) etype (Some backend) (Some model_id) None key handle_id
       tokens None"

definition ephemeral_hit ::
  "manager_env \<Rightarrow> call_ctx \<Rightarrow> PromptGraph \<Rightarrow> string \<Rightarrow> ThreadWakeIndexEntry \<Rightarrow> 's kv_adapter \<Rightarrow> ThreadWakeObservation
   \<Rightarrow> generate_fn \<Rightarrow> gen_params \<Rightarrow> TokenizedPrompt \<Rightarrow> 's ThreadWakeManager
   \<Rightarrow> (manager_exn + EphemeralResult) \<times> 's ThreadWakeManager" where
  "ephemeral_hit E c g key e adapter ob gen params tp mg =
     (let dynamic_tokens = id_texts (tp_dynamic_tail_token_ids tp) in
      case generate_from_clone adapter c (hit_handle c key e) dynamic_tokens params (mg_backend_state mg) of
        (Inl _, s) \<Rightarrow>
          full_generation_result gen params ob (mg\<lparr>mg_backend_state := s, mg_index := mark_stale key (mg_index mg)\<rparr>)
      | (Inr output, s) \<Rightarrow>
          let ko = observer_record (kv_event E c 3 kv_cloned (ie_backend e) (ie_model_id e) None (ie_kv_handle_id e) None)
                     (mg_kv_observer mg);
              ko = observer_record (kv_event E c 4 kv_reused (ie_backend e) (ie_model_id e) None None
                                      (Some (length dynamic_tokens))) ko;
              ob = ob\<lparr>to_cache_hit := True, to_estimated_prefill_reuse_tokens := pg_stable_prefix_tokens g\<rparr>
          in (Inr (execution_result output True (pg_stable_prefix_tokens g) ''ephemeral'' ob),
              record_metrics ob (mg\<lparr>mg_backend_state := s, mg_kv_observer := ko\<rparr>)))"

definition miss_observation ::
  "string \<Rightarrow> PromptGraph \<Rightarrow> string \<Rightarrow> string \<Rightarrow> ScopeContext \<Rightarrow> string \<Rightarrow> observation" where
  "miss_observation key g backend scope ctx handle_id =
     \<lparr>ob_cache_key = key, ob_model_id = case_option [] id (pg_model_id g), ob_backend = backend,
      ob_prompt_prefix_hash = pg_stable_prefix_hash g, ob_token_count = int (pg_stable_prefix_tokens g),
      ob_scope = scope, ob_context = ctx, ob_kv_handle_id = Some handle_id\<rparr>"

text \<open>What a miss stores once the prefill has returned a handle; an exception of the index is swallowed.\<close>

definition store_miss ::
  "manager_env \<Rightarrow> call_ctx \<Rightarrow> PromptGraph \<Rightarrow> string \<Rightarrow> string \<Rightarrow> string \<Rightarrow> ScopeContext \<Rightarrow> string list \<Rightarrow> KVHandle
   \<Rightarrow> 's ThreadWakeManager \<Rightarrow> 's ThreadWakeManager" where
  "store_miss E c g key backend scope ctx stable_tokens h mg =
     (let sha = pe_sha (me_prompt E) in
      case put_observation sha (cc_now c) (miss_observation key g backend scope ctx (kv_id h)) (mg_index mg) of
        Inl _ \<Rightarrow> mg
      | Inr (_, ix) \<Rightarrow>
          let ix = mark_ready key ix;
              ko = observer_record (kv_event E c 5 kv_created backend (case_option [] id (pg_model_id g)) (Some key)
                                      (Some (kv_id h)) (Some (length stable_tokens))) (mg_kv_observer mg);
              ix = (if str_true (sc_thread_id ctx) \<and> pg_continuation_candidate g
                    then snd (store_thread_tip sha (cc_now c) (the (sc_thread_id ctx)) (case_option [] id (pg_model_id g))
                                backend (pg_full_prefix_chain_hash g) (pg_ordered_segment_hashes g) (Some (kv_id h)) ix)
                    else ix)
          in mg\<lparr>mg_index := ix, mg_kv_observer := ko\<rparr>)"

definition ephemeral_miss ::
  "manager_env \<Rightarrow> call_ctx \<Rightarrow> PromptGraph \<Rightarrow> string \<Rightarrow> string \<Rightarrow> string \<Rightarrow> ScopeContext \<Rightarrow> 's kv_adapter
   \<Rightarrow> ThreadWakeObservation \<Rightarrow> generate_fn \<Rightarrow> gen_params \<Rightarrow> TokenizedPrompt \<Rightarrow> 's ThreadWakeManager
   \<Rightarrow> (manager_exn + EphemeralResult) \<times> 's ThreadWakeManager" where
  "ephemeral_miss E c g key backend scope ctx adapter ob gen params tp mg =
     (case full_generation_result gen params ob mg of
        (Inl e, mg) \<Rightarrow> (Inl e, mg)
      | (Inr result, mg) \<Rightarrow>
          let stable_tokens = id_texts (tp_stable_prefix_token_ids tp) in
          if \<not> tp_real_tokenization tp \<or> stable_tokens = [] then (Inr result, mg)
          else
            case ka_prefill adapter (cc_id c 6) (cc_now c) stable_tokens (case_option [] id (pg_model_id g))
                   (mg_backend_state mg) of
              (Inl _, s) \<Rightarrow> (Inr result, mg\<lparr>mg_backend_state := s\<rparr>)
            | (Inr h, s) \<Rightarrow>
                (Inr result, store_miss E c g key backend scope ctx stable_tokens h (mg\<lparr>mg_backend_state := s\<rparr>)))"

definition tip_handle :: "call_ctx \<Rightarrow> string \<Rightarrow> string \<Rightarrow> ThreadTip \<Rightarrow> KVHandle" where
  "tip_handle c backend model_id tip =
     new_handle (cc_id c 2) (cc_now c) backend model_id (tip_segment_count tip)
       (Some (PDict [(''tip_key'', PStr (tip_chain_hash tip)), (''handle_id'', opt_str (tip_kv_handle_id tip))]))"

text \<open>A session continuation hands back its result, if it has one, with the observation it has annotated.\<close>

definition try_session_continuation ::
  "manager_env \<Rightarrow> call_ctx \<Rightarrow> PromptGraph \<Rightarrow> string \<Rightarrow> 's kv_adapter \<Rightarrow> string \<Rightarrow> ThreadWakeObservation \<Rightarrow> gen_params
   \<Rightarrow> TokenizedPrompt \<Rightarrow> 's ThreadWakeManager
   \<Rightarrow> EphemeralResult option \<times> ThreadWakeObservation \<times> 's ThreadWakeManager" where
  "try_session_continuation E c g thread_id adapter backend ob params tp mg =
     (let sha = pe_sha (me_prompt E); model_id = case_option [] id (pg_model_id g); ix = mg_index mg in
      if \<not> tp_real_tokenization tp then (None, ob, mg)
      else
        case get_latest_for_thread sha thread_id model_id backend ix of
          None \<Rightarrow> (None, ob, mg)
        | Some tip \<Rightarrow>
            if \<not> validate_monotonic_append (tip_ordered_segment_hashes tip) (pg_ordered_segment_hashes g) then
              (None, ob\<lparr>to_kv_reuse_reason := Some ''non_monotonic_or_changed_prefix''\<rparr>,
               mg\<lparr>mg_index := clear_thread_tip sha thread_id model_id backend ix\<rparr>)
            else
              case generate_from_clone adapter c (tip_handle c backend model_id tip)
                     (id_texts (tp_dynamic_tail_token_ids tp)) params (mg_backend_state mg) of
                (Inl _, s) \<Rightarrow>
                  (None, ob, mg\<lparr>mg_backend_state := s, mg_index := clear_thread_tip sha thread_id model_id backend ix\<rparr>)
              | (Inr output, s) \<Rightarrow>
                  let reuse = sum_list (map seg_token_count (take (tip_segment_count tip) (pg_segments g)));
                      ob = ob\<lparr>to_cache_hit := True, to_estimated_prefill_reuse_tokens := reuse\<rparr>;
                      ix = snd (store_thread_tip sha (cc_now c) thread_id model_id backend (pg_full_prefix_chain_hash g)
                                  (pg_ordered_segment_hashes g) (tip_kv_handle_id tip) ix)
                  in (Some (execution_result output True reuse ''session'' ob), ob,
                      record_metrics ob (mg\<lparr>mg_backend_state := s, mg_index := ix\<rparr>)))"

definition reuse_capable :: "KVCapability \<Rightarrow> bool" where
  "reuse_capable cap \<longleftrightarrow> cap = KV_EXPERIMENTAL \<or> cap = KV_RESUMABLE \<or> cap = KV_CLONEABLE \<or> cap = KV_SERIALIZABLE"

text \<open>The part of \<open>execute_ephemeral\<close> after the gates: continuation, exact hit, miss.\<close>

definition execute_reuse ::
  "manager_env \<Rightarrow> call_ctx \<Rightarrow> tw_request \<Rightarrow> PromptGraph \<Rightarrow> string \<Rightarrow> string \<Rightarrow> ThreadWakeObservation \<Rightarrow> generate_fn
   \<Rightarrow> gen_params \<Rightarrow> TokenizedPrompt \<Rightarrow> 's ThreadWakeManager \<Rightarrow> (manager_exn + EphemeralResult) \<times> 's ThreadWakeManager" where
  "execute_reuse E c r g key backend ob gen params tp mg =
     (let ctx = extract_scope_context r; adapter = kv_get (mg_backend_registry mg) backend; scope = to_cache_scope ob;
          (session_result, ob, mg) =
            (if str_true (sc_thread_id ctx) \<and> pg_continuation_candidate g
             then try_session_continuation E c g (the (sc_thread_id ctx)) adapter backend ob params tp mg
             else (None, ob, mg)) in
      case session_result of
        Some result \<Rightarrow> (Inr result, mg)
      | None \<Rightarrow>
          (case index_get (pe_sha (me_prompt E)) (cc_now c) key ctx (mg_index mg) of (entry, ix) \<Rightarrow>
             let mg = mg\<lparr>mg_index := ix\<rparr> in
             case entry of
               Some e \<Rightarrow>
                 if ie_status e = E_READY then ephemeral_hit E c g key e adapter ob gen params tp mg
                 else ephemeral_miss E c g key backend scope ctx adapter ob gen params tp mg
             | None \<Rightarrow> ephemeral_miss E c g key backend scope ctx adapter ob gen params tp mg))"

definition execute_ephemeral ::
  "manager_env \<Rightarrow> call_ctx \<Rightarrow> tw_request \<Rightarrow> string \<Rightarrow> string option \<Rightarrow> string option \<Rightarrow> string option \<Rightarrow> string option
   \<Rightarrow> generate_fn \<Rightarrow> gen_params \<Rightarrow> 's ThreadWakeManager \<Rightarrow> (manager_exn + EphemeralResult) \<times> 's ThreadWakeManager" where
  "execute_ephemeral E c r backend model_revision quantization tok_hash template_hash gen params mg =
     (case resolve_config E (tr_threadwake r) of
        Inl e \<Rightarrow> (Inl e, mg)
      | Inr config \<Rightarrow>
          let g = manager_compile E r (Some backend) tok_hash template_hash (config_scope config) (ix_allow_global (mg_index mg));
              ob = evaluate_threadwake_policy (Some g) config in
          case ta_tokenize (tok_get (mg_tokenizer_registry mg) backend) g (tr_messages r) (case_option [] id (pg_model_id g)) of
            Inl e \<Rightarrow> (Inl (TokenizerError e), mg)
          | Inr tokenized \<Rightarrow>
              let tp = (case tokenized of Some tp \<Rightarrow> tp | None \<Rightarrow> unavailable_prompt [] ''tokenizer_returned_none'') in
              case attach_backend_kv_status E c (Some backend) (Some tp) ob mg of (ob, mg) \<Rightarrow>
                if (tc_mode config \<noteq> Some TW_EPHEMERAL \<and> tc_mode config \<noteq> Some TW_SESSION) \<or> \<not> to_eligible ob then
                  full_generation_result gen params ob (record_metrics ob mg)
                else
                  let key = build_threadwake_cache_key (me_prompt E) g (to_cache_scope ob) model_revision quantization;
                      can_reuse = reuse_capable (kv_capability (mg_backend_registry mg) backend) in
                  if \<not> can_reuse \<or> \<not> tp_real_tokenization tp then
                    let ob = (if tp_real_tokenization tp then ob
                              else ob\<lparr>to_can_reuse_kv := False,
                                      to_kv_reuse_reason :=
                                        (if str_true (tp_unavailable_reason tp) then tp_unavailable_reason tp
                                         else Some ''real_tokenization_unavailable'')\<rparr>)
                    in full_generation_result gen params ob (record_metrics ob mg)
                  else execute_reuse E c r g key backend ob gen params tp mg)"

section \<open>The bridge from the route\<close>

record chat_response =
  rs_id :: string
  rs_created :: real
  rs_model :: string
  rs_text :: string
  rs_prompt_tokens :: nat
  rs_completion_tokens :: nat

text \<open>\<open>" ".join(...)\<close> over the contents; \<open>None\<close> is the \<open>TypeError\<close> of a content that is not a string.\<close>

fun joined_contents :: "ChatMessage list \<Rightarrow> string list option" where
  "joined_contents [] = Some []"
| "joined_contents (m # ms) =
     (case msg_content m of
        CText t \<Rightarrow> map_option (Cons t) (joined_contents ms)
      | CParts _ \<Rightarrow> None)"

definition build_response :: "call_ctx \<Rightarrow> tw_request \<Rightarrow> string list \<Rightarrow> chat_response option" where
  "build_response c r output =
     (let text = concat output; text = (if text = [] then ''[ThreadWake cached response]'' else text);
          words = (\<lambda>s. length (py_words (\<lambda>ch. \<not> py_is_space ch) s)) in
      case joined_contents (tr_messages r) of
        None \<Rightarrow> None
      | Some contents \<Rightarrow>
          Some \<lparr>rs_id = ''chatcmpl-tw-'' @ cc_id c 7, rs_created = cc_now c,
                rs_model = (case tr_model r of None \<Rightarrow> ''unknown'' | Some m \<Rightarrow> m), rs_text = text,
                rs_prompt_tokens = max 1 (words (py_join '' '' contents)), rs_completion_tokens = words text\<rparr>)"

text \<open>The answer is a response on a hit and nothing otherwise; the configuration error alone escapes.\<close>

definition execute_ephemeral_chat_completion ::
  "manager_env \<Rightarrow> call_ctx \<Rightarrow> tw_request \<Rightarrow> string \<Rightarrow> string option \<Rightarrow> string option \<Rightarrow> string option \<Rightarrow> string option
   \<Rightarrow> gen_params \<Rightarrow> 's ThreadWakeManager \<Rightarrow> (manager_exn + chat_response option) \<times> 's ThreadWakeManager" where
  "execute_ephemeral_chat_completion E c r backend model_revision quantization tok_hash template_hash params mg =
     (case resolve_config E (tr_threadwake r) of
        Inl e \<Rightarrow> (Inl e, mg)
      | Inr config \<Rightarrow>
          let tok_cap = tok_capability (mg_tokenizer_registry mg) backend in
          if tc_mode config \<noteq> Some TW_EPHEMERAL \<and> tc_mode config \<noteq> Some TW_SESSION then (Inr None, mg)
          else if kv_capability (mg_backend_registry mg) backend = KV_UNSUPPORTED then (Inr None, mg)
          else if tok_cap = TK_UNSUPPORTED \<or> tok_cap = TK_ESTIMATES_ONLY then (Inr None, mg)
          else
            case execute_ephemeral E c r backend model_revision quantization tok_hash template_hash
                   (\<lambda>_. Inr [''__tw_fallback__'']) params mg of
              (Inl _, mg) \<Rightarrow> (Inr None, mg)
            | (Inr result, mg) \<Rightarrow>
                (Inr (if er_cache_hit result then build_response c r (er_output_tokens result) else None), mg))"

section \<open>Health and administration\<close>

definition compute_status :: "string \<Rightarrow> ThreadWakeStats \<Rightarrow> string" where
  "compute_status mode st =
     (if st_entry_count st = 0 then (if mode = ''off'' then ''off'' else ''observing'')
      else
        let ready = case_option 0 id (dget (st_entries_by_status st) ''ready'');
            stale = case_option 0 id (dget (st_entries_by_status st) ''stale'') in
        if stale > ready \<and> stale > 0 then ''degraded''
        else if ready > 0 then ''ready'' else ''observing'')"

definition backend_capability_summary :: "'s kv_registry \<Rightarrow> (string, string) dict" where
  "backend_capability_summary reg =
     map (\<lambda>b. (b, KVCapability_value (kv_capability reg b))) (kv_registered_backends reg)"

record threadwake_health =
  th_enabled :: bool
  th_mode :: string
  th_status :: string
  th_stats :: ThreadWakeStats
  th_ready_entries :: int
  th_stale_entries :: int
  th_backend_capabilities :: "(string, string) dict"
  th_kv_enabled :: bool
  th_kv_stats :: KVLifecycleStats

definition get_health :: "manager_env \<Rightarrow> 's ThreadWakeManager \<Rightarrow> threadwake_health" where
  "get_health E mg =
     (let st = stats (mg_index mg); mode = get_threadwake_mode (me_environ E) in
      \<lparr>th_enabled = get_threadwake_enabled (me_environ E), th_mode = mode, th_status = compute_status mode st,
       th_stats = st, th_ready_entries = case_option 0 id (dget (st_entries_by_status st) ''ready''),
       th_stale_entries = case_option 0 id (dget (st_entries_by_status st) ''stale''),
       th_backend_capabilities = backend_capability_summary (mg_backend_registry mg),
       th_kv_enabled = ko_enabled (mg_kv_observer mg), th_kv_stats = ko_stats (mg_kv_observer mg)\<rparr>)"

definition has_ready_entry ::
  "manager_env \<Rightarrow> call_ctx \<Rightarrow> string option \<Rightarrow> 's ThreadWakeManager \<Rightarrow> bool \<times> 's ThreadWakeManager" where
  "has_ready_entry E c key mg =
     (case key of
        None \<Rightarrow> (False, mg)
      | Some k \<Rightarrow>
          (case index_get (pe_sha (me_prompt E)) (cc_now c) k
                  \<lparr>sc_thread_id = None, sc_user_id = None, sc_project_id = None\<rparr> (mg_index mg) of
             (None, ix) \<Rightarrow> (False, mg\<lparr>mg_index := ix\<rparr>)
           | (Some e, ix) \<Rightarrow> (ie_status e = E_READY, mg\<lparr>mg_index := ix\<rparr>)))"

definition flush_cache ::
  "manager_env \<Rightarrow> string option \<Rightarrow> string option \<Rightarrow> string option \<Rightarrow> 's ThreadWakeManager
   \<Rightarrow> (nat \<times> nat) \<times> 's ThreadWakeManager" where
  "flush_cache E scope model_id scope_id mg =
     (case flush scope model_id (map_option (pe_sha (me_prompt E)) scope_id) (mg_index mg) of (removed, ix) \<Rightarrow>
        ((removed, st_entry_count (stats ix)), mg\<lparr>mg_index := ix\<rparr>))"

text \<open>The flush endpoint: \<open>all\<close> stands for no scope filter, and the flushed entries count as evictions.\<close>

definition runtime_threadwake_flush ::
  "manager_env \<Rightarrow> string option \<Rightarrow> string option \<Rightarrow> string option \<Rightarrow> 's ThreadWakeManager
   \<Rightarrow> (nat \<times> nat) \<times> 's ThreadWakeManager" where
  "runtime_threadwake_flush E scope model_id scope_id mg =
     (case flush_cache E (if scope = Some ''all'' then None else scope) model_id scope_id mg of (result, mg) \<Rightarrow>
        (result, mg\<lparr>mg_metrics := record_eviction (int (fst result)) (mg_metrics mg)\<rparr>))"

section \<open>The answer of an execution\<close>

lemma full_generation_output:
  "full_generation_result gen params ob mg = (Inr res, mg') \<Longrightarrow>
     \<not> er_cache_hit res \<and> gen params = Inr (er_output_tokens res)"
  by (auto simp: full_generation_result_def execution_result_def split: sum.splits)

lemma ephemeral_miss_output:
  "ephemeral_miss E c g key backend scope ctx adapter ob gen params tp mg = (Inr res, mg') \<Longrightarrow>
     \<not> er_cache_hit res \<and> gen params = Inr (er_output_tokens res)"
  by (auto simp: ephemeral_miss_def Let_def dest: full_generation_output split: prod.splits sum.splits if_splits)

text \<open>An adapter that cannot clone never produces a hit.\<close>

definition clone_fails :: "'s kv_adapter \<Rightarrow> bool" where
  "clone_fails adapter \<longleftrightarrow> (\<forall>cid now h s. \<exists>e. ka_clone adapter cid now h s = (Inl e, s))"

lemma generate_from_clone_fails:
  "clone_fails adapter \<Longrightarrow> \<exists>e. generate_from_clone adapter c h ts params s = (Inl e, s)"
  unfolding clone_fails_def generate_from_clone_def by (metis (mono_tags, lifting) case_prod_conv sum.simps(5))

lemma ephemeral_hit_output:
  assumes "ephemeral_hit E c g key e adapter ob gen params tp mg = (Inr res, mg')"
  shows "(er_cache_hit res \<and> \<not> clone_fails adapter) \<or> (\<not> er_cache_hit res \<and> gen params = Inr (er_output_tokens res))"
proof (cases "generate_from_clone adapter c (hit_handle c key e) (id_texts (tp_dynamic_tail_token_ids tp)) params (mg_backend_state mg)")
  case (Pair out s)
  then show ?thesis
    using assms generate_from_clone_fails[of adapter c "hit_handle c key e" "id_texts (tp_dynamic_tail_token_ids tp)" params "mg_backend_state mg"]
    by (cases out) (auto simp: ephemeral_hit_def Let_def execution_result_def dest: full_generation_output)
qed

lemma continuation_output:
  assumes "try_session_continuation E c g thread_id adapter backend ob params tp mg = (Some res, ob', mg')"
  shows "er_cache_hit res \<and> \<not> clone_fails adapter"
proof -
  have "er_cache_hit res \<and> (\<exists>h ts s output s'. generate_from_clone adapter c h ts params s = (Inr output, s'))"
    using assms
    by (auto simp: try_session_continuation_def Let_def execution_result_def
        split: if_splits option.splits prod.splits sum.splits) blast+
  then show ?thesis using generate_from_clone_fails[of adapter] by (metis Inl_Inr_False prod.inject)
qed

lemma continuation_frame:
  assumes "try_session_continuation E c g thread_id adapter backend ob params tp mg = (res, ob', mg')"
  shows "mg_backend_registry mg' = mg_backend_registry mg" "mg_tokenizer_registry mg' = mg_tokenizer_registry mg"
    "ix_entries (mg_index mg') = ix_entries (mg_index mg)" "ix_allow_global (mg_index mg') = ix_allow_global (mg_index mg)"
    "to_cache_scope ob' = to_cache_scope ob"
  using assms
  by (auto simp: try_session_continuation_def Let_def store_thread_tip_def clear_thread_tip_def
      split: if_splits option.splits prod.splits sum.splits)

lemma execute_reuse_output:
  assumes "execute_reuse E c r g key backend ob gen params tp mg = (Inr res, mg')"
  shows "(er_cache_hit res \<and> \<not> clone_fails (kv_get (mg_backend_registry mg) backend))
       \<or> (\<not> er_cache_hit res \<and> gen params = Inr (er_output_tokens res))"
  using assms
  by (auto simp: execute_reuse_def Let_def dest: continuation_output ephemeral_hit_output ephemeral_miss_output
      split: if_splits option.splits prod.splits)

lemma attach_frame:
  assumes "attach_backend_kv_status E c b tp ob mg = (ob', mg')"
  shows "mg_backend_registry mg' = mg_backend_registry mg" "mg_tokenizer_registry mg' = mg_tokenizer_registry mg"
    "mg_index mg' = mg_index mg" "to_cache_scope ob' = to_cache_scope ob" "to_eligible ob' = to_eligible ob"
proof -
  have t: "to_cache_scope (attach_tokenizer_status reg b tp o1) = to_cache_scope o1"
    "to_eligible (attach_tokenizer_status reg b tp o1) = to_eligible o1" for reg b tp o1
    by (simp_all add: attach_tokenizer_status_def Let_def split: option.split)
  have k: "to_cache_scope (kv_status cap tp o1) = to_cache_scope o1" "to_eligible (kv_status cap tp o1) = to_eligible o1"
    for cap tp o1
    by (simp_all add: kv_status_def Let_def split: option.split)
  show "mg_backend_registry mg' = mg_backend_registry mg" "mg_tokenizer_registry mg' = mg_tokenizer_registry mg"
    "mg_index mg' = mg_index mg" "to_cache_scope ob' = to_cache_scope ob" "to_eligible ob' = to_eligible ob"
    using assms by (auto simp: attach_backend_kv_status_def Let_def t k split: option.splits)
qed

text \<open>The graph of a call and the key it is stored under.\<close>

definition call_graph ::
  "manager_env \<Rightarrow> tw_request \<Rightarrow> string \<Rightarrow> string option \<Rightarrow> string option \<Rightarrow> bool \<Rightarrow> ThreadWakeRequestConfig \<Rightarrow> PromptGraph" where
  "call_graph E r backend th ch allow_global config =
     manager_compile E r (Some backend) th ch (config_scope config) allow_global"

definition call_scope :: "PromptGraph \<Rightarrow> ThreadWakeRequestConfig \<Rightarrow> string" where
  "call_scope g config = to_cache_scope (evaluate_threadwake_policy (Some g) config)"

definition same_registries :: "'s ThreadWakeManager \<Rightarrow> 's ThreadWakeManager \<Rightarrow> bool" where
  "same_registries mg mg' \<longleftrightarrow>
     mg_backend_registry mg' = mg_backend_registry mg \<and> mg_tokenizer_registry mg' = mg_tokenizer_registry mg"

lemma gated_twice:
  "a \<or> b \<Longrightarrow> \<exists>z. (if a then F x else if b then (let y = y1 in F y) else d) = F z"
  by auto

lemma execute_ephemeral_cases:
  assumes out: "execute_ephemeral E c r backend v q th ch gen params mg = out"
  obtains (error) e where "out = (Inl e, mg)"
  | (full) ob mg1 where "out = full_generation_result gen params ob mg1" "mg_index mg1 = mg_index mg"
      "same_registries mg mg1"
  | (reuse) config tp ob mg1 where
      "resolve_config E (tr_threadwake r) = Inr config"
      "ta_tokenize (tok_get (mg_tokenizer_registry mg) backend)
         (call_graph E r backend th ch (ix_allow_global (mg_index mg)) config) (tr_messages r)
         (case_option [] id (pg_model_id (call_graph E r backend th ch (ix_allow_global (mg_index mg)) config))) = Inr (Some tp)"
      "tp_real_tokenization tp" "mg_index mg1 = mg_index mg" "same_registries mg mg1"
      "to_cache_scope ob = call_scope (call_graph E r backend th ch (ix_allow_global (mg_index mg)) config) config"
      "out = execute_reuse E c r (call_graph E r backend th ch (ix_allow_global (mg_index mg)) config)
               (build_threadwake_cache_key (me_prompt E) (call_graph E r backend th ch (ix_allow_global (mg_index mg)) config)
                  (to_cache_scope ob) v q) backend ob gen params tp mg1"
proof (cases "resolve_config E (tr_threadwake r)")
  case (Inl e)
  then show thesis using out by (intro error[of e]) (simp add: execute_ephemeral_def)
next
  case config: (Inr config)
  let ?g = "call_graph E r backend th ch (ix_allow_global (mg_index mg)) config"
  let ?tok = "ta_tokenize (tok_get (mg_tokenizer_registry mg) backend) ?g (tr_messages r) (case_option [] id (pg_model_id ?g))"
  show thesis
  proof (cases ?tok)
    case (Inl e)
    then show thesis using out config by (intro error[of "TokenizerError e"]) (simp add: execute_ephemeral_def call_graph_def Let_def)
  next
    case tok: (Inr tokenized)
    define tp where "tp = (case tokenized of Some tp \<Rightarrow> tp | None \<Rightarrow> unavailable_prompt [] ''tokenizer_returned_none'')"
    obtain ob mg1 where att: "attach_backend_kv_status E c (Some backend) (Some tp) (evaluate_threadwake_policy (Some ?g) config) mg = (ob, mg1)"
      by fastforce
    note frame = attach_frame[OF att]
    have regs: "same_registries mg (record_metrics ob1 mg1)" "same_registries mg mg1" for ob1
      using frame by (simp_all add: same_registries_def)
    have *: "out = (if (tc_mode config \<noteq> Some TW_EPHEMERAL \<and> tc_mode config \<noteq> Some TW_SESSION) \<or> \<not> to_eligible ob then
              full_generation_result gen params ob (record_metrics ob mg1)
            else if \<not> reuse_capable (kv_capability (mg_backend_registry mg1) backend) \<or> \<not> tp_real_tokenization tp then
              (let ob = (if tp_real_tokenization tp then ob
                         else ob\<lparr>to_can_reuse_kv := False,
                                 to_kv_reuse_reason := (if str_true (tp_unavailable_reason tp) then tp_unavailable_reason tp
                                                        else Some ''real_tokenization_unavailable'')\<rparr>)
               in full_generation_result gen params ob (record_metrics ob mg1))
            else execute_reuse E c r ?g (build_threadwake_cache_key (me_prompt E) ?g (to_cache_scope ob) v q) backend ob gen params tp mg1)"
      unfolding out[symmetric]
      by (simp add: execute_ephemeral_def call_graph_def[symmetric] config tok tp_def[symmetric] att Let_def
          split del: if_split) (simp only: Let_def)
    show thesis
    proof (cases "(tc_mode config = Some TW_EPHEMERAL \<or> tc_mode config = Some TW_SESSION) \<and> to_eligible ob
                  \<and> reuse_capable (kv_capability (mg_backend_registry mg1) backend) \<and> tp_real_tokenization tp")
      case True
      then have "tokenized = Some tp" by (auto simp: tp_def unavailable_prompt_def split: option.splits)
      with True tok frame regs * config show thesis by (intro reuse[of config tp mg1 ob]) (auto simp: call_scope_def)
    next
      case False
      have "\<exists>ob1. out = full_generation_result gen params ob1 (record_metrics ob1 mg1)"
        unfolding * by (rule gated_twice[where F = "\<lambda>o1. full_generation_result gen params o1 (record_metrics o1 mg1)"])
          (use False in blast)
      then obtain ob1 where "out = full_generation_result gen params ob1 (record_metrics ob1 mg1)" by blast
      with frame regs show thesis by (intro full[of ob1 "record_metrics ob1 mg1"]) simp_all
    qed
  qed
qed

lemma execute_ephemeral_output:
  assumes "execute_ephemeral E c r backend v q th ch gen params mg = (Inr res, mg')"
  shows "(er_cache_hit res \<and> \<not> clone_fails (kv_get (mg_backend_registry mg) backend))
       \<or> (\<not> er_cache_hit res \<and> gen params = Inr (er_output_tokens res))"
  using assms
proof (cases rule: execute_ephemeral_cases)
  case (full ob mg1)
  then show ?thesis using full_generation_output by metis
next
  case (reuse config tp ob mg1)
  then show ?thesis using execute_reuse_output[OF reuse(7)[symmetric]] by (simp add: same_registries_def)
qed simp

section \<open>Which handles are ready\<close>

definition ready_handle :: "ThreadWakeIndex \<Rightarrow> string \<Rightarrow> string option option" where
  "ready_handle ix k =
     (case dget (ix_entries ix) k of
        Some e \<Rightarrow> if ie_status e = E_READY then Some (ie_kv_handle_id e) else None
      | None \<Rightarrow> None)"

lemma ready_get [simp]: "ready_handle (snd (index_get sha now k ctx ix)) = ready_handle ix"
  by (rule ext)
    (auto simp: ready_handle_def index_get_def touch_def Let_def dict_simps split: option.split)

lemma ready_entries: "ix_entries ix' = ix_entries ix \<Longrightarrow> ready_handle ix' = ready_handle ix"
  by (rule ext) (simp add: ready_handle_def)

lemma ready_stale: "ready_handle (mark_stale k ix) j = Some y \<Longrightarrow> ready_handle ix j = Some y"
  by (auto simp: ready_handle_def mark_stale_def dict_simps split: option.splits if_splits)

lemma ready_flush: "ready_handle (snd (flush a b d ix)) j = Some y \<Longrightarrow> ready_handle ix j = Some y"
  unfolding flush_def Let_def
  by (auto simp: ready_handle_def split: option.splits if_splits dest: dget_remove_keys)

lemma put_entry:
  assumes "ix_ok ix" and "put_observation sha now ob ix = Inr (e', ix')" and "dget (ix_entries ix') (ob_cache_key ob) = Some e"
  shows "(dget (ix_entries ix) (ob_cache_key ob) = None \<and> ie_status e = E_OBSERVED \<and> ie_kv_handle_id e = ob_kv_handle_id ob)
       \<or> (\<exists>old. dget (ix_entries ix) (ob_cache_key ob) = Some old \<and> ie_status e = ie_status old
            \<and> ie_kv_handle_id e = (case ob_kv_handle_id ob of None \<Rightarrow> ie_kv_handle_id old | Some h \<Rightarrow> Some h))"
proof (cases "dget (ix_entries ix) (ob_cache_key ob)")
  case None
  have "ob_scope ob = ''global'' \<Longrightarrow> ix_allow_global ix"
    using assms(2) by (auto simp: put_observation_def split: if_splits)
  then obtain n where "ix' = evicted n (stored sha now ob ix)"
    using put_fresh[OF assms(1) None, of sha now] assms(2) by (metis Inr_inject prod.inject)
  then have "dget (ix_entries (stored sha now ob ix)) (ob_cache_key ob) = Some e"
    using assms(3) dget_filter[OF stored_facts(1)[OF assms(1) None]] by (auto simp: evicted_def)
  then show ?thesis
    using None by (auto simp: stored_def map_add_def new_index_entry_def)
next
  case (Some old)
  then show ?thesis
    using assms by (auto simp: put_observation_def refresh_entry_def touch_def Let_def dict_simps split: if_splits)
qed

lemma ready_observe:
  assumes "ix_ok ix" and "put_observation sha now ob ix = Inr (e', ix')" and "ob_kv_handle_id ob = None"
    and "ready_handle ix' j = Some y"
  shows "ready_handle ix j = Some y"
proof (cases "j = ob_cache_key ob")
  case True
  then show ?thesis
    using assms(4) put_entry[OF assms(1,2)] assms(3)
    by (auto simp: ready_handle_def split: option.splits if_splits)
next
  case False
  then show ?thesis
    using assms(4) put_other_key[OF assms(1,2), of j]
    by (auto simp: ready_handle_def split: option.splits if_splits)
qed

lemma ready_store:
  assumes "ix_ok ix" and "put_observation sha now ob ix = Inr (e', ix')" and "ob_kv_handle_id ob = Some h"
    and "ready_handle (mark_ready (ob_cache_key ob) ix') j = Some y"
  shows "(j = ob_cache_key ob \<and> y = Some h) \<or> ready_handle ix j = Some y"
proof (cases "j = ob_cache_key ob")
  case True
  then show ?thesis
    using assms(4) put_entry[OF assms(1,2)] assms(3)
    by (auto simp: ready_handle_def mark_ready_def dict_simps split: option.splits if_splits)
next
  case False
  then show ?thesis
    using assms(4) put_other_key[OF assms(1,2), of j]
    by (auto simp: ready_handle_def mark_ready_def dict_simps split: option.splits if_splits)
qed

lemma put_allow_global:
  assumes "ix_ok ix" and "put_observation sha now ob ix = Inr (e', ix')"
  shows "ix_allow_global ix' = ix_allow_global ix"
  using index_step_limits[of sha "Put now ob" ix] assms by simp

text \<open>How a method may move the index: it stays well formed, the global switch stays, and every ready
  handle was ready before or is one of \<open>K\<close>.\<close>

definition moves :: "(string \<times> string option) set \<Rightarrow> ThreadWakeIndex \<Rightarrow> ThreadWakeIndex \<Rightarrow> bool" where
  "moves K ix ix' \<longleftrightarrow>
     (ix_ok ix \<longrightarrow> ix_ok ix' \<and> ix_allow_global ix' = ix_allow_global ix
        \<and> (\<forall>j y. ready_handle ix' j = Some y \<longrightarrow> ready_handle ix j = Some y \<or> (j, y) \<in> K))"

lemma moves_refl [simp]: "moves K ix ix"
  by (simp add: moves_def)

lemma moves_trans: "moves K ix ix' \<Longrightarrow> moves L ix' ix'' \<Longrightarrow> moves (K \<union> L) ix ix''"
  unfolding moves_def by fastforce

lemma moves_mono: "moves K ix ix' \<Longrightarrow> K \<subseteq> L \<Longrightarrow> moves L ix ix'"
  unfolding moves_def by blast

lemma moves_simple:
  "moves {} ix (snd (index_get sha now k ctx ix))"
  "moves {} ix (mark_stale k ix)"
  "moves {} ix (snd (flush a b d ix))"
  "moves {} ix (snd (store_thread_tip sha now t m bk ch hs h ix))"
  "moves {} ix (clear_thread_tip sha t m bk ix)"
proof -
  show "moves {} ix (snd (index_get sha now k ctx ix))"
    unfolding moves_def ready_get
    using index_step_limits[of sha "Get now k ctx" ix, unfolded index_step.simps] index_get_ok by blast
  show "moves {} ix (mark_stale k ix)"
    unfolding moves_def
    using index_step_limits[of sha "MarkStale k" ix, unfolded index_step.simps] mark_stale_ok ready_stale by blast
  show "moves {} ix (snd (flush a b d ix))"
    unfolding moves_def
    using index_step_limits[of sha "Flush a b d" ix, unfolded index_step.simps] flush_ok ready_flush by blast
  show "moves {} ix (snd (store_thread_tip sha now t m bk ch hs h ix))"
    using ready_entries[of "snd (store_thread_tip sha now t m bk ch hs h ix)" ix]
    by (simp add: moves_def tips_ok) (simp add: store_thread_tip_def Let_def)
  show "moves {} ix (clear_thread_tip sha t m bk ix)"
    using ready_entries[of "clear_thread_tip sha t m bk ix" ix]
    by (simp add: moves_def tips_ok) (simp add: clear_thread_tip_def)
qed

lemma moves_observe:
  "put_observation sha now ob ix = Inr (e', ix') \<Longrightarrow> ob_kv_handle_id ob = None \<Longrightarrow> moves {} ix ix'"
  unfolding moves_def by (auto dest: put_ok put_allow_global ready_observe)

lemma moves_store:
  assumes "put_observation sha now ob ix = Inr (e', ix')" and "ob_kv_handle_id ob = Some h"
  shows "moves {(ob_cache_key ob, Some h)} ix (mark_ready (ob_cache_key ob) ix')"
  unfolding moves_def
  using index_step_limits[of sha "MarkReady (ob_cache_key ob)" ix'] assms
  by (auto dest: put_ok mark_ready_ok put_allow_global ready_store)

lemma full_generation_index: "mg_index (snd (full_generation_result gen params ob mg)) = mg_index mg"
  "same_registries mg (snd (full_generation_result gen params ob mg))"
  by (simp_all add: full_generation_result_def same_registries_def split: sum.split)

lemma store_miss_moves:
  "moves {(key, Some (kv_id h))} (mg_index mg) (mg_index (store_miss E c g key backend scope ctx toks h mg))"
proof (cases "put_observation (pe_sha (me_prompt E)) (cc_now c) (miss_observation key g backend scope ctx (kv_id h)) (mg_index mg)")
  case (Inl e)
  then show ?thesis by (simp add: store_miss_def Let_def)
next
  case (Inr stored)
  obtain e' ix where put: "stored = (e', ix)" by fastforce
  have "moves {(key, Some (kv_id h))} (mg_index mg) (mark_ready key ix)"
    using moves_store[OF Inr[unfolded put], of "kv_id h"] by (simp add: miss_observation_def)
  from moves_trans[OF this moves_simple(4)] this show ?thesis
    using Inr put by (simp add: store_miss_def Let_def)
qed

text \<open>The handles a miss may make ready: those of a prefill of the stable tokens of the call.\<close>

definition prefills ::
  "'s kv_adapter \<Rightarrow> call_ctx \<Rightarrow> PromptGraph \<Rightarrow> TokenizedPrompt \<Rightarrow> string \<Rightarrow> bool" where
  "prefills adapter c g tp hid \<longleftrightarrow>
     (\<exists>s h s'. ka_prefill adapter (cc_id c 6) (cc_now c) (id_texts (tp_stable_prefix_token_ids tp))
                 (case_option [] id (pg_model_id g)) s = (Inr h, s') \<and> kv_id h = hid)"

lemma ephemeral_miss_moves:
  "moves {(key, Some hid) | hid. prefills adapter c g tp hid} (mg_index mg)
     (mg_index (snd (ephemeral_miss E c g key backend scope ctx adapter ob gen params tp mg)))"
proof (cases "full_generation_result gen params ob mg")
  case (Pair res mg1)
  have mg1: "mg_index mg1 = mg_index mg" using full_generation_index(1)[of gen params ob mg] Pair by simp
  show ?thesis
  proof (cases res)
    case (Inl e)
    with Pair mg1 show ?thesis by (simp add: ephemeral_miss_def)
  next
    case (Inr result)
    let ?pre = "ka_prefill adapter (cc_id c 6) (cc_now c) (id_texts (tp_stable_prefix_token_ids tp))
                  (case_option [] id (pg_model_id g)) (mg_backend_state mg1)"
    obtain p s where p: "?pre = (p, s)" by fastforce
    show ?thesis
    proof (cases p)
      case (Inl e)
      with Pair Inr mg1 p show ?thesis by (simp add: ephemeral_miss_def Let_def)
    next
      case h: (Inr h)
      then have "prefills adapter c g tp (kv_id h)" using p unfolding prefills_def by blast
      then have "moves {(key, Some hid) | hid. prefills adapter c g tp hid} (mg_index (mg1\<lparr>mg_backend_state := s\<rparr>))
          (mg_index (store_miss E c g key backend scope ctx (id_texts (tp_stable_prefix_token_ids tp)) h (mg1\<lparr>mg_backend_state := s\<rparr>)))"
        by (intro moves_mono[OF store_miss_moves]) blast
      with Pair Inr mg1 p h show ?thesis by (simp add: ephemeral_miss_def Let_def)
    qed
  qed
qed

lemma ephemeral_hit_moves:
  "moves {} (mg_index mg) (mg_index (snd (ephemeral_hit E c g key e adapter ob gen params tp mg)))"
  by (auto simp: ephemeral_hit_def Let_def full_generation_index moves_simple split: prod.split sum.split)

lemma continuation_moves:
  assumes "try_session_continuation E c g t adapter backend ob params tp mg = (res, ob', mg')"
  shows "moves {} (mg_index mg) (mg_index mg')"
  using assms
  by (auto simp: try_session_continuation_def Let_def moves_simple split: if_splits option.splits prod.splits sum.splits)

lemma execute_reuse_moves:
  "moves {(key, Some hid) | hid. prefills (kv_get (mg_backend_registry mg) backend) c g tp hid} (mg_index mg)
     (mg_index (snd (execute_reuse E c r g key backend ob gen params tp mg)))"
proof -
  let ?a = "kv_get (mg_backend_registry mg) backend" and ?ctx = "extract_scope_context r"
  let ?K = "{(key, Some hid) | hid. prefills ?a c g tp hid}"
  define start where "start = (if str_true (sc_thread_id ?ctx) \<and> pg_continuation_candidate g
             then try_session_continuation E c g (the (sc_thread_id ?ctx)) ?a backend ob params tp mg else (None, ob, mg))"
  obtain res ob1 mg1 where start: "start = (res, ob1, mg1)" by (cases start)
  have first: "moves {} (mg_index mg) (mg_index mg1)"
    using start by (auto simp: start_def dest: continuation_moves split: if_splits)
  obtain entry ix where get: "index_get (pe_sha (me_prompt E)) (cc_now c) key ?ctx (mg_index mg1) = (entry, ix)" by fastforce
  have second: "moves {} (mg_index mg1) ix" using moves_simple(1)[of "mg_index mg1"] get by (metis snd_conv)
  have rest: "moves ?K (mg_index mg) (mg_index mg2)" if "moves ?K ix (mg_index mg2)" for mg2 :: "'a ThreadWakeManager"
    using moves_trans[OF moves_trans[OF first second] that] by simp
  have unfold: "execute_reuse E c r g key backend ob gen params tp mg =
      (case res of
         Some result \<Rightarrow> (Inr result, mg1)
       | None \<Rightarrow>
           (case entry of
              Some e \<Rightarrow>
                if ie_status e = E_READY then ephemeral_hit E c g key e ?a ob1 gen params tp (mg1\<lparr>mg_index := ix\<rparr>)
                else ephemeral_miss E c g key backend (to_cache_scope ob) ?ctx ?a ob1 gen params tp (mg1\<lparr>mg_index := ix\<rparr>)
            | None \<Rightarrow> ephemeral_miss E c g key backend (to_cache_scope ob) ?ctx ?a ob1 gen params tp (mg1\<lparr>mg_index := ix\<rparr>)))"
    unfolding execute_reuse_def Let_def start_def[symmetric] start by (simp add: get split: option.split)
  have hit: "moves ?K ix (mg_index (snd (ephemeral_hit E c g key e ?a ob1 gen params tp (mg1\<lparr>mg_index := ix\<rparr>))))" for e
    using moves_mono[OF ephemeral_hit_moves, of ?K "mg1\<lparr>mg_index := ix\<rparr>"] by simp
  have miss: "moves ?K ix (mg_index (snd (ephemeral_miss E c g key backend sc ?ctx ?a ob1 gen params tp (mg1\<lparr>mg_index := ix\<rparr>))))" for sc
    using ephemeral_miss_moves[of key ?a c g tp "mg1\<lparr>mg_index := ix\<rparr>"] by simp
  show ?thesis
    unfolding unfold using rest[OF hit] rest[OF miss] moves_mono[OF first, of ?K] by (simp split: option.split)
qed

text \<open>A call of \<open>execute_ephemeral\<close>, what it would store, and the operations of a running manager.\<close>

record exec_call =
  xc_ctx :: call_ctx
  xc_request :: tw_request
  xc_backend :: string
  xc_model_revision :: "string option"
  xc_quantization :: "string option"
  xc_tokenizer_hash :: "string option"
  xc_chat_template_hash :: "string option"
  xc_generate :: generate_fn
  xc_params :: gen_params

definition call_compile :: "manager_env \<Rightarrow> bool \<Rightarrow> exec_call \<Rightarrow> ThreadWakeRequestConfig \<Rightarrow> PromptGraph" where
  "call_compile E allow_global x config =
     call_graph E (xc_request x) (xc_backend x) (xc_tokenizer_hash x) (xc_chat_template_hash x) allow_global config"

definition call_key :: "manager_env \<Rightarrow> bool \<Rightarrow> exec_call \<Rightarrow> ThreadWakeRequestConfig \<Rightarrow> string" where
  "call_key E allow_global x config =
     (let g = call_compile E allow_global x config in
      build_threadwake_cache_key (me_prompt E) g (call_scope g config) (xc_model_revision x) (xc_quantization x))"

text \<open>\<open>hid\<close> is a handle that call \<open>x\<close> prefilled with the tokens \<open>toks\<close> under the key \<open>k\<close>.\<close>

definition prefilled_by ::
  "manager_env \<Rightarrow> 's kv_registry \<Rightarrow> tokenizer_registry \<Rightarrow> bool \<Rightarrow> exec_call \<Rightarrow> string \<Rightarrow> string \<Rightarrow> string list \<Rightarrow> bool" where
  "prefilled_by E backends toks allow_global x k hid tokens \<longleftrightarrow>
     (\<exists>config tp. resolve_config E (tr_threadwake (xc_request x)) = Inr config
        \<and> k = call_key E allow_global x config
        \<and> ta_tokenize (tok_get toks (xc_backend x)) (call_compile E allow_global x config) (tr_messages (xc_request x))
            (case_option [] id (pg_model_id (call_compile E allow_global x config))) = Inr (Some tp)
        \<and> tp_real_tokenization tp \<and> tokens = id_texts (tp_stable_prefix_token_ids tp)
        \<and> prefills (kv_get backends (xc_backend x)) (xc_ctx x) (call_compile E allow_global x config) tp hid)"

text \<open>What can happen to a manager: its calls, and the registrations made while it serves, such as those
  of the MLX runtime after it has loaded a model.\<close>

definition register_tokenizer_adapter :: "environ \<Rightarrow> tokenizer_adapter \<Rightarrow> 's ThreadWakeManager \<Rightarrow> 's ThreadWakeManager" where
  "register_tokenizer_adapter env adapter mg =
     (if get_threadwake_mlx_tokenizer_enabled env
      then mg\<lparr>mg_tokenizer_registry := tok_register ''mlx'' adapter (mg_tokenizer_registry mg)\<rparr> else mg)"

definition register_kv_adapter :: "'s kv_adapter \<Rightarrow> 's ThreadWakeManager \<Rightarrow> 's ThreadWakeManager" where
  "register_kv_adapter adapter mg = mg\<lparr>mg_backend_registry := kv_register ''mlx'' adapter (mg_backend_registry mg)\<rparr>"

datatype 's manager_op =
    MObserve call_ctx tw_request "string option" "string option" "string option" "string option" "string option"
  | MExecute exec_call
  | MFlush "string option" "string option" "string option"
  | MReady call_ctx "string option"
  | MTokenizerLoaded tokenizer_adapter
  | MBackendLoaded "'s kv_adapter"

fun manager_step :: "manager_env \<Rightarrow> 's manager_op \<Rightarrow> 's ThreadWakeManager \<Rightarrow> 's ThreadWakeManager" where
  "manager_step E (MObserve c r backend v q th ch) mg = snd (observe_request E c r backend v q th ch mg)"
| "manager_step E (MExecute x) mg =
     snd (execute_ephemeral E (xc_ctx x) (xc_request x) (xc_backend x) (xc_model_revision x) (xc_quantization x)
            (xc_tokenizer_hash x) (xc_chat_template_hash x) (xc_generate x) (xc_params x) mg)"
| "manager_step E (MFlush scope model_id scope_id) mg = snd (runtime_threadwake_flush E scope model_id scope_id mg)"
| "manager_step E (MReady c k) mg = snd (has_ready_entry E c k mg)"
| "manager_step E (MTokenizerLoaded adapter) mg = register_tokenizer_adapter (me_environ E) adapter mg"
| "manager_step E (MBackendLoaded adapter) mg = register_kv_adapter adapter mg"

fun executed :: "'s manager_op \<Rightarrow> exec_call set" where
  "executed (MExecute x) = {x}"
| "executed _ = {}"

lemma execute_moves:
  fixes mg :: "'s ThreadWakeManager"
  shows "moves {(k, Some hid) | k hid tokens. prefilled_by E (mg_backend_registry mg) (mg_tokenizer_registry mg)
                  (ix_allow_global (mg_index mg)) x k hid tokens}
           (mg_index mg) (mg_index (manager_step E (MExecute x) mg))"
    (is "moves ?K _ _")
proof -
  obtain out where out: "execute_ephemeral E (xc_ctx x) (xc_request x) (xc_backend x) (xc_model_revision x) (xc_quantization x)
      (xc_tokenizer_hash x) (xc_chat_template_hash x) (xc_generate x) (xc_params x) mg = out" by blast
  then have "moves ?K (mg_index mg) (mg_index (snd out))"
  proof (cases rule: execute_ephemeral_cases)
    case (full ob mg1)
    then show ?thesis by (simp add: full_generation_index)
  next
    case (reuse config tp ob mg1)
    let ?g = "call_compile E (ix_allow_global (mg_index mg)) x config"
    have "prefilled_by E (mg_backend_registry mg) (mg_tokenizer_registry mg) (ix_allow_global (mg_index mg)) x
            (call_key E (ix_allow_global (mg_index mg)) x config) hid (id_texts (tp_stable_prefix_token_ids tp))"
      if "prefills (kv_get (mg_backend_registry mg1) (xc_backend x)) (xc_ctx x) ?g tp hid" for hid
      using reuse(1-5) that by (auto simp: prefilled_by_def call_compile_def same_registries_def)
    then have sub: "{(call_key E (ix_allow_global (mg_index mg)) x config, Some hid) | hid.
        prefills (kv_get (mg_backend_registry mg1) (xc_backend x)) (xc_ctx x) ?g tp hid} \<subseteq> ?K" by blast
    have "out = execute_reuse E (xc_ctx x) (xc_request x) ?g (call_key E (ix_allow_global (mg_index mg)) x config)
            (xc_backend x) ob (xc_generate x) (xc_params x) tp mg1"
      using reuse(6,7) by (simp add: call_compile_def call_key_def Let_def)
    then show ?thesis
      using moves_mono[OF execute_reuse_moves sub, of E "xc_request x" ob "xc_generate x" "xc_params x"] reuse(4) by simp
  qed simp
  with out show ?thesis by simp
qed

lemma observe_moves: "moves {} (mg_index mg) (mg_index (snd (observe_request E c r backend v q th ch mg)))"
proof -
  have rec: "moves {} (mg_index m1) (mg_index m2)"
    if "record_index_observation E c g ob backend v q ctx m1 = (res, m2)" for g ob ctx res m1 and m2 :: "'a ThreadWakeManager"
    using that
    by (auto simp: record_index_observation_def Let_def intro: moves_observe
        split: option.splits if_splits sum.splits index_exn.splits)
  show ?thesis
    by (auto simp: observe_request_def Let_def dest!: rec attach_frame(3) split: sum.split prod.split)
qed

lemma execute_reuse_registries:
  "same_registries mg (snd (execute_reuse E c r g key backend ob gen params tp mg))"
proof -
  have hit: "same_registries m (snd (ephemeral_hit E c g key e adapter ob gen params tp m))" for e adapter ob and m :: "'a ThreadWakeManager"
    by (auto simp: ephemeral_hit_def Let_def same_registries_def full_generation_result_def split: prod.split sum.split)
  have miss: "same_registries m (snd (ephemeral_miss E c g key backend sc ctx adapter ob gen params tp m))"
    for sc ctx adapter ob and m :: "'a ThreadWakeManager"
    by (auto simp: ephemeral_miss_def store_miss_def Let_def same_registries_def full_generation_result_def
        split: prod.split sum.split)
  show ?thesis
    using hit miss
    by (auto simp: execute_reuse_def Let_def same_registries_def dest: continuation_frame split: prod.split option.split)
qed

fun registers :: "'s manager_op \<Rightarrow> bool" where
  "registers (MTokenizerLoaded _) = True"
| "registers (MBackendLoaded _) = True"
| "registers _ = False"

lemma step_registries: "\<not> registers op \<Longrightarrow> same_registries mg (manager_step E op mg)"
proof (cases op)
  case (MObserve c r backend v q th ch)
  have "same_registries m1 m2"
    if "record_index_observation E c g ob backend v q ctx m1 = (res, m2)" for g ob ctx res m1 and m2 :: "'a ThreadWakeManager"
    using that
    by (auto simp: record_index_observation_def Let_def same_registries_def
        split: option.splits if_splits sum.splits index_exn.splits)
  then show ?thesis
    unfolding MObserve
    by (auto simp: observe_request_def Let_def same_registries_def dest: attach_frame split: sum.split prod.split)
next
  case (MExecute x)
  obtain out where out: "execute_ephemeral E (xc_ctx x) (xc_request x) (xc_backend x) (xc_model_revision x) (xc_quantization x)
      (xc_tokenizer_hash x) (xc_chat_template_hash x) (xc_generate x) (xc_params x) mg = out" by blast
  then have "same_registries mg (snd out)"
  proof (cases rule: execute_ephemeral_cases)
    case (full ob mg1)
    then show ?thesis using full_generation_index(2)[of mg1] by (simp add: same_registries_def)
  next
    case (reuse config tp ob mg1)
    then show ?thesis
      using execute_reuse_registries[of mg1] by (simp add: same_registries_def)
  qed (simp add: same_registries_def)
  with MExecute out show ?thesis by simp
qed (auto simp: runtime_threadwake_flush_def flush_cache_def has_ready_entry_def same_registries_def
      split: prod.split option.split)

section \<open>What a ready entry holds\<close>

lemma step_moves:
  "moves {(k, Some hid) | x k hid tokens. x \<in> executed op \<and> prefilled_by E (mg_backend_registry mg) (mg_tokenizer_registry mg)
                  (ix_allow_global (mg_index mg)) x k hid tokens}
     (mg_index mg) (mg_index (manager_step E op mg))"
proof (cases op)
  case (MExecute x)
  then show ?thesis using moves_mono[OF execute_moves[of E mg x]] by fastforce
next
  case (MObserve c r backend v q th ch)
  then show ?thesis using moves_mono[OF observe_moves] by fastforce
next
  case (MFlush scope model_id scope_id)
  have "moves {} (mg_index mg) (mg_index (manager_step E op mg))"
    unfolding MFlush manager_step.simps runtime_threadwake_flush_def flush_cache_def
    using moves_simple(3) by (simp split: prod.split) (metis snd_conv)
  then show ?thesis by (rule moves_mono) simp
next
  case (MReady c k)
  have "moves {} (mg_index mg) (mg_index (manager_step E op mg))"
    unfolding MReady manager_step.simps has_ready_entry_def
    using moves_simple(1) by (simp split: prod.split option.split) (metis snd_conv)
  then show ?thesis by (rule moves_mono) simp
qed (simp_all add: register_tokenizer_adapter_def register_kv_adapter_def)

definition manager_run :: "manager_env \<Rightarrow> 's manager_op list \<Rightarrow> 's ThreadWakeManager \<Rightarrow> 's ThreadWakeManager" where
  "manager_run E ops mg = fold (manager_step E) ops mg"

definition executed_calls :: "'s manager_op list \<Rightarrow> exec_call set" where
  "executed_calls ops = \<Union> (executed ` set ops)"

definition ready_entries_of :: "'s ThreadWakeManager \<Rightarrow> (string \<times> string option) set" where
  "ready_entries_of mg = {(k, y). ready_handle (mg_index mg) k = Some y}"

text \<open>The handles that the executions of a run prefilled, each with the adapters registered at the time
  of its call.\<close>

definition prefilled_in :: "manager_env \<Rightarrow> 's manager_op list \<Rightarrow> 's ThreadWakeManager \<Rightarrow> (string \<times> string option) set" where
  "prefilled_in E ops mg =
     {(k, Some hid) | k hid. \<exists>pre x post tokens. ops = pre @ MExecute x # post
        \<and> prefilled_by E (mg_backend_registry (manager_run E pre mg)) (mg_tokenizer_registry (manager_run E pre mg))
            (ix_allow_global (mg_index mg)) x k hid tokens}"

lemma prefilled_in_snoc:
  "prefilled_in E ops mg \<subseteq> prefilled_in E (ops @ [op]) mg"
  by (fastforce simp: prefilled_in_def)

lemma prefilled_in_last:
  assumes "prefilled_by E (mg_backend_registry (manager_run E ops mg)) (mg_tokenizer_registry (manager_run E ops mg))
            (ix_allow_global (mg_index mg)) x k hid tokens"
  shows "(k, Some hid) \<in> prefilled_in E (ops @ [MExecute x]) mg"
  using assms unfolding prefilled_in_def by blast

lemma run_invariant:
  fixes mg :: "'s ThreadWakeManager" and E ops
  assumes "ix_ok (mg_index mg)"
  defines "mg' \<equiv> manager_run E ops mg"
  shows "ix_ok (mg_index mg') \<and> ix_allow_global (mg_index mg') = ix_allow_global (mg_index mg)
    \<and> ready_entries_of mg' \<subseteq> ready_entries_of mg \<union> prefilled_in E ops mg"
  using assms(1) unfolding mg'_def
proof (induction ops rule: rev_induct)
  case Nil
  then show ?case by (simp add: manager_run_def)
next
  case (snoc op ops)
  let ?m = "manager_run E ops mg"
  let ?K = "{(k, Some hid) | x k hid tokens. x \<in> executed op \<and> prefilled_by E (mg_backend_registry ?m)
      (mg_tokenizer_registry ?m) (ix_allow_global (mg_index mg)) x k hid tokens}"
  note ih = snoc.IH[OF snoc.prems]
  have run: "manager_run E (ops @ [op]) mg = manager_step E op ?m" by (simp add: manager_run_def)
  have "moves ?K (mg_index ?m) (mg_index (manager_step E op ?m))"
    using step_moves[of op E ?m] ih by simp
  then have step: "ix_ok (mg_index (manager_step E op ?m))"
    "ix_allow_global (mg_index (manager_step E op ?m)) = ix_allow_global (mg_index ?m)"
    "ready_entries_of (manager_step E op ?m) \<subseteq> ready_entries_of ?m \<union> ?K"
    using ih unfolding moves_def ready_entries_of_def by (blast, blast, force)
  have K: "?K \<subseteq> prefilled_in E (ops @ [op]) mg"
    using prefilled_in_last[of E ops mg] by (cases op) auto
  have "ready_entries_of ?m \<subseteq> ready_entries_of mg \<union> prefilled_in E (ops @ [op]) mg"
    by (rule subset_trans[OF conjunct2[OF conjunct2[OF ih]] Un_mono[OF subset_refl prefilled_in_snoc]])
  then have "ready_entries_of (manager_step E op ?m) \<subseteq> ready_entries_of mg \<union> prefilled_in E (ops @ [op]) mg"
    by (rule subset_trans[OF step(3) Un_least[OF _ le_supI2[OF K]]])
  then show ?case unfolding run using step ih by simp
qed

lemma new_manager_facts:
  "ix_ok (mg_index (new_manager env backends tokenizers s))" "ready_entries_of (new_manager env backends tokenizers s) = {}"
  "mg_backend_registry (new_manager env backends tokenizers s) = backends"
  "mg_tokenizer_registry (new_manager env backends tokenizers s) = tokenizers"
  "ix_allow_global (mg_index (new_manager env backends tokenizers s)) = get_threadwake_allow_global env"
  by (simp_all add: new_manager_def build_default_index_def new_index_def ix_ok_def ready_entries_of_def ready_handle_def)

lemmas run_from_new = run_invariant[OF new_manager_facts(1), unfolded new_manager_facts Un_empty_left]

text \<open>C20. Whatever a manager has been through, calls and registrations of adapters while it serves alike,
  every entry it may serve a hit from holds a handle that some executed call really prefilled,
  through the adapters registered at that moment and under the cache key that call computed: an
  observed or stale entry, a flushed one or one whose prefill failed never becomes ready.\<close>

theorem ready_handles_were_prefilled:
  "ready_entries_of (manager_run E ops (new_manager env backends tokenizers s)) \<subseteq>
     {(k, Some hid) | k hid. \<exists>pre x post tokens. ops = pre @ MExecute x # post
        \<and> prefilled_by E (mg_backend_registry (manager_run E pre (new_manager env backends tokenizers s)))
            (mg_tokenizer_registry (manager_run E pre (new_manager env backends tokenizers s)))
            (get_threadwake_allow_global env) x k hid tokens}"
  using run_from_new[of E ops env backends tokenizers s] unfolding prefilled_in_def new_manager_facts by blast

section \<open>Reuse continues the same prompt\<close>

definition call_request :: "manager_env \<Rightarrow> bool \<Rightarrow> exec_call \<Rightarrow> ThreadWakeRequestConfig \<Rightarrow> compile_request" where
  "call_request E allow_global x config =
     (let r = xc_request x in
      \<lparr>cr_messages = tr_messages r, cr_model_id = tr_model r, cr_backend = Some (xc_backend x), cr_tools = tr_tools r,
       cr_tool_choice = tr_tool_choice r, cr_tokenizer_hash = xc_tokenizer_hash x,
       cr_chat_template_hash = xc_chat_template_hash x, cr_scope = config_scope config,
       cr_codexify_segments = tr_threadwake_segments r, cr_allow_global = allow_global\<rparr>)"

lemma call_compile_request: "call_compile E G x config = compile_prompt_graph (me_prompt E) (call_request E G x config)"
  by (simp add: call_compile_def call_graph_def manager_compile_def call_request_def Let_def)

text \<open>The texts a call hashes, and the values behind its segments.\<close>

definition call_texts :: "manager_env \<Rightarrow> bool \<Rightarrow> exec_call \<Rightarrow> string set" where
  "call_texts E G x =
     (case resolve_config E (tr_threadwake (xc_request x)) of
        Inl _ \<Rightarrow> {}
      | Inr config \<Rightarrow> hashed_texts (me_prompt E) (call_request E G x config) (call_scope (call_compile E G x config) config)
                        (xc_model_revision x) (xc_quantization x))"

definition call_sources :: "manager_env \<Rightarrow> bool \<Rightarrow> exec_call \<Rightarrow> pyval set" where
  "call_sources E G x =
     (case resolve_config E (tr_threadwake (xc_request x)) of
        Inl _ \<Rightarrow> {}
      | Inr config \<Rightarrow> set (segment_sources (call_request E G x config)))"

lemma same_key_same_prefix:
  assumes key: "call_key E G x config = call_key E G x' config'"
    and configs: "resolve_config E (tr_threadwake (xc_request x)) = Inr config"
      "resolve_config E (tr_threadwake (xc_request x')) = Inr config'"
    and sha: "inj_on (pe_sha (me_prompt E)) (call_texts E G x \<union> call_texts E G x')"
    and fl: "float_texts F (pe_frepr (me_prompt E))" "call_sources E G x \<union> call_sources E G x' \<subseteq> {v. floats_in F v}"
  shows "xc_backend x = xc_backend x'
    \<and> filter seg_in_stable_prefix (pg_segments (call_compile E G x config))
      = filter seg_in_stable_prefix (pg_segments (call_compile E G x' config'))"
proof -
  have floats: "list_all (floats_in F) (segment_sources (call_request E G x config) @ segment_sources (call_request E G x' config'))"
    using fl(2) configs by (auto simp: list_all_iff call_sources_def)
  have key': "build_threadwake_cache_key (me_prompt E) (compile_prompt_graph (me_prompt E) (call_request E G x config))
      (call_scope (call_compile E G x config) config) (xc_model_revision x) (xc_quantization x) =
    build_threadwake_cache_key (me_prompt E) (compile_prompt_graph (me_prompt E) (call_request E G x' config'))
      (call_scope (call_compile E G x' config') config') (xc_model_revision x') (xc_quantization x')"
    using key by (simp add: call_key_def call_compile_request Let_def)
  have backends: "cr_backend (call_request E G x config) = Some (xc_backend x)" for x config
    by (simp add: call_request_def Let_def)
  from cache_keys_determine_prefix[OF key' _ fl(1) floats] sha configs
  show ?thesis by (simp add: call_texts_def call_compile_request backends)
qed

text \<open>Reuse answers for the prompt that was asked, when the backend's tokenizer is the deterministic one
  throughout, no digest collides among the texts hashed for the calls so far and the float texts of
  the messages are decimal: an entry that is ready under the key of a new call then holds a handle
  prefilled with exactly the tokens that precede this call's dynamic tail, so prefix and tail
  together are the token sequence of the new prompt. A tokenizer that reads the messages themselves,
  as the MLX one does, need not have this property: line endings do not enter the key.\<close>

theorem reuse_continues_the_prompt:
  assumes tokenizer: "\<And>pre post. ops = pre @ post \<Longrightarrow>
      tok_get (mg_tokenizer_registry (manager_run E pre (new_manager env backends tokenizers s))) (xc_backend x) = FakeTokenizerAdapter"
    and config: "resolve_config E (tr_threadwake (xc_request x)) = Inr config"
    and tokens: "ta_tokenize FakeTokenizerAdapter (call_compile E (get_threadwake_allow_global env) x config)
                   (tr_messages (xc_request x)) mid = Inr (Some tp)" "tp_real_tokenization tp"
    and ready: "(call_key E (get_threadwake_allow_global env) x config, y)
                  \<in> ready_entries_of (manager_run E ops (new_manager env backends tokenizers s))"
    and sha: "inj_on (pe_sha (me_prompt E)) (\<Union> (call_texts E (get_threadwake_allow_global env) ` insert x (executed_calls ops)))"
    and floats: "float_texts F (pe_frepr (me_prompt E))"
      "\<Union> (call_sources E (get_threadwake_allow_global env) ` insert x (executed_calls ops)) \<subseteq> {v. floats_in F v}"
  shows "\<exists>pre x' post hid prefix. ops = pre @ MExecute x' # post \<and> y = Some hid
    \<and> prefilled_by E (mg_backend_registry (manager_run E pre (new_manager env backends tokenizers s)))
        (mg_tokenizer_registry (manager_run E pre (new_manager env backends tokenizers s)))
        (get_threadwake_allow_global env) x' (call_key E (get_threadwake_allow_global env) x config) hid prefix
    \<and> prefix @ id_texts (tp_dynamic_tail_token_ids tp) = id_texts (tp_token_ids tp)"
proof -
  let ?G = "get_threadwake_allow_global env" and ?m = "\<lambda>pre. manager_run E pre (new_manager env backends tokenizers s)"
  have "(call_key E ?G x config, y) \<in> prefilled_in E ops (new_manager env backends tokenizers s)"
    using run_from_new[of E ops env backends tokenizers s] ready by blast
  then obtain pre x' post hid prefix where x': "ops = pre @ MExecute x' # post" "y = Some hid"
    and pre: "prefilled_by E (mg_backend_registry (?m pre)) (mg_tokenizer_registry (?m pre)) ?G x' (call_key E ?G x config) hid prefix"
    unfolding prefilled_in_def new_manager_facts by blast
  then obtain config' tp' where c': "resolve_config E (tr_threadwake (xc_request x')) = Inr config'"
    "call_key E ?G x config = call_key E ?G x' config'"
    and tp': "ta_tokenize (tok_get (mg_tokenizer_registry (?m pre)) (xc_backend x')) (call_compile E ?G x' config') (tr_messages (xc_request x'))
            (case_option [] id (pg_model_id (call_compile E ?G x' config'))) = Inr (Some tp')"
    and prefix: "prefix = id_texts (tp_stable_prefix_token_ids tp')"
    unfolding prefilled_by_def by blast
  have exec: "x' \<in> executed_calls ops" using x'(1) by (simp add: executed_calls_def)
  have same: "xc_backend x = xc_backend x'" "filter seg_in_stable_prefix (pg_segments (call_compile E ?G x config)) =
      filter seg_in_stable_prefix (pg_segments (call_compile E ?G x' config'))"
    using same_key_same_prefix[OF c'(2) config c'(1) inj_on_subset[OF sha] floats(1)] floats(2) exec by blast+
  have "tp_stable_prefix_token_ids tp' @ tp_dynamic_tail_token_ids tp = tp_token_ids tp"
    using fake_tok.prefix_of_other_continues[OF tokens[unfolded call_compile_request]] tp' same tokenizer[OF x'(1)]
    by (metis call_compile_request)
  then have "prefix @ id_texts (tp_dynamic_tail_token_ids tp) = id_texts (tp_token_ids tp)"
    unfolding prefix id_texts_def by (metis map_append)
  with x' pre show ?thesis by blast
qed

text \<open>The first eligible call of an empty manager makes its prefix available to the calls after it.\<close>

lemma put_into_empty:
  assumes "ix_entries ix = []" "ix_lru ix = []" "1 \<le> ix_max_entries ix" "ob_scope ob \<noteq> ''global''"
    and "0 < ix_max_memory_bytes ix \<Longrightarrow> estimate_memory ix (ob_token_count ob) \<le> ix_max_memory_bytes ix"
  shows "\<exists>e ix'. put_observation sha now ob ix = Inr (e, ix') \<and> ready_handle (mark_ready (ob_cache_key ob) ix') (ob_cache_key ob) = Some (ob_kv_handle_id ob)"
  using assms
  by (auto simp: put_observation_def Let_def evict_if_needed_def over_limits_def total_memory_def new_index_entry_def
      ready_handle_def mark_ready_def dict_simps)

lemma first_call_stores:
  fixes mg :: "'s ThreadWakeManager"
  defines "G \<equiv> ix_allow_global (mg_index mg)"
  assumes config: "resolve_config E (tr_threadwake (xc_request x)) = Inr config" "tc_mode config = Some TW_EPHEMERAL"
    and eligible: "to_eligible (evaluate_threadwake_policy (Some (call_compile E G x config)) config)"
    and scope: "call_scope (call_compile E G x config) config \<noteq> ''global''"
    and tok: "ta_tokenize (tok_get (mg_tokenizer_registry mg) (xc_backend x)) (call_compile E G x config) (tr_messages (xc_request x))
            (case_option [] id (pg_model_id (call_compile E G x config))) = Inr (Some tp)"
      "tp_real_tokenization tp" "tp_stable_prefix_token_ids tp \<noteq> []"
    and cap: "reuse_capable (kv_capability (mg_backend_registry mg) (xc_backend x))"
    and gen: "xc_generate x (xc_params x) = Inr out"
    and pre: "ka_prefill (kv_get (mg_backend_registry mg) (xc_backend x)) (cc_id (xc_ctx x) 6) (cc_now (xc_ctx x))
                (id_texts (tp_stable_prefix_token_ids tp)) (case_option [] id (pg_model_id (call_compile E G x config)))
                (mg_backend_state mg) = (Inr h, s')"
    and empty: "ix_entries (mg_index mg) = []" "ix_lru (mg_index mg) = []" "ix_thread_tips (mg_index mg) = []"
    and room: "1 \<le> ix_max_entries (mg_index mg)" "ix_bytes_per_token (mg_index mg) \<le> 0"
  shows "ready_handle (mg_index (manager_step E (MExecute x) mg)) (call_key E G x config) = Some (Some (kv_id h))"
proof -
  let ?g = "call_compile E G x config"
  obtain ob mg1 where att: "attach_backend_kv_status E (xc_ctx x) (Some (xc_backend x)) (Some tp) (evaluate_threadwake_policy (Some ?g) config) mg = (ob, mg1)"
    by fastforce
  note frame = attach_frame[OF att]
  have state: "mg_backend_state mg1 = mg_backend_state mg" using att by (auto simp: attach_backend_kv_status_def Let_def)
  have exec: "manager_step E (MExecute x) mg = snd (execute_reuse E (xc_ctx x) (xc_request x) ?g (call_key E G x config) (xc_backend x) ob
      (xc_generate x) (xc_params x) tp mg1)"
    using att config eligible tok(1,2) cap frame
    by (simp add: execute_ephemeral_def call_compile_def call_graph_def call_key_def call_scope_def G_def Let_def)
  let ?ctx = "extract_scope_context (xc_request x)" and ?sha = "pe_sha (me_prompt E)" and ?key = "call_key E G x config"
  let ?ix = "(mg_index mg)\<lparr>ix_miss_count := ix_miss_count (mg_index mg) + 1\<rparr>"
  have tip: "get_latest_for_thread ?sha t m b (mg_index mg) = None" for t m b
    using empty(3) by (simp add: get_latest_for_thread_def)
  have miss: "index_get ?sha (cc_now (xc_ctx x)) ?key ?ctx (mg_index mg) = (None, ?ix)"
    using empty(1) by (simp add: index_get_def Let_def)
  have "manager_step E (MExecute x) mg = snd (ephemeral_miss E (xc_ctx x) ?g ?key (xc_backend x) (to_cache_scope ob) ?ctx
      (kv_get (mg_backend_registry mg) (xc_backend x)) ob (xc_generate x) (xc_params x) tp (mg1\<lparr>mg_index := ?ix\<rparr>))"
    unfolding exec execute_reuse_def Let_def
    by (simp add: try_session_continuation_def frame tip miss Let_def)
  also have "\<dots> = store_miss E (xc_ctx x) ?g ?key (xc_backend x) (to_cache_scope ob) ?ctx (id_texts (tp_stable_prefix_token_ids tp)) h
      (record_metrics ob (mg1\<lparr>mg_index := ?ix\<rparr>)\<lparr>mg_backend_state := s'\<rparr>)"
    using tok(2,3) gen pre by (simp add: ephemeral_miss_def full_generation_result_def state id_texts_def Let_def)
  finally have step: "manager_step E (MExecute x) mg = \<dots>" .
  obtain e ix' where put: "put_observation ?sha (cc_now (xc_ctx x)) (miss_observation ?key ?g (xc_backend x) (to_cache_scope ob) ?ctx (kv_id h)) ?ix = Inr (e, ix')"
    and ready: "ready_handle (mark_ready ?key ix') ?key = Some (Some (kv_id h))"
    using put_into_empty[of ?ix "miss_observation ?key ?g (xc_backend x) (to_cache_scope ob) ?ctx (kv_id h)" ?sha "cc_now (xc_ctx x)"]
      empty room scope frame(4) by (auto simp: miss_observation_def call_scope_def estimate_memory_def)
  show ?thesis
    unfolding step store_miss_def Let_def
    using put ready by (simp add: ready_entries[of "snd (store_thread_tip _ _ _ _ _ _ _ _ (mark_ready ?key ix'))" "mark_ready ?key ix'"] store_thread_tip_def Let_def ready_handle_def)
qed

text \<open>An instance: two requests that share the system message, on the in-memory backend, with an injective
  hexadecimal coding in the place of the digest.\<close>

definition hex_of :: "string \<Rightarrow> string" where
  "hex_of s = CHR 0x30 # concat (map (\<lambda>c. [''0123456789abcdef'' ! (of_char c div 16), ''0123456789abcdef'' ! (of_char c mod 16)]) s)"
definition demo_manager_env :: manager_env where
  "demo_manager_env = \<lparr>me_prompt = demo_prompt_env\<lparr>pe_sha := hex_of\<rparr>, me_validate_config = (\<lambda>_. None), me_environ = (\<lambda>_. None)\<rparr>"
definition demo_config :: ThreadWakeRequestConfig where
  "demo_config = \<lparr>tc_enabled = Some True, tc_mode = Some TW_EPHEMERAL, tc_scope = Some ''thread'', tc_metadata = [],
                  tc_min_stable_prefix_tokens = Some 1\<rparr>"

definition demo_call :: "string \<Rightarrow> exec_call" where
  "demo_call t = \<lparr>xc_ctx = \<lparr>cc_now = 0, cc_id = (\<lambda>i. show_nat i)\<rparr>,
     xc_request = \<lparr>tr_model = Some ''m'', tr_messages = [text_message ''system'' ''Be brief.'', text_message ''user'' t], tr_tools = None, tr_tool_choice = None,
        tr_threadwake = CfgParsed demo_config,
        tr_threadwake_segments = RawNone, tr_thread_id = Some ''t'', tr_user_id = None, tr_project_id = None\<rparr>,
     xc_backend = ''fake'', xc_model_revision = None, xc_quantization = None, xc_tokenizer_hash = None, xc_chat_template_hash = None,
     xc_generate = (\<lambda>_. Inr [''ok'']), xc_params = []\<rparr>"

lemma char_halves: "cp c div 16 < 16" "cp c mod 16 < 16"
  by (simp_all add: less_mult_imp_div_less)

lemma hex_of_hex: "hex_text (hex_of s)"
proof -
  have "hex_digit_val (''0123456789abcdef'' ! n) \<noteq> None" if "n < 16" for n
    using that by (auto simp: less_Suc_eq numeral_eq_Suc hex_digit_val_def is_digit_def)
  then show ?thesis using char_halves by (auto simp: hex_text_def hex_of_def list_all_iff) (simp_all add: hex_digit_val_def is_digit_def)
qed

lemma hex_digit_inj: "\<lbrakk>(i::nat) < 16; j < 16; ''0123456789abcdef'' ! i = ''0123456789abcdef'' ! j\<rbrakk> \<Longrightarrow> i = j"
  by (simp add: nth_eq_iff_index_eq)

lemma hex_of_inj: "inj hex_of"
proof (rule injI)
  have *: "concat (map (\<lambda>c. [''0123456789abcdef'' ! (of_char c div 16), ''0123456789abcdef'' ! (of_char c mod 16)]) s) =
     concat (map (\<lambda>c. [''0123456789abcdef'' ! (of_char c div 16), ''0123456789abcdef'' ! (of_char c mod 16)]) t) \<Longrightarrow> s = t" for s t
  proof (induction s arbitrary: t)
    case Nil
    then show ?case by (cases t) auto
  next
    case (Cons c s)
    then obtain d t' where t: "t = d # t'" by (cases t) auto
    have "of_char c div 16 = (of_char d div 16 :: nat)" "of_char c mod 16 = (of_char d mod 16 :: nat)"
      using Cons.prems by (auto simp: t char_halves intro!: hex_digit_inj)
    then have "of_char c = (of_char d :: nat)" by (metis div_mult_mod_eq)
    then show ?case using Cons t by simp
  qed
  show "s = t" if "hex_of s = hex_of t" for s t using * that by (simp add: hex_of_def)
qed

lemma demo_resolve: "resolve_config demo_manager_env (tr_threadwake (xc_request (demo_call t))) = Inr demo_config"
  by (simp add: resolve_config_def checked_config_def demo_call_def demo_config_def merge_config_def Let_def)

lemma demo_stable:
  "stable_segments (me_prompt demo_manager_env) (call_request demo_manager_env G (demo_call t) demo_config) =
     [message_segment (me_prompt demo_manager_env) ''thread'' (Some 1) 0 (text_message ''system'' ''Be brief.'')]"
  by (simp add: stable_segments_def merged_segments_def inferred_segments_def tool_segments_def demo_call_def demo_config_def
      call_request_def config_scope_def
      parse_codexify_segments_def latest_user_index_def message_segment_def new_segment_def message_stability_def
      text_message_def Let_def)

lemma demo_scope: "call_scope g demo_config = ''thread''"
  by (simp add: call_scope_def evaluate_threadwake_policy_def demo_config_def new_observation_def Let_def)

lemma demo_fields:
  "xc_model_revision (demo_call t) = None" "xc_quantization (demo_call t) = None"
  "xc_backend (demo_call t) = ''fake''" "xc_generate (demo_call t) = (\<lambda>_. Inr [''ok''])"
  "cr_backend (call_request demo_manager_env G (demo_call t) demo_config) = Some ''fake''"
  "cr_model_id (call_request demo_manager_env G (demo_call t) demo_config) = Some ''m''"
  "cr_tokenizer_hash (call_request demo_manager_env G (demo_call t) demo_config) = None"
  "cr_chat_template_hash (call_request demo_manager_env G (demo_call t) demo_config) = None"
  by (simp_all add: demo_call_def call_request_def Let_def)

lemma demo_key: "call_key demo_manager_env G (demo_call t) demo_config = call_key demo_manager_env G (demo_call u) demo_config"
  unfolding call_key_def Let_def call_compile_request demo_scope demo_fields
  by (rule stable_prefix_determines_key) (simp_all add: demo_stable demo_fields)

lemma demo_tokens: "1 \<le> seg_token_count (message_segment (me_prompt demo_manager_env) ''thread'' (Some 1) 0 (text_message ''system'' ''Be brief.''))"
  by code_simp

lemma demo_eligible: "to_eligible (evaluate_threadwake_policy (Some (call_compile demo_manager_env G (demo_call t) demo_config)) demo_config)"
proof -
  let ?g = "call_compile demo_manager_env G (demo_call t) demo_config"
  have "\<not> seg_multimodal s" if "s \<in> set (pg_segments ?g)" "seg_in_stable_prefix s" for s
  proof -
    have "s \<in> set (filter seg_in_stable_prefix (pg_segments ?g))" using that by simp
    then show ?thesis unfolding call_compile_request graph_marked demo_stable
      by (auto simp: message_segment_def new_segment_def text_message_def contains_multimodal_content_def Let_def)
  qed
  then have "\<not> list_ex (\<lambda>s. seg_in_stable_prefix s \<and> seg_multimodal s) (pg_segments ?g)"
    by (auto simp: list_ex_iff)
  then show ?thesis using demo_tokens
    by (simp add: evaluate_threadwake_policy_def demo_config_def[THEN arg_cong, of tc_mode] call_compile_request graph_fields demo_fields demo_stable new_observation_def Let_def)
      (simp add: demo_config_def)
qed

lemma demo_hex: "s \<in> set (pg_segments (call_compile demo_manager_env G x config)) \<Longrightarrow> hex_text (seg_content_hash s)"
proof -
  assume "s \<in> set (pg_segments (call_compile demo_manager_env G x config))"
  then have "seg_content_hash s \<in> set (map seg_content_hash (pg_segments (call_compile demo_manager_env G x config)))" by simp
  also have "\<dots> = set (map seg_content_hash (merged_segments (me_prompt demo_manager_env) (call_request demo_manager_env G x config)))"
    unfolding call_compile_request graph_fields(5) stable_segments_def
    by (simp add: image_Un[symmetric] image_comp comp_def) (metis takeWhile_dropWhile_id set_append image_Un)
  finally show ?thesis unfolding sources_hashed by (auto simp: demo_manager_env_def hex_of_hex)
qed

lemma demo_tokenized:
  fixes G t
  defines "g \<equiv> call_compile demo_manager_env G (demo_call t) demo_config"
  obtains tp where "ta_tokenize FakeTokenizerAdapter g ms mid = Inr (Some tp)" "tp_real_tokenization tp" "tp_stable_prefix_token_ids tp \<noteq> []"
proof -
  obtain tp where tp: "ta_tokenize FakeTokenizerAdapter g ms mid = Inr (Some tp)"
    "tp_real_tokenization tp" "filter seg_in_stable_prefix (pg_segments g) \<noteq> [] \<Longrightarrow> tp_stable_prefix_token_ids tp \<noteq> []"
    by (rule fake_tokenizes[of g ms mid]) (use demo_hex g_def in blast)+
  moreover have "filter seg_in_stable_prefix (pg_segments g) \<noteq> []"
    unfolding g_def call_compile_request graph_marked demo_stable by simp
  ultimately show thesis using that by blast
qed

definition demo_manager0 :: "FakeKVBackend ThreadWakeManager" where
  "demo_manager0 = new_manager (\<lambda>_. None) (kv_register ''fake'' FakeKVBackend_adapter []) (tok_register ''fake'' FakeTokenizerAdapter []) fk_init"

lemma demo_ready:
  "ready_handle (mg_index (manager_step demo_manager_env (MExecute (demo_call t)) demo_manager0)) (call_key demo_manager_env False (demo_call u) demo_config) = Some (Some (show_nat 6))"
proof -
  have G: "ix_allow_global (mg_index demo_manager0) = False" unfolding demo_manager0_def new_manager_facts by code_simp
  have regs: "tok_get (mg_tokenizer_registry demo_manager0) ''fake'' = FakeTokenizerAdapter"
    "kv_get (mg_backend_registry demo_manager0) ''fake'' = FakeKVBackend_adapter"
    by (simp_all add: demo_manager0_def new_manager_facts tok_get_def tok_register_def kv_get_def kv_register_def)
  let ?g = "call_compile demo_manager_env False (demo_call t) demo_config"
  obtain tp where tp: "ta_tokenize FakeTokenizerAdapter ?g (tr_messages (xc_request (demo_call t))) (case_option [] id (pg_model_id ?g)) = Inr (Some tp)"
    "tp_real_tokenization tp" "tp_stable_prefix_token_ids tp \<noteq> []" by (rule demo_tokenized)
  have ix: "ix_entries (mg_index demo_manager0) = []" "ix_lru (mg_index demo_manager0) = []" "ix_thread_tips (mg_index demo_manager0) = []"
    "1 \<le> ix_max_entries (mg_index demo_manager0)" "ix_bytes_per_token (mg_index demo_manager0) \<le> 0"
    by (simp_all add: demo_manager0_def new_manager_def build_default_index_def new_index_def get_threadwake_max_entries_def
        get_threadwake_bytes_per_token_def env_int_unset)
  obtain h s' where pre: "ka_prefill FakeKVBackend_adapter (cc_id (xc_ctx (demo_call t)) 6) (cc_now (xc_ctx (demo_call t)))
      (id_texts (tp_stable_prefix_token_ids tp)) (case_option [] id (pg_model_id ?g)) (mg_backend_state demo_manager0) = (Inr h, s')"
    and h: "kv_id h = show_nat 6"
    by (simp add: FakeKVBackend_adapter_def fk_prefill_to_kv_def new_handle_def demo_call_def Let_def)
  have "tc_mode demo_config = Some TW_EPHEMERAL" by (simp add: demo_config_def)
  moreover have "reuse_capable (kv_capability (mg_backend_registry demo_manager0) ''fake'')"
    by (simp add: reuse_capable_def kv_capability_def regs FakeKVBackend_adapter_def)
  ultimately show ?thesis
    using first_call_stores[of demo_manager_env "demo_call t" demo_config demo_manager0 tp "[''ok'']" h s'] demo_eligible[of False t]
      demo_key[of False u t] tp pre h ix
    by (simp add: demo_resolve demo_scope demo_fields regs G)
qed

theorem reuse_continues_the_prompt_witness:
  "\<exists>tp prefix. ta_tokenize FakeTokenizerAdapter (call_compile demo_manager_env False (demo_call ''two'') demo_config)
        (tr_messages (xc_request (demo_call ''two''))) ''m'' = Inr (Some tp)
    \<and> prefilled_by demo_manager_env (kv_register ''fake'' FakeKVBackend_adapter []) (tok_register ''fake'' FakeTokenizerAdapter []) False
        (demo_call ''one'') (call_key demo_manager_env False (demo_call ''two'') demo_config) (show_nat 6) prefix
    \<and> prefix @ id_texts (tp_dynamic_tail_token_ids tp) = id_texts (tp_token_ids tp)"
proof -
  let ?E = demo_manager_env and ?x = "demo_call ''two''" and ?ops = "[MExecute (demo_call ''one'')]"
  let ?backends = "kv_register ''fake'' FakeKVBackend_adapter []" and ?toks = "tok_register ''fake'' FakeTokenizerAdapter []"
  have G: "get_threadwake_allow_global (\<lambda>_. None) = False" by code_simp
  obtain tp where tp: "ta_tokenize FakeTokenizerAdapter (call_compile ?E False ?x demo_config) (tr_messages (xc_request ?x)) ''m'' = Inr (Some tp)"
    "tp_real_tokenization tp" by (rule demo_tokenized)
  have ready: "(call_key ?E False ?x demo_config, Some (show_nat 6)) \<in> ready_entries_of (manager_run ?E ?ops (new_manager (\<lambda>_. None) ?backends ?toks fk_init))"
    using demo_ready[of "''one''" "''two''"] by (simp add: ready_entries_of_def manager_run_def demo_manager0_def)
  have reg: "mg_tokenizer_registry (manager_run ?E pre (new_manager (\<lambda>_. None) ?backends ?toks fk_init)) = ?toks"
    if "?ops = pre @ post" for pre post
    using that step_registries[of "MExecute (demo_call ''one'')" "new_manager (\<lambda>_. None) ?backends ?toks fk_init" ?E]
    by (auto simp: Cons_eq_append_conv manager_run_def new_manager_facts same_registries_def)
  have toks: "tok_get (mg_tokenizer_registry (manager_run ?E pre (new_manager (\<lambda>_. None) ?backends ?toks fk_init))) (xc_backend ?x)
      = FakeTokenizerAdapter" if "?ops = pre @ post" for pre post
    unfolding reg[OF that] by (simp add: tok_get_def tok_register_def demo_fields)
  have before: "manager_run ?E [] (new_manager (\<lambda>_. None) ?backends ?toks fk_init) = new_manager (\<lambda>_. None) ?backends ?toks fk_init"
    by (simp add: manager_run_def)
  have sha: "inj_on (pe_sha (me_prompt ?E)) A" for A using hex_of_inj by (simp add: demo_manager_env_def inj_on_def inj_def)
  have texts: "float_texts {} (pe_frepr (me_prompt ?E))" by (simp add: float_texts_def)
  have calls: "executed_calls ?ops = {demo_call ''one''}" by (simp add: executed_calls_def)
  have "call_sources ?E False (demo_call t) \<subseteq> {v. floats_in {} v}" for t
    unfolding call_sources_def demo_resolve
    by (simp add: segment_sources_def call_request_def demo_call_def message_payload_def text_message_def content_value_def opt_field_def Let_def)
  then have "\<Union> (call_sources ?E False ` insert ?x (executed_calls ?ops)) \<subseteq> {v. floats_in {} v}" by (simp add: calls)
  from reuse_continues_the_prompt[where env = "\<lambda>_. None", unfolded G, OF toks demo_resolve tp ready sha texts this]
  show ?thesis using tp(1) by (auto simp: Cons_eq_append_conv before new_manager_facts)
qed

section \<open>Fallbacks\<close>

text \<open>ThreadWake falls back to the caller's own generation: an execution that returns either served
  a cache hit or returns exactly what the full generation produced.\<close>

theorem fallback_is_full_generation:
  "case fst (execute_ephemeral E c r backend v q th ch gen params mg) of
     Inr res \<Rightarrow> er_cache_hit res \<or> gen params = Inr (er_output_tokens res)
   | Inl _ \<Rightarrow> True"
  using execute_ephemeral_output[of E c r backend v q th ch gen params mg]
  by (cases "execute_ephemeral E c r backend v q th ch gen params mg") (auto split: sum.split)

lemma mlx_clone_fails: "clone_fails (MLXKVBackendAdapter L)"
  by (simp add: clone_fails_def MLXKVBackendAdapter_def mlx_clone_kv_def)

text \<open>C21. With the MLX adapter registered for a backend the execution never reports a hit, whatever the
  index holds, and the answer is that of the full generation: cloning is not implemented there.\<close>

theorem mlx_reuse_never_hits:
  "case fst (execute_ephemeral E c r backend v q th ch gen params
               (mg\<lparr>mg_backend_registry := kv_register backend (MLXKVBackendAdapter L) (mg_backend_registry mg)\<rparr>)) of
     Inr res \<Rightarrow> \<not> er_cache_hit res \<and> gen params = Inr (er_output_tokens res)
   | Inl _ \<Rightarrow> True"
proof -
  let ?mg = "mg\<lparr>mg_backend_registry := kv_register backend (MLXKVBackendAdapter L) (mg_backend_registry mg)\<rparr>"
  have "kv_get (mg_backend_registry ?mg) backend = MLXKVBackendAdapter L"
    by (simp add: kv_get_def kv_register_def dict_simps)
  then show ?thesis
    using execute_ephemeral_output[of E c r backend v q th ch gen params ?mg] mlx_clone_fails[of L]
    by (cases "execute_ephemeral E c r backend v q th ch gen params ?mg") (auto split: sum.split)
qed

section \<open>What hits and counters miss\<close>

text \<open>A hit rebuilds the handle from the index entry, without the reference the backend needs: the
  in-memory backend, whose store keys are never empty, generates from a prefix of length 0.\<close>

lemma hit_generates_without_prefix:
  assumes "dget (fk_store b) [] = None"
  shows "fk_generate_from_kv_calls (snd (generate_from_clone FakeKVBackend_adapter c (hit_handle c key e) ts params b))
         = fk_generate_from_kv_calls b @ [(0, length ts, params)]"
    "fk_generate_from_kv_calls (snd (generate_from_clone FakeKVBackend_adapter c (tip_handle c bk m tip) ts params b))
         = fk_generate_from_kv_calls b @ [(0, length ts, params)]"
  using assms
  by (auto simp: generate_from_clone_def FakeKVBackend_adapter_def fk_clone_kv_def fk_generate_from_kv_def hit_handle_def
      tip_handle_def new_handle_def fk_store_key_def Let_def split: option.split pyval.split)

text \<open>A request that may not reuse is counted twice.\<close>

lemma ineligible_counted_twice:
  assumes "resolve_config E (tr_threadwake r) = Inr config" "tc_mode config = Some TW_OBSERVE"
    and "ta_tokenize (tok_get (mg_tokenizer_registry mg) backend)
           (call_graph E r backend th ch (ix_allow_global (mg_index mg)) config) (tr_messages r)
           (case_option [] id (pg_model_id (call_graph E r backend th ch (ix_allow_global (mg_index mg)) config))) = Inr tokenized"
    and "gen params = Inr output"
  shows "\<exists>ob. mg_metrics (snd (execute_ephemeral E c r backend v q th ch gen params mg))
               = metrics_record ob (metrics_record ob (mg_metrics mg))"
  using assms
  by (auto simp: execute_ephemeral_def call_graph_def full_generation_result_def attach_backend_kv_status_def Let_def)

text \<open>Readiness is asked with an empty scope context, so private entries are never reported ready.\<close>

lemma private_entry_never_reported_ready:
  assumes "dget (ix_entries (mg_index mg)) k = Some e" "ie_scope e \<in> private_scopes"
  shows "\<not> fst (has_ready_entry E c (Some k) mg)"
proof -
  let ?none = "\<lparr>sc_thread_id = None, sc_user_id = None, sc_project_id = None\<rparr>"
  have "\<not> scope_matches sha g e ?none" for sha g
    using assms(2) by (simp add: scope_matches_private scope_identity_def)
  then have "fst (index_get sha (cc_now c) k ?none (mg_index mg)) = None" for sha
    using assms(1) by (simp add: index_get_def Let_def)
  then show ?thesis by (simp add: has_ready_entry_def split: prod.split option.split) (metis fst_conv option.distinct(1))
qed

end
