(* ===== verification/ThreadWake_Snapshots.thy ===== *)
theory ThreadWake_Snapshots
  imports ThreadWake_KV ThreadWake_Index
begin

text \<open>
  The metadata pipeline behind ThreadWake's planned snapshots: exact prefix proofs
  (\<open>prefix_proof.py\<close>), candidate selection (\<open>candidate_selection.py\<close>), replay analysis
  (\<open>replay_analysis.py\<close>), the snapshot policy (\<open>policy.py\<close>), manifests (\<open>snapshot_manifest.py\<close>),
  artifacts (\<open>artifacts.py\<close>), creation (\<open>snapshot_creation.py\<close>), material contracts
  (\<open>snapshot_material.py\<close>), materializers (\<open>materialization.py\<close>) and the analysis pass that runs
  them over the index (\<open>analysis_loop.py\<close>).

  Scores and ratios are \<open>real\<close>. An ISO time stamp is a text; reading one back is an argument. The
  time stamps that no operation reads (when a result was evaluated, generated or checked) are left
  out. SHA-256 is an argument throughout.
\<close>

section \<open>Prefix proofs\<close>

datatype PrefixMismatchReason =
  PM_REAL_TOKENIZATION_UNAVAILABLE | PM_TOKENIZER_CHANGED | PM_CHAT_TEMPLATE_CHANGED | PM_MODEL_CHANGED
  | PM_BACKEND_CHANGED | PM_TOKEN_SEQUENCE_CHANGED | PM_EMPTY_PROMPT | PM_UNSUPPORTED_BACKEND

record PrefixProof =
  pp_compatible :: bool
  pp_shared_prefix_tokens :: nat
  pp_divergence_index :: "nat option"
  pp_prefix_hash :: "string option"
  pp_tokenizer_hash :: "string option"
  pp_chat_template_hash :: "string option"
  pp_model_id :: "string option"
  pp_backend :: "string option"
  pp_reason :: "PrefixMismatchReason option"

definition no_proof :: PrefixProof where
  "no_proof =
     \<lparr>pp_compatible = False, pp_shared_prefix_tokens = 0, pp_divergence_index = None, pp_prefix_hash = None,
      pp_tokenizer_hash = None, pp_chat_template_hash = None, pp_model_id = None, pp_backend = None,
      pp_reason = None\<rparr>"

record EngineStats =
  es_comparisons :: nat
  es_matches :: nat
  es_mismatches :: nat

definition new_engine_stats :: EngineStats where
  "new_engine_stats = \<lparr>es_comparisons = 0, es_matches = 0, es_mismatches = 0\<rparr>"

fun shared_prefix_length :: "int list \<Rightarrow> int list \<Rightarrow> nat" where
  "shared_prefix_length (x # xs) (y # ys) = (if x \<noteq> y then 0 else Suc (shared_prefix_length xs ys))"
| "shared_prefix_length _ _ = 0"

definition prefix_payload :: "int list \<Rightarrow> string" where
  "prefix_payload ids = py_join '','' (map py_str_int ids)"

definition hash_prefix :: "(string \<Rightarrow> string) \<Rightarrow> int list \<Rightarrow> string" where
  "hash_prefix sha ids = sha (prefix_payload ids)"

definition proof_compare ::
  "(string \<Rightarrow> string) \<Rightarrow> TokenizedPrompt \<Rightarrow> TokenizedPrompt \<Rightarrow> EngineStats \<Rightarrow> PrefixProof \<times> EngineStats" where
  "proof_compare sha a b st =
     (let st = st\<lparr>es_comparisons := es_comparisons st + 1\<rparr>;
          mismatch = (\<lambda>p r. (p\<lparr>pp_reason := Some r\<rparr>, st\<lparr>es_mismatches := es_mismatches st + 1\<rparr>)) in
      if \<not> tp_real_tokenization a \<or> \<not> tp_real_tokenization b then
        mismatch no_proof PM_REAL_TOKENIZATION_UNAVAILABLE
      else if tp_model_id a \<noteq> tp_model_id b then
        mismatch (no_proof\<lparr>pp_model_id := Some (tp_model_id a)\<rparr>) PM_MODEL_CHANGED
      else if tp_backend a \<noteq> tp_backend b then
        mismatch (no_proof\<lparr>pp_backend := Some (tp_backend a)\<rparr>) PM_BACKEND_CHANGED
      else if tp_tokenizer_hash a \<noteq> tp_tokenizer_hash b then
        mismatch (no_proof\<lparr>pp_tokenizer_hash := tp_tokenizer_hash a\<rparr>) PM_TOKENIZER_CHANGED
      else if tp_chat_template_hash a \<noteq> tp_chat_template_hash b then
        mismatch (no_proof\<lparr>pp_chat_template_hash := tp_chat_template_hash a\<rparr>) PM_CHAT_TEMPLATE_CHANGED
      else if tp_token_ids a = [] \<or> tp_token_ids b = [] then mismatch no_proof PM_EMPTY_PROMPT
      else
        let shared = shared_prefix_length (tp_token_ids a) (tp_token_ids b);
            described = no_proof\<lparr>pp_tokenizer_hash := tp_tokenizer_hash a, pp_chat_template_hash := tp_chat_template_hash a,
                                 pp_model_id := Some (tp_model_id a), pp_backend := Some (tp_backend a)\<rparr> in
        if shared = 0 then mismatch (described\<lparr>pp_divergence_index := Some 0\<rparr>) PM_TOKEN_SEQUENCE_CHANGED
        else
          (described\<lparr>pp_compatible := True, pp_shared_prefix_tokens := shared,
             pp_divergence_index := (if shared < max (length (tp_token_ids a)) (length (tp_token_ids b))
                                     then Some shared else None),
             pp_prefix_hash := Some (hash_prefix sha (take shared (tp_token_ids a)))\<rparr>,
           st\<lparr>es_matches := es_matches st + 1\<rparr>))"

section \<open>Candidate selection\<close>

datatype CandidateSelectionReason =
  CS_PROOF_COMPATIBLE | CS_SHARED_PREFIX_BELOW_THRESHOLD | CS_INCOMPATIBLE_PROOF | CS_MISSING_PROOF
  | CS_EMPTY_PROMPT | CS_INSUFFICIENT_SAVINGS | CS_REAL_TOKENIZATION_UNAVAILABLE

datatype CandidateConfidence = CONF_HIGH | CONF_MEDIUM | CONF_LOW

fun CandidateConfidence_value :: "CandidateConfidence \<Rightarrow> string" where
  "CandidateConfidence_value CONF_HIGH = ''high''"
| "CandidateConfidence_value CONF_MEDIUM = ''medium''"
| "CandidateConfidence_value CONF_LOW = ''low''"

record SnapshotCandidate =
  sd_candidate_id :: string
  sd_prefix_hash :: string
  sd_shared_prefix_tokens :: nat
  sd_total_tokens :: int
  sd_dynamic_tail_tokens :: int
  sd_potential_saved_tokens :: nat
  sd_potential_saved_ratio :: real
  sd_model_id :: "string option"
  sd_backend :: "string option"
  sd_tokenizer_hash :: "string option"
  sd_chat_template_hash :: "string option"

record CandidateScore =
  cs_score :: real
  cs_potential_saved_tokens :: nat
  cs_potential_saved_ratio :: real
  cs_confidence :: CandidateConfidence

record SnapshotSelectionResult =
  sr_selected :: bool
  sr_candidate :: "SnapshotCandidate option"
  sr_score :: "CandidateScore option"
  sr_reason :: CandidateSelectionReason

record SnapshotCandidateSelector =
  sl_min_prefix_tokens :: int
  sl_evaluations :: nat
  sl_selected :: nat
  sl_rejected :: nat
  sl_potential_saved_tokens_total :: nat

definition new_selector :: "int \<Rightarrow> SnapshotCandidateSelector" where
  "new_selector min_prefix_tokens =
     \<lparr>sl_min_prefix_tokens = max min_prefix_tokens 1, sl_evaluations = 0, sl_selected = 0, sl_rejected = 0,
      sl_potential_saved_tokens_total = 0\<rparr>"

definition selector_reset :: "SnapshotCandidateSelector \<Rightarrow> SnapshotCandidateSelector" where
  "selector_reset s = s\<lparr>sl_evaluations := 0, sl_selected := 0, sl_rejected := 0, sl_potential_saved_tokens_total := 0\<rparr>"

text \<open>\<open>round(x, n)\<close>: to the nearest multiple of \<open>10^-n\<close>, a tie to the even one.\<close>

definition py_round :: "nat \<Rightarrow> real \<Rightarrow> real" where
  "py_round n x =
     (let y = x * 10 ^ n; f = \<lfloor>y\<rfloor>; d = y - of_int f in
      of_int (if d < 1 / 2 then f else if 1 / 2 < d then f + 1 else if even f then f else f + 1) / 10 ^ n)"

definition score_candidate :: "SnapshotCandidate \<Rightarrow> CandidateScore" where
  "score_candidate c =
     (let ratio = sd_potential_saved_ratio c; shared = sd_shared_prefix_tokens c;
          raw_score = ratio * log 2 (1 + real shared); score = min (raw_score / 12) 1 in
      \<lparr>cs_score = py_round 4 score, cs_potential_saved_tokens = shared, cs_potential_saved_ratio = py_round 4 ratio,
       cs_confidence = (if shared \<ge> 4096 \<and> ratio \<ge> 3 / 4 then CONF_HIGH
                        else if shared \<ge> 1024 \<and> ratio \<ge> 1 / 2 then CONF_MEDIUM else CONF_LOW)\<rparr>)"

definition selector_evaluate ::
  "string \<Rightarrow> PrefixProof option \<Rightarrow> int \<Rightarrow> SnapshotCandidateSelector
   \<Rightarrow> SnapshotSelectionResult \<times> SnapshotCandidateSelector" where
  "selector_evaluate fresh_id found total_tokens s =
     (let s = s\<lparr>sl_evaluations := sl_evaluations s + 1\<rparr>;
          reject = (\<lambda>r. (\<lparr>sr_selected = False, sr_candidate = None, sr_score = None, sr_reason = r\<rparr>,
                         s\<lparr>sl_rejected := sl_rejected s + 1\<rparr>)) in
      case found of
        None \<Rightarrow> reject CS_MISSING_PROOF
      | Some p \<Rightarrow>
          if \<not> pp_compatible p then reject CS_INCOMPATIBLE_PROOF
          else if total_tokens \<le> 0 then reject CS_EMPTY_PROMPT
          else if int (pp_shared_prefix_tokens p) < sl_min_prefix_tokens s then reject CS_SHARED_PREFIX_BELOW_THRESHOLD
          else
            let shared = pp_shared_prefix_tokens p;
                candidate = \<lparr>sd_candidate_id = ''cand-'' @ fresh_id, sd_prefix_hash = case_option [] id (pp_prefix_hash p),
                             sd_shared_prefix_tokens = shared, sd_total_tokens = total_tokens,
                             sd_dynamic_tail_tokens = max (total_tokens - int shared) 0,
                             sd_potential_saved_tokens = shared,
                             sd_potential_saved_ratio = real shared / of_int total_tokens,
                             sd_model_id = pp_model_id p, sd_backend = pp_backend p,
                             sd_tokenizer_hash = pp_tokenizer_hash p, sd_chat_template_hash = pp_chat_template_hash p\<rparr>
            in (\<lparr>sr_selected = True, sr_candidate = Some candidate, sr_score = Some (score_candidate candidate),
                 sr_reason = CS_PROOF_COMPATIBLE\<rparr>,
                s\<lparr>sl_selected := sl_selected s + 1,
                  sl_potential_saved_tokens_total := sl_potential_saved_tokens_total s + shared\<rparr>))"

section \<open>Replay analysis\<close>

text \<open>A candidate row as the analyzer reads it, from the index or from the storage. A missing key and a
  null are read alike; \<open>first_seen_at\<close> and the hashes are missing in the rows of the index.\<close>

record candidate_row =
  rw_prefix_hash :: string
  rw_backend :: "string option"
  rw_model_id :: "string option"
  rw_tokenizer_hash :: "string option"
  rw_chat_template_hash :: "string option"
  rw_seen_count :: int
  rw_potential_saved_tokens :: "int option"
  rw_candidate_score :: "real option"
  rw_potential_saved_ratio :: "real option"
  rw_confidence :: "string option"
  rw_first_seen_at :: "string option"
  rw_last_seen_at :: "string option"

definition row_of_snapshot :: "(real \<Rightarrow> string) \<Rightarrow> entry_snapshot \<Rightarrow> candidate_row" where
  "row_of_snapshot isof e =
     \<lparr>rw_prefix_hash = sn_prompt_prefix_hash e, rw_backend = Some (sn_backend e), rw_model_id = Some (sn_model_id e),
      rw_tokenizer_hash = None, rw_chat_template_hash = None, rw_seen_count = sn_candidate_seen_count e,
      rw_potential_saved_tokens = sn_potential_saved_tokens e, rw_candidate_score = sn_candidate_score e,
      rw_potential_saved_ratio = sn_potential_saved_ratio e, rw_confidence = sn_candidate_confidence e,
      rw_first_seen_at = None, rw_last_seen_at = map_option isof (sn_candidate_last_seen_at e)\<rparr>"

record CandidateReplayRecord =
  rr_prefix_hash :: string
  rr_backend :: "string option"
  rr_model_id :: "string option"
  rr_tokenizer_hash :: "string option"
  rr_chat_template_hash :: "string option"
  rr_seen_count :: int
  rr_potential_saved_tokens_total :: int
  rr_average_candidate_score :: real
  rr_average_potential_saved_ratio :: real
  rr_confidence :: "string option"
  rr_first_seen_at :: "string option"
  rr_last_seen_at :: "string option"

record CandidateReplaySummary =
  sm_total_candidates :: nat
  sm_total_seen_count :: int
  sm_total_potential_saved_tokens :: int
  sm_high_confidence_candidates :: nat
  sm_medium_confidence_candidates :: nat
  sm_low_confidence_candidates :: nat
  sm_top_candidates :: "CandidateReplayRecord list"

definition replay_rank :: "candidate_row \<Rightarrow> real" where
  "replay_rank r =
     of_int (rw_seen_count r * 10000) + of_int (case_option 0 id (rw_potential_saved_tokens r)) * (1 / 100)
     + case_option 0 id (rw_candidate_score r) * 10"

definition replay_record :: "candidate_row \<Rightarrow> CandidateReplayRecord" where
  "replay_record r =
     \<lparr>rr_prefix_hash = rw_prefix_hash r, rr_backend = rw_backend r, rr_model_id = rw_model_id r,
      rr_tokenizer_hash = rw_tokenizer_hash r, rr_chat_template_hash = rw_chat_template_hash r,
      rr_seen_count = rw_seen_count r, rr_potential_saved_tokens_total = case_option 0 id (rw_potential_saved_tokens r),
      rr_average_candidate_score = case_option 0 id (rw_candidate_score r),
      rr_average_potential_saved_ratio = case_option 0 id (rw_potential_saved_ratio r),
      rr_confidence = rw_confidence r, rr_first_seen_at = rw_first_seen_at r, rr_last_seen_at = rw_last_seen_at r\<rparr>"

definition rank_candidates :: "candidate_row list \<Rightarrow> int \<Rightarrow> CandidateReplayRecord list" where
  "rank_candidates rows limit =
     map replay_record (take (nat (max 1 (min limit 100))) (sort_key (\<lambda>r. - replay_rank r) rows))"

definition build_summary :: "candidate_row list \<Rightarrow> int \<Rightarrow> CandidateReplaySummary" where
  "build_summary raw limit =
     (let high = filter (\<lambda>r. rw_confidence r = Some ''high'') raw;
          medium = filter (\<lambda>r. rw_confidence r = Some ''medium'') raw;
          low = filter (\<lambda>r. rw_confidence r \<noteq> Some ''high'' \<and> rw_confidence r \<noteq> Some ''medium'') raw in
      if raw = [] then
        \<lparr>sm_total_candidates = 0, sm_total_seen_count = 0, sm_total_potential_saved_tokens = 0,
         sm_high_confidence_candidates = 0, sm_medium_confidence_candidates = 0, sm_low_confidence_candidates = 0,
         sm_top_candidates = []\<rparr>
      else
        \<lparr>sm_total_candidates = length raw, sm_total_seen_count = sum_list (map rw_seen_count raw),
         sm_total_potential_saved_tokens = sum_list (map (\<lambda>r. case_option 0 id (rw_potential_saved_tokens r)) raw),
         sm_high_confidence_candidates = length high, sm_medium_confidence_candidates = length medium,
         sm_low_confidence_candidates = length low, sm_top_candidates = rank_candidates raw limit\<rparr>)"

definition analyze_index :: "(real \<Rightarrow> string) \<Rightarrow> ThreadWakeIndex \<Rightarrow> int \<Rightarrow> CandidateReplaySummary" where
  "analyze_index isof ix limit = build_summary (map (row_of_snapshot isof) (list_candidates 500 None None ix)) limit"

text \<open>A storage that raises is an empty one.\<close>

definition analyze_storage :: "candidate_row list option \<Rightarrow> int \<Rightarrow> CandidateReplaySummary" where
  "analyze_storage listed limit = build_summary (case listed of None \<Rightarrow> [] | Some rows \<Rightarrow> rows) limit"

text \<open>\<open>candidate_stats\<close> of the index.\<close>

record candidate_registry_stats =
  cg_total_candidates :: nat
  cg_high_confidence :: nat
  cg_medium_confidence :: nat
  cg_low_confidence :: nat
  cg_candidate_seen_total :: int
  cg_potential_saved_tokens_total :: int
  cg_average_candidate_score :: real

definition index_candidate_stats :: "ThreadWakeIndex \<Rightarrow> candidate_registry_stats" where
  "index_candidate_stats ix =
     (let cs = filter (\<lambda>e. ie_candidate_score e \<noteq> None) (live_entries ix);
          conf = (\<lambda>c. length (filter (\<lambda>e. ie_candidate_confidence e = Some c) cs)) in
      \<lparr>cg_total_candidates = length cs, cg_high_confidence = conf ''high'', cg_medium_confidence = conf ''medium'',
       cg_low_confidence = conf ''low'', cg_candidate_seen_total = sum_list (map ie_candidate_seen_count cs),
       cg_potential_saved_tokens_total = sum_list (map (\<lambda>e. case_option 0 id (ie_potential_saved_tokens e)) cs),
       cg_average_candidate_score =
         py_round 4 (if cs = [] then 0
                     else sum_list (map (\<lambda>e. case_option 0 id (ie_candidate_score e)) cs) / real (length cs))\<rparr>)"

section \<open>The snapshot policy\<close>

datatype SnapshotEligibilityReason =
  SE_HIGH_FREQUENCY_HIGH_SAVINGS | SE_HIGH_FREQUENCY | SE_HIGH_SAVINGS | SE_RECENTLY_REUSED
  | SE_INSUFFICIENT_OBSERVATIONS | SE_LOW_CONFIDENCE | SE_LOW_VALUE | SE_EXPIRED | SE_UNSUPPORTED_BACKEND
  | SE_POLICY_DISABLED

fun SnapshotEligibilityReason_value :: "SnapshotEligibilityReason \<Rightarrow> string" where
  "SnapshotEligibilityReason_value SE_HIGH_FREQUENCY_HIGH_SAVINGS = ''high_frequency_high_savings''"
| "SnapshotEligibilityReason_value SE_HIGH_FREQUENCY = ''high_frequency''"
| "SnapshotEligibilityReason_value SE_HIGH_SAVINGS = ''high_savings''"
| "SnapshotEligibilityReason_value SE_RECENTLY_REUSED = ''recently_reused''"
| "SnapshotEligibilityReason_value SE_INSUFFICIENT_OBSERVATIONS = ''insufficient_observations''"
| "SnapshotEligibilityReason_value SE_LOW_CONFIDENCE = ''low_confidence''"
| "SnapshotEligibilityReason_value SE_LOW_VALUE = ''low_value''"
| "SnapshotEligibilityReason_value SE_EXPIRED = ''expired''"
| "SnapshotEligibilityReason_value SE_UNSUPPORTED_BACKEND = ''unsupported_backend''"
| "SnapshotEligibilityReason_value SE_POLICY_DISABLED = ''policy_disabled''"

record SnapshotEligibility =
  sg_eligible :: bool
  sg_reason :: SnapshotEligibilityReason
  sg_candidate_score :: real
  sg_policy_version :: string

record SnapshotPolicyConfig =
  sp_enabled :: bool
  sp_minimum_seen_count :: int
  sp_minimum_candidate_score :: real
  sp_minimum_saved_ratio :: real
  sp_maximum_candidate_age_days :: int
  sp_supported_backends :: "string list"

definition default_policy :: SnapshotPolicyConfig where
  "default_policy =
     \<lparr>sp_enabled = True, sp_minimum_seen_count = 5, sp_minimum_candidate_score = 4 / 5, sp_minimum_saved_ratio = 1 / 2,
      sp_maximum_candidate_age_days = 30, sp_supported_backends = [''mlx'']\<rparr>"

record SnapshotPolicyEngine =
  sx_config :: SnapshotPolicyConfig
  sx_evaluations_total :: nat
  sx_eligible_total :: nat
  sx_rejected_total :: nat
  sx_rejection_reasons :: "(SnapshotEligibilityReason, nat) dict"

definition new_policy_engine :: "SnapshotPolicyConfig \<Rightarrow> SnapshotPolicyEngine" where
  "new_policy_engine cfg =
     \<lparr>sx_config = cfg, sx_evaluations_total = 0, sx_eligible_total = 0, sx_rejected_total = 0, sx_rejection_reasons = []\<rparr>"

definition POLICY_VERSION :: string where
  "POLICY_VERSION = ''1''"

text \<open>What \<open>datetime.fromisoformat\<close> makes of a text: nothing (\<open>ValueError\<close>), a time without a zone, or
  an instant. Subtracting a time without a zone from the aware clock raises \<open>TypeError\<close>; both
  exceptions are swallowed.\<close>

datatype parsed_time = TimeInvalid | TimeNaive real | TimeAware real

record snapshot_clock =
  sk_now :: real
  sk_parse :: "string \<Rightarrow> parsed_time"

definition age_days :: "snapshot_clock \<Rightarrow> string \<Rightarrow> int option" where
  "age_days K t = (case sk_parse K t of TimeAware u \<Rightarrow> Some \<lfloor>(sk_now K - u) / 86400\<rfloor> | _ \<Rightarrow> None)"

definition policy_reject ::
  "SnapshotEligibilityReason \<Rightarrow> real \<Rightarrow> SnapshotPolicyEngine \<Rightarrow> SnapshotEligibility \<times> SnapshotPolicyEngine" where
  "policy_reject reason score eng =
     (\<lparr>sg_eligible = False, sg_reason = reason, sg_candidate_score = score, sg_policy_version = POLICY_VERSION\<rparr>,
      eng\<lparr>sx_rejected_total := sx_rejected_total eng + 1,
          sx_rejection_reasons := dset reason (case_option 0 id (dget (sx_rejection_reasons eng) reason) + 1)
                                    (sx_rejection_reasons eng)\<rparr>)"

definition policy_expired :: "snapshot_clock \<Rightarrow> SnapshotPolicyConfig \<Rightarrow> string option \<Rightarrow> bool" where
  "policy_expired K cfg last_seen \<longleftrightarrow>
     str_true last_seen
   \<and> (case age_days K (the last_seen) of None \<Rightarrow> False | Some d \<Rightarrow> d > sp_maximum_candidate_age_days cfg)"

definition eligibility_reason :: "CandidateReplayRecord \<Rightarrow> SnapshotEligibilityReason" where
  "eligibility_reason r =
     (let seen = rr_seen_count r; saved = rr_potential_saved_tokens_total r in
      if seen \<ge> 10 \<and> saved \<ge> 2000 then SE_HIGH_FREQUENCY_HIGH_SAVINGS
      else if seen \<ge> 10 then SE_HIGH_FREQUENCY
      else if saved \<ge> 2000 then SE_HIGH_SAVINGS
      else SE_RECENTLY_REUSED)"

definition evaluate_candidate ::
  "snapshot_clock \<Rightarrow> CandidateReplayRecord \<Rightarrow> SnapshotPolicyEngine \<Rightarrow> SnapshotEligibility \<times> SnapshotPolicyEngine" where
  "evaluate_candidate K r eng =
     (let eng = eng\<lparr>sx_evaluations_total := sx_evaluations_total eng + 1\<rparr>; cfg = sx_config eng;
          score = rr_average_candidate_score r in
      if \<not> sp_enabled cfg then policy_reject SE_POLICY_DISABLED 0 eng
      else if str_true (rr_backend r) \<and> the (rr_backend r) \<notin> set (sp_supported_backends cfg) then
        policy_reject SE_UNSUPPORTED_BACKEND 0 eng
      else if rr_seen_count r < sp_minimum_seen_count cfg then policy_reject SE_INSUFFICIENT_OBSERVATIONS score eng
      else if score < sp_minimum_candidate_score cfg then policy_reject SE_LOW_VALUE score eng
      else if rr_average_potential_saved_ratio r < sp_minimum_saved_ratio cfg then policy_reject SE_LOW_VALUE score eng
      else if policy_expired K cfg (rr_last_seen_at r) then policy_reject SE_EXPIRED score eng
      else
        (\<lparr>sg_eligible = True, sg_reason = eligibility_reason r, sg_candidate_score = score,
          sg_policy_version = POLICY_VERSION\<rparr>,
         eng\<lparr>sx_eligible_total := sx_eligible_total eng + 1\<rparr>))"

fun evaluate_records ::
  "snapshot_clock \<Rightarrow> CandidateReplayRecord list \<Rightarrow> SnapshotPolicyEngine
   \<Rightarrow> SnapshotEligibility list \<times> SnapshotPolicyEngine" where
  "evaluate_records K [] eng = ([], eng)"
| "evaluate_records K (r # rs) eng =
     (case evaluate_candidate K r eng of (g, eng) \<Rightarrow>
      case evaluate_records K rs eng of (gs, eng) \<Rightarrow> (g # gs, eng))"

definition evaluate_replay_summary ::
  "snapshot_clock \<Rightarrow> CandidateReplaySummary \<Rightarrow> SnapshotPolicyEngine
   \<Rightarrow> SnapshotEligibility list \<times> SnapshotPolicyEngine" where
  "evaluate_replay_summary K sm eng = evaluate_records K (sm_top_candidates sm) eng"

section \<open>Manifests\<close>

record SnapshotManifest =
  mf_manifest_id :: string
  mf_prefix_hash :: string
  mf_backend :: "string option"
  mf_model_id :: "string option"
  mf_tokenizer_hash :: "string option"
  mf_chat_template_hash :: "string option"
  mf_candidate_score :: real
  mf_candidate_confidence :: "string option"
  mf_seen_count :: int
  mf_potential_saved_tokens_total :: int
  mf_average_potential_saved_ratio :: real
  mf_eligibility_reason :: string
  mf_policy_version :: string
  mf_created_at :: string
  mf_last_seen_at :: "string option"
  mf_status :: string

definition manifest_payload :: "string \<Rightarrow> string \<Rightarrow> string \<Rightarrow> string \<Rightarrow> string \<Rightarrow> string \<Rightarrow> string" where
  "manifest_payload prefix_hash backend model_id tok_hash tmpl_hash policy_version =
     prefix_hash @ ''|'' @ backend @ ''|'' @ model_id @ ''|'' @ tok_hash @ ''|'' @ tmpl_hash @ ''|'' @ policy_version"

definition manifest_id_for ::
  "(string \<Rightarrow> string) \<Rightarrow> string \<Rightarrow> string \<Rightarrow> string \<Rightarrow> string \<Rightarrow> string \<Rightarrow> string \<Rightarrow> string" where
  "manifest_id_for sha prefix_hash backend model_id tok_hash tmpl_hash policy_version =
     ''manifest-'' @ take 16 (sha (manifest_payload prefix_hash backend model_id tok_hash tmpl_hash policy_version))"

definition build_from_replay_record ::
  "(string \<Rightarrow> string) \<Rightarrow> string \<Rightarrow> CandidateReplayRecord \<Rightarrow> SnapshotEligibility \<Rightarrow> SnapshotManifest option" where
  "build_from_replay_record sha created_at r g =
     (if \<not> sg_eligible g then None
      else
        let policy_ver = (if sg_policy_version g = [] then ''1'' else sg_policy_version g) in
        Some \<lparr>mf_manifest_id = manifest_id_for sha (rr_prefix_hash r) (case_option [] id (rr_backend r))
                (case_option [] id (rr_model_id r)) (case_option [] id (rr_tokenizer_hash r))
                (case_option [] id (rr_chat_template_hash r)) policy_ver,
              mf_prefix_hash = rr_prefix_hash r, mf_backend = rr_backend r, mf_model_id = rr_model_id r,
              mf_tokenizer_hash = rr_tokenizer_hash r, mf_chat_template_hash = rr_chat_template_hash r,
              mf_candidate_score = rr_average_candidate_score r, mf_candidate_confidence = rr_confidence r,
              mf_seen_count = rr_seen_count r, mf_potential_saved_tokens_total = rr_potential_saved_tokens_total r,
              mf_average_potential_saved_ratio = rr_average_potential_saved_ratio r,
              mf_eligibility_reason = SnapshotEligibilityReason_value (sg_reason g), mf_policy_version = policy_ver,
              mf_created_at = created_at, mf_last_seen_at = rr_last_seen_at r, mf_status = ''planned''\<rparr>)"

section \<open>Artifacts\<close>

record SnapshotArtifact =
  sa_artifact_id :: string
  sa_manifest_id :: string
  sa_prefix_hash :: string
  sa_backend :: "string option"
  sa_model_id :: "string option"
  sa_tokenizer_hash :: "string option"
  sa_chat_template_hash :: "string option"
  sa_status :: string
  sa_policy_version :: string
  sa_artifact_version :: string
  sa_build_attempts :: nat
  sa_notes :: "string option"
  sa_created_at :: string
  sa_updated_at :: string
  sa_last_seen_at :: "string option"

definition artifact_id_for :: "(string \<Rightarrow> string) \<Rightarrow> string \<Rightarrow> string" where
  "artifact_id_for sha manifest_id = ''artifact-'' @ take 16 (sha (manifest_id @ ''|1''))"

definition build_from_manifest :: "(string \<Rightarrow> string) \<Rightarrow> string \<Rightarrow> SnapshotManifest \<Rightarrow> SnapshotArtifact" where
  "build_from_manifest sha now m =
     \<lparr>sa_artifact_id = artifact_id_for sha (mf_manifest_id m), sa_manifest_id = mf_manifest_id m,
      sa_prefix_hash = mf_prefix_hash m, sa_backend = mf_backend m, sa_model_id = mf_model_id m,
      sa_tokenizer_hash = mf_tokenizer_hash m, sa_chat_template_hash = mf_chat_template_hash m,
      sa_status = ''planned'',
      sa_policy_version = (if mf_policy_version m = [] then ''1'' else mf_policy_version m),
      sa_artifact_version = ''1'', sa_build_attempts = 0, sa_notes = None, sa_created_at = now, sa_updated_at = now,
      sa_last_seen_at = None\<rparr>"

type_synonym artifact_registry = "(string, SnapshotArtifact) dict"

definition register_artifact :: "string \<Rightarrow> SnapshotArtifact \<Rightarrow> artifact_registry \<Rightarrow> artifact_registry" where
  "register_artifact now a reg =
     (case dget reg (sa_artifact_id a) of
        Some existing \<Rightarrow>
          dset (sa_artifact_id a)
            (existing\<lparr>sa_status := sa_status a, sa_updated_at := now,
               sa_notes := (if str_true (sa_notes a) then sa_notes a else sa_notes existing),
               sa_build_attempts := sa_build_attempts existing + 1\<rparr>) reg
      | None \<Rightarrow> dset (sa_artifact_id a) a reg)"

definition get_artifact :: "artifact_registry \<Rightarrow> string \<Rightarrow> SnapshotArtifact option" where
  "get_artifact reg aid = dget reg aid"

text \<open>\<open>sort(key=..., reverse=True)\<close>: descending, equal keys in their old order.\<close>

definition sort_desc :: "('a \<Rightarrow> 'k::linorder) \<Rightarrow> 'a list \<Rightarrow> 'a list" where
  "sort_desc f xs = rev (sort_key f (rev xs))"

definition list_artifacts ::
  "int \<Rightarrow> string option \<Rightarrow> string option \<Rightarrow> artifact_registry \<Rightarrow> SnapshotArtifact list" where
  "list_artifacts limit status backend reg =
     (let items = dvals reg;
          items = (if str_true status then filter (\<lambda>a. Some (sa_status a) = status) items else items);
          items = (if str_true backend then filter (\<lambda>a. sa_backend a = backend) items else items)
      in take (nat (max 1 (min limit 500))) (sort_desc sa_created_at items))"

record RegistryStats =
  rt_total :: nat
  rt_planned :: nat
  rt_build_pending :: nat
  rt_build_failed :: nat
  rt_ready :: nat
  rt_superseded :: nat
  rt_expired :: nat

definition artifact_stats :: "artifact_registry \<Rightarrow> RegistryStats" where
  "artifact_stats reg =
     (let n = (\<lambda>s. dcount (\<lambda>a. sa_status a = s) reg) in
      \<lparr>rt_total = length reg, rt_planned = n ''planned'', rt_build_pending = n ''build_pending'',
       rt_build_failed = n ''build_failed'', rt_ready = n ''ready'', rt_superseded = n ''superseded'',
       rt_expired = n ''expired''\<rparr>)"

section \<open>Creation\<close>

datatype SnapshotCreationStatus = CR_DISABLED | CR_SKIPPED | CR_CREATED | CR_FAILED

datatype SnapshotCreationReason =
  CRR_EXPERIMENTAL_SNAPSHOTS_DISABLED | CRR_ARTIFACT_NOT_ELIGIBLE | CRR_UNSUPPORTED_BACKEND | CRR_MISSING_MANIFEST
  | CRR_MISSING_ARTIFACT | CRR_BACKEND_SNAPSHOT_UNAVAILABLE | CRR_SNAPSHOT_CREATED | CRR_SNAPSHOT_CREATION_FAILED

record SnapshotCreationResult =
  sc_created :: bool
  sc_status :: SnapshotCreationStatus
  sc_reason :: SnapshotCreationReason
  sc_artifact_id :: "string option"
  sc_manifest_id :: "string option"
  sc_backend :: "string option"
  sc_model_id :: "string option"
  sc_snapshot_ref_hash :: "string option"

record SnapshotCreator =
  cn_enabled :: bool
  cn_attempts :: nat
  cn_created :: nat
  cn_skipped :: nat
  cn_failed :: nat
  cn_last_reason :: "SnapshotCreationReason option"

definition new_creator :: "bool \<Rightarrow> SnapshotCreator" where
  "new_creator enabled =
     \<lparr>cn_enabled = enabled, cn_attempts = 0, cn_created = 0, cn_skipped = 0, cn_failed = 0, cn_last_reason = None\<rparr>"

definition creator_skip ::
  "SnapshotCreationReason \<Rightarrow> SnapshotArtifact option \<Rightarrow> SnapshotManifest option \<Rightarrow> SnapshotCreator
   \<Rightarrow> SnapshotCreationResult \<times> SnapshotCreator" where
  "creator_skip reason a m cn =
     (\<lparr>sc_created = False, sc_status = (if cn_enabled cn then CR_SKIPPED else CR_DISABLED), sc_reason = reason,
       sc_artifact_id = map_option sa_artifact_id a, sc_manifest_id = map_option mf_manifest_id m,
       sc_backend = (case a of None \<Rightarrow> None | Some x \<Rightarrow> sa_backend x),
       sc_model_id = (case a of None \<Rightarrow> None | Some x \<Rightarrow> sa_model_id x), sc_snapshot_ref_hash = None\<rparr>,
      cn\<lparr>cn_skipped := cn_skipped cn + 1, cn_last_reason := Some reason\<rparr>)"

definition create_from_artifact ::
  "SnapshotArtifact option \<Rightarrow> SnapshotManifest option \<Rightarrow> SnapshotCreator \<Rightarrow> SnapshotCreationResult \<times> SnapshotCreator" where
  "create_from_artifact a m cn =
     (let cn = cn\<lparr>cn_attempts := cn_attempts cn + 1\<rparr> in
      if \<not> cn_enabled cn then creator_skip CRR_EXPERIMENTAL_SNAPSHOTS_DISABLED a m cn
      else case a of
        None \<Rightarrow> creator_skip CRR_MISSING_ARTIFACT a m cn
      | Some x \<Rightarrow>
          if sa_backend x \<noteq> Some ''mlx'' then creator_skip CRR_UNSUPPORTED_BACKEND a m cn
          else creator_skip CRR_BACKEND_SNAPSHOT_UNAVAILABLE a m cn)"

definition can_create :: "SnapshotArtifact option \<Rightarrow> SnapshotCreator \<Rightarrow> bool" where
  "can_create a cn = (if \<not> cn_enabled cn then False else if a = None then False else False)"

definition fake_create_from_artifact ::
  "(string \<Rightarrow> string) \<Rightarrow> SnapshotArtifact option \<Rightarrow> SnapshotManifest option \<Rightarrow> SnapshotCreator
   \<Rightarrow> SnapshotCreationResult \<times> SnapshotCreator" where
  "fake_create_from_artifact sha a m cn =
     (let cn = cn\<lparr>cn_attempts := cn_attempts cn + 1\<rparr> in
      if \<not> cn_enabled cn then creator_skip CRR_EXPERIMENTAL_SNAPSHOTS_DISABLED a m cn
      else case a of
        None \<Rightarrow> creator_skip CRR_MISSING_ARTIFACT a m cn
      | Some x \<Rightarrow>
          (\<lparr>sc_created = True, sc_status = CR_CREATED, sc_reason = CRR_SNAPSHOT_CREATED,
            sc_artifact_id = Some (sa_artifact_id x), sc_manifest_id = Some (sa_manifest_id x), sc_backend = sa_backend x,
            sc_model_id = sa_model_id x,
            sc_snapshot_ref_hash = Some (take 16 (sha (''fake-snapshot:'' @ sa_artifact_id x)))\<rparr>,
           cn\<lparr>cn_created := cn_created cn + 1, cn_last_reason := Some CRR_SNAPSHOT_CREATED\<rparr>))"

definition fake_can_create :: "SnapshotArtifact option \<Rightarrow> SnapshotCreator \<Rightarrow> bool" where
  "fake_can_create a cn \<longleftrightarrow> cn_enabled cn \<and> a \<noteq> None"

section \<open>Material contracts\<close>

definition MATERIAL_KINDS :: "string list" where
  "MATERIAL_KINDS = [''metadata_only'', ''backend_native'', ''file_backed'', ''memory_backed'', ''unsupported'']"

definition MATERIAL_STATUSES :: "string list" where
  "MATERIAL_STATUSES = [''declared'', ''materialized'', ''validated'', ''invalid'', ''expired'', ''unsupported'']"

record SnapshotMaterialContract =
  ml_material_id :: string
  ml_artifact_id :: string
  ml_manifest_id :: string
  ml_prefix_hash :: string
  ml_backend :: "string option"
  ml_model_id :: "string option"
  ml_tokenizer_hash :: "string option"
  ml_chat_template_hash :: "string option"
  ml_material_kind :: string
  ml_material_status :: string
  ml_material_version :: string
  ml_policy_version :: string
  ml_checksum :: "string option"
  ml_byte_size :: "int option"
  ml_token_count :: "int option"
  ml_format_name :: "string option"
  ml_format_version :: "string option"
  ml_validation_errors :: "string list"
  ml_created_at :: string
  ml_updated_at :: string

record SnapshotMaterialValidationResult =
  mv_valid :: bool
  mv_reason :: string
  mv_material_id :: "string option"
  mv_material_kind :: "string option"
  mv_material_status :: "string option"
  mv_errors :: "string list"

record SnapshotMaterialValidator =
  vd_validations_total :: nat
  vd_valid_total :: nat
  vd_invalid_total :: nat
  vd_last_reason :: "string option"

definition new_validator :: SnapshotMaterialValidator where
  "new_validator = \<lparr>vd_validations_total = 0, vd_valid_total = 0, vd_invalid_total = 0, vd_last_reason = None\<rparr>"

text \<open>The required fields in their order, each with its text (empty when it is null).\<close>

definition required_fields :: "SnapshotMaterialContract \<Rightarrow> (string \<times> string) list" where
  "required_fields m =
     (let opt = case_option [] id in
      [(''material_id'', ml_material_id m), (''artifact_id'', ml_artifact_id m), (''manifest_id'', ml_manifest_id m),
       (''prefix_hash'', ml_prefix_hash m), (''backend'', opt (ml_backend m)), (''model_id'', opt (ml_model_id m)),
       (''tokenizer_hash'', opt (ml_tokenizer_hash m)), (''chat_template_hash'', opt (ml_chat_template_hash m)),
       (''material_version'', ml_material_version m), (''policy_version'', ml_policy_version m)])"

definition missing_fields :: "SnapshotMaterialContract \<Rightarrow> string list" where
  "missing_fields m = map (\<lambda>(name, _). ''missing_'' @ name) (filter (\<lambda>(_, v). v = []) (required_fields m))"

definition validation_fail ::
  "string \<Rightarrow> string list \<Rightarrow> SnapshotMaterialValidator \<Rightarrow> SnapshotMaterialValidationResult \<times> SnapshotMaterialValidator" where
  "validation_fail reason errors vd =
     (\<lparr>mv_valid = False, mv_reason = reason, mv_material_id = None, mv_material_kind = None, mv_material_status = None,
       mv_errors = errors\<rparr>,
      vd\<lparr>vd_invalid_total := vd_invalid_total vd + 1, vd_last_reason := Some reason\<rparr>)"

definition validate_material ::
  "SnapshotMaterialContract option \<Rightarrow> SnapshotMaterialValidator
   \<Rightarrow> SnapshotMaterialValidationResult \<times> SnapshotMaterialValidator" where
  "validate_material material vd =
     (let vd = vd\<lparr>vd_validations_total := vd_validations_total vd + 1\<rparr> in
      case material of
        None \<Rightarrow> validation_fail ''missing_material_id'' [] vd
      | Some m \<Rightarrow>
          (case missing_fields m of
             e # es \<Rightarrow> validation_fail e (e # es) vd
           | [] \<Rightarrow>
               if ml_material_kind m \<notin> set MATERIAL_KINDS then validation_fail ''invalid_material_kind'' [] vd
               else if ml_material_status m \<notin> set MATERIAL_STATUSES then validation_fail ''invalid_material_status'' [] vd
               else if ml_material_status m = ''materialized'' \<and> \<not> str_true (ml_checksum m) then
                 validation_fail ''materialized_without_checksum'' [] vd
               else if ml_material_status m = ''materialized'' \<and> (case ml_byte_size m of None \<Rightarrow> True | Some n \<Rightarrow> n \<le> 0) then
                 validation_fail ''materialized_without_byte_size'' [] vd
               else if ml_material_status m = ''validated'' then
                 validation_fail ''validated_without_materialization'' [] vd
               else if ml_backend m \<noteq> Some ''mlx'' \<and> ml_backend m \<noteq> Some ''fake'' then
                 validation_fail ''unsupported_backend'' [] vd
               else
                 (\<lparr>mv_valid = True, mv_reason = ''valid_metadata_only'', mv_material_id = Some (ml_material_id m),
                   mv_material_kind = Some (ml_material_kind m), mv_material_status = Some (ml_material_status m),
                   mv_errors = []\<rparr>,
                  vd\<lparr>vd_valid_total := vd_valid_total vd + 1, vd_last_reason := Some ''valid_metadata_only''\<rparr>)))"

fun validate_many ::
  "SnapshotMaterialContract option list \<Rightarrow> SnapshotMaterialValidator
   \<Rightarrow> SnapshotMaterialValidationResult list \<times> SnapshotMaterialValidator" where
  "validate_many [] vd = ([], vd)"
| "validate_many (m # ms) vd =
     (case validate_material m vd of (r, vd) \<Rightarrow> case validate_many ms vd of (rs, vd) \<Rightarrow> (r # rs, vd))"

definition material_id_for :: "(string \<Rightarrow> string) \<Rightarrow> string \<Rightarrow> string" where
  "material_id_for sha artifact_id = ''material-'' @ take 16 (sha (artifact_id @ ''|1''))"

definition declare_from_artifact ::
  "(string \<Rightarrow> string) \<Rightarrow> string \<Rightarrow> SnapshotArtifact \<Rightarrow> SnapshotManifest option \<Rightarrow> SnapshotMaterialContract" where
  "declare_from_artifact sha now a manifest =
     \<lparr>ml_material_id = material_id_for sha (sa_artifact_id a), ml_artifact_id = sa_artifact_id a,
      ml_manifest_id = (case manifest of Some m \<Rightarrow> mf_manifest_id m | None \<Rightarrow> sa_manifest_id a),
      ml_prefix_hash = (if sa_prefix_hash a \<noteq> [] then sa_prefix_hash a
                        else case manifest of Some m \<Rightarrow> mf_prefix_hash m | None \<Rightarrow> []),
      ml_backend = sa_backend a, ml_model_id = sa_model_id a, ml_tokenizer_hash = sa_tokenizer_hash a,
      ml_chat_template_hash = sa_chat_template_hash a, ml_material_kind = ''metadata_only'',
      ml_material_status = ''declared'', ml_material_version = ''1'',
      ml_policy_version = (if sa_policy_version a = [] then ''1'' else sa_policy_version a), ml_checksum = None,
      ml_byte_size = None, ml_token_count = map_option mf_potential_saved_tokens_total manifest, ml_format_name = None,
      ml_format_version = None, ml_validation_errors = [], ml_created_at = now, ml_updated_at = now\<rparr>"

section \<open>Materializers\<close>

datatype MaterializationCapability = MC_UNSUPPORTED | MC_DECLARED | MC_EXPERIMENTAL | MC_SUPPORTED

datatype MaterializationReason =
  MR_BACKEND_NOT_REGISTERED | MR_BACKEND_DOES_NOT_SUPPORT_MATERIALIZATION | MR_BACKEND_INTERFACE_DECLARED
  | MR_BACKEND_EXPERIMENTAL | MR_BACKEND_SUPPORTED | MR_MATERIALIZATION_DISABLED | MR_UNKNOWN_BACKEND

record MaterializationCapabilityResult =
  mc_backend :: string
  mc_capability :: MaterializationCapability
  mc_reason :: MaterializationReason
  mc_supports_materialization :: bool
  mc_supports_restore :: bool
  mc_supports_reuse :: bool

text \<open>A materializer: its name, its capability, whether it can materialize, and \<open>materialize\<close>, where
  \<open>None\<close> is the exception \<open>NotImplementedError\<close>.\<close>

record SnapshotMaterializer =
  mz_backend_name :: string
  mz_capability :: MaterializationCapabilityResult
  mz_can_materialize :: bool
  mz_materialize :: "SnapshotArtifact \<Rightarrow> SnapshotManifest \<Rightarrow> SnapshotMaterialContract option"

definition capability_result ::
  "string \<Rightarrow> MaterializationCapability \<Rightarrow> MaterializationReason \<Rightarrow> MaterializationCapabilityResult" where
  "capability_result backend cap reason =
     \<lparr>mc_backend = backend, mc_capability = cap, mc_reason = reason, mc_supports_materialization = False,
      mc_supports_restore = False, mc_supports_reuse = False\<rparr>"

definition NoOpSnapshotMaterializer :: SnapshotMaterializer where
  "NoOpSnapshotMaterializer =
     \<lparr>mz_backend_name = ''noop'',
      mz_capability = capability_result ''noop'' MC_UNSUPPORTED MR_BACKEND_DOES_NOT_SUPPORT_MATERIALIZATION,
      mz_can_materialize = False, mz_materialize = (\<lambda>_ _. None)\<rparr>"

definition MLXSnapshotMaterializer :: SnapshotMaterializer where
  "MLXSnapshotMaterializer =
     \<lparr>mz_backend_name = ''mlx'', mz_capability = capability_result ''mlx'' MC_DECLARED MR_BACKEND_INTERFACE_DECLARED,
      mz_can_materialize = False, mz_materialize = (\<lambda>_ _. None)\<rparr>"

type_synonym materializer_registry = "(string, SnapshotMaterializer) dict"

definition mz_register :: "SnapshotMaterializer \<Rightarrow> materializer_registry \<Rightarrow> materializer_registry" where
  "mz_register m reg = dset (mz_backend_name m) m reg"

definition mz_unregister :: "string \<Rightarrow> materializer_registry \<Rightarrow> materializer_registry" where
  "mz_unregister backend reg = dpop backend reg"

definition mz_get :: "materializer_registry \<Rightarrow> string \<Rightarrow> SnapshotMaterializer" where
  "mz_get reg backend = (case dget reg backend of None \<Rightarrow> NoOpSnapshotMaterializer | Some m \<Rightarrow> m)"

definition list_materializers :: "materializer_registry \<Rightarrow> string list" where
  "list_materializers reg = sort (dkeys reg)"

definition capability_summary :: "materializer_registry \<Rightarrow> MaterializationCapabilityResult list" where
  "capability_summary reg = map mz_capability (dvals reg)"

definition mz_stats :: "materializer_registry \<Rightarrow> nat \<times> nat" where
  "mz_stats reg = (length reg, dcount (\<lambda>m. mc_capability (mz_capability m) = MC_DECLARED) reg)"

section \<open>The analysis pass\<close>

text \<open>The optional storage is seen through its two upserts, whose exceptions the pass swallows.\<close>

record 'st snapshot_store =
  ss_upsert_manifest :: "SnapshotManifest \<Rightarrow> 'st \<Rightarrow> 'st"
  ss_upsert_artifact :: "SnapshotArtifact \<Rightarrow> 'st \<Rightarrow> 'st"

record AnalysisLoopResult =
  lr_candidates_scanned :: nat
  lr_candidates_eligible :: nat
  lr_manifests_created :: nat
  lr_artifacts_registered :: nat
  lr_skipped :: nat
  lr_errors :: nat
  lr_details :: "string list"

definition empty_loop_result :: AnalysisLoopResult where
  "empty_loop_result =
     \<lparr>lr_candidates_scanned = 0, lr_candidates_eligible = 0, lr_manifests_created = 0, lr_artifacts_registered = 0,
      lr_skipped = 0, lr_errors = 0, lr_details = []\<rparr>"

record 'st ThreadWakeAnalysisLoop =
  al_index :: "ThreadWakeIndex option"
  al_storage :: "('st snapshot_store \<times> 'st) option"
  al_artifact_registry :: "artifact_registry option"
  al_run_count :: nat
  al_last_result :: "AnalysisLoopResult option"

record loop_env =
  le_sha :: "string \<Rightarrow> string"
  le_clock :: snapshot_clock
  le_now_text :: string
  le_iso :: "real \<Rightarrow> string"

definition new_loop ::
  "ThreadWakeIndex option \<Rightarrow> ('st snapshot_store \<times> 'st) option \<Rightarrow> artifact_registry option \<Rightarrow> 'st ThreadWakeAnalysisLoop" where
  "new_loop ix storage reg =
     \<lparr>al_index = ix, al_storage = storage, al_artifact_registry = reg, al_run_count = 0, al_last_result = None\<rparr>"

definition store_manifest :: "SnapshotManifest \<Rightarrow> ('st snapshot_store \<times> 'st) option \<Rightarrow> ('st snapshot_store \<times> 'st) option" where
  "store_manifest m st = (case st of None \<Rightarrow> None | Some (ops, s) \<Rightarrow> Some (ops, ss_upsert_manifest ops m s))"

definition store_artifact :: "SnapshotArtifact \<Rightarrow> ('st snapshot_store \<times> 'st) option \<Rightarrow> ('st snapshot_store \<times> 'st) option" where
  "store_artifact a st = (case st of None \<Rightarrow> None | Some (ops, s) \<Rightarrow> Some (ops, ss_upsert_artifact ops a s))"

text \<open>One record of the pass, over the engine, the storage, the registry and the result so far.\<close>

fun loop_record ::
  "loop_env \<Rightarrow> CandidateReplayRecord
   \<Rightarrow> SnapshotPolicyEngine \<times> ('st snapshot_store \<times> 'st) option \<times> artifact_registry option \<times> AnalysisLoopResult
   \<Rightarrow> SnapshotPolicyEngine \<times> ('st snapshot_store \<times> 'st) option \<times> artifact_registry option \<times> AnalysisLoopResult" where
  "loop_record L r (eng, st, reg, res) =
     (case evaluate_candidate (le_clock L) r eng of (g, eng) \<Rightarrow>
      if \<not> sg_eligible g then (eng, st, reg, res\<lparr>lr_skipped := lr_skipped res + 1\<rparr>)
      else
        let res = res\<lparr>lr_candidates_eligible := lr_candidates_eligible res + 1\<rparr> in
        case build_from_replay_record (le_sha L) (le_now_text L) r g of
          None \<Rightarrow> (eng, st, reg, res\<lparr>lr_errors := lr_errors res + 1,
                                   lr_details := lr_details res @ [''manifest_build_failed'']\<rparr>)
        | Some m \<Rightarrow>
            let res = res\<lparr>lr_manifests_created := lr_manifests_created res + 1\<rparr>; st = store_manifest m st in
            case reg of
              None \<Rightarrow> (eng, st, reg, res)
            | Some artifacts \<Rightarrow>
                let a = build_from_manifest (le_sha L) (le_now_text L) m in
                (eng, store_artifact a st, Some (register_artifact (le_now_text L) a artifacts),
                 res\<lparr>lr_artifacts_registered := lr_artifacts_registered res + 1\<rparr>))"

definition run_analysis ::
  "loop_env \<Rightarrow> int \<Rightarrow> 'st ThreadWakeAnalysisLoop \<Rightarrow> AnalysisLoopResult \<times> 'st ThreadWakeAnalysisLoop" where
  "run_analysis L limit al =
     (let finish = (\<lambda>res al. (res, al\<lparr>al_run_count := al_run_count al + 1, al_last_result := Some res\<rparr>)) in
      case al_index al of
        None \<Rightarrow> finish (empty_loop_result\<lparr>lr_details := [''no_index_available'']\<rparr>) al
      | Some ix \<Rightarrow>
          let summary = analyze_index (le_iso L) ix limit;
              res = empty_loop_result\<lparr>lr_candidates_scanned := sm_total_candidates summary\<rparr> in
          case fold (loop_record L) (sm_top_candidates summary)
                 (new_policy_engine default_policy, al_storage al, al_artifact_registry al, res) of
            (_, st, reg, res) \<Rightarrow> finish res (al\<lparr>al_storage := st, al_artifact_registry := reg\<rparr>))"

section \<open>Prefix proofs are exact\<close>

lemma shared_prefix_lcp: "shared_prefix_length xs ys = length (longest_common_prefix xs ys)"
  by (induction xs ys rule: shared_prefix_length.induct) auto

lemma take_shared: "take (length (longest_common_prefix xs ys)) xs = longest_common_prefix xs ys"
  by (induction xs ys rule: longest_common_prefix.induct) auto

lemma lcp_length: "length (longest_common_prefix xs ys) \<le> length xs" "length (longest_common_prefix xs ys) \<le> length ys"
  by (simp_all add: longest_common_prefix_prefix1 longest_common_prefix_prefix2 prefix_length_le)

definition same_origin :: "TokenizedPrompt \<Rightarrow> TokenizedPrompt \<Rightarrow> bool" where
  "same_origin a b \<longleftrightarrow>
     tp_real_tokenization a \<and> tp_real_tokenization b \<and> tp_model_id a = tp_model_id b \<and> tp_backend a = tp_backend b
   \<and> tp_tokenizer_hash a = tp_tokenizer_hash b \<and> tp_chat_template_hash a = tp_chat_template_hash b"

lemma proof_compare_verdict:
  defines "common \<equiv> \<lambda>a b. longest_common_prefix (tp_token_ids a) (tp_token_ids b)"
  shows "pp_compatible (fst (proof_compare sha a b st)) \<longleftrightarrow> same_origin a b \<and> common a b \<noteq> []"
    "pp_shared_prefix_tokens (fst (proof_compare sha a b st)) = (if same_origin a b then length (common a b) else 0)"
    "pp_prefix_hash (fst (proof_compare sha a b st)) =
       (if same_origin a b \<and> common a b \<noteq> [] then Some (hash_prefix sha (common a b)) else None)"
proof -
  have empty: "tp_token_ids a = [] \<or> tp_token_ids b = [] \<Longrightarrow> common a b = []"
    by (auto simp: common_def)
  show "pp_compatible (fst (proof_compare sha a b st)) \<longleftrightarrow> same_origin a b \<and> common a b \<noteq> []"
    "pp_shared_prefix_tokens (fst (proof_compare sha a b st)) = (if same_origin a b then length (common a b) else 0)"
    "pp_prefix_hash (fst (proof_compare sha a b st)) =
       (if same_origin a b \<and> common a b \<noteq> [] then Some (hash_prefix sha (common a b)) else None)"
    using empty
    by (auto simp: proof_compare_def Let_def same_origin_def no_proof_def take_shared shared_prefix_lcp common_def)
qed

text \<open>C26. A prefix proof is exact: two tokenizations are compatible precisely when both are real, come
  from the same model, backend, tokenizer and template and start with the same token; the shared
  length and the prefix hash are those of their longest common prefix; the divergence index of two
  different non-empty sequences of one origin is the length of that prefix, the first position at
  which one continues and the other differs or ends (0 when they share no token), and absent in
  every other case; and every comparison is counted once as a match or as a mismatch.\<close>

theorem prefix_proof_exact:
  "let (p, st') = proof_compare sha a b st; common = longest_common_prefix (tp_token_ids a) (tp_token_ids b) in
     (pp_compatible p \<longleftrightarrow> same_origin a b \<and> common \<noteq> [])
   \<and> pp_shared_prefix_tokens p = (if pp_compatible p then length common else 0)
   \<and> pp_prefix_hash p = (if pp_compatible p then Some (hash_prefix sha common) else None)
   \<and> pp_divergence_index p =
       (if same_origin a b \<and> tp_token_ids a \<noteq> [] \<and> tp_token_ids b \<noteq> [] \<and> tp_token_ids a \<noteq> tp_token_ids b
        then Some (length common) else None)
   \<and> es_comparisons st' = es_comparisons st + 1
   \<and> es_matches st' = es_matches st + (if pp_compatible p then 1 else 0)
   \<and> es_mismatches st' = es_mismatches st + (if pp_compatible p then 0 else 1)"
proof -
  let ?c = "longest_common_prefix (tp_token_ids a) (tp_token_ids b)"
  have full: "\<not> length ?c < max (length (tp_token_ids a)) (length (tp_token_ids b)) \<longleftrightarrow> tp_token_ids a = tp_token_ids b"
  proof
    assume "\<not> length ?c < max (length (tp_token_ids a)) (length (tp_token_ids b))"
    then have "length ?c = length (tp_token_ids a)" "length ?c = length (tp_token_ids b)"
      using lcp_length[of "tp_token_ids a" "tp_token_ids b"] by linarith+
    then have "?c = tp_token_ids a" "?c = tp_token_ids b"
      using longest_common_prefix_prefix1[of "tp_token_ids a" "tp_token_ids b"]
        longest_common_prefix_prefix2[of "tp_token_ids a" "tp_token_ids b"]
      by (metis append_eq_conv_conj prefix_def take_all_iff order_refl)+
    then show "tp_token_ids a = tp_token_ids b" by simp
  next
    have "longest_common_prefix xs xs = xs" for xs :: "int list" by (induction xs) simp_all
    then show "tp_token_ids a = tp_token_ids b \<Longrightarrow> \<not> length ?c < max (length (tp_token_ids a)) (length (tp_token_ids b))"
      by simp
  qed
  have div: "pp_divergence_index (fst (proof_compare sha a b st)) =
      (if \<not> same_origin a b \<or> tp_token_ids a = [] \<or> tp_token_ids b = [] then None
       else if ?c = [] then Some 0
       else if length ?c < max (length (tp_token_ids a)) (length (tp_token_ids b)) then Some (length ?c) else None)"
    by (auto simp: proof_compare_def Let_def same_origin_def no_proof_def shared_prefix_lcp)
  have empty: "tp_token_ids a = [] \<or> tp_token_ids b = [] \<Longrightarrow> ?c = []" by auto
  have stats: "es_comparisons (snd (proof_compare sha a b st)) = es_comparisons st + 1
      \<and> es_matches (snd (proof_compare sha a b st)) = es_matches st + (if pp_compatible (fst (proof_compare sha a b st)) then 1 else 0)
      \<and> es_mismatches (snd (proof_compare sha a b st)) = es_mismatches st + (if pp_compatible (fst (proof_compare sha a b st)) then 0 else 1)"
    by (auto simp: proof_compare_def Let_def no_proof_def)
  show ?thesis
    unfolding case_prod_beta' Let_def div proof_compare_verdict
    using stats full empty by (auto simp: proof_compare_verdict)
qed

text \<open>The comma-separated payload tells token sequences apart.\<close>

lemma join_head:
  assumes "c \<notin> set x" "c \<notin> set y" "x @ c # xs = y @ c # ys"
  shows "x = y \<and> xs = ys"
  using assms by (induction x arbitrary: y) (case_tac y, auto)+

lemma join_inj:
  assumes "list_all (\<lambda>s. c \<notin> set s \<and> s \<noteq> []) xs" "list_all (\<lambda>s. c \<notin> set s \<and> s \<noteq> []) ys"
    and "py_join [c] xs = py_join [c] ys"
  shows "xs = ys"
  using assms
proof (induction xs arbitrary: ys)
  case Nil
  then show ?case by (cases ys; cases "tl ys") auto
next
  case (Cons x xs)
  obtain y ys' where ys: "ys = y # ys'" using Cons.prems by (cases ys; cases xs) auto
  have cell: "py_join [c] (z # zs) = z @ c # py_join [c] zs" if "zs \<noteq> []" for z zs
    using that by (cases zs) simp_all
  have free: "c \<notin> set x" "c \<notin> set y" using Cons.prems ys by simp_all
  consider "xs = []" "ys' = []" | "xs = []" "ys' \<noteq> []" | "xs \<noteq> []" "ys' = []" | "xs \<noteq> []" "ys' \<noteq> []" by blast
  then show ?case
  proof cases
    case 1
    then show ?thesis using Cons.prems(3) ys by simp
  next
    case 2
    then have "x = y @ c # py_join [c] ys'" using Cons.prems(3) ys cell by simp
    then show ?thesis using free by simp
  next
    case 3
    then have "y = x @ c # py_join [c] xs" using Cons.prems(3) ys cell by simp
    then show ?thesis using free by simp
  next
    case 4
    have "x = y \<and> py_join [c] xs = py_join [c] ys'"
      using join_head[OF free] Cons.prems(3) cell 4 by (metis ys)
    then show ?thesis using Cons.IH[of ys'] Cons.prems(1,2) ys by simp
  qed
qed

lemma str_int_no_comma: "CHR '','' \<notin> set (py_str_int i) \<and> py_str_int i \<noteq> []"
proof -
  have "CHR '','' \<notin> set (show_nat n)" for n
    using show_nat_digits[of n] by (auto simp: list_all_iff is_digit_def)
  then show ?thesis by (simp add: py_str_int_def)
qed

lemma prefix_payload_inj: "prefix_payload xs = prefix_payload ys \<Longrightarrow> xs = ys"
proof -
  assume "prefix_payload xs = prefix_payload ys"
  then have "map py_str_int xs = map py_str_int ys"
    unfolding prefix_payload_def by (intro join_inj) (simp_all add: list_all_iff str_int_no_comma)
  then show ?thesis using py_str_int_inj by (simp add: inj_map_eq_map inj_def)
qed

text \<open>C27. A prefix hash identifies the prefix: when the digest does not collide on the two payloads, two
  proofs that carry the same hash are about the same token sequence.\<close>

theorem same_hash_same_prefix:
  fixes a b c d :: TokenizedPrompt
  defines "ab \<equiv> longest_common_prefix (tp_token_ids a) (tp_token_ids b)"
    and "cd \<equiv> longest_common_prefix (tp_token_ids c) (tp_token_ids d)"
  assumes "pp_prefix_hash (fst (proof_compare sha a b st)) = Some h" "pp_prefix_hash (fst (proof_compare sha c d st')) = Some h"
    and "inj_on sha {prefix_payload ab, prefix_payload cd}"
  shows "ab = cd \<and> pp_shared_prefix_tokens (fst (proof_compare sha a b st)) = pp_shared_prefix_tokens (fst (proof_compare sha c d st'))"
proof -
  have "sha (prefix_payload ab) = sha (prefix_payload cd)" "same_origin a b" "same_origin c d"
    using assms(3,4) unfolding proof_compare_verdict ab_def[symmetric] cd_def[symmetric] hash_prefix_def
    by (auto split: if_splits)
  moreover from this(1) have "prefix_payload ab = prefix_payload cd"
    using assms(5) unfolding inj_on_def by blast
  then have "ab = cd" by (rule prefix_payload_inj)
  ultimately show ?thesis
    unfolding proof_compare_verdict ab_def[symmetric] cd_def[symmetric] by simp
qed

definition demo_tokens :: "int list \<Rightarrow> TokenizedPrompt" where
  "demo_tokens ids = (unavailable_prompt ''m'' [])\<lparr>tp_real_tokenization := True, tp_token_ids := ids\<rparr>"

theorem same_hash_same_prefix_witness:
  "longest_common_prefix [1, 2, 3] [1, 2, 4] = longest_common_prefix [1, 2, 5] [1, 2, 6::int]
   \<and> pp_shared_prefix_tokens (fst (proof_compare (\<lambda>s. s) (demo_tokens [1, 2, 3]) (demo_tokens [1, 2, 4]) new_engine_stats)) = 2"
proof -
  have h: "pp_prefix_hash (fst (proof_compare (\<lambda>s. s) (demo_tokens [1, 2, x]) (demo_tokens [1, 2, y]) new_engine_stats))
      = Some (prefix_payload [1, 2])" if "x \<noteq> y" for x y
    unfolding proof_compare_verdict using that
    by (simp add: same_origin_def demo_tokens_def unavailable_prompt_def hash_prefix_def)
  show ?thesis
    using same_hash_same_prefix[of "\<lambda>s. s" "demo_tokens [1, 2, 3]" "demo_tokens [1, 2, 4]" new_engine_stats
      "prefix_payload [1, 2]" "demo_tokens [1, 2, 5]" "demo_tokens [1, 2, 6]" new_engine_stats] h[of 3 4] h[of 5 6]
    by (simp add: proof_compare_verdict(2) same_origin_def demo_tokens_def unavailable_prompt_def)
qed

section \<open>Selection\<close>

lemma py_round_bounds:
  assumes "0 \<le> x" "x \<le> 1"
  shows "0 \<le> py_round n x \<and> py_round n x \<le> 1"
proof -
  define y where "y = x * 10 ^ n"
  define g where "g = (if y - of_int \<lfloor>y\<rfloor> < 1 / 2 then \<lfloor>y\<rfloor> else if 1 / 2 < y - of_int \<lfloor>y\<rfloor> then \<lfloor>y\<rfloor> + 1
                       else if even \<lfloor>y\<rfloor> then \<lfloor>y\<rfloor> else \<lfloor>y\<rfloor> + 1)"
  have y: "0 \<le> y" "y \<le> of_int (10 ^ n)" using assms by (simp_all add: y_def)
  have up: "\<lfloor>y\<rfloor> + 1 \<le> 10 ^ n" if "of_int \<lfloor>y\<rfloor> \<noteq> y"
  proof -
    have "of_int \<lfloor>y\<rfloor> < y" using that of_int_floor_le[of y] by linarith
    then have "\<lfloor>y\<rfloor> < 10 ^ n" using y(2) by linarith
    then show ?thesis by simp
  qed
  have "0 \<le> g" using y(1) by (simp add: g_def)
  moreover have "g \<le> 10 ^ n"
  proof (cases "of_int \<lfloor>y\<rfloor> = y")
    case True
    then have "y - of_int \<lfloor>y\<rfloor> = 0" by linarith
    then have "g = \<lfloor>y\<rfloor>" unfolding g_def by simp
    then show ?thesis using y(2) by (simp add: floor_le_iff)
  next
    case False
    then show ?thesis using up[OF False] by (simp add: g_def)
  qed
  ultimately have "0 \<le> (of_int g :: real)" "of_int g \<le> (10 ^ n :: real)" by (simp, metis of_int_le_iff of_int_numeral of_int_power)
  moreover have "py_round n x = of_int g / 10 ^ n" unfolding py_round_def Let_def y_def[symmetric] g_def ..
  ultimately show ?thesis by simp
qed

text \<open>A candidate is selected exactly for a compatible proof over a non-empty prompt that shares at
  least the minimum number of tokens; then its score lies between 0 and 1, it carries the hash and
  length of the proof, and its tail is what the prompt has beyond the prefix. Every evaluation is
  counted once as selected or as rejected.\<close>

theorem selection_verdict:
  "let (res, s') = selector_evaluate fresh_id found total_tokens s in
     (sr_selected res \<longleftrightarrow> (case found of None \<Rightarrow> False
        | Some p \<Rightarrow> pp_compatible p \<and> 0 < total_tokens \<and> sl_min_prefix_tokens s \<le> int (pp_shared_prefix_tokens p)))
   \<and> (case (sr_candidate res, sr_score res) of
        (Some c, Some sc) \<Rightarrow>
          sr_selected res \<and> 0 \<le> cs_score sc \<and> cs_score sc \<le> 1
        \<and> Some (sd_shared_prefix_tokens c) = map_option pp_shared_prefix_tokens found
        \<and> sd_dynamic_tail_tokens c = max 0 (total_tokens - int (sd_shared_prefix_tokens c))
      | (None, None) \<Rightarrow> \<not> sr_selected res
      | _ \<Rightarrow> False)
   \<and> sl_evaluations s' + sl_selected s + sl_rejected s = sl_selected s' + sl_rejected s' + sl_evaluations s
   \<and> sl_min_prefix_tokens s' = sl_min_prefix_tokens s"
proof -
  have score: "0 \<le> cs_score (score_candidate c) \<and> cs_score (score_candidate c) \<le> 1" if "0 \<le> sd_potential_saved_ratio c" for c
  proof -
    have "0 \<le> log 2 (1 + real (sd_shared_prefix_tokens c))" by simp
    then have "0 \<le> min (sd_potential_saved_ratio c * log 2 (1 + real (sd_shared_prefix_tokens c)) / 12) 1"
      using that by simp
    then show ?thesis unfolding score_candidate_def Let_def by (simp add: py_round_bounds)
  qed
  show ?thesis
    by (cases found) (auto simp: selector_evaluate_def Let_def max.commute intro: score[THEN conjunct1] score[THEN conjunct2])
qed

section \<open>The policy\<close>

definition snapshot_worthy :: "snapshot_clock \<Rightarrow> SnapshotPolicyConfig \<Rightarrow> CandidateReplayRecord \<Rightarrow> bool" where
  "snapshot_worthy K cfg r \<longleftrightarrow>
     sp_enabled cfg \<and> (str_true (rr_backend r) \<longrightarrow> the (rr_backend r) \<in> set (sp_supported_backends cfg))
   \<and> sp_minimum_seen_count cfg \<le> rr_seen_count r \<and> sp_minimum_candidate_score cfg \<le> rr_average_candidate_score r
   \<and> sp_minimum_saved_ratio cfg \<le> rr_average_potential_saved_ratio r
   \<and> \<not> policy_expired K cfg (rr_last_seen_at r)"

lemma evaluate_candidate_verdict:
  assumes "evaluate_candidate K r eng = (g, eng')"
  shows "sg_eligible g \<longleftrightarrow> snapshot_worthy K (sx_config eng) r"
    "sx_config eng' = sx_config eng" "sg_policy_version g = POLICY_VERSION"
    "sx_evaluations_total eng' = sx_evaluations_total eng + 1"
    "sx_eligible_total eng' = sx_eligible_total eng + (if sg_eligible g then 1 else 0)"
    "sx_rejected_total eng' = sx_rejected_total eng + (if sg_eligible g then 0 else 1)"
  using assms
  by (auto simp: evaluate_candidate_def policy_reject_def snapshot_worthy_def Let_def split: if_splits)

text \<open>The policy engine accounts for every record: over a whole replay summary it answers once per
  record, a record is eligible exactly when it is worth a snapshot under the configuration, and the
  totals of a new engine are the numbers of eligible and of rejected records.\<close>

theorem policy_accounts:
  "let (gs, eng) = evaluate_replay_summary K sm (new_policy_engine cfg); rs = sm_top_candidates sm in
     map sg_eligible gs = map (snapshot_worthy K cfg) rs
   \<and> sx_evaluations_total eng = length rs
   \<and> sx_eligible_total eng = length (filter (snapshot_worthy K cfg) rs)
   \<and> sx_rejected_total eng = length (filter (\<lambda>r. \<not> snapshot_worthy K cfg r) rs)"
proof -
  have "map sg_eligible gs = map (snapshot_worthy K (sx_config eng)) rs \<and> sx_config eng' = sx_config eng
      \<and> sx_evaluations_total eng' = sx_evaluations_total eng + length rs
      \<and> sx_eligible_total eng' = sx_eligible_total eng + length (filter (snapshot_worthy K (sx_config eng)) rs)
      \<and> sx_rejected_total eng' = sx_rejected_total eng + length (filter (\<lambda>r. \<not> snapshot_worthy K (sx_config eng) r) rs)"
    if "evaluate_records K rs eng = (gs, eng')" for rs gs eng eng'
    using that
  proof (induction rs arbitrary: eng gs eng')
    case (Cons r rs)
    obtain g eng1 where one: "evaluate_candidate K r eng = (g, eng1)" by fastforce
    obtain gs1 eng2 where rest: "evaluate_records K rs eng1 = (gs1, eng2)" by fastforce
    from Cons.IH[OF rest] evaluate_candidate_verdict[OF one] Cons.prems one rest show ?case by auto
  qed simp
  then show ?thesis
    unfolding evaluate_replay_summary_def Let_def
    by (cases "evaluate_records K (sm_top_candidates sm) (new_policy_engine cfg)") (force simp: new_policy_engine_def)
qed

section \<open>The analysis pass is metadata only\<close>

definition planned_from :: "loop_env \<Rightarrow> CandidateReplayRecord \<Rightarrow> SnapshotArtifact" where
  "planned_from L r =
     build_from_manifest (le_sha L) (le_now_text L)
       (the (build_from_replay_record (le_sha L) (le_now_text L) r
               \<lparr>sg_eligible = True, sg_reason = eligibility_reason r, sg_candidate_score = rr_average_candidate_score r,
                sg_policy_version = POLICY_VERSION\<rparr>))"

lemma eligible_answer:
  assumes "evaluate_candidate K r eng = (g, eng')" "sg_eligible g"
  shows "g = \<lparr>sg_eligible = True, sg_reason = eligibility_reason r, sg_candidate_score = rr_average_candidate_score r,
                sg_policy_version = POLICY_VERSION\<rparr>"
  using assms by (auto simp: evaluate_candidate_def policy_reject_def Let_def split: if_splits)

lemma loop_record_eligible:
  assumes "snapshot_worthy (le_clock L) (sx_config eng) r"
  shows "\<exists>eng' st'. sx_config eng' = sx_config eng \<and> loop_record L r (eng, st, reg, res) =
      (eng', st', map_option (register_artifact (le_now_text L) (planned_from L r)) reg,
       res\<lparr>lr_candidates_eligible := lr_candidates_eligible res + 1, lr_manifests_created := lr_manifests_created res + 1,
           lr_artifacts_registered := lr_artifacts_registered res + (if reg = None then 0 else 1)\<rparr>)"
proof -
  obtain g eng1 where one: "evaluate_candidate (le_clock L) r eng = (g, eng1)" by fastforce
  note v = evaluate_candidate_verdict[OF one]
  have "sg_eligible g" using v(1) assms by simp
  with one v show ?thesis
    by (cases reg) (auto simp: eligible_answer[OF one] build_from_replay_record_def planned_from_def Let_def)
qed

lemma loop_record_skipped:
  assumes "\<not> snapshot_worthy (le_clock L) (sx_config eng) r"
  shows "\<exists>eng'. sx_config eng' = sx_config eng \<and>
    loop_record L r (eng, st, reg, res) = (eng', st, reg, res\<lparr>lr_skipped := lr_skipped res + 1\<rparr>)"
proof -
  obtain g eng1 where one: "evaluate_candidate (le_clock L) r eng = (g, eng1)" by fastforce
  with evaluate_candidate_verdict[OF one] assms show ?thesis by simp
qed

text \<open>What the pass leaves in a registry: the artifacts of the records worth a snapshot, registered in order.\<close>

definition register_all :: "loop_env \<Rightarrow> CandidateReplayRecord list \<Rightarrow> artifact_registry \<Rightarrow> artifact_registry" where
  "register_all L rs reg = fold (\<lambda>r. register_artifact (le_now_text L) (planned_from L r)) rs reg"

lemma loop_fold:
  assumes "fold (loop_record L) rs (eng, st, reg, res) = (eng', st', reg', res')"
  defines "worthy \<equiv> filter (snapshot_worthy (le_clock L) (sx_config eng)) rs"
  shows "reg' = map_option (register_all L worthy) reg
    \<and> lr_candidates_eligible res' = lr_candidates_eligible res + length worthy
    \<and> lr_manifests_created res' = lr_manifests_created res + length worthy
    \<and> lr_artifacts_registered res' = lr_artifacts_registered res + (if reg = None then 0 else length worthy)
    \<and> lr_skipped res' + length worthy = lr_skipped res + length rs
    \<and> lr_candidates_scanned res' = lr_candidates_scanned res \<and> lr_errors res' = lr_errors res
    \<and> lr_details res' = lr_details res"
  using assms(1) unfolding worthy_def
proof (induction rs arbitrary: eng st reg res)
  case Nil
  then show ?case by (cases reg) (auto simp: register_all_def)
next
  case (Cons r rs)
  show ?case
  proof (cases "snapshot_worthy (le_clock L) (sx_config eng) r")
    case True
    from loop_record_eligible[OF this, of st reg res] obtain eng1 st1 where step: "sx_config eng1 = sx_config eng" "loop_record L r (eng, st, reg, res) =
        (eng1, st1, map_option (register_artifact (le_now_text L) (planned_from L r)) reg,
         res\<lparr>lr_candidates_eligible := lr_candidates_eligible res + 1, lr_manifests_created := lr_manifests_created res + 1,
             lr_artifacts_registered := lr_artifacts_registered res + (if reg = None then 0 else 1)\<rparr>)"
      by blast
    have rest: "fold (loop_record L) rs (eng1, st1, map_option (register_artifact (le_now_text L) (planned_from L r)) reg,
         res\<lparr>lr_candidates_eligible := lr_candidates_eligible res + 1, lr_manifests_created := lr_manifests_created res + 1,
             lr_artifacts_registered := lr_artifacts_registered res + (if reg = None then 0 else 1)\<rparr>) = (eng', st', reg', res')"
      using Cons.prems step(2) by (simp del: loop_record.simps)
    show ?thesis using Cons.IH[OF rest] True step(1) by (cases reg) (simp_all add: register_all_def)
  next
    case False
    from loop_record_skipped[OF this, of st reg res] obtain eng1 where step: "sx_config eng1 = sx_config eng"
      "loop_record L r (eng, st, reg, res) = (eng1, st, reg, res\<lparr>lr_skipped := lr_skipped res + 1\<rparr>)"
      by blast
    have rest: "fold (loop_record L) rs (eng1, st, reg, res\<lparr>lr_skipped := lr_skipped res + 1\<rparr>) = (eng', st', reg', res')"
      using Cons.prems step(2) by (simp del: loop_record.simps)
    show ?thesis using Cons.IH[OF rest] False step(1) by simp
  qed
qed

text \<open>What the pass relies on of its storage: both upserts keep the storage's invariant. The pass does too.\<close>

locale snapshot_sink =
  fixes ops :: "'st snapshot_store" and inv :: "'st \<Rightarrow> bool"
  assumes keeps_manifest: "inv s \<Longrightarrow> inv (ss_upsert_manifest ops m s)"
    and keeps_artifact: "inv s \<Longrightarrow> inv (ss_upsert_artifact ops a s)"
begin

definition sound :: "('st snapshot_store \<times> 'st) option \<Rightarrow> bool" where
  "sound st \<longleftrightarrow> (case st of None \<Rightarrow> True | Some (o1, s) \<Rightarrow> o1 = ops \<and> inv s)"

lemma record_keeps_store:
  assumes "sound st" "loop_record L r (eng, st, reg, res) = (eng', st', reg', res')"
  shows "sound st'"
proof -
  have stored: "sound (store_manifest m st)" "sound (store_artifact a (store_manifest m st))" for m a
    using assms(1) by (auto simp: sound_def store_manifest_def store_artifact_def keeps_manifest keeps_artifact split: option.splits)
  have "st' = st \<or> (\<exists>m. st' = store_manifest m st) \<or> (\<exists>m a. st' = store_artifact a (store_manifest m st))"
    using assms(2) by (auto simp: Let_def split: prod.splits if_splits option.splits)
  then show ?thesis using assms(1) stored by (elim disjE exE) simp_all
qed

lemma pass_keeps_store:
  assumes "sound (al_storage al)"
  shows "sound (al_storage (snd (run_analysis L limit al)))"
proof -
  have "sound st'" if "sound st" "fold (loop_record L) rs (eng, st, reg, res) = (eng', st', reg', res')"
    for rs eng st reg res eng' st' reg' res'
    using that
  proof (induction rs arbitrary: eng st reg res)
    case (Cons r rs)
    obtain eng1 st1 reg1 res1 where step: "loop_record L r (eng, st, reg, res) = (eng1, st1, reg1, res1)"
      by (metis prod_cases4)
    have "fold (loop_record L) rs (eng1, st1, reg1, res1) = (eng', st', reg', res')"
      using Cons.prems(2) step by (simp del: loop_record.simps)
    with Cons.IH record_keeps_store[OF Cons.prems(1) step] show ?case by blast
  qed simp
  then show ?thesis
    using assms by (auto simp: run_analysis_def Let_def simp del: loop_record.simps split: option.split prod.split)
qed

end

definition pass_records :: "loop_env \<Rightarrow> int \<Rightarrow> ThreadWakeIndex \<Rightarrow> CandidateReplayRecord list" where
  "pass_records L limit ix = sm_top_candidates (analyze_index (le_iso L) ix limit)"

text \<open>C28. One analysis pass accounts for every record it looks at and creates metadata only: the ranked
  records are eligible or skipped, each eligible one gives one manifest and, with a registry, one
  artifact, nothing is an error, and what the registry holds afterwards is what it held before with
  the planned artifacts of the eligible records registered on top; the index is not touched.\<close>

theorem analysis_pass_accounts:
  "let (res, al') = run_analysis L limit (al\<lparr>al_index := Some ix\<rparr>); rs = pass_records L limit ix;
       worthy = filter (snapshot_worthy (le_clock L) default_policy) rs in
     lr_candidates_scanned res = length (list_candidates 500 None None ix)
   \<and> length rs = min (nat (max 1 (min limit 100))) (length (list_candidates 500 None None ix))
   \<and> lr_candidates_eligible res = length worthy \<and> lr_candidates_eligible res + lr_skipped res = length rs
   \<and> lr_manifests_created res = length worthy
   \<and> lr_artifacts_registered res = (if al_artifact_registry al = None then 0 else length worthy)
   \<and> lr_errors res = 0 \<and> lr_details res = []
   \<and> al_artifact_registry al' = map_option (register_all L worthy) (al_artifact_registry al)
   \<and> al_index al' = Some ix \<and> al_last_result al' = Some res \<and> al_run_count al' = al_run_count al + 1"
proof -
  let ?cands = "list_candidates 500 None None ix"
  have scanned: "sm_total_candidates (analyze_index (le_iso L) ix limit) = length ?cands"
    and top: "length (pass_records L limit ix) = min (nat (max 1 (min limit 100))) (length ?cands)"
    by (simp_all add: pass_records_def analyze_index_def build_summary_def rank_candidates_def Let_def min.commute)
  obtain eng st reg res where run: "fold (loop_record L) (pass_records L limit ix)
      (new_policy_engine default_policy, al_storage al, al_artifact_registry al,
       empty_loop_result\<lparr>lr_candidates_scanned := length ?cands\<rparr>) = (eng, st, reg, res)" by (metis prod_cases4)
  have cfg: "sx_config (new_policy_engine default_policy) = default_policy" by (simp add: new_policy_engine_def)
  note tally = loop_fold[OF run, unfolded cfg]
  have out: "run_analysis L limit (al\<lparr>al_index := Some ix\<rparr>) =
      (res, al\<lparr>al_index := Some ix, al_storage := st, al_artifact_registry := reg, al_run_count := al_run_count al + 1,
               al_last_result := Some res\<rparr>)"
    unfolding run_analysis_def Let_def using run scanned
    by (simp add: pass_records_def[symmetric] del: loop_record.simps)
  show ?thesis
    unfolding out Let_def case_prod_conv using tally top by (auto simp: empty_loop_result_def)
qed

lemma register_planned:
  assumes "list_all (\<lambda>a. sa_status a = ''planned'') (dvals reg)" "sa_status a = ''planned''"
  shows "list_all (\<lambda>a. sa_status a = ''planned'') (dvals (register_artifact now a reg))"
proof -
  have "list_all P (dvals (dset k v d))" if "list_all P (dvals d)" "P v" for P k and v :: SnapshotArtifact and d
    using that by (induction d) (auto split: if_splits)
  note put = this[of "\<lambda>a. sa_status a = ''planned''", OF assms(1)]
  show ?thesis
    unfolding register_artifact_def by (cases "dget reg (sa_artifact_id a)") (simp_all add: put assms(2))
qed

text \<open>No artifact ever becomes ready: whatever indexes the analysis passes see, a registry that they
  alone feed from an empty one holds only planned artifacts.\<close>

theorem artifacts_stay_planned:
  "list_all (\<lambda>a. sa_status a = ''planned'')
     (dvals (fold (\<lambda>(L, limit, ix) reg.
        register_all L (filter (snapshot_worthy (le_clock L) default_policy) (pass_records L limit ix)) reg) passes []))"
proof -
  have one: "list_all (\<lambda>a. sa_status a = ''planned'') (dvals (register_all L rs reg))"
    if "list_all (\<lambda>a. sa_status a = ''planned'') (dvals reg)" for L rs reg
    using that unfolding register_all_def
    by (induction rs arbitrary: reg)
      (simp_all add: register_planned planned_from_def build_from_replay_record_def build_from_manifest_def Let_def)
  have "list_all (\<lambda>a. sa_status a = ''planned'') (dvals (fold (\<lambda>(L, limit, ix) reg.
        register_all L (filter (snapshot_worthy (le_clock L) default_policy) (pass_records L limit ix)) reg) passes reg))"
    if "list_all (\<lambda>a. sa_status a = ''planned'') (dvals reg)" for reg
    using that by (induction passes arbitrary: reg) (auto simp: one)
  then show ?thesis by simp
qed

section \<open>Creation and validation\<close>

text \<open>The snapshot creator never creates: over any calls, enabled or not, every attempt is skipped.\<close>

theorem creator_never_creates:
  "let (results, cn) = fold (\<lambda>(a, m) (rs, cn). case create_from_artifact a m cn of (r, cn) \<Rightarrow> (rs @ [r], cn))
                         calls ([], new_creator enabled) in
     cn_created cn = 0 \<and> cn_failed cn = 0 \<and> cn_attempts cn = length calls \<and> cn_skipped cn = length calls
   \<and> list_all (\<lambda>r. \<not> sc_created r \<and> sc_snapshot_ref_hash r = None
                 \<and> sc_status r = (if enabled then CR_SKIPPED else CR_DISABLED)) results"
proof -
  let ?step = "\<lambda>(a, m) (rs, cn). case create_from_artifact a m cn of (r, cn) \<Rightarrow> (rs @ [r], cn)"
  let ?ok = "\<lambda>r. \<not> sc_created r \<and> sc_snapshot_ref_hash r = None \<and> sc_status r = (if enabled then CR_SKIPPED else CR_DISABLED)"
  have one: "\<exists>r. create_from_artifact a m cn = (r, cn\<lparr>cn_attempts := cn_attempts cn + 1, cn_skipped := cn_skipped cn + 1,
      cn_last_reason := Some (sc_reason r)\<rparr>) \<and> (cn_enabled cn = enabled \<longrightarrow> ?ok r)" for a m cn
    by (auto simp: create_from_artifact_def creator_skip_def Let_def split: option.split)
  have "\<exists>rs' cn'. fold ?step calls (rs, cn) = (rs', cn') \<and> cn_created cn' = cn_created cn \<and> cn_failed cn' = cn_failed cn
      \<and> cn_attempts cn' = cn_attempts cn + length calls \<and> cn_skipped cn' = cn_skipped cn + length calls
      \<and> list_all ?ok rs'"
    if "cn_enabled cn = enabled" "list_all ?ok rs" for rs cn
    using that
  proof (induction calls arbitrary: rs cn)
    case (Cons call calls)
    obtain a m where call: "call = (a, m)" by (cases call)
    obtain r where "create_from_artifact a m cn = (r, cn\<lparr>cn_attempts := cn_attempts cn + 1, cn_skipped := cn_skipped cn + 1,
      cn_last_reason := Some (sc_reason r)\<rparr>)" "?ok r"
      using one[of a m cn] Cons.prems(1) by blast
    with Cons.IH[of "cn\<lparr>cn_attempts := cn_attempts cn + 1, cn_skipped := cn_skipped cn + 1,
        cn_last_reason := Some (sc_reason r)\<rparr>" "rs @ [r]"] Cons.prems show ?case by (auto simp: call)
  qed simp
  from this[of "new_creator enabled" "[]"] show ?thesis by (force simp: new_creator_def Let_def)
qed

text \<open>The rows of the index carry neither tokenizer nor template hash, so no material declared for a
  candidate of the index passes validation.\<close>

lemma index_material_invalid:
  assumes "r \<in> set (pass_records L limit ix)"
  shows "\<not> mv_valid (fst (validate_material
            (Some (declare_from_artifact sha now (planned_from L r) m)) vd))"
proof -
  have "rr_tokenizer_hash r = None"
    using assms
    by (auto simp: pass_records_def analyze_index_def build_summary_def rank_candidates_def replay_record_def
        row_of_snapshot_def Let_def split: if_splits dest!: in_set_takeD)
  then have "ml_tokenizer_hash (declare_from_artifact sha now (planned_from L r) m) = None"
    by (simp add: declare_from_artifact_def planned_from_def build_from_replay_record_def build_from_manifest_def Let_def)
  then have "missing_fields (declare_from_artifact sha now (planned_from L r) m) \<noteq> []"
    by (simp add: missing_fields_def required_fields_def filter_empty_conv Let_def)
  then show ?thesis
    by (simp add: validate_material_def validation_fail_def Let_def split: list.split)
qed

text \<open>A time without a zone, which is what the storage records, is never too old.\<close>

lemma naive_time_never_expires: "sk_parse K t = TimeNaive u \<Longrightarrow> \<not> policy_expired K cfg (Some t)"
  by (simp add: policy_expired_def age_days_def)

end
