(* ===== verification/ThreadWake_Storage.thy ===== *)
theory ThreadWake_Storage
  imports ThreadWake_Snapshots Config
begin

text \<open>
  The optional telemetry storage (\<open>storage.py\<close>), the lifecycle harness that drives the whole metadata
  chain through it (\<open>fake_lifecycle_harness.py\<close>) and the feasibility probe of the MLX prompt cache
  (\<open>mlx_kv_feasibility.py\<close>).

  A table is an association list from its primary key to its row, in the order of insertion;
  \<open>INSERT ... ON CONFLICT DO UPDATE\<close> is an update of the row or an append. Whether SQLite executes a
  statement is an argument \<open>ok\<close> of the operation: \<open>False\<close> is an exception, which the code logs and
  counts. SQLite does not fix the order of rows that compare equal, so a listing has the order
  \<open>tie\<close> in which the engine visits the rows as an argument. \<open>SUM\<close> over no rows is null.
\<close>

section \<open>Tables\<close>

record candidate_entry =
  ce_prompt_prefix_hash :: string
  ce_backend :: "string option"
  ce_model_id :: "string option"
  ce_tokenizer_hash :: "string option"
  ce_chat_template_hash :: "string option"
  ce_candidate_score :: "real option"
  ce_candidate_confidence :: "string option"
  ce_potential_saved_tokens :: "int option"
  ce_potential_saved_ratio :: "real option"
  ce_selection_reason :: "string option"

record stored_candidate =
  st_prefix_hash :: string
  st_backend :: string
  st_model_id :: string
  st_tokenizer_hash :: "string option"
  st_chat_template_hash :: "string option"
  st_candidate_score :: "real option"
  st_candidate_confidence :: "string option"
  st_potential_saved_tokens :: "int option"
  st_potential_saved_ratio :: "real option"
  st_candidate_seen_count :: nat
  st_first_seen_at :: string
  st_last_seen_at :: string
  st_selection_reason :: "string option"

record validation_event =
  ve_event_id :: string
  ve_material_id :: "string option"
  ve_valid :: bool
  ve_reason :: string
  ve_material_kind :: "string option"
  ve_material_status :: "string option"
  ve_errors :: string

record SQLiteThreadWakeStorage =
  db_open :: bool
  db_candidates :: "(string, stored_candidate) dict"
  db_manifests :: "(string, SnapshotManifest) dict"
  db_artifacts :: "(string, SnapshotArtifact) dict"
  db_materials :: "(string, SnapshotMaterialContract) dict"
  db_validations :: "validation_event list"
  db_persistence_errors :: nat
  db_upserts_total :: nat

text \<open>\<open>__init__\<close> with \<open>_init_db\<close> on a new file; a failed initialisation leaves no connection.\<close>

definition init_db :: "bool \<Rightarrow> SQLiteThreadWakeStorage" where
  "init_db ok =
     \<lparr>db_open = ok, db_candidates = [], db_manifests = [], db_artifacts = [], db_materials = [], db_validations = [],
      db_persistence_errors = (if ok then 0 else 1), db_upserts_total = 0\<rparr>"

definition db_close :: "SQLiteThreadWakeStorage \<Rightarrow> SQLiteThreadWakeStorage" where
  "db_close db = db\<lparr>db_open := False\<rparr>"

definition db_failed :: "SQLiteThreadWakeStorage \<Rightarrow> SQLiteThreadWakeStorage" where
  "db_failed db = db\<lparr>db_persistence_errors := db_persistence_errors db + 1\<rparr>"

section \<open>Writing\<close>

definition candidate_insert :: "string \<Rightarrow> candidate_entry \<Rightarrow> stored_candidate" where
  "candidate_insert now e =
     \<lparr>st_prefix_hash = ce_prompt_prefix_hash e, st_backend = case_option [] id (ce_backend e),
      st_model_id = case_option [] id (ce_model_id e), st_tokenizer_hash = ce_tokenizer_hash e,
      st_chat_template_hash = ce_chat_template_hash e, st_candidate_score = ce_candidate_score e,
      st_candidate_confidence = ce_candidate_confidence e, st_potential_saved_tokens = ce_potential_saved_tokens e,
      st_potential_saved_ratio = ce_potential_saved_ratio e, st_candidate_seen_count = 1, st_first_seen_at = now,
      st_last_seen_at = now, st_selection_reason = ce_selection_reason e\<rparr>"

definition candidate_update :: "string \<Rightarrow> candidate_entry \<Rightarrow> stored_candidate \<Rightarrow> stored_candidate" where
  "candidate_update now e row =
     row\<lparr>st_candidate_score := ce_candidate_score e, st_candidate_confidence := ce_candidate_confidence e,
         st_potential_saved_tokens := ce_potential_saved_tokens e, st_potential_saved_ratio := ce_potential_saved_ratio e,
         st_candidate_seen_count := st_candidate_seen_count row + 1, st_last_seen_at := now,
         st_selection_reason := ce_selection_reason e\<rparr>"

text \<open>\<open>INSERT ... ON CONFLICT(key) DO UPDATE\<close>.\<close>

definition sql_upsert :: "'k \<Rightarrow> 'v \<Rightarrow> ('v \<Rightarrow> 'v) \<Rightarrow> ('k, 'v) dict \<Rightarrow> ('k, 'v) dict" where
  "sql_upsert k fresh upd table = dset k (case dget table k of None \<Rightarrow> fresh | Some old \<Rightarrow> upd old) table"

definition upsert_candidate :: "bool \<Rightarrow> string \<Rightarrow> candidate_entry \<Rightarrow> SQLiteThreadWakeStorage \<Rightarrow> SQLiteThreadWakeStorage" where
  "upsert_candidate ok now e db =
     (if \<not> db_open db \<or> ce_prompt_prefix_hash e = [] then db
      else if \<not> ok then db_failed db
      else db\<lparr>db_candidates := sql_upsert (ce_prompt_prefix_hash e) (candidate_insert now e) (candidate_update now e)
                                (db_candidates db),
              db_upserts_total := db_upserts_total db + 1\<rparr>)"

text \<open>
  The flag \<open>ok\<close> is the outcome of the statement, which SQLite undoes by itself when it fails. When the
  statement succeeds and the commit after it fails, the handler counts an error and leaves the row
  in the open transaction, where this connection goes on reading it.
\<close>

definition upsert_candidate_uncommitted :: "string \<Rightarrow> candidate_entry \<Rightarrow> SQLiteThreadWakeStorage \<Rightarrow> SQLiteThreadWakeStorage" where
  "upsert_candidate_uncommitted now e db =
     (if \<not> db_open db \<or> ce_prompt_prefix_hash e = [] then db
      else db_failed (db\<lparr>db_candidates := sql_upsert (ce_prompt_prefix_hash e) (candidate_insert now e) (candidate_update now e)
                                            (db_candidates db)\<rparr>))"

definition manifest_update :: "SnapshotManifest \<Rightarrow> SnapshotManifest \<Rightarrow> SnapshotManifest" where
  "manifest_update m row =
     row\<lparr>mf_candidate_score := mf_candidate_score m, mf_candidate_confidence := mf_candidate_confidence m,
         mf_seen_count := mf_seen_count m, mf_potential_saved_tokens_total := mf_potential_saved_tokens_total m,
         mf_average_potential_saved_ratio := mf_average_potential_saved_ratio m,
         mf_eligibility_reason := mf_eligibility_reason m, mf_policy_version := mf_policy_version m,
         mf_status := mf_status m, mf_last_seen_at := mf_last_seen_at m\<rparr>"

definition upsert_snapshot_manifest :: "bool \<Rightarrow> SnapshotManifest \<Rightarrow> SQLiteThreadWakeStorage \<Rightarrow> SQLiteThreadWakeStorage" where
  "upsert_snapshot_manifest ok m db =
     (if \<not> db_open db \<or> mf_manifest_id m = [] then db
      else if \<not> ok then db_failed db
      else db\<lparr>db_manifests := sql_upsert (mf_manifest_id m) m (manifest_update m) (db_manifests db)\<rparr>)"

definition artifact_update :: "SnapshotArtifact \<Rightarrow> SnapshotArtifact \<Rightarrow> SnapshotArtifact" where
  "artifact_update a row =
     row\<lparr>sa_status := sa_status a, sa_build_attempts := sa_build_attempts row + 1,
         sa_notes := (case sa_notes a of None \<Rightarrow> sa_notes row | Some n \<Rightarrow> Some n), sa_updated_at := sa_updated_at a,
         sa_last_seen_at := sa_last_seen_at a\<rparr>"

definition upsert_snapshot_artifact :: "bool \<Rightarrow> SnapshotArtifact \<Rightarrow> SQLiteThreadWakeStorage \<Rightarrow> SQLiteThreadWakeStorage" where
  "upsert_snapshot_artifact ok a db =
     (if \<not> db_open db \<or> sa_artifact_id a = [] then db
      else if \<not> ok then db_failed db
      else db\<lparr>db_artifacts := sql_upsert (sa_artifact_id a) a (artifact_update a) (db_artifacts db)\<rparr>)"

text \<open>The column of validation errors is one text; the row keeps it as a list of one.\<close>

definition material_row :: "SnapshotMaterialContract \<Rightarrow> SnapshotMaterialContract" where
  "material_row m = m\<lparr>ml_validation_errors := [py_join '','' (ml_validation_errors m)]\<rparr>"

definition material_update :: "SnapshotMaterialContract \<Rightarrow> SnapshotMaterialContract \<Rightarrow> SnapshotMaterialContract" where
  "material_update m row =
     row\<lparr>ml_material_status := ml_material_status m, ml_material_kind := ml_material_kind m, ml_checksum := ml_checksum m,
         ml_byte_size := ml_byte_size m, ml_token_count := ml_token_count m,
         ml_validation_errors := ml_validation_errors (material_row m), ml_updated_at := ml_updated_at m\<rparr>"

definition upsert_snapshot_material ::
  "bool \<Rightarrow> SnapshotMaterialContract \<Rightarrow> SQLiteThreadWakeStorage \<Rightarrow> SQLiteThreadWakeStorage" where
  "upsert_snapshot_material ok m db =
     (if \<not> db_open db \<or> ml_material_id m = [] then db
      else if \<not> ok then db_failed db
      else db\<lparr>db_materials := sql_upsert (ml_material_id m) (material_row m) (material_update m) (db_materials db)\<rparr>)"

definition record_snapshot_material_validation ::
  "bool \<Rightarrow> string \<Rightarrow> SnapshotMaterialValidationResult \<Rightarrow> SQLiteThreadWakeStorage \<Rightarrow> SQLiteThreadWakeStorage" where
  "record_snapshot_material_validation ok event_id r db =
     (if \<not> db_open db then db
      else if \<not> ok \<or> event_id \<in> ve_event_id ` set (db_validations db) then db_failed db
      else db\<lparr>db_validations := db_validations db @
                [\<lparr>ve_event_id = event_id, ve_material_id = mv_material_id r, ve_valid = mv_valid r, ve_reason = mv_reason r,
                  ve_material_kind = mv_material_kind r, ve_material_status = mv_material_status r,
                  ve_errors = py_join '','' (mv_errors r)\<rparr>]\<rparr>)"

section \<open>Reading\<close>

definition clamp_limit :: "int \<Rightarrow> nat" where
  "clamp_limit limit = nat (max 1 (min limit 500))"

text \<open>\<open>SELECT * ... WHERE ... ORDER BY created_at DESC LIMIT ?\<close>: a filter on a text or null column is
  only added for a non-empty argument.\<close>

definition sql_select ::
  "('v list \<Rightarrow> 'v list) \<Rightarrow> ('v \<Rightarrow> string) \<Rightarrow> ('v \<Rightarrow> string) \<Rightarrow> ('v \<Rightarrow> string option) \<Rightarrow> int \<Rightarrow> string option \<Rightarrow> string option
   \<Rightarrow> (string, 'v) dict \<Rightarrow> 'v list" where
  "sql_select tie created status_of backend_of limit status backend table =
     (let rows = tie (dvals table);
          rows = (if str_true status then filter (\<lambda>r. Some (status_of r) = status) rows else rows);
          rows = (if str_true backend then filter (\<lambda>r. backend_of r = backend) rows else rows)
      in take (clamp_limit limit) (sort_desc created rows))"

definition read_db ::
  "bool \<Rightarrow> 'a \<Rightarrow> (SQLiteThreadWakeStorage \<Rightarrow> 'a) \<Rightarrow> SQLiteThreadWakeStorage \<Rightarrow> 'a \<times> SQLiteThreadWakeStorage" where
  "read_db ok fallback query db =
     (if \<not> db_open db then (fallback, db) else if \<not> ok then (fallback, db_failed db) else (query db, db))"

definition list_snapshot_manifests ::
  "bool \<Rightarrow> (SnapshotManifest list \<Rightarrow> SnapshotManifest list) \<Rightarrow> int \<Rightarrow> string option \<Rightarrow> string option
   \<Rightarrow> SQLiteThreadWakeStorage \<Rightarrow> SnapshotManifest list \<times> SQLiteThreadWakeStorage" where
  "list_snapshot_manifests ok tie limit status backend =
     read_db ok [] (\<lambda>db. sql_select tie mf_created_at mf_status mf_backend limit status backend (db_manifests db))"

definition list_snapshot_artifacts ::
  "bool \<Rightarrow> (SnapshotArtifact list \<Rightarrow> SnapshotArtifact list) \<Rightarrow> int \<Rightarrow> string option \<Rightarrow> string option
   \<Rightarrow> SQLiteThreadWakeStorage \<Rightarrow> SnapshotArtifact list \<times> SQLiteThreadWakeStorage" where
  "list_snapshot_artifacts ok tie limit status backend =
     read_db ok [] (\<lambda>db. sql_select tie sa_created_at sa_status sa_backend limit status backend (db_artifacts db))"

definition list_snapshot_materials ::
  "bool \<Rightarrow> (SnapshotMaterialContract list \<Rightarrow> SnapshotMaterialContract list) \<Rightarrow> int \<Rightarrow> string option \<Rightarrow> string option
   \<Rightarrow> SQLiteThreadWakeStorage \<Rightarrow> SnapshotMaterialContract list \<times> SQLiteThreadWakeStorage" where
  "list_snapshot_materials ok tie limit status backend =
     read_db ok [] (\<lambda>db. sql_select tie ml_created_at ml_material_status ml_backend limit status backend (db_materials db))"

text \<open>\<open>ORDER BY candidate_score DESC, candidate_seen_count DESC, last_seen_at DESC\<close>, as stable passes from
  the least significant key; a null score comes last.\<close>

definition order_candidates :: "stored_candidate list \<Rightarrow> stored_candidate list" where
  "order_candidates rows =
     sort_key (\<lambda>r. st_candidate_score r = None)
       (sort_key (\<lambda>r. - case_option 0 id (st_candidate_score r))
         (sort_key (\<lambda>r. - int (st_candidate_seen_count r)) (sort_desc st_last_seen_at rows)))"

definition stored_candidates ::
  "bool \<Rightarrow> (stored_candidate list \<Rightarrow> stored_candidate list) \<Rightarrow> int \<Rightarrow> string option \<Rightarrow> string option
   \<Rightarrow> SQLiteThreadWakeStorage \<Rightarrow> stored_candidate list \<times> SQLiteThreadWakeStorage" where
  "stored_candidates ok tie limit min_confidence backend =
     read_db ok []
       (\<lambda>db. let rows = tie (dvals (db_candidates db));
                 rows = (if str_true min_confidence
                         then filter (\<lambda>r. st_candidate_confidence r = min_confidence) rows else rows);
                 rows = (if str_true backend then filter (\<lambda>r. Some (st_backend r) = backend) rows else rows)
             in take (clamp_limit limit) (order_candidates rows))"

definition row_of_stored :: "stored_candidate \<Rightarrow> candidate_row" where
  "row_of_stored r =
     \<lparr>rw_prefix_hash = st_prefix_hash r, rw_backend = Some (st_backend r), rw_model_id = Some (st_model_id r),
      rw_tokenizer_hash = st_tokenizer_hash r, rw_chat_template_hash = st_chat_template_hash r,
      rw_seen_count = int (st_candidate_seen_count r), rw_potential_saved_tokens = st_potential_saved_tokens r,
      rw_candidate_score = st_candidate_score r, rw_potential_saved_ratio = st_potential_saved_ratio r,
      rw_confidence = st_candidate_confidence r, rw_first_seen_at = Some (st_first_seen_at r),
      rw_last_seen_at = Some (st_last_seen_at r)\<rparr>"

section \<open>Statistics\<close>

type_synonym stats_dict = "(string, pyval) dict"

definition noop_counts :: "string \<Rightarrow> string list \<Rightarrow> stats_dict" where
  "noop_counts total_key names = (total_key, PInt 0) # map (\<lambda>n. (n, PInt 0)) names"

text \<open>\<open>SUM(CASE WHEN status = n THEN 1 ELSE 0 END)\<close> for each name.\<close>

definition sum_cases :: "('v \<Rightarrow> bool) \<Rightarrow> ('k, 'v) dict \<Rightarrow> pyval" where
  "sum_cases P table = (if table = [] then PNone else PInt (int (dcount P table)))"

definition sql_counts :: "string \<Rightarrow> string list \<Rightarrow> ('v \<Rightarrow> string) \<Rightarrow> ('k, 'v) dict \<Rightarrow> stats_dict" where
  "sql_counts total_key names status_of table =
     (total_key, PInt (int (length table))) # map (\<lambda>n. (n, sum_cases (\<lambda>r. status_of r = n) table)) names"

definition MANIFEST_STATUSES :: "string list" where
  "MANIFEST_STATUSES = [''planned'', ''superseded'', ''expired'', ''rejected'']"

definition ARTIFACT_STATUSES :: "string list" where
  "ARTIFACT_STATUSES = [''planned'', ''build_pending'', ''build_failed'', ''ready'', ''superseded'', ''expired'']"

definition COUNTED_MATERIAL_STATUSES :: "string list" where
  "COUNTED_MATERIAL_STATUSES = [''declared'', ''materialized'', ''validated'', ''invalid'', ''unsupported'', ''expired'']"

definition snapshot_manifest_stats :: "bool \<Rightarrow> SQLiteThreadWakeStorage \<Rightarrow> stats_dict \<times> SQLiteThreadWakeStorage" where
  "snapshot_manifest_stats ok =
     read_db ok (noop_counts ''total_manifests'' MANIFEST_STATUSES)
       (\<lambda>db. sql_counts ''total_manifests'' MANIFEST_STATUSES mf_status (db_manifests db))"

definition snapshot_artifact_stats :: "bool \<Rightarrow> SQLiteThreadWakeStorage \<Rightarrow> stats_dict \<times> SQLiteThreadWakeStorage" where
  "snapshot_artifact_stats ok =
     read_db ok (noop_counts ''total_artifacts'' ARTIFACT_STATUSES)
       (\<lambda>db. sql_counts ''total_artifacts'' ARTIFACT_STATUSES sa_status (db_artifacts db))"

definition snapshot_material_stats :: "bool \<Rightarrow> SQLiteThreadWakeStorage \<Rightarrow> stats_dict \<times> SQLiteThreadWakeStorage" where
  "snapshot_material_stats ok =
     read_db ok (noop_counts ''total_materials'' COUNTED_MATERIAL_STATUSES)
       (\<lambda>db. sql_counts ''total_materials'' COUNTED_MATERIAL_STATUSES ml_material_status (db_materials db))"

definition noop_candidate_stats :: stats_dict where
  "noop_candidate_stats =
     [(''total_candidates'', PInt 0), (''high_confidence'', PInt 0), (''medium_confidence'', PInt 0),
      (''low_confidence'', PInt 0), (''candidate_seen_total'', PInt 0), (''potential_saved_tokens_total'', PInt 0),
      (''average_candidate_score'', PFloat 0)]"

definition stored_candidate_stats :: "bool \<Rightarrow> SQLiteThreadWakeStorage \<Rightarrow> stats_dict \<times> SQLiteThreadWakeStorage" where
  "stored_candidate_stats ok =
     read_db ok noop_candidate_stats
       (\<lambda>db. let t = db_candidates db; scores = List.map_filter st_candidate_score (dvals t);
                 conf = (\<lambda>c. sum_cases (\<lambda>r. st_candidate_confidence r = Some c) t) in
             [(''total_candidates'', PInt (int (length t))), (''high_confidence'', conf ''high''),
              (''medium_confidence'', conf ''medium''), (''low_confidence'', conf ''low''),
              (''candidate_seen_total'', PInt (int (sum_list (map st_candidate_seen_count (dvals t))))),
              (''potential_saved_tokens_total'',
                 PInt (sum_list (List.map_filter st_potential_saved_tokens (dvals t)))),
              (''average_candidate_score'',
                 PFloat (py_round 4 (if scores = [] then 0 else sum_list scores / real (length scores))))])"

section \<open>The storage as the components see it\<close>

record 'st telemetry_store = "'st snapshot_store" +
  ts_upsert_candidate :: "candidate_entry \<Rightarrow> 'st \<Rightarrow> 'st"
  ts_upsert_material :: "SnapshotMaterialContract \<Rightarrow> 'st \<Rightarrow> 'st"
  ts_record_validation :: "SnapshotMaterialValidationResult \<Rightarrow> 'st \<Rightarrow> 'st"
  ts_stats :: "'st \<Rightarrow> (string, stats_dict) dict \<times> 'st"

definition NoOpThreadWakeStorage :: "'st telemetry_store" where
  "NoOpThreadWakeStorage =
     \<lparr>ss_upsert_manifest = (\<lambda>_ s. s), ss_upsert_artifact = (\<lambda>_ s. s), ts_upsert_candidate = (\<lambda>_ s. s),
      ts_upsert_material = (\<lambda>_ s. s), ts_record_validation = (\<lambda>_ s. s),
      ts_stats = (\<lambda>s. ([(''candidates'', noop_candidate_stats),
                       (''manifests'', noop_counts ''total_manifests'' MANIFEST_STATUSES),
                       (''artifacts'', noop_counts ''total_artifacts'' ARTIFACT_STATUSES),
                       (''materials'', noop_counts ''total_materials'' COUNTED_MATERIAL_STATUSES)], s))\<rparr>"

text \<open>\<open>_safe_stats\<close>: a null count is reported as 0.\<close>

definition safe_stats :: "stats_dict \<Rightarrow> stats_dict" where
  "safe_stats d = map (\<lambda>(k, v). (k, if v = PNone then PInt 0 else v)) d"

definition sqlite_stats :: "bool \<Rightarrow> SQLiteThreadWakeStorage \<Rightarrow> (string, stats_dict) dict \<times> SQLiteThreadWakeStorage" where
  "sqlite_stats ok db =
     (case stored_candidate_stats ok db of (c, db) \<Rightarrow>
      case snapshot_manifest_stats ok db of (m, db) \<Rightarrow>
      case snapshot_artifact_stats ok db of (a, db) \<Rightarrow>
      case snapshot_material_stats ok db of (l, db) \<Rightarrow>
        ([(''candidates'', c), (''manifests'', m), (''artifacts'', a), (''materials'', l)], db))"

definition sqlite_store :: "bool \<Rightarrow> string \<Rightarrow> string \<Rightarrow> SQLiteThreadWakeStorage telemetry_store" where
  "sqlite_store ok now event_id =
     \<lparr>ss_upsert_manifest = upsert_snapshot_manifest ok, ss_upsert_artifact = upsert_snapshot_artifact ok,
      ts_upsert_candidate = upsert_candidate ok now, ts_upsert_material = upsert_snapshot_material ok,
      ts_record_validation = record_snapshot_material_validation ok event_id, ts_stats = sqlite_stats ok\<rparr>"

section \<open>The lifecycle harness\<close>

record FakeThreadWakeLifecycleResult =
  hr_backend_capability :: string
  hr_candidate :: CandidateReplayRecord
  hr_eligibility :: "SnapshotEligibility option"
  hr_manifest :: "SnapshotManifest option"
  hr_artifact :: "SnapshotArtifact option"
  hr_material :: "SnapshotMaterialContract option"
  hr_validation :: "SnapshotMaterialValidationResult option"
  hr_stage_order :: "string list"
  hr_storage_stats :: "(string, stats_dict) dict"
  hr_validation_recorded :: bool
  hr_completed :: bool
  hr_valid :: bool
  hr_terminal_reason :: "string option"
  hr_notes :: "string list"

record 'st FakeThreadWakeLifecycleHarness =
  hn_backend_capability :: string
  hn_store :: "'st telemetry_store"
  hn_storage :: 'st
  hn_artifact_registry :: artifact_registry
  hn_policy_engine :: SnapshotPolicyEngine
  hn_validator :: SnapshotMaterialValidator

definition fake_policy :: SnapshotPolicyConfig where
  "fake_policy = default_policy\<lparr>sp_supported_backends := [''fake'']\<rparr>"

definition new_harness :: "'st telemetry_store \<Rightarrow> 'st \<Rightarrow> 'st FakeThreadWakeLifecycleHarness" where
  "new_harness store s =
     \<lparr>hn_backend_capability = KVCapability_value (ka_supports FakeKVBackend_adapter), hn_store = store, hn_storage = s,
      hn_artifact_registry = [], hn_policy_engine = new_policy_engine fake_policy, hn_validator = new_validator\<rparr>"

definition candidate_storage_entry :: "CandidateReplayRecord \<Rightarrow> SnapshotEligibility \<Rightarrow> candidate_entry" where
  "candidate_storage_entry r g =
     \<lparr>ce_prompt_prefix_hash = rr_prefix_hash r,
      ce_backend = Some (if str_true (rr_backend r) then the (rr_backend r) else ''fake''),
      ce_model_id = Some (case_option [] id (rr_model_id r)), ce_tokenizer_hash = rr_tokenizer_hash r,
      ce_chat_template_hash = rr_chat_template_hash r, ce_candidate_score = Some (rr_average_candidate_score r),
      ce_candidate_confidence = rr_confidence r, ce_potential_saved_tokens = Some (rr_potential_saved_tokens_total r),
      ce_potential_saved_ratio = Some (rr_average_potential_saved_ratio r),
      ce_selection_reason = Some (SnapshotEligibilityReason_value (sg_reason g))\<rparr>"

definition harness_result :: "string \<Rightarrow> CandidateReplayRecord \<Rightarrow> FakeThreadWakeLifecycleResult" where
  "harness_result cap r =
     \<lparr>hr_backend_capability = cap, hr_candidate = r, hr_eligibility = None, hr_manifest = None, hr_artifact = None,
      hr_material = None, hr_validation = None, hr_stage_order = [], hr_storage_stats = [],
      hr_validation_recorded = False, hr_completed = False, hr_valid = False, hr_terminal_reason = None, hr_notes = []\<rparr>"

definition with_stats ::
  "FakeThreadWakeLifecycleResult \<Rightarrow> 'st FakeThreadWakeLifecycleHarness
   \<Rightarrow> FakeThreadWakeLifecycleResult \<times> 'st FakeThreadWakeLifecycleHarness" where
  "with_stats res hn =
     (case ts_stats (hn_store hn) (hn_storage hn) of (d, s) \<Rightarrow>
        (res\<lparr>hr_storage_stats := map (\<lambda>(k, v). (k, safe_stats v)) d\<rparr>, hn\<lparr>hn_storage := s\<rparr>))"

text \<open>From an eligible candidate to the validated material.\<close>

definition harness_chain ::
  "(string \<Rightarrow> string) \<Rightarrow> string \<Rightarrow> SnapshotManifest \<Rightarrow> FakeThreadWakeLifecycleResult \<Rightarrow> 'st FakeThreadWakeLifecycleHarness
   \<Rightarrow> FakeThreadWakeLifecycleResult \<times> 'st FakeThreadWakeLifecycleHarness" where
  "harness_chain sha now m res hn =
     (let store = hn_store hn; s = ss_upsert_manifest store m (hn_storage hn);
          a = build_from_manifest sha now m; reg = register_artifact now a (hn_artifact_registry hn);
          s = ss_upsert_artifact store a s;
          material = declare_from_artifact sha now a (Some m); s = ts_upsert_material store material s in
      case validate_material (Some material) (hn_validator hn) of (v, vd) \<Rightarrow>
        let s = ts_record_validation store v s;
            hn = hn\<lparr>hn_storage := s, hn_artifact_registry := reg, hn_validator := vd\<rparr>;
            res = res\<lparr>hr_artifact := Some a, hr_material := Some material, hr_validation := Some v,
                      hr_stage_order := hr_stage_order res @ [''artifact'', ''material'', ''validation''],
                      hr_validation_recorded := True, hr_completed := True, hr_valid := mv_valid v\<rparr> in
        case with_stats res hn of (res, hn) \<Rightarrow>
          (res\<lparr>hr_notes := hr_notes res @ [if mv_valid v then ''validation_passed'' else ''validation_failed:'' @ mv_reason v]\<rparr>,
           hn))"

definition harness_run ::
  "(string \<Rightarrow> string) \<Rightarrow> snapshot_clock \<Rightarrow> string \<Rightarrow> CandidateReplayRecord \<Rightarrow> 'st FakeThreadWakeLifecycleHarness
   \<Rightarrow> FakeThreadWakeLifecycleResult \<times> 'st FakeThreadWakeLifecycleHarness" where
  "harness_run sha K now r hn =
     (let res = harness_result (hn_backend_capability hn) r; candidate = r\<lparr>rr_backend := Some ''fake''\<rparr> in
      if rr_backend r \<noteq> None \<and> rr_backend r \<noteq> Some [] \<and> rr_backend r \<noteq> Some ''fake'' then
        with_stats (res\<lparr>hr_terminal_reason := Some ''backend_not_fake'', hr_notes := [''fake_backend_required'']\<rparr>) hn
      else
        case evaluate_candidate K candidate (hn_policy_engine hn) of (g, eng) \<Rightarrow>
        let hn = hn\<lparr>hn_policy_engine := eng,
                    hn_storage := ts_upsert_candidate (hn_store hn) (candidate_storage_entry candidate g) (hn_storage hn)\<rparr>;
            res = res\<lparr>hr_candidate := candidate, hr_eligibility := Some g, hr_stage_order := [''candidate'']\<rparr>;
            reason = SnapshotEligibilityReason_value (sg_reason g) in
        if \<not> sg_eligible g then
          with_stats (res\<lparr>hr_terminal_reason := Some reason, hr_notes := [''candidate_rejected:'' @ reason]\<rparr>) hn
        else
          let res = res\<lparr>hr_stage_order := hr_stage_order res @ [''manifest'']\<rparr> in
          case build_from_replay_record sha now candidate g of
            None \<Rightarrow> with_stats (res\<lparr>hr_terminal_reason := Some ''manifest_build_failed'',
                                    hr_notes := [''manifest_build_failed'']\<rparr>) hn
          | Some m \<Rightarrow> harness_chain sha now m (res\<lparr>hr_manifest := Some m\<rparr>) hn)"

section \<open>The feasibility probe\<close>

text \<open>What the process finds of \<open>mlx_lm\<close>: its version (or that it cannot be imported), which of the four
  cache functions are callable (or that the module is missing), and whether the generation module
  mentions \<open>prompt_cache\<close> (or cannot be read).\<close>

record mlx_install =
  mi_version :: "string option"
  mi_cache_api :: "(bool \<times> bool \<times> bool \<times> bool) option"
  mi_generate_mentions :: "bool option"
  mi_exception :: string

record mlx_probe =
  mp_available :: bool
  mp_version :: "string option"
  mp_cache_api :: "bool \<times> bool \<times> bool \<times> bool"
  mp_generate_accepts :: bool
  mp_blockers :: "string list"

definition probe_mlx_prompt_cache_api :: "mlx_install \<Rightarrow> mlx_probe" where
  "probe_mlx_prompt_cache_api I =
     (let none = (False, False, False, False) in
      case mi_version I of
        None \<Rightarrow> \<lparr>mp_available = False, mp_version = None, mp_cache_api = none, mp_generate_accepts = False,
                 mp_blockers = [''mlx_lm unavailable ('' @ mi_exception I @ '')'']\<rparr>
      | Some v \<Rightarrow>
          let api = (case mi_cache_api I of None \<Rightarrow> none | Some x \<Rightarrow> x);
              b1 = (case mi_cache_api I of None \<Rightarrow> [''mlx_lm.models.cache unavailable ('' @ mi_exception I @ '')''] | Some _ \<Rightarrow> []);
              accepts = (case mi_generate_mentions I of None \<Rightarrow> False | Some x \<Rightarrow> x);
              b2 = (case mi_generate_mentions I of None \<Rightarrow> [''could not inspect mlx_lm.generate source''] | Some _ \<Rightarrow> [])
          in \<lparr>mp_available = (b1 @ b2 = [] \<and> fst api \<and> accepts), mp_version = Some v, mp_cache_api = api,
              mp_generate_accepts = accepts, mp_blockers = b1 @ b2\<rparr>)"

definition is_mlx_kv_feasible :: "mlx_install \<Rightarrow> bool" where
  "is_mlx_kv_feasible I = mp_available (probe_mlx_prompt_cache_api I)"

definition get_mlx_kv_experimental_enabled :: "environ \<Rightarrow> bool" where
  "get_mlx_kv_experimental_enabled env = env_bool env ''WHOOSHD_THREADWAKE_MLX_KV_EXPERIMENTAL'' False"

definition get_mlx_kv_feasibility_report :: "mlx_install \<Rightarrow> string" where
  "get_mlx_kv_feasibility_report I =
     (let p = probe_mlx_prompt_cache_api I in
      if mp_available p then
        ''MLX-LM '' @ case_option ''None'' id (mp_version p) @ '': prompt-cache API available. ''
        @ ''Experimental KV reuse is gated behind '' @ ''WHOOSHD_THREADWAKE_MLX_KV_EXPERIMENTAL=true.''
      else
        ''MLX-LM prompt-cache API not available: '' @ py_join '', '' (mp_blockers p) @ ''. ''
        @ ''MLX KV reuse remains unsupported.'')"

section \<open>Well-formed tables\<close>

definition keyed_by :: "('v \<Rightarrow> 'k) \<Rightarrow> ('k, 'v) dict \<Rightarrow> bool" where
  "keyed_by key table \<longleftrightarrow> dict_ok table \<and> (\<forall>k v. dget table k = Some v \<longrightarrow> key v = k)"

lemma keyed_by_upsert:
  assumes "keyed_by key table" "key fresh = k" "\<And>old. key (upd old) = key old"
  shows "keyed_by key (sql_upsert k fresh upd table)"
  using assms by (auto simp: keyed_by_def sql_upsert_def dict_simps split: option.splits)

definition db_ok :: "SQLiteThreadWakeStorage \<Rightarrow> bool" where
  "db_ok db \<longleftrightarrow>
     keyed_by st_prefix_hash (db_candidates db) \<and> keyed_by mf_manifest_id (db_manifests db)
   \<and> keyed_by sa_artifact_id (db_artifacts db) \<and> keyed_by ml_material_id (db_materials db)
   \<and> distinct (map ve_event_id (db_validations db))"

datatype storage_op =
    UpCandidate bool string candidate_entry
  | UpManifest bool SnapshotManifest
  | UpArtifact bool SnapshotArtifact
  | UpMaterial bool SnapshotMaterialContract
  | RecordValidation bool string SnapshotMaterialValidationResult
  | ReadStats bool
  | CloseDb

fun storage_step :: "storage_op \<Rightarrow> SQLiteThreadWakeStorage \<Rightarrow> SQLiteThreadWakeStorage" where
  "storage_step (UpCandidate ok now e) db = upsert_candidate ok now e db"
| "storage_step (UpManifest ok m) db = upsert_snapshot_manifest ok m db"
| "storage_step (UpArtifact ok a) db = upsert_snapshot_artifact ok a db"
| "storage_step (UpMaterial ok m) db = upsert_snapshot_material ok m db"
| "storage_step (RecordValidation ok i r) db = record_snapshot_material_validation ok i r db"
| "storage_step (ReadStats ok) db = snd (sqlite_stats ok db)"
| "storage_step CloseDb db = db_close db"

lemma db_ok_frame:
  "db_ok db \<Longrightarrow> db_ok (db_failed db)" "db_ok db \<Longrightarrow> db_ok (db_close db)"
  by (simp_all add: db_ok_def db_failed_def db_close_def)

lemma db_ok_upserts:
  "db_ok db \<Longrightarrow> db_ok (upsert_candidate ok now e db)"
  "db_ok db \<Longrightarrow> db_ok (upsert_snapshot_manifest ok m db)"
  "db_ok db \<Longrightarrow> db_ok (upsert_snapshot_artifact ok a db)"
  "db_ok db \<Longrightarrow> db_ok (upsert_snapshot_material ok l db)"
  by (auto simp: upsert_candidate_def upsert_snapshot_manifest_def upsert_snapshot_artifact_def
      upsert_snapshot_material_def db_ok_frame intro: keyed_by_upsert)
    (auto simp: db_ok_def candidate_insert_def candidate_update_def manifest_update_def artifact_update_def
      material_row_def material_update_def intro!: keyed_by_upsert)

lemma read_db_ok: "read_db ok d q db = (x, db') \<Longrightarrow> db_ok db \<Longrightarrow> db_ok db'"
  by (auto simp: read_db_def db_ok_frame split: if_splits)

lemma storage_step_ok: "db_ok db \<Longrightarrow> db_ok (storage_step op db)"
proof (cases op)
  case (ReadStats ok)
  assume "db_ok db"
  then show ?thesis
    unfolding ReadStats storage_step.simps sqlite_stats_def stored_candidate_stats_def
      snapshot_manifest_stats_def snapshot_artifact_stats_def snapshot_material_stats_def
    by (auto dest!: read_db_ok split: prod.split)
next
  case (RecordValidation ok i r)
  then show "db_ok db \<Longrightarrow> ?thesis"
    by (auto simp: record_snapshot_material_validation_def db_ok_frame) (simp add: db_ok_def)
qed (simp_all add: db_ok_upserts db_ok_frame)

interpretation storage: op_machine storage_step db_ok
  by unfold_locales (rule storage_step_ok)

interpretation noop_sink: snapshot_sink "snapshot_store.truncate NoOpThreadWakeStorage" "\<lambda>_. True"
  by unfold_locales simp_all

interpretation sqlite_sink: snapshot_sink "snapshot_store.truncate (sqlite_store ok now i)" db_ok for ok now i
  by unfold_locales (simp_all add: sqlite_store_def snapshot_store.defs db_ok_upserts)

text \<open>The storage keeps its tables keyed: from a new database, through any sequence of writes,
  reads, failing statements and a close, every row stands under its own identifier, once; and an
  analysis pass over any index that writes to it keeps that.\<close>

theorem storage_tables_keyed:
  "db_ok (fold storage_step ops (init_db ok))
   \<and> (case al_storage (snd (run_analysis L limit
            (new_loop ix (Some (snapshot_store.truncate (sqlite_store ok' now i), fold storage_step ops (init_db ok))) reg))) of
        Some (_, db) \<Rightarrow> db_ok db | None \<Rightarrow> True)"
proof -
  have start: "db_ok (init_db ok)" by (simp add: db_ok_def init_db_def keyed_by_def)
  let ?al = "new_loop ix (Some (snapshot_store.truncate (sqlite_store ok' now i), fold storage_step ops (init_db ok))) reg"
  have "sqlite_sink.sound ok' now i (al_storage ?al)"
    by (simp add: sqlite_sink.sound_def new_loop_def storage.run_inv[OF start])
  from sqlite_sink.pass_keeps_store[OF this, of L limit] storage.run_inv[OF start, of ops]
  show ?thesis by (auto simp: sqlite_sink.sound_def split: option.splits)
qed

section \<open>The history of a candidate row\<close>

type_synonym candidate_write = "bool \<times> string \<times> candidate_entry"

definition writes_of :: "string \<Rightarrow> candidate_write list \<Rightarrow> candidate_write list" where
  "writes_of h ws = filter (\<lambda>(ok, now, e). ok \<and> h \<noteq> [] \<and> ce_prompt_prefix_hash e = h) ws"

definition row_after :: "candidate_write list \<Rightarrow> stored_candidate option" where
  "row_after ws =
     (if ws = [] then None
      else case (hd ws, last ws) of
        ((_, t0, e0), (_, t1, e1)) \<Rightarrow>
          Some \<lparr>st_prefix_hash = ce_prompt_prefix_hash e0, st_backend = case_option [] id (ce_backend e0),
                st_model_id = case_option [] id (ce_model_id e0), st_tokenizer_hash = ce_tokenizer_hash e0,
                st_chat_template_hash = ce_chat_template_hash e0, st_candidate_score = ce_candidate_score e1,
                st_candidate_confidence = ce_candidate_confidence e1,
                st_potential_saved_tokens = ce_potential_saved_tokens e1,
                st_potential_saved_ratio = ce_potential_saved_ratio e1, st_candidate_seen_count = length ws,
                st_first_seen_at = t0, st_last_seen_at = t1, st_selection_reason = ce_selection_reason e1\<rparr>)"

lemma row_after_snoc:
  "row_after (ws @ [(True, now, e)]) =
     Some (case row_after ws of None \<Rightarrow> candidate_insert now e | Some row \<Rightarrow> candidate_update now e row)"
  by (cases ws) (auto simp: row_after_def candidate_insert_def candidate_update_def split: prod.split)

text \<open>A write whose commit fails is reported as an error and read back all the same.\<close>

lemma uncommitted_row_is_read:
  assumes "db_open db" and "ce_prompt_prefix_hash e \<noteq> []"
  shows "db_candidates (upsert_candidate_uncommitted now e db) = db_candidates (upsert_candidate True now e db)
   \<and> db_persistence_errors (upsert_candidate_uncommitted now e db) = db_persistence_errors db + 1
   \<and> db_upserts_total (upsert_candidate_uncommitted now e db) = db_upserts_total db"
  using assms by (simp add: upsert_candidate_uncommitted_def upsert_candidate_def db_failed_def)

text \<open>C30. What the storage holds of a candidate after any writes, some of which fail: nothing if no write
  for its prefix hash succeeded; otherwise one row that counts the successful writes, with the time,
  backend, model and hashes of the first of them and the score and time of the last.\<close>

theorem candidate_row_history:
  "dget (db_candidates (fold (\<lambda>(ok, now, e). upsert_candidate ok now e) ws (init_db True))) h = row_after (writes_of h ws)"
proof -
  have open_: "db_open (fold (\<lambda>(ok, now, e). upsert_candidate ok now e) ws (init_db True))" for ws
    by (induction ws rule: rev_induct) (auto simp: init_db_def upsert_candidate_def db_failed_def)
  show ?thesis
  proof (induction ws rule: rev_induct)
    case Nil
    then show ?case by (simp add: init_db_def writes_of_def row_after_def)
  next
    case (snoc w ws)
    obtain ok now e where w: "w = (ok, now, e)" by (cases w)
    note o = open_[of ws]
    show ?case
    proof (cases "ok \<and> h \<noteq> [] \<and> ce_prompt_prefix_hash e = h")
      case True
      then have "writes_of h (ws @ [w]) = writes_of h ws @ [(True, now, e)]" by (simp add: writes_of_def w)
      moreover have "dget (db_candidates (upsert_candidate ok now e db)) h =
          Some (case dget (db_candidates db) h of None \<Rightarrow> candidate_insert now e | Some row \<Rightarrow> candidate_update now e row)"
        if "db_open db" for db
        using True that by (simp add: upsert_candidate_def sql_upsert_def dict_simps)
      ultimately show ?thesis using snoc.IH o by (simp add: w row_after_snoc)
    next
      case False
      then have "writes_of h (ws @ [w]) = writes_of h ws" by (auto simp: writes_of_def w)
      moreover have "dget (db_candidates (upsert_candidate ok now e db)) h = dget (db_candidates db) h" for db
        using False by (auto simp: upsert_candidate_def db_failed_def sql_upsert_def dict_simps)
      ultimately show ?thesis using snoc.IH by (simp add: w)
    qed
  qed
qed

text \<open>Two models with one prefix hash share one row, which stays attributed to the first.\<close>

lemma candidate_rows_merge_models:
  assumes "ce_prompt_prefix_hash e = h" "ce_prompt_prefix_hash e' = h" "h \<noteq> []"
  shows "map_option st_model_id (row_after (writes_of h [(True, t, e), (True, t', e')])) = Some (case_option [] id (ce_model_id e))
    \<and> map_option st_candidate_seen_count (row_after (writes_of h [(True, t, e), (True, t', e')])) = Some 2"
  using assms by (simp add: writes_of_def row_after_def)

text \<open>On an empty database the statistics are null where the no-op storage reports 0.\<close>

lemma empty_stats_null:
  "dget (fst (snapshot_manifest_stats True (init_db True))) ''planned'' = Some PNone"
  "dget (fst (snapshot_manifest_stats True (init_db False))) ''planned'' = Some (PInt 0)"
  by (simp_all add: snapshot_manifest_stats_def read_db_def init_db_def sql_counts_def noop_counts_def MANIFEST_STATUSES_def
      sum_cases_def)

section \<open>The lifecycle\<close>

lemma declared_missing:
  "missing_fields (declare_from_artifact sha now (build_from_manifest sha now m) (Some m)) = [] \<longleftrightarrow>
     mf_manifest_id m \<noteq> [] \<and> mf_prefix_hash m \<noteq> [] \<and> str_true (mf_backend m) \<and> str_true (mf_model_id m)
   \<and> str_true (mf_tokenizer_hash m) \<and> str_true (mf_chat_template_hash m)"
  by (cases "mf_backend m"; cases "mf_model_id m"; cases "mf_tokenizer_hash m"; cases "mf_chat_template_hash m")
    (auto simp: missing_fields_def required_fields_def declare_from_artifact_def build_from_manifest_def
      material_id_for_def artifact_id_for_def Let_def)

lemma declared_valid:
  assumes "mf_manifest_id m \<noteq> []" "mf_backend m = Some ''fake''"
  shows "mv_valid (fst (validate_material (Some (declare_from_artifact sha now (build_from_manifest sha now m) (Some m))) vd)) \<longleftrightarrow>
     mf_prefix_hash m \<noteq> [] \<and> str_true (mf_model_id m) \<and> str_true (mf_tokenizer_hash m) \<and> str_true (mf_chat_template_hash m)"
proof -
  let ?m = "declare_from_artifact sha now (build_from_manifest sha now m) (Some m)"
  have fields: "ml_material_kind ?m = ''metadata_only''" "ml_material_status ?m = ''declared''" "ml_backend ?m = Some ''fake''"
    using assms(2) by (simp_all add: declare_from_artifact_def build_from_manifest_def)
  have "mv_valid (fst (validate_material (Some ?m) vd)) \<longleftrightarrow> missing_fields ?m = []"
    using fields
    by (simp add: validate_material_def validation_fail_def MATERIAL_KINDS_def MATERIAL_STATUSES_def Let_def split: list.split)
  then show ?thesis unfolding declared_missing using assms by simp
qed

lemma with_stats_keeps:
  "hr_completed (fst (with_stats res hn)) = hr_completed res" "hr_valid (fst (with_stats res hn)) = hr_valid res"
  "hr_stage_order (fst (with_stats res hn)) = hr_stage_order res"
  by (simp_all add: with_stats_def split: prod.split)

definition lifecycle_stages :: "string list" where
  "lifecycle_stages = [''candidate'', ''manifest'', ''artifact'', ''material'', ''validation'']"

text \<open>The lifecycle harness runs a record through every stage exactly when its backend is the fake
  one (or none) and the policy finds it worth a snapshot, stops after the candidate stage when it
  does not, and validates precisely the records that carry a prefix hash, a model and both the
  tokenizer and the template hash.\<close>

theorem lifecycle_outcome:
  "let res = fst (harness_run sha K now r hn);
       admitted = (rr_backend r \<in> {None, Some [], Some ''fake''});
       worthy = snapshot_worthy K (sx_config (hn_policy_engine hn)) (r\<lparr>rr_backend := Some ''fake''\<rparr>) in
     (hr_completed res \<longleftrightarrow> admitted \<and> worthy)
   \<and> hr_stage_order res = (if \<not> admitted then [] else if worthy then lifecycle_stages else [''candidate''])
   \<and> (hr_valid res \<longleftrightarrow> admitted \<and> worthy \<and> rr_prefix_hash r \<noteq> [] \<and> str_true (rr_model_id r)
        \<and> str_true (rr_tokenizer_hash r) \<and> str_true (rr_chat_template_hash r))"
proof (cases "rr_backend r \<in> {None, Some [], Some ''fake''}")
  case False
  then show ?thesis by (auto simp: harness_run_def harness_result_def with_stats_keeps Let_def)
next
  case True
  let ?c = "r\<lparr>rr_backend := Some ''fake''\<rparr>"
  obtain g eng where one: "evaluate_candidate K ?c (hn_policy_engine hn) = (g, eng)" by fastforce
  note v = evaluate_candidate_verdict[OF one]
  show ?thesis
  proof (cases "sg_eligible g")
    case False
    with True one v show ?thesis by (auto simp: harness_run_def harness_result_def with_stats_keeps Let_def)
  next
    case eligible: True
    obtain m where m: "build_from_replay_record sha now ?c g = Some m" "mf_manifest_id m \<noteq> []" "mf_backend m = Some ''fake''"
      "mf_prefix_hash m = rr_prefix_hash r" "mf_model_id m = rr_model_id r" "mf_tokenizer_hash m = rr_tokenizer_hash r"
      "mf_chat_template_hash m = rr_chat_template_hash r"
      using eligible by (auto simp: build_from_replay_record_def manifest_id_for_def Let_def)
    have chain: "hr_completed (fst (harness_chain sha now m res h)) \<and> hr_stage_order (fst (harness_chain sha now m res h)) =
        hr_stage_order res @ [''artifact'', ''material'', ''validation'']
      \<and> hr_valid (fst (harness_chain sha now m res h)) = mv_valid (fst (validate_material
           (Some (declare_from_artifact sha now (build_from_manifest sha now m) (Some m))) (hn_validator h)))"
      for res and h :: "'a FakeThreadWakeLifecycleHarness"
      by (simp add: harness_chain_def Let_def with_stats_def split: prod.split)
    show ?thesis
      using True eligible one v(1) m chain declared_valid[OF m(2,3)]
      by (auto simp: harness_run_def harness_result_def lifecycle_stages_def Let_def)
  qed
qed

text \<open>The probe reports the API as available only without blockers; the adapter additionally needs the flag.\<close>

lemma feasible_iff:
  "is_mlx_kv_feasible I \<longleftrightarrow>
     mi_version I \<noteq> None \<and> mi_generate_mentions I = Some True \<and> (\<exists>a b c. mi_cache_api I = Some (True, a, b, c))"
  by (auto simp: is_mlx_kv_feasible_def probe_mlx_prompt_cache_api_def Let_def split: option.split)

end
