(* ===== verification/Continuous_Scheduler.thy ===== *)
theory Continuous_Scheduler
  imports Whoosh_Prelude
begin

text \<open>
  \<open>whooshd/continuous_batching.py\<close> and \<open>whooshd/continuous_scheduler.py\<close>: the contract of
  token-level batching (request and slot states, output chunks, the three validators) and the
  scheduler that exercises it without a model. Requests are admitted, given one of a fixed number
  of slots, prefilled and decoded one chunk per tick, and may be cancelled, timed out or failed in
  between.

  The scheduler's dictionary of requests is the association list \<open>cs_requests\<close>, in insertion order,
  and its slot objects are the elements of the list \<open>cs_slots\<close>: \<open>update_first\<close> is the loop that
  changes the first slot satisfying a test and stops.
\<close>

section \<open>The contract's data\<close>

datatype ContinuousBatchingStatus = CB_UNSUPPORTED | CB_CONTRACT_ONLY | CB_EXPERIMENTAL

datatype ContinuousRequestState =
    C_ADMITTED | C_PREFILL_PENDING | C_PREFILL_RUNNING | C_DECODE_ACTIVE | C_STREAM_DRAINING
  | C_COMPLETED | C_FAILED | C_CANCELLED | C_TIMED_OUT

record ContinuousRequestHandle =
  ch_request_id :: string
  ch_model :: string
  ch_backend :: string
  ch_stream :: bool
  ch_admitted_at :: real
  ch_max_tokens :: "int option"
  ch_sampling_class :: "string option"

datatype ContinuousSlotState = SL_EMPTY | SL_RESERVED | SL_PREFILL | SL_DECODING | SL_DRAINING | SL_RELEASED | SL_FAILED

record ContinuousSlot =
  sl_slot_id :: string
  sl_state :: ContinuousSlotState
  sl_request_id :: "string option"
  sl_decode_step_index :: int

datatype ContinuousFinishReason = FR_STOP | FR_LENGTH | FR_CANCELLED | FR_TIMEOUT | FR_ERROR

record ContinuousOutputChunk =
  oc_request_id :: string
  oc_slot_id :: string
  oc_sequence_index :: int
  oc_text :: "string option"
  oc_finish_reason :: "ContinuousFinishReason option"

datatype ContinuousBatchInvariantViolation =
    DUPLICATE_SLOT_ASSIGNMENT | UNKNOWN_REQUEST_ID | TERMINAL_STATE_REENTERED | OUTPUT_DEMUX_MISMATCH
  | ACTIVE_ACCOUNTING_MISMATCH | PROMPT_LEAK | TOKEN_LEAK

section \<open>The validators\<close>

fun slot_assignment_loop ::
  "ContinuousSlot list \<Rightarrow> string list \<Rightarrow> ContinuousBatchInvariantViolation list" where
  "slot_assignment_loop [] seen = []"
| "slot_assignment_loop (slot # slots) seen =
     (case sl_request_id slot of
        None \<Rightarrow> slot_assignment_loop slots seen
      | Some rid \<Rightarrow>
          (if sl_state slot = SL_RELEASED then [DUPLICATE_SLOT_ASSIGNMENT] else [])
          @ (if rid \<in> set seen then [DUPLICATE_SLOT_ASSIGNMENT] else [])
          @ slot_assignment_loop slots (rid # seen))"

definition validate_slot_assignments :: "ContinuousSlot list \<Rightarrow> ContinuousBatchInvariantViolation list" where
  "validate_slot_assignments slots = slot_assignment_loop slots []"

definition c_terminal :: "ContinuousRequestState set" where
  "c_terminal = {C_COMPLETED, C_FAILED, C_CANCELLED, C_TIMED_OUT}"

definition validate_terminal_state_not_reentered ::
  "ContinuousRequestHandle list \<Rightarrow> (string, ContinuousRequestState) dict
   \<Rightarrow> ContinuousBatchInvariantViolation list" where
  "validate_terminal_state_not_reentered handles terminal_reasons =
     map (\<lambda>h. TERMINAL_STATE_REENTERED)
       (filter (\<lambda>h. case dget terminal_reasons (ch_request_id h) of None \<Rightarrow> False | Some r \<Rightarrow> r \<in> c_terminal) handles)"

fun output_demux_loop ::
  "string list \<Rightarrow> string list \<Rightarrow> (string, int) dict \<Rightarrow> ContinuousOutputChunk list
   \<Rightarrow> ContinuousBatchInvariantViolation list" where
  "output_demux_loop active_rids active_slots seq [] = []"
| "output_demux_loop active_rids active_slots seq (c # cs) =
     (if oc_request_id c \<notin> set active_rids then [OUTPUT_DEMUX_MISMATCH] else [])
     @ (if oc_slot_id c \<notin> set active_slots then [OUTPUT_DEMUX_MISMATCH] else [])
     @ (let prev = (case dget seq (oc_request_id c) of None \<Rightarrow> - 1 | Some p \<Rightarrow> p) in
        if oc_sequence_index c \<le> prev then [OUTPUT_DEMUX_MISMATCH] else [])
     @ output_demux_loop active_rids active_slots (dset (oc_request_id c) (oc_sequence_index c) seq) cs"

definition validate_output_demux ::
  "ContinuousOutputChunk list \<Rightarrow> string list \<Rightarrow> string list \<Rightarrow> ContinuousBatchInvariantViolation list" where
  "validate_output_demux chunks active_rids active_slots = output_demux_loop active_rids active_slots [] chunks"

section \<open>The scheduler's state\<close>

record FakeContinuousSchedulerConfig =
  max_slots :: int
  max_prefill_per_tick :: int
  max_decode_per_tick :: int
  max_decode_steps_per_request :: int

record FakeContinuousRequest =
  cr_handle :: ContinuousRequestHandle
  cr_state :: ContinuousRequestState
  cr_slot_id :: "string option"
  cr_prefill_ticks_remaining :: int
  cr_decode_steps_completed :: nat
  cr_output_chunks :: "ContinuousOutputChunk list"
  cr_finish_reason :: "ContinuousFinishReason option"

record FakeTokenLevelScheduler =
  cs_config :: FakeContinuousSchedulerConfig
  cs_requests :: "(string, FakeContinuousRequest) dict"
  cs_slots :: "ContinuousSlot list"
  cs_tick_index :: nat
  cs_pending_admission :: "string list"

definition new_request :: "ContinuousRequestHandle \<Rightarrow> FakeContinuousRequest" where
  "new_request h =
     \<lparr>cr_handle = h, cr_state = C_ADMITTED, cr_slot_id = None, cr_prefill_ticks_remaining = 1,
      cr_decode_steps_completed = 0, cr_output_chunks = [], cr_finish_reason = None\<rparr>"

definition init_slots :: "int \<Rightarrow> ContinuousSlot list" where
  "init_slots n =
     map (\<lambda>i. \<lparr>sl_slot_id = ''slot-'' @ show_nat i, sl_state = SL_EMPTY, sl_request_id = None,
               sl_decode_step_index = 0\<rparr>) [0..<nat n]"

definition new_token_scheduler :: "FakeContinuousSchedulerConfig \<Rightarrow> FakeTokenLevelScheduler" where
  "new_token_scheduler config =
     \<lparr>cs_config = config, cs_requests = [], cs_slots = init_slots (max_slots config), cs_tick_index = 0,
      cs_pending_admission = []\<rparr>"

section \<open>Admission and early ends\<close>

definition admit :: "ContinuousRequestHandle \<Rightarrow> FakeTokenLevelScheduler \<Rightarrow> FakeTokenLevelScheduler" where
  "admit h s =
     s\<lparr>cs_requests := dset (ch_request_id h) (new_request h) (cs_requests s),
       cs_pending_admission := cs_pending_admission s @ [ch_request_id h]\<rparr>"

fun update_first :: "('a \<Rightarrow> bool) \<Rightarrow> ('a \<Rightarrow> 'a) \<Rightarrow> 'a list \<Rightarrow> 'a list" where
  "update_first P f [] = []"
| "update_first P f (x # xs) = (if P x then f x # xs else x # update_first P f xs)"

definition release_slot_for :: "string \<Rightarrow> ContinuousSlot list \<Rightarrow> ContinuousSlot list" where
  "release_slot_for rid =
     update_first (\<lambda>sl. sl_request_id sl = Some rid) (\<lambda>sl. sl\<lparr>sl_state := SL_RELEASED, sl_request_id := None\<rparr>)"

text \<open>\<open>cancel\<close>, \<open>timeout\<close> and \<open>fail_request\<close> have one body each, alike but for the state and the reason.\<close>

definition end_early ::
  "ContinuousRequestState \<Rightarrow> ContinuousFinishReason \<Rightarrow> string \<Rightarrow> FakeTokenLevelScheduler
   \<Rightarrow> FakeTokenLevelScheduler" where
  "end_early st reason rid s =
     (case dget (cs_requests s) rid of
        None \<Rightarrow> s
      | Some req \<Rightarrow>
          if cr_state req \<in> c_terminal then s
          else s\<lparr>cs_requests := dset rid (req\<lparr>cr_state := st, cr_finish_reason := Some reason\<rparr>) (cs_requests s),
                 cs_slots := release_slot_for rid (cs_slots s)\<rparr>)"

definition cs_cancel :: "string \<Rightarrow> FakeTokenLevelScheduler \<Rightarrow> FakeTokenLevelScheduler" where
  "cs_cancel = end_early C_CANCELLED FR_CANCELLED"

definition cs_timeout :: "string \<Rightarrow> FakeTokenLevelScheduler \<Rightarrow> FakeTokenLevelScheduler" where
  "cs_timeout = end_early C_TIMED_OUT FR_TIMEOUT"

definition cs_fail_request :: "string \<Rightarrow> FakeTokenLevelScheduler \<Rightarrow> FakeTokenLevelScheduler" where
  "cs_fail_request = end_early C_FAILED FR_ERROR"

section \<open>One tick\<close>

definition find_empty_slot :: "ContinuousSlot list \<Rightarrow> ContinuousSlot option" where
  "find_empty_slot = find (\<lambda>sl. sl_state sl = SL_EMPTY)"

definition reserve_slot :: "string \<Rightarrow> ContinuousSlot list \<Rightarrow> ContinuousSlot list" where
  "reserve_slot rid =
     update_first (\<lambda>sl. sl_state sl = SL_EMPTY) (\<lambda>sl. sl\<lparr>sl_state := SL_RESERVED, sl_request_id := Some rid\<rparr>)"

text \<open>The loop runs over a copy of the pending list and returns at the first request without a slot.\<close>

fun admission_loop :: "string list \<Rightarrow> FakeTokenLevelScheduler \<Rightarrow> FakeTokenLevelScheduler" where
  "admission_loop [] s = s"
| "admission_loop (rid # rids) s =
     (let drop_it = s\<lparr>cs_pending_admission := remove1 rid (cs_pending_admission s)\<rparr> in
      case dget (cs_requests s) rid of
        None \<Rightarrow> admission_loop rids drop_it
      | Some req \<Rightarrow>
          if cr_state req \<noteq> C_ADMITTED then admission_loop rids drop_it
          else
            case find_empty_slot (cs_slots s) of
              None \<Rightarrow> s
            | Some sl \<Rightarrow>
                admission_loop rids
                  (drop_it\<lparr>cs_requests :=
                             dset rid (req\<lparr>cr_state := C_PREFILL_PENDING, cr_slot_id := Some (sl_slot_id sl)\<rparr>)
                               (cs_requests s),
                           cs_slots := reserve_slot rid (cs_slots s)\<rparr>))"

definition process_admission :: "FakeTokenLevelScheduler \<Rightarrow> FakeTokenLevelScheduler" where
  "process_admission s = admission_loop (cs_pending_admission s) s"

text \<open>\<open>_update_slot_state\<close> has an empty body: no slot changes its state here.\<close>

fun prefill_loop ::
  "int \<Rightarrow> int \<Rightarrow> (string, FakeContinuousRequest) dict \<Rightarrow> (string, FakeContinuousRequest) dict" where
  "prefill_loop limit n [] = []"
| "prefill_loop limit n ((rid, req) # reqs) =
     (if n \<ge> limit then (rid, req) # reqs
      else if cr_state req = C_PREFILL_PENDING then
        (rid, req\<lparr>cr_state := C_PREFILL_RUNNING\<rparr>) # prefill_loop limit (n + 1) reqs
      else if cr_state req = C_PREFILL_RUNNING then
        (let left = cr_prefill_ticks_remaining req - 1; req' = req\<lparr>cr_prefill_ticks_remaining := left\<rparr> in
         (rid, if left \<le> 0 then req'\<lparr>cr_state := C_DECODE_ACTIVE\<rparr> else req') # prefill_loop limit n reqs)
      else (rid, req) # prefill_loop limit n reqs)"

definition process_prefill :: "FakeTokenLevelScheduler \<Rightarrow> FakeTokenLevelScheduler" where
  "process_prefill s =
     s\<lparr>cs_requests := prefill_loop (max_prefill_per_tick (cs_config s)) 0 (cs_requests s)\<rparr>"

definition output_chunk :: "FakeContinuousRequest \<Rightarrow> nat \<Rightarrow> ContinuousOutputChunk" where
  "output_chunk req seq =
     \<lparr>oc_request_id = ch_request_id (cr_handle req),
      oc_slot_id = (case cr_slot_id req of None \<Rightarrow> [] | Some i \<Rightarrow> i), oc_sequence_index = int seq,
      oc_text = Some (ch_request_id (cr_handle req) @ ''_s'' @ show_nat seq), oc_finish_reason = None\<rparr>"

text \<open>The active requests are collected before the loop; as each turn changes only its own request,
  the loop is one pass that skips the others.\<close>

fun decode_loop ::
  "int \<Rightarrow> int \<Rightarrow> int \<Rightarrow> (string, FakeContinuousRequest) dict \<Rightarrow> (string, FakeContinuousRequest) dict" where
  "decode_loop limit max_steps n [] = []"
| "decode_loop limit max_steps n ((rid, req) # reqs) =
     (if cr_state req \<noteq> C_DECODE_ACTIVE then (rid, req) # decode_loop limit max_steps n reqs
      else if n \<ge> limit then (rid, req) # reqs
      else if int (cr_decode_steps_completed req) \<ge> max_steps then
        (rid, req\<lparr>cr_state := C_STREAM_DRAINING, cr_finish_reason := Some FR_STOP\<rparr>)
          # decode_loop limit max_steps n reqs
      else
        (rid, req\<lparr>cr_output_chunks := cr_output_chunks req @ [output_chunk req (cr_decode_steps_completed req)],
                  cr_decode_steps_completed := cr_decode_steps_completed req + 1\<rparr>)
          # decode_loop limit max_steps (n + 1) reqs)"

definition process_decode :: "FakeTokenLevelScheduler \<Rightarrow> FakeTokenLevelScheduler" where
  "process_decode s =
     s\<lparr>cs_requests :=
         decode_loop (max_decode_per_tick (cs_config s)) (max_decode_steps_per_request (cs_config s)) 0
           (cs_requests s)\<rparr>"

fun drain_loop ::
  "(string, FakeContinuousRequest) dict \<Rightarrow> ContinuousSlot list
   \<Rightarrow> (string, FakeContinuousRequest) dict \<times> ContinuousSlot list" where
  "drain_loop [] slots = ([], slots)"
| "drain_loop ((rid, req) # reqs) slots =
     (if cr_state req = C_STREAM_DRAINING then
        let slots' = update_first (\<lambda>sl. Some (sl_slot_id sl) = cr_slot_id req) (\<lambda>sl. sl\<lparr>sl_request_id := None\<rparr>) slots;
            (reqs', slots'') = drain_loop reqs slots'
        in ((rid, req\<lparr>cr_state := C_COMPLETED\<rparr>) # reqs', slots'')
      else
        let (reqs', slots') = drain_loop reqs slots in ((rid, req) # reqs', slots'))"

definition process_drain :: "FakeTokenLevelScheduler \<Rightarrow> FakeTokenLevelScheduler" where
  "process_drain s =
     (let (reqs, slots) = drain_loop (cs_requests s) (cs_slots s)
      in s\<lparr>cs_requests := reqs, cs_slots := slots\<rparr>)"

definition cs_tick :: "FakeTokenLevelScheduler \<Rightarrow> FakeTokenLevelScheduler" where
  "cs_tick s =
     process_drain (process_decode (process_prefill (process_admission
       (s\<lparr>cs_tick_index := cs_tick_index s + 1\<rparr>))))"

section \<open>Output, snapshot, validation\<close>

definition drain_outputs ::
  "string \<Rightarrow> FakeTokenLevelScheduler \<Rightarrow> ContinuousOutputChunk list \<times> FakeTokenLevelScheduler" where
  "drain_outputs rid s =
     (case dget (cs_requests s) rid of
        None \<Rightarrow> ([], s)
      | Some req \<Rightarrow>
          (cr_output_chunks req, s\<lparr>cs_requests := dset rid (req\<lparr>cr_output_chunks := []\<rparr>) (cs_requests s)\<rparr>))"

record FakeContinuousSchedulerSnapshot =
  ss_status :: ContinuousBatchingStatus
  ss_admitted_count :: nat
  ss_prefill_pending_count :: nat
  ss_prefill_running_count :: nat
  ss_decode_active_count :: nat
  ss_stream_draining_count :: nat
  ss_completed_count :: nat
  ss_failed_count :: nat
  ss_cancelled_count :: nat
  ss_timed_out_count :: nat
  ss_active_slot_count :: nat
  ss_free_slot_count :: nat
  ss_tick_index :: nat

definition cs_snapshot :: "FakeTokenLevelScheduler \<Rightarrow> FakeContinuousSchedulerSnapshot" where
  "cs_snapshot s =
     (let count = (\<lambda>st. dcount (\<lambda>r. cr_state r = st) (cs_requests s)) in
      \<lparr>ss_status = CB_CONTRACT_ONLY, ss_admitted_count = length (cs_requests s),
       ss_prefill_pending_count = count C_PREFILL_PENDING, ss_prefill_running_count = count C_PREFILL_RUNNING,
       ss_decode_active_count = count C_DECODE_ACTIVE, ss_stream_draining_count = count C_STREAM_DRAINING,
       ss_completed_count = count C_COMPLETED, ss_failed_count = count C_FAILED,
       ss_cancelled_count = count C_CANCELLED, ss_timed_out_count = count C_TIMED_OUT,
       ss_active_slot_count =
         length (filter (\<lambda>sl. sl_state sl \<notin> {SL_EMPTY, SL_RELEASED, SL_FAILED}) (cs_slots s)),
       ss_free_slot_count = length (filter (\<lambda>sl. sl_state sl = SL_EMPTY) (cs_slots s)),
       ss_tick_index = cs_tick_index s\<rparr>)"

definition cs_validate :: "FakeTokenLevelScheduler \<Rightarrow> ContinuousBatchInvariantViolation list" where
  "cs_validate s =
     (let live = filter (\<lambda>r. cr_state r \<notin> c_terminal) (dvals (cs_requests s));
          ended = filter (\<lambda>r. cr_state r \<in> c_terminal) (dvals (cs_requests s));
          active_slot_ids = concat (map (\<lambda>r. case cr_slot_id r of None \<Rightarrow> [] | Some i \<Rightarrow> if i = [] then [] else [i]) live);
          terminal_reasons = fold (\<lambda>r. dset (ch_request_id (cr_handle r)) (cr_state r)) ended [];
          handles = map cr_handle live
      in validate_slot_assignments (cs_slots s)
         @ validate_terminal_state_not_reentered handles terminal_reasons
         @ validate_output_demux (concat (map cr_output_chunks (dvals (cs_requests s))))
             (map ch_request_id handles) active_slot_ids)"

section \<open>The life of one request\<close>

text \<open>Everything but a new admission and the reading of outputs moves a request along these steps.\<close>

inductive req_step :: "int \<Rightarrow> FakeContinuousRequest \<Rightarrow> FakeContinuousRequest \<Rightarrow> bool" for M where
  reserve: "cr_state r = C_ADMITTED \<Longrightarrow>
     req_step M r (r\<lparr>cr_state := C_PREFILL_PENDING, cr_slot_id := Some i\<rparr>)"
| start: "cr_state r = C_PREFILL_PENDING \<Longrightarrow> req_step M r (r\<lparr>cr_state := C_PREFILL_RUNNING\<rparr>)"
| prefill: "cr_state r = C_PREFILL_RUNNING \<Longrightarrow> 1 < cr_prefill_ticks_remaining r \<Longrightarrow>
     req_step M r (r\<lparr>cr_prefill_ticks_remaining := cr_prefill_ticks_remaining r - 1\<rparr>)"
| prefilled: "cr_state r = C_PREFILL_RUNNING \<Longrightarrow> cr_prefill_ticks_remaining r \<le> 1 \<Longrightarrow>
     req_step M r (r\<lparr>cr_prefill_ticks_remaining := cr_prefill_ticks_remaining r - 1, cr_state := C_DECODE_ACTIVE\<rparr>)"
| decode: "cr_state r = C_DECODE_ACTIVE \<Longrightarrow> int (cr_decode_steps_completed r) < M \<Longrightarrow>
     req_step M r
       (r\<lparr>cr_output_chunks := cr_output_chunks r @ [output_chunk r (cr_decode_steps_completed r)],
          cr_decode_steps_completed := cr_decode_steps_completed r + 1\<rparr>)"
| decoded: "cr_state r = C_DECODE_ACTIVE \<Longrightarrow> M \<le> int (cr_decode_steps_completed r) \<Longrightarrow>
     req_step M r (r\<lparr>cr_state := C_STREAM_DRAINING, cr_finish_reason := Some FR_STOP\<rparr>)"
| complete: "cr_state r = C_STREAM_DRAINING \<Longrightarrow> req_step M r (r\<lparr>cr_state := C_COMPLETED\<rparr>)"
| early: "cr_state r \<notin> c_terminal \<Longrightarrow> st \<in> {C_CANCELLED, C_TIMED_OUT, C_FAILED} \<Longrightarrow>
     req_step M r (r\<lparr>cr_state := st, cr_finish_reason := Some reason\<rparr>)"

lemma list_all_dset: "list_all P d \<Longrightarrow> P (k, v) \<Longrightarrow> list_all P (dset k v d)"
  by (induction d) auto

lemma list_all_dget: "list_all P d \<Longrightarrow> dget d k = Some v \<Longrightarrow> P (k, v)"
  by (auto simp: list_all_iff dest: map_of_SomeD)

lemmas cs_phase_defs = process_admission_def process_prefill_def process_decode_def

lemma process_drain_simps [simp]:
  "cs_config (process_drain s) = cs_config s"
  "cs_requests (process_drain s) = fst (drain_loop (cs_requests s) (cs_slots s))"
  "cs_slots (process_drain s) = snd (drain_loop (cs_requests s) (cs_slots s))"
  by (simp_all add: process_drain_def Let_def case_prod_beta')

lemma admission_loop_config: "cs_config (admission_loop rids s) = cs_config s"
  by (induction rids s rule: admission_loop.induct) (simp_all add: Let_def split: option.split)

lemma tick_config: "cs_config (cs_tick s) = cs_config s"
  by (simp add: cs_tick_def cs_phase_defs admission_loop_config)

locale request_property =
  fixes M :: int and Q :: "string \<Rightarrow> FakeContinuousRequest \<Rightarrow> bool"
  assumes step: "req_step M r r' \<Longrightarrow> Q k r \<Longrightarrow> Q k r'"
begin

lemma on_prefill: "list_all (case_prod Q) reqs \<Longrightarrow> list_all (case_prod Q) (prefill_loop limit n reqs)"
  by (induction limit n reqs rule: prefill_loop.induct)
    (auto simp: Let_def intro: step[OF start] step[OF prefill] step[OF prefilled])

lemma on_decode: "list_all (case_prod Q) reqs \<Longrightarrow> list_all (case_prod Q) (decode_loop limit M n reqs)"
proof (induction reqs arbitrary: n)
  case (Cons kr reqs)
  obtain k r where kr: "kr = (k, r)" by (cases kr)
  show ?case
    using Cons step[OF decode, of r k] step[OF decoded, of r k] by (simp add: kr not_le)
qed simp

lemma on_drain: "list_all (case_prod Q) reqs \<Longrightarrow> list_all (case_prod Q) (fst (drain_loop reqs slots))"
  by (induction reqs slots rule: drain_loop.induct)
    (auto simp: Let_def case_prod_beta' intro: step[OF complete])

lemma on_admission:
  "list_all (case_prod Q) (cs_requests s) \<Longrightarrow> list_all (case_prod Q) (cs_requests (admission_loop rids s))"
proof (induction rids s rule: admission_loop.induct)
  case (2 rid rids s)
  have "Q rid (r\<lparr>cr_state := C_PREFILL_PENDING, cr_slot_id := Some i\<rparr>)"
    if "dget (cs_requests s) rid = Some r" "cr_state r = C_ADMITTED" for r i
    using step[OF reserve[OF that(2)]] list_all_dget[OF 2(4) that(1)] by simp
  then show ?case
    using 2 by (simp add: Let_def list_all_dset split: option.split)
qed simp

lemma on_tick:
  "max_decode_steps_per_request (cs_config s) = M \<Longrightarrow> list_all (case_prod Q) (cs_requests s) \<Longrightarrow>
   list_all (case_prod Q) (cs_requests (cs_tick s))"
  by (simp add: cs_tick_def cs_phase_defs admission_loop_config on_drain on_decode on_prefill on_admission)

lemma on_end:
  "st \<in> {C_CANCELLED, C_TIMED_OUT, C_FAILED} \<Longrightarrow> list_all (case_prod Q) (cs_requests s) \<Longrightarrow>
   list_all (case_prod Q) (cs_requests (end_early st reason rid s))"
  by (auto simp: end_early_def dest: list_all_dget intro!: list_all_dset intro: step[OF early] split: option.splits)

end

section \<open>The scheduler as a machine\<close>

datatype cs_op =
    CAdmit ContinuousRequestHandle
  | CCancel string
  | CTimeout string
  | CFail string
  | CTick
  | CDrain string

fun cs_step :: "cs_op \<Rightarrow> FakeTokenLevelScheduler \<Rightarrow> FakeTokenLevelScheduler" where
  "cs_step (CAdmit h) s = admit h s"
| "cs_step (CCancel rid) s = cs_cancel rid s"
| "cs_step (CTimeout rid) s = cs_timeout rid s"
| "cs_step (CFail rid) s = cs_fail_request rid s"
| "cs_step CTick s = cs_tick s"
| "cs_step (CDrain rid) s = snd (drain_outputs rid s)"

lemmas end_defs = cs_cancel_def cs_timeout_def cs_fail_request_def

lemma end_early_config: "cs_config (end_early st reason rid s) = cs_config s"
  by (simp add: end_early_def split: option.split)

lemma cs_step_config: "cs_config (cs_step op s) = cs_config s"
  by (cases op) (simp_all add: admit_def end_defs end_early_config tick_config drain_outputs_def split: option.split)

definition req_ok :: "int \<Rightarrow> string \<Rightarrow> FakeContinuousRequest \<Rightarrow> bool" where
  "req_ok M rid r \<longleftrightarrow>
     ch_request_id (cr_handle r) = rid \<and> int (cr_decode_steps_completed r) \<le> max 0 M
   \<and> (cr_state r \<in> {C_ADMITTED, C_PREFILL_PENDING, C_PREFILL_RUNNING} \<longrightarrow> 1 \<le> cr_prefill_ticks_remaining r)
   \<and> (cr_state r \<in> {C_STREAM_DRAINING, C_COMPLETED} \<longrightarrow> M \<le> int (cr_decode_steps_completed r))
   \<and> (cr_state r = C_ADMITTED \<longleftrightarrow> cr_slot_id r = None \<and> cr_state r \<notin> c_terminal)
   \<and> (cr_state r = C_COMPLETED \<longrightarrow> cr_slot_id r \<noteq> None)"

interpretation rok: request_property M "req_ok M" for M
proof
  fix r r' k
  assume "req_step M r r'" "req_ok M k r"
  then show "req_ok M k r'" by (cases rule: req_step.cases) (auto simp: req_ok_def c_terminal_def)
qed

definition used_slots :: "ContinuousSlot list \<Rightarrow> nat" where
  "used_slots slots = length (filter (\<lambda>sl. sl_state sl \<noteq> SL_EMPTY) slots)"

definition slotted :: "FakeContinuousRequest \<Rightarrow> bool" where
  "slotted r \<longleftrightarrow> cr_slot_id r \<noteq> None"

lemma slotted_update [simp]:
  "slotted (r\<lparr>cr_state := st\<rparr>) = slotted r" "slotted (r\<lparr>cr_finish_reason := f\<rparr>) = slotted r"
  "slotted (r\<lparr>cr_prefill_ticks_remaining := t\<rparr>) = slotted r" "slotted (r\<lparr>cr_output_chunks := cs\<rparr>) = slotted r"
  "slotted (r\<lparr>cr_decode_steps_completed := d\<rparr>) = slotted r" "slotted (r\<lparr>cr_slot_id := Some i\<rparr>)"
  "\<not> slotted (new_request h)"
  by (simp_all add: slotted_def new_request_def)

definition sched_ok :: "FakeTokenLevelScheduler \<Rightarrow> bool" where
  "sched_ok s \<longleftrightarrow>
     dict_ok (cs_requests s)
   \<and> list_all (\<lambda>(k, r). req_ok (max_decode_steps_per_request (cs_config s)) k r) (cs_requests s)
   \<and> list_all (\<lambda>(k, r). cr_state r \<noteq> C_STREAM_DRAINING) (cs_requests s)
   \<and> length (cs_slots s) = nat (max_slots (cs_config s))
   \<and> dcount slotted (cs_requests s) \<le> used_slots (cs_slots s)"

text \<open>Keys and slots through the phases of a tick.\<close>

lemma dcount_mono: "list_all (\<lambda>(k, v). P v \<longrightarrow> Q v) d \<Longrightarrow> dcount P d \<le> dcount Q d"
  by (induction d) (auto simp: case_prod_beta')

lemma dkeys_prefill_loop [simp]: "dkeys (prefill_loop limit n reqs) = dkeys reqs"
  by (induction limit n reqs rule: prefill_loop.induct) (simp_all add: Let_def)

lemma dkeys_decode_loop [simp]: "dkeys (decode_loop limit M n reqs) = dkeys reqs"
  by (induction limit M n reqs rule: decode_loop.induct) simp_all

lemma dkeys_drain_loop [simp]: "dkeys (fst (drain_loop reqs slots)) = dkeys reqs"
  by (induction reqs slots rule: drain_loop.induct) (simp_all add: Let_def case_prod_beta')

lemma dcount_prefill_loop [simp]:
  "dcount slotted (prefill_loop limit n reqs) = dcount slotted reqs"
  by (induction limit n reqs rule: prefill_loop.induct) (simp_all add: Let_def)

lemma dcount_decode_loop [simp]:
  "dcount slotted (decode_loop limit M n reqs) = dcount slotted reqs"
  by (induction limit M n reqs rule: decode_loop.induct) simp_all

lemma dcount_drain_loop [simp]:
  "dcount slotted (fst (drain_loop reqs slots)) = dcount slotted reqs"
  by (induction reqs arbitrary: slots) (auto simp: Let_def case_prod_beta')

lemma length_update_first [simp]: "length (update_first P f xs) = length xs"
  by (induction xs) simp_all

lemma length_slot_updates [simp]:
  "length (reserve_slot rid slots) = length slots" "length (release_slot_for rid slots) = length slots"
  by (simp_all add: reserve_slot_def release_slot_for_def)

lemma used_update_first:
  "(\<And>sl. sl_state sl \<noteq> SL_EMPTY \<Longrightarrow> sl_state (f sl) \<noteq> SL_EMPTY) \<Longrightarrow> used_slots slots \<le> used_slots (update_first P f slots)"
  by (induction slots) (auto simp: used_slots_def)

lemma used_slots_drain: "used_slots slots \<le> used_slots (snd (drain_loop reqs slots))"
proof (induction reqs slots rule: drain_loop.induct)
  case (2 rid req reqs slots)
  let ?upd = "update_first (\<lambda>sl. Some (sl_slot_id sl) = cr_slot_id req) (\<lambda>sl. sl\<lparr>sl_request_id := None\<rparr>) slots"
  have "used_slots slots \<le> used_slots ?upd" by (rule used_update_first) simp
  then show ?case using 2 by (auto simp: Let_def case_prod_beta' intro: order_trans)
qed simp

lemma length_slots_drain [simp]: "length (snd (drain_loop reqs slots)) = length slots"
  by (induction reqs slots rule: drain_loop.induct) (simp_all add: Let_def case_prod_beta')

lemma used_reserve: "find_empty_slot slots = Some sl \<Longrightarrow> used_slots (reserve_slot rid slots) = Suc (used_slots slots)"
  by (induction slots) (auto simp: find_empty_slot_def reserve_slot_def used_slots_def split: if_splits)

lemma no_draining_after: "list_all (\<lambda>(k, r). cr_state r \<noteq> C_STREAM_DRAINING) (fst (drain_loop reqs slots))"
  by (induction reqs slots rule: drain_loop.induct) (auto simp: Let_def case_prod_beta')

lemma admission_slots:
  assumes "dict_ok (cs_requests s)" "list_all (\<lambda>(k, r). req_ok M k r) (cs_requests s)"
    and "dcount slotted (cs_requests s) \<le> used_slots (cs_slots s)"
  shows "dict_ok (cs_requests (admission_loop rids s)) \<and>
    length (cs_slots (admission_loop rids s)) = length (cs_slots s) \<and>
    dcount slotted (cs_requests (admission_loop rids s)) \<le> used_slots (cs_slots (admission_loop rids s))"
  using assms
proof (induction rids s rule: admission_loop.induct)
  case (2 rid rids s)
  let ?drop = "s\<lparr>cs_pending_admission := remove1 rid (cs_pending_admission s)\<rparr>"
  show ?case
  proof (cases "dget (cs_requests s) rid")
    case None
    then show ?thesis using 2 by (simp add: Let_def)
  next
    case (Some r)
    let ?r = "\<lambda>sl. r\<lparr>cr_state := C_PREFILL_PENDING, cr_slot_id := Some (sl_slot_id sl)\<rparr>"
    have ok: "req_ok M rid (?r sl)" if "cr_state r = C_ADMITTED" for sl
      using rok.step[OF reserve[OF that]] list_all_dget[OF 2(5) Some] by simp
    have le: "dcount slotted (dset rid (?r sl) (cs_requests s)) \<le> Suc (dcount slotted (cs_requests s))" for sl
      using dcount_dset[OF 2(4) Some, of slotted "?r sl"] by simp
    consider "cr_state r \<noteq> C_ADMITTED" | "cr_state r = C_ADMITTED" "find_empty_slot (cs_slots s) = None"
      | sl where "cr_state r = C_ADMITTED" "find_empty_slot (cs_slots s) = Some sl" by fastforce
    then show ?thesis
    proof cases
      case 1
      then show ?thesis using 2(2)[OF refl Some 1] 2(4-) Some by (simp add: Let_def)
    next
      case empty: 2
      then show ?thesis using 2(4-) Some by simp
    next
      case (3 sl)
      let ?s = "?drop\<lparr>cs_requests := dset rid (?r sl) (cs_requests s), cs_slots := reserve_slot rid (cs_slots s)\<rparr>"
      have "dcount slotted (cs_requests ?s) \<le> used_slots (cs_slots ?s)"
        using le[of sl] 2(6) used_reserve[OF 3(2), of rid] by simp
      moreover have "list_all (\<lambda>(k, r). req_ok M k r) (cs_requests ?s)"
        using 2(5) ok 3 by (auto intro!: list_all_dset)
      ultimately show ?thesis using 2(3)[OF refl Some _ 3(2)] 2(4) Some 3 by (simp add: Let_def)
    qed
  qed
qed simp

lemma tick_ok: assumes "sched_ok s" shows "sched_ok (cs_tick s)"
proof -
  let ?M = "max_decode_steps_per_request (cs_config s)"
  let ?s0 = "s\<lparr>cs_tick_index := cs_tick_index s + 1\<rparr>"
  let ?s1 = "admission_loop (cs_pending_admission s) ?s0"
  have adm: "dict_ok (cs_requests ?s1) \<and> length (cs_slots ?s1) = length (cs_slots s) \<and>
      dcount slotted (cs_requests ?s1) \<le> used_slots (cs_slots ?s1)"
    using admission_slots[of ?s0 ?M "cs_pending_admission s"] assms by (simp add: sched_ok_def)
  moreover have "list_all (\<lambda>(k, r). req_ok ?M k r) (cs_requests (cs_tick s))"
    using rok.on_tick[OF refl, of s] assms by (simp add: sched_ok_def)
  ultimately show ?thesis
    using assms used_slots_drain[of "cs_slots ?s1"]
    by (simp add: sched_ok_def no_draining_after cs_tick_def cs_phase_defs admission_loop_config)
      (meson order_trans)
qed

lemma used_slots_release: "used_slots slots \<le> used_slots (release_slot_for rid slots)"
  unfolding release_slot_for_def by (rule used_update_first) simp

lemma end_early_ok:
  assumes "sched_ok s" "st \<in> {C_CANCELLED, C_TIMED_OUT, C_FAILED}"
  shows "sched_ok (end_early st reason rid s)"
proof (cases "dget (cs_requests s) rid")
  case (Some r)
  have "dcount slotted (cs_requests (end_early st reason rid s)) \<le> used_slots (cs_slots (end_early st reason rid s))"
    using Some assms dcount_dset[of "cs_requests s" rid r slotted "r\<lparr>cr_state := st, cr_finish_reason := Some reason\<rparr>"]
      used_slots_release[of "cs_slots s" rid]
    by (simp add: sched_ok_def end_early_def split: if_splits)
  moreover have "list_all (\<lambda>(k, r). cr_state r \<noteq> C_STREAM_DRAINING) (cs_requests (end_early st reason rid s))"
    using assms Some by (auto simp: sched_ok_def end_early_def intro!: list_all_dset)
  moreover have "dict_ok (cs_requests (end_early st reason rid s))"
    "length (cs_slots (end_early st reason rid s)) = length (cs_slots s)"
    using assms(1) Some by (simp_all add: end_early_def sched_ok_def)
  ultimately show ?thesis
    using assms rok.on_end[OF assms(2)] by (simp add: sched_ok_def end_early_config)
qed (use assms in \<open>simp add: end_early_def\<close>)

lemma admit_ok: assumes "sched_ok s" shows "sched_ok (admit h s)"
proof -
  let ?k = "ch_request_id h"
  have "dcount slotted (dset ?k (new_request h) (cs_requests s)) \<le> dcount slotted (cs_requests s)"
    using assms dcount_dset[of "cs_requests s" ?k _ slotted "new_request h"]
    by (cases "dget (cs_requests s) ?k")
      (fastforce simp: sched_ok_def dcount_dset_fresh map_of_eq_None_iff split: if_splits)+
  moreover have "req_ok M ?k (new_request h)" for M by (simp add: req_ok_def new_request_def c_terminal_def)
  ultimately show ?thesis
    using assms by (auto simp: sched_ok_def admit_def new_request_def[THEN arg_cong[where f = cr_state]] intro!: list_all_dset)
qed

lemma sched_ok_dget:
  assumes "sched_ok s" "dget (cs_requests s) k = Some r"
  shows "req_ok (max_decode_steps_per_request (cs_config s)) k r" "cr_state r \<noteq> C_STREAM_DRAINING"
proof -
  have "list_all (\<lambda>(k, r). req_ok (max_decode_steps_per_request (cs_config s)) k r) (cs_requests s)"
    "list_all (\<lambda>(k, r). cr_state r \<noteq> C_STREAM_DRAINING) (cs_requests s)"
    using assms(1) by (simp_all add: sched_ok_def)
  from this[THEN list_all_dget, OF assms(2)]
  show "req_ok (max_decode_steps_per_request (cs_config s)) k r" "cr_state r \<noteq> C_STREAM_DRAINING" by simp_all
qed

lemma drain_outputs_ok: assumes "sched_ok s" shows "sched_ok (snd (drain_outputs rid s))"
proof (cases "dget (cs_requests s) rid")
  case (Some r)
  let ?r = "r\<lparr>cr_output_chunks := []\<rparr>"
  have "req_ok (max_decode_steps_per_request (cs_config s)) rid ?r" "cr_state r \<noteq> C_STREAM_DRAINING"
    using sched_ok_dget[OF assms Some] by (simp_all add: req_ok_def)
  then show ?thesis
    using assms Some dcount_dset[of "cs_requests s" rid r slotted ?r]
    by (simp add: sched_ok_def drain_outputs_def list_all_dset split: if_splits)
qed (use assms in \<open>simp add: drain_outputs_def\<close>)

lemma cs_step_ok: "sched_ok s \<Longrightarrow> sched_ok (cs_step op s)"
  by (cases op) (simp_all add: end_defs admit_ok end_early_ok tick_ok drain_outputs_ok)

interpretation csm: op_machine cs_step sched_ok
  by unfold_locales (rule cs_step_ok)

lemma new_token_scheduler_ok: "sched_ok (new_token_scheduler c)"
  by (simp add: sched_ok_def new_token_scheduler_def init_slots_def)

lemma run_config: "cs_config (fold cs_step ops s) = cs_config s"
  by (induction ops arbitrary: s) (simp_all add: cs_step_config)

section \<open>Outputs\<close>

text \<open>\<open>out\<close> has been read from the request so far: with the chunks not yet read it is the numbered
  sequence of the chunks produced.\<close>

definition out_ok :: "ContinuousOutputChunk list \<Rightarrow> FakeContinuousRequest \<Rightarrow> bool" where
  "out_ok out r \<longleftrightarrow>
     out @ cr_output_chunks r = map (output_chunk r) [0..<cr_decode_steps_completed r]
   \<and> (cr_state r = C_ADMITTED \<longrightarrow> cr_decode_steps_completed r = 0)"

lemma output_chunk_update [simp]:
  "output_chunk (r\<lparr>cr_state := st\<rparr>) = output_chunk r" "output_chunk (r\<lparr>cr_finish_reason := f\<rparr>) = output_chunk r"
  "output_chunk (r\<lparr>cr_prefill_ticks_remaining := t\<rparr>) = output_chunk r"
  "output_chunk (r\<lparr>cr_output_chunks := cs\<rparr>) = output_chunk r"
  "output_chunk (r\<lparr>cr_decode_steps_completed := d\<rparr>) = output_chunk r"
  by (rule ext, simp add: output_chunk_def)+

interpretation rout: request_property M "\<lambda>k r. k = rid \<longrightarrow> out_ok out r" for M rid out
proof
  fix r r' k
  assume "req_step M r r'" "k = rid \<longrightarrow> out_ok out r"
  then show "k = rid \<longrightarrow> out_ok out r'"
    by (cases rule: req_step.cases) (auto simp: out_ok_def c_terminal_def)
qed

fun admits :: "string \<Rightarrow> cs_op \<Rightarrow> bool" where
  "admits rid (CAdmit h) = (ch_request_id h = rid)"
| "admits rid _ = False"

definition read_by :: "string \<Rightarrow> cs_op \<Rightarrow> FakeTokenLevelScheduler \<Rightarrow> ContinuousOutputChunk list" where
  "read_by rid op s = (if op = CDrain rid then fst (drain_outputs rid s) else [])"

text \<open>What the caller has read of a request's output along a run.\<close>

fun drained :: "string \<Rightarrow> cs_op list \<Rightarrow> FakeTokenLevelScheduler \<Rightarrow> ContinuousOutputChunk list" where
  "drained rid [] s = []"
| "drained rid (op # ops) s = read_by rid op s @ drained rid ops (cs_step op s)"

definition outs_ok :: "string \<Rightarrow> ContinuousOutputChunk list \<Rightarrow> FakeTokenLevelScheduler \<Rightarrow> bool" where
  "outs_ok rid out s \<longleftrightarrow>
     (case dget (cs_requests s) rid of None \<Rightarrow> out = [] | Some r \<Rightarrow> out_ok out r)"

lemma list_all_key_iff:
  "dict_ok d \<Longrightarrow> list_all (\<lambda>(k, r). k = j \<longrightarrow> P r) d \<longleftrightarrow> (\<forall>r. dget d j = Some r \<longrightarrow> P r)"
  by (fastforce simp: list_all_iff map_of_eq_Some_iff)

lemma dkeys_dset_get: "dget d k = Some v \<Longrightarrow> dkeys (dset k w d) = dkeys d"
  by (rule dkeys_dset_in) (rule dget_key)

lemma dkeys_admission [simp]: "dkeys (cs_requests (admission_loop rids s)) = dkeys (cs_requests s)"
proof (induction rids s rule: admission_loop.induct)
  case (2 rid rids s)
  show ?case
  proof (cases "dget (cs_requests s) rid")
    case (Some r)
    then show ?thesis using 2(2,3)[OF refl Some] by (simp add: Let_def dkeys_dset_get[OF Some] split: option.split)
  qed (use 2(1) in \<open>simp add: Let_def\<close>)
qed simp

lemma dkeys_tick: "dkeys (cs_requests (cs_tick s)) = dkeys (cs_requests s)"
  by (simp add: cs_tick_def cs_phase_defs)

lemma dkeys_end_early: "dkeys (cs_requests (end_early st reason rid s)) = dkeys (cs_requests s)"
  by (simp add: end_early_def dkeys_dset_get split: option.split)

lemma dget_None_dkeys: "dkeys d = dkeys e \<Longrightarrow> dget d k = None \<longleftrightarrow> dget e k = None"
  by (metis map_of_eq_None_iff set_map)

text \<open>A call that keeps the keys and every property of single requests keeps the account of the outputs.\<close>

lemma outs_ok_frame:
  assumes "outs_ok rid out s" "sched_ok s" "sched_ok s'" "dkeys (cs_requests s') = dkeys (cs_requests s)"
    and "list_all (\<lambda>(k, r). k = rid \<longrightarrow> out_ok out r) (cs_requests s) \<Longrightarrow>
         list_all (\<lambda>(k, r). k = rid \<longrightarrow> out_ok out r) (cs_requests s')"
  shows "outs_ok rid out s'"
proof -
  have d: "dict_ok (cs_requests s)" "dict_ok (cs_requests s')" using assms(2,3) by (simp_all add: sched_ok_def)
  have "\<forall>r. dget (cs_requests s') rid = Some r \<longrightarrow> out_ok out r" if "\<forall>r. dget (cs_requests s) rid = Some r \<longrightarrow> out_ok out r"
    using assms(5) that unfolding list_all_key_iff[OF d(1)] list_all_key_iff[OF d(2)] by blast
  note * = this dget_None_dkeys[OF assms(4), of rid]
  show ?thesis
  proof (cases "dget (cs_requests s') rid")
    case None
    then show ?thesis using *(2) assms(1) by (simp add: outs_ok_def)
  next
    case (Some r')
    then obtain r where "dget (cs_requests s) rid = Some r" using *(2) by (metis not_Some_eq)
    then show ?thesis using *(1) Some assms(1) by (simp add: outs_ok_def)
  qed
qed

lemma outs_ok_step:
  assumes "outs_ok rid out s" "sched_ok s" "\<not> admits rid op"
  shows "outs_ok rid (out @ read_by rid op s) (cs_step op s)"
proof (cases op)
  case (CAdmit h)
  then show ?thesis using assms by (auto simp: admit_def read_by_def outs_ok_def dict_simps)
next
  case (CDrain j)
  then show ?thesis
    using assms by (auto simp: drain_outputs_def read_by_def outs_ok_def out_ok_def dict_simps split: option.split)
next
  case CTick
  then show ?thesis
    using outs_ok_frame[OF assms(1,2) tick_ok[OF assms(2)] dkeys_tick rout.on_tick[OF refl]]
    by (simp add: read_by_def)
qed (use outs_ok_frame[OF assms(1,2) end_early_ok[OF assms(2)] dkeys_end_early rout.on_end]
     in \<open>simp_all add: end_defs read_by_def\<close>)

lemma run_outs_ok:
  assumes "outs_ok rid out s" "sched_ok s"
    and "length (filter (admits rid) ops) \<le> (if dget (cs_requests s) rid = None then 1 else 0)"
  shows "outs_ok rid (out @ drained rid ops s) (fold cs_step ops s)"
  using assms
proof (induction ops arbitrary: out s)
  case (Cons op ops)
  show ?case
  proof (cases "admits rid op")
    case True
    then obtain h where op: "op = CAdmit h" "ch_request_id h = rid" by (cases op) auto
    have none: "dget (cs_requests s) rid = None" using Cons.prems(3) True by (simp split: if_splits)
    have "outs_ok rid [] (admit h s)" using op by (simp add: outs_ok_def admit_def dict_simps out_ok_def new_request_def)
    moreover have "out = []" using Cons.prems(1) none by (simp add: outs_ok_def)
    moreover have "dget (cs_requests (admit h s)) rid \<noteq> None" using op by (simp add: admit_def dict_simps)
    ultimately show ?thesis
      using Cons.IH[of "[]" "admit h s"] Cons.prems op none by (simp add: admit_ok read_by_def)
  next
    case False
    have "dget (cs_requests s) rid = None \<longleftrightarrow> dget (cs_requests (cs_step op s)) rid = None"
      using False dget_None_dkeys[OF dkeys_tick] dget_None_dkeys[OF dkeys_end_early]
      by (cases op) (auto simp: admit_def dict_simps end_defs drain_outputs_def split: option.split)
    then show ?thesis
      using Cons.IH[OF outs_ok_step[OF Cons.prems(1,2) False] cs_step_ok[OF Cons.prems(2)]] Cons.prems(3) False by simp
  qed
qed (simp add: assms)

section \<open>Work left\<close>

definition req_work :: "int \<Rightarrow> FakeContinuousRequest \<Rightarrow> nat" where
  "req_work M r =
     (let left = nat (M - int (cr_decode_steps_completed r)) + 1; ticks = nat (cr_prefill_ticks_remaining r) in
      case cr_state r of
        C_ADMITTED \<Rightarrow> left + ticks + 2
      | C_PREFILL_PENDING \<Rightarrow> left + ticks + 1
      | C_PREFILL_RUNNING \<Rightarrow> left + ticks
      | C_DECODE_ACTIVE \<Rightarrow> left
      | _ \<Rightarrow> 0)"

definition work :: "int \<Rightarrow> (string, FakeContinuousRequest) dict \<Rightarrow> nat" where
  "work M reqs = sum_list (map (req_work M) (dvals reqs))"

lemma work_simps [simp]: "work M [] = 0" "work M ((k, r) # reqs) = req_work M r + work M reqs"
  by (simp_all add: work_def)

lemma work_dset:
  "dict_ok d \<Longrightarrow> dget d k = Some v \<Longrightarrow> work M (dset k w d) + req_work M v = work M d + req_work M w"
  by (induction d) (auto split: if_splits)

lemma req_step_work:
  assumes "req_step M r r'" "req_ok M k r" "cr_state r \<notin> c_terminal" "cr_state r \<noteq> C_STREAM_DRAINING"
  shows "req_work M r' < req_work M r"
  using assms by (cases rule: req_step.cases) (auto simp: req_work_def Let_def c_terminal_def req_ok_def split: ContinuousRequestState.splits)

text \<open>Each phase lowers the work left by what it advances; the two loops advance the first request they
  can as long as their limit allows one.\<close>

lemma work_prefill_le: "list_all (\<lambda>(k, r). req_ok M k r) reqs \<Longrightarrow> work M (prefill_loop limit n reqs) \<le> work M reqs"
proof (induction limit n reqs rule: prefill_loop.induct)
  case (2 limit n k r reqs)
  have "req_work M r' \<le> req_work M r" if "req_step M r r'" "cr_state r \<in> {C_PREFILL_PENDING, C_PREFILL_RUNNING}" for r'
    using req_step_work[OF that(1), of k] that(2) 2(4) by (auto simp: c_terminal_def)
  from this[OF start] this[OF prefill] this[OF prefilled] show ?case
    using 2 by (auto simp: Let_def intro!: add_mono)
qed simp

lemma work_prefill_less:
  assumes "list_all (\<lambda>(k, r). req_ok M k r) reqs" "n < limit"
    and "(k, r) \<in> set reqs" "cr_state r \<in> {C_PREFILL_PENDING, C_PREFILL_RUNNING}"
  shows "work M (prefill_loop limit n reqs) < work M reqs"
  using assms
proof (induction reqs)
  case (Cons kr reqs)
  obtain j q where kr: "kr = (j, q)" by (cases kr)
  show ?case
  proof (cases "cr_state q \<in> {C_PREFILL_PENDING, C_PREFILL_RUNNING}")
    case True
    have "req_work M q' < req_work M q" if "req_step M q q'" for q'
      using req_step_work[OF that, of j] True Cons.prems(1) by (auto simp: c_terminal_def kr)
    from this[OF start] this[OF prefill] this[OF prefilled] show ?thesis
      using True Cons.prems work_prefill_le[of M reqs] by (auto simp: kr Let_def intro!: add_less_le_mono)
  next
    case False
    then show ?thesis using Cons by (auto simp: kr)
  qed
qed simp

lemma work_decode_le: "list_all (\<lambda>(k, r). req_ok M k r) reqs \<Longrightarrow> work M (decode_loop limit M n reqs) \<le> work M reqs"
proof (induction reqs arbitrary: n)
  case (Cons kr reqs)
  obtain k r where kr: "kr = (k, r)" by (cases kr)
  have "req_work M r' \<le> req_work M r" if "req_step M r r'" "cr_state r = C_DECODE_ACTIVE" for r'
    using req_step_work[OF that(1), of k] that(2) Cons.prems by (auto simp: c_terminal_def kr)
  from this[OF decode] this[OF decoded] show ?case
    using Cons by (auto simp: kr not_le intro!: add_mono)
qed simp

lemma work_decode_less:
  assumes "list_all (\<lambda>(k, r). req_ok M k r) reqs" "n < limit" "(k, r) \<in> set reqs" "cr_state r = C_DECODE_ACTIVE"
  shows "work M (decode_loop limit M n reqs) < work M reqs"
  using assms
proof (induction reqs)
  case (Cons kr reqs)
  obtain j q where kr: "kr = (j, q)" by (cases kr)
  show ?case
  proof (cases "cr_state q = C_DECODE_ACTIVE")
    case True
    have "req_work M q' < req_work M q" if "req_step M q q'" for q'
      using req_step_work[OF that, of j] True Cons.prems(1) by (auto simp: c_terminal_def kr)
    from this[OF decode] this[OF decoded] show ?thesis
      using True Cons.prems work_decode_le[of M reqs] by (auto simp: kr not_le intro!: add_less_le_mono)
  next
    case False
    then show ?thesis using Cons by (auto simp: kr)
  qed
qed simp

lemma work_drain: "work M (fst (drain_loop reqs slots)) = work M reqs"
  by (induction reqs arbitrary: slots) (auto simp: Let_def case_prod_beta' req_work_def)

lemma work_admission:
  assumes "dict_ok (cs_requests s)"
  shows "work M (cs_requests (admission_loop rids s)) \<le> work M (cs_requests s)"
  using assms
proof (induction rids s rule: admission_loop.induct)
  case (2 rid rids s)
  show ?case
  proof (cases "dget (cs_requests s) rid")
    case (Some r)
    have "work M (dset rid (r\<lparr>cr_state := C_PREFILL_PENDING, cr_slot_id := Some i\<rparr>) (cs_requests s)) \<le> work M (cs_requests s)"
      if "cr_state r = C_ADMITTED" for i
      using work_dset[OF 2(4) Some, of M "r\<lparr>cr_state := C_PREFILL_PENDING, cr_slot_id := Some i\<rparr>"] that
      by (simp add: req_work_def Let_def)
    then show ?thesis
      using 2(2,3)[OF refl Some] 2(4) Some by (auto simp: Let_def intro: order_trans split: option.split)
  qed (use 2 in \<open>simp add: Let_def\<close>)
qed simp

text \<open>A request past admission is not touched by the phases before the one it is in.\<close>

lemma admission_keeps:
  "dget (cs_requests s) k = Some r \<Longrightarrow> cr_state r \<noteq> C_ADMITTED \<Longrightarrow>
   dget (cs_requests (admission_loop rids s)) k = Some r"
proof (induction rids s rule: admission_loop.induct)
  case (2 rid rids s)
  show ?case
  proof (cases "dget (cs_requests s) rid")
    case (Some q)
    then show ?thesis
      using 2(2,3)[OF refl Some] 2(4-) by (cases "k = rid") (auto simp: Let_def dict_simps split: option.split)
  qed (use 2 in \<open>simp add: Let_def\<close>)
qed simp

lemma prefill_keeps:
  "(k, r) \<in> set reqs \<Longrightarrow> cr_state r = C_DECODE_ACTIVE \<Longrightarrow> (k, r) \<in> set (prefill_loop limit n reqs)"
  by (induction limit n reqs rule: prefill_loop.induct) (auto simp: Let_def)

definition active :: "FakeContinuousRequest \<Rightarrow> bool" where
  "active r \<longleftrightarrow> cr_state r \<in> {C_PREFILL_PENDING, C_PREFILL_RUNNING, C_DECODE_ACTIVE}"

lemma tick_work:
  assumes "sched_ok s" and M: "M = max_decode_steps_per_request (cs_config s)"
    and "1 \<le> max_prefill_per_tick (cs_config s)" "1 \<le> max_decode_per_tick (cs_config s)"
  shows "work M (cs_requests (cs_tick s)) \<le> work M (cs_requests s)"
    and "dget (cs_requests s) k = Some r \<Longrightarrow> active r \<Longrightarrow> work M (cs_requests (cs_tick s)) < work M (cs_requests s)"
proof -
  let ?s1 = "admission_loop (cs_pending_admission s) (s\<lparr>cs_tick_index := cs_tick_index s + 1\<rparr>)"
  let ?r1 = "cs_requests ?s1"
  let ?r2 = "prefill_loop (max_prefill_per_tick (cs_config s)) 0 ?r1"
  let ?r3 = "decode_loop (max_decode_per_tick (cs_config s)) M 0 ?r2"
  have cs_tick: "work M (cs_requests (cs_tick s)) = work M ?r3"
    by (simp add: cs_tick_def cs_phase_defs admission_loop_config work_drain M)
  have ok1: "list_all (\<lambda>(k, r). req_ok M k r) ?r1"
    by (rule rok.on_admission) (use assms(1) in \<open>simp add: sched_ok_def M\<close>)
  have ok2: "list_all (\<lambda>(k, r). req_ok M k r) ?r2" by (rule rok.on_prefill[OF ok1])
  have le: "work M ?r1 \<le> work M (cs_requests s)" "work M ?r2 \<le> work M ?r1" "work M ?r3 \<le> work M ?r2"
    using work_admission[of "s\<lparr>cs_tick_index := cs_tick_index s + 1\<rparr>" M] assms(1)
      work_prefill_le[OF ok1] work_decode_le[OF ok2] by (simp_all add: sched_ok_def)
  then show "work M (cs_requests (cs_tick s)) \<le> work M (cs_requests s)" using cs_tick by simp
  assume r: "dget (cs_requests s) k = Some r" "active r"
  then have "dget ?r1 k = Some r" by (intro admission_keeps) (auto simp: active_def)
  then have in1: "(k, r) \<in> set ?r1" by (rule map_of_SomeD)
  show "work M (cs_requests (cs_tick s)) < work M (cs_requests s)"
  proof (cases "cr_state r = C_DECODE_ACTIVE")
    case True
    have "work M ?r3 < work M ?r2"
      by (rule work_decode_less[OF ok2 _ prefill_keeps[OF in1 True] True]) (use assms(4) in simp)
    then show ?thesis using le cs_tick by simp
  next
    case False
    have "work M ?r2 < work M ?r1"
      by (rule work_prefill_less[OF ok1 _ in1]) (use assms(3) False r(2) in \<open>auto simp: active_def\<close>)
    then show ?thesis using le cs_tick by simp
  qed
qed

lemma ticks_ok: "sched_ok s \<Longrightarrow> sched_ok ((cs_tick ^^ n) s) \<and> cs_config ((cs_tick ^^ n) s) = cs_config s"
  by (induction n) (simp_all add: tick_ok tick_config)

text \<open>A sequence of naturals that never grows is constant from some point on.\<close>

lemma antimono_nat_stable:
  fixes f :: "nat \<Rightarrow> nat"
  assumes "\<And>n. f (Suc n) \<le> f n"
  shows "\<exists>N. \<forall>n \<ge> N. f (Suc n) = f n"
proof -
  obtain N where N: "\<And>m. f N \<le> f m" using ex_has_least_nat[of "\<lambda>_. True" 0 f] by auto
  have "f n \<le> f N" if "N \<le> n" for n using lift_Suc_antimono_le[of f, OF assms that] .
  then have "f n = f N" if "N \<le> n" for n using N that by (simp add: antisym)
  then show ?thesis by (metis le_SucI)
qed

lemma active_work_ends:
  assumes "sched_ok s" "1 \<le> max_prefill_per_tick (cs_config s)" "1 \<le> max_decode_per_tick (cs_config s)"
  shows "\<exists>N. \<forall>n \<ge> N. \<forall>k r. dget (cs_requests ((cs_tick ^^ n) s)) k = Some r \<longrightarrow> \<not> active r"
proof -
  let ?M = "max_decode_steps_per_request (cs_config s)"
  note tw = tick_work[of "(cs_tick ^^ n) s" ?M for n]
  have "\<exists>N. \<forall>n \<ge> N. work ?M (cs_requests ((cs_tick ^^ Suc n) s)) = work ?M (cs_requests ((cs_tick ^^ n) s))"
    by (rule antimono_nat_stable) (use assms ticks_ok[OF assms(1)] in \<open>simp add: tw(1)\<close>)
  then obtain N where N: "work ?M (cs_requests ((cs_tick ^^ Suc n) s)) = work ?M (cs_requests ((cs_tick ^^ n) s))" if "N \<le> n" for n
    by blast
  have "\<not> active r" if "N \<le> n" "dget (cs_requests ((cs_tick ^^ n) s)) k = Some r" for n k r
    using N[OF that(1)] tw(2)[of n k r] that(2) assms ticks_ok[OF assms(1), of n] by auto
  then show ?thesis by blast
qed

lemma run_output_sequence:
  assumes "length (filter (admits rid) ops) \<le> 1"
    and "dget (cs_requests (fold cs_step ops (new_token_scheduler c))) rid = Some r"
  shows "drained rid ops (new_token_scheduler c) @ cr_output_chunks r = map (output_chunk r) [0..<cr_decode_steps_completed r]"
    and "req_ok (max_decode_steps_per_request c) rid r"
proof -
  let ?s = "fold cs_step ops (new_token_scheduler c)"
  have "outs_ok rid ([] @ drained rid ops (new_token_scheduler c)) ?s"
    by (rule run_outs_ok[OF _ new_token_scheduler_ok]) (use assms(1) in \<open>simp_all add: outs_ok_def new_token_scheduler_def\<close>)
  then have "out_ok (drained rid ops (new_token_scheduler c)) r" using assms(2) by (simp add: outs_ok_def)
  then show "drained rid ops (new_token_scheduler c) @ cr_output_chunks r = map (output_chunk r) [0..<cr_decode_steps_completed r]"
    by (simp add: out_ok_def)
  show "req_ok (max_decode_steps_per_request c) rid r"
    using sched_ok_dget(1)[OF csm.run_inv[OF new_token_scheduler_ok] assms(2)] by (simp add: run_config new_token_scheduler_def)
qed

section \<open>Properties\<close>

text \<open>
  Outputs in order and exactly once. Along any run in which a request id is admitted at most once,
  what the caller has read of the request followed by what it has not read yet is the sequence of its
  chunks numbered from 0 without gap, repetition or a chunk of another request; there are never more
  than the configured number, and exactly that number when the request completed.
\<close>

theorem decode_outputs_in_order:
  assumes "length (filter (admits rid) ops) \<le> 1"
    and "dget (cs_requests (fold cs_step ops (new_token_scheduler c))) rid = Some r"
  shows "drained rid ops (new_token_scheduler c) @ cr_output_chunks r = map (output_chunk r) [0..<cr_decode_steps_completed r]
    \<and> ch_request_id (cr_handle r) = rid
    \<and> cr_decode_steps_completed r \<le> nat (max_decode_steps_per_request c)
    \<and> (cr_state r = C_COMPLETED \<longrightarrow> cr_decode_steps_completed r = nat (max_decode_steps_per_request c))"
  using run_output_sequence[OF assms] by (simp add: req_ok_def) linarith

definition demo_handle :: "string \<Rightarrow> ContinuousRequestHandle" where
  "demo_handle rid =
     \<lparr>ch_request_id = rid, ch_model = ''m'', ch_backend = ''fake'', ch_stream = True, ch_admitted_at = 0,
      ch_max_tokens = None, ch_sampling_class = None\<rparr>"

definition demo_config :: FakeContinuousSchedulerConfig where
  "demo_config = \<lparr>max_slots = 2, max_prefill_per_tick = 2, max_decode_per_tick = 2, max_decode_steps_per_request = 3\<rparr>"

definition demo_run :: "cs_op list" where
  "demo_run = [CAdmit (demo_handle ''a''), CAdmit (demo_handle ''b''), CTick, CTick, CDrain ''a'', CTick, CTick, CTick]"

definition demo_crowd :: "cs_op list" where
  "demo_crowd = map (\<lambda>rid. CAdmit (demo_handle rid)) [''a'', ''b'', ''c''] @ replicate 8 CTick"

theorem decode_outputs_in_order_witness:
  "map oc_sequence_index (drained ''a'' demo_run (new_token_scheduler demo_config)) = [0]
   \<and> (\<exists>r. dget (cs_requests (fold cs_step demo_run (new_token_scheduler demo_config))) ''a'' = Some r \<and>
       drained ''a'' demo_run (new_token_scheduler demo_config) @ cr_output_chunks r = map (output_chunk r) [0..<3])"
proof -
  have get: "map_option (\<lambda>r. (cr_state r, cr_decode_steps_completed r))
      (dget (cs_requests (fold cs_step demo_run (new_token_scheduler demo_config))) ''a'') = Some (C_COMPLETED, 3)"
    by code_simp
  then obtain r where r: "dget (cs_requests (fold cs_step demo_run (new_token_scheduler demo_config))) ''a'' = Some r"
    "cr_decode_steps_completed r = 3" by auto
  have "length (filter (admits ''a'') demo_run) \<le> 1" by code_simp
  from decode_outputs_in_order[OF this r(1)] r
  have "drained ''a'' demo_run (new_token_scheduler demo_config) @ cr_output_chunks r = map (output_chunk r) [0..<3]" by simp
  moreover have "map oc_sequence_index (drained ''a'' demo_run (new_token_scheduler demo_config)) = [0]" by code_simp
  ultimately show ?thesis using r(1) by blast
qed

text \<open>
  The configuration is not validated: with a limit of zero the phase it belongs to does nothing, and
  a request in that phase never leaves it.
\<close>

lemma zero_limits_stall:
  assumes "limit \<le> 0"
  shows "prefill_loop limit 0 reqs = reqs" and "decode_loop limit max_steps 0 reqs = reqs"
proof -
  show "prefill_loop limit 0 reqs = reqs" using assms by (cases reqs) auto
  show "decode_loop limit max_steps 0 reqs = reqs" using assms by (induction reqs) auto
qed

text \<open>
  C37. Requests that hold a slot end. From every state the scheduler can reach, if each phase may advance at
  least one request per tick, some number of ticks later, and ever after, every request is either still
  waiting for a slot or in a terminal state.
\<close>

theorem slotted_requests_end:
  assumes "1 \<le> max_prefill_per_tick c" "1 \<le> max_decode_per_tick c"
  shows "\<exists>N. \<forall>n \<ge> N. \<forall>k r. dget (cs_requests ((cs_tick ^^ n) (fold cs_step ops (new_token_scheduler c)))) k = Some r \<longrightarrow>
           cr_state r = C_ADMITTED \<or> cr_state r \<in> c_terminal"
proof -
  let ?s = "fold cs_step ops (new_token_scheduler c)"
  have ok: "sched_ok ?s" by (rule csm.run_inv[OF new_token_scheduler_ok])
  have "cs_config ?s = c" by (simp add: run_config new_token_scheduler_def)
  then obtain N where N: "\<forall>n \<ge> N. \<forall>k r. dget (cs_requests ((cs_tick ^^ n) ?s)) k = Some r \<longrightarrow> \<not> active r"
    using active_work_ends[OF ok] assms by auto
  have "cr_state r \<noteq> C_STREAM_DRAINING" if "dget (cs_requests ((cs_tick ^^ n) ?s)) k = Some r" for n k r
    using sched_ok_dget(2)[OF _ that] ticks_ok[OF ok, of n] by simp
  then have "cr_state r = C_ADMITTED \<or> cr_state r \<in> c_terminal"
    if "N \<le> n" "dget (cs_requests ((cs_tick ^^ n) ?s)) k = Some r" for n k r
    using N that by (cases "cr_state r") (fastforce simp: active_def c_terminal_def)+
  then show ?thesis by blast
qed

theorem slotted_requests_end_witness:
  "\<exists>N. \<forall>n \<ge> N. \<forall>k r. dget (cs_requests ((cs_tick ^^ n) (fold cs_step demo_run (new_token_scheduler demo_config)))) k = Some r \<longrightarrow>
     cr_state r = C_ADMITTED \<or> cr_state r \<in> c_terminal"
  by (rule slotted_requests_end) (simp_all add: demo_config_def)

text \<open>
  C38. Slots are not reused. No operation makes a slot empty again, so that however many requests are
  admitted, a scheduler with \<open>n\<close> slots gives a slot to at most \<open>n\<close> requests and completes at most
  \<open>n\<close> in its lifetime; with two slots a third request is still waiting after the first two completed, and
  their slots still count as active.
\<close>

theorem slots_never_reused:
  "dcount slotted (cs_requests (fold cs_step ops (new_token_scheduler c))) \<le> nat (max_slots c)
   \<and> ss_completed_count (cs_snapshot (fold cs_step ops (new_token_scheduler c))) \<le> nat (max_slots c)
   \<and> map_option cr_state (dget (cs_requests (fold cs_step demo_crowd (new_token_scheduler demo_config))) ''c'') = Some C_ADMITTED
   \<and> ss_completed_count (cs_snapshot (fold cs_step demo_crowd (new_token_scheduler demo_config))) = 2
   \<and> ss_active_slot_count (cs_snapshot (fold cs_step demo_crowd (new_token_scheduler demo_config))) = 2"
proof -
  let ?s = "fold cs_step ops (new_token_scheduler c)"
  have ok: "sched_ok ?s" by (rule csm.run_inv[OF new_token_scheduler_ok])
  have cfg: "cs_config ?s = c" by (simp add: run_config new_token_scheduler_def)
  have "used_slots (cs_slots ?s) \<le> length (cs_slots ?s)" by (simp add: used_slots_def)
  then have slots: "dcount slotted (cs_requests ?s) \<le> nat (max_slots c)"
    using ok by (simp add: sched_ok_def cfg)
  have "dcount (\<lambda>r. cr_state r = C_COMPLETED) (cs_requests ?s) \<le> dcount slotted (cs_requests ?s)"
    by (rule dcount_mono) (use ok in \<open>auto simp: sched_ok_def req_ok_def slotted_def elim: list.pred_mono_strong\<close>)
  then have "ss_completed_count (cs_snapshot ?s) \<le> nat (max_slots c)"
    using slots by (simp add: cs_snapshot_def Let_def)
  moreover have "map_option cr_state (dget (cs_requests (fold cs_step demo_crowd (new_token_scheduler demo_config))) ''c'') = Some C_ADMITTED
   \<and> ss_completed_count (cs_snapshot (fold cs_step demo_crowd (new_token_scheduler demo_config))) = 2
   \<and> ss_active_slot_count (cs_snapshot (fold cs_step demo_crowd (new_token_scheduler demo_config))) = 2"
    by code_simp
  ultimately show ?thesis using slots by blast
qed

text \<open>A completed request whose output has not been read is reported as a demultiplexing violation.\<close>

lemma validate_flags_unread_output:
  "set (cs_validate (fold cs_step demo_crowd (new_token_scheduler demo_config))) = {OUTPUT_DEMUX_MISMATCH}"
  by code_simp

end
