(* ===== verification/Stream_Demux.thy ===== *)
theory Stream_Demux
  imports Continuous_Scheduler
begin

text \<open>
  \<open>whooshd/continuous_streaming.py\<close>: the demultiplexer that routes output chunks into one stream
  of events per request. A method's list of violations is its result; the streams are the state.
  The last section composes it with the scheduler that produces the chunks.
\<close>

section \<open>Events and streams\<close>

datatype FakeStreamEventKind = EV_CHUNK | EV_COMPLETED | EV_CANCELLED | EV_TIMED_OUT | EV_FAILED

datatype FakeStreamState = STR_OPEN | STR_COMPLETED | STR_CANCELLED | STR_TIMED_OUT | STR_FAILED

record FakeStreamEvent =
  ev_request_id :: string
  ev_sequence_index :: int
  ev_kind :: FakeStreamEventKind
  ev_text :: "string option"
  ev_finish_reason :: "ContinuousFinishReason option"

record FakeRequestStream =
  rs_request_id :: string
  rs_state :: FakeStreamState
  rs_next_sequence_index :: int
  rs_events :: "FakeStreamEvent list"
  rs_terminal_emitted :: bool

type_synonym FakeStreamingDemux = "(string, FakeRequestStream) dict"

type_synonym violations = "ContinuousBatchInvariantViolation list"

definition new_stream :: "string \<Rightarrow> FakeRequestStream" where
  "new_stream rid =
     \<lparr>rs_request_id = rid, rs_state = STR_OPEN, rs_next_sequence_index = 0, rs_events = [],
      rs_terminal_emitted = False\<rparr>"

definition open_stream :: "string \<Rightarrow> FakeStreamingDemux \<Rightarrow> FakeStreamingDemux" where
  "open_stream rid d = (if dget d rid \<noteq> None then d else dset rid (new_stream rid) d)"

section \<open>Routing\<close>

definition emit :: "FakeStreamEvent \<Rightarrow> FakeRequestStream \<Rightarrow> FakeRequestStream" where
  "emit e st = st\<lparr>rs_events := rs_events st @ [e], rs_next_sequence_index := rs_next_sequence_index st + 1\<rparr>"

definition route_chunk ::
  "ContinuousOutputChunk \<Rightarrow> string set \<Rightarrow> string set \<Rightarrow> FakeStreamingDemux \<Rightarrow> violations \<times> FakeStreamingDemux" where
  "route_chunk c active_request_ids active_slot_ids d =
     (let violations =
            (if oc_request_id c \<notin> active_request_ids then [OUTPUT_DEMUX_MISMATCH] else [])
            @ (if oc_slot_id c \<notin> active_slot_ids then [OUTPUT_DEMUX_MISMATCH] else [])
      in case dget d (oc_request_id c) of
           None \<Rightarrow> (violations @ [OUTPUT_DEMUX_MISMATCH], d)
         | Some st \<Rightarrow>
             if rs_state st \<noteq> STR_OPEN then (violations @ [TERMINAL_STATE_REENTERED], d)
             else if oc_sequence_index c \<noteq> rs_next_sequence_index st then (violations @ [OUTPUT_DEMUX_MISMATCH], d)
             else
               (violations,
                dset (oc_request_id c)
                  (emit \<lparr>ev_request_id = oc_request_id c, ev_sequence_index = oc_sequence_index c, ev_kind = EV_CHUNK,
                        ev_text = oc_text c, ev_finish_reason = None\<rparr> st) d))"

text \<open>\<open>state_map.get(kind, COMPLETED)\<close>.\<close>

fun terminal_state :: "FakeStreamEventKind \<Rightarrow> FakeStreamState" where
  "terminal_state EV_CANCELLED = STR_CANCELLED"
| "terminal_state EV_TIMED_OUT = STR_TIMED_OUT"
| "terminal_state EV_FAILED = STR_FAILED"
| "terminal_state _ = STR_COMPLETED"

definition emit_terminal ::
  "string \<Rightarrow> FakeStreamEventKind \<Rightarrow> ContinuousFinishReason \<Rightarrow> FakeStreamingDemux \<Rightarrow> violations \<times> FakeStreamingDemux" where
  "emit_terminal rid kind reason d =
     (case dget d rid of
        None \<Rightarrow> ([], d)
      | Some st \<Rightarrow>
          if rs_state st \<noteq> STR_OPEN then ([TERMINAL_STATE_REENTERED], d)
          else
            ([], dset rid
                   (emit \<lparr>ev_request_id = rid, ev_sequence_index = rs_next_sequence_index st, ev_kind = kind,
                         ev_text = None, ev_finish_reason = Some reason\<rparr>
                      (st\<lparr>rs_state := terminal_state kind, rs_terminal_emitted := True\<rparr>)) d))"

definition stream_complete :: "string \<Rightarrow> FakeStreamingDemux \<Rightarrow> violations \<times> FakeStreamingDemux" where
  "stream_complete rid = emit_terminal rid EV_COMPLETED FR_STOP"

definition stream_cancel :: "string \<Rightarrow> FakeStreamingDemux \<Rightarrow> violations \<times> FakeStreamingDemux" where
  "stream_cancel rid = emit_terminal rid EV_CANCELLED FR_CANCELLED"

definition stream_timeout :: "string \<Rightarrow> FakeStreamingDemux \<Rightarrow> violations \<times> FakeStreamingDemux" where
  "stream_timeout rid = emit_terminal rid EV_TIMED_OUT FR_TIMEOUT"

definition stream_fail :: "string \<Rightarrow> FakeStreamingDemux \<Rightarrow> violations \<times> FakeStreamingDemux" where
  "stream_fail rid = emit_terminal rid EV_FAILED FR_ERROR"

definition drain_events :: "string \<Rightarrow> FakeStreamingDemux \<Rightarrow> FakeStreamEvent list \<times> FakeStreamingDemux" where
  "drain_events rid d =
     (case dget d rid of
        None \<Rightarrow> ([], d)
      | Some st \<Rightarrow> (rs_events st, dset rid (st\<lparr>rs_events := []\<rparr>) d))"

record FakeStreamDemuxSnapshot =
  sd_open_stream_count :: nat
  sd_completed_stream_count :: nat
  sd_cancelled_stream_count :: nat
  sd_timed_out_stream_count :: nat
  sd_failed_stream_count :: nat
  sd_total_events :: nat
  sd_total_chunk_events :: nat
  sd_total_terminal_events :: nat

definition demux_snapshot :: "FakeStreamingDemux \<Rightarrow> FakeStreamDemuxSnapshot" where
  "demux_snapshot d =
     (let count = (\<lambda>x. dcount (\<lambda>st. rs_state st = x) d); events = concat (map rs_events (dvals d)) in
      \<lparr>sd_open_stream_count = count STR_OPEN, sd_completed_stream_count = count STR_COMPLETED,
       sd_cancelled_stream_count = count STR_CANCELLED, sd_timed_out_stream_count = count STR_TIMED_OUT,
       sd_failed_stream_count = count STR_FAILED, sd_total_events = length events,
       sd_total_chunk_events = length (filter (\<lambda>e. ev_kind e = EV_CHUNK) events),
       sd_total_terminal_events = length (filter (\<lambda>e. ev_kind e \<noteq> EV_CHUNK) events)\<rparr>)"

section \<open>The demultiplexer as a machine\<close>

datatype demux_op =
    DOpen string
  | DRoute ContinuousOutputChunk "string set" "string set"
  | DComplete string
  | DCancel string
  | DTimeout string
  | DFail string
  | DDrain string

fun demux_step :: "demux_op \<Rightarrow> FakeStreamingDemux \<Rightarrow> FakeStreamingDemux" where
  "demux_step (DOpen rid) d = open_stream rid d"
| "demux_step (DRoute c rids slots) d = snd (route_chunk c rids slots d)"
| "demux_step (DComplete rid) d = snd (stream_complete rid d)"
| "demux_step (DCancel rid) d = snd (stream_cancel rid d)"
| "demux_step (DTimeout rid) d = snd (stream_timeout rid d)"
| "demux_step (DFail rid) d = snd (stream_fail rid d)"
| "demux_step (DDrain rid) d = snd (drain_events rid d)"

fun op_target :: "demux_op \<Rightarrow> string" where
  "op_target (DOpen rid) = rid"
| "op_target (DRoute c rids slots) = oc_request_id c"
| "op_target (DComplete rid) = rid"
| "op_target (DCancel rid) = rid"
| "op_target (DTimeout rid) = rid"
| "op_target (DFail rid) = rid"
| "op_target (DDrain rid) = rid"

lemmas stream_call_defs = stream_complete_def stream_cancel_def stream_timeout_def stream_fail_def

lemmas stream_defs = stream_call_defs emit_terminal_def open_stream_def route_chunk_def drain_events_def

text \<open>A call reads and writes the stream of its target and no other.\<close>

lemma demux_step_other: "op_target op \<noteq> rid \<Longrightarrow> dget (demux_step op d) rid = dget d rid"
  by (cases op) (auto simp: stream_defs Let_def dict_simps split: option.split)

lemma demux_step_same:
  assumes "dget d (op_target op) = dget d' (op_target op)"
  shows "dget (demux_step op d) (op_target op) = dget (demux_step op d') (op_target op)"
  using assms
  by (cases op; cases "dget d (op_target op)") (auto simp: stream_defs Let_def dict_simps)

lemma run_isolated:
  "dget d rid = dget d' rid \<Longrightarrow>
   dget (fold demux_step ops d) rid = dget (fold demux_step (filter (\<lambda>op. op_target op = rid) ops) d') rid"
proof (induction ops arbitrary: d d')
  case (Cons op ops)
  have "dget (demux_step op d) rid = dget (if op_target op = rid then demux_step op d' else d') rid"
    using Cons.prems demux_step_same[of d op d'] demux_step_other[of op rid d] by auto
  from Cons.IH[OF this] show ?case by simp
qed simp

section \<open>One stream\<close>

text \<open>\<open>out\<close> has been read from the stream. Together with the events not yet read it is numbered from 0
  and has a terminal event exactly at the end, when the stream is no longer open.\<close>

definition stream_ok :: "string \<Rightarrow> FakeStreamEvent list \<Rightarrow> FakeRequestStream \<Rightarrow> bool" where
  "stream_ok rid out st \<longleftrightarrow>
     (let events = out @ rs_events st in
      rs_request_id st = rid \<and> rs_next_sequence_index st = int (length events)
    \<and> map ev_sequence_index events = map int [0..<length events]
    \<and> (\<forall>e \<in> set events. ev_request_id e = rid)
    \<and> (rs_terminal_emitted st \<longleftrightarrow> rs_state st \<noteq> STR_OPEN)
    \<and> (if rs_state st = STR_OPEN then \<forall>e \<in> set events. ev_kind e = EV_CHUNK
       else events \<noteq> [] \<and> ev_kind (last events) \<noteq> EV_CHUNK \<and> terminal_state (ev_kind (last events)) = rs_state st
          \<and> (\<forall>e \<in> set (butlast events). ev_kind e = EV_CHUNK)))"

definition events_read :: "string \<Rightarrow> demux_op \<Rightarrow> FakeStreamingDemux \<Rightarrow> FakeStreamEvent list" where
  "events_read rid op d = (if op = DDrain rid then fst (drain_events rid d) else [])"

fun delivered :: "string \<Rightarrow> demux_op list \<Rightarrow> FakeStreamingDemux \<Rightarrow> FakeStreamEvent list" where
  "delivered rid [] d = []"
| "delivered rid (op # ops) d = events_read rid op d @ delivered rid ops (demux_step op d)"

definition demux_ok :: "string \<Rightarrow> FakeStreamEvent list \<Rightarrow> FakeStreamingDemux \<Rightarrow> bool" where
  "demux_ok rid out d \<longleftrightarrow> (case dget d rid of None \<Rightarrow> out = [] | Some st \<Rightarrow> stream_ok rid out st)"

lemma new_stream_ok: "stream_ok rid [] (new_stream rid)"
  by (simp add: stream_ok_def new_stream_def)

lemma emit_chunk_ok:
  assumes "stream_ok rid out st" "rs_state st = STR_OPEN"
    and "ev_request_id e = rid" "ev_sequence_index e = rs_next_sequence_index st" "ev_kind e = EV_CHUNK"
  shows "stream_ok rid out (emit e st)"
  using assms by (auto simp: stream_ok_def emit_def Let_def)

lemma emit_terminal_ok:
  assumes "stream_ok rid out st" "rs_state st = STR_OPEN"
    and "ev_request_id e = rid" "ev_sequence_index e = rs_next_sequence_index st" "ev_kind e \<noteq> EV_CHUNK"
  shows "stream_ok rid out (emit e (st\<lparr>rs_state := terminal_state (ev_kind e), rs_terminal_emitted := True\<rparr>))"
proof -
  have "terminal_state (ev_kind e) \<noteq> STR_OPEN" by (cases "ev_kind e") simp_all
  then show ?thesis using assms by (auto simp: stream_ok_def emit_def Let_def butlast_append)
qed

lemma drained_ok: "stream_ok rid out st \<Longrightarrow> stream_ok rid (out @ rs_events st) (st\<lparr>rs_events := []\<rparr>)"
  by (auto simp: stream_ok_def Let_def split: if_splits)

lemma terminal_ok:
  assumes "stream_ok rid out st" "dget d rid = Some st" "kind \<noteq> EV_CHUNK"
  shows "demux_ok rid out (snd (emit_terminal rid kind reason d))"
  using assms emit_terminal_ok[OF assms(1), of "\<lparr>ev_request_id = rid, ev_sequence_index = rs_next_sequence_index st,
      ev_kind = kind, ev_text = None, ev_finish_reason = Some reason\<rparr>"]
  by (simp add: demux_ok_def emit_terminal_def dict_simps)

lemma demux_ok_step:
  assumes "demux_ok rid out d"
  shows "demux_ok rid (out @ events_read rid op d) (demux_step op d)"
proof (cases "op_target op = rid")
  case False
  moreover have "events_read rid op d = []" using False by (cases op) (simp_all add: events_read_def)
  ultimately show ?thesis using assms by (simp add: demux_ok_def demux_step_other)
next
  case True
  show ?thesis
  proof (cases "dget d rid")
    case None
    then show ?thesis
      using assms True
      by (cases op) (auto simp: demux_ok_def stream_defs events_read_def Let_def dict_simps new_stream_ok)
  next
    case (Some st)
    have ok: "stream_ok rid out st" using assms Some by (simp add: demux_ok_def)
    show ?thesis
    proof (cases op)
      case (DDrain j)
      then show ?thesis
        using True Some drained_ok[OF ok] by (simp add: demux_ok_def stream_defs events_read_def dict_simps)
    next
      case (DRoute c rids slots)
      then show ?thesis
        using True Some ok emit_chunk_ok[OF ok, of "\<lparr>ev_request_id = rid, ev_sequence_index = oc_sequence_index c, ev_kind = EV_CHUNK,
            ev_text = oc_text c, ev_finish_reason = None\<rparr>"]
        by (simp add: demux_ok_def route_chunk_def events_read_def Let_def dict_simps)
    qed (use True Some ok assms terminal_ok[OF ok Some]
         in \<open>simp_all add: stream_call_defs open_stream_def events_read_def\<close>)
  qed
qed

lemma run_demux_ok: "demux_ok rid out d \<Longrightarrow> demux_ok rid (out @ delivered rid ops d) (fold demux_step ops d)"
proof (induction ops arbitrary: out d)
  case (Cons op ops)
  from Cons.IH[OF demux_ok_step[OF Cons.prems, of op]] show ?case by simp
qed simp

section \<open>Routing a sequence of chunks\<close>

fun route_all ::
  "ContinuousOutputChunk list \<Rightarrow> string set \<Rightarrow> string set \<Rightarrow> FakeStreamingDemux \<Rightarrow> violations \<times> FakeStreamingDemux" where
  "route_all [] rids slots d = ([], d)"
| "route_all (c # cs) rids slots d =
     (let (v, d') = route_chunk c rids slots d; (w, d'') = route_all cs rids slots d' in (v @ w, d''))"

definition chunk_event :: "ContinuousOutputChunk \<Rightarrow> FakeStreamEvent" where
  "chunk_event c =
     \<lparr>ev_request_id = oc_request_id c, ev_sequence_index = oc_sequence_index c, ev_kind = EV_CHUNK,
      ev_text = oc_text c, ev_finish_reason = None\<rparr>"

definition stream_at :: "string \<Rightarrow> FakeStreamEvent list \<Rightarrow> FakeRequestStream" where
  "stream_at rid events =
     \<lparr>rs_request_id = rid, rs_state = STR_OPEN, rs_next_sequence_index = int (length events), rs_events = events,
      rs_terminal_emitted = False\<rparr>"

lemma route_numbered:
  assumes "list_all (\<lambda>c. oc_request_id c = rid \<and> oc_slot_id c \<in> slots) cs" "rid \<in> rids"
    and "map oc_sequence_index cs = map int [length events..<length events + length cs]"
    and "dget d rid = Some (stream_at rid events)"
  shows "fst (route_all cs rids slots d) = [] \<and>
    dget (snd (route_all cs rids slots d)) = (dget d)(rid \<mapsto> stream_at rid (events @ map chunk_event cs))"
  using assms
proof (induction cs arbitrary: events d)
  case (Cons c cs)
  have "[length events..<length events + length (c # cs)] =
      length events # [length (events @ [chunk_event c])..<length (events @ [chunk_event c]) + length cs]"
    using upt_conv_Cons[of "length events" "length events + length (c # cs)"] by simp
  note this[THEN arg_cong[where f = "map int"]]
  then have seq: "oc_sequence_index c = int (length events)"
    "map oc_sequence_index cs = map int [length (events @ [chunk_event c])..<length (events @ [chunk_event c]) + length cs]"
    using Cons.prems(3) by simp_all
  let ?d = "dset rid (stream_at rid (events @ [chunk_event c])) d"
  have step: "route_chunk c rids slots d = ([], ?d)"
    using Cons.prems seq(1)
    by (simp add: route_chunk_def stream_at_def emit_def chunk_event_def algebra_simps)
  have "dget ?d rid = Some (stream_at rid (events @ [chunk_event c]))" by (simp add: dict_simps)
  from Cons.IH[OF _ Cons.prems(2) seq(2) this] Cons.prems(1)
  show ?case by (simp add: step case_prod_beta' dict_simps fun_eq_iff)
qed (auto simp: fun_upd_idem)

section \<open>Properties\<close>

text \<open>
  C36. Streams are ordered, closed once and isolated. Along any sequence of calls on a new
  demultiplexer, what has been read of a request's stream followed by what has not is numbered from 0
  without gap, carries the request's own id, and has a terminal event only at its end, exactly when the
  stream is no longer open; and the stream is what the calls addressed to the request alone make of it.
\<close>

theorem stream_contract:
  "(case dget (fold demux_step ops []) rid of
      None \<Rightarrow> delivered rid ops [] = []
    | Some st \<Rightarrow> stream_ok rid (delivered rid ops []) st)
   \<and> dget (fold demux_step ops []) rid = dget (fold demux_step (filter (\<lambda>op. op_target op = rid) ops) []) rid"
proof
  have "demux_ok rid ([] @ delivered rid ops []) (fold demux_step ops [])"
    by (rule run_demux_ok) (simp add: demux_ok_def)
  then show "case dget (fold demux_step ops []) rid of None \<Rightarrow> delivered rid ops [] = []
      | Some st \<Rightarrow> stream_ok rid (delivered rid ops []) st"
    by (simp add: demux_ok_def)
qed (rule run_isolated, rule refl)

text \<open>
  C35. From scheduler to stream. The chunks a request has produced in any scheduler run that admits its
  id once, routed in the order they were read into a newly opened stream while the request and its slot
  are active, are all accepted: the stream holds one event per decode step, in order, with the texts
  of the steps, and no other stream is touched.
\<close>

theorem scheduler_output_delivered:
  assumes "length (filter (admits rid) ops) \<le> 1"
    and "dget (cs_requests (fold cs_step ops (new_token_scheduler c))) rid = Some r" "cr_slot_id r = Some slot"
    and "rid \<in> rids" "slot \<in> slots" "dget d rid = None"
  shows "let (v, d') = route_all (drained rid ops (new_token_scheduler c) @ cr_output_chunks r) rids slots (open_stream rid d)
         in v = [] \<and> dget d' =
              (dget d)(rid \<mapsto> stream_at rid (map (\<lambda>n. chunk_event (output_chunk r n)) [0..<cr_decode_steps_completed r]))"
proof -
  let ?cs = "drained rid ops (new_token_scheduler c) @ cr_output_chunks r"
  have cs: "?cs = map (output_chunk r) [0..<cr_decode_steps_completed r]" by (rule run_output_sequence[OF assms(1,2)])
  have "ch_request_id (cr_handle r) = rid" using run_output_sequence(2)[OF assms(1,2)] by (simp add: req_ok_def)
  then have own: "list_all (\<lambda>c. oc_request_id c = rid \<and> oc_slot_id c \<in> slots) ?cs"
    unfolding cs using assms(3,5) by (simp add: list_all_iff output_chunk_def)
  have seq: "map oc_sequence_index ?cs = map int [length []..<length [] + length ?cs]"
    unfolding cs by (simp add: output_chunk_def)
  have "dget (open_stream rid d) rid = Some (stream_at rid [])"
    using assms(6) by (simp add: open_stream_def new_stream_def stream_at_def dict_simps)
  from route_numbered[OF own assms(4) seq this] show ?thesis
    using assms(6) by (simp add: cs case_prod_beta' open_stream_def dget_dset comp_def fun_eq_iff)
qed

theorem scheduler_output_delivered_witness:
  "\<exists>r. let (v, d') = route_all (drained ''a'' demo_run (new_token_scheduler demo_config) @ cr_output_chunks r) {''a''} {''slot-0''}
                       (open_stream ''a'' [])
       in v = [] \<and> dget d' = [''a'' \<mapsto> stream_at ''a'' (map (\<lambda>n. chunk_event (output_chunk r n)) [0..<3])]"
proof -
  have "map_option (\<lambda>r. (cr_slot_id r, cr_decode_steps_completed r))
      (dget (cs_requests (fold cs_step demo_run (new_token_scheduler demo_config))) ''a'') = Some (Some ''slot-0'', 3)"
    by code_simp
  then obtain r where r: "dget (cs_requests (fold cs_step demo_run (new_token_scheduler demo_config))) ''a'' = Some r"
    "cr_slot_id r = Some ''slot-0''" "cr_decode_steps_completed r = 3" by auto
  have "length (filter (admits ''a'') demo_run) \<le> 1" by code_simp
  from scheduler_output_delivered[OF this r(1,2), of "{''a''}" "{''slot-0''}" "[]"] r(3) show ?thesis
    by (intro exI[of _ r]) simp
qed

text \<open>A chunk of an inactive request is reported and delivered all the same.\<close>

lemma inactive_chunk_delivered:
  "let (v, d) = route_chunk \<lparr>oc_request_id = ''a'', oc_slot_id = ''slot-0'', oc_sequence_index = 0, oc_text = None,
                            oc_finish_reason = None\<rparr> {} {} (open_stream ''a'' [])
   in v = [OUTPUT_DEMUX_MISMATCH, OUTPUT_DEMUX_MISMATCH] \<and> map_option (length \<circ> rs_events) (dget d ''a'') = Some 1"
  by (simp add: route_chunk_def open_stream_def new_stream_def emit_def)

end
