(* ===== verification/Token_Step.thy ===== *)
theory Token_Step
  imports Whoosh_Prelude
begin

text \<open>
  \<open>whooshd/fake_token_step_backend.py\<close> and \<open>whooshd/token_step_scheduler.py\<close>: a deterministic backend
  that decodes one token per sequence and step, and the schedule that runs a list of requests on it
  until every sequence has ended, under plans that cancel, time out or fail sequences at given steps.

  A handle is its sequence id. The backend object is passed and returned; the plans, which the source
  indexes by step, are looked up by filtering. The schedule's \<open>while\<close> loop is the recursive function
  \<open>schedule_loop\<close>, whose termination is proved: every pass that reaches the backend uses up a token or
  ends a sequence.
\<close>

section \<open>The backend\<close>

datatype TokenStepSequenceState =
    Q_ADMITTED | Q_PREFILL_QUEUED | Q_PREFILLING | Q_READY_TO_DECODE | Q_DECODING | Q_FINISHED | Q_CANCELLED
  | Q_FAILED | Q_TIMED_OUT | Q_CLEANED_UP

record TokenStepRequest =
  tr_request_id :: string
  tr_prompt_label :: string
  tr_max_tokens :: int
  tr_sampler_label :: string

record TokenStepResult =
  tq_request_id :: string
  tq_content :: string
  tq_finish_reason :: string

record FakePlan =
  fp_request_id :: string
  fp_at_decode_step :: int

record FakeTokenStepBackend =
  tb_states :: "(string, TokenStepSequenceState) dict"
  tb_max_tokens :: "(string, int) dict"
  tb_step_counts :: "(string, nat) dict"
  tb_samplers :: "(string, string) dict"
  tb_rids :: "(string, string) dict"
  tb_next_id :: nat

definition new_backend :: FakeTokenStepBackend where
  "new_backend =
     \<lparr>tb_states = [], tb_max_tokens = [], tb_step_counts = [], tb_samplers = [], tb_rids = [], tb_next_id = 0\<rparr>"

definition seq_id :: "nat \<Rightarrow> string" where
  "seq_id n = ''seq-'' @ show_nat n"

definition prefill_request :: "TokenStepRequest \<Rightarrow> FakeTokenStepBackend \<Rightarrow> string \<times> FakeTokenStepBackend" where
  "prefill_request req b =
     (let sid = seq_id (tb_next_id b) in
      (sid, b\<lparr>tb_next_id := tb_next_id b + 1, tb_states := dset sid Q_READY_TO_DECODE (tb_states b),
              tb_max_tokens := dset sid (tr_max_tokens req) (tb_max_tokens b),
              tb_step_counts := dset sid 0 (tb_step_counts b),
              tb_samplers := dset sid (tr_sampler_label req) (tb_samplers b),
              tb_rids := dset sid (tr_request_id req) (tb_rids b)\<rparr>))"

definition get_or :: "'v \<Rightarrow> ('k, 'v) dict \<Rightarrow> 'k \<Rightarrow> 'v" where
  "get_or v d k = (case dget d k of None \<Rightarrow> v | Some w \<Rightarrow> w)"

text \<open>The body of \<open>decode_step\<close>'s loop: the token produced, if any, and the backend.\<close>

definition decode_one :: "string \<Rightarrow> FakeTokenStepBackend \<Rightarrow> string option \<times> FakeTokenStepBackend" where
  "decode_one sid b =
     (if dget (tb_states b) sid \<in> {Some Q_CANCELLED, Some Q_FAILED, Some Q_TIMED_OUT} then (None, b)
      else
        let b1 = (if dget (tb_states b) sid = Some Q_READY_TO_DECODE
                  then b\<lparr>tb_states := dset sid Q_DECODING (tb_states b)\<rparr> else b);
            step = get_or 0 (tb_step_counts b) sid;
            max_t = get_or 0 (tb_max_tokens b) sid
        in if int step < max_t then
             (Some (get_or ''?'' (tb_rids b) sid @ ''_'' @ get_or ''default'' (tb_samplers b) sid @ ''_'' @ show_nat step),
              b1\<lparr>tb_step_counts := dset sid (step + 1) (tb_step_counts b1)\<rparr>)
           else (None, b1\<lparr>tb_states := dset sid Q_FINISHED (tb_states b1)\<rparr>))"

fun decode_handles ::
  "string list \<Rightarrow> (string, string) dict \<Rightarrow> FakeTokenStepBackend \<Rightarrow> (string, string) dict \<times> FakeTokenStepBackend" where
  "decode_handles [] outputs b = (outputs, b)"
| "decode_handles (h # hs) outputs b =
     (case decode_one h b of
        (None, b') \<Rightarrow> decode_handles hs outputs b'
      | (Some t, b') \<Rightarrow> decode_handles hs (dset h t outputs) b')"

definition decode_step :: "string list \<Rightarrow> FakeTokenStepBackend \<Rightarrow> (string, string) dict \<times> FakeTokenStepBackend" where
  "decode_step handles b = decode_handles handles [] b"

text \<open>\<open>cancel_sequence\<close>, \<open>timeout_sequence\<close> and \<open>fail_sequence\<close> differ in the state they set.\<close>

definition end_sequence :: "TokenStepSequenceState \<Rightarrow> string \<Rightarrow> FakeTokenStepBackend \<Rightarrow> FakeTokenStepBackend" where
  "end_sequence st sid b =
     (if dget (tb_states b) sid \<in> {Some Q_FINISHED, Some Q_CLEANED_UP, Some Q_CANCELLED, Some Q_FAILED, Some Q_TIMED_OUT}
      then b else b\<lparr>tb_states := dset sid st (tb_states b)\<rparr>)"

definition cancel_sequence :: "string \<Rightarrow> FakeTokenStepBackend \<Rightarrow> FakeTokenStepBackend" where
  "cancel_sequence = end_sequence Q_CANCELLED"

definition timeout_sequence :: "string \<Rightarrow> FakeTokenStepBackend \<Rightarrow> FakeTokenStepBackend" where
  "timeout_sequence = end_sequence Q_TIMED_OUT"

definition fail_sequence :: "string \<Rightarrow> FakeTokenStepBackend \<Rightarrow> FakeTokenStepBackend" where
  "fail_sequence = end_sequence Q_FAILED"

definition is_finished :: "FakeTokenStepBackend \<Rightarrow> string \<Rightarrow> bool" where
  "is_finished b sid \<longleftrightarrow>
     dget (tb_states b) sid \<in> {Some Q_FINISHED, Some Q_CANCELLED, Some Q_FAILED, Some Q_TIMED_OUT}"

definition release_sequence :: "string \<Rightarrow> FakeTokenStepBackend \<Rightarrow> FakeTokenStepBackend" where
  "release_sequence sid b = b\<lparr>tb_states := dset sid Q_CLEANED_UP (tb_states b)\<rparr>"

section \<open>The schedule\<close>

definition finish_reason :: "FakeTokenStepBackend \<Rightarrow> string \<Rightarrow> string" where
  "finish_reason b sid =
     (if dget (tb_states b) sid = Some Q_CANCELLED then ''cancelled''
      else if dget (tb_states b) sid = Some Q_TIMED_OUT then ''timeout''
      else if dget (tb_states b) sid = Some Q_FAILED then ''error''
      else ''stop'')"

datatype schedule_exn = NoRequests | AccumulatorKeyError string

fun prefill_all ::
  "TokenStepRequest list \<Rightarrow> string list \<Rightarrow> (string, string) dict \<Rightarrow> FakeTokenStepBackend
   \<Rightarrow> string list \<times> (string, string) dict \<times> FakeTokenStepBackend" where
  "prefill_all [] handles routes b = (handles, routes, b)"
| "prefill_all (req # reqs) handles routes b =
     (let (h, b') = prefill_request req b
      in prefill_all reqs (handles @ [h]) (dset (tr_request_id req) h routes) b')"

record schedule =
  sp_handles :: "string list"
  sp_routes :: "(string, string) dict"
  sp_reverse_routes :: "(string, string) dict"
  sp_cancel :: "FakePlan list"
  sp_timeout :: "FakePlan list"
  sp_fail :: "FakePlan list"
  sp_shared :: "int list"

record progress =
  pg_backend :: FakeTokenStepBackend
  pg_accumulators :: "(string, string list) dict"
  pg_step_count :: nat
  pg_cancelled :: nat
  pg_timed_out :: nat
  pg_failed :: nat
  pg_shared_failures :: nat

definition plans_at :: "FakePlan list \<Rightarrow> nat \<Rightarrow> string list" where
  "plans_at plan step = map fp_request_id (filter (\<lambda>p. fp_at_decode_step p = int step) plan)"

text \<open>\<open>_apply\<close>, for one of the three operations: the backend and how many sequences it ended.\<close>

fun apply_plan ::
  "(string, string) dict \<Rightarrow> (string \<Rightarrow> FakeTokenStepBackend \<Rightarrow> FakeTokenStepBackend) \<Rightarrow> string list
   \<Rightarrow> FakeTokenStepBackend \<Rightarrow> FakeTokenStepBackend \<times> nat" where
  "apply_plan routes f [] b = (b, 0)"
| "apply_plan routes f (rid # rids) b =
     (case dget routes rid of
        None \<Rightarrow> apply_plan routes f rids b
      | Some h \<Rightarrow>
          if is_finished b h then apply_plan routes f rids b
          else let (b', n) = apply_plan routes f rids (f h b) in (b', n + 1))"

definition apply_plans :: "schedule \<Rightarrow> progress \<Rightarrow> progress" where
  "apply_plans sp pg =
     (let (b1, c) = apply_plan (sp_routes sp) cancel_sequence (plans_at (sp_cancel sp) (pg_step_count pg)) (pg_backend pg);
          (b2, t) = apply_plan (sp_routes sp) timeout_sequence (plans_at (sp_timeout sp) (pg_step_count pg)) b1;
          (b3, f) = apply_plan (sp_routes sp) fail_sequence (plans_at (sp_fail sp) (pg_step_count pg)) b2
      in pg\<lparr>pg_backend := b3, pg_cancelled := pg_cancelled pg + c, pg_timed_out := pg_timed_out pg + t,
            pg_failed := pg_failed pg + f\<rparr>)"

fun route_outputs ::
  "(string, string) dict \<Rightarrow> (string, string) dict \<Rightarrow> (string, string list) dict
   \<Rightarrow> schedule_exn + (string, string list) dict" where
  "route_outputs reverse_routes [] acc = Inr acc"
| "route_outputs reverse_routes ((h, token) # outputs) acc =
     (let rid = get_or ''unknown'' reverse_routes h in
      case dget acc rid of
        None \<Rightarrow> Inl (AccumulatorKeyError rid)
      | Some tokens \<Rightarrow> route_outputs reverse_routes outputs (dset rid (tokens @ [token]) acc))"

definition active_handles :: "schedule \<Rightarrow> FakeTokenStepBackend \<Rightarrow> string list" where
  "active_handles sp b = filter (\<lambda>h. \<not> is_finished b h) (sp_handles sp)"

definition shared_failure :: "schedule \<Rightarrow> progress \<Rightarrow> progress" where
  "shared_failure sp pg =
     (let hs = active_handles sp (pg_backend pg) in
      pg\<lparr>pg_backend := fold fail_sequence hs (pg_backend pg), pg_failed := pg_failed pg + length hs,
         pg_shared_failures := pg_shared_failures pg + 1, pg_step_count := pg_step_count pg + 1\<rparr>)"

text \<open>Tokens a handle may still produce, plus one until it is finished.\<close>

definition left :: "FakeTokenStepBackend \<Rightarrow> string \<Rightarrow> nat" where
  "left b h =
     (if is_finished b h then 0
      else nat (get_or 0 (tb_max_tokens b) h - int (get_or 0 (tb_step_counts b) h)) + 1)"

definition tokens_left :: "schedule \<Rightarrow> FakeTokenStepBackend \<Rightarrow> nat" where
  "tokens_left sp b = sum_list (map (left b) (sp_handles sp))"

lemma decode_one_other:
  assumes "j \<noteq> h"
  shows "dget (tb_states (snd (decode_one h b))) j = dget (tb_states b) j"
    "dget (tb_step_counts (snd (decode_one h b))) j = dget (tb_step_counts b) j"
    "tb_max_tokens (snd (decode_one h b)) = tb_max_tokens b"
  using assms by (simp_all add: decode_one_def Let_def dict_simps)

lemma left_decode_other: assumes "j \<noteq> h" shows "left (snd (decode_one h b)) j = left b j"
  unfolding left_def is_finished_def get_or_def decode_one_other[OF assms] ..

lemma left_decode_finished: "is_finished b h \<Longrightarrow> left (snd (decode_one h b)) h = 0"
  by (auto simp: decode_one_def left_def is_finished_def Let_def dict_simps)

lemma left_decode_less: "\<not> is_finished b h \<Longrightarrow> left (snd (decode_one h b)) h < left b h"
  by (auto simp: decode_one_def left_def is_finished_def get_or_def Let_def dict_simps)

lemma left_decode_le: "left (snd (decode_one h b)) j \<le> left b j"
  using left_decode_other[of j h b] left_decode_finished[of b h] left_decode_less[of b h]
  by (cases "j = h"; cases "is_finished b h") auto

lemma left_decode_handles_le: "left (snd (decode_handles hs outputs b)) j \<le> left b j"
proof (induction hs arbitrary: outputs b)
  case (Cons h hs)
  show ?case
    using Cons[of _ "snd (decode_one h b)"] left_decode_le[of h b j]
    by (cases "decode_one h b") (auto intro: order_trans split: option.split)
qed simp

lemma left_end_le: "st \<in> {Q_CANCELLED, Q_TIMED_OUT, Q_FAILED} \<Longrightarrow> left (end_sequence st h b) j \<le> left b j"
  by (auto simp: end_sequence_def left_def is_finished_def get_or_def dict_simps)

lemmas end_sequence_defs = cancel_sequence_def timeout_sequence_def fail_sequence_def

lemma left_apply_plan_le:
  "(\<And>h b. left (f h b) j \<le> left b j) \<Longrightarrow> left (fst (apply_plan routes f rids b)) j \<le> left b j"
proof (induction rids arbitrary: b)
  case (Cons rid rids)
  then show ?case
    by (auto simp: case_prod_beta' Let_def intro: order_trans split: option.split)
qed simp

lemma left_apply_plans_le: "left (pg_backend (apply_plans sp pg)) j \<le> left (pg_backend pg) j"
proof -
  have "left (fst (apply_plan routes f rids b)) j \<le> left b j"
    if "f \<in> {cancel_sequence, timeout_sequence, fail_sequence}" for routes f rids b
    by (rule left_apply_plan_le) (use that in \<open>auto simp: end_sequence_defs left_end_le\<close>)
  note * = this[of cancel_sequence] this[of timeout_sequence] this[of fail_sequence]
  show ?thesis
    by (simp add: apply_plans_def Let_def case_prod_beta') (rule order_trans[OF *(3) order_trans[OF *(2) *(1)]], simp_all)
qed

lemma sum_list_map_less:
  fixes f g :: "'a \<Rightarrow> nat"
  assumes "\<And>x. f x \<le> g x" "x \<in> set xs" "f x < g x"
  shows "sum_list (map f xs) < sum_list (map g xs)"
  using assms(2)
proof (induction xs)
  case (Cons y ys)
  show ?case
  proof (cases "x = y")
    case True
    have "sum_list (map f ys) \<le> sum_list (map g ys)" by (rule sum_list_mono) (rule assms(1))
    then show ?thesis using True assms(3) by simp
  next
    case False
    then show ?thesis using Cons assms(1)[of y] by simp
  qed
qed simp

lemma decode_step_uses_tokens:
  assumes "active_handles sp b \<noteq> []"
  shows "tokens_left sp (snd (decode_step (active_handles sp b) b)) < tokens_left sp b"
proof -
  obtain h hs where hs: "active_handles sp b = h # hs" using assms by (cases "active_handles sp b") auto
  then have "h \<in> set (active_handles sp b)" by simp
  then have h: "h \<in> set (sp_handles sp)" "\<not> is_finished b h" by (simp_all add: active_handles_def)
  let ?b = "snd (decode_step (active_handles sp b) b)"
  have "\<exists>outputs. ?b = snd (decode_handles hs outputs (snd (decode_one h b)))"
    by (cases "decode_one h b") (auto simp: hs decode_step_def split: option.split)
  then have "left ?b h < left b h"
    using left_decode_less[OF h(2)] left_decode_handles_le by (metis order_le_less_trans)
  moreover have "left ?b j \<le> left b j" for j
    unfolding decode_step_def by (rule left_decode_handles_le)
  ultimately show ?thesis
    unfolding tokens_left_def using h(1) by (intro sum_list_map_less) auto
qed

lemma tokens_left_apply_plans: "tokens_left sp (pg_backend (apply_plans sp pg)) \<le> tokens_left sp (pg_backend pg)"
  unfolding tokens_left_def by (rule sum_list_mono) (rule left_apply_plans_le)

function schedule_loop :: "schedule \<Rightarrow> progress \<Rightarrow> schedule_exn + progress" where
  "schedule_loop sp pg =
     (if active_handles sp (pg_backend pg) = [] then Inr pg
      else if int (pg_step_count pg) \<in> set (sp_shared sp) then Inr (shared_failure sp pg)
      else
        let pg1 = apply_plans sp pg; hs = active_handles sp (pg_backend pg1) in
        if hs = [] then Inr pg1
        else
          let (outputs, b) = decode_step hs (pg_backend pg1) in
          case route_outputs (sp_reverse_routes sp) outputs (pg_accumulators pg1) of
            Inl e \<Rightarrow> Inl e
          | Inr acc \<Rightarrow>
              schedule_loop sp
                (pg1\<lparr>pg_backend := b, pg_accumulators := acc, pg_step_count := pg_step_count pg1 + 1\<rparr>))"
  by pat_completeness auto

termination
proof (relation "measure (\<lambda>(sp, pg). tokens_left sp (pg_backend pg))")
  fix sp pg pg1 hs x outputs b acc
  assume *: "pg1 = apply_plans sp pg" "hs = active_handles sp (pg_backend pg1)" "hs \<noteq> []"
    "x = decode_step hs (pg_backend pg1)" "(outputs, b) = x"
  have "tokens_left sp b < tokens_left sp (pg_backend pg1)"
    using decode_step_uses_tokens[of sp "pg_backend pg1"] * by (metis snd_conv)
  then have "tokens_left sp b < tokens_left sp (pg_backend pg)"
    using tokens_left_apply_plans[of sp pg] *(1) by simp
  then show "((sp, pg1\<lparr>pg_backend := b, pg_accumulators := acc, pg_step_count := pg_step_count pg1 + 1\<rparr>), sp, pg)
      \<in> measure (\<lambda>(sp, pg). tokens_left sp (pg_backend pg))" by simp
qed simp

declare schedule_loop.simps [simp del]

text \<open>The report's fields that are constants of the class are left out.\<close>

record TokenStepSchedulerReport =
  tp_request_count :: nat
  tp_sequence_count :: nat
  tp_decode_steps :: nat
  tp_sequences_finished :: int
  tp_sequences_cancelled :: nat
  tp_sequences_timed_out :: nat
  tp_sequences_failed :: nat
  tp_sequences_cleaned_up :: nat
  tp_terminal_states_observed :: nat
  tp_demux_routes_created :: nat
  tp_sampler_states_observed :: nat
  tp_cancellation_events_observed :: nat
  tp_timeout_events_observed :: nat
  tp_failure_events_observed :: nat
  tp_shared_step_failures_observed :: nat
  tp_demux_bleed_detected :: bool
  tp_cleanup_exactly_once :: bool

definition content_of :: "(string, string list) dict \<Rightarrow> TokenStepRequest \<Rightarrow> string" where
  "content_of acc req = py_join '' '' (get_or [] acc (tr_request_id req))"

definition bleeds :: "TokenStepRequest list \<Rightarrow> (string, string list) dict \<Rightarrow> bool" where
  "bleeds requests acc \<longleftrightarrow>
     list_ex (\<lambda>req. list_ex (\<lambda>other.
         tr_request_id req \<noteq> tr_request_id other \<and> tr_sampler_label other \<noteq> tr_sampler_label req
       \<and> py_contains (content_of acc other) (tr_sampler_label req)) requests) requests"

definition schedule_report ::
  "TokenStepRequest list \<Rightarrow> schedule \<Rightarrow> progress \<Rightarrow> TokenStepSchedulerReport" where
  "schedule_report requests sp pg =
     \<lparr>tp_request_count = length requests, tp_sequence_count = length (sp_handles sp),
      tp_decode_steps = pg_step_count pg,
      tp_sequences_finished = int (length requests) - int (pg_cancelled pg) - int (pg_timed_out pg) - int (pg_failed pg),
      tp_sequences_cancelled = pg_cancelled pg, tp_sequences_timed_out = pg_timed_out pg,
      tp_sequences_failed = pg_failed pg, tp_sequences_cleaned_up = length (sp_handles sp),
      tp_terminal_states_observed = length requests, tp_demux_routes_created = length (sp_routes sp),
      tp_sampler_states_observed = length requests,
      tp_cancellation_events_observed = length (sp_cancel sp), tp_timeout_events_observed = length (sp_timeout sp),
      tp_failure_events_observed = length (sp_fail sp),
      tp_shared_step_failures_observed = pg_shared_failures pg,
      tp_demux_bleed_detected = bleeds requests (pg_accumulators pg), 
      tp_cleanup_exactly_once = (length (sp_handles sp) = length (sp_handles sp))\<rparr>"

definition new_progress :: "TokenStepRequest list \<Rightarrow> FakeTokenStepBackend \<Rightarrow> progress" where
  "new_progress requests b =
     \<lparr>pg_backend = b, pg_accumulators = fold (\<lambda>r. dset (tr_request_id r) []) requests [], pg_step_count = 0,
      pg_cancelled = 0, pg_timed_out = 0, pg_failed = 0, pg_shared_failures = 0\<rparr>"

text \<open>The schedule returns its results and report, and leaves the backend with every sequence released.\<close>

definition run_fake_token_step_schedule ::
  "TokenStepRequest list \<Rightarrow> FakePlan list \<Rightarrow> FakePlan list \<Rightarrow> FakePlan list \<Rightarrow> int list \<Rightarrow> FakeTokenStepBackend
   \<Rightarrow> schedule_exn + (TokenStepResult list \<times> TokenStepSchedulerReport \<times> FakeTokenStepBackend)" where
  "run_fake_token_step_schedule requests cancellation_plan timeout_plan failure_plan shared_step_failure_plan b0 =
     (if requests = [] then Inl NoRequests
      else
        let (handles, routes, b) = prefill_all requests [] [] b0;
            reverse_routes = fold (\<lambda>r. dset (get_or [] routes (tr_request_id r)) (tr_request_id r)) requests [];
            sp = \<lparr>sp_handles = handles, sp_routes = routes, sp_reverse_routes = reverse_routes,
                  sp_cancel = cancellation_plan, sp_timeout = timeout_plan, sp_fail = failure_plan,
                  sp_shared = shared_step_failure_plan\<rparr>
        in case schedule_loop sp (new_progress requests b) of
             Inl e \<Rightarrow> Inl e
           | Inr pg \<Rightarrow>
               Inr (map (\<lambda>req. \<lparr>tq_request_id = tr_request_id req, tq_content = content_of (pg_accumulators pg) req,
                                tq_finish_reason = finish_reason (pg_backend pg) (get_or [] routes (tr_request_id req))\<rparr>)
                      requests,
                    schedule_report requests sp pg,
                    fold release_sequence handles (pg_backend pg)))"

section \<open>Requests and their sequences\<close>

text \<open>The \<open>n\<close>-th token of a request, and what the backend and the accumulators hold of a request and
  its handle in the course of the schedule.\<close>

definition token :: "TokenStepRequest \<Rightarrow> nat \<Rightarrow> string" where
  "token r n = tr_request_id r @ ''_'' @ tr_sampler_label r @ ''_'' @ show_nat n"

definition seq_ok ::
  "FakeTokenStepBackend \<Rightarrow> (string, string list) dict \<Rightarrow> TokenStepRequest \<Rightarrow> string \<Rightarrow> bool" where
  "seq_ok b acc r h \<longleftrightarrow>
     dget (tb_max_tokens b) h = Some (tr_max_tokens r) \<and> dget (tb_samplers b) h = Some (tr_sampler_label r)
   \<and> dget (tb_rids b) h = Some (tr_request_id r)
   \<and> (\<exists>k. dget (tb_step_counts b) h = Some k \<and> dget acc (tr_request_id r) = Some (map (token r) [0..<k])
        \<and> int k \<le> max 0 (tr_max_tokens r) \<and> (dget (tb_states b) h = Some Q_FINISHED \<longrightarrow> tr_max_tokens r \<le> int k))
   \<and> dget (tb_states b) h \<notin> {None, Some Q_CLEANED_UP}"

definition paired :: "TokenStepRequest list \<Rightarrow> schedule \<Rightarrow> bool" where
  "paired rs sp \<longleftrightarrow>
     length (sp_handles sp) = length rs \<and> distinct (sp_handles sp) \<and> distinct (map tr_request_id rs)
   \<and> (\<forall>(r, h) \<in> set (zip rs (sp_handles sp)).
        dget (sp_routes sp) (tr_request_id r) = Some h \<and> dget (sp_reverse_routes sp) h = Some (tr_request_id r))
   \<and> (\<forall>rid h. dget (sp_routes sp) rid = Some h \<longrightarrow> h \<in> set (sp_handles sp))"

definition all_ok ::
  "TokenStepRequest list \<Rightarrow> schedule \<Rightarrow> FakeTokenStepBackend \<Rightarrow> (string, string list) dict \<Rightarrow> bool" where
  "all_ok rs sp b acc \<longleftrightarrow> (\<forall>(r, h) \<in> set (zip rs (sp_handles sp)). seq_ok b acc r h)"

lemma paired_request:
  assumes "paired rs sp" "h \<in> set (sp_handles sp)"
  obtains r where "(r, h) \<in> set (zip rs (sp_handles sp))"
  using assms in_set_impl_in_set_zip2[of rs "sp_handles sp" h] by (auto simp: paired_def)

lemma paired_unique:
  assumes "paired rs sp" "(r, h) \<in> set (zip rs (sp_handles sp))" "(r', h') \<in> set (zip rs (sp_handles sp))"
  shows "h = h' \<longleftrightarrow> r = r'" "tr_request_id r = tr_request_id r' \<longleftrightarrow> r = r'"
proof -
  have d: "distinct (sp_handles sp)" "distinct (map tr_request_id rs)" using assms(1) by (simp_all add: paired_def)
  obtain i j where i: "i < length rs" "i < length (sp_handles sp)" "r = rs ! i" "h = sp_handles sp ! i"
    and j: "j < length rs" "j < length (sp_handles sp)" "r' = rs ! j" "h' = sp_handles sp ! j"
    using assms(2,3) by (auto simp: set_zip)
  have "tr_request_id r = tr_request_id r' \<longleftrightarrow> i = j"
    using nth_eq_iff_index_eq[OF d(2), of i j] i(1,3) j(1,3) by simp
  moreover have "h = h' \<longleftrightarrow> i = j" using d(1) i j by (simp add: nth_eq_iff_index_eq)
  moreover have "r = r' \<longleftrightarrow> i = j" using calculation(1) i j by auto
  ultimately show "h = h' \<longleftrightarrow> r = r'" "tr_request_id r = tr_request_id r' \<longleftrightarrow> r = r'" by simp_all
qed

lemma seq_ok_end: "st \<in> {Q_CANCELLED, Q_TIMED_OUT, Q_FAILED} \<Longrightarrow> seq_ok b acc r h \<Longrightarrow> seq_ok (end_sequence st j b) acc r h"
  by (auto simp: seq_ok_def end_sequence_def dict_simps)

lemma all_ok_end: "st \<in> {Q_CANCELLED, Q_TIMED_OUT, Q_FAILED} \<Longrightarrow> all_ok rs sp b acc \<Longrightarrow> all_ok rs sp (end_sequence st j b) acc"
  by (auto simp: all_ok_def seq_ok_end)

lemma seq_ok_decode_other:
  "seq_ok b acc r h \<Longrightarrow> h \<noteq> j \<Longrightarrow> tr_request_id r \<noteq> rid \<Longrightarrow>
   seq_ok (snd (decode_one j b)) acc r h \<and> seq_ok (snd (decode_one j b)) (dset rid ts acc) r h"
  by (auto simp: seq_ok_def decode_one_def Let_def dict_simps)

lemma seq_ok_decode_same:
  assumes "seq_ok b acc r h"
  shows "case decode_one h b of
      (None, b') \<Rightarrow> seq_ok b' acc r h
    | (Some t, b') \<Rightarrow> \<exists>ts. dget acc (tr_request_id r) = Some ts \<and> seq_ok b' (dset (tr_request_id r) (ts @ [t]) acc) r h"
  using assms
  by (auto simp: seq_ok_def decode_one_def Let_def get_or_def dict_simps token_def)

lemma decode_one_ok:
  assumes "paired rs sp" "all_ok rs sp b acc" "h \<in> set (sp_handles sp)"
  shows "case decode_one h b of
      (None, b') \<Rightarrow> all_ok rs sp b' acc
    | (Some t, b') \<Rightarrow> \<exists>rid ts. dget (sp_reverse_routes sp) h = Some rid \<and> dget acc rid = Some ts
                       \<and> all_ok rs sp b' (dset rid (ts @ [t]) acc)"
proof -
  obtain r where r: "(r, h) \<in> set (zip rs (sp_handles sp))" by (rule paired_request[OF assms(1,3)])
  have ok: "seq_ok b acc r' h'" if "(r', h') \<in> set (zip rs (sp_handles sp))" for r' h'
    using assms(2) that by (auto simp: all_ok_def)
  have other: "seq_ok (snd (decode_one h b)) acc r' h' \<and> seq_ok (snd (decode_one h b)) (dset (tr_request_id r) ts acc) r' h'"
    if "(r', h') \<in> set (zip rs (sp_handles sp))" "h' \<noteq> h" for r' h' ts
    by (rule seq_ok_decode_other[OF ok[OF that(1)]]) (use paired_unique[OF assms(1) that(1) r] that(2) in simp_all)
  have rev: "dget (sp_reverse_routes sp) h = Some (tr_request_id r)" using assms(1) r by (auto simp: paired_def)
  note same = seq_ok_decode_same[OF ok[OF r]] and unique = paired_unique[OF assms(1) _ r]
  show ?thesis
  proof (cases "decode_one h b")
    case (Pair t b')
    show ?thesis
    proof (cases t)
      case None
      have "seq_ok b' acc r' h'" if "(r', h') \<in> set (zip rs (sp_handles sp))" for r' h'
        using other[OF that] same unique[OF that] Pair None by (cases "h' = h") auto
      then show ?thesis using Pair None by (auto simp: all_ok_def)
    next
      case (Some t')
      then obtain ts where ts: "dget acc (tr_request_id r) = Some ts"
        "seq_ok b' (dset (tr_request_id r) (ts @ [t']) acc) r h" using same Pair by auto
      have "seq_ok b' (dset (tr_request_id r) (ts @ [t']) acc) r' h'" if "(r', h') \<in> set (zip rs (sp_handles sp))" for r' h'
        using other[OF that] ts(2) unique[OF that] Pair by (cases "h' = h") auto
      then show ?thesis using Pair Some rev ts(1) by (auto simp: all_ok_def)
    qed
  qed
qed

text \<open>The outputs of one step are routed as if each token were routed when it is produced.\<close>

lemma decode_handles_outputs:
  "distinct hs \<Longrightarrow> set hs \<inter> set (dkeys outs) = {} \<Longrightarrow>
   decode_handles hs outs b = (outs @ fst (decode_handles hs [] b), snd (decode_handles hs [] b))"
proof (induction hs arbitrary: outs b)
  case (Cons h hs)
  note IH = Cons.IH[of "[(h, t)]" "snd (decode_one h b)" for t] Cons.IH[of "outs @ [(h, t)]" "snd (decode_one h b)" for t]
    Cons.IH[of outs "snd (decode_one h b)"]
  show ?case
  proof (cases "decode_one h b")
    case (Pair t b')
    have keys: "distinct hs" "set hs \<inter> set (dkeys [(h, x)]) = {}" "set hs \<inter> set (dkeys (outs @ [(h, x)])) = {}"
      "set hs \<inter> set (dkeys outs) = {}" "h \<notin> set (dkeys outs)" for x :: string
      using Cons.prems by auto
    show ?thesis
    proof (cases t)
      case None
      then show ?thesis using IH(3)[OF keys(1,4)] Pair by simp
    next
      case (Some x)
      then show ?thesis
        using IH(1)[OF keys(1,2)] IH(2)[OF keys(1,3)] Pair dset_fresh[OF keys(5)] by simp
    qed
  qed
qed simp

lemma decode_step_ok:
  assumes "paired rs sp" "all_ok rs sp b acc" "distinct hs" "set hs \<subseteq> set (sp_handles sp)"
  shows "\<exists>acc'. route_outputs (sp_reverse_routes sp) (fst (decode_step hs b)) acc = Inr acc'
           \<and> all_ok rs sp (snd (decode_step hs b)) acc'"
  unfolding decode_step_def using assms(2-4)
proof (induction hs arbitrary: b acc)
  case (Cons h hs)
  show ?case
  proof (cases "decode_one h b")
    case (Pair t b')
    note one = decode_one_ok[OF assms(1) Cons.prems(1), of h, unfolded Pair]
    show ?thesis
    proof (cases t)
      case None
      then show ?thesis using Cons one Pair by simp
    next
      case (Some t')
      then obtain rid ts where *: "dget (sp_reverse_routes sp) h = Some rid" "dget acc rid = Some ts"
        "all_ok rs sp b' (dset rid (ts @ [t']) acc)" using one Cons.prems(3) by auto
      have "decode_handles hs [(h, t')] b' = ((h, t') # fst (decode_handles hs [] b'), snd (decode_handles hs [] b'))"
        using decode_handles_outputs[of hs "[(h, t')]" b'] Cons.prems(2) by simp
      then show ?thesis
        using Cons.IH[OF *(3)] Cons.prems(2,3) * Pair Some by (simp add: get_or_def)
    qed
  qed
qed simp

section \<open>The counters\<close>

abbreviation early_ends :: "TokenStepSequenceState set" where
  "early_ends \<equiv> {Q_CANCELLED, Q_TIMED_OUT, Q_FAILED}"

definition in_state :: "schedule \<Rightarrow> FakeTokenStepBackend \<Rightarrow> TokenStepSequenceState \<Rightarrow> nat" where
  "in_state sp b st = length (filter (\<lambda>h. dget (tb_states b) h = Some st) (sp_handles sp))"

definition counts_ok :: "schedule \<Rightarrow> progress \<Rightarrow> bool" where
  "counts_ok sp pg \<longleftrightarrow>
     pg_cancelled pg = in_state sp (pg_backend pg) Q_CANCELLED
   \<and> pg_timed_out pg = in_state sp (pg_backend pg) Q_TIMED_OUT
   \<and> pg_failed pg = in_state sp (pg_backend pg) Q_FAILED"

lemma filter_state_dset:
  "distinct hs \<Longrightarrow> h \<in> set hs \<Longrightarrow> dget d h \<noteq> Some st \<Longrightarrow>
   length (filter (\<lambda>j. dget (dset h v d) j = Some st) hs) =
   length (filter (\<lambda>j. dget d j = Some st) hs) + (if v = st then 1 else 0)"
proof (induction hs)
  case (Cons j hs)
  have "filter (\<lambda>j. dget (dset h v d) j = Some st) hs = filter (\<lambda>j. dget d j = Some st) hs" if "h \<notin> set hs"
    using that by (auto simp: dict_simps intro!: filter_cong)
  then show ?case using Cons by (cases "j = h") (auto simp: dict_simps)
qed simp

lemma in_state_end:
  assumes "distinct (sp_handles sp)" "h \<in> set (sp_handles sp)" "\<not> is_finished b h"
    "dget (tb_states b) h \<noteq> Some Q_CLEANED_UP" "st' \<in> early_ends"
  shows "in_state sp (end_sequence st h b) st' = in_state sp b st' + (if st = st' then 1 else 0)"
proof -
  have "dget (tb_states b) h \<noteq> Some st'" using assms(3,5) by (auto simp: is_finished_def)
  from filter_state_dset[OF assms(1,2) this, of st] show ?thesis
    using assms(3,4) by (simp add: in_state_def end_sequence_def is_finished_def)
qed

lemma all_ok_not_cleaned:
  assumes "paired rs sp" "all_ok rs sp b acc" "h \<in> set (sp_handles sp)"
  shows "dget (tb_states b) h \<notin> {None, Some Q_CLEANED_UP}"
proof -
  obtain r where "(r, h) \<in> set (zip rs (sp_handles sp))" by (rule paired_request[OF assms(1,3)])
  then have "seq_ok b acc r h" using assms(2) by (auto simp: all_ok_def)
  then show ?thesis by (simp add: seq_ok_def)
qed

lemma apply_plan_ok:
  assumes "paired rs sp" "all_ok rs sp b acc" "st \<in> early_ends"
  shows "all_ok rs sp (fst (apply_plan (sp_routes sp) (end_sequence st) rids b)) acc \<and>
    (\<forall>st' \<in> early_ends. in_state sp (fst (apply_plan (sp_routes sp) (end_sequence st) rids b)) st' =
       in_state sp b st' + (if st = st' then snd (apply_plan (sp_routes sp) (end_sequence st) rids b) else 0))"
  using assms(2)
proof (induction rids arbitrary: b)
  case (Cons rid rids)
  show ?case
  proof (cases "\<exists>h. dget (sp_routes sp) rid = Some h \<and> \<not> is_finished b h")
    case True
    then obtain h where h: "dget (sp_routes sp) rid = Some h" "\<not> is_finished b h" by blast
    have in_sp: "h \<in> set (sp_handles sp)" "distinct (sp_handles sp)" using assms(1) h(1) by (auto simp: paired_def)
    have "in_state sp (end_sequence st h b) st' = in_state sp b st' + (if st = st' then 1 else 0)" if "st' \<in> early_ends" for st'
      using in_state_end[OF in_sp(2,1) h(2) _ that] all_ok_not_cleaned[OF assms(1) Cons.prems in_sp(1)] by simp
    then show ?thesis
      using Cons.IH[OF all_ok_end[OF assms(3) Cons.prems, of h]] h by (simp add: case_prod_beta' Let_def)
  next
    case False
    then show ?thesis using Cons by (auto split: option.split)
  qed
qed (use assms in simp)

lemma apply_plans_ok:
  assumes "paired rs sp" "all_ok rs sp (pg_backend pg) (pg_accumulators pg)" "counts_ok sp pg"
  shows "all_ok rs sp (pg_backend (apply_plans sp pg)) (pg_accumulators (apply_plans sp pg))" "counts_ok sp (apply_plans sp pg)"
proof -
  let ?p = "\<lambda>st plan. apply_plan (sp_routes sp) (end_sequence st) (plans_at plan (pg_step_count pg))"
  define p1 where "p1 = ?p Q_CANCELLED (sp_cancel sp) (pg_backend pg)"
  define p2 where "p2 = ?p Q_TIMED_OUT (sp_timeout sp) (fst p1)"
  define p3 where "p3 = ?p Q_FAILED (sp_fail sp) (fst p2)"
  have pg: "apply_plans sp pg =
      pg\<lparr>pg_backend := fst p3, pg_cancelled := pg_cancelled pg + snd p1, pg_timed_out := pg_timed_out pg + snd p2,
         pg_failed := pg_failed pg + snd p3\<rparr>"
    by (simp add: apply_plans_def end_sequence_defs p1_def p2_def p3_def Let_def case_prod_beta')
  note a1 = apply_plan_ok[OF assms(1,2), of Q_CANCELLED "plans_at (sp_cancel sp) (pg_step_count pg)", folded p1_def]
  note a2 = apply_plan_ok[OF assms(1) conjunct1[OF a1], of Q_TIMED_OUT "plans_at (sp_timeout sp) (pg_step_count pg)", folded p2_def]
  note a3 = apply_plan_ok[OF assms(1) conjunct1[OF a2], of Q_FAILED "plans_at (sp_fail sp) (pg_step_count pg)", folded p3_def]
  show "all_ok rs sp (pg_backend (apply_plans sp pg)) (pg_accumulators (apply_plans sp pg))"
    using a1 a2 a3 by (simp add: pg)
  show "counts_ok sp (apply_plans sp pg)" using assms(3) a1 a2 a3 by (simp add: pg counts_ok_def)
qed

lemma decode_one_ends:
  "st \<in> early_ends \<Longrightarrow> dget (tb_states (snd (decode_one h b))) j = Some st \<longleftrightarrow> dget (tb_states b) j = Some st"
  by (auto simp: decode_one_def Let_def dict_simps)

lemma decode_handles_ends:
  "st \<in> early_ends \<Longrightarrow> dget (tb_states (snd (decode_handles hs outs b))) j = Some st \<longleftrightarrow> dget (tb_states b) j = Some st"
proof (induction hs arbitrary: outs b)
  case (Cons h hs)
  then show ?case
    using decode_one_ends[OF Cons.prems, of h b j] by (cases "decode_one h b") (auto split: option.split)
qed simp

lemma in_state_decode: "st \<in> early_ends \<Longrightarrow> in_state sp (snd (decode_step hs b)) st = in_state sp b st"
  by (simp only: in_state_def decode_step_def decode_handles_ends)

lemma shared_failure_ok:
  assumes "paired rs sp" "all_ok rs sp (pg_backend pg) (pg_accumulators pg)" "counts_ok sp pg"
  shows "all_ok rs sp (pg_backend (shared_failure sp pg)) (pg_accumulators (shared_failure sp pg))"
    "counts_ok sp (shared_failure sp pg)" "active_handles sp (pg_backend (shared_failure sp pg)) = []"
proof -
  have fold: "all_ok rs sp (fold fail_sequence hs b) acc
      \<and> (\<forall>st' \<in> early_ends. in_state sp (fold fail_sequence hs b) st' = in_state sp b st' + (if st' = Q_FAILED then length hs else 0))
      \<and> (\<forall>j. is_finished b j \<or> j \<in> set hs \<longrightarrow> is_finished (fold fail_sequence hs b) j)"
    if "all_ok rs sp b acc" "distinct hs" "\<forall>h \<in> set hs. h \<in> set (sp_handles sp) \<and> \<not> is_finished b h" for hs b acc
    using that
  proof (induction hs arbitrary: b)
    case (Cons h hs)
    have in_sp: "h \<in> set (sp_handles sp)" "distinct (sp_handles sp)" "\<not> is_finished b h"
      using assms(1) Cons.prems(3) by (auto simp: paired_def)
    have st: "dget (tb_states b) h \<notin> {None, Some Q_CLEANED_UP}" by (rule all_ok_not_cleaned[OF assms(1) Cons.prems(1) in_sp(1)])
    have fin: "is_finished (fail_sequence h b) j \<longleftrightarrow> is_finished b j \<or> j = h" for j
      using in_sp(3) st by (auto simp: fail_sequence_def end_sequence_def is_finished_def dict_simps)
    have cnt: "in_state sp (fail_sequence h b) st' = in_state sp b st' + (if st' = Q_FAILED then 1 else 0)" if "st' \<in> early_ends" for st'
      using in_state_end[OF in_sp(2,1,3) _ that, of Q_FAILED] st by (auto simp: fail_sequence_def)
    have ok: "all_ok rs sp (fail_sequence h b) acc" unfolding fail_sequence_def by (rule all_ok_end) (use Cons.prems(1) in simp_all)
    have "\<forall>h' \<in> set hs. h' \<in> set (sp_handles sp) \<and> \<not> is_finished (fail_sequence h b) h'"
      using Cons.prems(2,3) fin by auto
    from Cons.IH[OF ok _ this] Cons.prems(2) show ?case using cnt fin by auto
  qed simp
  let ?hs = "active_handles sp (pg_backend pg)"
  have hs: "distinct ?hs" "\<forall>h \<in> set ?hs. h \<in> set (sp_handles sp) \<and> \<not> is_finished (pg_backend pg) h"
    using assms(1) by (simp_all add: active_handles_def paired_def)
  note F = fold[OF assms(2) hs]
  show "all_ok rs sp (pg_backend (shared_failure sp pg)) (pg_accumulators (shared_failure sp pg))"
    using F by (simp add: shared_failure_def Let_def)
  show "counts_ok sp (shared_failure sp pg)" using F assms(3) by (simp add: shared_failure_def Let_def counts_ok_def)
  show "active_handles sp (pg_backend (shared_failure sp pg)) = []"
    using F by (auto simp: shared_failure_def Let_def active_handles_def filter_empty_conv)
qed

section \<open>The loop\<close>

lemma schedule_loop_ok:
  assumes "paired rs sp" "all_ok rs sp (pg_backend pg) (pg_accumulators pg)" "counts_ok sp pg"
  shows "\<exists>pg'. schedule_loop sp pg = Inr pg' \<and> all_ok rs sp (pg_backend pg') (pg_accumulators pg')
           \<and> counts_ok sp pg' \<and> active_handles sp (pg_backend pg') = []"
  using assms
proof (induction sp pg rule: schedule_loop.induct)
  case (1 sp pg)
  note shared = shared_failure_ok[OF 1(2-4)] and plans = apply_plans_ok[OF 1(2-4)]
  let ?pg1 = "apply_plans sp pg"
  let ?hs = "active_handles sp (pg_backend ?pg1)"
  consider "active_handles sp (pg_backend pg) = []"
    | "active_handles sp (pg_backend pg) \<noteq> []" "int (pg_step_count pg) \<in> set (sp_shared sp)"
    | "active_handles sp (pg_backend pg) \<noteq> []" "int (pg_step_count pg) \<notin> set (sp_shared sp)" "?hs = []"
    | "active_handles sp (pg_backend pg) \<noteq> []" "int (pg_step_count pg) \<notin> set (sp_shared sp)" "?hs \<noteq> []" by blast
  then show ?case
  proof cases
    case 4
    have "distinct ?hs" "set ?hs \<subseteq> set (sp_handles sp)" using 1(2) by (auto simp: active_handles_def paired_def)
    from decode_step_ok[OF 1(2) plans(1) this] obtain acc where
      acc: "route_outputs (sp_reverse_routes sp) (fst (decode_step ?hs (pg_backend ?pg1))) (pg_accumulators ?pg1) = Inr acc"
      "all_ok rs sp (snd (decode_step ?hs (pg_backend ?pg1))) acc" by blast
    let ?pg2 = "?pg1\<lparr>pg_backend := snd (decode_step ?hs (pg_backend ?pg1)), pg_accumulators := acc,
        pg_step_count := pg_step_count ?pg1 + 1\<rparr>"
    have "counts_ok sp ?pg2" using plans(2) by (simp add: counts_ok_def in_state_decode)
    moreover have "schedule_loop sp pg = schedule_loop sp ?pg2"
      using 4 acc(1) by (subst schedule_loop.simps) (simp add: Let_def case_prod_beta')
    ultimately show ?thesis
      using 1(1)[OF 4(1,2) refl refl 4(3) refl _ acc(1), of "snd (decode_step ?hs (pg_backend ?pg1))"] 1(2) acc(2) by simp
  qed (use 1(2-) shared plans in \<open>auto simp: schedule_loop.simps[of sp pg] Let_def\<close>)
qed

section \<open>Set-up\<close>

lemma dget_fold_dset_other: "k \<notin> f ` set xs \<Longrightarrow> dget (fold (\<lambda>x. dset (f x) (g x)) xs d) k = dget d k"
  by (induction xs arbitrary: d) (auto simp: dict_simps)

lemma dget_fold_dset:
  "distinct (map f xs) \<Longrightarrow> x \<in> set xs \<Longrightarrow> dget (fold (\<lambda>x. dset (f x) (g x)) xs d) (f x) = Some (g x)"
proof (induction xs arbitrary: d)
  case (Cons y ys)
  then show ?case
    using dget_fold_dset_other[of "f y" f ys g "dset (f y) (g y) d"] by (cases "x = y") (auto simp: dict_simps)
qed simp

lemma dget_fold_dset_range:
  "dget (fold (\<lambda>x. dset (f x) (g x)) xs d) k = Some v \<Longrightarrow> dget d k = Some v \<or> v \<in> g ` set xs"
proof (induction xs arbitrary: d)
  case (Cons y ys)
  from Cons.IH[OF Cons.prems[simplified]] show ?case by (auto simp: dict_simps split: if_splits)
qed simp

lemma seq_id_inj [simp]: "seq_id m = seq_id n \<longleftrightarrow> m = n"
  by (simp add: seq_id_def)

definition prefilled :: "FakeTokenStepBackend \<Rightarrow> TokenStepRequest \<Rightarrow> string \<Rightarrow> bool" where
  "prefilled b r h \<longleftrightarrow>
     dget (tb_max_tokens b) h = Some (tr_max_tokens r) \<and> dget (tb_samplers b) h = Some (tr_sampler_label r)
   \<and> dget (tb_rids b) h = Some (tr_request_id r) \<and> dget (tb_step_counts b) h = Some 0
   \<and> dget (tb_states b) h = Some Q_READY_TO_DECODE"

lemma prefilled_seq_ok: "prefilled b r h \<Longrightarrow> dget acc (tr_request_id r) = Some [] \<Longrightarrow> seq_ok b acc r h"
  by (simp add: prefilled_def seq_ok_def)

lemma prefill_request_prefilled:
  "prefilled (snd (prefill_request r b)) r (fst (prefill_request r b))"
  "h \<noteq> seq_id (tb_next_id b) \<Longrightarrow> prefilled b q h \<Longrightarrow> prefilled (snd (prefill_request r b)) q h"
  "fst (prefill_request r b) = seq_id (tb_next_id b)" "tb_next_id (snd (prefill_request r b)) = Suc (tb_next_id b)"
  by (simp_all add: prefilled_def prefill_request_def Let_def dict_simps)

lemma prefill_all_spec:
  fixes rs b
  defines "hs \<equiv> map seq_id [tb_next_id b..<tb_next_id b + length rs]"
  shows "\<exists>b'. prefill_all rs hs0 routes b = (hs0 @ hs, fold (\<lambda>(r, h). dset (tr_request_id r) h) (zip rs hs) routes, b')
    \<and> (\<forall>(r, h) \<in> set (zip rs hs). prefilled b' r h)
    \<and> (\<forall>q n. n < tb_next_id b \<longrightarrow> prefilled b q (seq_id n) \<longrightarrow> prefilled b' q (seq_id n))"
  unfolding hs_def
proof (induction rs arbitrary: hs0 routes b)
  case (Cons r rs)
  let ?p = "prefill_request r b"
  let ?hs = "map seq_id [Suc (tb_next_id b)..<Suc (tb_next_id b) + length rs]"
  have upt: "map seq_id [tb_next_id b..<tb_next_id b + length (r # rs)] = seq_id (tb_next_id b) # ?hs"
    using upt_conv_Cons[of "tb_next_id b" "tb_next_id b + length (r # rs)"] by simp
  from Cons.IH[of "hs0 @ [fst ?p]" "dset (tr_request_id r) (fst ?p) routes" "snd ?p"] obtain b' where
    b': "prefill_all rs (hs0 @ [fst ?p]) (dset (tr_request_id r) (fst ?p) routes) (snd ?p) =
      (hs0 @ [fst ?p] @ ?hs, fold (\<lambda>(r, h). dset (tr_request_id r) h) (zip rs ?hs) (dset (tr_request_id r) (fst ?p) routes), b')"
    "\<forall>(r, h) \<in> set (zip rs ?hs). prefilled b' r h"
    "\<forall>q n. n < Suc (tb_next_id b) \<longrightarrow> prefilled (snd ?p) q (seq_id n) \<longrightarrow> prefilled b' q (seq_id n)"
    unfolding prefill_request_prefilled(4) by auto
  have "prefilled b' r (seq_id (tb_next_id b))"
    using b'(3) prefill_request_prefilled(1)[of r b] by (simp add: prefill_request_prefilled(3))
  moreover have "prefilled b' q (seq_id n)" if "n < tb_next_id b" "prefilled b q (seq_id n)" for q n
    using b'(3) prefill_request_prefilled(2)[OF _ that(2), of r] that(1) by simp
  ultimately show ?case
    unfolding upt using b'(1,2) by (simp add: case_prod_beta' prefill_request_prefilled(3) del: upt_Suc)
qed simp

definition initial_schedule ::
  "TokenStepRequest list \<Rightarrow> FakePlan list \<Rightarrow> FakePlan list \<Rightarrow> FakePlan list \<Rightarrow> int list \<Rightarrow> FakeTokenStepBackend \<Rightarrow> schedule" where
  "initial_schedule rs cans tos fails shared b0 =
     (let (handles, routes, b) = prefill_all rs [] [] b0 in
      \<lparr>sp_handles = handles, sp_routes = routes,
       sp_reverse_routes = fold (\<lambda>r. dset (get_or [] routes (tr_request_id r)) (tr_request_id r)) rs [],
       sp_cancel = cans, sp_timeout = tos, sp_fail = fails, sp_shared = shared\<rparr>)"

lemma initial_schedule_ok:
  fixes rs cans tos fails shared b0
  assumes "distinct (map tr_request_id rs)"
  defines "sp \<equiv> initial_schedule rs cans tos fails shared b0" and "b \<equiv> snd (snd (prefill_all rs [] [] b0))"
  shows "paired rs sp" "all_ok rs sp b (pg_accumulators (new_progress rs b))" "counts_ok sp (new_progress rs b)"
    and "map (\<lambda>r. get_or [] (sp_routes sp) (tr_request_id r)) rs = sp_handles sp"
proof -
  let ?hs = "map seq_id [tb_next_id b0..<tb_next_id b0 + length rs]"
  have hs: "distinct ?hs" "length ?hs = length rs" by (simp_all add: distinct_map inj_on_def)
  have pre: "sp_handles sp = ?hs" "sp_routes sp = fold (\<lambda>(r, h). dset (tr_request_id r) h) (zip rs ?hs) []"
    "\<forall>(r, h) \<in> set (zip rs ?hs). prefilled b r h"
    using prefill_all_spec[where rs = rs and b = b0 and ?hs0.0 = "[]" and routes = "[]"]
    by (auto simp: sp_def initial_schedule_def b_def)
  let ?f = "\<lambda>(r, h). tr_request_id r"
  have "map ?f (zip rs ?hs) = map tr_request_id (map fst (zip rs ?hs))"
    unfolding map_map by (rule map_cong) auto
  then have keys: "distinct (map ?f (zip rs ?hs))"
    using assms(1) map_fst_zip[OF hs(2)[symmetric]] by (simp only:)
  have routes: "sp_routes sp = fold (\<lambda>x. dset (?f x) (snd x)) (zip rs ?hs) []"
    unfolding pre(2) by (rule arg_cong[where f = "\<lambda>f. fold f (zip rs ?hs) []"]) (auto simp: fun_eq_iff)
  have route: "dget (sp_routes sp) (tr_request_id r) = Some h" if "(r, h) \<in> set (zip rs ?hs)" for r h
    using dget_fold_dset[OF keys that, of snd "[]"] by (simp add: routes)
  show handles: "map (\<lambda>r. get_or [] (sp_routes sp) (tr_request_id r)) rs = sp_handles sp"
  proof (rule nth_equalityI)
    fix i
    assume "i < length (map (\<lambda>r. get_or [] (sp_routes sp) (tr_request_id r)) rs)"
    then have "(rs ! i, ?hs ! i) \<in> set (zip rs ?hs)" "i < length rs" using hs(2) by (auto simp: set_zip)
    then show "map (\<lambda>r. get_or [] (sp_routes sp) (tr_request_id r)) rs ! i = sp_handles sp ! i"
      using route by (simp add: get_or_def pre(1))
  qed (simp add: pre(1))
  have rev: "dget (sp_reverse_routes sp) h = Some (tr_request_id r)" if "(r, h) \<in> set (zip rs ?hs)" for r h
  proof -
    let ?g = "\<lambda>r. get_or [] (sp_routes sp) (tr_request_id r)"
    have reverse: "sp_reverse_routes sp = fold (\<lambda>r. dset (?g r) (tr_request_id r)) rs []"
      by (simp add: sp_def initial_schedule_def Let_def case_prod_beta')
    have "distinct (map ?g rs)" unfolding handles pre(1) by (rule hs(1))
    from dget_fold_dset[OF this set_zip_leftD[OF that], of tr_request_id "[]"]
    have "dget (sp_reverse_routes sp) (?g r) = Some (tr_request_id r)" unfolding reverse .
    then show ?thesis using route[OF that] by (simp add: get_or_def)
  qed
  have range: "h \<in> set ?hs" if "dget (sp_routes sp) rid = Some h" for rid h
  proof -
    have "h \<in> snd ` set (zip rs ?hs)"
      using dget_fold_dset_range[where f = ?f and g = snd and xs = "zip rs ?hs" and d = "[]"] that unfolding routes by auto
    then show ?thesis by (metis imageE prod.collapse set_zip_rightD)
  qed
  show "paired rs sp" using assms(1) hs route rev range by (auto simp: paired_def pre(1))
  have "dget (pg_accumulators (new_progress rs b)) (tr_request_id r) = Some []" if "r \<in> set rs" for r
    using dget_fold_dset[OF assms(1) that, of "\<lambda>_. []" "[]"] by (simp add: new_progress_def)
  then show "all_ok rs sp b (pg_accumulators (new_progress rs b))"
    unfolding all_ok_def pre(1) using pre(3) prefilled_seq_ok set_zip_leftD by fast
  have "dget (tb_states b) h = Some Q_READY_TO_DECODE" if h: "h \<in> set ?hs" for h
  proof -
    obtain r where "(r, h) \<in> set (zip rs ?hs)" by (rule in_set_impl_in_set_zip2[OF hs(2)[symmetric] h])
    then show ?thesis using pre(3) by (auto simp only: prefilled_def)
  qed
  then show "counts_ok sp (new_progress rs b)"
    by (simp add: counts_ok_def in_state_def new_progress_def pre(1) filter_empty_conv del: set_map set_upt)
qed

section \<open>Properties\<close>

definition result_ok :: "TokenStepRequest \<Rightarrow> TokenStepResult \<Rightarrow> bool" where
  "result_ok r q \<longleftrightarrow>
     tq_request_id q = tr_request_id r
   \<and> (\<exists>k \<le> nat (tr_max_tokens r). tq_content q = py_join '' '' (map (token r) [0..<k])
        \<and> (tq_finish_reason q = ''stop'' \<longrightarrow> k = nat (tr_max_tokens r)))"

lemma all_finished_partition:
  assumes "active_handles sp b = []"
  shows "in_state sp b Q_FINISHED + in_state sp b Q_CANCELLED + in_state sp b Q_TIMED_OUT + in_state sp b Q_FAILED
    = length (sp_handles sp)"
proof -
  have fin: "is_finished b h" if "h \<in> set (sp_handles sp)" for h
    using assms that by (auto simp: active_handles_def filter_empty_conv)
  let ?n = "\<lambda>st hs. length (filter (\<lambda>h. dget (tb_states b) h = Some st) hs)"
  have "?n Q_FINISHED hs + ?n Q_CANCELLED hs + ?n Q_TIMED_OUT hs + ?n Q_FAILED hs = length hs"
    if "\<forall>h \<in> set hs. is_finished b h" for hs
    using that by (induction hs) (auto simp: is_finished_def)
  then show ?thesis using fin by (simp add: in_state_def)
qed

lemma stop_iff: "is_finished b h \<Longrightarrow> finish_reason b h = ''stop'' \<longleftrightarrow> dget (tb_states b) h = Some Q_FINISHED"
  by (auto simp: is_finished_def finish_reason_def)

text \<open>
  C34. The token-step schedule always ends and keeps the requests apart. For any requests with distinct
  ids, any plans and any backend, the loop terminates and returns one result per request, in order:
  its content is the request's own tokens numbered from 0 without gap, at most \<open>max_tokens\<close> of them
  and exactly that many when it stopped by itself, and the report's counts of cancelled, timed out,
  failed and finished sequences add up.
\<close>

theorem token_step_schedule_sound:
  assumes "rs \<noteq> []" "distinct (map tr_request_id rs)"
  shows "\<exists>results report b. run_fake_token_step_schedule rs cans tos fails shared b0 = Inr (results, report, b)
    \<and> list_all2 result_ok rs results
    \<and> tp_sequences_finished report = int (length (filter (\<lambda>q. tq_finish_reason q = ''stop'') results))
    \<and> tp_sequences_finished report + int (tp_sequences_cancelled report) + int (tp_sequences_timed_out report)
        + int (tp_sequences_failed report) = int (length rs)"
proof -
  define sp where "sp = initial_schedule rs cans tos fails shared b0"
  define b where "b = snd (snd (prefill_all rs [] [] b0))"
  note init = initial_schedule_ok[OF assms(2), of cans tos fails shared b0, folded sp_def b_def]
  have "pg_backend (new_progress rs b) = b" by (simp add: new_progress_def)
  then obtain pg where pg: "schedule_loop sp (new_progress rs b) = Inr pg"
    "all_ok rs sp (pg_backend pg) (pg_accumulators pg)" "counts_ok sp pg" "active_handles sp (pg_backend pg) = []"
    using schedule_loop_ok[OF init(1), of "new_progress rs b"] init(2,3) by auto
  define res where "res = (\<lambda>r. \<lparr>tq_request_id = tr_request_id r, tq_content = content_of (pg_accumulators pg) r,
      tq_finish_reason = finish_reason (pg_backend pg) (get_or [] (sp_routes sp) (tr_request_id r))\<rparr>)"
  have run: "run_fake_token_step_schedule rs cans tos fails shared b0 =
      Inr (map res rs, schedule_report rs sp pg, fold release_sequence (sp_handles sp) (pg_backend pg))"
    using assms(1) pg(1)
    by (simp add: run_fake_token_step_schedule_def sp_def initial_schedule_def b_def Let_def case_prod_beta' res_def)
  have fin: "is_finished (pg_backend pg) h" if "h \<in> set (sp_handles sp)" for h
    using pg(4) that by (auto simp: active_handles_def filter_empty_conv)
  have "result_ok r (res r)" if r: "r \<in> set rs" for r
  proof -
    obtain h where h: "(r, h) \<in> set (zip rs (sp_handles sp))"
      by (rule in_set_impl_in_set_zip1[of rs "sp_handles sp" r]) (use r init(1) in \<open>simp_all add: paired_def\<close>)
    then have "seq_ok (pg_backend pg) (pg_accumulators pg) r h" "h \<in> set (sp_handles sp)"
      "dget (sp_routes sp) (tr_request_id r) = Some h"
      using pg(2) init(1) by (auto simp: all_ok_def paired_def dest: set_zip_rightD)
    then obtain k where "dget (pg_accumulators pg) (tr_request_id r) = Some (map (token r) [0..<k])"
      "int k \<le> max 0 (tr_max_tokens r)" "finish_reason (pg_backend pg) h = ''stop'' \<Longrightarrow> tr_max_tokens r \<le> int k"
      "dget (sp_routes sp) (tr_request_id r) = Some h"
      using stop_iff[OF fin, of h] by (auto simp: seq_ok_def)
    then show ?thesis
      unfolding result_ok_def by (intro conjI exI[of _ k]) (auto simp: res_def content_of_def get_or_def)
  qed
  then have ok: "list_all2 result_ok rs (map res rs)" by (simp add: list_all2_map2 list_all2_same)
  have "filter (\<lambda>q. tq_finish_reason q = ''stop'') (map res rs) =
      map res (filter (\<lambda>r. finish_reason (pg_backend pg) (get_or [] (sp_routes sp) (tr_request_id r)) = ''stop'') rs)"
    by (simp add: filter_map comp_def res_def)
  then have "length (filter (\<lambda>q. tq_finish_reason q = ''stop'') (map res rs)) =
      length (filter (\<lambda>h. finish_reason (pg_backend pg) h = ''stop'') (sp_handles sp))"
    by (simp add: filter_map comp_def flip: init(4))
  also have "\<dots> = in_state sp (pg_backend pg) Q_FINISHED"
    unfolding in_state_def by (rule arg_cong[where f = length]) (intro filter_cong refl stop_iff fin)
  finally have stops: "length (filter (\<lambda>q. tq_finish_reason q = ''stop'') (map res rs)) = in_state sp (pg_backend pg) Q_FINISHED" .
  have "length (sp_handles sp) = length rs" using init(1) by (simp add: paired_def)
  then have sum: "in_state sp (pg_backend pg) Q_FINISHED + pg_cancelled pg + pg_timed_out pg + pg_failed pg = length rs"
    using all_finished_partition[OF pg(4)] pg(3) by (simp add: counts_ok_def)
  show ?thesis unfolding run using ok stops sum by (auto simp: schedule_report_def)
qed

definition demo_step_request :: "string \<Rightarrow> int \<Rightarrow> string \<Rightarrow> TokenStepRequest" where
  "demo_step_request rid n sampler =
     \<lparr>tr_request_id = rid, tr_prompt_label = ''p'', tr_max_tokens = n, tr_sampler_label = sampler\<rparr>"

theorem token_step_schedule_sound_witness:
  "\<exists>results report b. run_fake_token_step_schedule [demo_step_request ''a'' 2 ''s'', demo_step_request ''b'' 3 ''t'']
       [\<lparr>fp_request_id = ''b'', fp_at_decode_step = 1\<rparr>] [] [] [] new_backend = Inr (results, report, b)
     \<and> list_all2 result_ok [demo_step_request ''a'' 2 ''s'', demo_step_request ''b'' 3 ''t''] results"
  using token_step_schedule_sound[of "[demo_step_request ''a'' 2 ''s'', demo_step_request ''b'' 3 ''t'']"
      "[\<lparr>fp_request_id = ''b'', fp_at_decode_step = 1\<rparr>]" "[]" "[]" "[]" new_backend]
  by (auto simp: demo_step_request_def)

text \<open>Two requests with one id: the tokens of the first have no accumulator.\<close>

lemma duplicate_ids_raise:
  "run_fake_token_step_schedule [demo_step_request ''a'' 1 ''s'', demo_step_request ''a'' 1 ''s''] [] [] [] [] new_backend
   = Inl (AccumulatorKeyError ''unknown'')"
  by code_simp

text \<open>A request whose sampler label occurs in another's id is reported as a bleed although nothing bled.\<close>

lemma bleed_false_positive:
  "(case run_fake_token_step_schedule [demo_step_request ''a'' 1 ''x'', demo_step_request ''x1'' 1 ''s''] [] [] [] [] new_backend of
      Inl e \<Rightarrow> False
    | Inr (results, report, b) \<Rightarrow> tp_demux_bleed_detected report \<and> map tq_content results = [''a_x_0'', ''x1_s_0''])"
  by code_simp

end
