(* ===== verification/Spec2Isabelle.thy ===== *)
theory Spec2Isabelle
  imports Service Model_Store Log_Safety ThreadWake_Manager ThreadWake_Storage Stream_Demux Token_Step
begin

text \<open>
  Whoosh'd is a local inference broker: an HTTP service that receives chat and generate requests,
  decides whether they may run, queues them, resolves the model to a runtime adapter, lets the adapter
  run them and keeps account of what is active. Beside this path it analyses prompts for reusable
  prefixes (ThreadWake), keeps a store of model weights, and contains the contract and the simulated
  backends of a future continuous-batching scheduler. This development models these parts from
  \<open>src/whooshd\<close> and proves what makes each of them correct.

  \<^bold>\<open>The request path.\<close>
  \<^item> \<open>Service\<close> (\<open>app.py\<close>): version negotiation, route resolution and vision check around the chat,
    generate and cancel endpoints, and the interleaving of the handlers with warm-up and unload. Every
    service step is simulated by a step of the broker, so its safety properties carry over.
  \<^item> \<open>Broker\<close> (\<open>app.py\<close>): the handlers as the sections between two awaits, as functions on one
    state (runtime state, queue, controller, waiting and running coroutines) and an inductive step
    relation that interleaves them in any order. Invariant, single dispatch, capacity, no leaks.
  \<^item> \<open>Admission\<close>, \<open>Capacity_Controller\<close>, \<open>Capacity_Context\<close> (\<open>admission.py\<close>, \<open>capacity_controller.py\<close>,
    \<open>capacity_context.py\<close>, \<open>capacity_profile.py\<close>): the shape of a request, its cost and context budget,
    the calibrated limit with its profile cache, and the decision on every branch. The controller's
    \<open>evaluate\<close> refines the abstract \<open>decide\<close>.
  \<^item> \<open>Request_Queue\<close>, \<open>Scheduler\<close>, \<open>Batching\<close> (\<open>queue.py\<close>, \<open>scheduler.py\<close>, \<open>batching.py\<close>): the
    deque, selection with reservation, one pass of the waiting loop, the two policies with the bypass
    bound, and the grouping of queued requests.
  \<^item> \<open>Runtime_State\<close>, \<open>Contracts\<close> (\<open>runtime/__init__.py\<close>, \<open>contracts.py\<close>): request records,
    reservations, counters and what is derived from them.
  \<^item> \<open>Routing\<close>, \<open>Registry\<close>, \<open>Lifecycle\<close> (\<open>routing.py\<close>, \<open>registry.py\<close>, \<open>app.py\<close>): adapter table and
    resolution, the model registry with its rules and cache, health, readiness, warm-up and unload.
  \<^item> \<open>Control_Plane\<close>, \<open>Backend_Policy\<close>, \<open>Correlation\<close>, \<open>Config\<close>, \<open>Log_Safety\<close> (the modules of the same
    names, \<open>backend_request_policy.py\<close>): error envelopes and negotiation, what crosses to a backend,
    identifiers, the environment getters, and the logging boundary, for which noninterference is
    proved: what is logged does not depend on guarded content beyond its size.

  \<^bold>\<open>Models on disk.\<close> \<open>Model_Inventory\<close> (\<open>models/\<close>): external routes, resolver and scan.
  \<open>Model_Store\<close> (\<open>model_registry/\<close>): the store as a map from paths to nodes, with bootstrap, inspection,
  registration, atomic writes and copies that fail half way; the manifest's invariant, confinement,
  idempotence and the round trip through the disk.

  \<^bold>\<open>ThreadWake\<close> (\<open>runtime/threadwake/\<close>). \<open>Json_Text\<close> and \<open>ThreadWake_Prompt\<close>: canonical JSON, segments,
  metadata, prompt graph and cache key, and that equal keys mean equal prefixes up to normalization.
  \<open>ThreadWake_Index\<close>: the index with its recency list, scopes and eviction. \<open>ThreadWake_KV\<close>: handles,
  backend and tokenizer adapters, registries, event ring buffer, counters. \<open>ThreadWake_Manager\<close>:
  observation and execution with hit, miss and continuation over any history of calls and
  registrations. \<open>ThreadWake_Snapshots\<close>: prefix proofs, candidates, replay, manifests, artifacts,
  materials and the analysis pass. \<open>ThreadWake_Storage\<close>: the SQLite tables and the lifecycle harness.

  \<^bold>\<open>Continuous batching.\<close> \<open>Continuous_Scheduler\<close>, \<open>Stream_Demux\<close>, \<open>Token_Step\<close>: the token-level scheduler,
  the demultiplexer fed by it, and the token-step backend with its schedule.

  \<^bold>\<open>Interfaces.\<close> \<open>Whoosh_Prelude\<close> holds Python values, strings and dictionaries and two generic
  locales: \<open>keyed_store\<close> (the laws of a dictionary, interpreted on the association lists of the
  model) and \<open>op_machine\<close> (an invariant kept by every operation holds after any run), interpreted on
  the index, the scheduler, the storage and the model store. \<open>execution_slots\<close> is what the queue needs
  of the state it reserves in, interpreted on the runtime state with the admission check.
  \<open>request_property\<close> lifts a property of one request through the phases of the scheduler.
  \<open>escape_code\<close> and \<open>delimited_code\<close> are the laws that make JSON text injective, interpreted on both
  escapings. \<open>prompt_splitter\<close> and its extension \<open>prefix_tokenizer\<close> are the contract of the tokenizer
  adapters; the deterministic one meets both, the others the first. \<open>snapshot_sink\<close> is what the analysis
  pass needs of a store, interpreted on the SQLite and on the no-op store.

  \<^bold>\<open>State, errors, arithmetic.\<close> Objects are records passed and returned; dictionaries are association
  lists in insertion order; exceptions are values of a sum or option type, one constructor per kind
  the callers tell apart. Python integers are \<open>int\<close>, clock readings and scores are \<open>real\<close>, characters
  are the code points below 256. Awaits are the boundaries of the broker's steps: what a handler does
  between two of them is one function, and any other step may come between.

  \<^bold>\<open>Parameters.\<close> What the sources do not contain is an argument: the environment, the clock and random
  identifiers, SHA-256, \<open>str()\<close> and the text of floats, \<open>json.loads\<close>, \<open>urlsplit\<close>, YAML, pydantic's
  \<open>model_validate\<close>, the file system of the scans, the host probe, the outcome of an adapter call, of an
  SQL statement, of a copy or of a write, the third-party inference library and its tokenizers.
  Theorems that rely on such code name the documented behaviour they need (\<open>store_laws\<close>,
  \<open>validator_obeys\<close>, no digest collision on the texts at hand, \<open>float_texts\<close>) and have a witness in
  which it holds.

  \<^bold>\<open>Termination.\<close> All functions are total. Two loops are not structural: the partition of batch
  candidates, whose remaining list shrinks, and \<open>schedule_loop\<close>, where every pass that reaches the
  backend uses up a token or ends a sequence; both have their \<open>termination\<close> proof. The matchers of
  \<open>Log_Safety\<close> carry fuel that starts at one more than the length of the text; each step consumes at
  least one character, so it does not run out. The waiting loop of a queued request has no bound of
  its own: its passes are steps of the broker, and a pass after the deadline ends it.

  \<^bold>\<open>What the theorems found.\<close> The defects the model shows are proved as lemmas beside the properties, for
  example \<open>cancellation_overcommits\<close>, \<open>startup_always_ready\<close>, \<open>shared_key_takes_over_handle\<close>,
  \<open>slots_never_reused\<close>, \<open>abandoned_slot_stays\<close>, \<open>sizes_of_redactions\<close>, \<open>failed_copy_blocks\<close>.

  \<^bold>\<open>What is not modelled.\<close> The adapters themselves (processes, sockets and inference libraries), HTTP
  forwarding, the command line and the benchmarks; response bodies beyond status and code; the
  read-only inventory and metrics endpoints; the live batch, which is proved never to be reached.
  The broker has no step for a task that is cancelled while it awaits its adapter or for a stream whose
  response is dropped before the first chunk: nothing in the handlers closes such a record, so the
  results on slots hold for executions that return, fail or disconnect in mid-stream, and
  \<open>exec_abandoned\<close> with its lemmas says what the other case does. ThreadWake's observation runs in the
  chat handler before admission; it is modelled with the manager, not in the broker, because it does
  not touch the broker's state (a malformed field makes it raise before a record exists). A commit of
  the SQLite store that fails after its statement is described by \<open>upsert_candidate_uncommitted\<close> and is
  not among the operations whose histories are considered.
\<close>

end
